(* ===== verification/Prelude.thy ===== *)
theory Prelude
  imports Main "HOL-Library.Multiset" "HOL-Library.Word" "HOL-Library.Sublist" "HOL-Library.AList"
    "HOL-Library.List_Lexorder"
begin

text \<open>
  Shared vocabulary of the development.

  A JavaScript string is a sequence of 16-bit code units, so a string is a list of
  \<open>16 word\<close>; a literal of the source is written \<open>js ''abc''\<close>. A JavaScript \<open>Map\<close> iterates in
  insertion order and \<open>set\<close> on a present key keeps its position: that is an association list
  with \<open>AList.update\<close>. A function that may throw returns \<open>error + value\<close>; a method that mutates
  \<open>this\<close> and may throw is a state transformer \<open>('s, 'e, 'a) sx\<close>, which returns the state it leaves
  behind on the error path too. JSON values are \<open>json\<close>.
\<close>

named_theorems sx_defs
  \<open>the definitions of the state-and-exception combinators\<close>

section \<open>Strings\<close>

type_synonym cu = "16 word"
type_synonym str = "cu list"

definition js :: "string \<Rightarrow> str" where
  "js s = map (\<lambda>c. of_nat (of_char c)) s"

lemma code_unit_inj: "(of_nat (of_char c) :: cu) = of_nat (of_char d) \<longleftrightarrow> c = d"
proof
  assume "(of_nat (of_char c) :: cu) = of_nat (of_char d)"
  then have "unat (of_nat (of_char c) :: cu) = unat (of_nat (of_char d) :: cu)" by simp
  moreover have "of_char c < (256::nat)" and "of_char d < (256::nat)"
    using nat_of_char_less_256 by auto
  ultimately show "c = d" by (simp add: unat_of_nat)
qed simp

lemma js_eq_iff [simp]: "js s = js t \<longleftrightarrow> s = t"
  unfolding js_def by (metis inj_map_eq_map injI code_unit_inj)

lemma js_Nil [simp]: "js [] = []"
  by (simp add: js_def)

lemma js_eq_Nil [simp]: "js s = [] \<longleftrightarrow> s = []" "[] = js s \<longleftrightarrow> s = []"
  by (auto simp: js_def)

lemma js_append: "js (s @ t) = js s @ js t"
  by (simp add: js_def)

lemma js_in_map [simp]: "js s \<in> js ` A \<longleftrightarrow> s \<in> A"
  by auto

section \<open>JSON values\<close>

datatype json =
    JNull
  | JBool bool
  | JNum int
  | JStr str
  | JArr "json list"
  | JObj "(str \<times> json) list"

text \<open>Own properties of a JSON object, by name.\<close>

abbreviation jprop :: "(str \<times> json) list \<Rightarrow> str \<Rightarrow> json option" where
  "jprop r k \<equiv> map_of r k"

text \<open>A condition on an optional value, when it is there.\<close>

definition opt_all :: "('a \<Rightarrow> bool) \<Rightarrow> 'a option \<Rightarrow> bool" where
  "opt_all P v = (case v of None \<Rightarrow> True | Some x \<Rightarrow> P x)"

lemma opt_all_simps [simp]: "opt_all P None" "opt_all P (Some x) \<longleftrightarrow> P x"
  by (simp_all add: opt_all_def)

text \<open>An optional value that is there and satisfies a condition.\<close>

definition opt_ex :: "('a \<Rightarrow> bool) \<Rightarrow> 'a option \<Rightarrow> bool" where
  "opt_ex P v = (case v of None \<Rightarrow> False | Some x \<Rightarrow> P x)"

lemma opt_ex_simps [simp]: "\<not> opt_ex P None" "opt_ex P (Some x) \<longleftrightarrow> P x"
  by (simp_all add: opt_ex_def)

section \<open>Results\<close>

text \<open>
  What the code throws: \<open>Err m\<close> is \<open>new Error(m)\<close>, \<open>ZodError\<close> a failed schema parse,
  \<open>RangeError\<close> what \<open>toISOString\<close> throws on an invalid date.
\<close>

datatype err = Err str | ZodError | RangeError

text \<open>A schema parse of a value that already has the schema's static type.\<close>

definition zod_parse :: "('a \<Rightarrow> bool) \<Rightarrow> 'a \<Rightarrow> err + 'a" where
  "zod_parse ok x = (if ok x then Inr x else Inl ZodError)"

lemma zod_parse_Inr [simp]: "zod_parse ok x = Inr y \<longleftrightarrow> ok x \<and> y = x"
  by (auto simp: zod_parse_def)

lemma zod_parse_ok: "ok x \<Longrightarrow> zod_parse ok x = Inr x"
  by (simp add: zod_parse_def)

lemma zod_parse_Inl [simp]: "zod_parse ok x = Inl e \<longleftrightarrow> \<not> ok x \<and> e = ZodError"
  by (auto simp: zod_parse_def)

definition bind_res :: "'e + 'a \<Rightarrow> ('a \<Rightarrow> 'e + 'b) \<Rightarrow> 'e + 'b" where
  "bind_res r f = (case r of Inl e \<Rightarrow> Inl e | Inr x \<Rightarrow> f x)"

lemma bind_res_simps [simp]:
  "bind_res (Inl e) f = Inl e" "bind_res (Inr x) f = f x"
  by (simp_all add: bind_res_def)

lemma bind_res_Inr:
  "bind_res r f = Inr y \<longleftrightarrow> (\<exists>x. r = Inr x \<and> f x = Inr y)"
  by (cases r) auto

text \<open>\<open>xs.map(f)\<close> where \<open>f\<close> may throw: the first throw wins.\<close>

fun map_res :: "('a \<Rightarrow> 'e + 'b) \<Rightarrow> 'a list \<Rightarrow> 'e + 'b list" where
  "map_res f [] = Inr []"
| "map_res f (x # xs) =
     bind_res (f x) (\<lambda>y. bind_res (map_res f xs) (\<lambda>ys. Inr (y # ys)))"

lemma map_res_Inr:
  "map_res f xs = Inr ys \<longleftrightarrow> list_all2 (\<lambda>x y. f x = Inr y) xs ys"
proof (induction xs arbitrary: ys)
  case (Cons x xs)
  then show ?case by (cases ys) (auto simp: bind_res_Inr)
qed auto

lemma map_res_mem: "map_res f xs = Inr ys \<Longrightarrow> x \<in> set xs \<Longrightarrow> \<exists>y \<in> set ys. f x = Inr y"
  by (induction xs arbitrary: ys) (auto simp: bind_res_Inr)

lemma map_res_id: "\<forall>x \<in> set xs. f x = Inr x \<Longrightarrow> map_res f xs = Inr xs"
  by (induction xs) auto

definition isOk :: "'e + 'a \<Rightarrow> bool" where
  "isOk r = (case r of Inl _ \<Rightarrow> False | Inr _ \<Rightarrow> True)"

lemma isOk_simps [simp]: "isOk (Inl e) = False" "isOk (Inr x) = True"
  by (simp_all add: isOk_def)

section \<open>State and exceptions\<close>

type_synonym ('s, 'e, 'a) sx = "'s \<Rightarrow> ('e + 'a) \<times> 's"

definition sx_return :: "'a \<Rightarrow> ('s, 'e, 'a) sx" where
  [sx_defs]: "sx_return x = (\<lambda>s. (Inr x, s))"

definition sx_throw :: "'e \<Rightarrow> ('s, 'e, 'a) sx" where
  [sx_defs]: "sx_throw e = (\<lambda>s. (Inl e, s))"

definition sx_bind :: "('s, 'e, 'a) sx \<Rightarrow> ('a \<Rightarrow> ('s, 'e, 'b) sx) \<Rightarrow> ('s, 'e, 'b) sx" where
  [sx_defs]: "sx_bind m f =
     (\<lambda>s. case m s of (Inl e, t) \<Rightarrow> (Inl e, t) | (Inr x, t) \<Rightarrow> f x t)"

definition sx_gets :: "('s \<Rightarrow> 'a) \<Rightarrow> ('s, 'e, 'a) sx" where
  [sx_defs]: "sx_gets f = (\<lambda>s. (Inr (f s), s))"

definition sx_modify :: "('s \<Rightarrow> 's) \<Rightarrow> ('s, 'e, unit) sx" where
  [sx_defs]: "sx_modify f = (\<lambda>s. (Inr (), f s))"

definition sx_lift :: "'e + 'a \<Rightarrow> ('s, 'e, 'a) sx" where
  [sx_defs]: "sx_lift r = (\<lambda>s. (r, s))"

lemma sx_bind_assoc: "sx_bind (sx_bind m f) g = sx_bind m (\<lambda>x. sx_bind (f x) g)"
  by (auto simp: sx_bind_def split: prod.splits sum.splits)

lemma sx_bind_return [simp]: "sx_bind (sx_return x) f = f x"
  by (simp add: sx_bind_def sx_return_def)

text \<open>A \<open>for ... of\<close> loop whose body may throw.\<close>

fun sx_each :: "('a \<Rightarrow> ('s, 'e, unit) sx) \<Rightarrow> 'a list \<Rightarrow> ('s, 'e, unit) sx" where
  "sx_each f [] = sx_return ()"
| "sx_each f (x # xs) = sx_bind (f x) (\<lambda>_. sx_each f xs)"

text \<open>\<open>xs.map(f)\<close> and \<open>try\<close> with a \<open>catch\<close>, where the body acts on the state.\<close>

fun sx_maps :: "('a \<Rightarrow> ('s, 'e, 'b) sx) \<Rightarrow> 'a list \<Rightarrow> ('s, 'e, 'b list) sx" where
  "sx_maps f [] = sx_return []"
| "sx_maps f (x # xs) = sx_bind (f x) (\<lambda>y. sx_bind (sx_maps f xs) (\<lambda>ys. sx_return (y # ys)))"

definition sx_catch :: "('s, 'e, 'a) sx \<Rightarrow> ('e \<Rightarrow> ('s, 'e, 'a) sx) \<Rightarrow> ('s, 'e, 'a) sx" where
  [sx_defs]: "sx_catch m f = (\<lambda>s. case m s of (Inl e, t) \<Rightarrow> f e t | (Inr x, t) \<Rightarrow> (Inr x, t))"

lemma sx_bind_Inr: "sx_bind m f s = (Inr y, u) \<longleftrightarrow> (\<exists>x t. m s = (Inr x, t) \<and> f x t = (Inr y, u))"
  by (auto simp: sx_bind_def split: prod.splits sum.splits)

lemma sx_basic_Inr [simp]:
  "sx_return x s = (Inr y, t) \<longleftrightarrow> y = x \<and> t = s" "sx_throw e s \<noteq> (Inr y, t)"
  "sx_lift r s = (Inr y, t) \<longleftrightarrow> r = Inr y \<and> t = s"
  by (auto simp: sx_defs)

lemma sx_bind_run: "m s = (Inr x, t) \<Longrightarrow> sx_bind m f s = f x t"
  by (simp add: sx_bind_def)

lemma sx_lift_run [simp]: "sx_bind (sx_lift (Inr x)) f = f x" "sx_bind (sx_lift (Inl e)) f = sx_throw e"
  by (simp_all add: sx_defs fun_eq_iff)

text \<open>
  \<open>sx_valid P m Q E\<close>: from a state satisfying \<open>P\<close>, a normal return satisfies \<open>Q\<close> and a
  throw satisfies \<open>E\<close>.
\<close>

definition sx_valid ::
  "('s \<Rightarrow> bool) \<Rightarrow> ('s, 'e, 'a) sx \<Rightarrow> ('a \<Rightarrow> 's \<Rightarrow> bool) \<Rightarrow> ('e \<Rightarrow> 's \<Rightarrow> bool) \<Rightarrow> bool" where
  "sx_valid P m Q E \<longleftrightarrow>
     (\<forall>s. P s \<longrightarrow> (case m s of (Inr x, t) \<Rightarrow> Q x t | (Inl e, t) \<Rightarrow> E e t))"

lemma sx_validI:
  "(\<And>s x t. P s \<Longrightarrow> m s = (Inr x, t) \<Longrightarrow> Q x t) \<Longrightarrow>
   (\<And>s e t. P s \<Longrightarrow> m s = (Inl e, t) \<Longrightarrow> E e t) \<Longrightarrow> sx_valid P m Q E"
  by (auto simp: sx_valid_def split: prod.splits sum.splits)

lemma sx_validD:
  "sx_valid P m Q E \<Longrightarrow> P s \<Longrightarrow> m s = (Inr x, t) \<Longrightarrow> Q x t"
  "sx_valid P m Q E \<Longrightarrow> P s \<Longrightarrow> m s = (Inl e, t) \<Longrightarrow> E e t"
  by (fastforce simp: sx_valid_def)+

lemma sx_valid_bind:
  assumes "sx_valid P m R E" and "\<And>x. sx_valid (R x) (f x) Q E"
  shows "sx_valid P (sx_bind m f) Q E"
  using assms by (fastforce simp: sx_valid_def sx_bind_def split: prod.splits sum.splits)

lemma sx_valid_basic [simp]:
  "sx_valid P (sx_return x) Q E \<longleftrightarrow> (\<forall>s. P s \<longrightarrow> Q x s)"
  "sx_valid P (sx_throw e) Q E \<longleftrightarrow> (\<forall>s. P s \<longrightarrow> E e s)"
  "sx_valid P (sx_gets f) Q E \<longleftrightarrow> (\<forall>s. P s \<longrightarrow> Q (f s) s)"
  "sx_valid P (sx_modify g) Q E \<longleftrightarrow> (\<forall>s. P s \<longrightarrow> Q () (g s))"
  by (auto simp: sx_valid_def sx_defs)

lemma sx_valid_lift:
  "sx_valid P (sx_lift r) Q E \<longleftrightarrow>
     (\<forall>s. P s \<longrightarrow> (case r of Inr x \<Rightarrow> Q x s | Inl e \<Rightarrow> E e s))"
  by (auto simp: sx_valid_def sx_defs)

lemma sx_valid_weaken:
  "sx_valid P' m Q' E' \<Longrightarrow> (\<And>s. P s \<Longrightarrow> P' s) \<Longrightarrow> (\<And>x s. Q' x s \<Longrightarrow> Q x s) \<Longrightarrow>
   (\<And>e s. E' e s \<Longrightarrow> E e s) \<Longrightarrow> sx_valid P m Q E"
  by (fastforce simp: sx_valid_def split: prod.splits sum.splits)

lemma sx_valid_each:
  "(\<And>x. x \<in> set xs \<Longrightarrow> sx_valid I (f x) (\<lambda>_. I) E) \<Longrightarrow>
   sx_valid I (sx_each f xs) (\<lambda>_. I) E"
  by (induction xs) (auto intro!: sx_valid_bind [where R = "\<lambda>_. I"])

section \<open>Lists and insertion-ordered maps\<close>

text \<open>\<open>[...new Set(xs)]\<close>: the first occurrence of each element, in order.\<close>

primrec uniq :: "'a list \<Rightarrow> 'a list" where
  "uniq [] = []"
| "uniq (x # xs) = x # filter (\<lambda>y. y \<noteq> x) (uniq xs)"

lemma set_uniq [simp]: "set (uniq xs) = set xs"
  by (induction xs) auto

lemma distinct_uniq [simp]: "distinct (uniq xs)"
  by (induction xs) auto

lemma uniq_eq_Nil [simp]: "uniq xs = [] \<longleftrightarrow> xs = []"
  by (cases xs) auto

lemma uniq_distinct: "distinct xs \<Longrightarrow> uniq xs = xs"
  by (induction xs) (auto intro!: filter_True)

lemma uniq_uniq [simp]: "uniq (uniq xs) = uniq xs"
  by (simp add: uniq_distinct)

text \<open>The first value of each key.\<close>

fun dedupe_by_key :: "str set \<Rightarrow> (str \<times> 'a) list \<Rightarrow> 'a list" where
  "dedupe_by_key seen [] = []"
| "dedupe_by_key seen ((k, x) # kxs) =
     (if k \<in> seen then dedupe_by_key seen kxs else x # dedupe_by_key (insert k seen) kxs)"

lemma dedupe_by_key_subset: "set (dedupe_by_key seen kxs) \<subseteq> snd ` set kxs"
  by (induction seen kxs rule: dedupe_by_key.induct) auto

text \<open>\<open>uniqueStrings(values).sort()\<close>: code-unit order.\<close>

lemma uniq_sort_set_eq: "set xs = set ys \<Longrightarrow> sort (uniq xs) = sort (uniq (ys :: 'a :: linorder list))"
  by (intro sorted_distinct_set_unique) auto

lemma map_of_update: "map_of (AList.update k v m) = (map_of m)(k \<mapsto> v)"
  by (rule update_conv')

lemma keys_update:
  "map fst (AList.update k v m) =
     (if k \<in> set (map fst m) then map fst m else map fst m @ [k])"
  by (simp add: update_keys)

lemma map_snd_update_fresh:
  "k \<notin> set (map fst m) \<Longrightarrow> AList.update k v m = m @ [(k, v)]"
  by (induction m) auto

lemma list_all2_mem_right: "list_all2 P xs ys \<Longrightarrow> y \<in> set ys \<Longrightarrow> \<exists>x \<in> set xs. P x y"
  by (induction rule: list_all2_induct) auto

lemma map_of_is_None: "map_of m k = None \<longleftrightarrow> k \<notin> set (map fst m)"
  by (force simp: map_of_eq_None_iff)

section \<open>Lists of values with an id\<close>

text \<open>\<open>findIndex\<close> followed by an assignment to the element found.\<close>

fun replace_first :: "('a \<Rightarrow> bool) \<Rightarrow> 'a \<Rightarrow> 'a list \<Rightarrow> 'a list" where
  "replace_first P v [] = []"
| "replace_first P v (x # xs) = (if P x then v # xs else x # replace_first P v xs)"

text \<open>The values seen before, each time they are met again.\<close>

fun find_duplicates :: "str set \<Rightarrow> str list \<Rightarrow> str list" where
  "find_duplicates seen [] = []"
| "find_duplicates seen (v # vs) =
     (if v \<in> seen then [v] else []) @ find_duplicates (insert v seen) vs"

lemma find_duplicates_Nil:
  "find_duplicates seen xs = [] \<longleftrightarrow> distinct xs \<and> seen \<inter> set xs = {}"
  by (induction seen xs rule: find_duplicates.induct) auto

text \<open>\<open>xs.find((x) => g(x) === k)\<close>.\<close>

abbreviation lookup :: "('a \<Rightarrow> 'k) \<Rightarrow> 'a list \<Rightarrow> 'k \<Rightarrow> 'a option" where
  "lookup g xs k \<equiv> find (\<lambda>x. g x = k) xs"

lemma lookup_Some: "lookup g xs k = Some x \<Longrightarrow> x \<in> set xs \<and> g x = k"
  by (auto simp: find_Some_iff)

lemma lookup_None: "lookup g xs k = None \<longleftrightarrow> k \<notin> set (map g xs)"
  by (auto simp: find_None_iff)

lemma lookup_push: "lookup g xs (g x) = None \<Longrightarrow> lookup g (xs @ [x]) = (lookup g xs)(g x \<mapsto> x)"
  by (induction xs) (auto simp: fun_eq_iff)

lemma lookup_replace:
  "lookup g xs k = Some y \<Longrightarrow> g u = k \<Longrightarrow>
   lookup g (replace_first (\<lambda>x. g x = k) u xs) = (lookup g xs)(k \<mapsto> u)"
  by (induction xs) (auto simp: fun_eq_iff split: if_splits)

lemma map_replace: "g u = k \<Longrightarrow> map g (replace_first (\<lambda>x. g x = k) u xs) = map g xs"
  by (induction xs) auto

lemma list_all_replace: "list_all P xs \<Longrightarrow> P u \<Longrightarrow> list_all P (replace_first Q u xs)"
  by (induction xs) auto

lemma replace_first_update:
  "\<forall>(k, v) \<in> set m. g v = k \<Longrightarrow> k \<in> fst ` set m \<Longrightarrow>
   replace_first (\<lambda>v. g v = k) u (map snd m) = map snd (AList.update k u m)"
  by (induction m) auto

lemma find_values:
  "\<forall>(k, v) \<in> set m. g v = k \<Longrightarrow> find (\<lambda>v. g v = k) (map snd m) = map_of m k"
  by (induction m) auto

end
