(* ===== verification/JsText.thy ===== *)
theory JsText
  imports Prelude
begin

text \<open>
  The string operations of the ECMAScript standard library the packages use, on code units, and
  \<open>path.posix.normalize\<close> of \<open>node:path\<close> as its documentation states it: \<open>.\<close> and empty segments
  vanish, \<open>..\<close> removes the segment before it, a leading and a trailing slash are kept. The main
  results are that splitting and joining are inverse, that a normalised path has its \<open>..\<close> segments
  only in front, and that normalisation is idempotent.
\<close>

named_theorems text_simps \<open>evaluation rules for string operations on literals\<close>

section \<open>String.prototype\<close>

abbreviation SLASH :: cu where "SLASH \<equiv> 47"
abbreviation BACKSLASH :: cu where "BACKSLASH \<equiv> 92"
abbreviation COLON :: cu where "COLON \<equiv> 58"
abbreviation DOT :: cu where "DOT \<equiv> 46"

definition startsWith :: "str \<Rightarrow> str \<Rightarrow> bool" where
  "startsWith s p = prefix p s"

definition endsWith :: "str \<Rightarrow> str \<Rightarrow> bool" where
  "endsWith s p = suffix p s"

definition str_includes :: "str \<Rightarrow> str \<Rightarrow> bool" where
  "str_includes s p = sublist p s"

text \<open>White space and line terminators, as \<open>trim\<close> removes them.\<close>

definition is_white :: "cu \<Rightarrow> bool" where
  "is_white c \<longleftrightarrow> (9 \<le> c \<and> c \<le> 13) \<or> c = 32 \<or> c = 160 \<or> c = 0x1680 \<or>
     (0x2000 \<le> c \<and> c \<le> 0x200A) \<or> c = 0x2028 \<or> c = 0x2029 \<or> c = 0x202F \<or> c = 0x205F \<or>
     c = 0x3000 \<or> c = 0xFEFF"

definition trim :: "str \<Rightarrow> str" where
  "trim s = rev (dropWhile is_white (rev (dropWhile is_white s)))"

lemma trim_fix: "s = [] \<or> \<not> is_white (hd s) \<and> \<not> is_white (last s) \<Longrightarrow> trim s = s"
proof -
  assume s: "s = [] \<or> \<not> is_white (hd s) \<and> \<not> is_white (last s)"
  have "dropWhile is_white s = s" using s by (cases s) auto
  moreover have "dropWhile is_white (rev s) = rev s"
    using s by (cases s rule: rev_cases) auto
  ultimately show "trim s = s" by (simp add: trim_def)
qed

lemma trim_ends: "trim s = [] \<or> \<not> is_white (hd (trim s)) \<and> \<not> is_white (last (trim s))"
proof (cases "trim s = []")
  case False
  let ?d = "dropWhile is_white s"
  obtain e where e: "?d = trim s @ e"
    unfolding trim_def by (metis rev_append rev_rev_ident takeWhile_dropWhile_id)
  have "?d \<noteq> []" using e False by auto
  then have "\<not> is_white (hd ?d)" by (rule hd_dropWhile)
  moreover have "hd ?d = hd (trim s)" using e False by simp
  moreover have "dropWhile is_white (rev ?d) \<noteq> []" using False by (simp add: trim_def)
  then have "\<not> is_white (hd (dropWhile is_white (rev ?d)))" by (rule hd_dropWhile)
  then have "\<not> is_white (last (trim s))" by (simp add: trim_def last_rev)
  ultimately show ?thesis by simp
qed simp

lemma trim_trim [simp]: "trim (trim s) = trim s"
  by (rule trim_fix) (rule trim_ends)

definition is_digit :: "cu \<Rightarrow> bool" where "is_digit c \<longleftrightarrow> 48 \<le> c \<and> c \<le> 57"
definition is_lower :: "cu \<Rightarrow> bool" where "is_lower c \<longleftrightarrow> 97 \<le> c \<and> c \<le> 122"
definition is_upper :: "cu \<Rightarrow> bool" where "is_upper c \<longleftrightarrow> 65 \<le> c \<and> c \<le> 90"

text \<open>ASCII case folding, which is what an \<open>i\<close> flag without \<open>u\<close> does to ASCII patterns.\<close>

definition ascii_lower :: "str \<Rightarrow> str" where
  "ascii_lower s = map (\<lambda>c. if is_upper c then c + 32 else c) s"

text \<open>\<open>s.replace(/\\/g, "/")\<close>.\<close>

definition slashes :: "str \<Rightarrow> str" where
  "slashes s = map (\<lambda>c. if c = BACKSLASH then SLASH else c) s"

fun split_on :: "cu \<Rightarrow> str \<Rightarrow> str list" where
  "split_on d [] = [[]]"
| "split_on d (c # cs) =
     (if c = d then [] # split_on d cs
      else (case split_on d cs of [] \<Rightarrow> [[c]] | w # ws \<Rightarrow> (c # w) # ws))"

fun join_with :: "str \<Rightarrow> str list \<Rightarrow> str" where
  "join_with d [] = []"
| "join_with d [w] = w"
| "join_with d (w # v # ws) = w @ d @ join_with d (v # ws)"

lemma split_on_nonempty [simp]: "split_on d s \<noteq> []" "[] \<noteq> split_on d s"
  by (induction s) (auto split: list.splits)

lemma split_on_no_sep: "w \<in> set (split_on d s) \<Longrightarrow> d \<notin> set w"
  by (induction s arbitrary: w) (fastforce split: list.splits if_splits)+

lemma split_on_plain: "d \<notin> set s \<Longrightarrow> split_on d s = [s]"
  by (induction s) auto

lemma join_split [simp]: "join_with [d] (split_on d s) = s"
proof (induction s)
  case (Cons c cs)
  then show ?case
    by (cases "split_on d cs"; cases "tl (split_on d cs)") (auto split: list.splits)
qed simp

lemma split_on_append_sep:
  "d \<notin> set w \<Longrightarrow> split_on d (w @ d # s) = w # split_on d s"
  by (induction w) auto

lemma split_join:
  "ws \<noteq> [] \<Longrightarrow> (\<forall>w \<in> set ws. d \<notin> set w) \<Longrightarrow> split_on d (join_with [d] ws) = ws"
  by (induction "[d]" ws rule: join_with.induct)
    (auto simp: split_on_plain split_on_append_sep)

lemma split_on_snoc_sep: "split_on d (s @ [d]) = split_on d s @ [[]]"
  by (induction s) (auto split: list.splits)

lemma join_eq_Nil: "(\<forall>w \<in> set ws. w \<noteq> []) \<Longrightarrow> join_with d ws = [] \<longleftrightarrow> ws = []"
  by (induction d ws rule: join_with.induct) auto

lemma join_with_hd:
  "ws \<noteq> [] \<Longrightarrow> hd ws \<noteq> [] \<Longrightarrow> hd (join_with d ws) = hd (hd ws)"
  by (induction d ws rule: join_with.induct) auto

lemma join_with_last:
  "ws \<noteq> [] \<Longrightarrow> (\<forall>w \<in> set ws. w \<noteq> []) \<Longrightarrow> last (join_with d ws) = last (last ws)"
  by (induction d ws rule: join_with.induct) (auto simp: join_eq_Nil)

lemma join_with_append:
  "us \<noteq> [] \<Longrightarrow> vs \<noteq> [] \<Longrightarrow> join_with d (us @ vs) = join_with d us @ d @ join_with d vs"
  by (induction d us rule: join_with.induct) (auto simp: neq_Nil_conv)

section \<open>Decimal numbers and identifiers\<close>

fun dec_nat :: "nat \<Rightarrow> str" where
  "dec_nat n = (if n < 10 then [of_nat (48 + n)] else dec_nat (n div 10) @ [of_nat (48 + n mod 10)])"

declare dec_nat.simps [simp del]

text \<open>\<open>String(n)\<close> for an integer.\<close>

definition dec_int :: "int \<Rightarrow> str" where
  "dec_int n = (if n < 0 then js ''-'' @ dec_nat (nat (- n)) else dec_nat (nat n))"

definition padStart :: "nat \<Rightarrow> cu \<Rightarrow> str \<Rightarrow> str" where
  "padStart k c s = replicate (k - length s) c @ s"

text \<open>\<open>value.replace(/[^a-zA-Z0-9_-]/g, "_")\<close>.\<close>

definition is_id_char :: "cu \<Rightarrow> bool" where
  "is_id_char c \<longleftrightarrow> is_lower c \<or> is_upper c \<or> is_digit c \<or> c = 95 \<or> c = 45"

definition sanitizeIdPart :: "str \<Rightarrow> str" where
  "sanitizeIdPart s = map (\<lambda>c. if is_id_char c then c else 95) s"

fun undec :: "str \<Rightarrow> nat" where
  "undec s = foldl (\<lambda>n c. 10 * n + (unat c - 48)) 0 s"

lemma unat_digit: "k < 10 \<Longrightarrow> unat (of_nat (48 + k) :: cu) = 48 + k"
  by (simp only: unat_of_nat) simp

lemma undec_dec_nat [simp]: "undec (dec_nat n) = n"
proof (induction n rule: dec_nat.induct)
  case (1 n)
  show ?case
  proof (cases "n < 10")
    case True
    then show ?thesis using unat_digit [of n] by (simp add: dec_nat.simps [of n])
  next
    case False
    have "undec (dec_nat n) = 10 * undec (dec_nat (n div 10)) + n mod 10"
      using False unat_digit [of "n mod 10"] by (simp add: dec_nat.simps [of n])
    with 1 [OF False] show ?thesis by (simp add: mult_div_mod_eq)
  qed
qed

lemma dec_nat_inj: "dec_nat m = dec_nat n \<longleftrightarrow> m = n"
  by (metis undec_dec_nat)

lemma of_nat_digit_is_digit: "k < 10 \<Longrightarrow> is_digit (of_nat (48 + k))"
  unfolding is_digit_def word_le_nat_alt using unat_digit [of k] by simp

lemma dec_nat_digits: "c \<in> set (dec_nat n) \<Longrightarrow> is_digit c"
proof (induction n rule: dec_nat.induct)
  case (1 n)
  then show ?case
    using of_nat_digit_is_digit [of n] of_nat_digit_is_digit [of "n mod 10"]
    by (subst (asm) (2) dec_nat.simps) (auto split: if_splits)
qed

lemma undec_zeros: "undec (replicate k 48 @ s) = undec s"
proof -
  have "foldl (\<lambda>n (c :: cu). 10 * n + (unat c - 48)) 0 (replicate k 48) = 0"
    by (induction k) auto
  then show ?thesis by simp
qed

lemma padStart_dec_inj: "padStart k 48 (dec_nat m) = padStart k 48 (dec_nat n) \<longleftrightarrow> m = n"
  unfolding padStart_def by (metis undec_zeros undec_dec_nat)

lemma padStart_digits: "c \<in> set (padStart k 48 (dec_nat n)) \<Longrightarrow> is_digit c"
  by (auto simp: padStart_def is_digit_def dest: dec_nat_digits split: if_splits)

section \<open>path.posix.normalize\<close>

text \<open>
  The segments of a normalised path, the result so far reversed in \<open>acc\<close>. \<open>rel\<close> says that the
  path is relative, so that a \<open>..\<close> with nothing to remove is kept.
\<close>

fun norm_segs :: "bool \<Rightarrow> str list \<Rightarrow> str list \<Rightarrow> str list" where
  "norm_segs rel [] acc = rev acc"
| "norm_segs rel (w # ws) acc =
     (if w = [] \<or> w = js ''.'' then norm_segs rel ws acc
      else if w = js ''..'' then
        (case acc of
           [] \<Rightarrow> norm_segs rel ws (if rel then [w] else [])
         | t # ts \<Rightarrow> if t = js ''..'' then norm_segs rel ws (w # acc) else norm_segs rel ws ts)
      else norm_segs rel ws (w # acc))"

definition posix_isAbsolute :: "str \<Rightarrow> bool" where
  "posix_isAbsolute p = startsWith p [SLASH]"

definition posix_normalize :: "str \<Rightarrow> str" where
  "posix_normalize p =
     (if p = [] then js ''.''
      else let absolute = posix_isAbsolute p;
               trailing = endsWith p [SLASH];
               body = join_with [SLASH] (norm_segs (\<not> absolute) (split_on SLASH p) [])
           in if body = []
              then (if absolute then [SLASH] else if trailing then js ''./'' else js ''.'')
              else (if absolute then [SLASH] else []) @ body @ (if trailing then [SLASH] else []))"

text \<open>Segments a normalised path may hold, and the shape of a normalised segment list.\<close>

definition plain_seg :: "str \<Rightarrow> bool" where
  "plain_seg w \<longleftrightarrow> w \<noteq> [] \<and> w \<noteq> js ''.'' \<and> w \<noteq> js ''..'' \<and> SLASH \<notin> set w"

fun canon_segs :: "bool \<Rightarrow> str list \<Rightarrow> bool" where
  "canon_segs rel [] = True"
| "canon_segs rel (w # ws) =
     ((w = js ''..'' \<and> rel \<and> canon_segs rel ws) \<or> (plain_seg w \<and> (\<forall>v \<in> set ws. plain_seg v)))"

lemma plain_seg_not_special [simp]:
  "\<not> plain_seg []" "\<not> plain_seg (js ''.'')" "\<not> plain_seg (js ''..'')"
  by (auto simp: plain_seg_def)

lemma canon_segs_plain_snoc:
  "canon_segs rel ws \<Longrightarrow> plain_seg w \<Longrightarrow> canon_segs rel (ws @ [w])"
  by (induction ws) auto

lemma canon_segs_butlast: "canon_segs rel (ws @ [w]) \<Longrightarrow> canon_segs rel ws"
  by (induction ws) auto

lemma canon_segs_last_up:
  "canon_segs rel (ws @ [js ''..'']) \<Longrightarrow> rel \<and> (\<forall>w \<in> set ws. w = js ''..'')"
  by (induction ws) auto

lemma canon_segs_all_ups: "\<forall>w \<in> set ws. w = js ''..'' \<Longrightarrow> canon_segs True ws"
  by (induction ws) auto

lemma canon_segs_no_up: "canon_segs False ws \<longleftrightarrow> (\<forall>w \<in> set ws. plain_seg w)"
  by (cases ws) auto

lemma canon_segs_mem: "canon_segs rel ws \<Longrightarrow> w \<in> set ws \<Longrightarrow> plain_seg w \<or> (w = js ''..'' \<and> rel)"
  by (induction ws) auto

lemma canon_segs_prefix_up:
  "canon_segs rel (us @ js ''..'' # vs) \<Longrightarrow> rel \<and> (\<forall>w \<in> set us. w = js ''..'')"
  by (induction us) auto

lemma norm_segs_canon:
  "canon_segs rel (rev acc) \<Longrightarrow> \<forall>w \<in> set ws. SLASH \<notin> set w \<Longrightarrow>
   canon_segs rel (norm_segs rel ws acc)"
proof (induction rel ws acc rule: norm_segs.induct)
  case (2 rel w ws acc)
  consider (skip) "w = [] \<or> w = js ''.''" | (up) "w = js ''..''" | (plain) "plain_seg w"
    using "2.prems" by (auto simp: plain_seg_def)
  then show ?case
  proof cases
    case skip
    then show ?thesis using 2 by auto
  next
    case plain
    then show ?thesis
      using 2 canon_segs_plain_snoc [of rel "rev acc" w] by (auto simp: plain_seg_def)
  next
    case up
    show ?thesis
    proof (cases acc)
      case Nil
      then show ?thesis using up 2 by (cases rel) (auto simp: canon_segs_all_ups)
    next
      case (Cons t ts)
      show ?thesis
      proof (cases "t = js ''..''")
        case True
        then have "rel" and "\<forall>w \<in> set (rev acc). w = js ''..''"
          using canon_segs_last_up [of rel "rev ts"] "2.prems" Cons by auto
        then have "canon_segs rel (rev acc @ [w])"
          using up canon_segs_all_ups [of "rev acc @ [w]"] by auto
        then show ?thesis using 2 up Cons True by auto
      next
        case False
        then show ?thesis
          using 2 up Cons canon_segs_butlast [of rel "rev ts" t] by auto
      qed
    qed
  qed
qed simp

lemma norm_segs_fix:
  "canon_segs rel (rev acc @ ws) \<Longrightarrow> norm_segs rel ws acc = rev acc @ ws"
proof (induction ws arbitrary: acc)
  case (Cons w ws)
  have w: "plain_seg w \<or> w = js ''..''"
    using canon_segs_mem [OF Cons.prems, of w] by auto
  have "norm_segs rel (w # ws) acc = norm_segs rel ws (w # acc)"
  proof (cases "w = js ''..''")
    case True
    with Cons.prems have "rel" and "\<forall>u \<in> set acc. u = js ''..''"
      using canon_segs_prefix_up [of rel "rev acc" ws] by auto
    with True show ?thesis by (cases acc) auto
  next
    case False
    with w show ?thesis by (auto simp: plain_seg_def)
  qed
  with Cons show ?case by simp
qed simp

lemma norm_segs_snoc_Nil [simp]: "norm_segs rel (ws @ [[]]) acc = norm_segs rel ws acc"
  by (induction rel ws acc rule: norm_segs.induct) (auto split: list.splits)

lemma startsWith_slash [simp]: "startsWith p [c] \<longleftrightarrow> p \<noteq> [] \<and> hd p = c"
  by (cases p) (auto simp: startsWith_def)

lemma endsWith_slash [simp]: "endsWith p [c] \<longleftrightarrow> p \<noteq> [] \<and> last p = c"
  by (cases p rule: rev_cases) (auto simp: endsWith_def suffix_def)

lemma js_dots: "js ''.'' = [DOT]" "js ''..'' = [DOT, DOT]" "js ''./'' = [DOT, SLASH]"
  by (simp_all add: js_def)

lemma canon_segs_join:
  assumes "canon_segs rel ws" and "ws \<noteq> []"
  shows "split_on SLASH (join_with [SLASH] ws) = ws" (is ?split)
    and "join_with [SLASH] ws \<noteq> []" (is ?nonempty)
    and "hd (join_with [SLASH] ws) \<noteq> SLASH" (is ?hd)
    and "last (join_with [SLASH] ws) \<noteq> SLASH" (is ?last)
proof -
  have mem: "w \<noteq> [] \<and> SLASH \<notin> set w" if "w \<in> set ws" for w
    using canon_segs_mem [OF assms(1) that] by (auto simp: plain_seg_def js_dots)
  then show ?split using assms(2) by (intro split_join) auto
  show ?nonempty using join_eq_Nil [of ws] mem assms(2) by blast
  show ?hd using join_with_hd [OF assms(2)] mem [of "hd ws"] assms(2) by (auto simp: neq_Nil_conv)
  show ?last using join_with_last [OF assms(2)] mem [of "last ws"] mem assms(2)
    by (metis last_in_set)
qed

definition path_segs :: "str \<Rightarrow> str list" where
  "path_segs p = norm_segs (\<not> posix_isAbsolute p) (split_on SLASH p) []"

lemma path_segs_canon: "canon_segs (\<not> posix_isAbsolute p) (path_segs p)"
  unfolding path_segs_def by (intro norm_segs_canon) (auto dest: split_on_no_sep)

lemma posix_normalize_segs:
  assumes "path_segs p \<noteq> []"
  shows "posix_normalize p =
    (if posix_isAbsolute p then [SLASH] else []) @ join_with [SLASH] (path_segs p) @
    (if endsWith p [SLASH] then [SLASH] else [])"
proof -
  have "p \<noteq> []" using assms by (auto simp: path_segs_def)
  moreover have "join_with [SLASH] (path_segs p) \<noteq> []"
    using canon_segs_join [OF path_segs_canon assms] by blast
  ultimately show ?thesis by (simp add: posix_normalize_def path_segs_def Let_def)
qed

lemma posix_normalize_dots:
  assumes "path_segs p = []"
  shows "posix_normalize p \<in> {js ''.'', js ''./'', [SLASH]}"
  using assms by (auto simp: posix_normalize_def path_segs_def Let_def)

lemma posix_normalize_eval:
  "posix_normalize (js ''.'') = js ''.''" "posix_normalize (js ''./'') = js ''./''"
  "posix_normalize [SLASH] = [SLASH]"
  by (simp_all add: posix_normalize_def posix_isAbsolute_def js_dots Let_def)

lemma normalize_parts:
  assumes "path_segs p \<noteq> []"
  shows "posix_isAbsolute (posix_normalize p) = posix_isAbsolute p"
    and "endsWith (posix_normalize p) [SLASH] = endsWith p [SLASH]"
    and "path_segs (posix_normalize p) = path_segs p"
proof -
  let ?b = "join_with [SLASH] (path_segs p)"
  note j = canon_segs_join [OF path_segs_canon assms]
  note n = posix_normalize_segs [OF assms]
  show a: "posix_isAbsolute (posix_normalize p) = posix_isAbsolute p"
    using j(2,3) unfolding n by (auto simp: posix_isAbsolute_def hd_append)
  show "endsWith (posix_normalize p) [SLASH] = endsWith p [SLASH]"
    using j(2,4) unfolding n by (auto simp: last_append)
  have "norm_segs (\<not> posix_isAbsolute p) (split_on SLASH (posix_normalize p)) [] =
        norm_segs (\<not> posix_isAbsolute p) (path_segs p) []"
    unfolding n using j(1) by (simp add: split_on_snoc_sep)
  then show "path_segs (posix_normalize p) = path_segs p"
    using norm_segs_fix [of "\<not> posix_isAbsolute p" "[]" "path_segs p"] path_segs_canon [of p] a
    by (simp add: path_segs_def)
qed

lemma posix_normalize_idem [simp]: "posix_normalize (posix_normalize p) = posix_normalize p"
proof (cases "path_segs p = []")
  case True
  then show ?thesis using posix_normalize_dots [OF True] posix_normalize_eval by auto
next
  case False
  then have "path_segs (posix_normalize p) \<noteq> []"
    by (simp add: normalize_parts)
  from posix_normalize_segs [OF this] show ?thesis
    unfolding normalize_parts [OF False] posix_normalize_segs [OF False, symmetric] .
qed

end
