(* ===== verification/Contracts.thy ===== *)
theory Contracts
  imports JsText
begin

text \<open>
  The kernel contracts of \<open>packages/kernel-contracts/src/core.ts\<close>: one record per schema and one
  predicate per schema holding the refinements that the static type does not give (non-empty
  strings, integer ranges, the hash pattern, \<open>superRefine\<close>). The constant \<open>schemaVersion\<close> field is
  left out of every record. A parse of an already typed value is \<open>zod_parse\<close> of the predicate.
\<close>

abbreviation str_min1 :: "str \<Rightarrow> bool" where
  "str_min1 s \<equiv> s \<noteq> []"

abbreviation opt_min1 :: "str option \<Rightarrow> bool" where
  "opt_min1 v \<equiv> opt_all (\<lambda>s. s \<noteq> []) v"

section \<open>Principals and capability scopes\<close>

datatype principal_kind = KindUser | KindAgent | KindService | KindSystem

record principal =
  pr_principalId :: str
  pr_kind :: principal_kind
  pr_displayName :: "str option"
  pr_tenantId :: "str option"
  pr_workspaceId :: "str option"
  pr_createdAt :: str

definition PrincipalSchema :: "principal \<Rightarrow> bool" where
  "PrincipalSchema p \<longleftrightarrow> str_min1 (pr_principalId p) \<and> opt_min1 (pr_displayName p) \<and>
     opt_min1 (pr_tenantId p) \<and> opt_min1 (pr_workspaceId p) \<and> str_min1 (pr_createdAt p)"

datatype capability_access = AccRead | AccWrite | AccExecute | AccAdmin

datatype scope_kind = FileScope | ToolScope | NetworkScope | SecretScope | ProcessScope | ExternalScope

record capability_scope =
  cs_kind :: scope_kind
  cs_resource :: str
  cs_access :: capability_access
  cs_constraints :: "(str \<times> json) list"

definition CapabilityScopeSchema :: "capability_scope \<Rightarrow> bool" where
  "CapabilityScopeSchema s \<longleftrightarrow> str_min1 (cs_resource s) \<and>
     \<not> (cs_kind s = SecretScope \<and> cs_access s \<noteq> AccRead) \<and>
     \<not> (cs_kind s = ExternalScope \<and> cs_access s = AccRead)"

definition parseCapabilityScopeObject :: "capability_scope \<Rightarrow> err + capability_scope" where
  "parseCapabilityScopeObject s = zod_parse CapabilityScopeSchema s"

section \<open>Tasks\<close>

datatype task_source = DesktopThread | DesktopAutomation | CliSource | ApiSource

record task_intent =
  ti_summary :: str
  ti_requestedAction :: str
  ti_successCriteria :: "str list"
  ti_outOfScope :: "str list"

record task_repo =
  tr_root :: "str option"
  tr_branch :: "str option"
  tr_worktreeClean :: "bool option"
  tr_protectedBranch :: "bool option"

record task_target =
  tt_branches :: "str list"
  tt_files :: "str list"
  tt_modules :: "str list"

datatype hint_field = HintTaskClass | HintRiskHints | HintTags
datatype hint_source = HintUser | HintAgent | HintSystem | HintPolicy | HintMemory | HintLegacy | HintUnknown

record hint_provenance =
  hp_field :: hint_field
  hp_value :: str
  hp_source :: hint_source
  hp_reason :: "str option"
  hp_createdAt :: "str option"

record task_hints =
  th_taskClass :: "str option"
  th_riskHints :: "str list"
  th_tags :: "str list"
  th_provenance :: "hint_provenance list"

record task_metadata =
  tm_legacySource :: "str option"
  tm_legacyHints :: "(str \<times> json) list option"
  tm_legacy :: "(str \<times> json) list option"

record task =
  t_taskId :: str
  t_source :: task_source
  t_title :: str
  t_requestedAction :: str
  t_successCriteria :: "str list"
  t_outOfScope :: "str list"
  t_intent :: "task_intent option"
  t_createdBy :: "principal option"
  t_repo :: task_repo
  t_workspace :: "task_repo option"
  t_context :: "(str \<times> json) list option"
  t_target :: task_target
  t_hints :: task_hints
  t_constraints :: "(str \<times> json) list"
  t_metadata :: "task_metadata option"
  t_createdAt :: str

definition TaskHintProvenanceSchema :: "hint_provenance \<Rightarrow> bool" where
  "TaskHintProvenanceSchema h \<longleftrightarrow> str_min1 (hp_value h) \<and> opt_min1 (hp_reason h) \<and>
     opt_min1 (hp_createdAt h)"

definition repo_ok :: "task_repo \<Rightarrow> bool" where
  "repo_ok r \<longleftrightarrow> opt_min1 (tr_root r) \<and> opt_min1 (tr_branch r)"

definition intent_ok :: "task_intent \<Rightarrow> bool" where
  "intent_ok i \<longleftrightarrow> str_min1 (ti_summary i) \<and> str_min1 (ti_requestedAction i)"

definition TaskSchema :: "task \<Rightarrow> bool" where
  "TaskSchema t \<longleftrightarrow> str_min1 (t_taskId t) \<and> str_min1 (t_title t) \<and> str_min1 (t_requestedAction t) \<and>
     opt_all intent_ok (t_intent t) \<and> opt_all PrincipalSchema (t_createdBy t) \<and>
     repo_ok (t_repo t) \<and> opt_all repo_ok (t_workspace t) \<and>
     opt_min1 (th_taskClass (t_hints t)) \<and>
     list_all TaskHintProvenanceSchema (th_provenance (t_hints t)) \<and>
     opt_all (\<lambda>m. opt_min1 (tm_legacySource m)) (t_metadata t) \<and>
     str_min1 (t_createdAt t)"

section \<open>Runs and steps\<close>

datatype run_status = RunQueued | RunRunning | RunBlocked | RunSucceeded | RunFailed | RunCancelled

text \<open>\<open>metadata\<close> is an object whose only key is the optional \<open>legacy\<close> record.\<close>

record run_metadata =
  rm_legacy :: "(str \<times> json) list option"

record run =
  r_runId :: str
  r_taskId :: str
  r_status :: run_status
  r_policyDecisionId :: "str option"
  r_metadata :: "run_metadata option"
  r_createdAt :: str
  r_updatedAt :: str
  r_completedAt :: "str option"

definition RunSchema :: "run \<Rightarrow> bool" where
  "RunSchema r \<longleftrightarrow> str_min1 (r_runId r) \<and> str_min1 (r_taskId r) \<and> opt_min1 (r_policyDecisionId r) \<and>
     str_min1 (r_createdAt r) \<and> str_min1 (r_updatedAt r) \<and> opt_min1 (r_completedAt r)"

datatype step_status =
  StepPending | StepRunning | StepBlocked | StepSucceeded | StepFailed | StepSkipped | StepCancelled

datatype step_kind = ToolStep | ExecutorStep | ApprovalStep | CheckpointStep | SystemStep

record kstep =
  s_stepId :: str
  s_runId :: str
  s_taskId :: str
  s_kind :: step_kind
  s_status :: step_status
  s_dependsOn :: "str list"
  s_createdAt :: str
  s_updatedAt :: str
  s_input :: "(str \<times> json) list"
  s_output :: "(str \<times> json) list option"

definition StepSchema :: "kstep \<Rightarrow> bool" where
  "StepSchema s \<longleftrightarrow> str_min1 (s_stepId s) \<and> str_min1 (s_runId s) \<and> str_min1 (s_taskId s) \<and>
     str_min1 (s_createdAt s) \<and> str_min1 (s_updatedAt s)"

section \<open>Permits, artifacts, events and leases\<close>

record approval_permit =
  ap_permitId :: str
  ap_taskId :: str
  ap_runId :: str
  ap_principalId :: "str option"
  ap_approverId :: "str option"
  ap_decisionHash :: str
  ap_policyDecisionHash :: "str option"
  ap_planHash :: str
  ap_approvedBy :: principal
  ap_scopes :: "capability_scope list"
  ap_capabilityScopes :: "str list"
  ap_issuedAt :: str
  ap_createdAt :: "str option"
  ap_expiresAt :: str
  ap_revokedAt :: "str option"
  ap_revokedReason :: "str option"
  ap_signature :: "str option"
  ap_reason :: "str option"

definition ApprovalPermitSchema :: "approval_permit \<Rightarrow> bool" where
  "ApprovalPermitSchema p \<longleftrightarrow>
     str_min1 (ap_permitId p) \<and> str_min1 (ap_taskId p) \<and> str_min1 (ap_runId p) \<and>
     opt_min1 (ap_principalId p) \<and> opt_min1 (ap_approverId p) \<and>
     str_min1 (ap_decisionHash p) \<and> opt_min1 (ap_policyDecisionHash p) \<and> str_min1 (ap_planHash p) \<and>
     PrincipalSchema (ap_approvedBy p) \<and>
     ap_scopes p \<noteq> [] \<and> list_all CapabilityScopeSchema (ap_scopes p) \<and>
     list_all str_min1 (ap_capabilityScopes p) \<and>
     str_min1 (ap_issuedAt p) \<and> opt_min1 (ap_createdAt p) \<and> str_min1 (ap_expiresAt p) \<and>
     opt_min1 (ap_revokedAt p) \<and> opt_min1 (ap_revokedReason p) \<and>
     opt_min1 (ap_signature p) \<and> opt_min1 (ap_reason p)"

text \<open>The pattern \<open>/^[a-f0-9]{64}$/\<close> of a SHA-256 digest in hex.\<close>

definition sha256_hex :: "str \<Rightarrow> bool" where
  "sha256_hex s \<longleftrightarrow> length s = 64 \<and> list_all (\<lambda>c. is_digit c \<or> (97 \<le> c \<and> c \<le> 102)) s"

datatype artifact_kind =
  FileArtifact | LogArtifact | PatchArtifact | EvidenceArtifact | CheckpointArtifact | OtherArtifact

record artifact =
  a_artifactId :: str
  a_taskId :: str
  a_runId :: "str option"
  a_kind :: artifact_kind
  a_uri :: str
  a_sha256 :: str
  a_sizeBytes :: int
  a_createdAt :: str
  a_metadata :: "(str \<times> json) list"

definition ArtifactSchema :: "artifact \<Rightarrow> bool" where
  "ArtifactSchema a \<longleftrightarrow> str_min1 (a_artifactId a) \<and> str_min1 (a_taskId a) \<and> opt_min1 (a_runId a) \<and>
     str_min1 (a_uri a) \<and> sha256_hex (a_sha256 a) \<and> 0 \<le> a_sizeBytes a \<and> str_min1 (a_createdAt a)"

record event =
  e_eventId :: str
  e_eventType :: str
  e_taskId :: "str option"
  e_runId :: "str option"
  e_stepId :: "str option"
  e_principalId :: "str option"
  e_createdAt :: str
  e_payload :: "(str \<times> json) list"
  e_prevHash :: "str option"
  e_hash :: "str option"

definition EventSchema :: "event \<Rightarrow> bool" where
  "EventSchema e \<longleftrightarrow> str_min1 (e_eventId e) \<and> str_min1 (e_eventType e) \<and> opt_min1 (e_taskId e) \<and>
     opt_min1 (e_runId e) \<and> opt_min1 (e_stepId e) \<and> opt_min1 (e_principalId e) \<and>
     str_min1 (e_createdAt e) \<and> opt_min1 (e_prevHash e) \<and> opt_min1 (e_hash e)"

record execution_lease =
  el_leaseId :: str
  el_runId :: str
  el_workerId :: str
  el_acquiredAt :: str
  el_expiresAt :: str
  el_heartbeatAt :: "str option"
  el_releasedAt :: "str option"

definition ExecutionLeaseSchema :: "('z) execution_lease_scheme \<Rightarrow> bool" where
  "ExecutionLeaseSchema l \<longleftrightarrow> str_min1 (el_leaseId l) \<and> str_min1 (el_runId l) \<and>
     str_min1 (el_workerId l) \<and> str_min1 (el_acquiredAt l) \<and> str_min1 (el_expiresAt l) \<and>
     opt_min1 (el_heartbeatAt l) \<and> opt_min1 (el_releasedAt l)"

text \<open>
  The schemas only look at these fields, so a record that keeps them keeps its validity; each
  update below is one the store and the managers perform.
\<close>

lemma RunSchema_id: "RunSchema r \<Longrightarrow> r_runId r \<noteq> []"
  by (simp add: RunSchema_def)

lemma StepSchema_id: "StepSchema s \<Longrightarrow> s_stepId s \<noteq> []"
  by (simp add: StepSchema_def)

end
