(* ===== verification/Canonical.thy ===== *)
theory Canonical
  imports JsText
begin

text \<open>
  The canonical text of a kernel object, \<open>stableStringifyKernelObject\<close> of
  \<open>packages/kernel-contracts/src/core.ts\<close> and its twin \<open>stableStringify\<close> of the approval permits:
  JSON with the keys of every object in code-unit order. The hash of an object is SHA-256
  (the argument \<open>sha256\<close>, text to hex digest) of that text. Here the objects are JSON whose numbers
  are integers; \<open>stableStringifyKernelObject\<close> of JsonText.thy is the function on all JavaScript values
  without fractions, and agrees with this one on JSON (\<open>kernel_text_of_json\<close>).
\<close>

section \<open>JSON.stringify of a string\<close>

definition hex_digit :: "nat \<Rightarrow> cu" where
  "hex_digit n = (if n < 10 then of_nat (48 + n) else of_nat (87 + n))"

definition hex4 :: "cu \<Rightarrow> str" where
  "hex4 c = (let n = unat c in
     [hex_digit (n div 4096), hex_digit (n div 256 mod 16), hex_digit (n div 16 mod 16),
      hex_digit (n mod 16)])"

definition high_surrogate :: "cu \<Rightarrow> bool" where
  "high_surrogate c \<longleftrightarrow> 0xD800 \<le> c \<and> c \<le> 0xDBFF"

definition low_surrogate :: "cu \<Rightarrow> bool" where
  "low_surrogate c \<longleftrightarrow> 0xDC00 \<le> c \<and> c \<le> 0xDFFF"

definition json_escape :: "cu \<Rightarrow> str" where
  "json_escape c =
     (if c = 34 then [BACKSLASH, 34] else if c = BACKSLASH then [BACKSLASH, BACKSLASH]
      else if c = 8 then [BACKSLASH, 98] else if c = 12 then [BACKSLASH, 102]
      else if c = 10 then [BACKSLASH, 110] else if c = 13 then [BACKSLASH, 114]
      else if c = 9 then [BACKSLASH, 116]
      else if c < 32 \<or> high_surrogate c \<or> low_surrogate c then BACKSLASH # 117 # hex4 c
      else [c])"

fun json_body :: "str \<Rightarrow> str" where
  "json_body [] = []"
| "json_body [c] = json_escape c"
| "json_body (c # d # cs) =
     (if high_surrogate c \<and> low_surrogate d then c # d # json_body cs
      else json_escape c @ json_body (d # cs))"

definition json_quote :: "str \<Rightarrow> str" where
  "json_quote s = 34 # json_body s @ [34]"

section \<open>Canonical text\<close>

definition member_text :: "str \<times> str \<Rightarrow> str" where
  "member_text kv = json_quote (fst kv) @ COLON # snd kv"

fun stableStringify :: "json \<Rightarrow> str" where
  "stableStringify JNull = js ''null''"
| "stableStringify (JBool b) = (if b then js ''true'' else js ''false'')"
| "stableStringify (JNum n) = dec_int n"
| "stableStringify (JStr s) = json_quote s"
| "stableStringify (JArr xs) =
     js ''['' @ join_with (js '','') (map stableStringify xs) @ js '']''"
| "stableStringify (JObj kvs) =
     js ''{'' @ join_with (js '','')
       (map member_text (sort_key fst (map (\<lambda>(k, v). (k, stableStringify v)) kvs))) @ js ''}''"

text \<open>\<open>JSON.stringify\<close>: the members in their own order.\<close>

fun jsonStringify :: "json \<Rightarrow> str" where
  "jsonStringify JNull = js ''null''"
| "jsonStringify (JBool b) = (if b then js ''true'' else js ''false'')"
| "jsonStringify (JNum n) = dec_int n"
| "jsonStringify (JStr s) = json_quote s"
| "jsonStringify (JArr xs) = js ''['' @ join_with (js '','') (map jsonStringify xs) @ js '']''"
| "jsonStringify (JObj kvs) =
     js ''{'' @ join_with (js '','') (map member_text (map (\<lambda>(k, v). (k, jsonStringify v)) kvs)) @ js ''}''"

definition hashKernelObject :: "(str \<Rightarrow> str) \<Rightarrow> json \<Rightarrow> str" where
  "hashKernelObject sha256 x = sha256 (stableStringify x)"

text \<open>Two values are the same object when they differ only in the order of keys, at any depth.\<close>

inductive same_object :: "json \<Rightarrow> json \<Rightarrow> bool" where
  same_refl: "same_object x x"
| same_arr: "list_all2 same_object xs ys \<Longrightarrow> same_object (JArr xs) (JArr ys)"
| same_obj: "list_all2 (\<lambda>p q. fst p = fst q \<and> same_object (snd p) (snd q)) kvs kvs' \<Longrightarrow>
     same_object (JObj kvs) (JObj kvs')"
| same_perm: "mset kvs = mset kvs' \<Longrightarrow> distinct (map fst kvs) \<Longrightarrow>
     same_object (JObj kvs) (JObj kvs')"
| same_trans: "same_object x y \<Longrightarrow> same_object y z \<Longrightarrow> same_object x z"

lemma sort_key_perm:
  assumes "mset xs = mset ys" and "distinct (map f xs)"
  shows "sort_key f xs = sort_key f ys"
proof (rule properties_for_sort_key [symmetric])
  show "mset (sort_key f xs) = mset ys" using assms(1) by simp
  have "distinct (map f ys)"
    using assms by (metis mset_eq_imp_distinct_iff mset_map)
  have "set xs = set ys" using assms(1) by (rule mset_eq_setD)
  fix k assume k: "k \<in> set (sort_key f xs)"
  have one: "filter (\<lambda>x. f k = f x) zs = [k]" if "distinct (map f zs)" "k \<in> set zs" for zs
    using that by (induction zs) (auto simp: filter_empty_conv, metis image_eqI)
  show "filter (\<lambda>x. f k = f x) (sort_key f xs) = filter (\<lambda>x. f k = f x) ys"
    using one [of "sort_key f xs"] one [of ys] assms(2) \<open>distinct (map f ys)\<close> \<open>set xs = set ys\<close> k
    by (metis mset_eq_imp_distinct_iff mset_map mset_sort set_sort)
qed (rule sorted_sort_key)

text \<open>The canonical text, and so the hash of an object, does not depend on the order of keys.\<close>

lemma same_object_text: "same_object x y \<Longrightarrow> stableStringify x = stableStringify y"
proof (induction rule: same_object.induct)
  case (same_arr xs ys)
  then have "map stableStringify xs = map stableStringify ys"
    by (induction rule: list_all2_induct) auto
  then show ?case by simp
next
  case (same_obj kvs kvs')
  then have "map (\<lambda>(k, v). (k, stableStringify v)) kvs = map (\<lambda>(k, v). (k, stableStringify v)) kvs'"
    by (induction rule: list_all2_induct) auto
  then show ?case by simp
next
  case (same_perm kvs kvs')
  have "sort_key fst (map (\<lambda>(k, v). (k, stableStringify v)) kvs) =
        sort_key fst (map (\<lambda>(k, v). (k, stableStringify v)) kvs')"
    using same_perm by (intro sort_key_perm) (auto simp: comp_def case_prod_beta)
  then show ?case by simp
qed auto

end
