(* ===== verification/Governance.thy ===== *)
theory Governance
  imports Contracts Canonical
begin

text \<open>
  The governance contracts of \<open>packages/kernel-contracts/src/codex-governance.ts\<close> that the
  authorization kernel reads and writes: governed file changes and change sets, capability facts,
  and authorization decisions with the \<open>superRefine\<close> rules of their schemas.
\<close>

section \<open>Risk levels and modes\<close>

datatype risk = RiskLow | RiskMedium | RiskHigh | RiskCritical

fun risk_rank :: "risk \<Rightarrow> nat" where
  "risk_rank RiskLow = 0"
| "risk_rank RiskMedium = 1"
| "risk_rank RiskHigh = 2"
| "risk_rank RiskCritical = 3"

text \<open>Levels are ordered by their rank.\<close>

instantiation risk :: linorder
begin

definition less_eq_risk :: "risk \<Rightarrow> risk \<Rightarrow> bool" where
  "less_eq_risk a b \<longleftrightarrow> risk_rank a \<le> risk_rank b"

definition less_risk :: "risk \<Rightarrow> risk \<Rightarrow> bool" where
  "less_risk a b \<longleftrightarrow> risk_rank a < risk_rank b"

instance
proof
  fix x y :: risk
  show "x \<le> y \<Longrightarrow> y \<le> x \<Longrightarrow> x = y"
    by (cases x; cases y) (auto simp: less_eq_risk_def)
qed (auto simp: less_eq_risk_def less_risk_def)

end

lemma risk_bounds [simp]: "RiskLow \<le> r" "r \<le> RiskCritical"
  by (cases r; simp add: less_eq_risk_def)+

datatype approval_mode = NotRequired | PolicyAuto | HumanRequired

datatype disposition = Authorized | ApprovalRequired | Blocked

datatype change_kind = CreateChange | UpdateChange | DeleteChange | RenameChange

section \<open>File changes\<close>

text \<open>
  \<open>beforeHash\<close> and \<open>afterHash\<close> are nullable and optional: \<open>None\<close> is absent, \<open>Some None\<close> is null.
\<close>

record file_change =
  fc_path :: str
  fc_kind :: change_kind
  fc_oldPath :: "str option"
  fc_beforeHash :: "str option option"
  fc_afterHash :: "str option option"
  fc_addedLines :: int
  fc_deletedLines :: int

record governed_change = file_change +
  fc_unifiedDiff :: str

definition hash_ok :: "str option option \<Rightarrow> bool" where
  "hash_ok h \<longleftrightarrow> opt_all (opt_all sha256_hex) h"

definition change_fields_ok :: "'z file_change_scheme \<Rightarrow> bool" where
  "change_fields_ok c \<longleftrightarrow> str_min1 (fc_path c) \<and> opt_min1 (fc_oldPath c) \<and>
     hash_ok (fc_beforeHash c) \<and> hash_ok (fc_afterHash c) \<and>
     0 \<le> fc_addedLines c \<and> 0 \<le> fc_deletedLines c"

definition refineGovernedFileChangeSemantics :: "'z file_change_scheme \<Rightarrow> bool" where
  "refineGovernedFileChangeSemantics c \<longleftrightarrow>
     \<not> (fc_kind c = RenameChange \<and> fc_oldPath c = None) \<and>
     \<not> (fc_kind c \<noteq> RenameChange \<and> fc_oldPath c \<noteq> None) \<and>
     \<not> (fc_kind c = CreateChange \<and> fc_beforeHash c \<noteq> None \<and> fc_beforeHash c \<noteq> Some None) \<and>
     \<not> (fc_kind c = DeleteChange \<and> fc_afterHash c \<noteq> None \<and> fc_afterHash c \<noteq> Some None)"

definition GovernedFileChangeSchema :: "governed_change \<Rightarrow> bool" where
  "GovernedFileChangeSchema c \<longleftrightarrow> change_fields_ok c \<and> str_min1 (fc_unifiedDiff c) \<and>
     refineGovernedFileChangeSemantics c"

definition CapabilityFactFileChangeSchema :: "file_change \<Rightarrow> bool" where
  "CapabilityFactFileChangeSchema c \<longleftrightarrow> change_fields_ok c \<and> refineGovernedFileChangeSemantics c"

definition change_kind_name :: "change_kind \<Rightarrow> str" where
  "change_kind_name k = (case k of CreateChange \<Rightarrow> js ''create'' | UpdateChange \<Rightarrow> js ''update''
     | DeleteChange \<Rightarrow> js ''delete'' | RenameChange \<Rightarrow> js ''rename'')"

text \<open>An optional property of an object literal: present only when it is defined.\<close>

definition opt_member :: "string \<Rightarrow> ('a \<Rightarrow> json) \<Rightarrow> 'a option \<Rightarrow> (str \<times> json) list" where
  "opt_member k f v = (case v of None \<Rightarrow> [] | Some x \<Rightarrow> [(js k, f x)])"

definition nullable_str :: "str option \<Rightarrow> json" where
  "nullable_str v = (case v of None \<Rightarrow> JNull | Some s \<Rightarrow> JStr s)"

definition change_members :: "'z file_change_scheme \<Rightarrow> (str \<times> json) list" where
  "change_members c =
     [(js ''path'', JStr (fc_path c)), (js ''kind'', JStr (change_kind_name (fc_kind c)))] @
     opt_member ''oldPath'' JStr (fc_oldPath c) @
     opt_member ''beforeHash'' nullable_str (fc_beforeHash c) @
     opt_member ''afterHash'' nullable_str (fc_afterHash c) @
     [(js ''addedLines'', JNum (fc_addedLines c)), (js ''deletedLines'', JNum (fc_deletedLines c))]"

record change_set =
  cs_changeSetId :: str
  cs_threadId :: str
  cs_turnId :: str
  cs_itemId :: str
  cs_baseHead :: str
  cs_changes :: "governed_change list"
  cs_canonicalHash :: str
  cs_proposedAt :: str
  cs_sourceSchemaProfile :: str

definition hashGovernedFileChangeSetContent ::
  "(str \<Rightarrow> str) \<Rightarrow> str \<Rightarrow> governed_change list \<Rightarrow> str" where
  "hashGovernedFileChangeSetContent sha256 baseHead changes =
     hashKernelObject sha256 (JObj
       [(js ''schemaVersion'', JStr (js ''governed-file-change-canonical.v1'')),
        (js ''baseHead'', JStr baseHead),
        (js ''changes'', JArr (map (\<lambda>c. JObj
           (change_members c @ [(js ''unifiedDiff'', JStr (fc_unifiedDiff c))])) changes))])"

definition GovernedFileChangeSetSchema :: "(str \<Rightarrow> str) \<Rightarrow> change_set \<Rightarrow> bool" where
  "GovernedFileChangeSetSchema sha256 s \<longleftrightarrow>
     str_min1 (cs_changeSetId s) \<and> str_min1 (cs_threadId s) \<and> str_min1 (cs_turnId s) \<and>
     str_min1 (cs_itemId s) \<and> str_min1 (cs_baseHead s) \<and> cs_changes s \<noteq> [] \<and>
     list_all GovernedFileChangeSchema (cs_changes s) \<and> sha256_hex (cs_canonicalHash s) \<and>
     str_min1 (cs_proposedAt s) \<and> str_min1 (cs_sourceSchemaProfile s) \<and>
     cs_canonicalHash s = hashGovernedFileChangeSetContent sha256 (cs_baseHead s) (cs_changes s)"

section \<open>Capability facts\<close>

record fact_command =
  cmd_argv :: "str list"
  cmd_cwd :: "str option"

definition CapabilityFactCommandSchema :: "fact_command \<Rightarrow> bool" where
  "CapabilityFactCommandSchema c \<longleftrightarrow>
     cmd_argv c \<noteq> [] \<and> trim (hd (cmd_argv c)) \<noteq> [] \<and> opt_min1 (cmd_cwd c)"

record repository =
  rp_branch :: "str option"
  rp_protectedBranch :: bool
  rp_worktreeClean :: bool
  rp_headCommit :: "str option"
  rp_expectedHead :: "str option"

datatype network_access = NetNone | NetRequested | NetRequired | NetUnknown
datatype credential_access = CredNone | CredRequested | CredUnknown

record facts =
  f_subjectId :: str
  f_fileChanges :: "file_change list"
  f_commands :: "fact_command list"
  f_permissionRequests :: "str list"
  f_repository :: repository
  f_networkAccess :: network_access
  f_credentialAccess :: credential_access
  f_externalTargets :: "str list"
  f_sensitivePaths :: "str list"
  f_releaseAction :: bool
  f_exactTargets :: bool
  f_ambiguous :: bool
  f_unknowns :: "str list"
  f_observedAt :: str

definition CapabilityFactsSchema :: "facts \<Rightarrow> bool" where
  "CapabilityFactsSchema f \<longleftrightarrow> str_min1 (f_subjectId f) \<and>
     list_all CapabilityFactFileChangeSchema (f_fileChanges f) \<and>
     list_all CapabilityFactCommandSchema (f_commands f) \<and>
     list_all str_min1 (f_permissionRequests f) \<and>
     opt_min1 (rp_branch (f_repository f)) \<and> opt_min1 (rp_headCommit (f_repository f)) \<and>
     opt_min1 (rp_expectedHead (f_repository f)) \<and>
     list_all str_min1 (f_externalTargets f) \<and> list_all str_min1 (f_sensitivePaths f) \<and>
     list_all str_min1 (f_unknowns f) \<and> str_min1 (f_observedAt f)"

definition str_array :: "str list \<Rightarrow> json" where
  "str_array ss = JArr (map JStr ss)"

text \<open>The facts as the object that is hashed.\<close>

definition facts_json :: "facts \<Rightarrow> json" where
  "facts_json f =
     (let r = f_repository f in JObj
     [(js ''schemaVersion'', JStr (js ''capability-facts.v1'')),
      (js ''subjectId'', JStr (f_subjectId f)),
      (js ''fileChanges'', JArr (map (\<lambda>c. JObj (change_members c)) (f_fileChanges f))),
      (js ''commands'', JArr (map (\<lambda>c. JObj ((js ''argv'', str_array (cmd_argv c)) #
         opt_member ''cwd'' JStr (cmd_cwd c))) (f_commands f))),
      (js ''permissionRequests'', str_array (f_permissionRequests f)),
      (js ''repository'', JObj
        (opt_member ''branch'' JStr (rp_branch r) @
         [(js ''protectedBranch'', JBool (rp_protectedBranch r)),
          (js ''worktreeClean'', JBool (rp_worktreeClean r))] @
         opt_member ''headCommit'' JStr (rp_headCommit r) @
         opt_member ''expectedHead'' JStr (rp_expectedHead r))),
      (js ''networkAccess'', JStr (case f_networkAccess f of NetNone \<Rightarrow> js ''none''
         | NetRequested \<Rightarrow> js ''requested'' | NetRequired \<Rightarrow> js ''required'' | NetUnknown \<Rightarrow> js ''unknown'')),
      (js ''credentialAccess'', JStr (case f_credentialAccess f of CredNone \<Rightarrow> js ''none''
         | CredRequested \<Rightarrow> js ''requested'' | CredUnknown \<Rightarrow> js ''unknown'')),
      (js ''externalTargets'', str_array (f_externalTargets f)),
      (js ''sensitivePaths'', str_array (f_sensitivePaths f)),
      (js ''releaseAction'', JBool (f_releaseAction f)),
      (js ''exactTargets'', JBool (f_exactTargets f)),
      (js ''ambiguous'', JBool (f_ambiguous f)),
      (js ''unknowns'', str_array (f_unknowns f)),
      (js ''observedAt'', JStr (f_observedAt f))])"

section \<open>Authorization decisions\<close>

datatype surface = DesktopSurface | ProviderSurface | AppServerSurface | SdkSurface

record decision =
  d_decisionId :: str
  d_subjectId :: str
  d_surface :: surface
  d_factsHash :: str
  d_semanticRisk :: risk
  d_factualRisk :: risk
  d_effectiveRisk :: risk
  d_requestedCapabilities :: "capability_scope list"
  d_authorizedCapabilities :: "capability_scope list"
  d_approvalMode :: approval_mode
  d_disposition :: disposition
  d_approvalRequired :: bool
  d_reasons :: "str list"
  d_createdAt :: str

text \<open>
  \<open>stableValue\<close> prints the constraints with sorted keys; on the JSON values the schema admits it is
  \<open>stableStringify\<close>.
\<close>

definition sameCapabilityScope :: "capability_scope \<Rightarrow> capability_scope \<Rightarrow> bool" where
  "sameCapabilityScope l r \<longleftrightarrow> cs_kind l = cs_kind r \<and> cs_resource l = cs_resource r \<and>
     cs_access l = cs_access r \<and>
     stableStringify (JObj (cs_constraints l)) = stableStringify (JObj (cs_constraints r))"

definition decision_refinement :: "decision \<Rightarrow> bool" where
  "decision_refinement d \<longleftrightarrow>
     d_effectiveRisk d = (if risk_rank (d_semanticRisk d) \<ge> risk_rank (d_factualRisk d)
                          then d_semanticRisk d else d_factualRisk d) \<and>
     d_approvalRequired d = (d_approvalMode d \<noteq> NotRequired) \<and>
     (d_disposition d = Authorized) = (d_approvalMode d = NotRequired \<and> \<not> d_approvalRequired d) \<and>
     \<not> (d_disposition d = ApprovalRequired \<and> \<not> d_approvalRequired d) \<and>
     \<not> (d_disposition d = Blocked \<and> d_approvalMode d \<noteq> HumanRequired) \<and>
     \<not> ((d_effectiveRisk d = RiskHigh \<or> d_effectiveRisk d = RiskCritical) \<and>
        (d_approvalMode d \<noteq> HumanRequired \<or> \<not> d_approvalRequired d \<or>
         d_disposition d = Authorized)) \<and>
     list_all (\<lambda>s. list_ex (\<lambda>r. sameCapabilityScope r s) (d_requestedCapabilities d))
       (d_authorizedCapabilities d)"

definition AuthorizationDecisionSchema :: "decision \<Rightarrow> bool" where
  "AuthorizationDecisionSchema d \<longleftrightarrow>
     str_min1 (d_decisionId d) \<and> str_min1 (d_subjectId d) \<and> sha256_hex (d_factsHash d) \<and>
     list_all CapabilityScopeSchema (d_requestedCapabilities d) \<and>
     list_all CapabilityScopeSchema (d_authorizedCapabilities d) \<and>
     list_all str_min1 (d_reasons d) \<and> str_min1 (d_createdAt d) \<and> decision_refinement d"

end
