(* ===== verification/Capability.thy ===== *)
theory Capability
  imports Contracts
begin

text \<open>
  Capability scopes and grants, \<open>packages/capability/src/index.ts\<close>. A scope string
  \<open>family.verb:resource\<close> is parsed, file resources are normalised, and a request is decided by
  the grants: a matching deny wins over every allow. \<open>Date.parse\<close> (\<open>dp\<close>, \<open>None\<close> for NaN) and
  \<open>Date.now()\<close> are arguments.
\<close>

section \<open>Parsing a scope\<close>

datatype effect = EffectAllow | EffectDeny

record parsed_scope =
  ps_raw :: str
  ps_family :: str
  ps_action :: str
  ps_resource :: str
  ps_effect :: effect

definition knownActions :: "str list" where
  "knownActions =
     [js ''fs.read'', js ''fs.write'', js ''shell.exec'', js ''network.egress'', js ''mcp.call'',
      js ''memory.read'', js ''memory.write'', js ''secret.read'', js ''external.write'',
      js ''external.execute'', js ''external.admin'']"

definition parseCapabilityScope :: "str \<Rightarrow> err + parsed_scope" where
  "parseCapabilityScope scope =
     (let trimmed = trim scope;
          action = takeWhile (\<lambda>c. c \<noteq> COLON) trimmed;
          rest = dropWhile (\<lambda>c. c \<noteq> COLON) trimmed;
          resource = tl rest
      in if rest = [] \<or> action = [] \<or> resource = []
         then Inl (Err (js ''invalid capability scope: '' @ scope))
         else let family = hd (split_on DOT action)
              in if family = [] \<or> DOT \<notin> set action
                 then Inl (Err (js ''invalid capability action: '' @ action))
                 else if action \<notin> set knownActions
                 then Inl (Err (js ''unknown capability action: '' @ action))
                 else Inr \<lparr>ps_raw = trimmed, ps_family = family, ps_action = action,
                           ps_resource = resource,
                           ps_effect = (if resource = js ''deny'' then EffectDeny else EffectAllow)\<rparr>)"

section \<open>Resources\<close>

definition trimTrailingSlash :: "str \<Rightarrow> str" where
  "trimTrailingSlash r = (if 1 < length r \<and> endsWith r [SLASH] then butlast r else r)"

definition normalizeFileResource :: "str \<Rightarrow> str" where
  "normalizeFileResource resource =
     (let slashResource = slashes resource;
          recursive = endsWith slashResource (js ''/**'');
          base = (if recursive then take (length slashResource - 3) slashResource else slashResource);
          normalizedBase = trimTrailingSlash (posix_normalize base)
      in if recursive then normalizedBase @ js ''/**'' else normalizedBase)"

definition normalizeResourceForAction :: "str \<Rightarrow> str \<Rightarrow> str" where
  "normalizeResourceForAction resource action =
     (if startsWith action (js ''fs.'') then normalizeFileResource resource else resource)"

definition resourceImplies :: "str \<Rightarrow> str \<Rightarrow> str \<Rightarrow> bool" where
  "resourceImplies grantResource requestedResource action =
     (if grantResource = js ''deny'' then False
      else if grantResource = js ''*'' then True
      else let g = normalizeResourceForAction grantResource action;
               r = normalizeResourceForAction requestedResource action
           in if g = r then True
              else if endsWith g (js ''/**'')
              then (let p = take (length g - 3) g in r = p \<or> startsWith r (p @ [SLASH]))
              else False)"

definition denyResourceMatches :: "str \<Rightarrow> str \<Rightarrow> str \<Rightarrow> bool" where
  "denyResourceMatches denyResource requestedResource action \<longleftrightarrow>
     denyResource = js ''deny'' \<or> resourceImplies denyResource requestedResource action"

definition capabilityImplies :: "str \<Rightarrow> str \<Rightarrow> err + bool" where
  "capabilityImplies grantScope requestedScope =
     bind_res (parseCapabilityScope grantScope) (\<lambda>grant.
     bind_res (parseCapabilityScope requestedScope) (\<lambda>requested.
       Inr (ps_action grant = ps_action requested \<and>
            resourceImplies (ps_resource grant) (ps_resource requested) (ps_action grant))))"

section \<open>Structured scopes as canonical strings\<close>

definition kind_name :: "scope_kind \<Rightarrow> str" where
  "kind_name k = (case k of FileScope \<Rightarrow> js ''file'' | ToolScope \<Rightarrow> js ''tool''
     | NetworkScope \<Rightarrow> js ''network'' | SecretScope \<Rightarrow> js ''secret''
     | ProcessScope \<Rightarrow> js ''process'' | ExternalScope \<Rightarrow> js ''external'')"

definition access_name :: "capability_access \<Rightarrow> str" where
  "access_name a = (case a of AccRead \<Rightarrow> js ''read'' | AccWrite \<Rightarrow> js ''write''
     | AccExecute \<Rightarrow> js ''execute'' | AccAdmin \<Rightarrow> js ''admin'')"

definition capabilityScopeToCanonicalAction :: "capability_scope \<Rightarrow> str" where
  "capabilityScopeToCanonicalAction s =
     (let family = jprop (cs_constraints s) (js ''family'');
          k = cs_kind s; a = cs_access s
      in if k = FileScope \<and> a = AccRead then js ''fs.read''
         else if k = FileScope \<and> a = AccWrite then js ''fs.write''
         else if k = ToolScope \<and> a = AccExecute
         then (if family = Some (JStr (js ''mcp'')) then js ''mcp.call'' else js ''shell.exec'')
         else if k = NetworkScope \<and> a \<noteq> AccRead then js ''network.egress''
         else if k = SecretScope \<and> a = AccRead then js ''secret.read''
         else if k = ProcessScope \<and> family = Some (JStr (js ''memory'')) \<and> a = AccRead
         then js ''memory.read''
         else if k = ProcessScope \<and> family = Some (JStr (js ''memory'')) \<and> a = AccWrite
         then js ''memory.write''
         else kind_name k @ js ''.'' @ access_name a)"

definition resourcesAreEquivalent :: "str \<Rightarrow> str \<Rightarrow> str \<Rightarrow> bool" where
  "resourcesAreEquivalent l r action \<longleftrightarrow>
     resourceImplies l r action \<and> resourceImplies r l action"

definition canonicalScopeMatchesStructuredScope :: "capability_scope \<Rightarrow> str \<Rightarrow> err + bool" where
  "canonicalScopeMatchesStructuredScope s canonicalScope =
     bind_res (parseCapabilityScope canonicalScope) (\<lambda>c.
     bind_res (parseCapabilityScope
                 (capabilityScopeToCanonicalAction s @ js '':'' @ cs_resource s)) (\<lambda>t.
       Inr (ps_action c = ps_action t \<and>
            resourcesAreEquivalent (ps_resource c) (ps_resource t) (ps_action t))))"

definition getCanonicalScopeConstraint :: "capability_scope \<Rightarrow> str option" where
  "getCanonicalScopeConstraint s =
     (case jprop (cs_constraints s) (js ''capabilityScope'') of
        Some (JStr c) \<Rightarrow>
          (case canonicalScopeMatchesStructuredScope s c of
             Inr True \<Rightarrow> Some c | Inr False \<Rightarrow> None | Inl _ \<Rightarrow> None)
      | _ \<Rightarrow> None)"

definition capabilityScopeToCanonicalString :: "capability_scope \<Rightarrow> err + str" where
  "capabilityScopeToCanonicalString scopeInput =
     bind_res (parseCapabilityScopeObject scopeInput) (\<lambda>scope.
       case getCanonicalScopeConstraint scope of
         Some (c # cs) \<Rightarrow> Inr (c # cs)
       | _ \<Rightarrow> Inr (capabilityScopeToCanonicalAction scope @ js '':'' @ cs_resource scope))"

section \<open>Grants\<close>

datatype scope_ref = ScopeString str | ScopeObject capability_scope

record grant_object =
  g_scope :: "scope_ref option"
  g_scopes :: "scope_ref list option"
  g_principalId :: "str option"
  g_taskId :: "str option"
  g_runId :: "str option"
  g_expiresAt :: "str option"
  g_revokedAt :: "str option"

datatype grant_like = GrantString str | GrantObject grant_object

record check_options =
  o_principalId :: "str option"
  o_taskId :: "str option"
  o_runId :: "str option"
  o_now :: "str option"

record check_result =
  cr_allowed :: bool
  cr_requestedScope :: str
  cr_reasons :: "str list"
  cr_matchedAllowScopes :: "str list"
  cr_matchedDenyScopes :: "str list"
  cr_ignoredGrantReasons :: "str list"

text \<open>An optional string used as a condition: absent and empty count as false.\<close>

definition truthy :: "str option \<Rightarrow> str option" where
  "truthy v = (case v of Some (c # cs) \<Rightarrow> Some (c # cs) | _ \<Rightarrow> None)"

record normalized_grant =
  n_scopes :: "str list"
  n_principalId :: "str option"
  n_taskId :: "str option"
  n_runId :: "str option"
  n_expiresAt :: "str option"
  n_revokedAt :: "str option"

definition normalizeGrantScope :: "scope_ref \<Rightarrow> err + str" where
  "normalizeGrantScope r =
     (case r of ScopeString s \<Rightarrow> Inr s | ScopeObject s \<Rightarrow> capabilityScopeToCanonicalString s)"

definition normalizeGrant :: "grant_like \<Rightarrow> err + normalized_grant" where
  "normalizeGrant grant =
     (case grant of
        GrantString s \<Rightarrow>
          Inr \<lparr>n_scopes = [s], n_principalId = None, n_taskId = None, n_runId = None,
               n_expiresAt = None, n_revokedAt = None\<rparr>
      | GrantObject g \<Rightarrow>
          bind_res (map_res normalizeGrantScope
            ((case g_scope g of None \<Rightarrow> [] | Some (ScopeString []) \<Rightarrow> [] | Some r \<Rightarrow> [r]) @
             (case g_scopes g of None \<Rightarrow> [] | Some rs \<Rightarrow> rs))) (\<lambda>scopes.
            Inr \<lparr>n_scopes = scopes, n_principalId = truthy (g_principalId g),
                 n_taskId = truthy (g_taskId g), n_runId = truthy (g_runId g),
                 n_expiresAt = truthy (g_expiresAt g), n_revokedAt = truthy (g_revokedAt g)\<rparr>))"

definition isExpired :: "(str \<Rightarrow> int option) \<Rightarrow> int \<Rightarrow> str \<Rightarrow> str option \<Rightarrow> bool" where
  "isExpired dp dateNow expiresAt now =
     (case (case truthy now of Some s \<Rightarrow> dp s | None \<Rightarrow> Some dateNow) of
        None \<Rightarrow> True
      | Some nowTime \<Rightarrow> (case dp expiresAt of None \<Rightarrow> True | Some t \<Rightarrow> t \<le> nowTime))"

definition explainInvalidNow :: "(str \<Rightarrow> int option) \<Rightarrow> str option \<Rightarrow> str option" where
  "explainInvalidNow dp now =
     (case now of None \<Rightarrow> None
      | Some s \<Rightarrow> (if dp s = None then Some (js ''invalid_capability_check_now:'' @ s) else None))"

text \<open>One bound identity of a grant against the caller's: a mismatch, or no context at all.\<close>

definition mismatch :: "string \<Rightarrow> str option \<Rightarrow> str option \<Rightarrow> str list" where
  "mismatch label bound given =
     (case (bound, truthy given) of
        (Some b, Some v) \<Rightarrow> (if b \<noteq> v then [js label @ b] else []) | _ \<Rightarrow> [])"

definition no_context :: "string \<Rightarrow> str option \<Rightarrow> str option \<Rightarrow> str list" where
  "no_context label bound given = (if bound \<noteq> None \<and> truthy given = None then [js label] else [])"

definition explainGrantAvailability ::
  "(str \<Rightarrow> int option) \<Rightarrow> int \<Rightarrow> grant_like \<Rightarrow> check_options \<Rightarrow> err + (str list \<times> str list)" where
  "explainGrantAvailability dp dateNow grant opts =
     bind_res (normalizeGrant grant) (\<lambda>n.
       let invalidNow = explainInvalidNow dp (o_now opts);
           reasons =
             (if n_scopes n = [] then [js ''grant_has_no_scopes''] else []) @
             (case invalidNow of Some r \<Rightarrow> [r] | None \<Rightarrow> []) @
             (case n_revokedAt n of Some t \<Rightarrow> [js ''grant_revoked:'' @ t] | None \<Rightarrow> []) @
             (case n_expiresAt n of
                Some t \<Rightarrow> (if invalidNow = None \<and> isExpired dp dateNow t (o_now opts)
                           then [js ''grant_expired:'' @ t] else [])
              | None \<Rightarrow> []) @
             mismatch ''principal_mismatch:'' (n_principalId n) (o_principalId opts) @
             mismatch ''task_mismatch:'' (n_taskId n) (o_taskId opts) @
             mismatch ''run_mismatch:'' (n_runId n) (o_runId opts) @
             no_context ''missing_principal_context'' (n_principalId n) (o_principalId opts) @
             no_context ''missing_task_context'' (n_taskId n) (o_taskId opts) @
             no_context ''missing_run_context'' (n_runId n) (o_runId opts)
       in Inr (n_scopes n, reasons))"

text \<open>A grant is usable when no reason was found against it.\<close>

abbreviation usable :: "str list \<times> str list \<Rightarrow> bool" where
  "usable availability \<equiv> snd availability = []"

section \<open>The decision\<close>

record matches =
  m_allow :: "str list"
  m_deny :: "str list"
  m_ignored :: "str list"

definition normalizeErrorMessage :: "err \<Rightarrow> str" where
  "normalizeErrorMessage e = (case e of Err m \<Rightarrow> m | _ \<Rightarrow> js ''zod_error'')"

definition match_scope :: "parsed_scope \<Rightarrow> matches \<Rightarrow> str \<Rightarrow> matches" where
  "match_scope requested m scope =
     (case parseCapabilityScope scope of
        Inl e \<Rightarrow> m\<lparr>m_ignored := m_ignored m @ [normalizeErrorMessage e]\<rparr>
      | Inr g \<Rightarrow>
          if ps_effect g = EffectDeny \<and> ps_action g = ps_action requested \<and>
             denyResourceMatches (ps_resource g) (ps_resource requested) (ps_action g)
          then m\<lparr>m_deny := m_deny m @ [ps_raw g]\<rparr>
          else if ps_effect g = EffectAllow \<and>
                  capabilityImplies (ps_raw g) (ps_raw requested) = Inr True
          then m\<lparr>m_allow := m_allow m @ [ps_raw g]\<rparr>
          else m)"

fun match_grants ::
  "(str \<Rightarrow> int option) \<Rightarrow> int \<Rightarrow> check_options \<Rightarrow> parsed_scope \<Rightarrow> matches \<Rightarrow> grant_like list \<Rightarrow>
   err + matches" where
  "match_grants dp dateNow opts requested m [] = Inr m"
| "match_grants dp dateNow opts requested m (grant # grants) =
     bind_res (explainGrantAvailability dp dateNow grant opts) (\<lambda>av.
       if \<not> usable av
       then match_grants dp dateNow opts requested (m\<lparr>m_ignored := m_ignored m @ snd av\<rparr>) grants
       else match_grants dp dateNow opts requested
              (foldl (match_scope requested) m (fst av)) grants)"

definition explainCapabilityDecision ::
  "(str \<Rightarrow> int option) \<Rightarrow> int \<Rightarrow> grant_like list \<Rightarrow> str \<Rightarrow> check_options \<Rightarrow> err + check_result" where
  "explainCapabilityDecision dp dateNow grants requestedScope opts =
     (case parseCapabilityScope requestedScope of
        Inl e \<Rightarrow>
          Inr \<lparr>cr_allowed = False, cr_requestedScope = requestedScope,
               cr_reasons = [normalizeErrorMessage e], cr_matchedAllowScopes = [],
               cr_matchedDenyScopes = [], cr_ignoredGrantReasons = []\<rparr>
      | Inr requested \<Rightarrow>
          bind_res (match_grants dp dateNow opts requested
                      \<lparr>m_allow = [], m_deny = [], m_ignored = []\<rparr> grants) (\<lambda>m.
            if m_deny m \<noteq> [] then
              Inr \<lparr>cr_allowed = False, cr_requestedScope = requestedScope,
                   cr_reasons = [js ''matched_deny_scope''],
                   cr_matchedAllowScopes = uniq (m_allow m), cr_matchedDenyScopes = uniq (m_deny m),
                   cr_ignoredGrantReasons = uniq (m_ignored m)\<rparr>
            else if m_allow m \<noteq> [] then
              Inr \<lparr>cr_allowed = True, cr_requestedScope = requestedScope,
                   cr_reasons = [js ''matched_allow_scope''],
                   cr_matchedAllowScopes = uniq (m_allow m), cr_matchedDenyScopes = [],
                   cr_ignoredGrantReasons = uniq (m_ignored m)\<rparr>
            else
              Inr \<lparr>cr_allowed = False, cr_requestedScope = requestedScope,
                   cr_reasons =
                     [js ''missing_capability:'' @ ps_action requested @ js '':'' @ ps_resource requested],
                   cr_matchedAllowScopes = [], cr_matchedDenyScopes = [],
                   cr_ignoredGrantReasons = uniq (m_ignored m)\<rparr>))"

definition hasCapabilityGrant ::
  "(str \<Rightarrow> int option) \<Rightarrow> int \<Rightarrow> grant_like list \<Rightarrow> str \<Rightarrow> check_options \<Rightarrow> err + bool" where
  "hasCapabilityGrant dp dateNow grants requestedScope opts =
     bind_res (explainCapabilityDecision dp dateNow grants requestedScope opts) (\<lambda>r.
       Inr (cr_allowed r))"

section \<open>What a parse gives\<close>

lemma parse_Inr:
  "parseCapabilityScope s = Inr p \<Longrightarrow>
     ps_raw p = trim s \<and> trim s = ps_action p @ COLON # ps_resource p \<and>
     COLON \<notin> set (ps_action p) \<and> ps_action p \<in> set knownActions \<and> ps_resource p \<noteq> [] \<and>
     (ps_effect p = EffectDeny \<longleftrightarrow> ps_resource p = js ''deny'')"
proof -
  assume p: "parseCapabilityScope s = Inr p"
  let ?a = "takeWhile (\<lambda>c. c \<noteq> COLON) (trim s)" and ?r = "dropWhile (\<lambda>c. c \<noteq> COLON) (trim s)"
  have p': "?r \<noteq> []" "ps_raw p = trim s" "ps_action p = ?a" "ps_resource p = tl ?r" "tl ?r \<noteq> []"
    "?a \<in> set knownActions" "ps_effect p = EffectDeny \<longleftrightarrow> tl ?r = js ''deny''"
    using p by (auto simp: parseCapabilityScope_def Let_def split: if_splits)
  have "hd ?r = COLON" using hd_dropWhile [OF p'(1)] by simp
  with p'(1) have "?r = COLON # tl ?r" by (cases ?r) auto
  then have "trim s = ?a @ COLON # tl ?r" by (metis takeWhile_dropWhile_id)
  moreover have "COLON \<notin> set ?a" by (auto dest: set_takeWhileD)
  ultimately show ?thesis using p' by simp
qed

lemma parse_raw: "parseCapabilityScope s = Inr p \<Longrightarrow> parseCapabilityScope (ps_raw p) = Inr p"
proof -
  assume p: "parseCapabilityScope s = Inr p"
  then have "parseCapabilityScope (trim s) = Inr p"
    by (simp add: parseCapabilityScope_def Let_def split: if_splits)
  with parse_Inr [OF p] show ?thesis by simp
qed

text \<open>What one scope string of a usable grant says about a parsed request.\<close>

definition scope_allows :: "parsed_scope \<Rightarrow> str \<Rightarrow> bool" where
  "scope_allows requested s =
     (case parseCapabilityScope s of Inl _ \<Rightarrow> False
      | Inr g \<Rightarrow> ps_effect g = EffectAllow \<and> ps_action g = ps_action requested \<and>
          resourceImplies (ps_resource g) (ps_resource requested) (ps_action g))"

definition scope_denies :: "parsed_scope \<Rightarrow> str \<Rightarrow> bool" where
  "scope_denies requested s =
     (case parseCapabilityScope s of Inl _ \<Rightarrow> False
      | Inr g \<Rightarrow> ps_effect g = EffectDeny \<and> ps_action g = ps_action requested)"

definition usable_scopes ::
  "(str \<Rightarrow> int option) \<Rightarrow> int \<Rightarrow> check_options \<Rightarrow> grant_like list \<Rightarrow> str set" where
  "usable_scopes dp dateNow opts grants =
     {s. \<exists>g \<in> set grants. \<exists>scopes. explainGrantAvailability dp dateNow g opts = Inr (scopes, []) \<and>
            s \<in> set scopes}"

lemma match_scope_allow:
  assumes "parseCapabilityScope q = Inr requested"
  shows "m_allow (match_scope requested m s) \<noteq> [] \<longleftrightarrow> m_allow m \<noteq> [] \<or> scope_allows requested s"
proof -
  have implies: "capabilityImplies (ps_raw g) (ps_raw requested) =
      Inr (ps_action g = ps_action requested \<and>
           resourceImplies (ps_resource g) (ps_resource requested) (ps_action g))"
    if "parseCapabilityScope s = Inr g" for g
    using parse_raw [OF that] parse_raw [OF assms] by (simp add: capabilityImplies_def)
  show ?thesis
    by (auto simp: match_scope_def scope_allows_def implies split: sum.splits)
qed

lemma match_scope_deny:
  "m_deny (match_scope requested m s) \<noteq> [] \<longleftrightarrow> m_deny m \<noteq> [] \<or> scope_denies requested s"
proof (cases "parseCapabilityScope s")
  case (Inr g)
  then show ?thesis
    using parse_Inr [OF Inr] by (auto simp: match_scope_def scope_denies_def denyResourceMatches_def)
qed (auto simp: match_scope_def scope_denies_def)

lemma match_scopes:
  assumes "parseCapabilityScope q = Inr requested"
  shows "m_allow (foldl (match_scope requested) m ss) \<noteq> [] \<longleftrightarrow>
           m_allow m \<noteq> [] \<or> (\<exists>s \<in> set ss. scope_allows requested s)"
    and "m_deny (foldl (match_scope requested) m ss) \<noteq> [] \<longleftrightarrow>
           m_deny m \<noteq> [] \<or> (\<exists>s \<in> set ss. scope_denies requested s)"
proof (induction ss arbitrary: m)
  case (Cons s ss)
  case 1 show ?case using Cons(1) [of "match_scope requested m s"] match_scope_allow [OF assms, of m s] by auto
  case 2 show ?case using Cons(2) [of "match_scope requested m s"] match_scope_deny [of requested m s] by auto
qed simp_all

lemma usable_scopes_Cons:
  "explainGrantAvailability dp dateNow g opts = Inr av \<Longrightarrow>
   usable_scopes dp dateNow opts (g # gs) =
     (if usable av then set (fst av) else {}) \<union> usable_scopes dp dateNow opts gs"
  by (cases av) (auto simp: usable_scopes_def)

lemma match_grants_iff:
  assumes q: "parseCapabilityScope q = Inr requested"
  shows "match_grants dp dateNow opts requested m grants = Inr m' \<Longrightarrow>
     (m_allow m' \<noteq> [] \<longleftrightarrow>
        m_allow m \<noteq> [] \<or> (\<exists>s \<in> usable_scopes dp dateNow opts grants. scope_allows requested s)) \<and>
     (m_deny m' \<noteq> [] \<longleftrightarrow>
        m_deny m \<noteq> [] \<or> (\<exists>s \<in> usable_scopes dp dateNow opts grants. scope_denies requested s))"
proof (induction grants arbitrary: m)
  case Nil
  then show ?case by (simp add: usable_scopes_def)
next
  case (Cons g gs)
  from Cons.prems obtain av where av: "explainGrantAvailability dp dateNow g opts = Inr av"
    by (auto simp: bind_res_Inr)
  show ?case
  proof (cases "usable av")
    case True
    with Cons.prems av have "match_grants dp dateNow opts requested
        (foldl (match_scope requested) m (fst av)) gs = Inr m'" by simp
    from Cons.IH [OF this] True show ?thesis
      unfolding match_scopes [OF q] usable_scopes_Cons [OF av] by auto
  next
    case False
    with Cons.prems av have "match_grants dp dateNow opts requested
        (m\<lparr>m_ignored := m_ignored m @ snd av\<rparr>) gs = Inr m'" by simp
    from Cons.IH [OF this] False show ?thesis
      unfolding usable_scopes_Cons [OF av] by auto
  qed
qed

lemma explain_parsed:
  assumes "parseCapabilityScope q = Inr requested"
    and "explainCapabilityDecision dp dateNow grants q opts = Inr r"
  shows "js ''matched_deny_scope'' \<in> set (cr_reasons r) \<longleftrightarrow>
      (\<exists>s \<in> usable_scopes dp dateNow opts grants. scope_denies requested s)"
    and "cr_allowed r \<longleftrightarrow> (\<exists>s \<in> usable_scopes dp dateNow opts grants. scope_allows requested s) \<and>
      \<not> (\<exists>s \<in> usable_scopes dp dateNow opts grants. scope_denies requested s)"
    and "cr_requestedScope r = q"
proof -
  obtain m where m: "match_grants dp dateNow opts requested
      \<lparr>m_allow = [], m_deny = [], m_ignored = []\<rparr> grants = Inr m"
    using assms by (auto simp: explainCapabilityDecision_def bind_res_Inr)
  have "js ''matched_deny_scope'' \<noteq> js ''missing_capability:'' @ ps_action requested @ js '':'' @ ps_resource requested"
    by (simp add: js_def)
  then have "js ''matched_deny_scope'' \<in> set (cr_reasons r) \<longleftrightarrow> m_deny m \<noteq> []"
    "cr_allowed r \<longleftrightarrow> m_allow m \<noteq> [] \<and> m_deny m = []" "cr_requestedScope r = q"
    using assms m by (auto simp: explainCapabilityDecision_def split: if_splits)
  then show "js ''matched_deny_scope'' \<in> set (cr_reasons r) \<longleftrightarrow>
      (\<exists>s \<in> usable_scopes dp dateNow opts grants. scope_denies requested s)"
    "cr_allowed r \<longleftrightarrow> (\<exists>s \<in> usable_scopes dp dateNow opts grants. scope_allows requested s) \<and>
      \<not> (\<exists>s \<in> usable_scopes dp dateNow opts grants. scope_denies requested s)" "cr_requestedScope r = q"
    using match_grants_iff [OF assms(1) m] by auto
qed

lemma explain_unparsed:
  assumes "parseCapabilityScope q = Inl e" and "explainCapabilityDecision dp dateNow grants q opts = Inr r"
  shows "\<not> cr_allowed r" "cr_requestedScope r = q"
  using assms by (auto simp: explainCapabilityDecision_def)

text \<open>
  C20: A request is allowed exactly when it parses, some scope of a usable grant allows it, and no
  scope of any usable grant denies its action. So a deny wins over every allow, and neither the
  order nor the repetition of grants matters.
\<close>

theorem capability_decision_spec:
  assumes "explainCapabilityDecision dp dateNow grants q opts = Inr r"
  shows "cr_allowed r \<longleftrightarrow>
    (\<exists>requested. parseCapabilityScope q = Inr requested \<and>
       (\<exists>s \<in> usable_scopes dp dateNow opts grants. scope_allows requested s) \<and>
       (\<forall>s \<in> usable_scopes dp dateNow opts grants. \<not> scope_denies requested s))"
proof (cases "parseCapabilityScope q")
  case (Inl e)
  with explain_unparsed [OF Inl assms] show ?thesis by simp
next
  case (Inr requested)
  with explain_parsed(2) [OF Inr assms] show ?thesis by auto
qed

text \<open>A permitted write beside a deny of a different action, and one revoked by a deny.\<close>

theorem capability_decision_spec_witness:
  "\<exists>r. explainCapabilityDecision (\<lambda>_. None) 0
         [GrantString (js ''fs.write:src/**''), GrantString (js ''shell.exec:deny'')]
         (js ''fs.write:src/a.ts'')
         \<lparr>o_principalId = None, o_taskId = None, o_runId = None, o_now = None\<rparr> = Inr r \<and>
       cr_allowed r \<and>
       (\<exists>requested. parseCapabilityScope (js ''fs.write:src/a.ts'') = Inr requested \<and>
         (\<exists>s \<in> usable_scopes (\<lambda>_. None) 0
             \<lparr>o_principalId = None, o_taskId = None, o_runId = None, o_now = None\<rparr>
             [GrantString (js ''fs.write:src/**''), GrantString (js ''shell.exec:deny'')].
            scope_allows requested s))"
proof -
  let ?g = "[GrantString (js ''fs.write:src/**''), GrantString (js ''shell.exec:deny'')]"
  let ?o = "\<lparr>o_principalId = None, o_taskId = None, o_runId = None, o_now = None\<rparr>"
  obtain r where r: "explainCapabilityDecision (\<lambda>_. None) 0 ?g (js ''fs.write:src/a.ts'') ?o = Inr r"
    and a: "cr_allowed r"
  proof -
    have "hasCapabilityGrant (\<lambda>_. None) 0 ?g (js ''fs.write:src/a.ts'') ?o = Inr True" by code_simp
    then show ?thesis using that by (auto simp: hasCapabilityGrant_def bind_res_Inr)
  qed
  show ?thesis using r a capability_decision_spec [OF r] by blast
qed

section \<open>Recursive file grants\<close>

text \<open>A normalised resource without its trailing slash, as its segments give it.\<close>

definition resource_root :: "str \<Rightarrow> str" where
  "resource_root q = (if posix_isAbsolute q then [SLASH] else []) @ join_with [SLASH] (path_segs q)"

lemma trimmed_normalize:
  assumes "path_segs q \<noteq> []"
  shows "trimTrailingSlash (posix_normalize q) = resource_root q"
proof -
  have "join_with [SLASH] (path_segs q) \<noteq> []"
    and "last (join_with [SLASH] (path_segs q)) \<noteq> SLASH"
    using canon_segs_join [OF path_segs_canon assms] by auto
  then show ?thesis
    unfolding posix_normalize_segs [OF assms] resource_root_def trimTrailingSlash_def
    by (auto simp: butlast_append neq_Nil_conv)
qed

lemma trimmed_normalize_empty:
  assumes "path_segs q = []"
  shows "trimTrailingSlash (posix_normalize q) \<in> {[DOT], [SLASH]}"
  using posix_normalize_dots [OF assms] by (auto simp: trimTrailingSlash_def js_dots)

lemma split_resource_root:
  assumes "path_segs q \<noteq> []"
  shows "split_on SLASH (resource_root q) = (if posix_isAbsolute q then [[]] else []) @ path_segs q"
  using canon_segs_join(1) [OF path_segs_canon assms] by (simp add: resource_root_def)

lemma resource_root_hd:
  assumes "path_segs q \<noteq> []"
  shows "resource_root q \<noteq> [] \<and> (hd (resource_root q) = SLASH \<longleftrightarrow> posix_isAbsolute q)"
  using canon_segs_join(2,3) [OF path_segs_canon assms] by (auto simp: resource_root_def)

lemma root_extension:
  assumes b: "path_segs b \<noteq> []" "\<forall>w \<in> set (path_segs b). plain_seg w"
    and q: "path_segs q \<noteq> []"
    and r: "resource_root q = resource_root b \<or> resource_root q = resource_root b @ SLASH # x"
  shows "posix_isAbsolute q = posix_isAbsolute b \<and>
    (\<exists>ext. path_segs q = path_segs b @ ext \<and> (\<forall>w \<in> set ext. plain_seg w))"
proof -
  have abs: "posix_isAbsolute q = posix_isAbsolute b"
    using resource_root_hd [OF b(1)] resource_root_hd [OF q] r by auto
  have "split_on SLASH (u @ SLASH # x) = split_on SLASH u @ split_on SLASH x" for u
    by (induction u) (auto split: list.splits)
  then have "split_on SLASH (resource_root q) = split_on SLASH (resource_root b) @ split_on SLASH x \<or>
        split_on SLASH (resource_root q) = split_on SLASH (resource_root b) @ []"
    using r by auto
  then obtain ext where ext: "path_segs q = path_segs b @ ext"
    unfolding split_resource_root [OF b(1)] split_resource_root [OF q] abs by auto
  obtain v vs where v: "path_segs b = v # vs" using b(1) by (cases "path_segs b") auto
  have "plain_seg v" using b(2) v by simp
  then have "v \<noteq> js ''..''" by auto
  then have "\<forall>w \<in> set (path_segs q). plain_seg w"
    using path_segs_canon [of q] unfolding ext v by auto
  with ext abs show ?thesis by auto
qed

lemma endsWith_recursive: "endsWith (base @ js ''/**'') (js ''/**'')"
  by (simp add: endsWith_def suffix_def)

lemma normalize_recursive:
  assumes "slashes resource = base @ js ''/**''" and "path_segs base \<noteq> []"
  shows "normalizeFileResource resource = resource_root base @ js ''/**''"
proof -
  have "length (js ''/**'') = 3" by (simp add: js_def)
  then show ?thesis
    by (simp add: normalizeFileResource_def assms(1) endsWith_recursive trimmed_normalize [OF assms(2)])
qed

lemma resource_implies_confined:
  assumes grant: "slashes g = base @ js ''/**''"
    and base: "path_segs base \<noteq> []" "\<forall>w \<in> set (path_segs base). plain_seg w"
    and request: "\<not> endsWith (slashes r) (js ''/**'')"
    and fs: "startsWith action (js ''fs.'')"
    and implies: "resourceImplies g r action"
  shows "posix_isAbsolute (slashes r) = posix_isAbsolute base \<and>
    (\<exists>ext. path_segs (slashes r) = path_segs base @ ext \<and> (\<forall>w \<in> set ext. plain_seg w))"
proof -
  let ?q = "slashes r" and ?p = "resource_root base"
  have len3: "length (js ''/**'') = 3" by (simp add: js_def)
  have "length g \<ge> 3" using arg_cong [OF grant, of length] len3 by (simp add: slashes_def)
  then have "g \<noteq> js ''*''" by (auto simp: js_def)
  have g: "normalizeResourceForAction g action = ?p @ js ''/**''"
    using fs normalize_recursive [OF grant base(1)] by (simp add: normalizeResourceForAction_def)
  have n: "normalizeResourceForAction r action = trimTrailingSlash (posix_normalize ?q)"
    using fs request by (simp add: normalizeResourceForAction_def normalizeFileResource_def Let_def)
  have slash: "js ''/**'' = SLASH # js ''**''" by (simp add: js_def)
  have take: "take (length (?p @ js ''/**'') - 3) (?p @ js ''/**'') = ?p" using len3 by simp
  have "g \<noteq> js ''deny''" using implies by (auto simp: resourceImplies_def)
  then have "trimTrailingSlash (posix_normalize ?q) = ?p @ js ''/**'' \<or>
      trimTrailingSlash (posix_normalize ?q) = ?p \<or>
      startsWith (trimTrailingSlash (posix_normalize ?q)) (?p @ [SLASH])"
    using implies \<open>g \<noteq> js ''*''\<close> unfolding resourceImplies_def g n Let_def take
    by (metis (full_types))
  then have ex: "\<exists>x. trimTrailingSlash (posix_normalize ?q) = ?p \<or>
        trimTrailingSlash (posix_normalize ?q) = ?p @ SLASH # x"
    unfolding slash startsWith_def prefix_def by auto
  have q: "path_segs ?q \<noteq> []"
  proof
    assume "path_segs ?q = []"
    from ex obtain x where "trimTrailingSlash (posix_normalize ?q) \<in> {?p, ?p @ SLASH # x}" by blast
    moreover have "trimTrailingSlash (posix_normalize ?q) \<in> {[DOT], [SLASH]}"
      by (rule trimmed_normalize_empty) fact
    moreover have "[c] \<noteq> ?p @ SLASH # x" for c
      using resource_root_hd [OF base(1)] by (cases ?p) auto
    ultimately have "?p = [DOT] \<or> ?p = [SLASH]" by auto
    then have "last (split_on SLASH ?p) = [DOT] \<or> last (split_on SLASH ?p) = []" by auto
    moreover have "last (split_on SLASH ?p) = last (path_segs base)"
      using base(1) by (simp add: split_resource_root)
    moreover have "plain_seg (last (path_segs base))" using base by simp
    ultimately show False by (auto simp: plain_seg_def js_dots)
  qed
  from ex obtain x where "resource_root ?q = ?p \<or> resource_root ?q = ?p @ SLASH # x"
    unfolding trimmed_normalize [OF q] by auto
  with base q show ?thesis by (rule root_extension)
qed

text \<open>
  A recursive file grant \<open>dir/**\<close>, whose directory does not begin with \<open>..\<close>, only covers paths
  that stay below that directory once normalised: the segments of the requested path extend the
  directory's and none of them is \<open>..\<close>, however the request is spelt.
\<close>

theorem recursive_grant_confined:
  assumes "parseCapabilityScope grantScope = Inr g" and "parseCapabilityScope requestedScope = Inr r"
    and "capabilityImplies grantScope requestedScope = Inr True"
    and "startsWith (ps_action g) (js ''fs.'')"
    and "slashes (ps_resource g) = base @ js ''/**''"
    and "path_segs base \<noteq> []" and "\<forall>w \<in> set (path_segs base). plain_seg w"
    and "\<not> endsWith (slashes (ps_resource r)) (js ''/**'')"
  shows "ps_action r = ps_action g \<and>
    posix_isAbsolute (slashes (ps_resource r)) = posix_isAbsolute base \<and>
    (\<exists>ext. path_segs (slashes (ps_resource r)) = path_segs base @ ext \<and> (\<forall>w \<in> set ext. plain_seg w))"
proof -
  have "ps_action r = ps_action g" and "resourceImplies (ps_resource g) (ps_resource r) (ps_action g)"
    using assms(1-3) by (auto simp: capabilityImplies_def)
  with resource_implies_confined [OF assms(5,6,7,8,4)] show ?thesis by blast
qed

theorem recursive_grant_confined_witness:
  "\<exists>g r. parseCapabilityScope (js ''fs.write:src/**'') = Inr g \<and>
     parseCapabilityScope (js ''fs.write:src/x/../a'') = Inr r \<and>
     (\<exists>ext. path_segs (slashes (ps_resource r)) = path_segs (js ''src'') @ ext \<and>
            (\<forall>w \<in> set ext. plain_seg w))"
proof -
  let ?g = "\<lparr>ps_raw = js ''fs.write:src/**'', ps_family = js ''fs'', ps_action = js ''fs.write'',
      ps_resource = js ''src/**'', ps_effect = EffectAllow\<rparr>"
  let ?r = "\<lparr>ps_raw = js ''fs.write:src/x/../a'', ps_family = js ''fs'', ps_action = js ''fs.write'',
      ps_resource = js ''src/x/../a'', ps_effect = EffectAllow\<rparr>"
  have g: "parseCapabilityScope (js ''fs.write:src/**'') = Inr ?g" by code_simp
  have r: "parseCapabilityScope (js ''fs.write:src/x/../a'') = Inr ?r" by code_simp
  have "capabilityImplies (js ''fs.write:src/**'') (js ''fs.write:src/x/../a'') = Inr True"
    by code_simp
  moreover have "startsWith (js ''fs.write'') (js ''fs.'')" by code_simp
  moreover have "slashes (js ''src/**'') = js ''src'' @ js ''/**''" by code_simp
  moreover have "path_segs (js ''src'') = [js ''src'']" by code_simp
  moreover have "plain_seg (js ''src'')" by code_simp
  moreover have "\<not> endsWith (slashes (js ''src/x/../a'')) (js ''/**'')" by code_simp
  ultimately show ?thesis
    using recursive_grant_confined [OF g r, of "js ''src''"] g r by auto
qed

text \<open>
  Outside those hypotheses the matching differs from what the patterns say. A grant on a parent
  directory covers every ancestor, and the root pattern \<open>/**\<close> normalises to \<open>./**\<close> and covers no
  absolute path.
\<close>

theorem parent_grant_escapes:
  "capabilityImplies (js ''fs.read:../**'') (js ''fs.read:../../etc/passwd'') = Inr True"
  by code_simp

theorem root_grant_covers_nothing_absolute:
  "capabilityImplies (js ''fs.read:/**'') (js ''fs.read:/etc'') = Inr False"
  by code_simp

section \<open>Canonical strings\<close>

text \<open>
  The \<open>capabilityScope\<close> constraint of a structured scope is only used in its place when it
  parses to the same action and an equivalent resource; otherwise the canonical string is built
  from the structured fields.
\<close>

theorem canonical_string_sound:
  assumes "capabilityScopeToCanonicalString s = Inr c"
  shows "c = capabilityScopeToCanonicalAction s @ js '':'' @ cs_resource s \<or>
    (\<exists>p q. parseCapabilityScope c = Inr p \<and>
       parseCapabilityScope (capabilityScopeToCanonicalAction s @ js '':'' @ cs_resource s) = Inr q \<and>
       ps_action p = ps_action q \<and>
       resourceImplies (ps_resource p) (ps_resource q) (ps_action q) \<and>
       resourceImplies (ps_resource q) (ps_resource p) (ps_action q))"
  using assms
  by (auto simp: capabilityScopeToCanonicalString_def parseCapabilityScopeObject_def bind_res_Inr
      getCanonicalScopeConstraint_def canonicalScopeMatchesStructuredScope_def
      resourcesAreEquivalent_def split: option.splits list.splits json.splits sum.splits bool.splits)

definition wide_scope :: capability_scope where
  "wide_scope = \<lparr>cs_kind = FileScope, cs_resource = js ''./*'', cs_access = AccWrite,
     cs_constraints = [(js ''capabilityScope'', JStr (js ''fs.write:*''))]\<rparr>"

theorem canonical_string_sound_witness:
  "capabilityScopeToCanonicalString wide_scope = Inr (js ''fs.write:*'') \<and>
   (\<exists>p q. parseCapabilityScope (js ''fs.write:*'') = Inr p \<and>
      parseCapabilityScope (js ''fs.write:./*'') = Inr q \<and> ps_action p = ps_action q)"
proof -
  have c: "capabilityScopeToCanonicalString wide_scope = Inr (js ''fs.write:*'')" by code_simp
  have s: "capabilityScopeToCanonicalAction wide_scope @ js '':'' @ cs_resource wide_scope =
      js ''fs.write:./*''" by code_simp
  show ?thesis using c canonical_string_sound [OF c] unfolding s by auto
qed

text \<open>
  Mutual implication is weaker than equality because \<open>*\<close> is special only before normalisation: the
  file \<open>./*\<close> is taken for equivalent to everything, so the constraint \<open>fs.write:*\<close> widens a scope
  that covers one file to a scope that covers all of them.
\<close>

theorem canonical_constraint_widens:
  "capabilityScopeToCanonicalString wide_scope = Inr (js ''fs.write:*'') \<and>
   capabilityImplies (js ''fs.write:./*'') (js ''fs.write:secret'') = Inr False \<and>
   capabilityImplies (js ''fs.write:*'') (js ''fs.write:secret'') = Inr True"
  by (intro conjI; code_simp)

end
