(* ===== verification/Authorization.thy ===== *)
theory Authorization
  imports Governance Capability
begin

text \<open>
  The authorization kernel, \<open>packages/authorization-kernel/src/index.ts\<close>: facts are derived from
  proposed changes, scored for risk, and turned into a decision under a capability ceiling. The
  Unicode operations of the standard library (\<open>normalize\<close>, \<open>toLocaleLowerCase\<close>) and the platform's
  \<open>path.isAbsolute\<close> come from the record \<open>host\<close>; SHA-256 is the argument \<open>sha256\<close>.
\<close>

record host =
  h_nfkc :: "str \<Rightarrow> str"
  h_nfc :: "str \<Rightarrow> str"
  h_lower :: "str \<Rightarrow> str"
  h_isAbsolute :: "str \<Rightarrow> bool"

section \<open>Constants\<close>

definition PROTECTED_BRANCHES :: "str list" where
  "PROTECTED_BRANCHES =
     [js ''main'', js ''master'', js ''production'', js ''release'', js ''prod/stable'']"

definition CRITICAL_SEMANTIC_MARKERS :: "str list" where
  "CRITICAL_SEMANTIC_MARKERS =
     [js ''deploy'', js ''deployment'', js ''publish'', js ''release'',
      js ''production'', js ''prod/stable'', js ''credential'', js ''credentials'',
      js ''secret'', js ''private key'', js ''.env'', [0x90E8, 0x7F72], [0x53D1, 0x5E03],
      [0x751F, 0x4EA7], [0x4E0A, 0x7EBF], [0x51ED, 0x8BC1], [0x5BC6, 0x94A5],
      [0x79C1, 0x94A5], [0x73AF, 0x5883, 0x53D8, 0x91CF], [0x8FDC, 0x7A0B, 0x5199]]"

definition HIGH_SEMANTIC_MARKERS :: "str list" where
  "HIGH_SEMANTIC_MARKERS =
     [js ''delete'', js ''remove'', js ''rename'', js ''permission'', js ''network'',
      js ''external'', js ''push'', js ''merge'', js ''command'', js ''shell'',
      js ''migration'', [0x5220, 0x9664], [0x79FB, 0x9664], [0x91CD, 0x547D, 0x540D],
      [0x6743, 0x9650], [0x7F51, 0x7EDC], [0x5916, 0x90E8], [0x63A8, 0x9001],
      [0x5408, 0x5E76], [0x547D, 0x4EE4], [0x8FC1, 0x79FB]]"

definition MEDIUM_SEMANTIC_MARKERS :: "str list" where
  "MEDIUM_SEMANTIC_MARKERS =
     [js ''write'', js ''edit'', js ''modify'', js ''create'', js ''update'',
      js ''implement'', [0x5199, 0x5165], [0x7F16, 0x8F91], [0x4FEE, 0x6539],
      [0x65B0, 0x589E], [0x521B, 0x5EFA], [0x66F4, 0x65B0], [0x5B9E, 0x73B0]]"

definition READ_ONLY_SEMANTIC_MARKERS :: "str list" where
  "READ_ONLY_SEMANTIC_MARKERS =
     [js ''read'', js ''review'', js ''inspect'', js ''explain'', js ''summarize'',
      js ''analyze'', [0x8BFB, 0x53D6], [0x5BA1, 0x67E5], [0x68C0, 0x67E5],
      [0x89E3, 0x91CA], [0x603B, 0x7ED3], [0x5206, 0x6790]]"

definition SENSITIVE_PATH_COMPONENTS :: "str list" where
  "SENSITIVE_PATH_COMPONENTS =
     [js ''.git'', js ''.env'', js ''.netrc'', js ''.npmrc'', js ''.pypirc'',
      js ''.ssh'', js ''.codex-home'', js ''.omc'', js ''config.env'', js ''auth.json'',
      js ''config.json'', js ''state-private'', js ''secret'', js ''secrets'',
      js ''credential'', js ''credentials'', js ''id_dsa'', js ''id_ecdsa'',
      js ''id_ed25519'', js ''id_rsa'']"

definition CREDENTIAL_LIKE_COMPACT_FRAGMENTS :: "str list" where
  "CREDENTIAL_LIKE_COMPACT_FRAGMENTS =
     [js ''apikey'', js ''password'', js ''passwd'', js ''token'', js ''clientsecret'',
      js ''secret'', js ''secretkey'', js ''privatekey'', js ''secretaccesskey'',
      js ''githubtoken'', js ''npmtoken'', js ''authorizationbearer'']"

text \<open>\<open>uniqueStrings\<close>: distinct, in code-unit order.\<close>

definition uniqueStrings :: "str list \<Rightarrow> str list" where
  "uniqueStrings values = sort (uniq values)"

lemma set_uniqueStrings [simp]: "set (uniqueStrings xs) = set xs"
  by (simp add: uniqueStrings_def)

lemma uniqueStrings_Nil [simp]: "uniqueStrings xs = [] \<longleftrightarrow> xs = []"
  by (metis set_empty set_uniqueStrings)

section \<open>Paths\<close>

definition normalizeGovernedPath :: "str \<Rightarrow> str" where
  "normalizeGovernedPath path = posix_normalize (slashes path)"

text \<open>
  \<open>charCodeAt\<close> past the end is NaN, and both comparisons with NaN are false: the last code unit is
  never taken for an unpaired high surrogate.
\<close>

fun hasUnpairedUtf16Surrogate :: "str \<Rightarrow> bool" where
  "hasUnpairedUtf16Surrogate [] = False"
| "hasUnpairedUtf16Surrogate [c] = (if high_surrogate c then False else low_surrogate c)"
| "hasUnpairedUtf16Surrogate (c # d # cs) =
     (if high_surrogate c
      then (if d < 0xDC00 \<or> d > 0xDFFF then True else hasUnpairedUtf16Surrogate cs)
      else if low_surrogate c then True
      else hasUnpairedUtf16Surrogate (d # cs))"

definition unsafe_char :: "cu \<Rightarrow> bool" where
  "unsafe_char c \<longleftrightarrow> c \<le> 0x1F \<or> c = 0x7F \<or> c \<in> set (js ''<>:\"|?*[]'')"

definition is_line_terminator :: "cu \<Rightarrow> bool" where
  "is_line_terminator c \<longleftrightarrow> c = 10 \<or> c = 13 \<or> c = 0x2028 \<or> c = 0x2029"

text \<open>\<open>/^(con|prn|aux|nul|com[1-9]|lpt[1-9])(?:\..*)?$/i\<close>.\<close>

definition windows_reserved :: "str \<Rightarrow> bool" where
  "windows_reserved part =
     (let rest_ok = (\<lambda>r. r = [] \<or> (hd r = DOT \<and> list_all (\<lambda>c. \<not> is_line_terminator c) (tl r)));
          p3 = ascii_lower (take 3 part)
      in (p3 \<in> set [js ''con'', js ''prn'', js ''aux'', js ''nul''] \<and> rest_ok (drop 3 part)) \<or>
         (p3 \<in> set [js ''com'', js ''lpt''] \<and> 3 < length part \<and>
          49 \<le> part ! 3 \<and> part ! 3 \<le> 57 \<and> rest_ok (drop 4 part)))"

definition drive_prefix :: "str \<Rightarrow> bool" where
  "drive_prefix p = (case p of a # b # _ \<Rightarrow> (is_lower a \<or> is_upper a) \<and> b = COLON | _ \<Rightarrow> False)"

definition isSafeGovernedPath :: "host \<Rightarrow> str \<Rightarrow> bool" where
  "isSafeGovernedPath h input =
     (if h_nfc h input \<noteq> input \<or> hasUnpairedUtf16Surrogate input then False
      else let slashPath = slashes input;
               normalized = posix_normalize slashPath;
               parts = split_on SLASH normalized
           in \<not> (input = [] \<or> normalized = js ''.'' \<or> normalized = js ''..'' \<or>
                 startsWith normalized (js ''../'') \<or> posix_isAbsolute normalized \<or>
                 h_isAbsolute h input \<or> drive_prefix input \<or> startsWith slashPath (js ''//'') \<or>
                 normalized \<noteq> slashPath \<or>
                 0 \<in> set input \<or> 10 \<in> set input \<or> 13 \<in> set input \<or>
                 list_ex (\<lambda>part. part = [] \<or> part = js ''.'' \<or> part = js ''..'') parts \<or>
                 list_ex (\<lambda>part. h_lower h part = js ''.git'') parts \<or>
                 list_ex (\<lambda>part. list_ex unsafe_char part) parts \<or>
                 list_ex (\<lambda>part. endsWith part (js ''.'') \<or> endsWith part (js '' '')) parts \<or>
                 list_ex windows_reserved parts))"

definition hasUnsafeGovernedPath :: "host \<Rightarrow> 'z file_change_scheme \<Rightarrow> bool" where
  "hasUnsafeGovernedPath h c \<longleftrightarrow> \<not> isSafeGovernedPath h (fc_path c) \<or>
     (case fc_oldPath c of None \<Rightarrow> False | Some p \<Rightarrow> \<not> isSafeGovernedPath h p)"

definition isSensitiveGovernedPath :: "host \<Rightarrow> str \<Rightarrow> bool" where
  "isSensitiveGovernedPath h path =
     list_ex (\<lambda>c. c \<in> set SENSITIVE_PATH_COMPONENTS \<or> startsWith c (js ''.env.'') \<or>
                  endsWith c (js ''.pem'') \<or> endsWith c (js ''.key'') \<or> endsWith c (js ''.p12'') \<or>
                  endsWith c (js ''.pfx'') \<or> str_includes c (js ''token'') \<or>
                  str_includes c (js ''cookie''))
       (split_on SLASH (h_lower h (normalizeGovernedPath path)))"

definition deriveSensitivePathsFromFileChanges :: "host \<Rightarrow> 'z file_change_scheme list \<Rightarrow> str list" where
  "deriveSensitivePathsFromFileChanges h changes =
     uniqueStrings (filter (isSensitiveGovernedPath h)
       (concat (map (\<lambda>c. normalizeGovernedPath (fc_path c) #
          (case fc_oldPath c of None \<Rightarrow> [] | Some p \<Rightarrow> [normalizeGovernedPath p])) changes)))"

definition isProtectedBranchName :: "host \<Rightarrow> str option \<Rightarrow> bool" where
  "isProtectedBranchName h branch =
     (case branch of
        None \<Rightarrow> True
      | Some b \<Rightarrow>
          if trim b \<noteq> b then True
          else let n = h_lower h b
               in n \<in> set PROTECTED_BRANCHES \<or> startsWith n (js ''release/'') \<or>
                  startsWith n (js ''production/''))"

definition containsCredentialLikeDiffContent :: "host \<Rightarrow> str \<Rightarrow> bool" where
  "containsCredentialLikeDiffContent h diff =
     (let compact = filter (\<lambda>c. is_lower c \<or> is_digit c) (h_lower h (h_nfkc h diff))
      in list_ex (str_includes compact) CREDENTIAL_LIKE_COMPACT_FRAGMENTS)"

section \<open>Deriving facts\<close>

record facts_input =
  fi_subjectId :: str
  fi_fileChanges :: "file_change list option"
  fi_commands :: "fact_command list option"
  fi_permissionRequests :: "str list option"
  fi_repository :: repository
  fi_networkAccess :: "network_access option"
  fi_credentialAccess :: "credential_access option"
  fi_externalTargets :: "str list option"
  fi_releaseAction :: "bool option"
  fi_exactTargets :: "bool option"
  fi_ambiguous :: "bool option"
  fi_unknowns :: "str list option"
  fi_observedAt :: str

text \<open>\<open>v ?? d\<close>.\<close>

abbreviation coalesce :: "'a option \<Rightarrow> 'a \<Rightarrow> 'a" where
  "coalesce v d \<equiv> (case v of None \<Rightarrow> d | Some x \<Rightarrow> x)"

definition file_change_key :: "file_change \<Rightarrow> str" where
  "file_change_key c =
     fc_path c @ [0] @ change_kind_name (fc_kind c) @ [0] @ coalesce (fc_oldPath c) []"

definition normalize_change :: "file_change \<Rightarrow> file_change" where
  "normalize_change c = c\<lparr>fc_path := normalizeGovernedPath (fc_path c),
     fc_oldPath := map_option normalizeGovernedPath (fc_oldPath c)\<rparr>"

definition deriveCapabilityFacts :: "host \<Rightarrow> facts_input \<Rightarrow> err + facts" where
  "deriveCapabilityFacts h input =
     (let inputFileChanges = coalesce (fi_fileChanges input) [];
          unsafeDetected = list_ex (hasUnsafeGovernedPath h) inputFileChanges;
          fileChanges = sort_key file_change_key (map normalize_change inputFileChanges);
          commands = sort_key (\<lambda>c. join_with [0] (cmd_argv c)) (coalesce (fi_commands input) []);
          sensitivePaths = deriveSensitivePathsFromFileChanges h fileChanges;
          unknowns = uniqueStrings (coalesce (fi_unknowns input) [] @
                       (if unsafeDetected then [js ''unsafe_governed_path''] else []))
      in zod_parse CapabilityFactsSchema
         \<lparr>f_subjectId = fi_subjectId input, f_fileChanges = fileChanges, f_commands = commands,
          f_permissionRequests = uniqueStrings (coalesce (fi_permissionRequests input) []),
          f_repository = fi_repository input,
          f_networkAccess = coalesce (fi_networkAccess input) NetNone,
          f_credentialAccess = coalesce (fi_credentialAccess input) CredNone,
          f_externalTargets = uniqueStrings (coalesce (fi_externalTargets input) []),
          f_sensitivePaths = sensitivePaths,
          f_releaseAction = coalesce (fi_releaseAction input) False,
          f_exactTargets = (coalesce (fi_exactTargets input) (fileChanges \<noteq> []) \<and> \<not> unsafeDetected),
          f_ambiguous = coalesce (fi_ambiguous input) False,
          f_unknowns = unknowns, f_observedAt = fi_observedAt input\<rparr>)"

text \<open>
  The context of a change set: the fields of \<open>facts_input\<close> but \<open>subjectId\<close>, \<open>fileChanges\<close> and
  \<open>observedAt\<close>, whose values in \<open>context\<close> are not read; \<open>observedAt\<close> is the separate optional one.
\<close>

definition deriveCapabilityFactsFromChangeSet ::
  "host \<Rightarrow> change_set \<Rightarrow> facts_input \<Rightarrow> str option \<Rightarrow> err + facts" where
  "deriveCapabilityFactsFromChangeSet h changeSet context0 observedAt =
     (let diffSignals = list_ex (\<lambda>c. containsCredentialLikeDiffContent h (fc_unifiedDiff c))
                          (cs_changes changeSet);
          credentialAccess = (if diffSignals then Some CredRequested
                              else fi_credentialAccess context0)
      in deriveCapabilityFacts h
           (context0\<lparr>fi_subjectId := cs_changeSetId changeSet,
             fi_fileChanges := Some (map file_change.truncate (cs_changes changeSet)),
             fi_observedAt := coalesce observedAt (cs_proposedAt changeSet),
             fi_credentialAccess := credentialAccess\<rparr>))"

definition classifySemanticRiskSignal :: "host \<Rightarrow> str \<Rightarrow> risk" where
  "classifySemanticRiskSignal h text =
     (let normalized = h_lower h (h_nfkc h text);
          hit = list_ex (str_includes normalized)
      in if trim normalized = [] then RiskHigh
         else if hit CRITICAL_SEMANTIC_MARKERS then RiskCritical
         else if hit HIGH_SEMANTIC_MARKERS then RiskHigh
         else if hit MEDIUM_SEMANTIC_MARKERS then RiskMedium
         else if hit READ_ONLY_SEMANTIC_MARKERS then RiskLow
         else RiskMedium)"

section \<open>Risk of the facts\<close>

definition maxRisk :: "risk \<Rightarrow> risk \<Rightarrow> risk" where
  "maxRisk l r = (if risk_rank r \<le> risk_rank l then l else r)"

definition unsafe_path_facts :: "host \<Rightarrow> facts \<Rightarrow> bool" where
  "unsafe_path_facts h f \<longleftrightarrow> list_ex (hasUnsafeGovernedPath h) (f_fileChanges f) \<or>
     js ''unsafe_governed_path'' \<in> set (f_unknowns f)"

definition change_raises :: "file_change \<Rightarrow> (risk \<times> str) list" where
  "change_raises c =
     (if fc_kind c = DeleteChange then [(RiskHigh, js ''facts:delete:'' @ fc_path c)] else []) @
     (if fc_kind c = RenameChange
      then [(RiskHigh, js ''facts:rename:'' @ coalesce (fc_oldPath c) (js ''unknown'') @
               js '':'' @ fc_path c)] else [])"

text \<open>The calls of \<open>raise\<close>, in their order.\<close>

definition risk_raises :: "host \<Rightarrow> facts \<Rightarrow> (risk \<times> str) list" where
  "risk_raises h f =
     (let repo = f_repository f;
          on = (\<lambda>cond level reason. if cond then [(level, js reason)] else [])
      in on (f_fileChanges f \<noteq> []) RiskMedium ''facts:file_changes'' @
         on (unsafe_path_facts h f) RiskCritical ''facts:unsafe_path'' @
         concat (map change_raises (f_fileChanges f)) @
         on (f_commands f \<noteq> []) RiskHigh ''facts:command'' @
         on (f_permissionRequests f \<noteq> []) RiskHigh ''facts:permission'' @
         on (rp_protectedBranch repo \<or> isProtectedBranchName h (rp_branch repo))
            RiskHigh ''facts:protected_branch'' @
         on (\<not> rp_worktreeClean repo) RiskHigh ''facts:dirty_worktree'' @
         on (rp_expectedHead repo \<noteq> None \<and> rp_headCommit repo \<noteq> rp_expectedHead repo)
            RiskHigh ''facts:head_mismatch'' @
         on (f_sensitivePaths f \<noteq> [] \<or> deriveSensitivePathsFromFileChanges h (f_fileChanges f) \<noteq> [])
            RiskCritical ''facts:sensitive_path'' @
         on (f_networkAccess f \<noteq> NetNone)
            (if f_networkAccess f = NetUnknown then RiskHigh else RiskCritical) ''facts:network'' @
         on (f_credentialAccess f \<noteq> CredNone) RiskCritical ''facts:credential'' @
         on (f_externalTargets f \<noteq> []) RiskCritical ''facts:external_target'' @
         on (f_releaseAction f) RiskCritical ''facts:release_action'' @
         on (\<not> f_exactTargets f) RiskHigh ''facts:inexact_targets'' @
         on (f_ambiguous f) RiskHigh ''facts:ambiguous'' @
         on (f_unknowns f \<noteq> []) RiskHigh ''facts:unknown'')"

definition scoreCapabilityFactsRisk :: "host \<Rightarrow> facts \<Rightarrow> err + (risk \<times> str list)" where
  "scoreCapabilityFactsRisk h factsInput =
     bind_res (zod_parse CapabilityFactsSchema factsInput) (\<lambda>f.
       Inr (foldl maxRisk RiskLow (map fst (risk_raises h f)),
            uniqueStrings (map snd (risk_raises h f))))"

section \<open>The capability ceiling\<close>

definition capabilityImpliesSafely :: "str \<Rightarrow> str \<Rightarrow> bool" where
  "capabilityImpliesSafely grantScope requestedScope =
     (case capabilityImplies grantScope requestedScope of Inl _ \<Rightarrow> False | Inr b \<Rightarrow> b)"

definition dedupeCapabilityScopes :: "capability_scope list \<Rightarrow> err + capability_scope list" where
  "dedupeCapabilityScopes scopes =
     bind_res (map_res capabilityScopeToCanonicalString scopes) (\<lambda>keys.
       Inr (dedupe_by_key {} (zip keys scopes)))"

definition narrowToCapabilityCeiling ::
  "capability_scope list \<Rightarrow> capability_scope list \<Rightarrow> err + (capability_scope list \<times> str list)" where
  "narrowToCapabilityCeiling requested capabilityCeiling =
     bind_res (map_res capabilityScopeToCanonicalString capabilityCeiling) (\<lambda>ceilingScopes.
     bind_res (map_res capabilityScopeToCanonicalString requested) (\<lambda>canonicals.
       let isAllowed = (\<lambda>c. list_ex (\<lambda>g. capabilityImpliesSafely g c) ceilingScopes);
           allowed = map snd (filter (\<lambda>p. isAllowed (fst p)) (zip canonicals requested));
           missing = filter (\<lambda>c. \<not> isAllowed c) canonicals
       in bind_res (dedupeCapabilityScopes allowed) (\<lambda>a. Inr (a, uniqueStrings missing))))"

text \<open>\<open>some\<close> and \<open>every\<close> with a predicate that may throw; both stop at the first decisive element.\<close>

fun some_res :: "('a \<Rightarrow> 'e + bool) \<Rightarrow> 'a list \<Rightarrow> 'e + bool" where
  "some_res f [] = Inr False"
| "some_res f (x # xs) = bind_res (f x) (\<lambda>b. if b then Inr True else some_res f xs)"

fun every_res :: "('a \<Rightarrow> 'e + bool) \<Rightarrow> 'a list \<Rightarrow> 'e + bool" where
  "every_res f [] = Inr True"
| "every_res f (x # xs) = bind_res (f x) (\<lambda>b. if b then every_res f xs else Inr False)"

definition change_targets :: "'z file_change_scheme \<Rightarrow> str list" where
  "change_targets c = fc_path c # (case fc_oldPath c of None \<Rightarrow> [] | Some p \<Rightarrow> [p])"

definition write_covers :: "str \<Rightarrow> capability_scope \<Rightarrow> err + bool" where
  "write_covers target scope =
     bind_res (capabilityScopeToCanonicalString scope) (\<lambda>c.
       capabilityImplies c (js ''fs.write:'' @ target))"

definition factualFileWritesAreRequested :: "facts \<Rightarrow> capability_scope list \<Rightarrow> err + bool" where
  "factualFileWritesAreRequested f requested =
     (let writes = filter (\<lambda>s. cs_kind s = FileScope \<and> cs_access s = AccWrite) requested
      in every_res (\<lambda>c. every_res (\<lambda>t. some_res (write_covers t) writes) (change_targets c))
           (f_fileChanges f))"

section \<open>The decision\<close>

definition isSideEffectingCapability :: "capability_scope \<Rightarrow> bool" where
  "isSideEffectingCapability s \<longleftrightarrow> cs_access s \<noteq> AccRead"

definition isReadOnlyCapability :: "capability_scope \<Rightarrow> bool" where
  "isReadOnlyCapability s \<longleftrightarrow> cs_access s = AccRead"

definition isPolicyAutoCandidate :: "host \<Rightarrow> facts \<Rightarrow> risk \<Rightarrow> bool" where
  "isPolicyAutoCandidate h f r \<longleftrightarrow>
     (r = RiskLow \<or> r = RiskMedium) \<and> f_fileChanges f \<noteq> [] \<and>
     list_all (\<lambda>c. fc_kind c = CreateChange \<or> fc_kind c = UpdateChange) (f_fileChanges f) \<and>
     list_all (\<lambda>c. \<not> hasUnsafeGovernedPath h c) (f_fileChanges f) \<and>
     f_commands f = [] \<and> f_permissionRequests f = [] \<and>
     \<not> rp_protectedBranch (f_repository f) \<and>
     \<not> isProtectedBranchName h (rp_branch (f_repository f)) \<and>
     rp_worktreeClean (f_repository f) \<and>
     rp_headCommit (f_repository f) \<noteq> None \<and>
     rp_headCommit (f_repository f) = rp_expectedHead (f_repository f) \<and>
     f_networkAccess f = NetNone \<and> f_credentialAccess f = CredNone \<and>
     f_externalTargets f = [] \<and> f_sensitivePaths f = [] \<and>
     deriveSensitivePathsFromFileChanges h (f_fileChanges f) = [] \<and>
     \<not> f_releaseAction f \<and> f_exactTargets f \<and> \<not> f_ambiguous f \<and> f_unknowns f = []"

record authorize_input =
  ai_decisionId :: "str option"
  ai_surface :: surface
  ai_facts :: facts
  ai_semanticRisk :: risk
  ai_requestedCapabilities :: "capability_scope list"
  ai_capabilityCeiling :: "capability_scope list"
  ai_createdAt :: str

definition risk_name :: "risk \<Rightarrow> str" where
  "risk_name r = (case r of RiskLow \<Rightarrow> js ''low'' | RiskMedium \<Rightarrow> js ''medium''
     | RiskHigh \<Rightarrow> js ''high'' | RiskCritical \<Rightarrow> js ''critical'')"

text \<open>The flags the decision is computed from, in the order the code computes them.\<close>

record verdict =
  v_factualRisk :: risk
  v_effectiveRisk :: risk
  v_allowed :: "capability_scope list"
  v_missing :: "str list"
  v_writeMissing :: bool
  v_sensitiveIncomplete :: bool
  v_sideEffect :: bool
  v_unsafeBlocked :: bool
  v_unknownBlocked :: bool
  v_autoEligible :: bool
  v_factReasons :: "str list"

definition authorization_verdict :: "host \<Rightarrow> authorize_input \<Rightarrow> err + verdict" where
  "authorization_verdict h input =
     bind_res (zod_parse CapabilityFactsSchema (ai_facts input)) (\<lambda>f.
     bind_res (scoreCapabilityFactsRisk h f) (\<lambda>(factual, factReasons).
     let effectiveRisk = maxRisk (ai_semanticRisk input) factual in
     bind_res (narrowToCapabilityCeiling (ai_requestedCapabilities input)
                 (ai_capabilityCeiling input)) (\<lambda>(allowed, missing).
     let detected = f_fileChanges f \<noteq> [] in
     bind_res (if detected
               then bind_res (factualFileWritesAreRequested f (ai_requestedCapabilities input))
                      (\<lambda>b. Inr (\<not> b))
               else Inr False) (\<lambda>writeMissing.
     let sensitiveIncomplete = list_ex (\<lambda>p. p \<notin> set (f_sensitivePaths f))
           (deriveSensitivePathsFromFileChanges h (f_fileChanges f));
         sideEffect = (detected \<or> list_ex isSideEffectingCapability (ai_requestedCapabilities input));
         unsafeBlocked = (sideEffect \<and> unsafe_path_facts h f);
         unknownBlocked = (sideEffect \<and> (f_ambiguous f \<or> \<not> f_exactTargets f \<or> f_unknowns f \<noteq> [] \<or>
           f_networkAccess f = NetUnknown \<or> f_credentialAccess f = CredUnknown))
     in Inr \<lparr>v_factualRisk = factual, v_effectiveRisk = effectiveRisk, v_allowed = allowed,
             v_missing = missing, v_writeMissing = writeMissing,
             v_sensitiveIncomplete = sensitiveIncomplete, v_sideEffect = sideEffect,
             v_unsafeBlocked = unsafeBlocked, v_unknownBlocked = unknownBlocked,
             v_autoEligible = (isPolicyAutoCandidate h f effectiveRisk \<and> missing = [] \<and>
               \<not> writeMissing \<and> \<not> sensitiveIncomplete \<and> \<not> unsafeBlocked \<and> \<not> unknownBlocked),
             v_factReasons = factReasons\<rparr>))))"

definition verdict_blocked :: "verdict \<Rightarrow> bool" where
  "verdict_blocked v \<longleftrightarrow> v_missing v \<noteq> [] \<or> v_writeMissing v \<or> v_sensitiveIncomplete v \<or>
     v_unsafeBlocked v \<or> v_unknownBlocked v"

definition verdict_mode :: "verdict \<Rightarrow> approval_mode" where
  "verdict_mode v =
     (if verdict_blocked v then HumanRequired
      else if \<not> v_sideEffect v \<and> v_effectiveRisk v \<noteq> RiskHigh \<and> v_effectiveRisk v \<noteq> RiskCritical
      then NotRequired
      else if v_autoEligible v then PolicyAuto else HumanRequired)"

definition authorizeCapabilityFacts ::
  "host \<Rightarrow> (str \<Rightarrow> str) \<Rightarrow> authorize_input \<Rightarrow> err + decision" where
  "authorizeCapabilityFacts h sha256 input =
     bind_res (authorization_verdict h input) (\<lambda>v.
       let f = ai_facts input;
           flag = (\<lambda>b reason. if b then [js reason] else []);
           reasons = uniqueStrings (v_factReasons v @
             [js ''semantic_risk:'' @ risk_name (ai_semanticRisk input),
              js ''factual_risk:'' @ risk_name (v_factualRisk v),
              js ''effective_risk:'' @ risk_name (v_effectiveRisk v)] @
             map (\<lambda>s. js ''capability_ceiling_missing:'' @ s) (v_missing v) @
             flag (v_writeMissing v) ''factual_file_write_capability_missing'' @
             flag (v_sensitiveIncomplete v) ''sensitive_path_facts_incomplete'' @
             flag (v_unsafeBlocked v) ''unsafe_governed_path_forbidden'' @
             flag (v_unknownBlocked v) ''unknown_or_ambiguous_write_forbidden'');
           blocked = verdict_blocked v;
           mode = verdict_mode v;
           approvalRequired = (mode \<noteq> NotRequired);
           factsHash = hashKernelObject sha256 (facts_json f)
       in zod_parse AuthorizationDecisionSchema
         \<lparr>d_decisionId = coalesce (ai_decisionId input)
            (js ''authorization_'' @ f_subjectId f @ js ''_'' @ take 16 factsHash),
          d_subjectId = f_subjectId f, d_surface = ai_surface input, d_factsHash = factsHash,
          d_semanticRisk = ai_semanticRisk input, d_factualRisk = v_factualRisk v,
          d_effectiveRisk = v_effectiveRisk v,
          d_requestedCapabilities = ai_requestedCapabilities input,
          d_authorizedCapabilities =
            (if blocked then filter isReadOnlyCapability (v_allowed v) else v_allowed v),
          d_approvalMode = mode,
          d_disposition = (if blocked then Blocked
                           else if approvalRequired then ApprovalRequired else Authorized),
          d_approvalRequired = approvalRequired, d_reasons = reasons,
          d_createdAt = ai_createdAt input\<rparr>)"

end
