(* ===== verification/AuthorizationProofs.thy ===== *)
theory AuthorizationProofs
  imports Authorization
begin

text \<open>
  What the authorization kernel guarantees: safe paths are normalised and confined, risk is
  monotone in the facts, automatic approval only happens with every hard boundary green, no
  capability is authorized beyond the ceiling, and the decision always satisfies its own schema.
\<close>

section \<open>Paths\<close>

text \<open>
  A safe governed path is relative, equal to its own normal form, and made of plain segments
  only: none is empty, \<open>.\<close>, \<open>..\<close> or \<open>.git\<close> (in any case), and none holds a control or shell-glob
  character, ends in a dot or a space, or is a reserved device name.
\<close>

theorem safe_path_confined:
  assumes "isSafeGovernedPath h p"
  shows "normalizeGovernedPath p = slashes p \<and> \<not> posix_isAbsolute (slashes p) \<and>
    \<not> h_isAbsolute h p \<and> path_segs (slashes p) = split_on SLASH (slashes p) \<and>
    (\<forall>w \<in> set (split_on SLASH (slashes p)). plain_seg w \<and> h_lower h w \<noteq> js ''.git'' \<and>
       (\<forall>c \<in> set w. \<not> unsafe_char c) \<and> \<not> endsWith w (js ''.'') \<and> \<not> endsWith w (js '' '') \<and>
       \<not> windows_reserved w)"
proof -
  let ?s = "slashes p" and ?ps = "split_on SLASH (slashes p)"
  have n: "posix_normalize ?s = ?s"
    using assms by (simp add: isSafeGovernedPath_def Let_def split: if_splits)
  have all: "\<not> posix_isAbsolute ?s" "\<not> h_isAbsolute h p"
    "\<forall>w \<in> set ?ps. w \<noteq> [] \<and> w \<noteq> js ''.'' \<and> w \<noteq> js ''..''"
    "\<forall>w \<in> set ?ps. h_lower h w \<noteq> js ''.git'' \<and> (\<forall>c \<in> set w. \<not> unsafe_char c) \<and>
       \<not> endsWith w (js ''.'') \<and> \<not> endsWith w (js '' '') \<and> \<not> windows_reserved w"
    using assms by (simp_all add: isSafeGovernedPath_def Let_def n list_ex_iff split: if_splits)
  have plain: "\<forall>w \<in> set ?ps. plain_seg w"
    using all(3) split_on_no_sep by (auto simp: plain_seg_def)
  then have "canon_segs True ?ps" by (cases ?ps) auto
  then have "path_segs ?s = ?ps"
    using norm_segs_fix [of True "[]" ?ps] all(1) by (simp add: path_segs_def)
  then show ?thesis using n all plain by (simp add: normalizeGovernedPath_def)
qed

definition plain_host :: host where
  "plain_host = \<lparr>h_nfkc = id, h_nfc = id, h_lower = ascii_lower, h_isAbsolute = posix_isAbsolute\<rparr>"

theorem safe_path_confined_witness:
  "isSafeGovernedPath plain_host (js ''src/a.ts'') \<and>
   path_segs (slashes (js ''src/a.ts'')) = split_on SLASH (slashes (js ''src/a.ts''))"
proof -
  have s: "isSafeGovernedPath plain_host (js ''src/a.ts'')" by code_simp
  show ?thesis using s safe_path_confined [OF s] by simp
qed

text \<open>
  A high surrogate at the very end has no partner, yet the check passes it and the path is safe.
\<close>

theorem trailing_surrogate_undetected:
  "hasUnpairedUtf16Surrogate (js ''a'' @ [0xD800]) = False \<and>
   hasUnpairedUtf16Surrogate (js ''a'' @ [0xD800] @ js ''b'') = True \<and>
   isSafeGovernedPath plain_host (js ''a'' @ [0xD800])"
  by (intro conjI; code_simp)

lemma normalizeGovernedPath_idem [simp]:
  "normalizeGovernedPath (normalizeGovernedPath p) = normalizeGovernedPath p"
proof -
  have bs: "BACKSLASH \<notin> set (slashes p)" for p by (auto simp: slashes_def)
  have seg: "BACKSLASH \<notin> set w" if "w \<in> set (split_on SLASH s)" "BACKSLASH \<notin> set s" for w s
    using that by (induction s arbitrary: w) (fastforce split: list.splits if_splits)+
  have norm: "\<forall>w \<in> set (norm_segs rel ws acc). BACKSLASH \<notin> set w"
    if "\<forall>w \<in> set ws. BACKSLASH \<notin> set w" "\<forall>w \<in> set acc. BACKSLASH \<notin> set w" for rel ws acc
    using that by (induction rel ws acc rule: norm_segs.induct) (auto split: list.splits)
  have join: "BACKSLASH \<notin> set (join_with [SLASH] ws)" if "\<forall>w \<in> set ws. BACKSLASH \<notin> set w" for ws
    using that by (induction "[SLASH]" ws rule: join_with.induct) auto
  have "BACKSLASH \<notin> set (posix_normalize (slashes p))"
  proof (cases "path_segs (slashes p) = []")
    case True
    then show ?thesis using posix_normalize_dots [OF True] by (auto simp: js_dots)
  next
    case False
    have "\<forall>w \<in> set (path_segs (slashes p)). BACKSLASH \<notin> set w"
      unfolding path_segs_def by (rule norm) (use seg bs in auto)
    then show ?thesis unfolding posix_normalize_segs [OF False] using join by auto
  qed
  then have "slashes (posix_normalize (slashes p)) = posix_normalize (slashes p)"
    by (auto simp: slashes_def intro!: map_idI)
  then show ?thesis by (simp add: normalizeGovernedPath_def)
qed

section \<open>Risk is monotone\<close>

lemma maxRisk_max [simp]: "maxRisk l r = max l r"
  by (auto simp: maxRisk_def max_def less_eq_risk_def intro: order.antisym)

lemma foldl_maxRisk_le: "foldl maxRisk a rs \<le> b \<longleftrightarrow> a \<le> b \<and> (\<forall>r \<in> set rs. r \<le> b)"
  by (induction rs arbitrary: a) auto

abbreviation facts_level :: "host \<Rightarrow> facts \<Rightarrow> risk" where
  "facts_level h f \<equiv> foldl maxRisk RiskLow (map fst (risk_raises h f))"

lemma score_Inr:
  "scoreCapabilityFactsRisk h f = Inr s \<longleftrightarrow> CapabilityFactsSchema f \<and>
     s = (facts_level h f, uniqueStrings (map snd (risk_raises h f)))"
  by (auto simp: scoreCapabilityFactsRisk_def bind_res_Inr)

text \<open>Facts \<open>g\<close> show at least as much as facts \<open>f\<close>.\<close>

definition branch_protected :: "host \<Rightarrow> facts \<Rightarrow> bool" where
  "branch_protected h f \<longleftrightarrow> rp_protectedBranch (f_repository f) \<or>
     isProtectedBranchName h (rp_branch (f_repository f))"

definition head_mismatch :: "facts \<Rightarrow> bool" where
  "head_mismatch f \<longleftrightarrow> rp_expectedHead (f_repository f) \<noteq> None \<and>
     rp_headCommit (f_repository f) \<noteq> rp_expectedHead (f_repository f)"

definition facts_le :: "host \<Rightarrow> facts \<Rightarrow> facts \<Rightarrow> bool" where
  "facts_le h f g \<longleftrightarrow> set (f_fileChanges f) \<subseteq> set (f_fileChanges g) \<and>
     set (f_commands f) \<subseteq> set (f_commands g) \<and>
     set (f_permissionRequests f) \<subseteq> set (f_permissionRequests g) \<and>
     (branch_protected h f \<longrightarrow> branch_protected h g) \<and>
     (rp_worktreeClean (f_repository g) \<longrightarrow> rp_worktreeClean (f_repository f)) \<and>
     (head_mismatch f \<longrightarrow> head_mismatch g) \<and>
     set (f_sensitivePaths f) \<subseteq> set (f_sensitivePaths g) \<and>
     (f_networkAccess f = NetNone \<or> f_networkAccess g = f_networkAccess f \<or>
      f_networkAccess g = NetRequested \<or> f_networkAccess g = NetRequired) \<and>
     (f_credentialAccess f \<noteq> CredNone \<longrightarrow> f_credentialAccess g \<noteq> CredNone) \<and>
     set (f_externalTargets f) \<subseteq> set (f_externalTargets g) \<and>
     (f_releaseAction f \<longrightarrow> f_releaseAction g) \<and> (f_exactTargets g \<longrightarrow> f_exactTargets f) \<and>
     (f_ambiguous f \<longrightarrow> f_ambiguous g) \<and> set (f_unknowns f) \<subseteq> set (f_unknowns g)"

definition network_level :: "network_access \<Rightarrow> risk" where
  "network_level n = (case n of NetNone \<Rightarrow> RiskLow | NetUnknown \<Rightarrow> RiskHigh | _ \<Rightarrow> RiskCritical)"

lemma facts_level_le:
  "facts_level h f \<le> b \<longleftrightarrow>
     (f_fileChanges f \<noteq> [] \<longrightarrow> RiskMedium \<le> b) \<and>
     (unsafe_path_facts h f \<longrightarrow> RiskCritical \<le> b) \<and>
     (\<forall>c \<in> set (f_fileChanges f). fc_kind c \<in> {DeleteChange, RenameChange} \<longrightarrow> RiskHigh \<le> b) \<and>
     (f_commands f \<noteq> [] \<longrightarrow> RiskHigh \<le> b) \<and> (f_permissionRequests f \<noteq> [] \<longrightarrow> RiskHigh \<le> b) \<and>
     (branch_protected h f \<longrightarrow> RiskHigh \<le> b) \<and>
     (\<not> rp_worktreeClean (f_repository f) \<longrightarrow> RiskHigh \<le> b) \<and>
     (head_mismatch f \<longrightarrow> RiskHigh \<le> b) \<and>
     (f_sensitivePaths f \<noteq> [] \<or> deriveSensitivePathsFromFileChanges h (f_fileChanges f) \<noteq> [] \<longrightarrow>
        RiskCritical \<le> b) \<and>
     network_level (f_networkAccess f) \<le> b \<and>
     (f_credentialAccess f \<noteq> CredNone \<longrightarrow> RiskCritical \<le> b) \<and>
     (f_externalTargets f \<noteq> [] \<longrightarrow> RiskCritical \<le> b) \<and>
     (f_releaseAction f \<longrightarrow> RiskCritical \<le> b) \<and> (\<not> f_exactTargets f \<longrightarrow> RiskHigh \<le> b) \<and>
     (f_ambiguous f \<longrightarrow> RiskHigh \<le> b) \<and> (f_unknowns f \<noteq> [] \<longrightarrow> RiskHigh \<le> b)"
proof -
  have on: "(\<forall>r \<in> set (if c then [(l :: risk, s :: str)] else []). fst r \<le> b) \<longleftrightarrow> (c \<longrightarrow> l \<le> b)" for c l s
    by simp
  have ch: "(\<forall>r \<in> set (concat (map change_raises cs)). fst r \<le> b) \<longleftrightarrow>
      (\<forall>c \<in> set cs. fc_kind c \<in> {DeleteChange, RenameChange} \<longrightarrow> RiskHigh \<le> b)" for cs
    by (induction cs) (auto simp: change_raises_def)
  have net: "(n \<noteq> NetNone \<longrightarrow> (if n = NetUnknown then RiskHigh else RiskCritical) \<le> b) \<longleftrightarrow>
      network_level n \<le> b" for n
    by (cases n) (auto simp: network_level_def)
  show ?thesis
    unfolding foldl_maxRisk_le risk_raises_def Let_def set_map ball_simps set_append ball_Un on ch net
      branch_protected_def head_mismatch_def by simp
qed

lemma sensitive_mono:
  "set cs \<subseteq> set ds \<Longrightarrow> deriveSensitivePathsFromFileChanges h cs \<noteq> [] \<Longrightarrow>
   deriveSensitivePathsFromFileChanges h ds \<noteq> []"
  by (auto simp: deriveSensitivePathsFromFileChanges_def filter_empty_conv)

text \<open>
  Risk is monotone. Facts that show at least as much never score a lower factual risk, and the
  effective risk of a decision is at least the semantic and at least the factual risk.
\<close>

theorem risk_monotone:
  assumes "facts_le h f g"
    and "scoreCapabilityFactsRisk h f = Inr (lf, rf)" and "scoreCapabilityFactsRisk h g = Inr (lg, rg)"
  shows "lf \<le> lg \<and> maxRisk semantic lf \<le> maxRisk semantic lg \<and>
         semantic \<le> maxRisk semantic lf \<and> lf \<le> maxRisk semantic lf"
proof -
  have l: "lf = facts_level h f" "lg = facts_level h g" using assms(2,3) by (auto simp: score_Inr)
  note le = assms(1) [unfolded facts_le_def]
  have sub: "set (f_fileChanges f) \<subseteq> set (f_fileChanges g)" "set (f_unknowns f) \<subseteq> set (f_unknowns g)"
    using le by simp_all
  have unsafe: "unsafe_path_facts h f \<longrightarrow> unsafe_path_facts h g"
    using sub unfolding unsafe_path_facts_def list_ex_iff by blast
  have net: "network_level (f_networkAccess f) \<le> network_level (f_networkAccess g)"
    using le unfolding network_level_def
    by (elim conjE) (cases "f_networkAccess f"; cases "f_networkAccess g"; simp)
  have sens: "deriveSensitivePathsFromFileChanges h (f_fileChanges f) \<noteq> [] \<longrightarrow>
      deriveSensitivePathsFromFileChanges h (f_fileChanges g) \<noteq> []"
    using sensitive_mono [OF sub(1)] by blast
  have nonempty: "xs \<noteq> [] \<longrightarrow> ys \<noteq> []" if "set xs \<subseteq> set ys" for xs ys :: "'z list"
    using that by auto
  have flags: "f_fileChanges f \<noteq> [] \<longrightarrow> f_fileChanges g \<noteq> []"
    "f_commands f \<noteq> [] \<longrightarrow> f_commands g \<noteq> []"
    "f_permissionRequests f \<noteq> [] \<longrightarrow> f_permissionRequests g \<noteq> []"
    "f_sensitivePaths f \<noteq> [] \<longrightarrow> f_sensitivePaths g \<noteq> []"
    "f_externalTargets f \<noteq> [] \<longrightarrow> f_externalTargets g \<noteq> []"
    "f_unknowns f \<noteq> [] \<longrightarrow> f_unknowns g \<noteq> []"
    by (rule nonempty, use le in simp)+
  have others: "branch_protected h f \<longrightarrow> branch_protected h g"
    "\<not> rp_worktreeClean (f_repository f) \<longrightarrow> \<not> rp_worktreeClean (f_repository g)"
    "head_mismatch f \<longrightarrow> head_mismatch g" "f_credentialAccess f \<noteq> CredNone \<longrightarrow> f_credentialAccess g \<noteq> CredNone"
    "f_releaseAction f \<longrightarrow> f_releaseAction g" "\<not> f_exactTargets f \<longrightarrow> \<not> f_exactTargets g"
    "f_ambiguous f \<longrightarrow> f_ambiguous g"
    using le by satx+
  have "facts_level h g \<le> lg" using l by simp
  then have bound: "facts_level h g \<le> lg = True" by simp
  note bound = bound [unfolded facts_level_le, simplified simp_thms]
  have kinds: "\<forall>c \<in> set (f_fileChanges f). fc_kind c \<in> {DeleteChange, RenameChange} \<longrightarrow> RiskHigh \<le> lg"
    using bound sub(1) by blast
  have netb: "network_level (f_networkAccess f) \<le> lg"
    using bound net by (metis order_trans)
  have "facts_level h f \<le> lg"
    unfolding facts_level_le
    apply (intro conjI kinds netb) using bound flags others unsafe sens by satx+
  then show ?thesis using l by (auto simp: max_def)
qed

theorem risk_monotone_witness:
  "\<exists>f g lf lg rf rg. facts_le plain_host f g \<and> scoreCapabilityFactsRisk plain_host f = Inr (lf, rf) \<and>
     scoreCapabilityFactsRisk plain_host g = Inr (lg, rg) \<and> lf = RiskLow \<and> lg = RiskCritical \<and> lf \<le> lg"
proof -
  define f where "f = \<lparr>f_subjectId = js ''s'', f_fileChanges = [], f_commands = [],
    f_permissionRequests = [], f_repository = \<lparr>rp_branch = Some (js ''dev''), rp_protectedBranch = False,
      rp_worktreeClean = True, rp_headCommit = None, rp_expectedHead = None\<rparr>,
    f_networkAccess = NetNone, f_credentialAccess = CredNone, f_externalTargets = [],
    f_sensitivePaths = [], f_releaseAction = False, f_exactTargets = True, f_ambiguous = False,
    f_unknowns = [], f_observedAt = js ''t''\<rparr>"
  define g where "g = f\<lparr>f_releaseAction := True\<rparr>"
  have le: "facts_le plain_host f g" by (simp add: facts_le_def g_def branch_protected_def head_mismatch_def)
  have f: "scoreCapabilityFactsRisk plain_host f = Inr (RiskLow, [])"
    unfolding f_def by code_simp
  have g: "scoreCapabilityFactsRisk plain_host g = Inr (RiskCritical, [js ''facts:release_action''])"
    unfolding g_def f_def by code_simp
  show ?thesis using le f g risk_monotone [OF le f g] by blast
qed

section \<open>The ceiling\<close>

text \<open>A scope is within the ceiling when a ceiling scope implies its canonical string.\<close>

definition within_ceiling :: "capability_scope list \<Rightarrow> capability_scope \<Rightarrow> bool" where
  "within_ceiling ceil s \<longleftrightarrow> (\<exists>c. capabilityScopeToCanonicalString s = Inr c \<and>
     (\<exists>g \<in> set ceil. \<exists>gc. capabilityScopeToCanonicalString g = Inr gc \<and>
        capabilityImplies gc c = Inr True))"

lemma capabilityImpliesSafely_iff: "capabilityImpliesSafely g c \<longleftrightarrow> capabilityImplies g c = Inr True"
  by (auto simp: capabilityImpliesSafely_def split: sum.splits)

lemma dedupe_zip_subset: "set (dedupe_by_key seen (zip ks zs)) \<subseteq> set zs"
  using dedupe_by_key_subset [of seen "zip ks zs"] by (force dest: set_zip_rightD)

lemma list_all2_zip_mem:
  "list_all2 P xs ys \<Longrightarrow> (y, x) \<in> set (zip ys xs) \<Longrightarrow> P x y"
  by (auto simp: list_all2_conv_all_nth set_zip)

lemma narrow_Inr:
  assumes "narrowToCapabilityCeiling req ceil = Inr (allowed, missing)"
  shows "set allowed \<subseteq> set req" and "s \<in> set allowed \<Longrightarrow> within_ceiling ceil s"
    and "missing = [] \<Longrightarrow> s \<in> set req \<Longrightarrow> within_ceiling ceil s"
    and "s \<in> set req \<Longrightarrow> isOk (capabilityScopeToCanonicalString s)"
proof -
  from assms obtain cs rs where cs: "list_all2 (\<lambda>x y. capabilityScopeToCanonicalString x = Inr y) ceil cs"
    and rs: "list_all2 (\<lambda>x y. capabilityScopeToCanonicalString x = Inr y) req rs"
    and al: "dedupeCapabilityScopes (map snd (filter (\<lambda>p. list_ex (\<lambda>g. capabilityImpliesSafely g (fst p)) cs)
               (zip rs req))) = Inr allowed"
    and mi: "missing = uniqueStrings (filter (\<lambda>c. \<not> list_ex (\<lambda>g. capabilityImpliesSafely g c) cs) rs)"
    by (auto simp: narrowToCapabilityCeiling_def bind_res_Inr map_res_Inr Let_def)
  have within: "within_ceiling ceil x"
    if "(c, x) \<in> set (zip rs req)" "list_ex (\<lambda>g. capabilityImpliesSafely g c) cs" for c x
  proof -
    from that(2) obtain gc where gc: "gc \<in> set cs" "capabilityImplies gc c = Inr True"
      by (auto simp: list_ex_iff capabilityImpliesSafely_iff)
    from list_all2_mem_right [OF cs gc(1)]
    obtain g where "g \<in> set ceil" "capabilityScopeToCanonicalString g = Inr gc" by blast
    with gc(2) list_all2_zip_mem [OF rs that(1)] show ?thesis
      unfolding within_ceiling_def by blast
  qed
  have sub: "x \<in> set allowed \<Longrightarrow> \<exists>c. (c, x) \<in> set (zip rs req) \<and>
      list_ex (\<lambda>g. capabilityImpliesSafely g c) cs" for x
  proof -
    assume x: "x \<in> set allowed"
    let ?zs = "map snd (filter (\<lambda>p. list_ex (\<lambda>g. capabilityImpliesSafely g (fst p)) cs) (zip rs req))"
    from al obtain ks where "allowed = dedupe_by_key {} (zip ks ?zs)"
      by (auto simp: dedupeCapabilityScopes_def bind_res_Inr)
    with x dedupe_zip_subset [of "{}" ks ?zs] have "x \<in> set ?zs" by blast
    then show ?thesis by auto
  qed
  show "set allowed \<subseteq> set req" using sub by (auto dest: set_zip_rightD)
  show "s \<in> set allowed \<Longrightarrow> within_ceiling ceil s" using sub within by blast
  show "within_ceiling ceil s" if "missing = []" "s \<in> set req"
  proof -
    from that(2) rs obtain c where "(c, s) \<in> set (zip rs req)"
      by (auto simp: list_all2_conv_all_nth in_set_conv_nth set_zip)
    moreover have "filter (\<lambda>c. \<not> list_ex (\<lambda>g. capabilityImpliesSafely g c) cs) rs = []"
      using mi that(1) by (metis uniqueStrings_Nil)
    ultimately have "(c, s) \<in> set (zip rs req)" "list_ex (\<lambda>g. capabilityImpliesSafely g c) cs"
      by (auto simp: filter_empty_conv dest: set_zip_leftD)
    then show ?thesis by (rule within)
  qed
  show "isOk (capabilityScopeToCanonicalString s)" if "s \<in> set req"
    using that rs by (fastforce simp: list_all2_conv_all_nth in_set_conv_nth)
qed

lemma some_res_True: "some_res f xs = Inr True \<Longrightarrow> \<exists>x \<in> set xs. f x = Inr True"
  by (induction xs) (auto simp: bind_res_Inr split: if_splits)

lemma every_res_True: "every_res f xs = Inr True \<Longrightarrow> \<forall>x \<in> set xs. f x = Inr True"
  by (induction xs) (auto simp: bind_res_Inr split: if_splits)

lemma writes_requested:
  assumes "factualFileWritesAreRequested f req = Inr True"
    and "c \<in> set (f_fileChanges f)" and "t \<in> set (change_targets c)"
  shows "\<exists>s \<in> set req. cs_kind s = FileScope \<and> cs_access s = AccWrite \<and> write_covers t s = Inr True"
  using assms unfolding factualFileWritesAreRequested_def Let_def
  by (fastforce dest!: every_res_True some_res_True bspec)

section \<open>Decisions\<close>

lemma verdict_Inr:
  assumes "authorization_verdict h input = Inr v"
  defines "f \<equiv> ai_facts input" and "req \<equiv> ai_requestedCapabilities input"
  shows "CapabilityFactsSchema f"
    and "v_factualRisk v = facts_level h f"
    and "v_effectiveRisk v = max (ai_semanticRisk input) (facts_level h f)"
    and "narrowToCapabilityCeiling req (ai_capabilityCeiling input) = Inr (v_allowed v, v_missing v)"
    and "f_fileChanges f \<noteq> [] \<Longrightarrow> factualFileWritesAreRequested f req = Inr (\<not> v_writeMissing v)"
    and "f_fileChanges f = [] \<Longrightarrow> \<not> v_writeMissing v"
    and "v_sideEffect v \<longleftrightarrow> f_fileChanges f \<noteq> [] \<or> list_ex isSideEffectingCapability req"
    and "v_unsafeBlocked v \<longleftrightarrow> v_sideEffect v \<and> unsafe_path_facts h f"
    and "v_unknownBlocked v \<longleftrightarrow> v_sideEffect v \<and> (f_ambiguous f \<or> \<not> f_exactTargets f \<or>
           f_unknowns f \<noteq> [] \<or> f_networkAccess f = NetUnknown \<or> f_credentialAccess f = CredUnknown)"
    and "v_autoEligible v \<longleftrightarrow> isPolicyAutoCandidate h f (v_effectiveRisk v) \<and> \<not> verdict_blocked v"
    and "v_sensitiveIncomplete v \<longleftrightarrow>
           \<not> set (deriveSensitivePathsFromFileChanges h (f_fileChanges f)) \<subseteq> set (f_sensitivePaths f)"
    and "v_factReasons v = uniqueStrings (map snd (risk_raises h f))"
  using assms(1)
  by (auto simp: authorization_verdict_def bind_res_Inr score_Inr Let_def f_def req_def list_ex_iff
      verdict_blocked_def split: if_splits)

lemma authorize_Inr:
  assumes "authorizeCapabilityFacts h sha256 input = Inr d"
  obtains v where "authorization_verdict h input = Inr v"
    and "AuthorizationDecisionSchema d"
    and "d_approvalMode d = verdict_mode v"
    and "d_disposition d = (if verdict_blocked v then Blocked
           else if verdict_mode v \<noteq> NotRequired then ApprovalRequired else Authorized)"
    and "d_authorizedCapabilities d =
           (if verdict_blocked v then filter isReadOnlyCapability (v_allowed v) else v_allowed v)"
    and "d_effectiveRisk d = v_effectiveRisk v" and "d_factualRisk d = v_factualRisk v"
    and "d_requestedCapabilities d = ai_requestedCapabilities input"
  using assms by (auto simp: authorizeCapabilityFacts_def bind_res_Inr Let_def)

text \<open>
  C2: The hard boundaries of automatic approval. A decision is only \<open>policy_auto\<close> when the facts are
  file creations or updates alone, on safe and non-sensitive paths, on an unprotected branch of a
  clean worktree at the expected head, with no command, permission, network, credential, external
  target or release, nothing ambiguous or unknown, and an effective risk of at most medium.
\<close>

theorem policy_auto_boundaries:
  assumes "authorizeCapabilityFacts h sha256 input = Inr d" and "d_approvalMode d = PolicyAuto"
  defines "f \<equiv> ai_facts input"
  shows "d_disposition d = ApprovalRequired \<and> d_effectiveRisk d \<le> RiskMedium \<and>
    f_fileChanges f \<noteq> [] \<and>
    (\<forall>c \<in> set (f_fileChanges f). (fc_kind c = CreateChange \<or> fc_kind c = UpdateChange) \<and>
       isSafeGovernedPath h (fc_path c) \<and> \<not> isSensitiveGovernedPath h (normalizeGovernedPath (fc_path c))) \<and>
    f_commands f = [] \<and> f_permissionRequests f = [] \<and> \<not> branch_protected h f \<and>
    rp_worktreeClean (f_repository f) \<and> rp_headCommit (f_repository f) \<noteq> None \<and>
    rp_headCommit (f_repository f) = rp_expectedHead (f_repository f) \<and>
    f_networkAccess f = NetNone \<and> f_credentialAccess f = CredNone \<and> f_externalTargets f = [] \<and>
    f_sensitivePaths f = [] \<and> \<not> f_releaseAction f \<and> f_exactTargets f \<and> \<not> f_ambiguous f \<and>
    f_unknowns f = []"
proof -
  from assms(1) obtain v where v: "authorization_verdict h input = Inr v"
    and d: "d_approvalMode d = verdict_mode v" "d_effectiveRisk d = v_effectiveRisk v"
      "d_disposition d = (if verdict_blocked v then Blocked
           else if verdict_mode v \<noteq> NotRequired then ApprovalRequired else Authorized)"
    by (rule authorize_Inr)
  from assms(2) d(1) have mode: "\<not> verdict_blocked v" "v_autoEligible v"
    by (auto simp: verdict_mode_def split: if_splits)
  have cand: "isPolicyAutoCandidate h f (v_effectiveRisk v)"
    using verdict_Inr(10) [OF v] mode(2) by (simp add: f_def)
  have "\<not> isSensitiveGovernedPath h (normalizeGovernedPath (fc_path c))" if "c \<in> set (f_fileChanges f)" for c
    using cand that unfolding isPolicyAutoCandidate_def deriveSensitivePathsFromFileChanges_def
    by (auto simp: filter_empty_conv)
  moreover have "d_effectiveRisk d \<le> RiskMedium"
    using cand d(2) by (auto simp: isPolicyAutoCandidate_def less_eq_risk_def)
  moreover have "d_disposition d = ApprovalRequired" using d mode assms(2) by simp
  ultimately show ?thesis
    using cand unfolding isPolicyAutoCandidate_def branch_protected_def list_all_iff
      hasUnsafeGovernedPath_def by auto
qed

text \<open>
  C5: No decision authorizes more than was requested or more than the ceiling: every authorized
  capability is one of the requested ones and is implied by a scope of the ceiling, and a blocked
  decision authorizes reads only.
\<close>

theorem authorized_within_ceiling:
  assumes "authorizeCapabilityFacts h sha256 input = Inr d"
  shows "(\<forall>s \<in> set (d_authorizedCapabilities d). s \<in> set (ai_requestedCapabilities input) \<and>
       within_ceiling (ai_capabilityCeiling input) s \<and>
       (d_disposition d = Blocked \<longrightarrow> cs_access s = AccRead))"
proof -
  from assms obtain v where v: "authorization_verdict h input = Inr v"
    and d: "d_disposition d = (if verdict_blocked v then Blocked
           else if verdict_mode v \<noteq> NotRequired then ApprovalRequired else Authorized)"
      "d_authorizedCapabilities d =
           (if verdict_blocked v then filter isReadOnlyCapability (v_allowed v) else v_allowed v)"
    by (rule authorize_Inr)
  note n = narrow_Inr(1,2) [OF verdict_Inr(4) [OF v]]
  show ?thesis
    using n(1) n(2) d by (auto simp: isReadOnlyCapability_def split: if_splits)
qed

text \<open>
  A decision that is not blocked covers what the facts show: the path and the old path of every
  file change are covered by a requested write scope that the ceiling implies. A decision that needs
  no approval has no file change and requests reads only, at low or medium effective risk.
\<close>

theorem unblocked_writes_covered:
  assumes "authorizeCapabilityFacts h sha256 input = Inr d" and "d_disposition d \<noteq> Blocked"
  shows "(\<forall>c \<in> set (f_fileChanges (ai_facts input)). \<forall>t \<in> set (change_targets c).
       \<exists>s \<in> set (ai_requestedCapabilities input). cs_kind s = FileScope \<and> cs_access s = AccWrite \<and>
         write_covers t s = Inr True \<and> within_ceiling (ai_capabilityCeiling input) s) \<and>
    (d_disposition d = Authorized \<longrightarrow> f_fileChanges (ai_facts input) = [] \<and>
       (\<forall>s \<in> set (ai_requestedCapabilities input). cs_access s = AccRead) \<and>
       d_effectiveRisk d \<le> RiskMedium)"
proof -
  from assms(1) obtain v where v: "authorization_verdict h input = Inr v"
    and d: "d_disposition d = (if verdict_blocked v then Blocked
           else if verdict_mode v \<noteq> NotRequired then ApprovalRequired else Authorized)"
      "d_effectiveRisk d = v_effectiveRisk v"
    by (rule authorize_Inr)
  note V = verdict_Inr [OF v]
  from assms(2) d(1) have nb: "v_missing v = []" "\<not> v_writeMissing v" "\<not> verdict_blocked v"
    by (auto simp: verdict_blocked_def split: if_splits)
  have "factualFileWritesAreRequested (ai_facts input) (ai_requestedCapabilities input) = Inr True"
    if "f_fileChanges (ai_facts input) \<noteq> []"
    using V(5) [OF that] nb(2) by simp
  then have cover: "\<forall>c \<in> set (f_fileChanges (ai_facts input)). \<forall>t \<in> set (change_targets c).
       \<exists>s \<in> set (ai_requestedCapabilities input). cs_kind s = FileScope \<and> cs_access s = AccWrite \<and>
         write_covers t s = Inr True \<and> within_ceiling (ai_capabilityCeiling input) s"
    using writes_requested narrow_Inr(3) [OF V(4) nb(1)] by (metis empty_iff list.set(1))
  have "\<not> v_sideEffect v \<and> v_effectiveRisk v \<le> RiskMedium" if "d_disposition d = Authorized"
    using that d(1) nb(3) unfolding verdict_mode_def
    by (cases "v_effectiveRisk v") (auto simp: less_eq_risk_def split: if_splits)
  then show ?thesis
    using cover V(7) d(2) by (auto simp: list_ex_iff isSideEffectingCapability_def)
qed

section \<open>Totality\<close>

lemma isOk_iff: "isOk r \<longleftrightarrow> (\<exists>x. r = Inr x)"
  by (cases r) auto

lemma map_res_ok: "\<forall>x \<in> set xs. isOk (f x) \<Longrightarrow> \<exists>ys. map_res f xs = Inr ys"
  by (induction xs) (auto simp: isOk_iff)

lemma canonical_ok: "CapabilityScopeSchema s \<Longrightarrow> isOk (capabilityScopeToCanonicalString s)"
  by (auto simp: capabilityScopeToCanonicalString_def parseCapabilityScopeObject_def zod_parse_def
      split: option.splits list.splits)

lemma narrow_ok:
  assumes "list_all CapabilityScopeSchema req" and "list_all CapabilityScopeSchema ceil"
  shows "\<exists>r. narrowToCapabilityCeiling req ceil = Inr r"
proof -
  obtain cs where cs: "map_res capabilityScopeToCanonicalString ceil = Inr cs"
    using map_res_ok [of ceil capabilityScopeToCanonicalString] assms(2) canonical_ok
    by (auto simp: list_all_iff)
  obtain rs where rs: "map_res capabilityScopeToCanonicalString req = Inr rs"
    using map_res_ok [of req capabilityScopeToCanonicalString] assms(1) canonical_ok
    by (auto simp: list_all_iff)
  let ?al = "map snd (filter (\<lambda>p. list_ex (\<lambda>g. capabilityImpliesSafely g (fst p)) cs) (zip rs req))"
  have "\<forall>s \<in> set ?al. isOk (capabilityScopeToCanonicalString s)"
    using assms(1) canonical_ok by (auto simp: list_all_iff dest: set_zip_rightD)
  then obtain ks where "map_res capabilityScopeToCanonicalString ?al = Inr ks"
    using map_res_ok by blast
  then show ?thesis
    by (simp add: narrowToCapabilityCeiling_def cs rs Let_def dedupeCapabilityScopes_def)
qed

lemma risk_raises_reasons: "\<forall>r \<in> snd ` set (risk_raises h f). r \<noteq> []"
  by (auto simp: risk_raises_def Let_def change_raises_def split: if_splits)

lemma verdict_total:
  assumes "CapabilityFactsSchema (ai_facts input)"
    and "list_all CapabilityScopeSchema (ai_requestedCapabilities input)"
    and "list_all CapabilityScopeSchema (ai_capabilityCeiling input)"
    and "isOk (factualFileWritesAreRequested (ai_facts input) (ai_requestedCapabilities input))"
  shows "\<exists>v. authorization_verdict h input = Inr v"
proof -
  from narrow_ok [OF assms(2,3)] obtain al mi
    where "narrowToCapabilityCeiling (ai_requestedCapabilities input) (ai_capabilityCeiling input) =
      Inr (al, mi)" by auto
  moreover from assms(4) obtain b
    where "factualFileWritesAreRequested (ai_facts input) (ai_requestedCapabilities input) = Inr b"
    by (auto simp: isOk_iff)
  ultimately show ?thesis
    using assms(1) by (simp add: authorization_verdict_def zod_parse_ok scoreCapabilityFactsRisk_def Let_def)
qed

lemma verdict_refinement:
  assumes v: "authorization_verdict h input = Inr v"
  shows "verdict_blocked v \<Longrightarrow> verdict_mode v = HumanRequired"
    and "v_effectiveRisk v = RiskHigh \<or> v_effectiveRisk v = RiskCritical \<Longrightarrow> verdict_mode v = HumanRequired"
  using verdict_Inr(10) [OF v]
  by (auto simp: verdict_mode_def isPolicyAutoCandidate_def)

lemma authorize_returns:
  assumes v: "authorization_verdict h input = Inr v"
    and "ai_createdAt input \<noteq> []" and "ai_decisionId input \<noteq> Some []"
    and "list_all CapabilityScopeSchema (ai_requestedCapabilities input)"
    and sha: "\<And>t. sha256_hex (sha256 t)"
  shows "\<exists>d. authorizeCapabilityFacts h sha256 input = Inr d"
proof -
  note V = verdict_Inr [OF v] and R = verdict_refinement [OF v]
  note N = narrow_Inr(1) [OF V(4)] narrow_Inr(4) [OF V(4)]
  have subset: "set (v_allowed v) \<subseteq> set (ai_requestedCapabilities input)" by (rule N(1))
  let ?req = "ai_requestedCapabilities input"
  let ?auth = "if verdict_blocked v then filter isReadOnlyCapability (v_allowed v) else v_allowed v"
  have auth: "set ?auth \<subseteq> set ?req" using subset by auto
  have valid: "list_all CapabilityScopeSchema ?auth"
    using assms(4) auth unfolding list_all_iff by blast
  have same: "list_all (\<lambda>s. list_ex (\<lambda>r. sameCapabilityScope r s) ?req) ?auth"
    using auth unfolding list_all_iff list_ex_iff by (auto simp: sameCapabilityScope_def)
  have ids: "str_min1 (f_subjectId (ai_facts input))"
    using V(1) by (simp add: CapabilityFactsSchema_def)
  have effective: "v_effectiveRisk v = (if risk_rank (v_factualRisk v) \<le> risk_rank (ai_semanticRisk input)
      then ai_semanticRisk input else v_factualRisk v)"
    using V(2,3) by (simp add: max_def less_eq_risk_def antisym_conv split: if_splits)
      (metis less_eq_risk_def order.antisym)
  have reasons: "\<forall>r \<in> set (v_factReasons v). r \<noteq> []"
    using V(12) risk_raises_reasons [of h "ai_facts input"] by auto
  show ?thesis
    unfolding authorizeCapabilityFacts_def v bind_res_simps Let_def zod_parse_Inr
      AuthorizationDecisionSchema_def decision_refinement_def decision.select_convs
    using assms(2-4) sha valid same ids effective reasons R
    by (auto simp: list_all_iff hashKernelObject_def split: option.splits)
qed

text \<open>Text of blanks alone: no resource is left of a scope that ends in it.\<close>

definition blank :: "str \<Rightarrow> bool" where
  "blank t \<longleftrightarrow> list_all is_white t"

lemma rev_dropWhile_blank: "blank t \<Longrightarrow> rev (dropWhile is_white (rev (p @ t))) = rev (dropWhile is_white (rev p))"
  by (simp add: blank_def list_all_iff dropWhile_append)

lemma rev_dropWhile_text:
  "\<not> blank t \<Longrightarrow> \<exists>u. u \<noteq> [] \<and> rev (dropWhile is_white (rev (p @ t))) = p @ u"
  by (rule exI [of _ "rev (dropWhile is_white (rev t))"])
     (auto simp: blank_def list_all_iff dropWhile_append dropWhile_eq_Nil_conv)

definition WRITE :: str where "WRITE = [102, 115, 46, 119, 114, 105, 116, 101]"

lemma write_scope: "js ''fs.write:'' @ t = WRITE @ COLON # t" "js ''fs.write'' = WRITE"
  unfolding WRITE_def by code_simp+

lemma parse_write_scope: "isOk (parseCapabilityScope (js ''fs.write:'' @ t)) \<longleftrightarrow> \<not> blank t"
proof -
  let ?p = "WRITE @ [COLON]"
  have lead: "dropWhile is_white (?p @ t) = ?p @ t" and p: "rev (dropWhile is_white (rev ?p)) = ?p"
    by (simp_all add: WRITE_def is_white_def)
  have known: "WRITE \<in> set knownActions" by (simp add: knownActions_def write_scope)
  show ?thesis
  proof (cases "blank t")
    case True
    then have "trim (?p @ t) = ?p" unfolding trim_def lead by (simp only: rev_dropWhile_blank p)
    then show ?thesis using True by (simp add: parseCapabilityScope_def Let_def write_scope WRITE_def)
  next
    case False
    from rev_dropWhile_text [OF this, of ?p] obtain u where "u \<noteq> []" "trim (?p @ t) = ?p @ u"
      unfolding trim_def lead by blast
    then show ?thesis using False known
      by (simp add: parseCapabilityScope_def Let_def write_scope WRITE_def)
  qed
qed


lemma canonical_write:
  assumes "CapabilityScopeSchema s" and "cs_kind s = FileScope" and "cs_access s = AccWrite"
  shows "\<exists>c. capabilityScopeToCanonicalString s = Inr c \<and>
    (isOk (parseCapabilityScope c) \<longleftrightarrow> \<not> blank (cs_resource s))"
proof -
  have a: "capabilityScopeToCanonicalAction s = js ''fs.write''"
    using assms(2,3) by (simp add: capabilityScopeToCanonicalAction_def Let_def)
  have r: "js ''fs.write'' @ js '':'' @ cs_resource s = js ''fs.write:'' @ cs_resource s" by (simp add: js_def)
  show ?thesis
  proof (cases "\<exists>x xs. getCanonicalScopeConstraint s = Some (x # xs)")
    case True
    then obtain x xs where c: "getCanonicalScopeConstraint s = Some (x # xs)" by blast
    then have "canonicalScopeMatchesStructuredScope s (x # xs) = Inr True"
      by (auto simp: getCanonicalScopeConstraint_def split: option.splits json.splits sum.splits bool.splits)
    then have "isOk (parseCapabilityScope (x # xs))" "isOk (parseCapabilityScope (js ''fs.write:'' @ cs_resource s))"
      by (auto simp: canonicalScopeMatchesStructuredScope_def bind_res_Inr isOk_iff a r)
    then show ?thesis using c assms(1)
      by (simp add: capabilityScopeToCanonicalString_def parseCapabilityScopeObject_def zod_parse_def parse_write_scope)
  next
    case False
    then have "capabilityScopeToCanonicalString s = Inr (js ''fs.write:'' @ cs_resource s)"
      using assms(1) by (simp add: capabilityScopeToCanonicalString_def parseCapabilityScopeObject_def zod_parse_def a r
          split: option.splits list.splits)
    then show ?thesis by (simp add: parse_write_scope)
  qed
qed

lemma write_covers_ok:
  assumes "CapabilityScopeSchema s" and "cs_kind s = FileScope" and "cs_access s = AccWrite"
  shows "isOk (write_covers t s) \<longleftrightarrow> \<not> blank t \<and> \<not> blank (cs_resource s)"
proof -
  from canonical_write [OF assms] obtain c where c: "capabilityScopeToCanonicalString s = Inr c"
    "isOk (parseCapabilityScope c) \<longleftrightarrow> \<not> blank (cs_resource s)" by blast
  then show ?thesis using parse_write_scope [of t]
    by (cases "parseCapabilityScope c"; cases "parseCapabilityScope (js ''fs.write:'' @ t)")
       (simp_all add: write_covers_def capabilityImplies_def)
qed

text \<open>When a walk that may throw throws.\<close>

lemma some_res_fails:
  "\<not> isOk (some_res f xs) \<longleftrightarrow> (\<exists>us x vs. xs = us @ x # vs \<and> (\<forall>u \<in> set us. f u = Inr False) \<and> \<not> isOk (f x))"
proof (induction xs)
  case (Cons y ys)
  show ?case
  proof (cases "f y = Inr False")
    case True
    then show ?thesis using Cons by (auto simp: Cons_eq_append_conv) (metis set_ConsD)+
  next
    case False
    then have "\<not> isOk (some_res f (y # ys)) \<longleftrightarrow> \<not> isOk (f y)" by (cases "f y") auto
    with False show ?thesis by (fastforce simp: Cons_eq_append_conv)
  qed
qed simp

lemma every_res_fails:
  "\<not> isOk (every_res f xs) \<longleftrightarrow> (\<exists>us x vs. xs = us @ x # vs \<and> (\<forall>u \<in> set us. f u = Inr True) \<and> \<not> isOk (f x))"
proof (induction xs)
  case (Cons y ys)
  show ?case
  proof (cases "f y = Inr True")
    case True
    then show ?thesis using Cons by (auto simp: Cons_eq_append_conv) (metis set_ConsD)+
  next
    case False
    then have "\<not> isOk (every_res f (y # ys)) \<longleftrightarrow> \<not> isOk (f y)" by (cases "f y") auto
    with False show ?thesis by (fastforce simp: Cons_eq_append_conv)
  qed
qed simp

lemma every_res_append: "every_res f (xs @ ys) = bind_res (every_res f xs) (\<lambda>b. if b then every_res f ys else Inr False)"
proof (induction xs)
  case (Cons x xs)
  then show ?case by (cases "f x") (simp_all split: if_splits)
qed simp

lemma every_res_concat: "every_res (\<lambda>c. every_res f (g c)) xs = every_res f (concat (map g xs))"
  by (induction xs) (simp_all add: every_res_append cong: if_cong)


lemma some_res_False: "some_res f xs = Inr False \<Longrightarrow> \<forall>x \<in> set xs. f x = Inr False"
  by (induction xs) (auto simp: bind_res_Inr split: if_splits)

lemma every_res_False: "every_res f xs = Inr False \<Longrightarrow> \<exists>x \<in> set xs. f x = Inr False"
  by (induction xs) (auto simp: bind_res_Inr split: if_splits)

text \<open>The paths the check visits, and the capabilities it tries for each.\<close>

definition changed_paths :: "facts \<Rightarrow> str list" where
  "changed_paths f = concat (map change_targets (f_fileChanges f))"

definition write_scopes :: "capability_scope list \<Rightarrow> capability_scope list" where
  "write_scopes req = filter (\<lambda>s. cs_kind s = FileScope \<and> cs_access s = AccWrite) req"

text \<open>
  The check meets a blank: all paths before \<open>t\<close> are covered, no capability before \<open>s\<close> covers \<open>t\<close>,
  and \<open>t\<close> or the resource of \<open>s\<close> is made of blanks alone.
\<close>

definition meets_blank :: "facts \<Rightarrow> capability_scope list \<Rightarrow> bool" where
  "meets_blank f req \<longleftrightarrow> (\<exists>xs t ys us s vs. changed_paths f = xs @ t # ys \<and> write_scopes req = us @ s # vs \<and>
     (\<forall>x \<in> set xs. \<exists>w \<in> set (write_scopes req). write_covers x w = Inr True) \<and>
     (\<forall>u \<in> set us. write_covers t u \<noteq> Inr True) \<and> (blank t \<or> blank (cs_resource s)))"

lemma factual_writes: "factualFileWritesAreRequested f req =
   every_res (\<lambda>t. some_res (write_covers t) (write_scopes req)) (changed_paths f)"
  by (simp add: factualFileWritesAreRequested_def write_scopes_def changed_paths_def every_res_concat)

lemma check_throws_iff:
  assumes "list_all CapabilityScopeSchema req"
  shows "\<not> isOk (factualFileWritesAreRequested f req) \<longleftrightarrow> meets_blank f req"
proof -
  let ?ws = "write_scopes req" and ?f = "\<lambda>t. some_res (write_covers t) (write_scopes req)"
  have ok: "isOk (write_covers t s) \<longleftrightarrow> \<not> blank t \<and> \<not> blank (cs_resource s)" if "s \<in> set ?ws" for s t
    using that assms by (intro write_covers_ok) (auto simp: write_scopes_def list_all_iff)
  show ?thesis
  proof
    assume "\<not> isOk (factualFileWritesAreRequested f req)"
    then obtain xs t ys us s vs where p: "changed_paths f = xs @ t # ys" "\<forall>x \<in> set xs. ?f x = Inr True"
      and w: "?ws = us @ s # vs" "\<forall>u \<in> set us. write_covers t u = Inr False" "\<not> isOk (write_covers t s)"
      unfolding factual_writes every_res_fails some_res_fails by blast
    have "\<forall>x \<in> set xs. \<exists>w \<in> set ?ws. write_covers x w = Inr True" using p(2) some_res_True by blast
    moreover have "\<forall>u \<in> set us. write_covers t u \<noteq> Inr True" using w(2) by simp
    moreover have "blank t \<or> blank (cs_resource s)" using ok [of s t] w by simp
    ultimately show "meets_blank f req" unfolding meets_blank_def using p(1) w(1) by blast
  next
    assume "meets_blank f req"
    then obtain xs t ys us s vs where p: "changed_paths f = xs @ t # ys" "?ws = us @ s # vs"
      and xs: "\<forall>x \<in> set xs. \<exists>w \<in> set ?ws. write_covers x w = Inr True"
      and us: "\<forall>u \<in> set us. write_covers t u \<noteq> Inr True" and "blank t \<or> blank (cs_resource s)"
      unfolding meets_blank_def by blast
    then have "\<not> isOk (write_covers t s)" using ok [of s t] by simp
    then have t: "\<not> isOk (?f t)" unfolding p(2) using us
    proof (induction us)
      case (Cons u us)
      then show ?case by (cases "write_covers t u") auto
    qed (auto simp: isOk_def bind_res_def split: sum.splits)
    have "every_res ?f xs \<noteq> Inr False"
    proof
      assume "every_res ?f xs = Inr False"
      then obtain x where "x \<in> set xs" "?f x = Inr False" using every_res_False by blast
      then show False using some_res_False [of "write_covers x" ?ws] xs by force
    qed
    with t show "\<not> isOk (factualFileWritesAreRequested f req)"
      unfolding factual_writes p(1) every_res_append
      by (cases "every_res ?f xs"; cases "?f t") (auto simp: isOk_def bind_res_def)
  qed
qed

lemma no_blank: "\<forall>t \<in> set (changed_paths f). \<not> blank t \<Longrightarrow> \<forall>s \<in> set (write_scopes req). \<not> blank (cs_resource s) \<Longrightarrow>
   \<not> meets_blank f req"
  by (auto simp: meets_blank_def)

lemma canonical_iff: "isOk (capabilityScopeToCanonicalString s) \<longleftrightarrow> CapabilityScopeSchema s"
  using canonical_ok [of s]
  by (auto simp: capabilityScopeToCanonicalString_def parseCapabilityScopeObject_def zod_parse_def isOk_iff split: if_splits)

lemma ceiling_valid:
  "narrowToCapabilityCeiling req ceil = Inr r \<Longrightarrow> list_all CapabilityScopeSchema ceil"
  unfolding list_all_iff canonical_iff [symmetric] narrowToCapabilityCeiling_def
  by (auto simp: bind_res_Inr map_res_Inr list_all2_conv_all_nth in_set_conv_nth isOk_iff)

text \<open>
  C39: Exactly when the kernel decides. It returns a decision, which then satisfies the decision
  schema, exactly when the facts and all capabilities are valid, the time and a given decision id are
  not empty, and the check of the file writes meets no blank: a path, or the resource of a
  requested write capability, that consists of white space alone and is reached before another
  capability covers the path or an earlier path is found uncovered. On every other input it throws.
\<close>

theorem authorization_decides_iff:
  assumes sha: "\<And>t. sha256_hex (sha256 t)"
  shows "(\<exists>d. authorizeCapabilityFacts h sha256 input = Inr d \<and> AuthorizationDecisionSchema d) \<longleftrightarrow>
    CapabilityFactsSchema (ai_facts input) \<and>
    list_all CapabilityScopeSchema (ai_requestedCapabilities input) \<and>
    list_all CapabilityScopeSchema (ai_capabilityCeiling input) \<and>
    ai_createdAt input \<noteq> [] \<and> ai_decisionId input \<noteq> Some [] \<and>
    \<not> meets_blank (ai_facts input) (ai_requestedCapabilities input)"
    (is "?L \<longleftrightarrow> ?R")
proof
  assume ?L
  then obtain d v where d: "authorizeCapabilityFacts h sha256 input = Inr d" "authorization_verdict h input = Inr v"
      "AuthorizationDecisionSchema d" by (meson authorize_Inr)
  note V = verdict_Inr [OF d(2)]
  have req: "list_all CapabilityScopeSchema (ai_requestedCapabilities input)"
    using narrow_Inr(4) [OF V(4)] by (simp add: canonical_iff list_all_iff)
  have "isOk (factualFileWritesAreRequested (ai_facts input) (ai_requestedCapabilities input))"
    using V(5) by (cases "f_fileChanges (ai_facts input) = []") (auto simp: factualFileWritesAreRequested_def isOk_iff)
  moreover have "ai_createdAt input \<noteq> []" "ai_decisionId input \<noteq> Some []"
    using d(1,3) by (auto simp: authorizeCapabilityFacts_def bind_res_Inr Let_def AuthorizationDecisionSchema_def)
  ultimately show ?R using V(1) req ceiling_valid [OF V(4)] check_throws_iff [OF req] by blast
next
  assume r: ?R
  then have "isOk (factualFileWritesAreRequested (ai_facts input) (ai_requestedCapabilities input))"
    using check_throws_iff by blast
  then obtain v where "authorization_verdict h input = Inr v" using verdict_total r by blast
  from authorize_returns [where ?sha256.0 = sha256, OF this _ _ _ sha] r obtain d where "authorizeCapabilityFacts h sha256 input = Inr d" by blast
  then show ?L by (meson authorize_Inr)
qed

section \<open>From a proposal to a decision\<close>

lemma derive_Inr:
  assumes "deriveCapabilityFacts h fin = Inr f"
  shows "list_ex (hasUnsafeGovernedPath h) (coalesce (fi_fileChanges fin) []) \<Longrightarrow>
      js ''unsafe_governed_path'' \<in> set (f_unknowns f) \<and> \<not> f_exactTargets f"
    and "f_fileChanges f = [] \<longleftrightarrow> coalesce (fi_fileChanges fin) [] = []"
    and "f_credentialAccess f = coalesce (fi_credentialAccess fin) CredNone"
  using assms by (auto simp: deriveCapabilityFacts_def Let_def)
    (metis length_0_conv length_map length_sort)+

text \<open>
  An unsafe path in a proposal cannot be laundered by normalisation. Whatever facts are derived
  from file changes of which one has an unsafe path or old path, every decision on them is blocked,
  at critical risk, and authorizes reads only.
\<close>

theorem unsafe_proposal_blocked:
  assumes "deriveCapabilityFacts h proposal = Inr (ai_facts input)"
    and "list_ex (hasUnsafeGovernedPath h) (coalesce (fi_fileChanges proposal) [])"
    and "authorizeCapabilityFacts h sha256 input = Inr d"
  shows "d_disposition d = Blocked \<and> d_approvalMode d = HumanRequired \<and>
    d_effectiveRisk d = RiskCritical \<and>
    (\<forall>s \<in> set (d_authorizedCapabilities d). cs_access s = AccRead)"
proof -
  let ?f = "ai_facts input"
  from assms(3) obtain v where v: "authorization_verdict h input = Inr v"
    and d: "d_approvalMode d = verdict_mode v" "d_effectiveRisk d = v_effectiveRisk v"
      "d_disposition d = (if verdict_blocked v then Blocked
           else if verdict_mode v \<noteq> NotRequired then ApprovalRequired else Authorized)"
      "d_authorizedCapabilities d =
           (if verdict_blocked v then filter isReadOnlyCapability (v_allowed v) else v_allowed v)"
    by (rule authorize_Inr)
  note V = verdict_Inr [OF v]
  have unsafe: "unsafe_path_facts h ?f"
    using derive_Inr(1) [OF assms(1,2)] by (simp add: unsafe_path_facts_def)
  have "f_fileChanges ?f \<noteq> []"
    using derive_Inr(2) [OF assms(1)] assms(2) by auto
  then have blocked: "verdict_blocked v"
    using V(7,8) unsafe by (simp add: verdict_blocked_def)
  have "facts_level h ?f \<le> facts_level h ?f" by simp
  then have "RiskCritical \<le> facts_level h ?f"
    using unsafe unfolding facts_level_le [of h ?f "facts_level h ?f"] by blast
  then have "v_effectiveRisk v = RiskCritical"
    unfolding V(3) using risk_bounds(2) [of "max (ai_semanticRisk input) (facts_level h ?f)"]
    by (metis max.coboundedI2 order.antisym)
  moreover have "verdict_mode v = HumanRequired"
    using blocked by (simp add: verdict_mode_def)
  ultimately show ?thesis
    using blocked d by (auto simp: isReadOnlyCapability_def)
qed

lemma critical_decision:
  assumes "authorizeCapabilityFacts h sha256 input = Inr d"
    and "RiskCritical \<le> facts_level h (ai_facts input)"
  shows "d_effectiveRisk d = RiskCritical" "d_approvalMode d = HumanRequired"
    "d_disposition d \<noteq> Authorized"
proof -
  from assms(1) obtain v where v: "authorization_verdict h input = Inr v"
    and d: "d_approvalMode d = verdict_mode v" "d_effectiveRisk d = v_effectiveRisk v"
      "d_disposition d = (if verdict_blocked v then Blocked
           else if verdict_mode v \<noteq> NotRequired then ApprovalRequired else Authorized)"
    by (rule authorize_Inr)
  show eff: "d_effectiveRisk d = RiskCritical"
    using verdict_Inr(3) [OF v] assms(2) d(2) by (metis max.coboundedI2 order.antisym risk_bounds(2))
  show "d_approvalMode d = HumanRequired"
    using verdict_refinement(2) [OF v] eff d by simp
  then show "d_disposition d \<noteq> Authorized" using d by simp
qed

text \<open>
  A change set whose diff looks like a credential never gets through automatically. Whatever the
  caller declared about credential access, the derived facts report it as requested, and every
  decision on them is at critical risk and needs a human.
\<close>

theorem credential_diff_needs_human:
  assumes "deriveCapabilityFactsFromChangeSet h changeSet context0 observedAt = Inr (ai_facts input)"
    and "c \<in> set (cs_changes changeSet)" and "containsCredentialLikeDiffContent h (fc_unifiedDiff c)"
    and "authorizeCapabilityFacts h sha256 input = Inr d"
  shows "f_credentialAccess (ai_facts input) = CredRequested \<and> d_effectiveRisk d = RiskCritical \<and>
    d_approvalMode d = HumanRequired \<and> d_disposition d \<noteq> Authorized"
proof -
  let ?f = "ai_facts input"
  have "list_ex (\<lambda>c. containsCredentialLikeDiffContent h (fc_unifiedDiff c)) (cs_changes changeSet)"
    using assms(2,3) by (auto simp: list_ex_iff)
  then have cred: "f_credentialAccess ?f = CredRequested"
    using derive_Inr(3) [OF assms(1) [unfolded deriveCapabilityFactsFromChangeSet_def Let_def]] by simp
  then have "RiskCritical \<le> facts_level h ?f"
    using facts_level_le [of h ?f "facts_level h ?f"] by simp
  from cred critical_decision [OF assms(4) this] show ?thesis by simp
qed

section \<open>Concrete decisions\<close>

definition zero_hash :: "str \<Rightarrow> str" where
  "zero_hash t = replicate 64 48"

lemma zero_hash_hex: "sha256_hex (zero_hash t)"
  by (simp add: zero_hash_def sha256_hex_def is_digit_def list_all_iff)

definition sample_change :: "str \<Rightarrow> file_change" where
  "sample_change p = \<lparr>fc_path = p, fc_kind = UpdateChange, fc_oldPath = None,
     fc_beforeHash = None, fc_afterHash = None, fc_addedLines = 1, fc_deletedLines = 0\<rparr>"

definition sample_facts :: "file_change list \<Rightarrow> facts" where
  "sample_facts cs = \<lparr>f_subjectId = js ''s'', f_fileChanges = cs, f_commands = [],
     f_permissionRequests = [], f_repository = \<lparr>rp_branch = Some (js ''dev''),
       rp_protectedBranch = False, rp_worktreeClean = True, rp_headCommit = Some (js ''c0''),
       rp_expectedHead = Some (js ''c0'')\<rparr>,
     f_networkAccess = NetNone, f_credentialAccess = CredNone, f_externalTargets = [],
     f_sensitivePaths = [], f_releaseAction = False, f_exactTargets = True, f_ambiguous = False,
     f_unknowns = [], f_observedAt = js ''t0''\<rparr>"

definition file_scope :: "str \<Rightarrow> capability_access \<Rightarrow> capability_scope" where
  "file_scope p a = \<lparr>cs_kind = FileScope, cs_resource = p, cs_access = a, cs_constraints = []\<rparr>"

definition sample_input :: "str \<Rightarrow> authorize_input" where
  "sample_input p = \<lparr>ai_decisionId = Some (js ''d1''), ai_surface = ProviderSurface,
     ai_facts = sample_facts [sample_change p], ai_semanticRisk = RiskLow,
     ai_requestedCapabilities = [file_scope (js ''src/**'') AccWrite],
     ai_capabilityCeiling = [file_scope (js ''src/**'') AccWrite], ai_createdAt = js ''t1''\<rparr>"


abbreviation src_write :: "capability_scope list" where
  "src_write \<equiv> [file_scope (js ''src/**'') AccWrite]"

abbreviation src_facts :: facts where
  "src_facts \<equiv> sample_facts [sample_change (js ''src/a.ts'')]"

lemma sample_schema: "CapabilityFactsSchema src_facts" by code_simp

lemma sample_score: "scoreCapabilityFactsRisk plain_host src_facts = Inr (RiskMedium, [js ''facts:file_changes''])"
  by code_simp

lemma sample_auto: "isPolicyAutoCandidate plain_host src_facts RiskMedium" by code_simp

lemma sample_narrow: "narrowToCapabilityCeiling src_write src_write = Inr (src_write, [])" by code_simp

lemma sample_writes: "factualFileWritesAreRequested src_facts src_write = Inr True" by code_simp

lemma sample_decision:
  "\<exists>d. authorizeCapabilityFacts plain_host zero_hash (sample_input (js ''src/a.ts'')) = Inr d \<and>
     d_approvalMode d = PolicyAuto \<and> d_disposition d = ApprovalRequired \<and>
     d_authorizedCapabilities d = src_write"
proof -
  let ?i = "sample_input (js ''src/a.ts'')"
  have sens: "deriveSensitivePathsFromFileChanges plain_host (f_fileChanges src_facts) = []"
    and safe: "\<not> unsafe_path_facts plain_host src_facts"
    using sample_auto unfolding isPolicyAutoCandidate_def unsafe_path_facts_def list_ex_iff list_all_iff
    by auto
  have i: "ai_facts ?i = src_facts" "ai_requestedCapabilities ?i = src_write"
    "ai_capabilityCeiling ?i = src_write" "ai_semanticRisk ?i = RiskLow"
    by (simp_all add: sample_input_def)
  have req: "list_all CapabilityScopeSchema src_write"
    by (simp add: file_scope_def CapabilityScopeSchema_def)
  obtain v where v: "authorization_verdict plain_host ?i = Inr v"
    using verdict_total [of ?i plain_host] i req sample_schema sample_writes by auto
  note V = verdict_Inr [OF v, unfolded i]
  have level: "facts_level plain_host src_facts = RiskMedium"
    using sample_score by (simp add: score_Inr)
  have missing: "v_allowed v = src_write" "v_missing v = []" "\<not> v_writeMissing v"
    using V(4,5) sample_narrow sample_writes by (simp_all add: sample_facts_def)
  have effective: "v_effectiveRisk v = RiskMedium" using V(3) level by (simp add: max_def)
  have blocked: "\<not> verdict_blocked v"
    using V(8,9,11) missing safe sens by (simp add: verdict_blocked_def sample_facts_def)
  have auto: "v_autoEligible v" "v_sideEffect v"
    using V(7,10) effective blocked sample_auto by (simp_all add: sample_facts_def)
  from authorize_returns [OF v, of zero_hash] obtain d
    where d: "authorizeCapabilityFacts plain_host zero_hash ?i = Inr d"
    using zero_hash_hex req i by (auto simp: sample_input_def)
  then obtain w where w: "authorization_verdict plain_host ?i = Inr w"
    "d_approvalMode d = verdict_mode w"
    "d_disposition d = (if verdict_blocked w then Blocked
       else if verdict_mode w \<noteq> NotRequired then ApprovalRequired else Authorized)"
    "d_authorizedCapabilities d =
       (if verdict_blocked w then filter isReadOnlyCapability (v_allowed w) else v_allowed w)"
    by (rule authorize_Inr)
  have "w = v" using v w(1) by simp
  with w d auto blocked missing show ?thesis by (auto simp: verdict_mode_def)
qed

theorem policy_auto_boundaries_witness:
  "\<exists>d. authorizeCapabilityFacts plain_host zero_hash (sample_input (js ''src/a.ts'')) = Inr d \<and>
     d_approvalMode d = PolicyAuto \<and> d_effectiveRisk d \<le> RiskMedium"
proof -
  from sample_decision obtain d
    where d: "authorizeCapabilityFacts plain_host zero_hash (sample_input (js ''src/a.ts'')) = Inr d"
      "d_approvalMode d = PolicyAuto" by blast
  from d policy_auto_boundaries [OF d] show ?thesis by blast
qed

theorem authorized_within_ceiling_witness:
  "\<exists>d. authorizeCapabilityFacts plain_host zero_hash (sample_input (js ''src/a.ts'')) = Inr d \<and>
     d_authorizedCapabilities d = src_write \<and>
     within_ceiling src_write (file_scope (js ''src/**'') AccWrite)"
proof -
  from sample_decision obtain d
    where d: "authorizeCapabilityFacts plain_host zero_hash (sample_input (js ''src/a.ts'')) = Inr d"
      "d_authorizedCapabilities d = src_write" by blast
  from d authorized_within_ceiling [OF d(1)] show ?thesis by (auto simp: sample_input_def)
qed

theorem unblocked_writes_covered_witness:
  "\<exists>d. authorizeCapabilityFacts plain_host zero_hash (sample_input (js ''src/a.ts'')) = Inr d \<and>
     d_disposition d = ApprovalRequired \<and>
     write_covers (js ''src/a.ts'') (file_scope (js ''src/**'') AccWrite) = Inr True"
proof -
  from sample_decision obtain d
    where d: "authorizeCapabilityFacts plain_host zero_hash (sample_input (js ''src/a.ts'')) = Inr d"
      "d_disposition d = ApprovalRequired" by blast
  have "d_disposition d \<noteq> Blocked" using d(2) by simp
  from d unblocked_writes_covered [OF d(1) this] show ?thesis
    by (auto simp: sample_input_def sample_facts_def sample_change_def change_targets_def)
qed

theorem authorization_decides_iff_witness:
  "\<exists>d. authorizeCapabilityFacts plain_host zero_hash (sample_input (js ''src/a.ts'')) = Inr d \<and>
     AuthorizationDecisionSchema d"
proof -
  let ?i = "sample_input (js ''src/a.ts'')"
  have "\<forall>t \<in> set (changed_paths src_facts). \<not> blank t" "\<forall>s \<in> set (write_scopes src_write). \<not> blank (cs_resource s)"
    by code_simp+
  then have "\<not> meets_blank (ai_facts ?i) (ai_requestedCapabilities ?i)"
    using no_blank by (simp add: sample_input_def)
  then show ?thesis using sample_schema authorization_decides_iff [of zero_hash plain_host ?i, OF zero_hash_hex]
    by (simp add: sample_input_def file_scope_def CapabilityScopeSchema_def)
qed

definition sample_proposal :: "str \<Rightarrow> facts_input" where
  "sample_proposal p = \<lparr>fi_subjectId = js ''s'', fi_fileChanges = Some [sample_change p],
     fi_commands = None, fi_permissionRequests = None, fi_repository = f_repository src_facts,
     fi_networkAccess = None, fi_credentialAccess = None, fi_externalTargets = None,
     fi_releaseAction = None, fi_exactTargets = None, fi_ambiguous = None, fi_unknowns = None,
     fi_observedAt = js ''t0''\<rparr>"

definition sample_change_set :: "str \<Rightarrow> str \<Rightarrow> change_set" where
  "sample_change_set p diff = \<lparr>cs_changeSetId = js ''s'', cs_threadId = js ''th'', cs_turnId = js ''tu'',
     cs_itemId = js ''it'', cs_baseHead = js ''c0'',
     cs_changes = [file_change.extend (sample_change p) (governed_change.fields diff)],
     cs_canonicalHash = zero_hash [], cs_proposedAt = js ''t0'', cs_sourceSchemaProfile = js ''p''\<rparr>"

text \<open>With no requested capability every valid proposal gets a decision.\<close>

lemma decision_without_requests:
  assumes "CapabilityFactsSchema f"
  shows "\<exists>d. authorizeCapabilityFacts h zero_hash
    (sample_input p\<lparr>ai_facts := f, ai_requestedCapabilities := []\<rparr>) = Inr d"
proof -
  have "isOk (factualFileWritesAreRequested f [])"
    by (cases "f_fileChanges f") (auto simp: factualFileWritesAreRequested_def change_targets_def)
  with verdict_total [of "sample_input p\<lparr>ai_facts := f, ai_requestedCapabilities := []\<rparr>" h] assms
  obtain v where v: "authorization_verdict h (sample_input p\<lparr>ai_facts := f, ai_requestedCapabilities := []\<rparr>) = Inr v"
    by (auto simp: sample_input_def file_scope_def CapabilityScopeSchema_def)
  show ?thesis
    by (rule authorize_returns [OF v]) (simp_all add: sample_input_def zero_hash_hex)
qed

theorem unsafe_proposal_blocked_witness:
  "\<exists>f d. deriveCapabilityFacts plain_host (sample_proposal (js ''../x'')) = Inr f \<and>
     authorizeCapabilityFacts plain_host zero_hash
       (sample_input []\<lparr>ai_facts := f, ai_requestedCapabilities := []\<rparr>) = Inr d \<and>
     d_disposition d = Blocked"
proof -
  have ok: "isOk (deriveCapabilityFacts plain_host (sample_proposal (js ''../x'')))" by code_simp
  then obtain f where f: "deriveCapabilityFacts plain_host (sample_proposal (js ''../x'')) = Inr f"
    by (auto simp: isOk_iff)
  then have "CapabilityFactsSchema f" by (auto simp: deriveCapabilityFacts_def Let_def)
  from decision_without_requests [OF this] obtain d where d: "authorizeCapabilityFacts plain_host zero_hash
       (sample_input []\<lparr>ai_facts := f, ai_requestedCapabilities := []\<rparr>) = Inr d" by blast
  have unsafe: "list_ex (hasUnsafeGovernedPath plain_host)
      (coalesce (fi_fileChanges (sample_proposal (js ''../x''))) [])" by code_simp
  from f d unsafe_proposal_blocked [OF _ unsafe d] show ?thesis by auto
qed

theorem credential_diff_needs_human_witness:
  "\<exists>f d. deriveCapabilityFactsFromChangeSet plain_host
       (sample_change_set (js ''a'') (js ''+Api_Key'')) (sample_proposal []) None = Inr f \<and>
     authorizeCapabilityFacts plain_host zero_hash
       (sample_input []\<lparr>ai_facts := f, ai_requestedCapabilities := []\<rparr>) = Inr d \<and>
     d_approvalMode d = HumanRequired"
proof -
  let ?cs = "sample_change_set (js ''a'') (js ''+Api_Key'')"
  let ?d = "deriveCapabilityFactsFromChangeSet plain_host ?cs (sample_proposal []) None"
  have ok: "isOk ?d" by code_simp
  then obtain f where f: "?d = Inr f" by (auto simp: isOk_iff)
  then have "CapabilityFactsSchema f"
    by (auto simp: deriveCapabilityFactsFromChangeSet_def deriveCapabilityFacts_def Let_def)
  from decision_without_requests [OF this] obtain d where d: "authorizeCapabilityFacts plain_host zero_hash
       (sample_input []\<lparr>ai_facts := f, ai_requestedCapabilities := []\<rparr>) = Inr d" by blast
  have cred: "containsCredentialLikeDiffContent plain_host (fc_unifiedDiff (hd (cs_changes ?cs)))"
    by code_simp
  have mem: "hd (cs_changes ?cs) \<in> set (cs_changes ?cs)" by (simp add: sample_change_set_def)
  from f d credential_diff_needs_human [OF _ mem cred d] show ?thesis by auto
qed

text \<open>
  A file path of blanks alone passes every schema, but the check of the file writes hands it to
  \<open>capabilityImplies\<close>, which throws: the kernel returns no decision for it.
\<close>

theorem blank_path_makes_authorization_throw:
  "CapabilityFactsSchema (sample_facts [sample_change (js '' '')]) \<and>
   \<not> isOk (authorizeCapabilityFacts plain_host zero_hash
     (sample_input []\<lparr>ai_facts := sample_facts [sample_change (js '' '')]\<rparr>))"
proof -
  let ?f = "sample_facts [sample_change (js '' '')]"
  have s: "CapabilityFactsSchema ?f" by code_simp
  have w: "\<not> isOk (factualFileWritesAreRequested ?f src_write)" by code_simp
  have "\<not> isOk (authorization_verdict plain_host (sample_input []\<lparr>ai_facts := ?f\<rparr>))"
  proof
    assume "isOk (authorization_verdict plain_host (sample_input []\<lparr>ai_facts := ?f\<rparr>))"
    then obtain v where v: "authorization_verdict plain_host (sample_input []\<lparr>ai_facts := ?f\<rparr>) = Inr v"
      by (auto simp: isOk_iff)
    from verdict_Inr(5) [OF v] w show False
      by (simp add: sample_input_def sample_facts_def)
  qed
  with s show ?thesis
    by (auto simp: authorizeCapabilityFacts_def isOk_def bind_res_def split: sum.splits)
qed

end
