(* ===== verification/JsDate.thy ===== *)
theory JsDate
  imports JsText
begin

text \<open>
  The part of the standard \<open>Date\<close> the kernel uses, on millisecond time values. \<open>toISOString\<close> follows
  the ECMAScript algorithms (proleptic Gregorian calendar, time values up to 8.64e15 in absolute
  value, a \<open>RangeError\<close> beyond). \<open>Date.parse\<close> reads back what \<open>toISOString\<close> prints; what it makes of
  any other text depends on the JavaScript engine and is the argument \<open>other\<close> (\<open>None\<close> for NaN).
\<close>

section \<open>Calendar\<close>

definition day_from_year :: "int \<Rightarrow> int" where
  "day_from_year y = 365 * (y - 1970) + (y - 1969) div 4 - (y - 1901) div 100 + (y - 1601) div 400"

definition year_from_day :: "int \<Rightarrow> int" where
  "year_from_day d =
     (let y = 1970 + (400 * d) div 146097
      in if d < day_from_year y then y - 1 else if day_from_year (y + 1) \<le> d then y + 1 else y)"

definition leap_year :: "int \<Rightarrow> bool" where
  "leap_year y \<longleftrightarrow> (y mod 4 = 0 \<and> y mod 100 \<noteq> 0) \<or> y mod 400 = 0"

text \<open>The days before each month, and the month and day of a day within the year.\<close>

definition days_before_month :: "bool \<Rightarrow> nat \<Rightarrow> nat" where
  "days_before_month leap m =
     [0, 31, 59, 90, 120, 151, 181, 212, 243, 273, 304, 334] ! (m - 1) +
     (if leap \<and> 2 < m then 1 else 0)"

fun month_at :: "bool \<Rightarrow> nat \<Rightarrow> nat \<Rightarrow> nat" where
  "month_at leap w 0 = 1"
| "month_at leap w (Suc m) =
     (if m = 0 \<or> days_before_month leap (Suc m) \<le> w then Suc m else month_at leap w m)"

definition month_of :: "bool \<Rightarrow> nat \<Rightarrow> nat" where
  "month_of leap w = month_at leap w 12"

lemma year_from_day:
  "day_from_year (year_from_day d) \<le> d" "d < day_from_year (year_from_day d + 1)"
proof -
  define q where "q = (400 * d) div 146097"
  have q: "146097 * q \<le> 400 * d" "400 * d < 146097 * q + 146097"
    unfolding q_def by (simp_all add: mult.commute [of _ 146097])
  have b: "4 * ((q + k) div 4) \<le> q + k" "q + k < 4 * ((q + k) div 4) + 4"
    "100 * ((q + k) div 100) \<le> q + k" "q + k < 100 * ((q + k) div 100) + 100"
    "400 * ((q + k) div 400) \<le> q + k" "q + k < 400 * ((q + k) div 400) + 400" for k :: int
    by simp_all
  have lo: "day_from_year (1970 + q - 1) \<le> d"
    using q b(1) [of 0] b(2) [of 0] b(3,4) [of 68] b(5,6) [of 368]
    unfolding day_from_year_def by (simp add: algebra_simps)
  have hi: "d < day_from_year (1970 + q + 1 + 1)"
    using q b(1,2) [of 3] b(3,4) [of 71] b(5,6) [of 371]
    unfolding day_from_year_def by (simp add: algebra_simps)
  show "day_from_year (year_from_day d) \<le> d" "d < day_from_year (year_from_day d + 1)"
    using lo hi unfolding year_from_day_def Let_def q_def [symmetric] by (simp_all add: algebra_simps)
qed

lemma month_of_le: "days_before_month leap (month_of leap w) \<le> w"
proof -
  have "days_before_month leap (month_at leap w m) \<le> w" for m
    by (induction m) (auto simp: days_before_month_def)
  then show ?thesis by (simp add: month_of_def)
qed

section \<open>toISOString and Date.parse\<close>

abbreviation digits :: "nat \<Rightarrow> int \<Rightarrow> str" where
  "digits k n \<equiv> padStart k 48 (dec_nat (nat n))"

definition iso_year :: "int \<Rightarrow> str" where
  "iso_year y = (if 0 \<le> y \<and> y \<le> 9999 then digits 4 y
     else (if y < 0 then 45 else 43) # digits 6 \<bar>y\<bar>)"

text \<open>The date of a day number and the time of a millisecond within the day.\<close>

definition iso_date :: "int \<Rightarrow> str" where
  "iso_date d =
     (let y = year_from_day d;
          w = nat (d - day_from_year y);
          m = month_of (leap_year y) w
      in iso_year y @ 45 # digits 2 (int m) @ 45 #
         digits 2 (int (w - days_before_month (leap_year y) m) + 1))"

definition iso_time :: "int \<Rightarrow> str" where
  "iso_time t =
     digits 2 (t div 3600000) @ 58 # digits 2 (t div 60000 mod 60) @ 58 #
     digits 2 (t div 1000 mod 60) @ 46 # digits 3 (t mod 1000) @ [90]"

definition max_time :: int where
  "max_time = 8640000000000000"

definition toISOString :: "int \<Rightarrow> err + str" where
  "toISOString t =
     (if \<bar>t\<bar> \<le> max_time then Inr (iso_date (t div 86400000) @ 84 # iso_time (t mod 86400000))
      else Inl RangeError)"

text \<open>
  The only time value whose text \<open>s\<close> can be, read off its fields; \<open>s\<close> is that text when printing the
  value gives \<open>s\<close> again.
\<close>

definition read_year :: "str \<Rightarrow> int \<times> str list" where
  "read_year s = (case split_on 45 (if startsWith s [45] then tl s else s) of
     y # rest \<Rightarrow> ((if startsWith s [45] then - int (undec y)
                    else int (undec (if startsWith s [43] then tl y else y))), rest)
   | [] \<Rightarrow> (0, []))"

definition read_day :: "str \<Rightarrow> int" where
  "read_day s = (case read_year s of
     (y, [m, d]) \<Rightarrow> day_from_year y + int (days_before_month (leap_year y) (undec m)) + int (undec d) - 1
   | _ \<Rightarrow> 0)"

definition read_time :: "str \<Rightarrow> int" where
  "read_time s = (case split_on 58 s of
     [h, m, sec] \<Rightarrow> (case split_on 46 sec of
        [w, f] \<Rightarrow> int (undec h) * 3600000 + int (undec m) * 60000 + int (undec w) * 1000 +
                  int (undec (butlast f))
      | _ \<Rightarrow> 0)
   | _ \<Rightarrow> 0)"

definition read_iso :: "str \<Rightarrow> int" where
  "read_iso s = (case split_on 84 s of
     [d, t] \<Rightarrow> read_day d * 86400000 + read_time t | _ \<Rightarrow> 0)"

definition Date_parse :: "(str \<Rightarrow> int option) \<Rightarrow> str \<Rightarrow> int option" where
  "Date_parse other s =
     (if toISOString (read_iso s) = Inr s then Some (read_iso s) else other s)"

subsection \<open>Reading back\<close>

lemma digits_no_sep: "\<not> is_digit c \<Longrightarrow> c \<notin> set (digits k n)"
  using padStart_digits by blast

lemma undec_digits: "0 \<le> n \<Longrightarrow> undec (digits k n) = nat n"
  unfolding padStart_def undec_zeros undec_dec_nat ..

lemma not_digits [simp]: "\<not> is_digit 45" "\<not> is_digit 58" "\<not> is_digit 46" "\<not> is_digit 84" "\<not> is_digit 43" "\<not> is_digit 90"
  by (simp_all add: is_digit_def)

lemma recombine:
  "u * 1000 + r = t \<Longrightarrow> m * 60 + s = u \<Longrightarrow> h * 60 + q = m \<Longrightarrow>
   h * 3600000 + q * 60000 + s * 1000 + r = (t :: int)"
  by simp

lemma read_time_iso:
  assumes "0 \<le> t" shows "read_time (iso_time t) = t"
proof -
  have "read_time (iso_time t) =
      t div 3600000 * 3600000 + t div 60000 mod 60 * 60000 + t div 1000 mod 60 * 1000 + t mod 1000"
    using assms
    by (simp add: read_time_def iso_time_def split_on_append_sep split_on_plain digits_no_sep undec_digits
        del: undec.simps)
  also have "\<dots> = t"
  proof -
    define u where "u = t div 1000"
    define m where "m = u div 60"
    have "t div 60000 = m" "t div 3600000 = m div 60"
      unfolding m_def u_def by (simp_all flip: zdiv_zmult2_eq)
    moreover have "u * 1000 + t mod 1000 = t" "m * 60 + u mod 60 = u" "m div 60 * 60 + m mod 60 = m"
      unfolding m_def u_def by simp_all
    ultimately show ?thesis unfolding u_def [symmetric] using recombine by metis
  qed
  finally show ?thesis .
qed

lemma digits_hd: "0 < k \<Longrightarrow> \<exists>c u. digits k n = c # u \<and> is_digit c"
proof -
  assume "0 < k"
  then have "digits k n \<noteq> []" by (cases "dec_nat (nat n)") (auto simp: padStart_def)
  then obtain c u where "digits k n = c # u" by (cases "digits k n") auto
  then show ?thesis using padStart_digits [of c k "nat n"] by simp
qed

lemma startsWith_one: "startsWith (c # v) [c'] \<longleftrightarrow> c = c'"
  by (auto simp: startsWith_def)

lemma read_year_iso:
  assumes "45 \<notin> set m" and "45 \<notin> set d"
  shows "read_year (iso_year y @ 45 # m @ 45 # d) = (y, [m, d])"
proof -
  have split: "split_on 45 (u @ 45 # m @ 45 # d) = [u, m, d]" if "45 \<notin> set u" for u
    using assms that by (simp add: split_on_append_sep split_on_plain)
  have d6: "45 \<notin> set (digits 6 n)" and d4: "45 \<notin> set (digits 4 n)" for n
    by (simp_all add: digits_no_sep)
  consider "0 \<le> y \<and> y \<le> 9999" | "y < 0" | "9999 < y" by linarith
  then show ?thesis
  proof cases
    case 1
    obtain c u where c: "digits 4 y = c # u" "is_digit c" using digits_hd [of 4 y] by auto
    then have "c \<noteq> 45" "c \<noteq> 43" by auto
    with c(1) split [OF d4 [of y]] undec_digits [of y 4] 1 show ?thesis
      by (simp add: iso_year_def read_year_def startsWith_one del: undec.simps split_on.simps)
  next
    case 2
    with split [OF d6 [of "\<bar>y\<bar>"]] undec_digits [of "\<bar>y\<bar>" 6] show ?thesis
      by (simp add: iso_year_def read_year_def startsWith_one del: undec.simps split_on.simps)
  next
    case 3
    have "45 \<notin> set (43 # digits 6 \<bar>y\<bar>)" using d6 by simp
    from split [OF this] undec_digits [of y 6] 3 show ?thesis
      by (simp add: iso_year_def read_year_def startsWith_one del: undec.simps split_on.simps)
  qed
qed

lemma read_day_iso: "read_day (iso_date d) = d"
proof -
  let ?y = "year_from_day d"
  let ?w = "nat (d - day_from_year ?y)" and ?leap = "leap_year ?y"
  let ?m = "month_of ?leap ?w"
  have "iso_date d = iso_year ?y @ 45 # digits 2 (int ?m) @ 45 #
      digits 2 (int (?w - days_before_month ?leap ?m) + 1)"
    by (simp add: iso_date_def Let_def)
  then have "read_day (iso_date d) = day_from_year ?y + int (days_before_month ?leap ?m) +
      (int (?w - days_before_month ?leap ?m) + 1) - 1"
    unfolding read_day_def using undec_digits
    by (simp only: read_year_iso [OF digits_no_sep digits_no_sep, OF not_digits(1) not_digits(1)]
        prod.case list.case) (simp del: undec.simps nat_int, simp)
  then show ?thesis
    using month_of_le [of ?leap ?w] year_from_day(1) [of d] by simp
qed

lemma iso_date_no_T: "84 \<notin> set (iso_date d)"
  by (auto simp: iso_date_def Let_def iso_year_def dest: padStart_digits)

lemma iso_time_no_T: "84 \<notin> set (iso_time t)"
  by (auto simp: iso_time_def dest: padStart_digits)

lemma Date_parse_toISOString:
  assumes "toISOString t = Inr s"
  shows "Date_parse other s = Some t"
proof -
  have s: "s = iso_date (t div 86400000) @ 84 # iso_time (t mod 86400000)"
    using assms by (simp add: toISOString_def split: if_splits)
  have "read_iso s = t div 86400000 * 86400000 + t mod 86400000"
    unfolding s read_iso_def
    by (simp add: split_on_append_sep split_on_plain iso_date_no_T iso_time_no_T read_day_iso
        read_time_iso)
  then have "read_iso s = t" by simp
  then show ?thesis using assms by (simp add: Date_parse_def)
qed

lemma toISOString_nonempty: "toISOString t = Inr s \<Longrightarrow> s \<noteq> []"
  by (auto simp: toISOString_def split: if_splits)

lemma toISOString_inj: "toISOString t = Inr s \<Longrightarrow> toISOString u = Inr s \<Longrightarrow> t = u"
  using Date_parse_toISOString by (metis option.inject)

end
