(* ===== verification/Scheduler.thy ===== *)
theory Scheduler
  imports Contracts JsDate
begin

text \<open>
  The run scheduler of \<open>packages/scheduler/src/index.ts\<close>: queue items, leases, and the class
  \<open>InMemoryScheduler\<close>. A method is a state transformer that leaves its effects behind when it
  throws. Every reading of the clock is one tick: \<open>se_clock e n\<close> is what the \<open>n\<close>-th call of
  \<open>clock.now()\<close> returns. Durations and attempt limits are integers.
\<close>

section \<open>Queue items and leases\<close>

datatype queue_status = Queued | Leased | Completed | QFailed | Exhausted
datatype lease_status = Active | Released | Expired | LFailed

type_synonym jrecord = "(str \<times> json) list"

record queue_item =
  qi_runId :: str
  qi_status :: queue_status
  qi_attempts :: int
  qi_maxAttempts :: int
  qi_leaseDurationMs :: int
  qi_enqueuedAt :: str
  qi_updatedAt :: str
  qi_lastLeaseId :: "str option"
  qi_lastError :: "jrecord option"

record lease = execution_lease +
  sl_status :: lease_status
  sl_attempt :: int
  sl_result :: "jrecord option"
  sl_error :: "jrecord option"

definition SchedulerExecutionLeaseSchema :: "lease \<Rightarrow> bool" where
  "SchedulerExecutionLeaseSchema l \<longleftrightarrow> ExecutionLeaseSchema l \<and> 0 < sl_attempt l"

definition SchedulerQueueItemSchema :: "queue_item \<Rightarrow> bool" where
  "SchedulerQueueItemSchema i \<longleftrightarrow> str_min1 (qi_runId i) \<and> 0 \<le> qi_attempts i \<and>
     0 < qi_maxAttempts i \<and> 0 < qi_leaseDurationMs i \<and> str_min1 (qi_enqueuedAt i) \<and>
     str_min1 (qi_updatedAt i) \<and> opt_min1 (qi_lastLeaseId i)"

definition queue_status_name :: "queue_status \<Rightarrow> str" where
  "queue_status_name s = (case s of Queued \<Rightarrow> js ''queued'' | Leased \<Rightarrow> js ''leased''
     | Completed \<Rightarrow> js ''completed'' | QFailed \<Rightarrow> js ''failed'' | Exhausted \<Rightarrow> js ''exhausted'')"

definition lease_status_name :: "lease_status \<Rightarrow> str" where
  "lease_status_name s = (case s of Active \<Rightarrow> js ''active'' | Released \<Rightarrow> js ''released''
     | Expired \<Rightarrow> js ''expired'' | LFailed \<Rightarrow> js ''failed'')"

definition formatLeaseId :: "str \<Rightarrow> int \<Rightarrow> nat \<Rightarrow> str" where
  "formatLeaseId runId attempt sequence =
     join_with (js ''_'')
       [js ''lease'', sanitizeIdPart runId, padStart 3 48 (dec_int attempt),
        padStart 4 48 (dec_nat sequence)]"

text \<open>
  What a caller may hand to \<open>failLease\<close>: an \<open>Error\<close>, a string, a plain object, a \<open>Date\<close> (its time
  value, \<open>None\<close> when invalid), another object (its \<open>stringifyUnknownError\<close> text) or another value
  (its \<open>String\<close> text).
\<close>

datatype js_unknown =
    UError str str
  | UString str
  | UPlain jrecord
  | UDate "int option"
  | UObject str
  | UOther str

definition normalizeError :: "js_unknown \<Rightarrow> err + jrecord" where
  "normalizeError e =
     (case e of
        UError name message \<Rightarrow> Inr [(js ''name'', JStr name), (js ''message'', JStr message)]
      | UString s \<Rightarrow> Inr [(js ''message'', JStr s)]
      | UPlain r \<Rightarrow> Inr r
      | UDate None \<Rightarrow> Inl RangeError
      | UDate (Some t) \<Rightarrow> bind_res (toISOString t) (\<lambda>s. Inr [(js ''message'', JStr s)])
      | UObject s \<Rightarrow> Inr [(js ''message'', JStr s)]
      | UOther s \<Rightarrow> Inr [(js ''message'', JStr s)])"

section \<open>Time\<close>

record sched_env =
  se_clock :: "nat \<Rightarrow> str"
  se_parse :: "str \<Rightarrow> int option"
  se_defaultLeaseDurationMs :: int
  se_defaultMaxAttempts :: int

abbreviation se_date :: "sched_env \<Rightarrow> str \<Rightarrow> int option" where
  "se_date e \<equiv> Date_parse (se_parse e)"

definition parseTimestamp :: "sched_env \<Rightarrow> str \<Rightarrow> err + int" where
  "parseTimestamp e timestamp =
     (case se_date e timestamp of
        None \<Rightarrow> Inl (Err (js ''invalid_clock_timestamp:'' @ timestamp)) | Some t \<Rightarrow> Inr t)"

definition addMilliseconds :: "sched_env \<Rightarrow> str \<Rightarrow> int \<Rightarrow> err + str" where
  "addMilliseconds e timestamp milliseconds =
     bind_res (parseTimestamp e timestamp) (\<lambda>time. toISOString (time + milliseconds))"

section \<open>The in-memory scheduler\<close>

record scheduler =
  ms_queue :: "(str \<times> queue_item) list"
  ms_queueOrder :: "str list"
  ms_leases :: "(str \<times> lease) list"
  ms_leaseSequence :: nat
  ms_tick :: nat

type_synonym 'a sched = "(scheduler, err, 'a) sx"

definition new_scheduler :: "nat \<Rightarrow> scheduler" where
  "new_scheduler tick = \<lparr>ms_queue = [], ms_queueOrder = [], ms_leases = [], ms_leaseSequence = 0,
     ms_tick = tick\<rparr>"

definition clock_now :: "sched_env \<Rightarrow> str sched" where
  "clock_now e = (\<lambda>s. (Inr (se_clock e (ms_tick s)), s\<lparr>ms_tick := Suc (ms_tick s)\<rparr>))"

definition queue_get :: "scheduler \<Rightarrow> str \<Rightarrow> queue_item option" where
  "queue_get s runId = map_of (ms_queue s) runId"

definition lease_get :: "scheduler \<Rightarrow> str \<Rightarrow> lease option" where
  "lease_get s leaseId = map_of (ms_leases s) leaseId"

definition queue_set :: "str \<Rightarrow> queue_item \<Rightarrow> scheduler \<Rightarrow> scheduler" where
  "queue_set runId i s = s\<lparr>ms_queue := AList.update runId i (ms_queue s)\<rparr>"

definition lease_set :: "str \<Rightarrow> lease \<Rightarrow> scheduler \<Rightarrow> scheduler" where
  "lease_set leaseId l s = s\<lparr>ms_leases := AList.update leaseId l (ms_leases s)\<rparr>"

definition hasActiveLease :: "scheduler \<Rightarrow> str \<Rightarrow> bool" where
  "hasActiveLease s runId =
     list_ex (\<lambda>l. el_runId l = runId \<and> sl_status l = Active) (map snd (ms_leases s))"

definition requireLease :: "str \<Rightarrow> lease sched" where
  "requireLease leaseId = (\<lambda>s. case lease_get s leaseId of
     None \<Rightarrow> (Inl (Err (js ''lease_not_found:'' @ leaseId)), s) | Some l \<Rightarrow> (Inr l, s))"

definition requireQueueItem :: "str \<Rightarrow> queue_item sched" where
  "requireQueueItem runId = (\<lambda>s. case queue_get s runId of
     None \<Rightarrow> (Inl (Err (js ''run_not_queued:'' @ runId)), s) | Some i \<Rightarrow> (Inr i, s))"

text \<open>The patch of \<open>updateQueueItem\<close>: an absent field is not touched.\<close>

record item_patch =
  pt_status :: "queue_status option"
  pt_attempts :: "int option"
  pt_lastLeaseId :: "str option"
  pt_lastError :: "jrecord option"

abbreviation to_status :: "queue_status \<Rightarrow> item_patch" where
  "to_status st \<equiv> \<lparr>pt_status = Some st, pt_attempts = None, pt_lastLeaseId = None, pt_lastError = None\<rparr>"

definition apply_patch :: "item_patch \<Rightarrow> str \<Rightarrow> queue_item \<Rightarrow> queue_item" where
  "apply_patch p now i =
     i\<lparr>qi_status := (case pt_status p of None \<Rightarrow> qi_status i | Some v \<Rightarrow> v),
       qi_attempts := (case pt_attempts p of None \<Rightarrow> qi_attempts i | Some v \<Rightarrow> v),
       qi_lastLeaseId := (case pt_lastLeaseId p of None \<Rightarrow> qi_lastLeaseId i | Some v \<Rightarrow> Some v),
       qi_lastError := (case pt_lastError p of None \<Rightarrow> qi_lastError i | Some v \<Rightarrow> Some v),
       qi_updatedAt := now\<rparr>"

definition updateQueueItem :: "sched_env \<Rightarrow> str \<Rightarrow> item_patch \<Rightarrow> queue_item sched" where
  "updateQueueItem e runId patch =
     sx_bind (requireQueueItem runId) (\<lambda>existing.
     sx_bind (clock_now e) (\<lambda>now.
     let updated = apply_patch patch now existing in
     sx_bind (sx_modify (queue_set runId updated)) (\<lambda>_.
     sx_return updated)))"

text \<open>
  The status an item goes back to when its lease ends without a result.
\<close>

definition retry_status :: "queue_item \<Rightarrow> queue_status" where
  "retry_status i = (if qi_attempts i \<ge> qi_maxAttempts i then Exhausted else Queued)"

definition lease_live :: "sched_env \<Rightarrow> int \<Rightarrow> lease \<Rightarrow> bool" where
  "lease_live e now l = (case se_date e (el_expiresAt l) of None \<Rightarrow> False | Some t \<Rightarrow> t > now)"

text \<open>
  The loop runs over the leases present at its start; an iteration writes the lease it is at only.
\<close>

definition expire_lease :: "sched_env \<Rightarrow> int \<Rightarrow> lease \<Rightarrow> unit sched" where
  "expire_lease e now lease =
     (if sl_status lease \<noteq> Active \<or> lease_live e now lease then sx_return ()
      else sx_bind (sx_modify (lease_set (el_leaseId lease) (lease\<lparr>sl_status := Expired\<rparr>))) (\<lambda>_.
           sx_bind (sx_gets (\<lambda>s. queue_get s (el_runId lease))) (\<lambda>item.
           case item of
             None \<Rightarrow> sx_return ()
           | Some i \<Rightarrow>
               if qi_status i \<noteq> Leased then sx_return ()
               else sx_bind (updateQueueItem e (el_runId lease) (to_status (retry_status i)))
                      (\<lambda>_. sx_return ()))))"

definition expireLeases :: "sched_env \<Rightarrow> unit sched" where
  "expireLeases e =
     sx_bind (clock_now e) (\<lambda>text.
     sx_bind (sx_lift (parseTimestamp e text)) (\<lambda>now.
     sx_bind (sx_gets (\<lambda>s. map snd (ms_leases s))) (\<lambda>leases.
     sx_each (expire_lease e now) leases)))"

definition enqueueRun :: "sched_env \<Rightarrow> str \<Rightarrow> int option \<Rightarrow> int option \<Rightarrow> queue_item sched" where
  "enqueueRun e runId maxAttempts leaseDurationMs =
     sx_bind (sx_gets (\<lambda>s. queue_get s runId)) (\<lambda>found.
     case found of
       Some existing \<Rightarrow>
         (if qi_status existing = Completed \<or> qi_status existing = Exhausted
          then sx_throw (Err (js ''run_not_enqueueable:'' @ queue_status_name (qi_status existing)))
          else sx_return existing)
     | None \<Rightarrow>
         sx_bind (clock_now e) (\<lambda>now.
         let item = \<lparr>qi_runId = runId, qi_status = Queued, qi_attempts = 0,
                     qi_maxAttempts = (case maxAttempts of None \<Rightarrow> se_defaultMaxAttempts e | Some n \<Rightarrow> n),
                     qi_leaseDurationMs =
                       (case leaseDurationMs of None \<Rightarrow> se_defaultLeaseDurationMs e | Some n \<Rightarrow> n),
                     qi_enqueuedAt = now, qi_updatedAt = now, qi_lastLeaseId = None,
                     qi_lastError = None\<rparr> in
         sx_bind (sx_modify (queue_set runId item)) (\<lambda>_.
         sx_bind (sx_modify (\<lambda>s. s\<lparr>ms_queueOrder := ms_queueOrder s @ [runId]\<rparr>)) (\<lambda>_.
         sx_return item))))"

definition createLeaseId :: "str \<Rightarrow> int \<Rightarrow> str sched" where
  "createLeaseId runId attempt =
     sx_bind (sx_modify (\<lambda>s. s\<lparr>ms_leaseSequence := Suc (ms_leaseSequence s)\<rparr>)) (\<lambda>_.
     sx_gets (\<lambda>s. formatLeaseId runId attempt (ms_leaseSequence s)))"

definition grant_lease :: "sched_env \<Rightarrow> str \<Rightarrow> int option \<Rightarrow> str \<Rightarrow> queue_item \<Rightarrow> lease sched" where
  "grant_lease e workerId leaseDurationMs runId item =
     sx_bind (clock_now e) (\<lambda>now.
     let duration = (case leaseDurationMs of None \<Rightarrow> qi_leaseDurationMs item | Some n \<Rightarrow> n);
         attempt = qi_attempts item + 1 in
     sx_bind (createLeaseId runId attempt) (\<lambda>leaseId.
     sx_bind (sx_lift (addMilliseconds e now duration)) (\<lambda>expiresAt.
     let lease = \<lparr>el_leaseId = leaseId, el_runId = runId, el_workerId = workerId,
                  el_acquiredAt = now, el_expiresAt = expiresAt, el_heartbeatAt = None,
                  el_releasedAt = None, sl_status = Active, sl_attempt = attempt,
                  sl_result = None, sl_error = None\<rparr> in
     sx_bind (sx_modify (lease_set leaseId lease)) (\<lambda>_.
     sx_bind (updateQueueItem e runId
                \<lparr>pt_status = Some Leased, pt_attempts = Some attempt,
                 pt_lastLeaseId = Some leaseId, pt_lastError = None\<rparr>) (\<lambda>_.
     sx_return lease)))))"

fun acquire_loop :: "sched_env \<Rightarrow> str \<Rightarrow> int option \<Rightarrow> str list \<Rightarrow> lease option sched" where
  "acquire_loop e workerId dur [] = sx_return None"
| "acquire_loop e workerId dur (runId # rest) =
     sx_bind (sx_gets (\<lambda>s. (queue_get s runId, hasActiveLease s runId))) (\<lambda>(found, busy).
     case found of
       None \<Rightarrow> acquire_loop e workerId dur rest
     | Some item \<Rightarrow>
         if qi_status item \<noteq> Queued then acquire_loop e workerId dur rest
         else if busy then acquire_loop e workerId dur rest
         else if qi_attempts item \<ge> qi_maxAttempts item then
           sx_bind (updateQueueItem e runId (to_status Exhausted)) (\<lambda>_.
           acquire_loop e workerId dur rest)
         else sx_bind (grant_lease e workerId dur runId item) (\<lambda>lease. sx_return (Some lease)))"

definition acquireLease :: "sched_env \<Rightarrow> str \<Rightarrow> int option \<Rightarrow> lease option sched" where
  "acquireLease e workerId leaseDurationMs =
     sx_bind (expireLeases e) (\<lambda>_.
     sx_bind (sx_gets ms_queueOrder) (\<lambda>order.
     acquire_loop e workerId leaseDurationMs order))"

definition require_active :: "lease \<Rightarrow> unit sched" where
  "require_active lease =
     (if sl_status lease \<noteq> Active
      then sx_throw (Err (js ''lease_not_active:'' @ lease_status_name (sl_status lease)))
      else sx_return ())"

definition renewLease :: "sched_env \<Rightarrow> str \<Rightarrow> int option \<Rightarrow> lease sched" where
  "renewLease e leaseId leaseDurationMs =
     sx_bind (expireLeases e) (\<lambda>_.
     sx_bind (requireLease leaseId) (\<lambda>lease.
     sx_bind (require_active lease) (\<lambda>_.
     sx_bind (requireQueueItem (el_runId lease)) (\<lambda>item.
     sx_bind (clock_now e) (\<lambda>now.
     sx_bind (sx_lift (addMilliseconds e now
       (case leaseDurationMs of None \<Rightarrow> qi_leaseDurationMs item | Some n \<Rightarrow> n))) (\<lambda>expiresAt.
     let updated = lease\<lparr>el_heartbeatAt := Some now, el_expiresAt := expiresAt\<rparr> in
     sx_bind (sx_modify (lease_set leaseId updated)) (\<lambda>_.
     sx_return updated)))))))"

definition releaseLease :: "sched_env \<Rightarrow> str \<Rightarrow> jrecord \<Rightarrow> lease sched" where
  "releaseLease e leaseId result =
     sx_bind (expireLeases e) (\<lambda>_.
     sx_bind (requireLease leaseId) (\<lambda>lease.
     sx_bind (require_active lease) (\<lambda>_.
     sx_bind (clock_now e) (\<lambda>now.
     let updated = lease\<lparr>sl_status := Released, el_releasedAt := Some now, sl_result := Some result\<rparr> in
     sx_bind (sx_modify (lease_set leaseId updated)) (\<lambda>_.
     sx_bind (updateQueueItem e (el_runId lease) (to_status Completed)) (\<lambda>_.
     sx_return updated))))))"

definition failLease :: "sched_env \<Rightarrow> str \<Rightarrow> js_unknown \<Rightarrow> lease sched" where
  "failLease e leaseId error =
     sx_bind (expireLeases e) (\<lambda>_.
     sx_bind (requireLease leaseId) (\<lambda>lease.
     sx_bind (require_active lease) (\<lambda>_.
     sx_bind (sx_lift (normalizeError error)) (\<lambda>normalizedError.
     sx_bind (clock_now e) (\<lambda>now.
     let updated = lease\<lparr>sl_status := LFailed, el_releasedAt := Some now,
                         sl_error := Some normalizedError\<rparr> in
     sx_bind (sx_modify (lease_set leaseId updated)) (\<lambda>_.
     sx_bind (requireQueueItem (el_runId lease)) (\<lambda>item.
     sx_bind (updateQueueItem e (el_runId lease)
                \<lparr>pt_status = Some (retry_status item), pt_attempts = None, pt_lastLeaseId = None,
                 pt_lastError = Some normalizedError\<rparr>) (\<lambda>_.
     sx_return updated))))))))"

definition listQueue :: "sched_env \<Rightarrow> queue_item list sched" where
  "listQueue e =
     sx_bind (expireLeases e) (\<lambda>_.
     sx_gets (\<lambda>s. List.map_filter (queue_get s) (ms_queueOrder s)))"

definition listLeases :: "sched_env \<Rightarrow> lease list sched" where
  "listLeases e = sx_bind (expireLeases e) (\<lambda>_. sx_gets (\<lambda>s. map snd (ms_leases s)))"

end
