(* ===== verification/SchedulerProofs.thy ===== *)
theory SchedulerProofs
  imports Scheduler
begin

text \<open>
  What the in-memory scheduler guarantees. Its methods are broken down into the atomic transitions
  \<open>sched_step\<close> of a state machine; the invariant \<open>sched_inv\<close> and the stability properties are proved
  on the transitions, and every method, on its error paths too, is shown to be a sequence of them.
\<close>

section \<open>Maps of the state\<close>

lemma sched_select [simp]:
  "queue_get (s\<lparr>ms_tick := n\<rparr>) r = queue_get s r" "lease_get (s\<lparr>ms_tick := n\<rparr>) k = lease_get s k"
  "queue_get (s\<lparr>ms_leaseSequence := q\<rparr>) r = queue_get s r"
  "lease_get (s\<lparr>ms_leaseSequence := q\<rparr>) k = lease_get s k"
  "queue_get (s\<lparr>ms_queueOrder := ord\<rparr>) r = queue_get s r"
  "lease_get (s\<lparr>ms_queueOrder := ord\<rparr>) k = lease_get s k"
  "queue_get (queue_set r' i s) r = (if r = r' then Some i else queue_get s r)"
  "lease_get (queue_set r' i s) k = lease_get s k"
  "queue_get (lease_set k' l s) r = queue_get s r"
  "lease_get (lease_set k' l s) k = (if k = k' then Some l else lease_get s k)"
  "ms_leaseSequence (queue_set r' i s) = ms_leaseSequence s"
  "ms_leaseSequence (lease_set k' l s) = ms_leaseSequence s"
  "ms_queueOrder (queue_set r' i s) = ms_queueOrder s"
  "ms_queueOrder (lease_set k' l s) = ms_queueOrder s"
  "ms_leases (queue_set r' i s) = ms_leases s" "ms_queue (lease_set k' l s) = ms_queue s"
  "ms_tick (queue_set r' i s) = ms_tick s" "ms_tick (lease_set k' l s) = ms_tick s"
  by (auto simp: queue_get_def lease_get_def queue_set_def lease_set_def map_of_update)

lemma sched_keys:
  "map fst (ms_queue (queue_set r i s)) =
     (if queue_get s r = None then map fst (ms_queue s) @ [r] else map fst (ms_queue s))"
  "map fst (ms_leases (lease_set k l s)) =
     (if lease_get s k = None then map fst (ms_leases s) @ [k] else map fst (ms_leases s))"
  using map_of_is_None [of "ms_queue s" r] map_of_is_None [of "ms_leases s" k]
  by (auto simp: queue_set_def lease_set_def keys_update queue_get_def lease_get_def)

definition leases_of :: "scheduler \<Rightarrow> str \<Rightarrow> lease list" where
  "leases_of s r = filter (\<lambda>l. el_runId l = r) (map snd (ms_leases s))"

lemma filter_update_fresh:
  "map_of m k = None \<Longrightarrow> filter P (map snd (AList.update k v m)) =
     filter P (map snd m) @ (if P v then [v] else [])"
  using map_of_is_None [of m k] by (simp add: map_snd_update_fresh)

lemma length_filter_update:
  "map_of m k = Some u \<Longrightarrow> P u = P v \<Longrightarrow>
   length (filter P (map snd (AList.update k v m))) = length (filter P (map snd m))"
  by (induction m) (auto split: if_splits)

lemma leases_of_set:
  "lease_get s k = None \<Longrightarrow> length (leases_of (lease_set k l s) r) =
     length (leases_of s r) + (if el_runId l = r then 1 else 0)"
  "lease_get s k = Some u \<Longrightarrow> el_runId u = el_runId l \<Longrightarrow>
     length (leases_of (lease_set k l s) r) = length (leases_of s r)"
  unfolding leases_of_def lease_set_def lease_get_def
  by (simp_all add: filter_update_fresh length_filter_update del: length_filter_map filter_map)

lemma leases_of_other [simp]:
  "leases_of (s\<lparr>ms_tick := n\<rparr>) r = leases_of s r"
  "leases_of (s\<lparr>ms_leaseSequence := q\<rparr>) r = leases_of s r"
  "leases_of (s\<lparr>ms_queueOrder := ord\<rparr>) r = leases_of s r"
  "leases_of (queue_set r' i s) r = leases_of s r"
  by (simp_all add: leases_of_def queue_set_def)

section \<open>Lease ids\<close>

lemma after_last_sep:
  "d \<notin> set u \<Longrightarrow> d \<notin> set v \<Longrightarrow> x @ d # u = y @ d # v \<Longrightarrow> u = v"
proof -
  assume a: "d \<notin> set u" "d \<notin> set v" "x @ d # u = y @ d # v"
  then have "takeWhile (\<lambda>c. c \<noteq> d) (rev (x @ d # u)) = takeWhile (\<lambda>c. c \<noteq> d) (rev (y @ d # v))" by simp
  moreover have "takeWhile (\<lambda>c. c \<noteq> d) (rev (x @ d # u)) = rev u"
    using a(1) by (auto simp: takeWhile_append takeWhile_tail)
  moreover have "takeWhile (\<lambda>c. c \<noteq> d) (rev (y @ d # v)) = rev v"
    using a(2) by (auto simp: takeWhile_append takeWhile_tail)
  ultimately show ?thesis by simp
qed

lemma formatLeaseId_sequence: "formatLeaseId r a m = formatLeaseId r' a' n \<Longrightarrow> m = n"
proof -
  let ?d = "\<lambda>n. padStart 4 48 (dec_nat n)"
  have no: "95 \<notin> set (?d n)" for n
    using padStart_digits [of 95 4 n] by (auto simp: is_digit_def)
  have us: "js ''_'' = [95]" by (simp add: js_def)
  have f: "formatLeaseId r a n = (js ''lease'' @ 95 # sanitizeIdPart r @ 95 # padStart 3 48 (dec_int a)) @
      95 # ?d n" for r a n
    by (simp add: formatLeaseId_def us)
  assume "formatLeaseId r a m = formatLeaseId r' a' n"
  from after_last_sep [OF no no this [unfolded f]] show ?thesis by (simp add: padStart_dec_inj)
qed

section \<open>The transitions\<close>

text \<open>The status a lease ends with, and the status its queue item takes.\<close>

definition end_status :: "lease_status \<Rightarrow> queue_item \<Rightarrow> queue_status" where
  "end_status st i = (if st = Released then Completed else retry_status i)"

inductive sched_step :: "scheduler \<Rightarrow> scheduler \<Rightarrow> bool" where
  step_tick: "sched_step s (s\<lparr>ms_tick := n\<rparr>)"
| step_sequence: "sched_step s (s\<lparr>ms_leaseSequence := Suc (ms_leaseSequence s)\<rparr>)"
| step_enqueue: "queue_get s r = None \<Longrightarrow> qi_runId i = r \<Longrightarrow> qi_status i = Queued \<Longrightarrow>
    qi_attempts i = 0 \<Longrightarrow>
    sched_step s (queue_set r i s\<lparr>ms_queueOrder := ms_queueOrder s @ [r]\<rparr>)"
| step_exhaust: "queue_get s r = Some i \<Longrightarrow> qi_status i = Queued \<Longrightarrow> qi_maxAttempts i \<le> qi_attempts i \<Longrightarrow>
    sched_step s (queue_set r (apply_patch (to_status Exhausted) now i) s)"
| step_grant: "queue_get s r = Some i \<Longrightarrow> qi_status i = Queued \<Longrightarrow> qi_attempts i < qi_maxAttempts i \<Longrightarrow>
    k = formatLeaseId r (qi_attempts i + 1) (Suc (ms_leaseSequence s)) \<Longrightarrow>
    el_leaseId l = k \<Longrightarrow> el_runId l = r \<Longrightarrow> sl_status l = Active \<Longrightarrow>
    sl_attempt l = qi_attempts i + 1 \<Longrightarrow>
    sched_step s (queue_set r
      (apply_patch \<lparr>pt_status = Some Leased, pt_attempts = Some (qi_attempts i + 1),
         pt_lastLeaseId = Some k, pt_lastError = None\<rparr> now i)
      (lease_set k l (s\<lparr>ms_leaseSequence := Suc (ms_leaseSequence s)\<rparr>)))"
| step_renew: "lease_get s k = Some l \<Longrightarrow> sl_status l = Active \<Longrightarrow>
    sched_step s (lease_set k (l\<lparr>el_heartbeatAt := Some now, el_expiresAt := x\<rparr>) s)"
| step_end: "lease_get s k = Some l \<Longrightarrow> sl_status l = Active \<Longrightarrow> queue_get s (el_runId l) = Some i \<Longrightarrow>
    st \<noteq> Active \<Longrightarrow> el_leaseId m = el_leaseId l \<Longrightarrow> el_runId m = el_runId l \<Longrightarrow>
    sl_attempt m = sl_attempt l \<Longrightarrow> sl_status m = st \<Longrightarrow>
    pt_status p = Some (end_status st i) \<Longrightarrow> pt_attempts p = None \<Longrightarrow> pt_lastLeaseId p = None \<Longrightarrow>
    sched_step s (queue_set (el_runId l) (apply_patch p now i) (lease_set k m s))"

section \<open>The invariant\<close>

definition item_inv :: "scheduler \<Rightarrow> str \<Rightarrow> queue_item \<Rightarrow> bool" where
  "item_inv s r i \<longleftrightarrow> qi_runId i = r \<and> qi_attempts i \<le> max 0 (qi_maxAttempts i) \<and>
     qi_attempts i = int (length (leases_of s r)) \<and> qi_status i \<noteq> QFailed \<and>
     (qi_status i = Leased \<longrightarrow> (\<exists>k l. qi_lastLeaseId i = Some k \<and> lease_get s k = Some l \<and>
        el_runId l = r \<and> sl_status l = Active)) \<and>
     (qi_status i = Exhausted \<longrightarrow> qi_maxAttempts i \<le> qi_attempts i) \<and>
     (qi_status i = Completed \<longrightarrow> (\<exists>k l. lease_get s k = Some l \<and> el_runId l = r \<and> sl_status l = Released))"

definition lease_inv :: "scheduler \<Rightarrow> str \<Rightarrow> lease \<Rightarrow> bool" where
  "lease_inv s k l \<longleftrightarrow> el_leaseId l = k \<and> (\<exists>i. queue_get s (el_runId l) = Some i \<and>
       (sl_status l = Active \<longrightarrow> qi_status i = Leased \<and> qi_lastLeaseId i = Some k \<and>
          qi_attempts i = sl_attempt l)) \<and>
     (\<exists>q \<le> ms_leaseSequence s. k = formatLeaseId (el_runId l) (sl_attempt l) q)"

definition sched_inv :: "scheduler \<Rightarrow> bool" where
  "sched_inv s \<longleftrightarrow> distinct (map fst (ms_queue s)) \<and> distinct (map fst (ms_leases s)) \<and>
     ms_queueOrder s = map fst (ms_queue s) \<and>
     (\<forall>r i. queue_get s r = Some i \<longrightarrow> item_inv s r i) \<and>
     (\<forall>k l. lease_get s k = Some l \<longrightarrow> lease_inv s k l)"

lemma sched_invI:
  "distinct (map fst (ms_queue s)) \<Longrightarrow> distinct (map fst (ms_leases s)) \<Longrightarrow>
   ms_queueOrder s = map fst (ms_queue s) \<Longrightarrow>
   (\<And>r i. queue_get s r = Some i \<Longrightarrow> item_inv s r i) \<Longrightarrow>
   (\<And>k l. lease_get s k = Some l \<Longrightarrow> lease_inv s k l) \<Longrightarrow> sched_inv s"
  by (simp add: sched_inv_def)

lemma sched_invD:
  assumes "sched_inv s"
  shows "distinct (map fst (ms_queue s))" and "distinct (map fst (ms_leases s))"
    and "ms_queueOrder s = map fst (ms_queue s)"
    and "queue_get s r = Some i \<Longrightarrow> item_inv s r i" and "lease_get s k = Some l \<Longrightarrow> lease_inv s k l"
  using assms by (simp_all add: sched_inv_def)

lemma sched_inv_new: "sched_inv (new_scheduler n)"
  by (simp add: sched_inv_def new_scheduler_def queue_get_def lease_get_def)

lemma lease_inv_active:
  "sched_inv s \<Longrightarrow> lease_get s k = Some l \<Longrightarrow> sl_status l = Active \<Longrightarrow>
   queue_get s (el_runId l) = Some i \<Longrightarrow>
   qi_status i = Leased \<and> qi_lastLeaseId i = Some k \<and> qi_attempts i = sl_attempt l"
  using sched_invD(5) unfolding lease_inv_def by fastforce

lemma lease_inv_queued:
  "sched_inv s \<Longrightarrow> lease_get s k = Some l \<Longrightarrow> \<exists>i. queue_get s (el_runId l) = Some i"
  using sched_invD(5) unfolding lease_inv_def by blast

lemma lease_id_fresh:
  assumes "sched_inv s"
  shows "lease_get s (formatLeaseId r a (Suc (ms_leaseSequence s))) = None"
proof (rule ccontr)
  assume "\<not> ?thesis"
  then obtain l where "lease_get s (formatLeaseId r a (Suc (ms_leaseSequence s))) = Some l" by blast
  then obtain q where "q \<le> ms_leaseSequence s"
    "formatLeaseId r a (Suc (ms_leaseSequence s)) = formatLeaseId (el_runId l) (sl_attempt l) q"
    using sched_invD(5) [OF assms] unfolding lease_inv_def by blast
  then show False using formatLeaseId_sequence by (metis Suc_n_not_le_n)
qed

text \<open>Two active leases of one run are the same lease.\<close>

lemma active_unique:
  assumes "sched_inv s" and "lease_get s k = Some l" and "sl_status l = Active"
    and "lease_get s k' = Some l'" and "sl_status l' = Active" and "el_runId l = el_runId l'"
  shows "k = k'"
proof -
  obtain i where i: "queue_get s (el_runId l) = Some i" using lease_inv_queued [OF assms(1,2)] ..
  from lease_inv_active [OF assms(1-3) i] lease_inv_active [OF assms(1,4,5)] i assms(6)
  show ?thesis by simp
qed

text \<open>An item that does not look at the changed leases keeps its invariant.\<close>

lemma item_inv_cong:
  assumes "item_inv s r i" and "length (leases_of t r) = length (leases_of s r)"
    and "\<And>k l. lease_get s k = Some l \<Longrightarrow> el_runId l = r \<Longrightarrow> sl_status l = Active \<or> sl_status l = Released \<Longrightarrow>
      \<exists>l'. lease_get t k = Some l' \<and> el_runId l' = r \<and> sl_status l' = sl_status l"
  shows "item_inv t r i"
  unfolding item_inv_def
proof (intro conjI impI)
  assume "qi_status i = Leased"
  then obtain k l where "qi_lastLeaseId i = Some k" "lease_get s k = Some l" "el_runId l = r"
    "sl_status l = Active" using assms(1) unfolding item_inv_def by blast
  then show "\<exists>k l. qi_lastLeaseId i = Some k \<and> lease_get t k = Some l \<and> el_runId l = r \<and> sl_status l = Active"
    using assms(3) by metis
next
  assume "qi_status i = Completed"
  then obtain k l where "lease_get s k = Some l" "el_runId l = r" "sl_status l = Released"
    using assms(1) unfolding item_inv_def by blast
  then show "\<exists>k l. lease_get t k = Some l \<and> el_runId l = r \<and> sl_status l = Released"
    using assms(3) by metis
qed (use assms(1,2) in \<open>simp_all add: item_inv_def\<close>)

lemma inv_step_grant:
  assumes inv: "sched_inv s" and r: "queue_get s r = Some i" "qi_status i = Queued"
    "qi_attempts i < qi_maxAttempts i"
    and k: "k = formatLeaseId r (qi_attempts i + 1) (Suc (ms_leaseSequence s))"
    and l: "el_leaseId l = k" "el_runId l = r" "sl_status l = Active" "sl_attempt l = qi_attempts i + 1"
  shows "sched_inv (queue_set r
      (apply_patch \<lparr>pt_status = Some Leased, pt_attempts = Some (qi_attempts i + 1),
         pt_lastLeaseId = Some k, pt_lastError = None\<rparr> now i)
      (lease_set k l (s\<lparr>ms_leaseSequence := Suc (ms_leaseSequence s)\<rparr>)))" (is "sched_inv ?t")
proof (rule sched_invI)
  note D = sched_invD [OF inv]
  have fresh: "lease_get s k = None" using lease_id_fresh [OF inv] k by simp
  then have kn: "k \<notin> set (map fst (ms_leases s))"
    using map_of_is_None [of "ms_leases s" k] by (simp add: lease_get_def)
  show "distinct (map fst (ms_queue ?t))" "ms_queueOrder ?t = map fst (ms_queue ?t)"
    using D(1,3) r(1) by (simp_all add: sched_keys)
  show "distinct (map fst (ms_leases ?t))"
    using D(2) fresh kn by (simp add: sched_keys)
  fix r' i' assume i': "queue_get ?t r' = Some i'"
  show "item_inv ?t r' i'"
  proof (cases "r' = r")
    case True
    with i' D(4) [OF r(1)] r l fresh show ?thesis
      by (auto simp: item_inv_def apply_patch_def leases_of_set)
  next
    case False
    with i' have "item_inv s r' i'" using D(4) by simp
    with False l fresh show ?thesis by (elim item_inv_cong) (auto simp: leases_of_set)
  qed
next
  note D = sched_invD [OF inv]
  fix k' l' assume l': "lease_get ?t k' = Some l'"
  show "lease_inv ?t k' l'"
  proof (cases "k' = k")
    case True
    with l' k l show ?thesis by (auto simp: lease_inv_def apply_patch_def)
  next
    case False
    with l' have "lease_inv s k' l'" using D(5) by simp
    moreover have "sl_status l' \<noteq> Active" if "el_runId l' = r"
      using lease_inv_active [OF inv _ _ r(1) [folded that]] l' False r(2) that by auto
    ultimately show ?thesis unfolding lease_inv_def by (auto intro: le_SucI)
  qed
qed

lemma inv_step_end:
  assumes inv: "sched_inv s" and l: "lease_get s k = Some l" "sl_status l = Active"
    and i: "queue_get s (el_runId l) = Some i"
    and m: "st \<noteq> Active" "el_leaseId m = el_leaseId l" "el_runId m = el_runId l"
      "sl_attempt m = sl_attempt l" "sl_status m = st"
    and p: "pt_status p = Some (end_status st i)" "pt_attempts p = None" "pt_lastLeaseId p = None"
  shows "sched_inv (queue_set (el_runId l) (apply_patch p now i) (lease_set k m s))" (is "sched_inv ?t")
proof (rule sched_invI)
  note D = sched_invD [OF inv]
  have len: "length (leases_of (lease_set k m s) r) = length (leases_of s r)" for r
    using leases_of_set(2) [OF l(1)] m by simp
  show "distinct (map fst (ms_queue ?t))" "ms_queueOrder ?t = map fst (ms_queue ?t)"
      "distinct (map fst (ms_leases ?t))"
    using D(1,2,3) i l by (simp_all add: sched_keys)
  fix r i' assume i': "queue_get ?t r = Some i'"
  show "item_inv ?t r i'"
  proof (cases "r = el_runId l")
    case True
    have i'': "qi_status i' = end_status st i" "qi_attempts i' = qi_attempts i"
      "qi_maxAttempts i' = qi_maxAttempts i" "qi_runId i' = qi_runId i"
      using i' True p by (auto simp: apply_patch_def)
    have old: "qi_runId i = r" "qi_attempts i \<le> max 0 (qi_maxAttempts i)"
      "qi_attempts i = int (length (leases_of s r))"
      using D(4) [OF i] True by (simp_all add: item_inv_def)
    have "lease_get ?t k = Some m \<and> el_runId m = r" using m True by simp
    then show ?thesis
      unfolding item_inv_def i'' using old m(5) len by (auto simp: end_status_def retry_status_def)
  next
    case False
    with i' have "item_inv s r i'" using D(4) by simp
    with False l m len show ?thesis by (elim item_inv_cong) auto
  qed
next
  note D = sched_invD [OF inv]
  fix k' l' assume l': "lease_get ?t k' = Some l'"
  show "lease_inv ?t k' l'"
  proof (cases "k' = k")
    case True
    with l' D(5) [OF l(1)] i m show ?thesis by (auto simp: lease_inv_def apply_patch_def)
  next
    case False
    with l' have l'': "lease_get s k' = Some l'" by simp
    have "sl_status l' \<noteq> Active" if "el_runId l' = el_runId l"
      using active_unique [OF inv l l''] that False by auto
    with D(5) [OF l''] i show ?thesis by (auto simp: lease_inv_def)
  qed
qed

lemma inv_frame:
  assumes inv: "sched_inv s" and t: "ms_queue t = ms_queue s" "ms_leases t = ms_leases s"
    "ms_queueOrder t = ms_queueOrder s" "ms_leaseSequence s \<le> ms_leaseSequence t"
  shows "sched_inv t"
proof (rule sched_invI)
  note D = sched_invD [OF inv]
  have get: "queue_get t = queue_get s" "lease_get t = lease_get s" "leases_of t = leases_of s"
    by (intro ext; simp add: t queue_get_def lease_get_def leases_of_def)+
  show "item_inv t r i" if "queue_get t r = Some i" for r i
    by (rule item_inv_cong [OF D(4)]) (use that in \<open>simp_all add: get\<close>)
  show "lease_inv t k l" if "lease_get t k = Some l" for k l
    using D(5) that t(4) unfolding lease_inv_def get by (meson order_trans)
qed (use sched_invD(1-3) [OF inv] t in simp_all)

lemma inv_step: "sched_step s t \<Longrightarrow> sched_inv s \<Longrightarrow> sched_inv t"
proof (induction rule: sched_step.induct)
  case (step_tick s n)
  then show ?case by (elim inv_frame) simp_all
next
  case (step_sequence s)
  then show ?case by (elim inv_frame) simp_all
next
  case (step_enqueue s r i)
  note D = sched_invD [OF step_enqueue.prems]
  have new: "r \<notin> set (map fst (ms_queue s))"
    using step_enqueue(1) map_of_is_None [of "ms_queue s" r] by (simp add: queue_get_def)
  have "el_runId l \<noteq> r" if "(k, l) \<in> set (ms_leases s)" for k l
    using that D(2) lease_inv_queued [OF step_enqueue.prems, of k l] step_enqueue(1)
    by (auto simp: lease_get_def)
  then have none: "leases_of s r = []" unfolding leases_of_def filter_empty_conv by force
  show ?case (is "sched_inv ?t")
  proof (rule sched_invI)
    show "item_inv ?t r' i'" if "queue_get ?t r' = Some i'" for r' i'
    proof (cases "r' = r")
      case True
      with that step_enqueue none show ?thesis by (auto simp: item_inv_def)
    next
      case False
      with that have "item_inv s r' i'" using D(4) by simp
      then show ?thesis by (elim item_inv_cong) simp_all
    qed
    show "lease_inv ?t k l" if "lease_get ?t k = Some l" for k l
    proof -
      from that have l: "lease_get s k = Some l" by simp
      with lease_inv_queued [OF step_enqueue.prems l] step_enqueue(1) have "el_runId l \<noteq> r" by auto
      with D(5) [OF l] show ?thesis unfolding lease_inv_def by simp
    qed
  qed (use D new step_enqueue in \<open>simp_all add: sched_keys\<close>)
next
  case (step_exhaust s r i now)
  note D = sched_invD [OF step_exhaust.prems]
  have idle: "sl_status l \<noteq> Active" if "lease_get s k = Some l" "el_runId l = r" for k l
    using lease_inv_active [OF step_exhaust.prems that(1)] that(2) step_exhaust(1,2) by auto
  show ?case (is "sched_inv ?t")
  proof (rule sched_invI)
    show "item_inv ?t r' i'" if "queue_get ?t r' = Some i'" for r' i'
    proof (cases "r' = r")
      case True
      with that D(4) [OF step_exhaust(1)] step_exhaust(3) show ?thesis
        by (auto simp: item_inv_def apply_patch_def)
    next
      case False
      with that have "item_inv s r' i'" using D(4) by simp
      then show ?thesis by (elim item_inv_cong) simp_all
    qed
    show "lease_inv ?t k l" if "lease_get ?t k = Some l" for k l
      using that D(5) [of k l] idle [of k l] unfolding lease_inv_def by auto
  qed (use D step_exhaust in \<open>simp_all add: sched_keys\<close>)
next
  case (step_grant s r i k l now)
  then show ?case using inv_step_grant by blast
next
  case (step_renew s k l now x)
  note D = sched_invD [OF step_renew.prems]
  have len: "length (leases_of (lease_set k (l\<lparr>el_heartbeatAt := Some a, el_expiresAt := b\<rparr>) s) r) =
      length (leases_of s r)" for r a b
    using leases_of_set(2) [OF step_renew(1)] by simp
  show ?case (is "sched_inv ?t")
  proof (rule sched_invI)
    show "item_inv ?t r i" if "queue_get ?t r = Some i" for r i
      by (rule item_inv_cong [OF D(4)]) (use that step_renew(1) len in auto)
    show "lease_inv ?t k' l'" if "lease_get ?t k' = Some l'" for k' l'
    proof (cases "k' = k")
      case True
      with that D(5) [OF step_renew(1)] show ?thesis unfolding lease_inv_def by auto
    next
      case False
      with that D(5) [of k' l'] show ?thesis unfolding lease_inv_def by simp
    qed
  qed (use D step_renew in \<open>simp_all add: sched_keys\<close>)
next
  case (step_end s k l i st m p now)
  then show ?case using inv_step_end by blast
qed

lemma inv_steps: "sched_step\<^sup>*\<^sup>* s t \<Longrightarrow> sched_inv s \<Longrightarrow> sched_inv t"
  by (induction rule: rtranclp_induct) (auto intro: inv_step)

section \<open>What never changes back\<close>

lemma apply_patch_keeps [simp]:
  "qi_runId (apply_patch p now i) = qi_runId i"
  "qi_maxAttempts (apply_patch p now i) = qi_maxAttempts i"
  "qi_leaseDurationMs (apply_patch p now i) = qi_leaseDurationMs i"
  "qi_enqueuedAt (apply_patch p now i) = qi_enqueuedAt i"
  by (simp_all add: apply_patch_def)

text \<open>
  An item keeps its limits, its attempts never decrease, and completed and exhausted are final; a
  lease keeps its identity, and one that is not active never changes again.
\<close>

definition item_le :: "queue_item \<Rightarrow> queue_item \<Rightarrow> bool" where
  "item_le i j \<longleftrightarrow> qi_runId j = qi_runId i \<and> qi_maxAttempts j = qi_maxAttempts i \<and>
     qi_leaseDurationMs j = qi_leaseDurationMs i \<and> qi_enqueuedAt j = qi_enqueuedAt i \<and>
     qi_attempts i \<le> qi_attempts j \<and>
     (qi_status i = Completed \<or> qi_status i = Exhausted \<longrightarrow> j = i)"

definition lease_le :: "lease \<Rightarrow> lease \<Rightarrow> bool" where
  "lease_le l m \<longleftrightarrow> el_leaseId m = el_leaseId l \<and> el_runId m = el_runId l \<and>
     sl_attempt m = sl_attempt l \<and> (sl_status l \<noteq> Active \<longrightarrow> m = l)"

definition sched_le :: "scheduler \<Rightarrow> scheduler \<Rightarrow> bool" where
  "sched_le s t \<longleftrightarrow> prefix (ms_queueOrder s) (ms_queueOrder t) \<and>
     (\<forall>r i. queue_get s r = Some i \<longrightarrow> (\<exists>j. queue_get t r = Some j \<and> item_le i j)) \<and>
     (\<forall>k l. lease_get s k = Some l \<longrightarrow> (\<exists>m. lease_get t k = Some m \<and> lease_le l m))"

lemma le_refl [simp]: "item_le i i" "lease_le l l" "sched_le s s"
  by (simp_all add: item_le_def lease_le_def sched_le_def)

lemma item_le_trans: "item_le i j \<Longrightarrow> item_le j k \<Longrightarrow> item_le i k"
  by (auto simp: item_le_def)

lemma lease_le_trans: "lease_le l m \<Longrightarrow> lease_le m n \<Longrightarrow> lease_le l n"
  by (auto simp: lease_le_def)

lemma sched_le_trans: "sched_le s t \<Longrightarrow> sched_le t u \<Longrightarrow> sched_le s u"
  unfolding sched_le_def by (meson item_le_trans lease_le_trans prefix_order.order_trans)

lemma le_step: "sched_step s t \<Longrightarrow> sched_inv s \<Longrightarrow> sched_le s t"
proof (induction rule: sched_step.induct)
  case (step_grant s r i k l now)
  have "lease_get s k = None" using lease_id_fresh [OF step_grant.prems] step_grant(4) by simp
  with step_grant show ?case by (auto simp: sched_le_def item_le_def apply_patch_def)
next
  case (step_end s k l i st m p now)
  have "qi_status i = Leased"
    using lease_inv_active [OF step_end.prems step_end(1,2,3)] by simp
  with step_end show ?case by (auto simp: sched_le_def item_le_def lease_le_def apply_patch_def)
qed (auto simp: sched_le_def item_le_def lease_le_def apply_patch_def)

lemma le_steps: "sched_step\<^sup>*\<^sup>* s t \<Longrightarrow> sched_inv s \<Longrightarrow> sched_le s t"
proof (induction rule: rtranclp_induct)
  case (step t u)
  then show ?case using le_step [of t u] inv_steps [of s t] sched_le_trans by blast
qed simp

section \<open>Every method is a sequence of transitions\<close>

lemma clock_now_eq [simp]:
  "clock_now e s = (Inr (se_clock e (ms_tick s)), s\<lparr>ms_tick := Suc (ms_tick s)\<rparr>)"
  by (simp add: clock_now_def)

lemma set_tick [simp]:
  "queue_set r i (s\<lparr>ms_tick := n\<rparr>) = queue_set r i s\<lparr>ms_tick := n\<rparr>"
  "lease_set k l (s\<lparr>ms_tick := n\<rparr>) = lease_set k l s\<lparr>ms_tick := n\<rparr>"
  by (simp_all add: queue_set_def lease_set_def)

lemma updateQueueItem_eq:
  "queue_get s r = Some i \<Longrightarrow> updateQueueItem e r p s =
     (let u = apply_patch p (se_clock e (ms_tick s)) i
      in (Inr u, queue_set r u s\<lparr>ms_tick := Suc (ms_tick s)\<rparr>))"
  by (simp add: updateQueueItem_def requireQueueItem_def sx_defs Let_def)

lemma steps_tick: "sched_step\<^sup>*\<^sup>* s t \<Longrightarrow> sched_step\<^sup>*\<^sup>* s (t\<lparr>ms_tick := n\<rparr>)"
  using rtranclp.rtrancl_into_rtrancl step_tick by metis

subsection \<open>Expiry\<close>

definition age :: "sched_env \<Rightarrow> int \<Rightarrow> lease \<Rightarrow> lease" where
  "age e now l = (if sl_status l = Active \<and> \<not> lease_live e now l then l\<lparr>sl_status := Expired\<rparr> else l)"

lemma expire_lease_steps:
  assumes inv: "sched_inv s" and l: "lease_get s (el_leaseId l) = Some l"
  shows "\<exists>t. expire_lease e now l s = (Inr (), t) \<and> sched_step\<^sup>*\<^sup>* s t \<and>
     (\<forall>k. lease_get t k = (if k = el_leaseId l then Some (age e now l) else lease_get s k))"
proof (cases "sl_status l \<noteq> Active \<or> lease_live e now l")
  case True
  then show ?thesis using l by (auto simp: expire_lease_def age_def sx_defs)
next
  case False
  let ?m = "l\<lparr>sl_status := Expired\<rparr>"
  obtain i where i: "queue_get s (el_runId l) = Some i" using lease_inv_queued [OF inv l] ..
  have leased: "qi_status i = Leased" using lease_inv_active [OF inv l _ i] False by simp
  let ?t = "queue_set (el_runId l) (apply_patch (to_status (retry_status i)) (se_clock e (ms_tick s)) i)
      (lease_set (el_leaseId l) ?m s)"
  have "expire_lease e now l s = (Inr (), ?t\<lparr>ms_tick := Suc (ms_tick s)\<rparr>)"
    using False i leased
    by (simp add: expire_lease_def sx_defs Let_def updateQueueItem_eq [where i = i])
  moreover have "sched_step s ?t"
    using step_end [OF l _ i, of Expired ?m "to_status (retry_status i)"] False
    by (simp add: end_status_def)
  then have "sched_step\<^sup>*\<^sup>* s (?t\<lparr>ms_tick := Suc (ms_tick s)\<rparr>)"
    by (intro steps_tick r_into_rtranclp)
  ultimately show ?thesis using False by (auto simp: age_def)
qed

lemma expire_each_steps:
  assumes "sched_inv s" and "distinct (map el_leaseId ls)"
    and "\<forall>l \<in> set ls. lease_get s (el_leaseId l) = Some l"
  shows "\<exists>t. sx_each (expire_lease e now) ls s = (Inr (), t) \<and> sched_step\<^sup>*\<^sup>* s t \<and>
     (\<forall>k. lease_get t k =
        (if k \<in> el_leaseId ` set ls then map_option (age e now) (lease_get s k) else lease_get s k))"
  using assms
proof (induction ls arbitrary: s)
  case Nil
  then show ?case by (simp add: sx_defs)
next
  case (Cons l ls)
  have l: "lease_get s (el_leaseId l) = Some l" using Cons.prems(3) by simp
  from expire_lease_steps [OF Cons.prems(1) l, of e now]
  obtain t where t: "expire_lease e now l s = (Inr (), t)" "sched_step\<^sup>*\<^sup>* s t"
    "\<forall>k. lease_get t k = (if k = el_leaseId l then Some (age e now l) else lease_get s k)"
    by blast
  have new: "el_leaseId l \<notin> el_leaseId ` set ls" "distinct (map el_leaseId ls)"
    using Cons.prems(2) by simp_all
  have rest: "\<forall>l' \<in> set ls. lease_get t (el_leaseId l') = Some l'"
  proof
    fix l' assume l': "l' \<in> set ls"
    then have "el_leaseId l' \<noteq> el_leaseId l" using new(1) by (metis imageI)
    then show "lease_get t (el_leaseId l') = Some l'" using Cons.prems(3) t(3) l' by simp
  qed
  from Cons.IH [OF inv_steps [OF t(2) Cons.prems(1)] new(2) rest]
  obtain u where u: "sx_each (expire_lease e now) ls t = (Inr (), u)" "sched_step\<^sup>*\<^sup>* t u"
    "\<forall>k. lease_get u k = (if k \<in> el_leaseId ` set ls then map_option (age e now) (lease_get t k)
       else lease_get t k)" by blast
  have "\<forall>k. lease_get u k = (if k \<in> el_leaseId ` set (l # ls)
      then map_option (age e now) (lease_get s k) else lease_get s k)"
    using u(3) t(3) l new(1) by simp
  moreover have "sx_each (expire_lease e now) (l # ls) s = (Inr (), u)"
    using t(1) u(1) by (simp add: sx_bind_def)
  ultimately show ?case using t(2) u(2) by (metis rtranclp_trans)
qed

lemma expireLeases_steps:
  assumes inv: "sched_inv s" and now: "parseTimestamp e (se_clock e (ms_tick s)) = Inr now"
  obtains t where "expireLeases e s = (Inr (), t)" and "sched_step\<^sup>*\<^sup>* s t"
    and "\<And>k. lease_get t k = map_option (age e now) (lease_get s k)"
proof -
  let ?s = "s\<lparr>ms_tick := Suc (ms_tick s)\<rparr>" and ?ls = "map snd (ms_leases s)"
  have keys: "map el_leaseId ?ls = map fst (ms_leases s)"
    using sched_invD(2,5) [OF inv] by (auto simp: lease_inv_def lease_get_def)
  have sub: "\<forall>l \<in> set ?ls. lease_get ?s (el_leaseId l) = Some l"
    using sched_invD(2,5) [OF inv] by (auto simp: lease_inv_def lease_get_def)
  have inv': "sched_inv ?s" using inv_step [OF step_tick inv] .
  from expire_each_steps [OF inv' _ sub] obtain t
    where t: "sx_each (expire_lease e now) ?ls ?s = (Inr (), t)" "sched_step\<^sup>*\<^sup>* ?s t"
      "\<forall>k. lease_get t k = (if k \<in> el_leaseId ` set ?ls then map_option (age e now) (lease_get ?s k)
        else lease_get ?s k)"
    using sched_invD(2) [OF inv] unfolding keys by blast
  have "lease_get s k = None" if "k \<notin> el_leaseId ` set ?ls" for k
    using that keys map_of_is_None [of "ms_leases s" k] unfolding lease_get_def by (metis set_map)
  then have "lease_get t k = map_option (age e now) (lease_get s k)" for k using t(3) by auto
  moreover have "expireLeases e s = (Inr (), t)"
    using now t(1) by (simp add: expireLeases_def sx_defs)
  moreover have "sched_step\<^sup>*\<^sup>* s t" using t(2) step_tick by (metis converse_rtranclp_into_rtranclp)
  ultimately show ?thesis using that by blast
qed

lemma expireLeases_throws:
  "parseTimestamp e (se_clock e (ms_tick s)) = Inl x \<Longrightarrow>
   expireLeases e s = (Inl x, s\<lparr>ms_tick := Suc (ms_tick s)\<rparr>)"
  by (simp add: expireLeases_def sx_defs)

end
