(* ===== verification/SchedulerSpec.thy ===== *)
theory SchedulerSpec
  imports SchedulerProofs
begin

text \<open>
  The methods of the in-memory scheduler as sequences of transitions, and what its clients can rely
  on: at most one active lease per run, attempts within their limit, first in first out, and no
  settling of a lease whose time is over.
\<close>

section \<open>Granting a lease\<close>

definition grantable :: "scheduler \<Rightarrow> str \<Rightarrow> bool" where
  "grantable s r \<longleftrightarrow> (\<exists>i. queue_get s r = Some i \<and> qi_status i = Queued \<and>
     qi_attempts i < qi_maxAttempts i)"

definition lease_duration :: "int option \<Rightarrow> queue_item \<Rightarrow> int" where
  "lease_duration dur i = (case dur of None \<Rightarrow> qi_leaseDurationMs i | Some n \<Rightarrow> n)"

text \<open>\<open>l\<close> is a new lease of run \<open>r\<close> for \<open>worker\<close>, granted between \<open>s\<close> and \<open>t\<close>.\<close>

definition granted :: "sched_env \<Rightarrow> str \<Rightarrow> int option \<Rightarrow> scheduler \<Rightarrow> str \<Rightarrow> lease \<Rightarrow> scheduler \<Rightarrow> bool" where
  "granted e worker dur s r l t \<longleftrightarrow> (\<exists>i n. queue_get s r = Some i \<and> el_runId l = r \<and>
     el_workerId l = worker \<and> sl_status l = Active \<and> sl_attempt l = qi_attempts i + 1 \<and>
     el_acquiredAt l = se_clock e n \<and>
     addMilliseconds e (se_clock e n) (lease_duration dur i) = Inr (el_expiresAt l) \<and>
     lease_get s (el_leaseId l) = None \<and> lease_get t (el_leaseId l) = Some l)"

definition out_of_time :: "sched_env \<Rightarrow> int option \<Rightarrow> scheduler \<Rightarrow> str \<Rightarrow> err \<Rightarrow> bool" where
  "out_of_time e dur s r x \<longleftrightarrow> (\<exists>i n. queue_get s r = Some i \<and>
     addMilliseconds e (se_clock e n) (lease_duration dur i) = Inl x)"

lemma set_sequence [simp]:
  "queue_set r i (s\<lparr>ms_leaseSequence := n\<rparr>) = queue_set r i s\<lparr>ms_leaseSequence := n\<rparr>"
  "lease_set k l (s\<lparr>ms_leaseSequence := n\<rparr>) = lease_set k l s\<lparr>ms_leaseSequence := n\<rparr>"
  by (simp_all add: queue_set_def lease_set_def)

lemma grant_lease_steps:
  assumes inv: "sched_inv s" and i: "queue_get s r = Some i" "qi_status i = Queued"
    "qi_attempts i < qi_maxAttempts i"
  shows "\<exists>res t. grant_lease e w dur r i s = (res, t) \<and> sched_step\<^sup>*\<^sup>* s t \<and>
    (case res of Inr l \<Rightarrow> granted e w dur s r l t | Inl x \<Rightarrow> out_of_time e dur s r x)"
proof (cases "addMilliseconds e (se_clock e (ms_tick s)) (lease_duration dur i)")
  case (Inl x)
  let ?t = "s\<lparr>ms_leaseSequence := Suc (ms_leaseSequence s)\<rparr>"
  have "grant_lease e w dur r i s = (Inl x, ?t\<lparr>ms_tick := Suc (ms_tick s)\<rparr>)"
    using Inl by (simp add: grant_lease_def createLeaseId_def sx_defs Let_def lease_duration_def)
  moreover have "sched_step\<^sup>*\<^sup>* s (?t\<lparr>ms_tick := Suc (ms_tick s)\<rparr>)"
    by (intro steps_tick r_into_rtranclp step_sequence)
  ultimately show ?thesis using Inl i by (auto simp: out_of_time_def)
next
  case (Inr x)
  let ?a = "qi_attempts i + 1"
  let ?k = "formatLeaseId r ?a (Suc (ms_leaseSequence s))"
  let ?l = "\<lparr>el_leaseId = ?k, el_runId = r, el_workerId = w, el_acquiredAt = se_clock e (ms_tick s),
      el_expiresAt = x, el_heartbeatAt = None, el_releasedAt = None, sl_status = Active,
      sl_attempt = ?a, sl_result = None, sl_error = None\<rparr>"
  let ?t = "queue_set r (apply_patch \<lparr>pt_status = Some Leased, pt_attempts = Some ?a,
         pt_lastLeaseId = Some ?k, pt_lastError = None\<rparr> (se_clock e (Suc (ms_tick s))) i)
      (lease_set ?k ?l (s\<lparr>ms_leaseSequence := Suc (ms_leaseSequence s)\<rparr>))"
  have "grant_lease e w dur r i s = (Inr ?l, ?t\<lparr>ms_tick := Suc (Suc (ms_tick s))\<rparr>)"
    using Inr i(1)
    by (simp add: grant_lease_def createLeaseId_def sx_defs Let_def lease_duration_def
        updateQueueItem_eq [where i = i])
  moreover have "sched_step s ?t"
    by (rule step_grant [OF i refl]) simp_all
  then have "sched_step\<^sup>*\<^sup>* s (?t\<lparr>ms_tick := Suc (Suc (ms_tick s))\<rparr>)"
    by (intro steps_tick r_into_rtranclp)
  moreover have "granted e w dur s r ?l (?t\<lparr>ms_tick := Suc (Suc (ms_tick s))\<rparr>)"
    using Inr i(1) lease_id_fresh [OF inv] by (auto simp: granted_def)
  ultimately show ?thesis by auto
qed

section \<open>The search for a run\<close>

definition acquired :: "sched_env \<Rightarrow> str \<Rightarrow> int option \<Rightarrow> scheduler \<Rightarrow> str list \<Rightarrow> err + lease option \<Rightarrow>
    scheduler \<Rightarrow> bool" where
  "acquired e w dur s rs res t = (case res of
     Inr None \<Rightarrow> \<forall>r \<in> set rs. \<not> grantable s r
   | Inr (Some l) \<Rightarrow> \<exists>pre r post. rs = pre @ r # post \<and> (\<forall>p \<in> set pre. \<not> grantable s p) \<and>
       grantable s r \<and> granted e w dur s r l t
   | Inl x \<Rightarrow> \<exists>r \<in> set rs. grantable s r \<and> out_of_time e dur s r x)"

lemma acquired_skip:
  assumes "acquired e w dur s' rs res t" and "\<not> grantable s r"
    and "\<And>p. grantable s' p = grantable s p"
    and "\<And>p. grantable s p \<Longrightarrow> queue_get s' p = queue_get s p"
    and "\<And>k. lease_get s' k = lease_get s k"
  shows "acquired e w dur s (r # rs) res t"
proof (cases res)
  case (Inl x)
  with assms(1) obtain q where "q \<in> set rs" "grantable s' q" "out_of_time e dur s' q x"
    by (auto simp: acquired_def)
  then show ?thesis
    using assms(3,4) Inl unfolding acquired_def out_of_time_def by (auto intro!: bexI [of _ q])
next
  case (Inr ol)
  show ?thesis
  proof (cases ol)
    case None
    then show ?thesis using assms Inr by (auto simp: acquired_def)
  next
    case (Some l)
    with assms(1) Inr obtain pre q post where q: "rs = pre @ q # post"
      "\<forall>p \<in> set pre. \<not> grantable s' p" "grantable s' q" "granted e w dur s' q l t"
      by (auto simp: acquired_def)
    have "granted e w dur s q l t" using q(3,4) assms(3-5) by (simp add: granted_def)
    moreover have "r # rs = (r # pre) @ q # post" using q(1) by simp
    moreover have "\<forall>p \<in> set (r # pre). \<not> grantable s p" using q(2) assms(2,3) by simp
    moreover have "grantable s q" using q(3) assms(3) by simp
    ultimately show ?thesis unfolding acquired_def Inr Some sum.case option.case by blast
  qed
qed

lemma hasActiveLease_iff:
  "sched_inv s \<Longrightarrow> hasActiveLease s r \<longleftrightarrow>
     (\<exists>k l. lease_get s k = Some l \<and> el_runId l = r \<and> sl_status l = Active)"
  using sched_invD(2) [of s]
  by (simp add: hasActiveLease_def list_ex_iff lease_get_def) force

lemma queued_not_busy:
  "sched_inv s \<Longrightarrow> queue_get s r = Some i \<Longrightarrow> qi_status i = Queued \<Longrightarrow> \<not> hasActiveLease s r"
  using lease_inv_active hasActiveLease_iff by fastforce

lemma acquire_loop_steps:
  assumes "sched_inv s"
  shows "\<exists>res t. acquire_loop e w dur rs s = (res, t) \<and> sched_step\<^sup>*\<^sup>* s t \<and> acquired e w dur s rs res t"
  using assms
proof (induction rs arbitrary: s)
  case Nil
  then show ?case by (auto simp: sx_defs acquired_def)
next
  case (Cons r rs)
  show ?case
  proof (cases "\<exists>i. queue_get s r = Some i \<and> qi_status i = Queued")
    case False
    then have "acquire_loop e w dur (r # rs) s = acquire_loop e w dur rs s"
      by (auto simp: sx_defs split: option.splits)
    moreover have "\<not> grantable s r" using False by (auto simp: grantable_def)
    ultimately show ?thesis using Cons acquired_skip by metis
  next
    case True
    then obtain i where i: "queue_get s r = Some i" "qi_status i = Queued" by blast
    note free = queued_not_busy [OF Cons.prems i]
    show ?thesis
    proof (cases "qi_maxAttempts i \<le> qi_attempts i")
      case True
      let ?u = "queue_set r (apply_patch (to_status Exhausted) (se_clock e (ms_tick s)) i) s"
      let ?t = "?u\<lparr>ms_tick := Suc (ms_tick s)\<rparr>"
      have step: "sched_step\<^sup>*\<^sup>* s ?t"
        by (intro steps_tick r_into_rtranclp step_exhaust i True)
      have "acquire_loop e w dur (r # rs) s = acquire_loop e w dur rs ?t"
        using i free True by (simp add: sx_defs updateQueueItem_eq Let_def)
      moreover obtain res t where t: "acquire_loop e w dur rs ?t = (res, t)" "sched_step\<^sup>*\<^sup>* ?t t"
        "acquired e w dur ?t rs res t" using Cons.IH [OF inv_steps [OF step Cons.prems]] by blast
      moreover have not: "\<not> grantable s r" using i True by (auto simp: grantable_def)
      moreover have "acquired e w dur s (r # rs) res t"
        by (rule acquired_skip [OF t(3) not]) (use not in \<open>auto simp: grantable_def apply_patch_def\<close>)
      ultimately show ?thesis using step by (metis rtranclp_trans)
    next
      case False
      then have lt: "qi_attempts i < qi_maxAttempts i" by simp
      have g: "grantable s r" using i lt by (auto simp: grantable_def)
      from grant_lease_steps [OF Cons.prems i lt, of e w dur]
      obtain res t where t: "grant_lease e w dur r i s = (res, t)" "sched_step\<^sup>*\<^sup>* s t"
        "case res of Inr l \<Rightarrow> granted e w dur s r l t | Inl x \<Rightarrow> out_of_time e dur s r x" by blast
      have "acquire_loop e w dur (r # rs) s =
          (case res of Inl x \<Rightarrow> Inl x | Inr l \<Rightarrow> Inr (Some l), t)"
        using i free lt t(1) by (auto simp: sx_defs split: sum.splits)
      moreover have "acquired e w dur s (r # rs)
          (case res of Inl x \<Rightarrow> Inl x | Inr l \<Rightarrow> Inr (Some l)) t"
        using t(3) g by (cases res) (auto simp: acquired_def intro: exI [of _ "[]"])
      ultimately show ?thesis using t(2) by blast
    qed
  qed
qed

section \<open>Settling a lease\<close>

text \<open>The common start of \<open>renewLease\<close>, \<open>releaseLease\<close> and \<open>failLease\<close>.\<close>

definition open_lease :: "sched_env \<Rightarrow> str \<Rightarrow> lease sched" where
  "open_lease e k =
     sx_bind (expireLeases e) (\<lambda>_. sx_bind (requireLease k) (\<lambda>l.
     sx_bind (require_active l) (\<lambda>_. sx_return l)))"

lemma settle_open:
  "renewLease e k d = sx_bind (open_lease e k) (\<lambda>lease.
     sx_bind (requireQueueItem (el_runId lease)) (\<lambda>item.
     sx_bind (clock_now e) (\<lambda>now.
     sx_bind (sx_lift (addMilliseconds e now (lease_duration d item))) (\<lambda>x.
     let updated = lease\<lparr>el_heartbeatAt := Some now, el_expiresAt := x\<rparr> in
     sx_bind (sx_modify (lease_set k updated)) (\<lambda>_. sx_return updated)))))"
  "releaseLease e k result = sx_bind (open_lease e k) (\<lambda>lease.
     sx_bind (clock_now e) (\<lambda>now.
     let updated = lease\<lparr>sl_status := Released, el_releasedAt := Some now, sl_result := Some result\<rparr> in
     sx_bind (sx_modify (lease_set k updated)) (\<lambda>_.
     sx_bind (updateQueueItem e (el_runId lease) (to_status Completed)) (\<lambda>_. sx_return updated))))"
  "failLease e k error = sx_bind (open_lease e k) (\<lambda>lease.
     sx_bind (sx_lift (normalizeError error)) (\<lambda>normalizedError.
     sx_bind (clock_now e) (\<lambda>now.
     let updated = lease\<lparr>sl_status := LFailed, el_releasedAt := Some now,
                         sl_error := Some normalizedError\<rparr> in
     sx_bind (sx_modify (lease_set k updated)) (\<lambda>_.
     sx_bind (requireQueueItem (el_runId lease)) (\<lambda>item.
     sx_bind (updateQueueItem e (el_runId lease)
                \<lparr>pt_status = Some (retry_status item), pt_attempts = None, pt_lastLeaseId = None,
                 pt_lastError = Some normalizedError\<rparr>) (\<lambda>_.
     sx_return updated))))))"
  by (simp_all add: renewLease_def releaseLease_def failLease_def open_lease_def sx_bind_assoc
      lease_duration_def)

definition lease_error :: "lease \<Rightarrow> err" where
  "lease_error l = Err (js ''lease_not_active:'' @ lease_status_name (sl_status l))"

lemma open_lease_steps:
  assumes inv: "sched_inv s" and now: "parseTimestamp e (se_clock e (ms_tick s)) = Inr now"
  obtains t where "sched_step\<^sup>*\<^sup>* s t"
    and "lease_get s k = None \<Longrightarrow> open_lease e k s = (Inl (Err (js ''lease_not_found:'' @ k)), t)"
    and "\<And>l. lease_get s k = Some l \<Longrightarrow> \<not> (sl_status l = Active \<and> lease_live e now l) \<Longrightarrow>
      open_lease e k s = (Inl (lease_error (age e now l)), t)"
    and "\<And>l. lease_get s k = Some l \<Longrightarrow> sl_status l = Active \<Longrightarrow> lease_live e now l \<Longrightarrow>
      open_lease e k s = (Inr l, t) \<and> lease_get t k = Some l"
proof -
  from expireLeases_steps [OF assms] obtain t where t: "expireLeases e s = (Inr (), t)"
    "sched_step\<^sup>*\<^sup>* s t" "\<And>k. lease_get t k = map_option (age e now) (lease_get s k)"
    by blast
  show ?thesis
  proof (rule that [OF t(2)])
    show "open_lease e k s = (Inl (lease_error (age e now l)), t)"
      if "lease_get s k = Some l" "\<not> (sl_status l = Active \<and> lease_live e now l)" for l
      using t that by (auto simp: open_lease_def requireLease_def require_active_def sx_defs
          age_def lease_error_def)
  qed (use t in \<open>auto simp: open_lease_def requireLease_def require_active_def sx_defs age_def\<close>)
qed

lemma open_lease_any:
  assumes "sched_inv s" and "open_lease e k s = (res, t)"
  shows "sched_step\<^sup>*\<^sup>* s t" and "res = Inr l \<Longrightarrow> lease_get t k = Some l \<and> sl_status l = Active"
proof -
  have "sched_step\<^sup>*\<^sup>* s t \<and> (res = Inr l \<longrightarrow> lease_get t k = Some l \<and> sl_status l = Active)"
  proof (cases "parseTimestamp e (se_clock e (ms_tick s))")
    case (Inl x)
    then have "open_lease e k s = (Inl x, s\<lparr>ms_tick := Suc (ms_tick s)\<rparr>)"
      by (simp add: open_lease_def sx_bind_def expireLeases_throws)
    with assms(2) show ?thesis using step_tick by auto
  next
    case (Inr now)
    from open_lease_steps [OF assms(1) Inr, of k] obtain u where u: "sched_step\<^sup>*\<^sup>* s u"
      "lease_get s k = None \<Longrightarrow> open_lease e k s = (Inl (Err (js ''lease_not_found:'' @ k)), u)"
      "\<And>l. lease_get s k = Some l \<Longrightarrow> \<not> (sl_status l = Active \<and> lease_live e now l) \<Longrightarrow>
        open_lease e k s = (Inl (lease_error (age e now l)), u)"
      "\<And>l. lease_get s k = Some l \<Longrightarrow> sl_status l = Active \<Longrightarrow> lease_live e now l \<Longrightarrow>
        open_lease e k s = (Inr l, u) \<and> lease_get u k = Some l" by blast
    show ?thesis
    proof (cases "lease_get s k")
      case None
      with u(1,2) assms(2) show ?thesis by simp
    next
      case (Some m)
      show ?thesis
      proof (cases "sl_status m = Active \<and> lease_live e now m")
        case True
        with u(1) u(4) [OF Some] assms(2) show ?thesis by auto
      next
        case False
        with u(1) u(3) [OF Some False] assms(2) show ?thesis by auto
      qed
    qed
  qed
  then show "sched_step\<^sup>*\<^sup>* s t" "res = Inr l \<Longrightarrow> lease_get t k = Some l \<and> sl_status l = Active" by auto
qed

text \<open>What each of the three does to the lease it opened.\<close>

lemma release_after:
  assumes "sched_inv t" and l: "lease_get t k = Some l" "sl_status l = Active"
    and o: "open_lease e k s = (Inr l, t)"
  shows "\<exists>m u i. releaseLease e k result s = (Inr m, u) \<and> sched_step\<^sup>*\<^sup>* t u \<and> sl_status m = Released \<and>
    sl_result m = Some result \<and> lease_get u k = Some m \<and> queue_get u (el_runId l) = Some i \<and>
    qi_status i = Completed"
proof -
  obtain i where i: "queue_get t (el_runId l) = Some i" using lease_inv_queued [OF assms(1) l(1)] ..
  let ?m = "l\<lparr>sl_status := Released, el_releasedAt := Some (se_clock e (ms_tick t)), sl_result := Some result\<rparr>"
  let ?u = "queue_set (el_runId l) (apply_patch (to_status Completed) (se_clock e (Suc (ms_tick t))) i)
      (lease_set k ?m t)"
  have "releaseLease e k result s = (Inr ?m, ?u\<lparr>ms_tick := Suc (Suc (ms_tick t))\<rparr>)"
    using o i by (simp add: settle_open sx_defs Let_def updateQueueItem_eq [where i = i])
  moreover have "sched_step t ?u"
    using step_end [OF l i, of Released ?m "to_status Completed"] by (simp add: end_status_def)
  then have "sched_step\<^sup>*\<^sup>* t (?u\<lparr>ms_tick := Suc (Suc (ms_tick t))\<rparr>)" by (intro steps_tick r_into_rtranclp)
  ultimately show ?thesis by (fastforce simp: apply_patch_def)
qed

lemma fail_after:
  assumes "sched_inv t" and l: "lease_get t k = Some l" "sl_status l = Active"
    and o: "open_lease e k s = (Inr l, t)" and error: "normalizeError error = Inr x"
  shows "\<exists>m u i. failLease e k error s = (Inr m, u) \<and> sched_step\<^sup>*\<^sup>* t u \<and> sl_status m = LFailed \<and>
    sl_error m = Some x \<and> lease_get u k = Some m \<and> queue_get u (el_runId l) = Some i \<and>
    qi_status i = (if qi_attempts i < qi_maxAttempts i then Queued else Exhausted) \<and>
    qi_lastError i = Some x"
proof -
  obtain i where i: "queue_get t (el_runId l) = Some i" using lease_inv_queued [OF assms(1) l(1)] ..
  let ?m = "l\<lparr>sl_status := LFailed, el_releasedAt := Some (se_clock e (ms_tick t)), sl_error := Some x\<rparr>"
  let ?p = "\<lparr>pt_status = Some (retry_status i), pt_attempts = None, pt_lastLeaseId = None,
      pt_lastError = Some x\<rparr>"
  let ?u = "queue_set (el_runId l) (apply_patch ?p (se_clock e (Suc (ms_tick t))) i) (lease_set k ?m t)"
  have "failLease e k error s = (Inr ?m, ?u\<lparr>ms_tick := Suc (Suc (ms_tick t))\<rparr>)"
    using o i error
    by (simp add: settle_open sx_defs Let_def requireQueueItem_def updateQueueItem_eq [where i = i])
  moreover have "sched_step t ?u"
    using step_end [OF l i, of LFailed ?m ?p] by (simp add: end_status_def)
  then have "sched_step\<^sup>*\<^sup>* t (?u\<lparr>ms_tick := Suc (Suc (ms_tick t))\<rparr>)" by (intro steps_tick r_into_rtranclp)
  ultimately show ?thesis by (fastforce simp: apply_patch_def retry_status_def)
qed

lemma renew_after:
  assumes "sched_inv t" and l: "lease_get t k = Some l" "sl_status l = Active"
    and o: "open_lease e k s = (Inr l, t)"
  shows "\<exists>res u. renewLease e k d s = (res, u) \<and> sched_step\<^sup>*\<^sup>* t u"
proof -
  obtain i where i: "queue_get t (el_runId l) = Some i" using lease_inv_queued [OF assms(1) l(1)] ..
  let ?now = "se_clock e (ms_tick t)"
  show ?thesis
  proof (cases "addMilliseconds e ?now (lease_duration d i)")
    case (Inl x)
    then have "renewLease e k d s = (Inl x, t\<lparr>ms_tick := Suc (ms_tick t)\<rparr>)"
      using o i by (simp add: settle_open sx_defs requireQueueItem_def)
    then show ?thesis using step_tick by blast
  next
    case (Inr x)
    let ?u = "lease_set k (l\<lparr>el_heartbeatAt := Some ?now, el_expiresAt := x\<rparr>) t"
    have "renewLease e k d s = (Inr (l\<lparr>el_heartbeatAt := Some ?now, el_expiresAt := x\<rparr>),
        ?u\<lparr>ms_tick := Suc (ms_tick t)\<rparr>)"
      using o i Inr by (simp add: settle_open sx_defs requireQueueItem_def Let_def)
    moreover have "sched_step\<^sup>*\<^sup>* t (?u\<lparr>ms_tick := Suc (ms_tick t)\<rparr>)"
      by (intro steps_tick r_into_rtranclp step_renew l)
    ultimately show ?thesis by blast
  qed
qed

section \<open>Sequences of calls\<close>

datatype sched_call =
    CEnqueue str "int option" "int option"
  | CAcquire str "int option"
  | CRenew str "int option"
  | CRelease str jrecord
  | CFail str js_unknown
  | CListQueue
  | CListLeases

text \<open>The state a call leaves behind, whether it returns or throws.\<close>

fun call_state :: "sched_env \<Rightarrow> sched_call \<Rightarrow> scheduler \<Rightarrow> scheduler" where
  "call_state e (CEnqueue r m d) s = snd (enqueueRun e r m d s)"
| "call_state e (CAcquire w d) s = snd (acquireLease e w d s)"
| "call_state e (CRenew k d) s = snd (renewLease e k d s)"
| "call_state e (CRelease k x) s = snd (releaseLease e k x s)"
| "call_state e (CFail k x) s = snd (failLease e k x s)"
| "call_state e CListQueue s = snd (listQueue e s)"
| "call_state e CListLeases s = snd (listLeases e s)"

definition calls_state :: "sched_env \<Rightarrow> sched_call list \<Rightarrow> scheduler \<Rightarrow> scheduler" where
  "calls_state e cs s = fold (call_state e) cs s"

lemma expireLeases_any:
  assumes "sched_inv s" shows "sched_step\<^sup>*\<^sup>* s (snd (expireLeases e s))"
proof (cases "parseTimestamp e (se_clock e (ms_tick s))")
  case (Inl x)
  then show ?thesis using expireLeases_throws [OF Inl] step_tick by (metis r_into_rtranclp snd_conv)
next
  case (Inr now)
  from expireLeases_steps [OF assms Inr] show ?thesis by (metis snd_conv)
qed

lemma after_expiry:
  assumes inv: "sched_inv s"
    and m: "\<And>t. expireLeases e s = (Inr (), t) \<Longrightarrow> sched_inv t \<Longrightarrow> sched_step\<^sup>*\<^sup>* t (snd (m t))"
  shows "sched_step\<^sup>*\<^sup>* s (snd (sx_bind (expireLeases e) (\<lambda>_. m) s))"
proof (cases "expireLeases e s")
  case (Pair r t)
  have st: "sched_step\<^sup>*\<^sup>* s t" using expireLeases_any [OF inv, of e] Pair by simp
  show ?thesis
  proof (cases r)
    case (Inl x)
    then show ?thesis using st Pair by (simp add: sx_bind_def)
  next
    case (Inr u)
    then show ?thesis using st Pair m [of t] inv_steps [OF st inv] by (simp add: sx_bind_def)
  qed
qed

lemma settle_any:
  assumes inv: "sched_inv s"
    and m: "\<And>l t. sched_inv t \<Longrightarrow> lease_get t k = Some l \<Longrightarrow> sl_status l = Active \<Longrightarrow>
      open_lease e k s = (Inr l, t) \<Longrightarrow> sched_step\<^sup>*\<^sup>* t (snd (m l t))"
  shows "sched_step\<^sup>*\<^sup>* s (snd (sx_bind (open_lease e k) m s))"
proof (cases "open_lease e k s")
  case (Pair r t)
  note st = open_lease_any(1) [OF inv Pair]
  show ?thesis
  proof (cases r)
    case (Inl x)
    then show ?thesis using st Pair by (simp add: sx_bind_def)
  next
    case (Inr l)
    then show ?thesis
      using st Pair m [OF inv_steps [OF st inv]] open_lease_any(2) [OF inv Pair Inr]
      by (simp add: sx_bind_def)
  qed
qed

lemma enqueue_steps: "sched_inv s \<Longrightarrow> sched_step\<^sup>*\<^sup>* s (snd (enqueueRun e r m d s))"
proof (cases "queue_get s r")
  case None
  let ?i = "\<lparr>qi_runId = r, qi_status = Queued, qi_attempts = 0,
      qi_maxAttempts = (case m of None \<Rightarrow> se_defaultMaxAttempts e | Some n \<Rightarrow> n),
      qi_leaseDurationMs = (case d of None \<Rightarrow> se_defaultLeaseDurationMs e | Some n \<Rightarrow> n),
      qi_enqueuedAt = se_clock e (ms_tick s), qi_updatedAt = se_clock e (ms_tick s),
      qi_lastLeaseId = None, qi_lastError = None\<rparr>"
  let ?t = "queue_set r ?i s\<lparr>ms_queueOrder := ms_queueOrder s @ [r]\<rparr>"
  have "snd (enqueueRun e r m d s) = ?t\<lparr>ms_tick := Suc (ms_tick s)\<rparr>"
    using None by (simp add: enqueueRun_def sx_defs Let_def)
  moreover have "sched_step\<^sup>*\<^sup>* s (?t\<lparr>ms_tick := Suc (ms_tick s)\<rparr>)"
    by (intro steps_tick r_into_rtranclp, rule step_enqueue [OF None]) simp_all
  ultimately show ?thesis by simp
next
  case (Some i)
  then show ?thesis by (simp add: enqueueRun_def sx_defs)
qed

lemma call_steps:
  assumes "sched_inv s" shows "sched_step\<^sup>*\<^sup>* s (call_state e c s)"
proof (cases c)
  case (CEnqueue r m d)
  then show ?thesis using enqueue_steps [OF assms] by simp
next
  case (CAcquire w d)
  have "sched_step\<^sup>*\<^sup>* s (snd (acquireLease e w d s))"
    unfolding acquireLease_def
  proof (rule after_expiry [OF assms])
    fix t assume "sched_inv t"
    from acquire_loop_steps [OF this, of e w d "ms_queueOrder t"]
    show "sched_step\<^sup>*\<^sup>* t (snd (sx_bind (sx_gets ms_queueOrder) (acquire_loop e w d) t))"
      by (auto simp: sx_bind_def sx_gets_def)
  qed
  then show ?thesis using CAcquire by simp
next
  case (CRenew k d)
  have "sched_step\<^sup>*\<^sup>* s (snd (renewLease e k d s))"
    unfolding settle_open
  proof (rule settle_any [OF assms])
    fix l t assume a: "sched_inv t" "lease_get t k = Some l" "sl_status l = Active"
      "open_lease e k s = (Inr l, t)"
    from renew_after [OF a, of d] a(4)
    show "sched_step\<^sup>*\<^sup>* t (snd (sx_bind (requireQueueItem (el_runId l)) (\<lambda>item.
      sx_bind (clock_now e) (\<lambda>now. sx_bind (sx_lift (addMilliseconds e now (lease_duration d item)))
      (\<lambda>x. let updated = l\<lparr>el_heartbeatAt := Some now, el_expiresAt := x\<rparr> in
        sx_bind (sx_modify (lease_set k updated)) (\<lambda>_. sx_return updated)))) t))"
      unfolding settle_open by (auto simp: sx_bind_def [of "open_lease e k"])
  qed
  then show ?thesis using CRenew by simp
next
  case (CRelease k x)
  have "sched_step\<^sup>*\<^sup>* s (snd (releaseLease e k x s))"
    unfolding settle_open
  proof (rule settle_any [OF assms])
    fix l t assume a: "sched_inv t" "lease_get t k = Some l" "sl_status l = Active"
      "open_lease e k s = (Inr l, t)"
    from release_after [OF a, of x] a(4)
    show "sched_step\<^sup>*\<^sup>* t (snd (sx_bind (clock_now e) (\<lambda>now.
      let updated = l\<lparr>sl_status := Released, el_releasedAt := Some now, sl_result := Some x\<rparr> in
      sx_bind (sx_modify (lease_set k updated)) (\<lambda>_.
      sx_bind (updateQueueItem e (el_runId l) (to_status Completed)) (\<lambda>_. sx_return updated))) t))"
      unfolding settle_open by (auto simp: sx_bind_def [of "open_lease e k"])
  qed
  then show ?thesis using CRelease by simp
next
  case (CFail k x)
  have "sched_step\<^sup>*\<^sup>* s (snd (failLease e k x s))"
    unfolding settle_open
  proof (rule settle_any [OF assms], cases "normalizeError x")
    case (Inl y)
    then show "sched_step\<^sup>*\<^sup>* t (snd (sx_bind (sx_lift (normalizeError x)) f t))" for t f
      by (simp add: sx_bind_def sx_lift_def)
  next
    fix l t y assume a: "sched_inv t" "lease_get t k = Some l" "sl_status l = Active"
      "open_lease e k s = (Inr l, t)" and y: "normalizeError x = Inr y"
    from fail_after [OF a y] a(4)
    show "sched_step\<^sup>*\<^sup>* t (snd (sx_bind (sx_lift (normalizeError x)) (\<lambda>normalizedError.
     sx_bind (clock_now e) (\<lambda>now.
     let updated = l\<lparr>sl_status := LFailed, el_releasedAt := Some now,
                         sl_error := Some normalizedError\<rparr> in
     sx_bind (sx_modify (lease_set k updated)) (\<lambda>_.
     sx_bind (requireQueueItem (el_runId l)) (\<lambda>item.
     sx_bind (updateQueueItem e (el_runId l)
                \<lparr>pt_status = Some (retry_status item), pt_attempts = None, pt_lastLeaseId = None,
                 pt_lastError = Some normalizedError\<rparr>) (\<lambda>_.
     sx_return updated))))) t))"
      unfolding settle_open by (auto simp: sx_bind_def [of "open_lease e k"])
  qed
  then show ?thesis using CFail by simp
next
  case CListQueue
  have "sched_step\<^sup>*\<^sup>* s (snd (listQueue e s))"
    unfolding listQueue_def by (rule after_expiry [OF assms]) (simp add: sx_gets_def)
  then show ?thesis using CListQueue by simp
next
  case CListLeases
  have "sched_step\<^sup>*\<^sup>* s (snd (listLeases e s))"
    unfolding listLeases_def by (rule after_expiry [OF assms]) (simp add: sx_gets_def)
  then show ?thesis using CListLeases by simp
qed

lemma calls_steps: "sched_inv s \<Longrightarrow> sched_step\<^sup>*\<^sup>* s (calls_state e cs s)"
proof (induction cs arbitrary: s)
  case (Cons c cs)
  note st = call_steps [OF Cons.prems, of e c]
  from Cons.IH [OF inv_steps [OF st Cons.prems]] st show ?case
    unfolding calls_state_def by (simp add: rtranclp_trans)
qed (simp add: calls_state_def)

abbreviation after :: "sched_env \<Rightarrow> sched_call list \<Rightarrow> scheduler" where
  "after e cs \<equiv> calls_state e cs (new_scheduler 0)"

lemma after_inv: "sched_inv (after e cs)"
  by (rule inv_steps [OF calls_steps [OF sched_inv_new] sched_inv_new])

section \<open>What a client can rely on\<close>

text \<open>
  C3: At most one worker holds a run. After any sequence of calls, returning or throwing, two active
  leases of the same run are the same lease, and the run's queue item is leased to exactly that
  lease, at that attempt.
\<close>

theorem one_active_lease_per_run:
  assumes "lease_get (after e cs) k = Some l" and "sl_status l = Active"
    and "lease_get (after e cs) k' = Some l'" and "sl_status l' = Active" and "el_runId l = el_runId l'"
  shows "k = k' \<and> (\<exists>i. queue_get (after e cs) (el_runId l) = Some i \<and> qi_status i = Leased \<and>
    qi_lastLeaseId i = Some k \<and> qi_attempts i = sl_attempt l)"
proof -
  obtain i where "queue_get (after e cs) (el_runId l) = Some i"
    using lease_inv_queued [OF after_inv assms(1)] ..
  with lease_inv_active [OF after_inv assms(1,2)] active_unique [OF after_inv assms] show ?thesis by auto
qed

text \<open>
  Attempts are counted and bounded. After any sequence of calls the attempts of a queue item are
  the number of leases ever granted for its run, they never exceed the item's limit, the item is
  leased exactly while one of these leases is active, and it is completed only if one was released.
\<close>

theorem attempts_bounded:
  assumes "queue_get (after e cs) r = Some i"
  shows "qi_attempts i = int (length (leases_of (after e cs) r)) \<and>
    qi_attempts i \<le> max 0 (qi_maxAttempts i) \<and>
    (qi_status i = Leased \<longleftrightarrow> hasActiveLease (after e cs) r) \<and>
    (qi_status i = Completed \<longrightarrow>
       (\<exists>k l. lease_get (after e cs) k = Some l \<and> el_runId l = r \<and> sl_status l = Released))"
proof -
  have inv: "item_inv (after e cs) r i" using sched_invD(4) [OF after_inv assms] .
  have "hasActiveLease (after e cs) r" if "qi_status i = Leased"
    using inv that hasActiveLease_iff [OF after_inv] unfolding item_inv_def by blast
  moreover have "qi_status i = Leased" if "hasActiveLease (after e cs) r"
  proof -
    from that obtain k l where "lease_get (after e cs) k = Some l" "el_runId l = r" "sl_status l = Active"
      using hasActiveLease_iff [OF after_inv] by blast
    with lease_inv_active [OF after_inv, of e cs k l i] assms show ?thesis by simp
  qed
  ultimately show ?thesis using inv unfolding item_inv_def by blast
qed

text \<open>
  What ended stays ended. Whatever is called later, a completed or exhausted item and a released,
  failed or expired lease stay exactly as they are, so a finished run is never leased again; the
  order of the queue is only ever extended at its end and attempts never decrease.
\<close>

theorem ended_is_final:
  assumes "queue_get (after e cs) r = Some i"
  shows "\<exists>j. queue_get (after e (cs @ ds)) r = Some j \<and> qi_attempts i \<le> qi_attempts j \<and>
    qi_maxAttempts j = qi_maxAttempts i \<and>
    (qi_status i = Completed \<or> qi_status i = Exhausted \<longrightarrow> j = i) \<and>
    prefix (ms_queueOrder (after e cs)) (ms_queueOrder (after e (cs @ ds))) \<and>
    (\<forall>k l. lease_get (after e cs) k = Some l \<and> sl_status l \<noteq> Active \<longrightarrow>
       lease_get (after e (cs @ ds)) k = Some l)"
proof -
  have "after e (cs @ ds) = calls_state e ds (after e cs)" by (simp add: calls_state_def)
  then have le: "sched_le (after e cs) (after e (cs @ ds))"
    using le_steps [OF calls_steps [OF after_inv] after_inv] by simp
  then have "\<forall>k l. lease_get (after e cs) k = Some l \<and> sl_status l \<noteq> Active \<longrightarrow>
       lease_get (after e (cs @ ds)) k = Some l"
    unfolding sched_le_def lease_le_def by metis
  with le assms show ?thesis unfolding sched_le_def item_le_def by blast
qed

lemma acquire_spec:
  assumes inv: "sched_inv s" and u: "expireLeases e s = (Inr (), u)"
  shows "sched_inv u \<and> (\<exists>res t. acquireLease e w d s = (res, t) \<and>
    acquired e w d u (map fst (ms_queue u)) res t)"
proof -
  have inv_u: "sched_inv u"
    using inv_steps [OF expireLeases_any [OF inv, of e] inv] u by simp
  then have "ms_queueOrder u = map fst (ms_queue u)" by (rule sched_invD(3))
  with inv_u u acquire_loop_steps [OF inv_u, of e w d "ms_queueOrder u"] show ?thesis
    by (auto simp: acquireLease_def sx_bind_def sx_gets_def)
qed

lemma added_time:
  "addMilliseconds e now d = Inr x \<Longrightarrow> \<exists>t. se_date e now = Some t \<and> se_date e x = Some (t + d)"
  by (auto simp: addMilliseconds_def parseTimestamp_def bind_res_Inr Date_parse_toISOString
      split: option.splits)

text \<open>
  C36: Leases are granted first in, first out. When \<open>acquireLease\<close> returns a lease, its run is the
  first of the queue, in order of enqueuing, that is queued with attempts left once the expired
  leases are taken back; the lease is new, active, stored, and expires exactly its duration after it
  was acquired. When it returns nothing, no run of the queue can be leased.
\<close>

theorem acquire_fifo:
  assumes "acquireLease e w d (after e cs) = (Inr res, t)"
  shows "\<exists>u. expireLeases e (after e cs) = (Inr (), u) \<and> (case res of
     None \<Rightarrow> \<forall>r. \<not> grantable u r
   | Some l \<Rightarrow> \<exists>pre post i now. map fst (ms_queue u) = pre @ el_runId l # post \<and>
       (\<forall>p \<in> set pre. \<not> grantable u p) \<and> grantable u (el_runId l) \<and>
       queue_get u (el_runId l) = Some i \<and> sl_attempt l = qi_attempts i + 1 \<and>
       el_workerId l = w \<and> sl_status l = Active \<and> lease_get u (el_leaseId l) = None \<and>
       lease_get t (el_leaseId l) = Some l \<and> se_date e (el_acquiredAt l) = Some now \<and>
       se_date e (el_expiresAt l) = Some (now + lease_duration d i))"
proof -
  from assms obtain u where u: "expireLeases e (after e cs) = (Inr (), u)"
    by (auto simp: acquireLease_def sx_bind_def split: prod.splits sum.splits)
  have inv: "sched_inv u" and acq: "acquired e w d u (map fst (ms_queue u)) (Inr res) t"
    using acquire_spec [OF after_inv u, of w d] assms by auto
  show ?thesis
  proof (cases res)
    case None
    have "\<not> grantable u r" for r
    proof (cases "r \<in> set (map fst (ms_queue u))")
      case False
      then show ?thesis using map_of_is_None [of "ms_queue u" r] by (simp add: grantable_def queue_get_def)
    qed (use acq None in \<open>auto simp: acquired_def\<close>)
    then show ?thesis using u None by auto
  next
    case (Some l)
    with acq obtain pre r post where r: "map fst (ms_queue u) = pre @ r # post"
      "\<forall>p \<in> set pre. \<not> grantable u p" "grantable u r" "granted e w d u r l t"
      by (auto simp: acquired_def)
    from r(4) obtain i n where i: "queue_get u r = Some i" "el_runId l = r" "el_workerId l = w"
      "sl_status l = Active" "sl_attempt l = qi_attempts i + 1" "el_acquiredAt l = se_clock e n"
      "addMilliseconds e (se_clock e n) (lease_duration d i) = Inr (el_expiresAt l)"
      "lease_get u (el_leaseId l) = None" "lease_get t (el_leaseId l) = Some l"
      unfolding granted_def by blast
    from added_time [OF i(7)] obtain now where "se_date e (el_acquiredAt l) = Some now"
      "se_date e (el_expiresAt l) = Some (now + lease_duration d i)" using i(6) by auto
    with u r i show ?thesis unfolding Some option.case by blast
  qed
qed

text \<open>
  C37: A waiting run is served. If the clock always shows a time to which the requested duration can
  be added, and some run is queued with attempts left once the expired leases are taken back, then
  \<open>acquireLease\<close> returns a lease.
\<close>

theorem acquire_progress:
  assumes clock: "\<And>n. \<exists>t. se_date e (se_clock e n) = Some t \<and> \<bar>t + d\<bar> \<le> max_time"
    and u: "expireLeases e (after e cs) = (Inr (), u)" and g: "grantable u r"
  shows "\<exists>l t. acquireLease e w (Some d) (after e cs) = (Inr (Some l), t)"
proof -
  obtain res t where a: "acquireLease e w (Some d) (after e cs) = (res, t)"
    "acquired e w (Some d) u (map fst (ms_queue u)) res t"
    using acquire_spec [OF after_inv u] by blast
  have "isOk (addMilliseconds e (se_clock e n) d)" for n
    using clock [of n] by (auto simp: addMilliseconds_def parseTimestamp_def toISOString_def)
  then have no: "\<not> out_of_time e (Some d) u q x" for q x
    by (auto simp: out_of_time_def lease_duration_def) (metis isOk_simps(1))
  have "r \<in> set (map fst (ms_queue u))"
    using g map_of_is_None [of "ms_queue u" r] by (auto simp: grantable_def queue_get_def)
  with a(2) g no have "\<exists>l. res = Inr (Some l)"
    by (auto simp: acquired_def split: sum.splits option.splits)
  with a(1) show ?thesis by blast
qed

text \<open>
  C38: A lease whose time is over is lost. If the clock reads \<open>now\<close> when the method starts and the
  lease is not active, or its expiry is not after \<open>now\<close>, then renewing, releasing and failing it all
  throw \<open>lease_not_active\<close> with the status it has by then, \<open>expired\<close> for an active one.
\<close>

theorem expired_lease_is_lost:
  assumes "parseTimestamp e (se_clock e (ms_tick (after e cs))) = Inr now"
    and "lease_get (after e cs) k = Some l" and "\<not> (sl_status l = Active \<and> lease_live e now l)"
  shows "fst (renewLease e k d (after e cs)) = Inl (lease_error (age e now l)) \<and>
    fst (releaseLease e k result (after e cs)) = Inl (lease_error (age e now l)) \<and>
    fst (failLease e k error (after e cs)) = Inl (lease_error (age e now l)) \<and>
    (sl_status l = Active \<longrightarrow> lease_error (age e now l) = Err (js ''lease_not_active:expired''))"
proof -
  from open_lease_steps [OF after_inv assms(1), of k] obtain t where
    "open_lease e k (after e cs) = (Inl (lease_error (age e now l)), t)" using assms(2,3) by metis
  moreover have "lease_error (age e now l) = Err (js ''lease_not_active:expired'')"
    if "sl_status l = Active"
    using that assms(3) by (simp add: lease_error_def age_def lease_status_name_def flip: js_append)
  ultimately show ?thesis by (simp add: settle_open sx_bind_def)
qed

text \<open>
  A worker that is in time settles its lease. Releasing an active lease that has not expired
  stores it as released with its result and completes the run; failing it stores the error and puts
  the run back in the queue exactly when attempts are left, else the run is exhausted.
\<close>

theorem live_lease_settles:
  assumes "parseTimestamp e (se_clock e (ms_tick (after e cs))) = Inr now"
    and "lease_get (after e cs) k = Some l" and "sl_status l = Active" and "lease_live e now l"
    and "normalizeError error = Inr x"
  shows "(\<exists>m t i. releaseLease e k result (after e cs) = (Inr m, t) \<and> lease_get t k = Some m \<and>
       sl_status m = Released \<and> sl_result m = Some result \<and>
       queue_get t (el_runId l) = Some i \<and> qi_status i = Completed) \<and>
    (\<exists>m t i. failLease e k error (after e cs) = (Inr m, t) \<and> lease_get t k = Some m \<and>
       sl_status m = LFailed \<and> sl_error m = Some x \<and> queue_get t (el_runId l) = Some i \<and>
       qi_status i = (if qi_attempts i < qi_maxAttempts i then Queued else Exhausted) \<and>
       qi_lastError i = Some x)"
proof -
  from open_lease_steps [OF after_inv assms(1), of k] obtain t where
    o: "open_lease e k (after e cs) = (Inr l, t)" and t: "lease_get t k = Some l"
    using assms(2-4) by metis
  have inv: "sched_inv t" using inv_steps [OF open_lease_any(1) [OF after_inv o] after_inv] .
  from release_after [OF inv t assms(3) o, of result] fail_after [OF inv t assms(3) o assms(5)]
  show ?thesis by blast
qed

section \<open>A concrete run\<close>

text \<open>A clock that stands at the epoch; one run is enqueued and leased.\<close>

definition epoch :: str where
  "epoch = js ''1970-01-01T00:00:00.000Z''"

definition sample_env :: sched_env where
  "sample_env = \<lparr>se_clock = (\<lambda>_. epoch), se_parse = (\<lambda>_. None),
     se_defaultLeaseDurationMs = 60000, se_defaultMaxAttempts = 2\<rparr>"

definition sample_calls :: "int \<Rightarrow> sched_call list" where
  "sample_calls d = [CEnqueue (js ''r'') None None, CAcquire (js ''w'') (Some d)]"

definition sample_id :: str where
  "sample_id = js ''lease_r_001_0001''"

definition sample_item :: queue_item where
  "sample_item = \<lparr>qi_runId = js ''r'', qi_status = Leased, qi_attempts = 1, qi_maxAttempts = 2,
     qi_leaseDurationMs = 60000, qi_enqueuedAt = epoch, qi_updatedAt = epoch,
     qi_lastLeaseId = Some sample_id, qi_lastError = None\<rparr>"

definition sample_lease :: "str \<Rightarrow> lease" where
  "sample_lease x = \<lparr>el_leaseId = sample_id, el_runId = js ''r'', el_workerId = js ''w'',
     el_acquiredAt = epoch, el_expiresAt = x, el_heartbeatAt = None, el_releasedAt = None,
     sl_status = Active, sl_attempt = 1, sl_result = None, sl_error = None\<rparr>"

definition sample_state :: "str \<Rightarrow> scheduler" where
  "sample_state x = \<lparr>ms_queue = [(js ''r'', sample_item)], ms_queueOrder = [js ''r''],
     ms_leases = [(sample_id, sample_lease x)], ms_leaseSequence = 1, ms_tick = 4\<rparr>"

lemma epoch_iso: "toISOString 0 = Inr epoch" by code_simp

lemma later_iso: "toISOString 1000 = Inr (js ''1970-01-01T00:00:01.000Z'')" by code_simp

lemma epoch_date [simp]: "se_date sample_env epoch = Some 0"
  by (rule Date_parse_toISOString [OF epoch_iso])

lemma sample_time [simp]: "parseTimestamp sample_env epoch = Inr 0"
  by (simp add: parseTimestamp_def)

lemma sample_clock [simp]: "se_clock sample_env n = epoch"
  by (simp add: sample_env_def)

lemma sample_expire: "expireLeases sample_env (snd (enqueueRun sample_env (js ''r'') None None (new_scheduler 0))) =
  (Inr (), (snd (enqueueRun sample_env (js ''r'') None None (new_scheduler 0)))\<lparr>ms_tick := 2\<rparr>)"
  by (simp add: enqueueRun_def new_scheduler_def queue_get_def queue_set_def sx_defs expireLeases_def Let_def)

lemma sample_lease_id: "formatLeaseId (js ''r'') 1 (Suc 0) = sample_id" by code_simp

lemma sample_after:
  assumes "toISOString d = Inr x"
  shows "after sample_env (sample_calls d) = sample_state x"
proof -
  have "addMilliseconds sample_env epoch d = Inr x"
    using assms by (simp add: addMilliseconds_def)
  then show ?thesis
    by (simp add: calls_state_def sample_calls_def acquireLease_def sx_bind_def [of "expireLeases sample_env"]
      sample_expire)
     (simp add: enqueueRun_def new_scheduler_def queue_get_def queue_set_def sx_defs Let_def
       grant_lease_def createLeaseId_def hasActiveLease_def updateQueueItem_def requireQueueItem_def
       lease_set_def sample_lease_id sample_state_def sample_item_def sample_lease_def apply_patch_def
       sample_env_def)
qed

lemma sample_get [simp]:
  "lease_get (sample_state x) sample_id = Some (sample_lease x)"
  "queue_get (sample_state x) (js ''r'') = Some sample_item"
  by (simp_all add: sample_state_def lease_get_def queue_get_def)

lemmas sample_later = sample_after [OF later_iso] and sample_now = sample_after [OF epoch_iso]

theorem one_active_lease_per_run_witness:
  "\<exists>i. queue_get (after sample_env (sample_calls 1000)) (js ''r'') = Some i \<and> qi_status i = Leased \<and>
     qi_lastLeaseId i = Some sample_id"
proof -
  let ?l = "sample_lease (js ''1970-01-01T00:00:01.000Z'')"
  have l: "lease_get (after sample_env (sample_calls 1000)) sample_id = Some ?l" "sl_status ?l = Active"
    unfolding sample_later by (simp_all add: sample_lease_def)
  from one_active_lease_per_run [OF l l refl] show ?thesis by (auto simp: sample_lease_def)
qed

theorem attempts_bounded_witness:
  "qi_attempts sample_item = int (length (leases_of (after sample_env (sample_calls 1000)) (js ''r''))) \<and>
   hasActiveLease (after sample_env (sample_calls 1000)) (js ''r'')"
proof -
  have "queue_get (after sample_env (sample_calls 1000)) (js ''r'') = Some sample_item"
    unfolding sample_later by simp
  from attempts_bounded [OF this] show ?thesis by (simp add: sample_item_def)
qed

theorem ended_is_final_witness:
  "\<exists>j. queue_get (after sample_env (sample_calls 1000 @ [CListQueue])) (js ''r'') = Some j \<and>
     1 \<le> qi_attempts j \<and> qi_maxAttempts j = 2"
proof -
  have "queue_get (after sample_env (sample_calls 1000)) (js ''r'') = Some sample_item"
    unfolding sample_later by simp
  from ended_is_final [OF this, of "[CListQueue]"] show ?thesis by (auto simp: sample_item_def)
qed

lemma enqueued_expiry:
  "expireLeases sample_env (after sample_env [CEnqueue (js ''r'') None None]) =
     (Inr (), (after sample_env [CEnqueue (js ''r'') None None])\<lparr>ms_tick := 2\<rparr>)"
  "grantable ((after sample_env [CEnqueue (js ''r'') None None])\<lparr>ms_tick := 2\<rparr>) (js ''r'')"
  using sample_expire
  by (simp_all add: calls_state_def grantable_def enqueueRun_def new_scheduler_def queue_get_def
      queue_set_def sx_defs Let_def sample_env_def)

theorem acquire_progress_witness:
  "\<exists>l t. acquireLease sample_env (js ''w'') (Some 1000)
     (after sample_env [CEnqueue (js ''r'') None None]) = (Inr (Some l), t)"
  by (rule acquire_progress [OF _ enqueued_expiry]) (simp add: max_time_def)

theorem acquire_fifo_witness:
  "\<exists>l t. acquireLease sample_env (js ''w'') (Some 1000)
       (after sample_env [CEnqueue (js ''r'') None None]) = (Inr (Some l), t) \<and>
     lease_get t (el_leaseId l) = Some l \<and> sl_attempt l = 1 \<and>
     se_date sample_env (el_expiresAt l) = Some 1000"
proof -
  let ?s = "after sample_env [CEnqueue (js ''r'') None None]"
  have x: "addMilliseconds sample_env epoch 1000 = Inr (js ''1970-01-01T00:00:01.000Z'')"
    using later_iso by (simp add: addMilliseconds_def)
  let ?l = "sample_lease (js ''1970-01-01T00:00:01.000Z'')"
  have a: "acquireLease sample_env (js ''w'') (Some 1000) ?s =
      (Inr (Some ?l), after sample_env (sample_calls 1000))"
    using x unfolding sample_later
    by (simp add: calls_state_def acquireLease_def sx_bind_def [of "expireLeases sample_env"] sample_expire)
      (simp add: enqueueRun_def new_scheduler_def queue_get_def queue_set_def sx_defs Let_def
       grant_lease_def createLeaseId_def hasActiveLease_def updateQueueItem_def requireQueueItem_def
       lease_set_def sample_lease_id sample_state_def sample_item_def sample_lease_def apply_patch_def
       sample_env_def)
  from acquire_fifo [OF a] a show ?thesis
    by (auto simp: lease_duration_def sample_lease_def)
qed

theorem expired_lease_is_lost_witness:
  "fst (releaseLease sample_env sample_id [] (after sample_env (sample_calls 0))) =
     Inl (Err (js ''lease_not_active:expired''))"
proof -
  have t: "parseTimestamp sample_env (se_clock sample_env (ms_tick (after sample_env (sample_calls 0)))) = Inr 0"
    by simp
  have l: "lease_get (after sample_env (sample_calls 0)) sample_id = Some (sample_lease epoch)"
    unfolding sample_now by simp
  have x: "\<not> (sl_status (sample_lease epoch) = Active \<and> lease_live sample_env 0 (sample_lease epoch))"
    by (simp add: sample_lease_def lease_live_def)
  from expired_lease_is_lost [OF t l x] show ?thesis by (auto simp: sample_lease_def)
qed

theorem live_lease_settles_witness:
  "\<exists>m t i. failLease sample_env sample_id (UString (js ''boom'')) (after sample_env (sample_calls 1000)) = (Inr m, t) \<and>
     sl_status m = LFailed \<and> queue_get t (js ''r'') = Some i \<and> qi_lastError i = Some [(js ''message'', JStr (js ''boom''))]"
proof -
  let ?l = "sample_lease (js ''1970-01-01T00:00:01.000Z'')"
  have t: "parseTimestamp sample_env (se_clock sample_env (ms_tick (after sample_env (sample_calls 1000)))) = Inr 0"
    by simp
  have l: "lease_get (after sample_env (sample_calls 1000)) sample_id = Some ?l"
    unfolding sample_later by simp
  have x: "sl_status ?l = Active" "lease_live sample_env 0 ?l"
    using Date_parse_toISOString [OF later_iso] by (simp_all add: sample_lease_def lease_live_def)
  have n: "normalizeError (UString (js ''boom'')) = Inr [(js ''message'', JStr (js ''boom''))]"
    by (simp add: normalizeError_def)
  have r: "el_runId ?l = js ''r''" by (simp add: sample_lease_def)
  from live_lease_settles [OF t l x n, of "[]"] show ?thesis unfolding r by blast
qed

end
