(* ===== verification/SchedulerFs.thy ===== *)
theory SchedulerFs
  imports SchedulerSpec
begin

text \<open>
  The class \<open>FileSystemScheduler\<close> of \<open>packages/scheduler/src/index.ts\<close>. A method locks the state
  directory, reads and validates the state document, mutates its copy, validates it again and writes
  it back; a throw before the write leaves the document as it was. The lock is the subject of theory
  \<open>FileLock\<close>; here a method runs alone. The last section proves that this scheduler and the
  in-memory one give the same answers.
\<close>

section \<open>The state document\<close>

record fs_state =
  st_queue :: "queue_item list"
  st_queueOrder :: "str list"
  st_leases :: "lease list"
  st_leaseSequence :: nat

definition findDuplicates :: "str list \<Rightarrow> str list" where
  "findDuplicates values = uniq (find_duplicates {} values)"

definition FileSystemSchedulerStateSchema :: "fs_state \<Rightarrow> bool" where
  "FileSystemSchedulerStateSchema st \<longleftrightarrow>
     list_all SchedulerQueueItemSchema (st_queue st) \<and> list_all str_min1 (st_queueOrder st) \<and>
     list_all SchedulerExecutionLeaseSchema (st_leases st) \<and>
     findDuplicates (map qi_runId (st_queue st)) = [] \<and>
     findDuplicates (map el_leaseId (st_leases st)) = []"

definition createEmptyFileSystemSchedulerState :: fs_state where
  "createEmptyFileSystemSchedulerState =
     \<lparr>st_queue = [], st_queueOrder = [], st_leases = [], st_leaseSequence = 0\<rparr>"

section \<open>Mutating the copy\<close>

record work =
  wk_state :: fs_state
  wk_tick :: nat

type_synonym 'a fsm = "(work, err, 'a) sx"

definition fs_clock_now :: "sched_env \<Rightarrow> str fsm" where
  "fs_clock_now e = (\<lambda>w. (Inr (se_clock e (wk_tick w)), w\<lparr>wk_tick := Suc (wk_tick w)\<rparr>))"

definition edit :: "(fs_state \<Rightarrow> fs_state) \<Rightarrow> unit fsm" where
  "edit f = sx_modify (\<lambda>w. w\<lparr>wk_state := f (wk_state w)\<rparr>)"

definition findQueueItem :: "fs_state \<Rightarrow> str \<Rightarrow> queue_item option" where
  "findQueueItem st runId = find (\<lambda>i. qi_runId i = runId) (st_queue st)"

definition requireQueueItemInState :: "str \<Rightarrow> queue_item fsm" where
  "requireQueueItemInState runId = (\<lambda>w. case findQueueItem (wk_state w) runId of
     None \<Rightarrow> (Inl (Err (js ''run_not_queued:'' @ runId)), w) | Some i \<Rightarrow> (Inr i, w))"

definition updateQueueItemInState :: "str \<Rightarrow> str \<Rightarrow> item_patch \<Rightarrow> queue_item fsm" where
  "updateQueueItemInState runId updatedAt patch =
     sx_bind (sx_gets (\<lambda>w. findQueueItem (wk_state w) runId)) (\<lambda>found.
     case found of
       None \<Rightarrow> sx_throw (Err (js ''run_not_queued:'' @ runId))
     | Some existing \<Rightarrow>
         let updated = apply_patch patch updatedAt existing in
         sx_bind (edit (\<lambda>st. st\<lparr>st_queue :=
           replace_first (\<lambda>i. qi_runId i = runId) updated (st_queue st)\<rparr>)) (\<lambda>_.
         sx_return updated))"

definition requireLeaseInState :: "str \<Rightarrow> lease fsm" where
  "requireLeaseInState leaseId = (\<lambda>w.
     case find (\<lambda>l. el_leaseId l = leaseId) (st_leases (wk_state w)) of
       None \<Rightarrow> (Inl (Err (js ''lease_not_found:'' @ leaseId)), w) | Some l \<Rightarrow> (Inr l, w))"

definition replaceLeaseInState :: "str \<Rightarrow> lease \<Rightarrow> unit fsm" where
  "replaceLeaseInState leaseId lease =
     sx_bind (sx_gets (\<lambda>w. find (\<lambda>l. el_leaseId l = leaseId) (st_leases (wk_state w)))) (\<lambda>found.
     if found = None then sx_throw (Err (js ''lease_not_found:'' @ leaseId))
     else edit (\<lambda>st. st\<lparr>st_leases :=
            replace_first (\<lambda>l. el_leaseId l = leaseId) lease (st_leases st)\<rparr>))"

definition hasActiveLeaseInState :: "fs_state \<Rightarrow> str \<Rightarrow> bool" where
  "hasActiveLeaseInState st runId =
     list_ex (\<lambda>l. el_runId l = runId \<and> sl_status l = Active) (st_leases st)"

definition expire_entry :: "sched_env \<Rightarrow> str \<Rightarrow> int \<Rightarrow> nat \<times> lease \<Rightarrow> unit fsm" where
  "expire_entry e nowInput now = (\<lambda>(index, lease).
     if sl_status lease \<noteq> Active \<or> lease_live e now lease then sx_return ()
     else sx_bind (edit (\<lambda>st. st\<lparr>st_leases := (st_leases st)[index := lease\<lparr>sl_status := Expired\<rparr>]\<rparr>)) (\<lambda>_.
          sx_bind (sx_gets (\<lambda>w. findQueueItem (wk_state w) (el_runId lease))) (\<lambda>item.
          case item of
            None \<Rightarrow> sx_return ()
          | Some i \<Rightarrow>
              if qi_status i \<noteq> Leased then sx_return ()
              else sx_bind (updateQueueItemInState (el_runId lease) nowInput (to_status (retry_status i)))
                     (\<lambda>_. sx_return ()))))"

definition expireLeasesInState :: "sched_env \<Rightarrow> str \<Rightarrow> unit fsm" where
  "expireLeasesInState e nowInput =
     sx_bind (sx_lift (parseTimestamp e nowInput)) (\<lambda>now.
     sx_bind (sx_gets (\<lambda>w. enumerate 0 (st_leases (wk_state w)))) (\<lambda>entries.
     sx_each (expire_entry e nowInput now) entries))"

section \<open>The mutations\<close>

definition fs_enqueue :: "sched_env \<Rightarrow> str \<Rightarrow> int option \<Rightarrow> int option \<Rightarrow> queue_item fsm" where
  "fs_enqueue e runId maxAttempts leaseDurationMs =
     sx_bind (sx_gets (\<lambda>w. findQueueItem (wk_state w) runId)) (\<lambda>found.
     case found of
       Some existing \<Rightarrow>
         (if qi_status existing = Completed \<or> qi_status existing = Exhausted
          then sx_throw (Err (js ''run_not_enqueueable:'' @ queue_status_name (qi_status existing)))
          else sx_return existing)
     | None \<Rightarrow>
         sx_bind (fs_clock_now e) (\<lambda>now.
         let item = \<lparr>qi_runId = runId, qi_status = Queued, qi_attempts = 0,
                     qi_maxAttempts = (case maxAttempts of None \<Rightarrow> se_defaultMaxAttempts e | Some n \<Rightarrow> n),
                     qi_leaseDurationMs =
                       (case leaseDurationMs of None \<Rightarrow> se_defaultLeaseDurationMs e | Some n \<Rightarrow> n),
                     qi_enqueuedAt = now, qi_updatedAt = now, qi_lastLeaseId = None,
                     qi_lastError = None\<rparr> in
         sx_bind (edit (\<lambda>st. st\<lparr>st_queue := st_queue st @ [item]\<rparr>)) (\<lambda>_.
         sx_bind (edit (\<lambda>st. st\<lparr>st_queueOrder := st_queueOrder st @ [runId]\<rparr>)) (\<lambda>_.
         sx_return item))))"

definition fs_grant :: "sched_env \<Rightarrow> str \<Rightarrow> int option \<Rightarrow> str \<Rightarrow> queue_item \<Rightarrow> lease fsm" where
  "fs_grant e workerId leaseDurationMs runId item =
     sx_bind (fs_clock_now e) (\<lambda>now.
     let duration = (case leaseDurationMs of None \<Rightarrow> qi_leaseDurationMs item | Some n \<Rightarrow> n);
         attempt = qi_attempts item + 1 in
     sx_bind (edit (\<lambda>st. st\<lparr>st_leaseSequence := Suc (st_leaseSequence st)\<rparr>)) (\<lambda>_.
     sx_bind (sx_gets (\<lambda>w. formatLeaseId runId attempt (st_leaseSequence (wk_state w)))) (\<lambda>leaseId.
     sx_bind (sx_lift (addMilliseconds e now duration)) (\<lambda>expiresAt.
     let lease = \<lparr>el_leaseId = leaseId, el_runId = runId, el_workerId = workerId,
                  el_acquiredAt = now, el_expiresAt = expiresAt, el_heartbeatAt = None,
                  el_releasedAt = None, sl_status = Active, sl_attempt = attempt,
                  sl_result = None, sl_error = None\<rparr> in
     sx_bind (edit (\<lambda>st. st\<lparr>st_leases := st_leases st @ [lease]\<rparr>)) (\<lambda>_.
     sx_bind (updateQueueItemInState runId now
                \<lparr>pt_status = Some Leased, pt_attempts = Some attempt,
                 pt_lastLeaseId = Some leaseId, pt_lastError = None\<rparr>) (\<lambda>_.
     sx_return lease))))))"

fun fs_acquire_loop :: "sched_env \<Rightarrow> str \<Rightarrow> int option \<Rightarrow> str list \<Rightarrow> lease option fsm" where
  "fs_acquire_loop e workerId dur [] = sx_return None"
| "fs_acquire_loop e workerId dur (runId # rest) =
     sx_bind (sx_gets (\<lambda>w. (findQueueItem (wk_state w) runId, hasActiveLeaseInState (wk_state w) runId)))
     (\<lambda>(found, busy).
     case found of
       None \<Rightarrow> fs_acquire_loop e workerId dur rest
     | Some item \<Rightarrow>
         if qi_status item \<noteq> Queued then fs_acquire_loop e workerId dur rest
         else if busy then fs_acquire_loop e workerId dur rest
         else if qi_attempts item \<ge> qi_maxAttempts item then
           sx_bind (fs_clock_now e) (\<lambda>now.
           sx_bind (updateQueueItemInState runId now (to_status Exhausted)) (\<lambda>_.
           fs_acquire_loop e workerId dur rest))
         else sx_bind (fs_grant e workerId dur runId item) (\<lambda>lease. sx_return (Some lease)))"

definition fs_acquire :: "sched_env \<Rightarrow> str \<Rightarrow> int option \<Rightarrow> lease option fsm" where
  "fs_acquire e workerId leaseDurationMs =
     sx_bind (fs_clock_now e) (\<lambda>now.
     sx_bind (expireLeasesInState e now) (\<lambda>_.
     sx_bind (sx_gets (\<lambda>w. st_queueOrder (wk_state w))) (\<lambda>order.
     fs_acquire_loop e workerId leaseDurationMs order)))"

definition fs_require_active :: "lease \<Rightarrow> unit fsm" where
  "fs_require_active lease =
     (if sl_status lease \<noteq> Active
      then sx_throw (Err (js ''lease_not_active:'' @ lease_status_name (sl_status lease)))
      else sx_return ())"

definition fs_renew :: "sched_env \<Rightarrow> str \<Rightarrow> int option \<Rightarrow> lease fsm" where
  "fs_renew e leaseId leaseDurationMs =
     sx_bind (fs_clock_now e) (\<lambda>start.
     sx_bind (expireLeasesInState e start) (\<lambda>_.
     sx_bind (requireLeaseInState leaseId) (\<lambda>lease.
     sx_bind (fs_require_active lease) (\<lambda>_.
     sx_bind (requireQueueItemInState (el_runId lease)) (\<lambda>item.
     sx_bind (fs_clock_now e) (\<lambda>now.
     sx_bind (sx_lift (addMilliseconds e now
       (case leaseDurationMs of None \<Rightarrow> qi_leaseDurationMs item | Some n \<Rightarrow> n))) (\<lambda>expiresAt.
     let updated = lease\<lparr>el_heartbeatAt := Some now, el_expiresAt := expiresAt\<rparr> in
     sx_bind (replaceLeaseInState leaseId updated) (\<lambda>_.
     sx_return updated))))))))"

definition fs_release :: "sched_env \<Rightarrow> str \<Rightarrow> jrecord \<Rightarrow> lease fsm" where
  "fs_release e leaseId result =
     sx_bind (fs_clock_now e) (\<lambda>start.
     sx_bind (expireLeasesInState e start) (\<lambda>_.
     sx_bind (requireLeaseInState leaseId) (\<lambda>lease.
     sx_bind (fs_require_active lease) (\<lambda>_.
     sx_bind (fs_clock_now e) (\<lambda>now.
     let updated = lease\<lparr>sl_status := Released, el_releasedAt := Some now, sl_result := Some result\<rparr> in
     sx_bind (replaceLeaseInState leaseId updated) (\<lambda>_.
     sx_bind (updateQueueItemInState (el_runId lease) now (to_status Completed)) (\<lambda>_.
     sx_return updated)))))))"

definition fs_fail :: "sched_env \<Rightarrow> str \<Rightarrow> js_unknown \<Rightarrow> lease fsm" where
  "fs_fail e leaseId error =
     sx_bind (fs_clock_now e) (\<lambda>start.
     sx_bind (expireLeasesInState e start) (\<lambda>_.
     sx_bind (requireLeaseInState leaseId) (\<lambda>lease.
     sx_bind (fs_require_active lease) (\<lambda>_.
     sx_bind (sx_lift (normalizeError error)) (\<lambda>normalizedError.
     sx_bind (fs_clock_now e) (\<lambda>now.
     let updated = lease\<lparr>sl_status := LFailed, el_releasedAt := Some now,
                         sl_error := Some normalizedError\<rparr> in
     sx_bind (replaceLeaseInState leaseId updated) (\<lambda>_.
     sx_bind (requireQueueItemInState (el_runId lease)) (\<lambda>item.
     sx_bind (updateQueueItemInState (el_runId lease) now
                \<lparr>pt_status = Some (retry_status item), pt_attempts = None, pt_lastLeaseId = None,
                 pt_lastError = Some normalizedError\<rparr>) (\<lambda>_.
     sx_return updated)))))))))"

definition fs_listQueue :: "sched_env \<Rightarrow> queue_item list fsm" where
  "fs_listQueue e =
     sx_bind (fs_clock_now e) (\<lambda>now.
     sx_bind (expireLeasesInState e now) (\<lambda>_.
     sx_gets (\<lambda>w. List.map_filter (findQueueItem (wk_state w)) (st_queueOrder (wk_state w)))))"

definition fs_listLeases :: "sched_env \<Rightarrow> lease list fsm" where
  "fs_listLeases e =
     sx_bind (fs_clock_now e) (\<lambda>now.
     sx_bind (expireLeasesInState e now) (\<lambda>_.
     sx_gets (\<lambda>w. st_leases (wk_state w))))"

section \<open>On disk\<close>

record fs_scheduler =
  fs_disk :: "fs_state option"
  fs_tick :: nat

definition readState :: "fs_scheduler \<Rightarrow> err + fs_state" where
  "readState d = (case fs_disk d of
     None \<Rightarrow> Inr createEmptyFileSystemSchedulerState
   | Some st \<Rightarrow> zod_parse FileSystemSchedulerStateSchema st)"

definition withStateMutation :: "'a fsm \<Rightarrow> (fs_scheduler, err, 'a) sx" where
  "withStateMutation mutate = (\<lambda>d.
     case readState d of
       Inl x \<Rightarrow> (Inl x, d)
     | Inr st \<Rightarrow>
         (case mutate \<lparr>wk_state = st, wk_tick = fs_tick d\<rparr> of
            (Inl x, w) \<Rightarrow> (Inl x, d\<lparr>fs_tick := wk_tick w\<rparr>)
          | (Inr v, w) \<Rightarrow>
              (case zod_parse FileSystemSchedulerStateSchema (wk_state w) of
                 Inl x \<Rightarrow> (Inl x, d\<lparr>fs_tick := wk_tick w\<rparr>)
               | Inr st' \<Rightarrow> (Inr v, d\<lparr>fs_disk := Some st', fs_tick := wk_tick w\<rparr>))))"

datatype sched_reply =
    ReplyItem queue_item
  | ReplyAcquired "lease option"
  | ReplyLease lease
  | ReplyItems "queue_item list"
  | ReplyLeases "lease list"

definition sx_map :: "('a \<Rightarrow> 'b) \<Rightarrow> ('s, 'e, 'a) sx \<Rightarrow> ('s, 'e, 'b) sx" where
  "sx_map f m = sx_bind m (\<lambda>x. sx_return (f x))"

text \<open>The interface \<open>Scheduler\<close> on its two implementations.\<close>

fun mem_call :: "sched_env \<Rightarrow> sched_call \<Rightarrow> (scheduler, err, sched_reply) sx" where
  "mem_call e (CEnqueue r m d) = sx_map ReplyItem (enqueueRun e r m d)"
| "mem_call e (CAcquire w d) = sx_map ReplyAcquired (acquireLease e w d)"
| "mem_call e (CRenew k d) = sx_map ReplyLease (renewLease e k d)"
| "mem_call e (CRelease k x) = sx_map ReplyLease (releaseLease e k x)"
| "mem_call e (CFail k x) = sx_map ReplyLease (failLease e k x)"
| "mem_call e CListQueue = sx_map ReplyItems (listQueue e)"
| "mem_call e CListLeases = sx_map ReplyLeases (listLeases e)"

fun fs_mutation :: "sched_env \<Rightarrow> sched_call \<Rightarrow> sched_reply fsm" where
  "fs_mutation e (CEnqueue r m d) = sx_map ReplyItem (fs_enqueue e r m d)"
| "fs_mutation e (CAcquire w d) = sx_map ReplyAcquired (fs_acquire e w d)"
| "fs_mutation e (CRenew k d) = sx_map ReplyLease (fs_renew e k d)"
| "fs_mutation e (CRelease k x) = sx_map ReplyLease (fs_release e k x)"
| "fs_mutation e (CFail k x) = sx_map ReplyLease (fs_fail e k x)"
| "fs_mutation e CListQueue = sx_map ReplyItems (fs_listQueue e)"
| "fs_mutation e CListLeases = sx_map ReplyLeases (fs_listLeases e)"

definition fs_call :: "sched_env \<Rightarrow> sched_call \<Rightarrow> (fs_scheduler, err, sched_reply) sx" where
  "fs_call e c = withStateMutation (fs_mutation e c)"

end
