(* ===== verification/SchedulerRefine.thy ===== *)
theory SchedulerRefine
  imports SchedulerFs
begin

text \<open>
  The file-system scheduler implements the in-memory one. The abstraction \<open>to_fs\<close> lists the values
  of the two maps; \<open>sim\<close> relates a method of the in-memory class and the corresponding mutation of
  the state document by a Hoare triple, and its rules follow the structure of the code. The two
  classes read the clock at different points, so the in-memory method runs on a clock that repeats
  readings of the other's clock without changing their order.
\<close>

section \<open>Lists for maps\<close>

lemma update_values_index:
  "distinct (map fst m) \<Longrightarrow> i < length m \<Longrightarrow> fst (m ! i) = k \<Longrightarrow>
   map snd (AList.update k u m) = (map snd m)[i := u]"
proof (induction m arbitrary: i)
  case (Cons p m)
  show ?case
  proof (cases i)
    case 0
    then show ?thesis using Cons by (cases p) auto
  next
    case (Suc j)
    then have "m ! j \<in> set m" using Cons.prems(2) by simp
    then have "fst p \<noteq> k" using Cons.prems(1,3) Suc by auto
    then show ?thesis using Suc Cons by (cases p) auto
  qed
qed simp

lemma update_keyed:
  "\<forall>(k, v) \<in> set m. g v = k \<Longrightarrow> g u = k' \<Longrightarrow> \<forall>(k, v) \<in> set (AList.update k' u m). g v = k"
  by (induction m) auto

lemma findDuplicates_Nil [simp]: "findDuplicates xs = [] \<longleftrightarrow> distinct xs"
  by (simp add: findDuplicates_def find_duplicates_Nil)

section \<open>The abstraction\<close>

definition to_fs :: "scheduler \<Rightarrow> fs_state" where
  "to_fs s = \<lparr>st_queue = map snd (ms_queue s), st_queueOrder = ms_queueOrder s,
     st_leases = map snd (ms_leases s), st_leaseSequence = ms_leaseSequence s\<rparr>"

definition keyed :: "scheduler \<Rightarrow> bool" where
  "keyed s \<longleftrightarrow> distinct (map fst (ms_queue s)) \<and> distinct (map fst (ms_leases s)) \<and>
     (\<forall>(k, i) \<in> set (ms_queue s). qi_runId i = k) \<and> (\<forall>(k, l) \<in> set (ms_leases s). el_leaseId l = k)"

lemma keyed_inv: "sched_inv s \<Longrightarrow> keyed s"
  using sched_invD(1,2,4,5) [of s]
  by (auto simp: keyed_def queue_get_def lease_get_def item_inv_def lease_inv_def)

lemma keyed_set [simp]:
  "keyed s \<Longrightarrow> qi_runId i = r \<Longrightarrow> keyed (queue_set r i s)"
  "keyed s \<Longrightarrow> el_leaseId l = k \<Longrightarrow> keyed (lease_set k l s)"
  "keyed (s\<lparr>ms_tick := n\<rparr>) = keyed s" "keyed (s\<lparr>ms_leaseSequence := q\<rparr>) = keyed s"
  "keyed (s\<lparr>ms_queueOrder := ord\<rparr>) = keyed s"
proof -
  show "keyed (queue_set r i s)" if "keyed s" "qi_runId i = r"
    using that update_keyed [of "ms_queue s" qi_runId i r]
    by (simp add: keyed_def queue_set_def distinct_update)
  show "keyed (lease_set k l s)" if "keyed s" "el_leaseId l = k"
    using that update_keyed [of "ms_leases s" el_leaseId l k]
    by (simp add: keyed_def lease_set_def distinct_update)
qed (simp_all add: keyed_def)

lemma to_fs_simps [simp]:
  "to_fs (s\<lparr>ms_tick := n\<rparr>) = to_fs s"
  "to_fs (s\<lparr>ms_leaseSequence := q\<rparr>) = to_fs s\<lparr>st_leaseSequence := q\<rparr>"
  "to_fs (s\<lparr>ms_queueOrder := ord\<rparr>) = to_fs s\<lparr>st_queueOrder := ord\<rparr>"
  "st_queueOrder (to_fs s) = ms_queueOrder s" "st_leaseSequence (to_fs s) = ms_leaseSequence s"
  "st_leases (to_fs s) = map snd (ms_leases s)" "st_queue (to_fs s) = map snd (ms_queue s)"
  by (simp_all add: to_fs_def)

lemma get_find:
  "keyed s \<Longrightarrow> findQueueItem (to_fs s) r = queue_get s r"
  "keyed s \<Longrightarrow> find (\<lambda>l. el_leaseId l = k) (map snd (ms_leases s)) = lease_get s k"
  using find_values [of "ms_queue s" qi_runId r] find_values [of "ms_leases s" el_leaseId k]
  by (simp_all add: keyed_def findQueueItem_def queue_get_def lease_get_def)

lemma get_keyed:
  "keyed s \<Longrightarrow> queue_get s r = Some i \<Longrightarrow> qi_runId i = r"
  "keyed s \<Longrightarrow> lease_get s k = Some l \<Longrightarrow> el_leaseId l = k"
  by (auto simp: keyed_def queue_get_def lease_get_def dest: map_of_SomeD)

lemma to_fs_queue_set:
  "keyed s \<Longrightarrow> queue_get s r = Some i \<Longrightarrow> to_fs (queue_set r u s) =
     to_fs s\<lparr>st_queue := replace_first (\<lambda>i. qi_runId i = r) u (map snd (ms_queue s))\<rparr>"
  "queue_get s r = None \<Longrightarrow> to_fs (queue_set r u s) = to_fs s\<lparr>st_queue := map snd (ms_queue s) @ [u]\<rparr>"
  using replace_first_update [of "ms_queue s" qi_runId r u] map_of_is_None [of "ms_queue s" r]
  by (simp_all add: to_fs_def queue_set_def keyed_def queue_get_def map_snd_update_fresh)

lemma to_fs_lease_set:
  "keyed s \<Longrightarrow> lease_get s k = Some l \<Longrightarrow> to_fs (lease_set k u s) =
     to_fs s\<lparr>st_leases := replace_first (\<lambda>l. el_leaseId l = k) u (map snd (ms_leases s))\<rparr>"
  "lease_get s k = None \<Longrightarrow> to_fs (lease_set k u s) = to_fs s\<lparr>st_leases := map snd (ms_leases s) @ [u]\<rparr>"
  using replace_first_update [of "ms_leases s" el_leaseId k u] map_of_is_None [of "ms_leases s" k]
  by (simp_all add: to_fs_def lease_set_def keyed_def lease_get_def map_snd_update_fresh)

lemma set_tick_same [simp]: "ms_tick (queue_set r i s) = ms_tick s" "ms_tick (lease_set k l s) = ms_tick s"
  by (simp_all add: queue_set_def lease_set_def)

section \<open>The simulation\<close>

abbreviation on_clock :: "sched_env \<Rightarrow> (nat \<Rightarrow> str) \<Rightarrow> sched_env" where
  "on_clock e c \<equiv> e\<lparr>se_clock := c\<rparr>"

text \<open>The last reading of the clock, where it matters.\<close>

definition at_reading :: "sched_env \<Rightarrow> str option \<Rightarrow> nat \<Rightarrow> bool" where
  "at_reading e L n \<longleftrightarrow> (case L of None \<Rightarrow> True | Some t \<Rightarrow> 0 < n \<and> se_clock e (n - 1) = t)"

text \<open>From its tick \<open>t\<close> on the clock \<open>c\<close> shows the readings with the numbers \<open>ns\<close>.\<close>

definition shows_readings :: "sched_env \<Rightarrow> (nat \<Rightarrow> str) \<Rightarrow> nat \<Rightarrow> nat list \<Rightarrow> bool" where
  "shows_readings e c t ns \<longleftrightarrow> (\<forall>i < length ns. c (t + i) = se_clock e (ns ! i))"

lemma shows_append:
  "shows_readings e c t (ns @ ms) \<longleftrightarrow> shows_readings e c t ns \<and> shows_readings e c (t + length ns) ms"
proof
  assume a: "shows_readings e c t (ns @ ms)"
  have "c (t + i) = se_clock e (ns ! i)" if "i < length ns" for i
    using a that by (auto simp: shows_readings_def nth_append dest: spec [of _ i])
  moreover have "c (t + length ns + i) = se_clock e (ms ! i)" if "i < length ms" for i
    using a that by (auto simp: shows_readings_def nth_append add.assoc dest: spec [of _ "length ns + i"])
  ultimately show "shows_readings e c t ns \<and> shows_readings e c (t + length ns) ms" by (simp add: shows_readings_def)
next
  assume a: "shows_readings e c t ns \<and> shows_readings e c (t + length ns) ms"
  have "c (t + i) = se_clock e ((ns @ ms) ! i)" if "i < length (ns @ ms)" for i
  proof (cases "i < length ns")
    case False
    then obtain j where "i = length ns + j" by (metis le_Suc_ex not_less)
    then show ?thesis using a that by (auto simp: shows_readings_def add.assoc)
  qed (use a in \<open>auto simp: shows_readings_def nth_append\<close>)
  then show "shows_readings e c t (ns @ ms)" by (simp add: shows_readings_def)
qed

text \<open>
  From related states the in-memory program \<open>m\<close> and the mutation \<open>f\<close> end the same way, on every
  clock for \<open>m\<close> that shows the readings \<open>ns\<close>: readings of \<open>f\<close>, or the one before it, in order.
\<close>

definition sim_run ::
  "sched_env \<Rightarrow> ((nat \<Rightarrow> str) \<Rightarrow> 'a sched) \<Rightarrow> 'a fsm \<Rightarrow> ('a \<Rightarrow> str option) \<Rightarrow> ('a \<Rightarrow> scheduler \<Rightarrow> bool) \<Rightarrow>
   scheduler \<Rightarrow> work \<Rightarrow> nat list \<Rightarrow> err + 'a \<Rightarrow> scheduler \<Rightarrow> bool" where
  "sim_run e m f L Q s w ns r s' \<longleftrightarrow>
     sorted ns \<and> (\<forall>n \<in> set ns. wk_tick w - 1 \<le> n \<and> n < wk_tick (snd (f w))) \<and> wk_tick w \<le> wk_tick (snd (f w)) \<and>
     (\<forall>c. shows_readings e c (ms_tick s) ns \<longrightarrow> m c s = (r, s')) \<and>
     (case r of
        Inl x \<Rightarrow> fst (f w) = Inl x
      | Inr v \<Rightarrow> keyed s' \<and> Q v s' \<and> fst (f w) = Inr v \<and> wk_state (snd (f w)) = to_fs s' \<and>
          ms_tick s' = ms_tick s + length ns \<and> at_reading e (L v) (wk_tick (snd (f w))))"

definition sim :: "sched_env \<Rightarrow> str option \<Rightarrow> (scheduler \<Rightarrow> bool) \<Rightarrow> ((nat \<Rightarrow> str) \<Rightarrow> 'a sched) \<Rightarrow> 'a fsm \<Rightarrow>
    ('a \<Rightarrow> str option) \<Rightarrow> ('a \<Rightarrow> scheduler \<Rightarrow> bool) \<Rightarrow> bool" where
  "sim e L P m f L' Q \<longleftrightarrow> (\<forall>s w. keyed s \<and> P s \<and> wk_state w = to_fs s \<and> at_reading e L (wk_tick w) \<longrightarrow>
     (\<exists>ns r s'. sim_run e m f L' Q s w ns r s'))"

lemma simI:
  "(\<And>s (w :: work). keyed s \<Longrightarrow> P s \<Longrightarrow> wk_state w = to_fs s \<Longrightarrow> at_reading e L (wk_tick w) \<Longrightarrow>
     \<exists>ns r s'. sim_run e m f L' Q s w ns r s') \<Longrightarrow> sim e L P m f L' Q"
  by (auto simp: sim_def)

lemma simD:
  assumes "sim e L P m f L' Q" and "keyed s" and "P s" and "wk_state w = to_fs s" and "at_reading e L (wk_tick w)"
  obtains ns r s' where "sim_run e m f L' Q s w ns r s'"
  using assms unfolding sim_def by blast

lemma reading_none [simp]: "at_reading e None n"
  by (simp add: at_reading_def)

text \<open>Programs that do not read the clock.\<close>

lemma sim_plain:
  assumes "\<And>s (w :: work). keyed s \<Longrightarrow> P s \<Longrightarrow> wk_state w = to_fs s \<Longrightarrow>
    wk_tick (snd (f w)) = wk_tick w \<and> (case m s of
        (Inl x, s') \<Rightarrow> fst (f w) = Inl x
      | (Inr v, s') \<Rightarrow> keyed s' \<and> Q v s' \<and> fst (f w) = Inr v \<and> wk_state (snd (f w)) = to_fs s' \<and> ms_tick s' = ms_tick s)"
  shows "sim e L P (\<lambda>c. m) f (\<lambda>_. L) Q"
proof (rule simI)
  fix s and w :: work assume a: "keyed s" "P s" "wk_state w = to_fs s" "at_reading e L (wk_tick w)"
  obtain r s' where m: "m s = (r, s')" by (cases "m s")
  have "sim_run e (\<lambda>c. m) f (\<lambda>_. L) Q s w [] r s'"
    using assms [OF a(1-3)] a(4) m by (auto simp: sim_run_def split: sum.splits)
  then show "\<exists>ns r s'. sim_run e (\<lambda>c. m) f (\<lambda>_. L) Q s w ns r s'" by blast
qed

lemma sim_bind:
  assumes m: "sim e L P m f L1 R" and n: "\<And>v. sim e (L1 v) (R v) (\<lambda>c. m' c v) (f' v) L2 Q"
  shows "sim e L P (\<lambda>c. sx_bind (m c) (m' c)) (sx_bind f f') L2 Q"
proof (rule simI)
  fix s and w :: work assume a: "keyed s" "P s" "wk_state w = to_fs s" "at_reading e L (wk_tick w)"
  from simD [OF m a] obtain ns r s' where 1: "sim_run e m f L1 R s w ns r s'" .
  obtain q w' where fw: "f w = (q, w')" by (cases "f w")
  show "\<exists>ns r s'. sim_run e (\<lambda>c. sx_bind (m c) (m' c)) (sx_bind f f') L2 Q s w ns r s'"
  proof (cases r)
    case (Inl x)
    then have "sim_run e (\<lambda>c. sx_bind (m c) (m' c)) (sx_bind f f') L2 Q s w ns (Inl x) s'"
      using 1 fw by (auto simp: sim_run_def sx_bind_def)
    then show ?thesis by blast
  next
    case (Inr v)
    with 1 fw have i: "keyed s'" "R v s'" "q = Inr v" "wk_state w' = to_fs s'" "at_reading e (L1 v) (wk_tick w')"
      "ms_tick s' = ms_tick s + length ns" by (auto simp: sim_run_def)
    from simD [OF n i(1,2,4,5)] obtain ms z s'' where 2: "sim_run e (\<lambda>c. m' c v) (f' v) L2 Q s' w' ms z s''" .
    have sorted: "sorted (ns @ ms)" using 1 2 fw by (fastforce simp: sim_run_def sorted_append)
    have "sx_bind (m c) (m' c) s = (z, s'')" if "shows_readings e c (ms_tick s) (ns @ ms)" for c
      using that 1 2 Inr i(6) by (auto simp: sim_run_def shows_append sx_bind_def)
    moreover have "sx_bind f f' w = f' v w'" using fw i(3) by (simp add: sx_bind_def)
    ultimately have "sim_run e (\<lambda>c. sx_bind (m c) (m' c)) (sx_bind f f') L2 Q s w (ns @ ms) z s''"
      using 1 2 fw i(6) sorted unfolding sim_run_def by (fastforce split: sum.splits)
    then show ?thesis by blast
  qed
qed

lemma sim_run_mono:
  "sim_run e m f L Q s w ns r s' \<Longrightarrow> (\<And>v s. Q v s \<Longrightarrow> Q' v s) \<Longrightarrow> (\<And>v. L' v = L v \<or> L' v = None) \<Longrightarrow>
   sim_run e m f L' Q' s w ns r s'"
  unfolding sim_run_def by (auto split: sum.splits) (metis reading_none)

lemma sim_pre: "sim e L P m f L' Q \<Longrightarrow> (\<And>s. keyed s \<Longrightarrow> P' s \<Longrightarrow> P s) \<Longrightarrow> sim e L P' m f L' Q"
  by (auto simp: sim_def)

lemma sim_any: "sim e None P m f L' Q \<Longrightarrow> sim e L P m f L' Q"
  by (auto simp: sim_def)

lemma sim_post:
  "sim e L P m f L1 Q \<Longrightarrow> (\<And>v s. Q v s \<Longrightarrow> Q' v s) \<Longrightarrow> (\<And>v. L2 v = L1 v \<or> L2 v = None) \<Longrightarrow> sim e L P m f L2 Q'"
  unfolding sim_def by (metis sim_run_mono)

lemma sim_forget: "sim e L P m f L1 Q \<Longrightarrow> sim e L P m f (\<lambda>_. None) Q"
  by (rule sim_post) auto

lemma sim_return: "(\<And>s. P s \<Longrightarrow> Q x s) \<Longrightarrow> sim e L P (\<lambda>c. sx_return x) (sx_return x) (\<lambda>_. L) Q"
  by (rule sim_plain) (simp add: sx_defs)

lemma sim_throw: "sim e L P (\<lambda>c. sx_throw x) (sx_throw x) L' Q"
proof (rule simI)
  fix s and w :: work
  have "sim_run e (\<lambda>c. sx_throw x) (sx_throw x) L' Q s w [] (Inl x) s" by (simp add: sim_run_def sx_defs)
  then show "\<exists>ns r s'. sim_run e (\<lambda>c. sx_throw x) (sx_throw x) L' Q s w ns r s'" by blast
qed

lemma sim_lift: "(\<And>v s. P s \<Longrightarrow> r = Inr v \<Longrightarrow> Q v s) \<Longrightarrow> sim e L P (\<lambda>c. sx_lift r) (sx_lift r) (\<lambda>_. L) Q"
  by (rule sim_plain) (auto simp: sx_defs split: sum.splits)

lemma sim_gets:
  "(\<And>s (w :: work). keyed s \<Longrightarrow> P s \<Longrightarrow> wk_state w = to_fs s \<Longrightarrow> g w = h s \<and> Q (h s) s) \<Longrightarrow>
   sim e L P (\<lambda>c. sx_gets h) (sx_gets g) (\<lambda>_. L) Q"
  by (rule sim_plain) (simp add: sx_defs)

lemma sim_modify:
  "(\<And>s. keyed s \<Longrightarrow> P s \<Longrightarrow> keyed (g s) \<and> Q () (g s) \<and> to_fs (g s) = h (to_fs s) \<and> ms_tick (g s) = ms_tick s) \<Longrightarrow>
   sim e L P (\<lambda>c. sx_modify g) (edit h) (\<lambda>_. L) Q"
  by (rule sim_plain) (simp add: sx_defs edit_def)

lemma sim_option:
  "(v = None \<Longrightarrow> sim e L P (\<lambda>c. a c) a' L' Q) \<Longrightarrow> (\<And>x. v = Some x \<Longrightarrow> sim e L P (\<lambda>c. b c x) (b' x) L' Q) \<Longrightarrow>
   sim e L P (\<lambda>c. case v of None \<Rightarrow> a c | Some x \<Rightarrow> b c x) (case v of None \<Rightarrow> a' | Some x \<Rightarrow> b' x) L' Q"
  by (cases v) auto

lemma sim_if:
  "(v \<Longrightarrow> sim e L P (\<lambda>c. a c) a' L' Q) \<Longrightarrow> (\<not> v \<Longrightarrow> sim e L P (\<lambda>c. b c) b' L' Q) \<Longrightarrow>
   sim e L P (\<lambda>c. if v then a c else b c) (if v then a' else b') L' Q"
  by auto

lemma sim_gets_bind:
  assumes "\<And>s (w :: work). keyed s \<Longrightarrow> P s \<Longrightarrow> wk_state w = to_fs s \<Longrightarrow> g w = t (h s)"
    and "\<And>x. sim e L (\<lambda>s. P s \<and> h s = x) (\<lambda>c. m c x) (f (t x)) L' Q"
  shows "sim e L P (\<lambda>c. sx_bind (sx_gets h) (m c)) (sx_bind (sx_gets g) f) L' Q"
proof (rule simI)
  fix s and w :: work assume a: "keyed s" "P s" "wk_state w = to_fs s" "at_reading e L (wk_tick w)"
  from simD [OF assms(2) [of "h s"] a(1) _ a(3,4)] a(2)
  obtain ns r s' where "sim_run e (\<lambda>c. m c (h s)) (f (t (h s))) L' Q s w ns r s'" by auto
  then have "sim_run e (\<lambda>c. sx_bind (sx_gets h) (m c)) (sx_bind (sx_gets g) f) L' Q s w ns r s'"
    using assms(1) [OF a(1-3)] by (auto simp: sim_run_def sx_bind_def sx_gets_def split: sum.splits)
  then show "\<exists>ns r s'. sim_run e (\<lambda>c. sx_bind (sx_gets h) (m c)) (sx_bind (sx_gets g) f) L' Q s w ns r s'" by blast
qed

lemma sim_each:
  "list_all2 (\<lambda>x y. sim e L I (\<lambda>c. f c x) (g y) (\<lambda>_. L) (\<lambda>_. I)) xs ys \<Longrightarrow>
   sim e L I (\<lambda>c. sx_each (f c) xs) (sx_each g ys) (\<lambda>_. L) (\<lambda>_. I)"
  by (induction rule: list_all2_induct) (auto intro: sim_return sim_bind)

section \<open>The parts\<close>

lemma clockless [simp]:
  "parseTimestamp (on_clock e c) = parseTimestamp e" "addMilliseconds (on_clock e c) = addMilliseconds e"
  "lease_live (on_clock e c) = lease_live e"
  by (simp_all add: fun_eq_iff parseTimestamp_def addMilliseconds_def lease_live_def)

lemma on_clock_defaults:
  "se_defaultMaxAttempts (on_clock e c) = se_defaultMaxAttempts e"
  "se_defaultLeaseDurationMs (on_clock e c) = se_defaultLeaseDurationMs e"
  by simp_all

lemma sim_clock:
  assumes "\<And>s n t. P s \<Longrightarrow> Q t (s\<lparr>ms_tick := n\<rparr>)"
  shows "sim e L P (\<lambda>c. clock_now (on_clock e c)) (fs_clock_now e) Some Q"
proof (rule simI)
  fix s and w :: work assume a: "keyed s" "P s" "wk_state w = to_fs s"
  have "sim_run e (\<lambda>c. clock_now (on_clock e c)) (fs_clock_now e) Some Q s w [wk_tick w] (Inr (se_clock e (wk_tick w)))
    (s\<lparr>ms_tick := Suc (ms_tick s)\<rparr>)"
    using a assms by (simp add: sim_run_def clock_now_def fs_clock_now_def shows_readings_def at_reading_def)
  then show "\<exists>ns r s'. sim_run e (\<lambda>c. clock_now (on_clock e c)) (fs_clock_now e) Some Q s w ns r s'" by blast
qed

text \<open>A reading of the file-system scheduler alone.\<close>

lemma sim_fs_clock:
  assumes "\<And>t. sim e (Some t) P m (f t) L' Q"
  shows "sim e L P m (sx_bind (fs_clock_now e) f) L' Q"
proof (rule simI)
  fix s and w :: work assume a: "keyed s" "P s" "wk_state w = to_fs s"
  let ?t = "se_clock e (wk_tick w)" and ?w = "w\<lparr>wk_tick := Suc (wk_tick w)\<rparr>"
  have "sx_bind (fs_clock_now e) f w = f ?t ?w" by (simp add: sx_bind_def fs_clock_now_def)
  moreover have "at_reading e (Some ?t) (wk_tick ?w)" "wk_state ?w = to_fs s" using a(3) by (simp_all add: at_reading_def)
  from simD [OF assms a(1,2) this(2,1)] obtain ns r s' where "sim_run e m (f ?t) L' Q s ?w ns r s'" .
  ultimately have "sim_run e m (sx_bind (fs_clock_now e) f) L' Q s w ns r s'"
    by (auto simp: sim_run_def split: sum.splits dest!: bspec)
  then show "\<exists>ns r s'. sim_run e m (sx_bind (fs_clock_now e) f) L' Q s w ns r s'" by blast
qed

lemma sim_require_item:
  "(\<And>s i. P s \<Longrightarrow> queue_get s r = Some i \<Longrightarrow> Q i s) \<Longrightarrow>
   sim e L P (\<lambda>c. requireQueueItem r) (requireQueueItemInState r) (\<lambda>_. L) Q"
  by (intro sim_plain)
    (auto simp: requireQueueItem_def requireQueueItemInState_def get_find split: option.splits)

lemma sim_require_lease:
  "(\<And>s l. keyed s \<Longrightarrow> P s \<Longrightarrow> lease_get s k = Some l \<Longrightarrow> Q l s) \<Longrightarrow>
   sim e L P (\<lambda>c. requireLease k) (requireLeaseInState k) (\<lambda>_. L) Q"
  by (intro sim_plain) (auto simp: requireLease_def requireLeaseInState_def get_find split: option.splits)

lemma sim_active: "sim e L P (\<lambda>c. require_active l) (fs_require_active l) (\<lambda>_. L) (\<lambda>_. P)"
  by (auto simp: require_active_def fs_require_active_def intro: sim_return sim_throw)

text \<open>The in-memory update reads the clock again; the other one is given the last reading.\<close>

lemma sim_update:
  assumes Q: "\<And>s i n. P s \<Longrightarrow> queue_get s r = Some i \<Longrightarrow>
      Q (apply_patch p t i) (queue_set r (apply_patch p t i) s\<lparr>ms_tick := n\<rparr>)"
  shows "sim e (Some t) P (\<lambda>c. updateQueueItem (on_clock e c) r p) (updateQueueItemInState r t p) (\<lambda>_. Some t) Q"
proof (rule simI)
  fix s and w :: work assume a: "keyed s" "P s" "wk_state w = to_fs s" "at_reading e (Some t) (wk_tick w)"
  let ?run = "sim_run e (\<lambda>c. updateQueueItem (on_clock e c) r p) (updateQueueItemInState r t p) (\<lambda>_. Some t) Q s w"
  show "\<exists>ns r s'. ?run ns r s'"
  proof (cases "queue_get s r")
    case None
    with a have "?run [] (Inl (Err (js ''run_not_queued:'' @ r))) s"
      by (simp add: sim_run_def updateQueueItem_def requireQueueItem_def updateQueueItemInState_def get_find sx_defs)
    then show ?thesis by blast
  next
    case (Some i)
    have "qi_runId i = r" using get_keyed(1) [OF a(1) Some] .
    with a Some Q [OF a(2) Some]
    have "?run [wk_tick w - 1] (Inr (apply_patch p t i)) (queue_set r (apply_patch p t i) s\<lparr>ms_tick := Suc (ms_tick s)\<rparr>)"
      by (simp add: sim_run_def updateQueueItem_eq updateQueueItemInState_def edit_def get_find sx_defs Let_def
          shows_readings_def at_reading_def to_fs_queue_set(1) [OF a(1) Some])
    then show ?thesis by blast
  qed
qed

lemma sim_replace:
  assumes "\<And>s. P s \<Longrightarrow> Q () (lease_set k m s)" and "\<And>s. P s \<Longrightarrow> lease_get s k \<noteq> None"
    and "el_leaseId m = k"
  shows "sim e L P (\<lambda>c. sx_modify (lease_set k m)) (replaceLeaseInState k m) (\<lambda>_. L) Q"
proof (rule sim_plain)
  fix s and w :: work assume a: "keyed s" "P s" "wk_state w = to_fs s"
  obtain l where l: "lease_get s k = Some l" using assms(2) [OF a(2)] by blast
  from a assms(1) [OF a(2)] assms(3) l
  show "wk_tick (snd (replaceLeaseInState k m w)) = wk_tick w \<and>
    (case sx_modify (lease_set k m) s of (Inl x, s') \<Rightarrow> fst (replaceLeaseInState k m w) = Inl x
    | (Inr v, s') \<Rightarrow> keyed s' \<and> Q v s' \<and> fst (replaceLeaseInState k m w) = Inr v \<and>
        wk_state (snd (replaceLeaseInState k m w)) = to_fs s' \<and> ms_tick s' = ms_tick s)"
    by (simp add: replaceLeaseInState_def edit_def sx_defs get_find to_fs_lease_set(1) [OF a(1) l])
qed

section \<open>Expiry\<close>

definition fresh_ids :: "scheduler \<Rightarrow> bool" where
  "fresh_ids s \<longleftrightarrow> (\<forall>k l. lease_get s k = Some l \<longrightarrow>
     (\<exists>r a q. q \<le> ms_leaseSequence s \<and> k = formatLeaseId r a q))"

lemma fresh_ids_inv: "sched_inv s \<Longrightarrow> fresh_ids s"
  using sched_invD(5) [of s] unfolding fresh_ids_def lease_inv_def by blast

lemma fresh_ids_keep [simp]:
  "fresh_ids (s\<lparr>ms_tick := n\<rparr>) = fresh_ids s" "fresh_ids (queue_set r i s) = fresh_ids s"
  "fresh_ids (s\<lparr>ms_queueOrder := ord\<rparr>) = fresh_ids s"
  "lease_get s k = Some l \<Longrightarrow> fresh_ids s \<Longrightarrow> fresh_ids (lease_set k m s)"
  by (auto simp: fresh_ids_def)

lemma keys_of_values: "keyed s \<Longrightarrow> map el_leaseId (map snd (ms_leases s)) = map fst (ms_leases s)"
  by (auto simp: keyed_def)

lemma sim_expire_one:
  assumes i: "i < length ks" "ks ! i = el_leaseId l"
  shows "sim e (Some t) (\<lambda>s. map fst (ms_leases s) = ks \<and> fresh_ids s)
    (\<lambda>c. expire_lease (on_clock e c) now l) (expire_entry e t now (i, l)) (\<lambda>_. Some t)
    (\<lambda>_ s. map fst (ms_leases s) = ks \<and> fresh_ids s)" (is "sim _ _ ?I _ _ _ _")
proof (cases "sl_status l \<noteq> Active \<or> lease_live e now l")
  case True
  then show ?thesis by (auto simp: expire_lease_def expire_entry_def intro: sim_return)
next
  case False
  let ?m = "l\<lparr>sl_status := Expired\<rparr>"
  have set: "keyed (lease_set (el_leaseId l) ?m s) \<and> ?I (lease_set (el_leaseId l) ?m s) \<and>
      to_fs (lease_set (el_leaseId l) ?m s) = to_fs s\<lparr>st_leases := (st_leases (to_fs s))[i := ?m]\<rparr> \<and>
      ms_tick (lease_set (el_leaseId l) ?m s) = ms_tick s"
    if s: "keyed s" "?I s" for s
  proof -
    have "i < length (ms_leases s)" "fst (ms_leases s ! i) = el_leaseId l" using s(2) i by auto
    with s update_values_index [of "ms_leases s" i "el_leaseId l" ?m]
    have v: "map snd (AList.update (el_leaseId l) ?m (ms_leases s)) = (map snd (ms_leases s))[i := ?m]"
      by (simp add: keyed_def)
    have "lease_get s (el_leaseId l) \<noteq> None"
      using s(2) i map_of_is_None [of "ms_leases s" "el_leaseId l"] by (metis lease_get_def nth_mem)
    then obtain u where u: "lease_get s (el_leaseId l) = Some u" by blast
    have "to_fs (lease_set (el_leaseId l) ?m s) = to_fs s\<lparr>st_leases := (st_leases (to_fs s))[i := ?m]\<rparr>"
      using v by (simp add: to_fs_def lease_set_def)
    moreover have "keyed (lease_set (el_leaseId l) ?m s)" using s(1) by simp
    moreover have "?I (lease_set (el_leaseId l) ?m s)" using s(2) u by (simp add: sched_keys)
    ultimately show ?thesis by simp
  qed
  have step: "sim e (Some t) ?I (\<lambda>c. updateQueueItem (on_clock e c) r (to_status st))
      (updateQueueItemInState r t (to_status st)) (\<lambda>_. Some t) (\<lambda>_. ?I)" for r st
    by (rule sim_update) simp
  have body: "sim e (Some t) ?I
      (\<lambda>c. sx_bind (sx_modify (lease_set (el_leaseId l) ?m)) (\<lambda>_.
       sx_bind (sx_gets (\<lambda>s. queue_get s (el_runId l))) (\<lambda>item. case item of None \<Rightarrow> sx_return ()
         | Some i \<Rightarrow> if qi_status i \<noteq> Leased then sx_return ()
             else sx_bind (updateQueueItem (on_clock e c) (el_runId l) (to_status (retry_status i))) (\<lambda>_. sx_return ()))))
      (sx_bind (edit (\<lambda>st. st\<lparr>st_leases := (st_leases st)[i := ?m]\<rparr>)) (\<lambda>_.
       sx_bind (sx_gets (\<lambda>w. findQueueItem (wk_state w) (el_runId l))) (\<lambda>item. case item of None \<Rightarrow> sx_return ()
         | Some i \<Rightarrow> if qi_status i \<noteq> Leased then sx_return ()
             else sx_bind (updateQueueItemInState (el_runId l) t (to_status (retry_status i))) (\<lambda>_. sx_return ()))))
      (\<lambda>_. Some t) (\<lambda>_. ?I)"
    by (rule sim_bind [where R = "\<lambda>_. ?I", OF sim_modify sim_bind [where R = "\<lambda>_. ?I", OF sim_gets]],
        rule set) (auto simp: get_find intro!: sim_option sim_if sim_return sim_bind [OF step])
  then show ?thesis using False by (simp add: expire_lease_def expire_entry_def)
qed

lemma sim_expire:
  "sim e L fresh_ids (\<lambda>c. expireLeases (on_clock e c)) (sx_bind (fs_clock_now e) (expireLeasesInState e))
     (\<lambda>_. None) (\<lambda>_. fresh_ids)"
proof -
  have loop: "sim e (Some t) (\<lambda>s. fresh_ids s \<and> map snd (ms_leases s) = ls)
      (\<lambda>c. sx_each (expire_lease (on_clock e c) now) ls) (sx_each (expire_entry e t now) (enumerate 0 ls))
      (\<lambda>_. None) (\<lambda>_. fresh_ids)" for t now ls
  proof -
    let ?ks = "map el_leaseId ls"
    have "list_all2 (\<lambda>l p. sim e (Some t) (\<lambda>s. map fst (ms_leases s) = ?ks \<and> fresh_ids s)
        (\<lambda>c. expire_lease (on_clock e c) now l) (expire_entry e t now p) (\<lambda>_. Some t)
        (\<lambda>_ s. map fst (ms_leases s) = ?ks \<and> fresh_ids s)) ls (enumerate 0 ls)"
      by (auto simp: list_all2_conv_all_nth nth_enumerate_eq intro!: sim_expire_one)
    from sim_each [OF this] show ?thesis
      by (rule sim_post [OF sim_pre]) (use keys_of_values in auto)
  qed
  have rest: "sim e (Some t) fresh_ids
      (\<lambda>c. sx_bind (sx_lift (parseTimestamp e t)) (\<lambda>now. sx_bind (sx_gets (\<lambda>s. map snd (ms_leases s)))
        (sx_each (expire_lease (on_clock e c) now)))) (expireLeasesInState e t) (\<lambda>_. None) (\<lambda>_. fresh_ids)" for t
    unfolding expireLeasesInState_def
    by (rule sim_bind [where R = "\<lambda>_. fresh_ids", OF sim_lift sim_gets_bind [where t = "enumerate 0"]])
      (auto intro: loop)
  show ?thesis
    unfolding expireLeases_def clockless
    by (rule sim_bind [where R = "\<lambda>_. fresh_ids", OF sim_clock rest]) simp
qed

section \<open>The methods\<close>

lemma sim_enqueue:
  "sim e L fresh_ids (\<lambda>c. enqueueRun (on_clock e c) r m d) (fs_enqueue e r m d) (\<lambda>_. None) (\<lambda>_. fresh_ids)"
proof -
  have add: "to_fs (queue_set r i s) = to_fs s\<lparr>st_queue := st_queue (to_fs s) @ [i]\<rparr>"
    if "queue_get s r = None" for s i using that by (simp add: to_fs_queue_set)
  have new: "sim e (Some t) (\<lambda>s. fresh_ids s \<and> queue_get s r = None)
      (\<lambda>c. sx_bind (sx_modify (queue_set r i)) (\<lambda>_. sx_bind (sx_modify (\<lambda>s. s\<lparr>ms_queueOrder := ms_queueOrder s @ [r]\<rparr>))
        (\<lambda>_. sx_return i)))
      (sx_bind (edit (\<lambda>st. st\<lparr>st_queue := st_queue st @ [i]\<rparr>)) (\<lambda>_.
        sx_bind (edit (\<lambda>st. st\<lparr>st_queueOrder := st_queueOrder st @ [r]\<rparr>)) (\<lambda>_. sx_return i)))
      (\<lambda>_. None) (\<lambda>_. fresh_ids)" if "qi_runId i = r" for t i
    by (rule sim_forget [where ?L1.0 = "\<lambda>_. Some t"], rule sim_bind [where R = "\<lambda>_. fresh_ids", OF sim_modify],
        simp add: add that, rule sim_bind [where R = "\<lambda>_. fresh_ids", OF sim_modify sim_return]) simp_all
  have found: "sim e L (\<lambda>s. fresh_ids s \<and> queue_get s r = v)
      (\<lambda>c. case v of Some existing \<Rightarrow>
         (if qi_status existing = Completed \<or> qi_status existing = Exhausted
          then sx_throw (Err (js ''run_not_enqueueable:'' @ queue_status_name (qi_status existing)))
          else sx_return existing)
       | None \<Rightarrow> sx_bind (clock_now (on_clock e c)) (\<lambda>now. sx_bind (sx_modify (queue_set r (i now))) (\<lambda>_.
           sx_bind (sx_modify (\<lambda>s. s\<lparr>ms_queueOrder := ms_queueOrder s @ [r]\<rparr>)) (\<lambda>_. sx_return (i now)))))
      (case v of Some existing \<Rightarrow>
         (if qi_status existing = Completed \<or> qi_status existing = Exhausted
          then sx_throw (Err (js ''run_not_enqueueable:'' @ queue_status_name (qi_status existing)))
          else sx_return existing)
       | None \<Rightarrow> sx_bind (fs_clock_now e) (\<lambda>now. sx_bind (edit (\<lambda>st. st\<lparr>st_queue := st_queue st @ [i now]\<rparr>)) (\<lambda>_.
           sx_bind (edit (\<lambda>st. st\<lparr>st_queueOrder := st_queueOrder st @ [r]\<rparr>)) (\<lambda>_. sx_return (i now)))))
      (\<lambda>_. None) (\<lambda>_. fresh_ids)" if "\<And>now. qi_runId (i now) = r" for v i
  proof (cases v)
    case None
    have "sim e L (\<lambda>s. fresh_ids s \<and> queue_get s r = None)
      (\<lambda>c. sx_bind (clock_now (on_clock e c)) (\<lambda>now. sx_bind (sx_modify (queue_set r (i now))) (\<lambda>_.
           sx_bind (sx_modify (\<lambda>s. s\<lparr>ms_queueOrder := ms_queueOrder s @ [r]\<rparr>)) (\<lambda>_. sx_return (i now)))))
      (sx_bind (fs_clock_now e) (\<lambda>now. sx_bind (edit (\<lambda>st. st\<lparr>st_queue := st_queue st @ [i now]\<rparr>)) (\<lambda>_.
           sx_bind (edit (\<lambda>st. st\<lparr>st_queueOrder := st_queueOrder st @ [r]\<rparr>)) (\<lambda>_. sx_return (i now)))))
      (\<lambda>_. None) (\<lambda>_. fresh_ids)"
      by (rule sim_bind [where R = "\<lambda>_ s. fresh_ids s \<and> queue_get s r = None", OF sim_clock new]) (simp_all add: that)
    then show ?thesis using None by simp
  next
    case (Some x)
    then show ?thesis by (auto intro!: sim_forget [OF sim_return] sim_throw)
  qed
  show ?thesis
    unfolding enqueueRun_def fs_enqueue_def Let_def on_clock_defaults
    by (rule sim_bind [where R = "\<lambda>v s. fresh_ids s \<and> queue_get s r = v", OF sim_gets found]) (simp_all add: get_find)
qed

lemma fresh_next:
  "fresh_ids s \<Longrightarrow> lease_get s (formatLeaseId r a (Suc (ms_leaseSequence s))) = None"
  unfolding fresh_ids_def using formatLeaseId_sequence
  by (metis Suc_n_not_le_n not_None_eq)

lemma sim_grant:
  "sim e L fresh_ids (\<lambda>c. grant_lease (on_clock e c) w d r i) (fs_grant e w d r i) (\<lambda>_. None) (\<lambda>_ s. True)"
proof -
  let ?l = "\<lambda>t k x. \<lparr>el_leaseId = k, el_runId = r, el_workerId = w, el_acquiredAt = t, el_expiresAt = x,
      el_heartbeatAt = None, el_releasedAt = None, sl_status = Active,
      sl_attempt = qi_attempts i + 1, sl_result = None, sl_error = None\<rparr>"
  let ?p = "\<lambda>k. \<lparr>pt_status = Some Leased, pt_attempts = Some (qi_attempts i + 1),
      pt_lastLeaseId = Some k, pt_lastError = None\<rparr>"
  have id: "sim e L fresh_ids (\<lambda>c. createLeaseId r a)
      (sx_bind (edit (\<lambda>st. st\<lparr>st_leaseSequence := Suc (st_leaseSequence st)\<rparr>))
        (\<lambda>_. sx_gets (\<lambda>w. formatLeaseId r a (st_leaseSequence (wk_state w)))))
      (\<lambda>_. L) (\<lambda>k s. lease_get s k = None)" for L a
    unfolding createLeaseId_def
    by (rule sim_bind [where R = "\<lambda>_ s. lease_get s (formatLeaseId r a (ms_leaseSequence s)) = None",
          OF sim_modify sim_gets]) (auto simp: fresh_next)
  have push: "sim e L (\<lambda>s. lease_get s k = None) (\<lambda>c. sx_modify (lease_set k l))
      (edit (\<lambda>st. st\<lparr>st_leases := st_leases st @ [l]\<rparr>)) (\<lambda>_. L) (\<lambda>_ _. True)" if "el_leaseId l = k" for L k l
    by (rule sim_modify) (simp add: that to_fs_lease_set)
  have rest: "sim e (Some t) (\<lambda>s. lease_get s k = None)
      (\<lambda>c. sx_bind (sx_lift (addMilliseconds e t (case d of None \<Rightarrow> qi_leaseDurationMs i | Some n \<Rightarrow> n)))
        (\<lambda>x. sx_bind (sx_modify (lease_set k (?l t k x))) (\<lambda>_. sx_bind (updateQueueItem (on_clock e c) r (?p k))
          (\<lambda>_. sx_return (?l t k x)))))
      (sx_bind (sx_lift (addMilliseconds e t (case d of None \<Rightarrow> qi_leaseDurationMs i | Some n \<Rightarrow> n)))
        (\<lambda>x. sx_bind (edit (\<lambda>st. st\<lparr>st_leases := st_leases st @ [?l t k x]\<rparr>))
          (\<lambda>_. sx_bind (updateQueueItemInState r t (?p k)) (\<lambda>_. sx_return (?l t k x))))) (\<lambda>_. None) (\<lambda>_ s. True)" for t k
    by (rule sim_bind [where R = "\<lambda>_ s. lease_get s k = None", OF sim_lift
          sim_bind [where R = "\<lambda>_ _. True", OF push
            sim_bind [where R = "\<lambda>_ _. True", OF sim_update sim_forget [OF sim_return]]]]) simp_all
  show ?thesis
    unfolding grant_lease_def fs_grant_def Let_def clockless
    by (rule sim_bind [where R = "\<lambda>_. fresh_ids", OF sim_clock], simp, subst sx_bind_assoc [symmetric],
        rule sim_bind [OF id rest])
qed

lemma sim_acquire_loop:
  "sim e L fresh_ids (\<lambda>c. acquire_loop (on_clock e c) w d rs) (fs_acquire_loop e w d rs) (\<lambda>_. None) (\<lambda>_ _. True)"
proof (induction rs arbitrary: L)
  case Nil
  show ?case by (simp add: sim_forget [OF sim_return])
next
  case (Cons r rs)
  have exhaust: "sim e L fresh_ids
      (\<lambda>c. sx_bind (updateQueueItem (on_clock e c) r (to_status Exhausted)) (\<lambda>_. acquire_loop (on_clock e c) w d rs))
      (sx_bind (fs_clock_now e) (\<lambda>now. sx_bind (updateQueueItemInState r now (to_status Exhausted))
        (\<lambda>_. fs_acquire_loop e w d rs))) (\<lambda>_. None) (\<lambda>_ _. True)" for L
    by (rule sim_fs_clock, rule sim_bind [where R = "\<lambda>_. fresh_ids", OF sim_update Cons.IH]) simp
  have grant: "sim e L fresh_ids (\<lambda>c. sx_bind (grant_lease (on_clock e c) w d r i) (\<lambda>l. sx_return (Some l)))
      (sx_bind (fs_grant e w d r i) (\<lambda>l. sx_return (Some l))) (\<lambda>_. None) (\<lambda>_ _. True)" for L i
    by (rule sim_bind [where R = "\<lambda>_ _. True", OF sim_grant sim_return]) simp
  show ?case
    unfolding acquire_loop.simps fs_acquire_loop.simps
    by (rule sim_bind [where R = "\<lambda>_. fresh_ids", OF sim_gets])
      (auto simp: get_find hasActiveLease_def hasActiveLeaseInState_def
        intro!: sim_option sim_if Cons.IH exhaust grant)
qed

lemma sim_after_expiry:
  assumes "\<And>L. sim e L fresh_ids m f (\<lambda>_. None) Q"
  shows "sim e L fresh_ids (\<lambda>c. sx_bind (expireLeases (on_clock e c)) (\<lambda>_. m c))
    (sx_bind (fs_clock_now e) (\<lambda>t. sx_bind (expireLeasesInState e t) (\<lambda>_. f))) (\<lambda>_. None) Q"
  unfolding sx_bind_assoc [symmetric] by (rule sim_bind [OF sim_expire assms])

lemma sim_acquire:
  "sim e L fresh_ids (\<lambda>c. acquireLease (on_clock e c) w d) (fs_acquire e w d) (\<lambda>_. None) (\<lambda>_ _. True)"
  unfolding acquireLease_def fs_acquire_def
  by (rule sim_after_expiry, rule sim_bind [where R = "\<lambda>_. fresh_ids", OF sim_gets sim_acquire_loop]) simp

abbreviation holds_lease :: "str \<Rightarrow> lease \<Rightarrow> scheduler \<Rightarrow> bool" where
  "holds_lease k l s \<equiv> lease_get s k = Some l \<and> el_leaseId l = k"

text \<open>The common frame of the methods that settle a lease.\<close>

lemma sim_settle:
  assumes body: "\<And>L l. el_leaseId l = k \<Longrightarrow> sim e L (holds_lease k l) (\<lambda>c. m c l) (f l) (\<lambda>_. None) Q"
  shows "sim e L fresh_ids
    (\<lambda>c. sx_bind (expireLeases (on_clock e c)) (\<lambda>_. sx_bind (requireLease k) (\<lambda>l. sx_bind (require_active l) (\<lambda>_. m c l))))
    (sx_bind (fs_clock_now e) (\<lambda>t. sx_bind (expireLeasesInState e t) (\<lambda>_.
      sx_bind (requireLeaseInState k) (\<lambda>l. sx_bind (fs_require_active l) (\<lambda>_. f l))))) (\<lambda>_. None) Q"
proof -
  have "sim e L (holds_lease k l) (\<lambda>c. m c l) (f l) (\<lambda>_. None) Q" for L l
    using body by (cases "el_leaseId l = k") (simp_all add: sim_def)
  then show ?thesis
    by (intro sim_after_expiry sim_bind [where R = "holds_lease k", OF sim_require_lease] sim_bind [OF sim_active])
      (auto dest: get_keyed(2))
qed

lemma sim_renew:
  "sim e L fresh_ids (\<lambda>c. renewLease (on_clock e c) k d) (fs_renew e k d) (\<lambda>_. None) (\<lambda>_ _. True)"
  unfolding renewLease_def fs_renew_def Let_def clockless
proof (rule sim_settle)
  fix L and l :: lease assume k: "el_leaseId l = k"
  let ?m = "\<lambda>now x. l\<lparr>el_heartbeatAt := Some now, el_expiresAt := x\<rparr>"
  have put: "sim e L (holds_lease k l) (\<lambda>c. sx_modify (lease_set k (?m t x))) (replaceLeaseInState k (?m t x))
      (\<lambda>_. L) (\<lambda>_ _. True)" for L t x
    by (rule sim_replace) (use k in auto)
  show "sim e L (holds_lease k l)
     (\<lambda>c. sx_bind (requireQueueItem (el_runId l)) (\<lambda>item. sx_bind (clock_now (on_clock e c)) (\<lambda>now.
       sx_bind (sx_lift (addMilliseconds e now (case d of None \<Rightarrow> qi_leaseDurationMs item | Some n \<Rightarrow> n)))
       (\<lambda>x. sx_bind (sx_modify (lease_set k (?m now x))) (\<lambda>_. sx_return (?m now x))))))
     (sx_bind (requireQueueItemInState (el_runId l)) (\<lambda>item. sx_bind (fs_clock_now e) (\<lambda>now.
       sx_bind (sx_lift (addMilliseconds e now (case d of None \<Rightarrow> qi_leaseDurationMs item | Some n \<Rightarrow> n)))
       (\<lambda>x. sx_bind (replaceLeaseInState k (?m now x)) (\<lambda>_. sx_return (?m now x)))))) (\<lambda>_. None) (\<lambda>_ _. True)"
    by (rule sim_bind [where R = "\<lambda>_. holds_lease k l", OF sim_require_item], simp,
        rule sim_bind [where R = "\<lambda>_. holds_lease k l", OF sim_clock], simp,
        rule sim_bind [where R = "\<lambda>_. holds_lease k l", OF sim_lift], simp,
        rule sim_bind [where R = "\<lambda>_ _. True", OF put], rule sim_forget [OF sim_return], simp)
qed

lemma sim_release:
  "sim e L fresh_ids (\<lambda>c. releaseLease (on_clock e c) k x) (fs_release e k x) (\<lambda>_. None) (\<lambda>_ _. True)"
  unfolding releaseLease_def fs_release_def Let_def
proof (rule sim_settle)
  fix L and l :: lease assume k: "el_leaseId l = k"
  let ?m = "\<lambda>now. l\<lparr>sl_status := Released, el_releasedAt := Some now, sl_result := Some x\<rparr>"
  have put: "sim e L (holds_lease k l) (\<lambda>c. sx_modify (lease_set k (?m t))) (replaceLeaseInState k (?m t))
      (\<lambda>_. L) (\<lambda>_ _. True)" for L t
    by (rule sim_replace) (use k in auto)
  show "sim e L (holds_lease k l)
     (\<lambda>c. sx_bind (clock_now (on_clock e c)) (\<lambda>now. sx_bind (sx_modify (lease_set k (?m now)))
       (\<lambda>_. sx_bind (updateQueueItem (on_clock e c) (el_runId l) (to_status Completed)) (\<lambda>_. sx_return (?m now)))))
     (sx_bind (fs_clock_now e) (\<lambda>now. sx_bind (replaceLeaseInState k (?m now))
       (\<lambda>_. sx_bind (updateQueueItemInState (el_runId l) now (to_status Completed)) (\<lambda>_. sx_return (?m now)))))
     (\<lambda>_. None) (\<lambda>_ _. True)"
    by (rule sim_bind [where R = "\<lambda>_. holds_lease k l", OF sim_clock], simp,
        rule sim_bind [where R = "\<lambda>_ _. True", OF put],
        rule sim_bind [where R = "\<lambda>_ _. True", OF sim_update], simp, rule sim_forget [OF sim_return], simp)
qed

lemma sim_fail:
  "sim e L fresh_ids (\<lambda>c. failLease (on_clock e c) k x) (fs_fail e k x) (\<lambda>_. None) (\<lambda>_ _. True)"
  unfolding failLease_def fs_fail_def Let_def
proof (rule sim_settle)
  fix L and l :: lease assume k: "el_leaseId l = k"
  let ?m = "\<lambda>now y. l\<lparr>sl_status := LFailed, el_releasedAt := Some now, sl_error := Some y\<rparr>"
  let ?p = "\<lambda>item y. \<lparr>pt_status = Some (retry_status item), pt_attempts = None, pt_lastLeaseId = None,
      pt_lastError = Some y\<rparr>"
  have put: "sim e L (holds_lease k l) (\<lambda>c. sx_modify (lease_set k (?m t y))) (replaceLeaseInState k (?m t y))
      (\<lambda>_. L) (\<lambda>_ _. True)" for L t y
    by (rule sim_replace) (use k in auto)
  show "sim e L (holds_lease k l)
     (\<lambda>c. sx_bind (sx_lift (normalizeError x)) (\<lambda>y. sx_bind (clock_now (on_clock e c)) (\<lambda>now.
       sx_bind (sx_modify (lease_set k (?m now y))) (\<lambda>_. sx_bind (requireQueueItem (el_runId l)) (\<lambda>item.
       sx_bind (updateQueueItem (on_clock e c) (el_runId l) (?p item y)) (\<lambda>_. sx_return (?m now y)))))))
     (sx_bind (sx_lift (normalizeError x)) (\<lambda>y. sx_bind (fs_clock_now e) (\<lambda>now.
       sx_bind (replaceLeaseInState k (?m now y)) (\<lambda>_. sx_bind (requireQueueItemInState (el_runId l)) (\<lambda>item.
       sx_bind (updateQueueItemInState (el_runId l) now (?p item y)) (\<lambda>_. sx_return (?m now y)))))))
     (\<lambda>_. None) (\<lambda>_ _. True)"
    by (rule sim_bind [where R = "\<lambda>_. holds_lease k l", OF sim_lift], simp,
        rule sim_bind [where R = "\<lambda>_. holds_lease k l", OF sim_clock], simp,
        rule sim_bind [where R = "\<lambda>_ _. True", OF put],
        rule sim_bind [where R = "\<lambda>_ _. True", OF sim_require_item], simp,
        rule sim_bind [where R = "\<lambda>_ _. True", OF sim_update], simp, rule sim_forget [OF sim_return], simp)
qed

lemma sim_map:
  "sim e L P m f (\<lambda>_. None) (\<lambda>_ _. True) \<Longrightarrow>
   sim e L P (\<lambda>c. sx_map g (m c)) (sx_map g f) (\<lambda>_. None) (\<lambda>_ _. True)"
  unfolding sx_map_def by (rule sim_bind [OF _ sim_return]) simp_all

lemma sim_call:
  "sim e None fresh_ids (\<lambda>c. mem_call (on_clock e c) x) (fs_mutation e x) (\<lambda>_. None) (\<lambda>_ _. True)"
proof -
  have find: "findQueueItem (to_fs s) = queue_get s" if "keyed s" for s
    using get_find(1) [OF that] by blast
  have queue: "sim e L fresh_ids (\<lambda>c. sx_gets (\<lambda>s. List.map_filter (queue_get s) (ms_queueOrder s)))
      (sx_gets (\<lambda>w. List.map_filter (findQueueItem (wk_state w)) (st_queueOrder (wk_state w)))) (\<lambda>_. None) (\<lambda>_ _. True)" for L
    by (rule sim_forget, rule sim_gets) (simp add: find)
  have leases: "sim e L fresh_ids (\<lambda>c. sx_gets (\<lambda>s. map snd (ms_leases s)))
      (sx_gets (\<lambda>w. st_leases (wk_state w))) (\<lambda>_. None) (\<lambda>_ _. True)" for L
    by (rule sim_forget, rule sim_gets) simp
  have lists: "sim e None fresh_ids (\<lambda>c. listQueue (on_clock e c)) (fs_listQueue e) (\<lambda>_. None) (\<lambda>_ _. True)"
    "sim e None fresh_ids (\<lambda>c. listLeases (on_clock e c)) (fs_listLeases e) (\<lambda>_. None) (\<lambda>_ _. True)"
    unfolding listQueue_def fs_listQueue_def listLeases_def fs_listLeases_def
    by (rule sim_after_expiry, rule queue, rule sim_after_expiry, rule leases)
  show ?thesis
    by (cases x) (auto intro!: sim_map sim_acquire sim_renew sim_release sim_fail lists sim_post [OF sim_enqueue])
qed

section \<open>The file-system scheduler implements the in-memory scheduler\<close>

lemma sx_map_state [simp]: "snd (sx_map f m s) = snd (m s)"
  by (simp add: sx_map_def sx_bind_def sx_return_def split: prod.splits sum.splits)

lemma mem_call_state: "snd (mem_call e x s) = call_state e x s"
  by (cases x) simp_all

text \<open>
  A call of the in-memory scheduler on a copy of its state, which is kept only when the call returns
  and the result is a valid document. The in-memory class itself has no such copy: a call that throws
  keeps the leases it has expired by then.
\<close>

definition mem_transaction :: "sched_env \<Rightarrow> sched_call \<Rightarrow> (scheduler, err, sched_reply) sx" where
  "mem_transaction e x = (\<lambda>s. case mem_call e x s of
     (Inl err, _) \<Rightarrow> (Inl err, s)
   | (Inr v, s') \<Rightarrow> if FileSystemSchedulerStateSchema (to_fs s') then (Inr v, s') else (Inl ZodError, s))"

lemma transaction_inv: "sched_inv s \<Longrightarrow> sched_inv (snd (mem_transaction e x s))"
  using inv_steps [OF call_steps [of s e x]] mem_call_state [of e x s]
  by (auto simp: mem_transaction_def split: prod.splits sum.splits)

text \<open>
  A clock that shows the readings with the numbers \<open>f 0, f 1, ...\<close>: in order, some repeated, some left out,
  from a call that starts at tick \<open>a\<close> and ends at \<open>b\<close> or next to it.
\<close>

definition retiming :: "nat \<Rightarrow> nat \<Rightarrow> (nat \<Rightarrow> nat) \<Rightarrow> bool" where
  "retiming a b f \<longleftrightarrow> mono f \<and> (\<forall>n. a - 1 \<le> f n \<and> f n \<le> b)"

abbreviation retimed :: "sched_env \<Rightarrow> (nat \<Rightarrow> nat) \<Rightarrow> sched_env" where
  "retimed e f \<equiv> on_clock e (\<lambda>n. se_clock e (f n))"

lemma retiming_of_list:
  assumes "sorted ns" and "\<forall>n \<in> set ns. a - 1 \<le> n \<and> n < b" and "a \<le> b"
  obtains f where "retiming a b f" "\<forall>i < length ns. f (t + i) = ns ! i"
proof
  let ?f = "\<lambda>k. if k < t then a - 1 else if k - t < length ns then ns ! (k - t) else b"
  have in_range: "a - 1 \<le> ns ! i \<and> ns ! i \<le> b" if "i < length ns" for i
    using assms(2) that by (meson less_imp_le nth_mem)
  have "?f j \<le> ?f k" if "j \<le> k" for j k
    using that in_range assms(3) sorted_nth_mono [OF assms(1), of "j - t" "k - t"] by (auto simp: diff_le_mono)
  then show "retiming a b ?f" using in_range assms(3) by (auto simp: retiming_def mono_def)
qed simp

lemma fs_call_implements:
  assumes inv: "sched_inv s" and d: "readState d = Inr (to_fs s)"
  obtains f where "retiming (fs_tick d) (fs_tick (snd (fs_call e x d))) f"
    and "fst (fs_call e x d) = fst (mem_transaction (retimed e f) x s)"
    and "readState (snd (fs_call e x d)) = Inr (to_fs (snd (mem_transaction (retimed e f) x s)))"
proof -
  let ?w = "\<lparr>wk_state = to_fs s, wk_tick = fs_tick d\<rparr>"
  obtain q w' where q: "fs_mutation e x ?w = (q, w')" by (cases "fs_mutation e x ?w")
  from simD [OF sim_call [of e x] keyed_inv [OF inv] fresh_ids_inv [OF inv], of ?w]
  obtain ns r s' where run: "sim_run e (\<lambda>c. mem_call (on_clock e c) x) (fs_mutation e x) (\<lambda>_. None) (\<lambda>_ _. True) s ?w ns r s'"
    by auto
  then have "sorted ns" "\<forall>n \<in> set ns. fs_tick d - 1 \<le> n \<and> n < wk_tick w'" "fs_tick d \<le> wk_tick w'"
    using q by (simp_all add: sim_run_def)
  from retiming_of_list [OF this, of "ms_tick s"] obtain f where
    f: "retiming (fs_tick d) (wk_tick w') f" "\<forall>i < length ns. f (ms_tick s + i) = ns ! i" .
  then have "shows_readings e (\<lambda>n. se_clock e (f n)) (ms_tick s) ns" by (simp add: shows_readings_def)
  then have m: "mem_call (retimed e f) x s = (r, s')" using run by (simp add: sim_run_def)
  have tick: "fs_tick (snd (fs_call e x d)) = wk_tick w'"
    using q d by (simp add: fs_call_def withStateMutation_def split: sum.splits)
  have d': "readState (d\<lparr>fs_tick := n\<rparr>) = Inr (to_fs s)" for n using d by (simp add: readState_def)
  show thesis
  proof (rule that [of f])
    show "retiming (fs_tick d) (fs_tick (snd (fs_call e x d))) f" using f(1) tick by simp
    show "fst (fs_call e x d) = fst (mem_transaction (retimed e f) x s)"
      using run m q d
      by (auto simp: sim_run_def fs_call_def withStateMutation_def mem_transaction_def zod_parse_def split: sum.splits)
    show "readState (snd (fs_call e x d)) = Inr (to_fs (snd (mem_transaction (retimed e f) x s)))"
      using run m q d d'
      by (auto simp: sim_run_def fs_call_def withStateMutation_def mem_transaction_def zod_parse_def readState_def
          split: sum.splits)
  qed
qed

text \<open>A history: each call with the environment it runs in.\<close>

definition fs_history :: "(sched_env \<times> sched_call) list \<Rightarrow> fs_scheduler \<Rightarrow> fs_scheduler" where
  "fs_history hs d = fold (\<lambda>(e, x) d. snd (fs_call e x d)) hs d"

fun fs_replies :: "(sched_env \<times> sched_call) list \<Rightarrow> fs_scheduler \<Rightarrow> (err + sched_reply) list" where
  "fs_replies [] d = []"
| "fs_replies ((e, x) # hs) d = fst (fs_call e x d) # fs_replies hs (snd (fs_call e x d))"

definition mem_history :: "(sched_env \<times> sched_call) list \<Rightarrow> scheduler \<Rightarrow> scheduler" where
  "mem_history hs s = fold (\<lambda>(e, x) s. snd (mem_transaction e x s)) hs s"

fun mem_replies :: "(sched_env \<times> sched_call) list \<Rightarrow> scheduler \<Rightarrow> (err + sched_reply) list" where
  "mem_replies [] s = []"
| "mem_replies ((e, x) # hs) s = fst (mem_transaction e x s) # mem_replies hs (snd (mem_transaction e x s))"

abbreviation retime :: "(sched_env \<times> sched_call) list \<Rightarrow> (nat \<Rightarrow> nat) list \<Rightarrow> (sched_env \<times> sched_call) list" where
  "retime hs fs \<equiv> map2 (\<lambda>(e, x) f. (retimed e f, x)) hs fs"

lemma history_implements:
  assumes "sched_inv s" and "readState d = Inr (to_fs s)"
  shows "\<exists>fs. length fs = length hs \<and>
    (\<forall>i < length hs. retiming (fs_tick (fs_history (take i hs) d)) (fs_tick (fs_history (take (Suc i) hs) d)) (fs ! i)) \<and>
    fs_replies hs d = mem_replies (retime hs fs) s \<and>
    readState (fs_history hs d) = Inr (to_fs (mem_history (retime hs fs) s)) \<and> sched_inv (mem_history (retime hs fs) s)"
  using assms
proof (induction hs arbitrary: s d)
  case Nil
  then show ?case by (simp add: fs_history_def mem_history_def)
next
  case (Cons h hs)
  obtain e x where h: "h = (e, x)" by (cases h)
  from fs_call_implements [OF Cons.prems, of e x] obtain f where
    f: "retiming (fs_tick d) (fs_tick (snd (fs_call e x d))) f"
      "fst (fs_call e x d) = fst (mem_transaction (retimed e f) x s)"
      "readState (snd (fs_call e x d)) = Inr (to_fs (snd (mem_transaction (retimed e f) x s)))" .
  from Cons.IH [OF transaction_inv [OF Cons.prems(1)] f(3)] obtain fs where
    fs: "length fs = length hs"
      "\<forall>i < length hs. retiming (fs_tick (fs_history (take i hs) (snd (fs_call e x d))))
         (fs_tick (fs_history (take (Suc i) hs) (snd (fs_call e x d)))) (fs ! i)"
      "fs_replies hs (snd (fs_call e x d)) = mem_replies (retime hs fs) (snd (mem_transaction (retimed e f) x s))"
      "readState (fs_history hs (snd (fs_call e x d))) =
         Inr (to_fs (mem_history (retime hs fs) (snd (mem_transaction (retimed e f) x s))))"
      "sched_inv (mem_history (retime hs fs) (snd (mem_transaction (retimed e f) x s)))" by blast
  have "retiming (fs_tick (fs_history (take i (h # hs)) d)) (fs_tick (fs_history (take (Suc i) (h # hs)) d)) ((f # fs) ! i)"
    if "i < length (h # hs)" for i
    using that f(1) fs(2) by (cases i) (auto simp: fs_history_def h)
  then show ?case
    using fs(1,3-5) f(2) by (intro exI [of _ "f # fs"]) (simp add: h fs_history_def mem_history_def)
qed

text \<open>
  C7: The file-system scheduler implements the in-memory scheduler. For every history of calls on a
  fresh directory, whatever the clock does and whichever calls throw, the in-memory scheduler run on
  copies, so that a call that throws or leaves an invalid document changes nothing, gives the same replies
  and ends in the state that the document on disk describes, provided its clock shows readings that
  the file-system scheduler made around the same call, in the same order: the classes read the clock a
  different number of times.
\<close>

theorem fs_refines_memory:
  "\<exists>fs. length fs = length hs \<and>
    (\<forall>i < length hs. retiming (fs_tick (fs_history (take i hs) \<lparr>fs_disk = None, fs_tick = n\<rparr>))
       (fs_tick (fs_history (take (Suc i) hs) \<lparr>fs_disk = None, fs_tick = n\<rparr>)) (fs ! i)) \<and>
    fs_replies hs \<lparr>fs_disk = None, fs_tick = n\<rparr> = mem_replies (retime hs fs) (new_scheduler m) \<and>
    readState (fs_history hs \<lparr>fs_disk = None, fs_tick = n\<rparr>) = Inr (to_fs (mem_history (retime hs fs) (new_scheduler m)))"
proof -
  have "readState \<lparr>fs_disk = None, fs_tick = n\<rparr> = Inr (to_fs (new_scheduler m))"
    by (simp add: readState_def to_fs_def new_scheduler_def createEmptyFileSystemSchedulerState_def)
  from history_implements [OF sched_inv_new this] show ?thesis by blast
qed

lemma fs_history_inv:
  assumes "sched_inv s" and "readState d = Inr (to_fs s)"
  shows "\<exists>t. sched_inv t \<and> readState (fs_history hs d) = Inr (to_fs t)"
  using history_implements [OF assms, of hs] by blast

text \<open>
  The document on disk is always sound. After any history of calls on a fresh directory the document can be read back, no run has two active leases, a
  run is leased exactly when it has an active lease, and its attempts are the number of its leases
  and within its limit.
\<close>

theorem fs_document_sound:
  "\<exists>st. readState (fs_history hs \<lparr>fs_disk = None, fs_tick = n\<rparr>) = Inr st \<and>
    (\<forall>l \<in> set (st_leases st). \<forall>l' \<in> set (st_leases st). el_runId l = el_runId l' \<and>
       sl_status l = Active \<and> sl_status l' = Active \<longrightarrow> l = l') \<and>
    (\<forall>i \<in> set (st_queue st). (qi_status i = Leased \<longleftrightarrow> hasActiveLeaseInState st (qi_runId i)) \<and>
       qi_attempts i = int (length (filter (\<lambda>l. el_runId l = qi_runId i) (st_leases st))) \<and>
       qi_attempts i \<le> max 0 (qi_maxAttempts i))"
proof -
  have "readState \<lparr>fs_disk = None, fs_tick = n\<rparr> = Inr (to_fs (new_scheduler 0))"
    by (simp add: readState_def to_fs_def new_scheduler_def createEmptyFileSystemSchedulerState_def)
  from fs_history_inv [OF sched_inv_new this] obtain t
    where t: "sched_inv t" "readState (fs_history hs \<lparr>fs_disk = None, fs_tick = n\<rparr>) = Inr (to_fs t)" by blast
  have get: "lease_get t (el_leaseId l) = Some l" if "l \<in> set (map snd (ms_leases t))" for l
    using that keyed_inv [OF t(1)] by (auto simp: keyed_def lease_get_def)
  have item: "item_inv t (qi_runId i) i" if "i \<in> set (map snd (ms_queue t))" for i
    using that keyed_inv [OF t(1)] sched_invD(4) [OF t(1), of "qi_runId i" i]
    by (auto simp: keyed_def queue_get_def)
  have qget: "queue_get t (qi_runId i) = Some i" if "i \<in> set (map snd (ms_queue t))" for i
    using that keyed_inv [OF t(1)] by (auto simp: keyed_def queue_get_def)
  have one: "l = l'" if "l \<in> set (map snd (ms_leases t))" "l' \<in> set (map snd (ms_leases t))"
      "el_runId l = el_runId l'" "sl_status l = Active" "sl_status l' = Active" for l l'
    using active_unique [OF t(1) get [OF that(1)] that(4) get [OF that(2)] that(5,3)]
      get [OF that(1)] get [OF that(2)] by (metis option.inject)
  have leased: "qi_status i = Leased \<longleftrightarrow> hasActiveLeaseInState (to_fs t) (qi_runId i)"
    if i: "i \<in> set (map snd (ms_queue t))" for i
  proof -
    have eq: "hasActiveLeaseInState (to_fs t) (qi_runId i) = hasActiveLease t (qi_runId i)"
      by (simp add: hasActiveLeaseInState_def hasActiveLease_def)
    have "\<exists>k l. lease_get t k = Some l \<and> el_runId l = qi_runId i \<and> sl_status l = Active"
      if "qi_status i = Leased" using item [OF i] that unfolding item_inv_def by blast
    moreover have "qi_status i = Leased"
      if "lease_get t k = Some l \<and> el_runId l = qi_runId i \<and> sl_status l = Active" for k l
      using lease_inv_active [OF t(1), of k l i] that qget [OF i] by simp
    ultimately show ?thesis unfolding eq hasActiveLease_iff [OF t(1)] by blast
  qed
  have counted: "qi_attempts i = int (length (filter (\<lambda>l. el_runId l = qi_runId i) (st_leases (to_fs t)))) \<and>
      qi_attempts i \<le> max 0 (qi_maxAttempts i)" if "i \<in> set (map snd (ms_queue t))" for i
    using item [OF that] by (simp add: item_inv_def leases_of_def)
  show ?thesis
    using t(2) one leased counted by (intro exI [of _ "to_fs t"]) (simp only: to_fs_simps, blast)
qed

text \<open>On a clock that stands still the two classes agree call by call.\<close>

lemma frozen_clock_agrees:
  assumes "sched_inv s" and "readState d = Inr (to_fs s)" and "\<And>n. se_clock e n = t"
  shows "fst (fs_call e x d) = fst (mem_transaction e x s)"
proof -
  from fs_call_implements [OF assms(1,2), of e x] obtain f where
    "fst (fs_call e x d) = fst (mem_transaction (retimed e f) x s)" .
  moreover have "(\<lambda>n. se_clock e (f n)) = se_clock e" using assms(3) by (simp add: fun_eq_iff)
  then have "retimed e f = e" by simp
  ultimately show ?thesis by simp
qed

definition sample_disk :: fs_scheduler where
  "sample_disk = \<lparr>fs_disk = None, fs_tick = 0\<rparr>"

theorem fs_refines_memory_witness:
  "\<exists>i. fs_replies [(sample_env, CEnqueue (js ''r'') None None)] sample_disk = [Inr (ReplyItem i)] \<and> qi_status i = Queued"
proof -
  let ?hs = "[(sample_env, CEnqueue (js ''r'') None None)]"
  from fs_refines_memory [of ?hs 0 0] obtain fs where
    fs: "length fs = length ?hs" "fs_replies ?hs sample_disk = mem_replies (retime ?hs fs) (new_scheduler 0)"
    unfolding sample_disk_def by blast
  then obtain f where "fs = [f]" by (cases fs) auto
  moreover have "retimed sample_env f = sample_env" by (simp add: sample_env_def)
  ultimately have "fs_replies ?hs sample_disk = mem_replies ?hs (new_scheduler 0)" using fs(2) by simp
  then show ?thesis
    by (simp add: mem_transaction_def sx_map_def enqueueRun_def new_scheduler_def queue_get_def queue_set_def sx_defs Let_def
        to_fs_def FileSystemSchedulerStateSchema_def SchedulerQueueItemSchema_def sample_env_def epoch_def)
qed

end
