(* ===== verification/KernelStore.thy ===== *)
theory KernelStore
  imports Contracts
begin

text \<open>
  The kernel store of \<open>packages/kernel-store/src/index.ts\<close>: tasks, runs, steps, events and artifacts,
  in the class \<open>InMemoryKernelStore\<close> (maps in insertion order) and in the class
  \<open>FileSystemKernelStore\<close> (one validated document, replaced as a whole). The locale \<open>kernel_store\<close>
  states the contract of the interface \<open>KernelStore\<close> that its clients rely on; both classes
  interpret it.
\<close>

section \<open>Filters and patches\<close>

definition matchesOptional :: "'a option \<Rightarrow> 'a option \<Rightarrow> bool" where
  "matchesOptional expected actual \<longleftrightarrow> expected = None \<or> actual = expected"

record task_filter =
  ft_taskId :: "str option"
  ft_source :: "task_source option"
  ft_createdByPrincipalId :: "str option"

record run_filter =
  fr_taskId :: "str option"
  fr_runId :: "str option"
  fr_status :: "run_status option"

record step_filter =
  fs_taskId :: "str option"
  fs_runId :: "str option"
  fs_status :: "step_status option"
  fs_type :: "step_kind option"

record event_filter =
  fe_taskId :: "str option"
  fe_runId :: "str option"
  fe_type :: "str option"

record artifact_filter =
  fa_taskId :: "str option"
  fa_runId :: "str option"
  fa_type :: "artifact_kind option"

definition matchesTask :: "task \<Rightarrow> task_filter \<Rightarrow> bool" where
  "matchesTask t f \<longleftrightarrow> matchesOptional (ft_taskId f) (Some (t_taskId t)) \<and>
     matchesOptional (ft_source f) (Some (t_source t)) \<and>
     matchesOptional (ft_createdByPrincipalId f) (map_option pr_principalId (t_createdBy t))"

definition matchesRun :: "run \<Rightarrow> run_filter \<Rightarrow> bool" where
  "matchesRun r f \<longleftrightarrow> matchesOptional (fr_taskId f) (Some (r_taskId r)) \<and>
     matchesOptional (fr_runId f) (Some (r_runId r)) \<and>
     matchesOptional (fr_status f) (Some (r_status r))"

definition matchesStep :: "kstep \<Rightarrow> step_filter \<Rightarrow> bool" where
  "matchesStep s f \<longleftrightarrow> matchesOptional (fs_taskId f) (Some (s_taskId s)) \<and>
     matchesOptional (fs_runId f) (Some (s_runId s)) \<and>
     matchesOptional (fs_status f) (Some (s_status s)) \<and>
     matchesOptional (fs_type f) (Some (s_kind s))"

definition matchesEvent :: "event \<Rightarrow> event_filter \<Rightarrow> bool" where
  "matchesEvent e f \<longleftrightarrow> matchesOptional (fe_taskId f) (e_taskId e) \<and>
     matchesOptional (fe_runId f) (e_runId e) \<and> matchesOptional (fe_type f) (Some (e_eventType e))"

definition matchesArtifact :: "artifact \<Rightarrow> artifact_filter \<Rightarrow> bool" where
  "matchesArtifact a f \<longleftrightarrow> matchesOptional (fa_taskId f) (Some (a_taskId a)) \<and>
     matchesOptional (fa_runId f) (a_runId a) \<and> matchesOptional (fa_type f) (Some (a_kind a))"

text \<open>
  \<open>Partial<Run>\<close> and \<open>Partial<Step>\<close>: \<open>None\<close> is an absent field. Under exact optional property types
  an optional field of the run cannot be patched to undefined.
\<close>

record run_patch =
  up_runId :: "str option"
  up_taskId :: "str option"
  up_status :: "run_status option"
  up_policyDecisionId :: "str option"
  up_metadata :: "run_metadata option"
  up_createdAt :: "str option"
  up_updatedAt :: "str option"
  up_completedAt :: "str option"

record step_patch =
  sp_stepId :: "str option"
  sp_runId :: "str option"
  sp_taskId :: "str option"
  sp_kind :: "step_kind option"
  sp_status :: "step_status option"
  sp_dependsOn :: "str list option"
  sp_createdAt :: "str option"
  sp_updatedAt :: "str option"
  sp_input :: "(str \<times> json) list option"
  sp_output :: "(str \<times> json) list option"

definition no_run_patch :: run_patch where
  "no_run_patch = \<lparr>up_runId = None, up_taskId = None, up_status = None, up_policyDecisionId = None,
     up_metadata = None, up_createdAt = None, up_updatedAt = None, up_completedAt = None\<rparr>"

definition no_step_patch :: step_patch where
  "no_step_patch = \<lparr>sp_stepId = None, sp_runId = None, sp_taskId = None, sp_kind = None,
     sp_status = None, sp_dependsOn = None, sp_createdAt = None, sp_updatedAt = None,
     sp_input = None, sp_output = None\<rparr>"

abbreviation orelse :: "'a option \<Rightarrow> 'a option \<Rightarrow> 'a option" where
  "orelse v d \<equiv> (case v of None \<Rightarrow> d | Some x \<Rightarrow> Some x)"

abbreviation given :: "'a option \<Rightarrow> 'a \<Rightarrow> 'a" where
  "given v d \<equiv> (case v of None \<Rightarrow> d | Some x \<Rightarrow> x)"

definition patch_run :: "str \<Rightarrow> run_patch \<Rightarrow> run \<Rightarrow> run" where
  "patch_run runId p r =
     \<lparr>r_runId = runId, r_taskId = given (up_taskId p) (r_taskId r),
      r_status = given (up_status p) (r_status r),
      r_policyDecisionId = orelse (up_policyDecisionId p) (r_policyDecisionId r),
      r_metadata = orelse (up_metadata p) (r_metadata r),
      r_createdAt = given (up_createdAt p) (r_createdAt r),
      r_updatedAt = given (up_updatedAt p) (r_updatedAt r),
      r_completedAt = orelse (up_completedAt p) (r_completedAt r)\<rparr>"

definition patch_step :: "str \<Rightarrow> step_patch \<Rightarrow> kstep \<Rightarrow> kstep" where
  "patch_step stepId p s =
     \<lparr>s_stepId = stepId, s_runId = given (sp_runId p) (s_runId s),
      s_taskId = given (sp_taskId p) (s_taskId s), s_kind = given (sp_kind p) (s_kind s),
      s_status = given (sp_status p) (s_status s),
      s_dependsOn = given (sp_dependsOn p) (s_dependsOn s),
      s_createdAt = given (sp_createdAt p) (s_createdAt s),
      s_updatedAt = given (sp_updatedAt p) (s_updatedAt s),
      s_input = given (sp_input p) (s_input s), s_output = orelse (sp_output p) (s_output s)\<rparr>"

text \<open>\<open>patch.runId && patch.runId !== runId\<close>.\<close>

definition renames :: "str option \<Rightarrow> str \<Rightarrow> bool" where
  "renames v k = (case v of None \<Rightarrow> False | Some x \<Rightarrow> x \<noteq> [] \<and> x \<noteq> k)"

section \<open>The store in memory\<close>

record mem_store =
  km_tasks :: "(str \<times> task) list"
  km_runs :: "(str \<times> run) list"
  km_steps :: "(str \<times> kstep) list"
  km_events :: "event list"
  km_eventIds :: "str set"
  km_artifacts :: "(str \<times> artifact) list"

definition new_mem_store :: mem_store where
  "new_mem_store = \<lparr>km_tasks = [], km_runs = [], km_steps = [], km_events = [], km_eventIds = {},
     km_artifacts = []\<rparr>"

type_synonym 'a mst = "(mem_store, err, 'a) sx"

definition duplicate_id :: "string \<Rightarrow> str \<Rightarrow> err" where
  "duplicate_id kind i = Err (js ''duplicate_'' @ js kind @ js ''_id:'' @ i)"

definition rejectDuplicate :: "(mem_store \<Rightarrow> (str \<times> 'a) list) \<Rightarrow> str \<Rightarrow> string \<Rightarrow> unit mst" where
  "rejectDuplicate field i kind =
     (\<lambda>s. if map_of (field s) i \<noteq> None then (Inl (duplicate_id kind i), s) else (Inr (), s))"

definition mem_createTask :: "task \<Rightarrow> task mst" where
  "mem_createTask task =
     sx_bind (sx_lift (zod_parse TaskSchema task)) (\<lambda>parsed.
     sx_bind (rejectDuplicate km_tasks (t_taskId parsed) ''task'') (\<lambda>_.
     sx_bind (sx_modify (\<lambda>s. s\<lparr>km_tasks := AList.update (t_taskId parsed) parsed (km_tasks s)\<rparr>)) (\<lambda>_.
     sx_return parsed)))"

definition mem_getTask :: "str \<Rightarrow> task option mst" where
  "mem_getTask taskId = sx_gets (\<lambda>s. map_of (km_tasks s) taskId)"

definition mem_listTasks :: "task_filter \<Rightarrow> task list mst" where
  "mem_listTasks f = sx_gets (\<lambda>s. filter (\<lambda>t. matchesTask t f) (map snd (km_tasks s)))"

definition mem_createRun :: "run \<Rightarrow> run mst" where
  "mem_createRun run =
     sx_bind (sx_lift (zod_parse RunSchema run)) (\<lambda>parsed.
     sx_bind (rejectDuplicate km_runs (r_runId parsed) ''run'') (\<lambda>_.
     sx_bind (sx_modify (\<lambda>s. s\<lparr>km_runs := AList.update (r_runId parsed) parsed (km_runs s)\<rparr>)) (\<lambda>_.
     sx_return parsed)))"

definition mem_getRun :: "str \<Rightarrow> run option mst" where
  "mem_getRun runId = sx_gets (\<lambda>s. map_of (km_runs s) runId)"

definition mem_updateRun :: "str \<Rightarrow> run_patch \<Rightarrow> run mst" where
  "mem_updateRun runId patch =
     sx_bind (sx_gets (\<lambda>s. map_of (km_runs s) runId)) (\<lambda>found.
     case found of
       None \<Rightarrow> sx_throw (Err (js ''run_not_found:'' @ runId))
     | Some existing \<Rightarrow>
         if renames (up_runId patch) runId then sx_throw (Err (js ''run_id_update_forbidden''))
         else sx_bind (sx_lift (zod_parse RunSchema (patch_run runId patch existing))) (\<lambda>updated.
              sx_bind (sx_modify (\<lambda>s. s\<lparr>km_runs := AList.update runId updated (km_runs s)\<rparr>)) (\<lambda>_.
              sx_return updated)))"

definition mem_listRuns :: "run_filter \<Rightarrow> run list mst" where
  "mem_listRuns f = sx_gets (\<lambda>s. filter (\<lambda>r. matchesRun r f) (map snd (km_runs s)))"

definition mem_createStep :: "kstep \<Rightarrow> kstep mst" where
  "mem_createStep step =
     sx_bind (sx_lift (zod_parse StepSchema step)) (\<lambda>parsed.
     sx_bind (rejectDuplicate km_steps (s_stepId parsed) ''step'') (\<lambda>_.
     sx_bind (sx_modify (\<lambda>s. s\<lparr>km_steps := AList.update (s_stepId parsed) parsed (km_steps s)\<rparr>)) (\<lambda>_.
     sx_return parsed)))"

definition mem_getStep :: "str \<Rightarrow> kstep option mst" where
  "mem_getStep stepId = sx_gets (\<lambda>s. map_of (km_steps s) stepId)"

definition mem_updateStep :: "str \<Rightarrow> step_patch \<Rightarrow> kstep mst" where
  "mem_updateStep stepId patch =
     sx_bind (sx_gets (\<lambda>s. map_of (km_steps s) stepId)) (\<lambda>found.
     case found of
       None \<Rightarrow> sx_throw (Err (js ''step_not_found:'' @ stepId))
     | Some existing \<Rightarrow>
         if renames (sp_stepId patch) stepId then sx_throw (Err (js ''step_id_update_forbidden''))
         else sx_bind (sx_lift (zod_parse StepSchema (patch_step stepId patch existing))) (\<lambda>updated.
              sx_bind (sx_modify (\<lambda>s. s\<lparr>km_steps := AList.update stepId updated (km_steps s)\<rparr>)) (\<lambda>_.
              sx_return updated)))"

definition mem_listSteps :: "str \<Rightarrow> step_filter \<Rightarrow> kstep list mst" where
  "mem_listSteps runId f = sx_gets (\<lambda>s.
     filter (\<lambda>x. matchesStep x (f\<lparr>fs_runId := Some runId\<rparr>))
       (filter (\<lambda>x. s_runId x = runId) (map snd (km_steps s))))"

definition mem_appendEvent :: "event \<Rightarrow> event mst" where
  "mem_appendEvent event =
     sx_bind (sx_lift (zod_parse EventSchema event)) (\<lambda>parsed.
     sx_bind (sx_gets km_eventIds) (\<lambda>ids.
     if e_eventId parsed \<in> ids then sx_throw (duplicate_id ''event'' (e_eventId parsed))
     else sx_bind (sx_modify (\<lambda>s. s\<lparr>km_eventIds := insert (e_eventId parsed) (km_eventIds s)\<rparr>)) (\<lambda>_.
          sx_bind (sx_modify (\<lambda>s. s\<lparr>km_events := km_events s @ [parsed]\<rparr>)) (\<lambda>_.
          sx_return parsed))))"

definition mem_listEvents :: "event_filter \<Rightarrow> event list mst" where
  "mem_listEvents f = sx_gets (\<lambda>s. filter (\<lambda>e. matchesEvent e f) (km_events s))"

definition mem_createArtifact :: "artifact \<Rightarrow> artifact mst" where
  "mem_createArtifact artifact =
     sx_bind (sx_lift (zod_parse ArtifactSchema artifact)) (\<lambda>parsed.
     sx_bind (rejectDuplicate km_artifacts (a_artifactId parsed) ''artifact'') (\<lambda>_.
     sx_bind (sx_modify (\<lambda>s. s\<lparr>km_artifacts := AList.update (a_artifactId parsed) parsed (km_artifacts s)\<rparr>)) (\<lambda>_.
     sx_return parsed)))"

definition mem_getArtifact :: "str \<Rightarrow> artifact option mst" where
  "mem_getArtifact artifactId = sx_gets (\<lambda>s. map_of (km_artifacts s) artifactId)"

definition mem_listArtifacts :: "artifact_filter \<Rightarrow> artifact list mst" where
  "mem_listArtifacts f = sx_gets (\<lambda>s. filter (\<lambda>a. matchesArtifact a f) (map snd (km_artifacts s)))"

section \<open>The store on disk\<close>

record store_doc =
  kd_tasks :: "task list"
  kd_runs :: "run list"
  kd_steps :: "kstep list"
  kd_events :: "event list"
  kd_artifacts :: "artifact list"

text \<open>The issues that \<open>addDuplicateIssues\<close> adds for one collection: one per duplicated id.\<close>

definition addDuplicateIssues :: "str list \<Rightarrow> string \<Rightarrow> err list" where
  "addDuplicateIssues values kind = map (duplicate_id kind) (uniq (find_duplicates {} values))"

definition FileSystemKernelStoreStateSchema :: "store_doc \<Rightarrow> bool" where
  "FileSystemKernelStoreStateSchema d \<longleftrightarrow>
     list_all TaskSchema (kd_tasks d) \<and> list_all RunSchema (kd_runs d) \<and>
     list_all StepSchema (kd_steps d) \<and> list_all EventSchema (kd_events d) \<and>
     list_all ArtifactSchema (kd_artifacts d) \<and>
     addDuplicateIssues (map t_taskId (kd_tasks d)) ''task'' = [] \<and>
     addDuplicateIssues (map r_runId (kd_runs d)) ''run'' = [] \<and>
     addDuplicateIssues (map s_stepId (kd_steps d)) ''step'' = [] \<and>
     addDuplicateIssues (map e_eventId (kd_events d)) ''event'' = [] \<and>
     addDuplicateIssues (map a_artifactId (kd_artifacts d)) ''artifact'' = []"

definition createEmptyFileSystemKernelStoreState :: store_doc where
  "createEmptyFileSystemKernelStoreState =
     \<lparr>kd_tasks = [], kd_runs = [], kd_steps = [], kd_events = [], kd_artifacts = []\<rparr>"

text \<open>The content of the state file, if there is one.\<close>

type_synonym disk = "store_doc option"
type_synonym 'a kfs = "(disk, err, 'a) sx"
type_synonym 'a kdoc = "(store_doc, err, 'a) sx"

definition kernel_readState :: "disk \<Rightarrow> err + store_doc" where
  "kernel_readState f = (case f of
     None \<Rightarrow> Inr createEmptyFileSystemKernelStoreState
   | Some d \<Rightarrow> zod_parse FileSystemKernelStoreStateSchema d)"

definition kernel_mutation :: "'a kdoc \<Rightarrow> 'a kfs" where
  "kernel_mutation mutate = (\<lambda>f.
     case kernel_readState f of
       Inl x \<Rightarrow> (Inl x, f)
     | Inr d \<Rightarrow>
         (case mutate d of
            (Inl x, _) \<Rightarrow> (Inl x, f)
          | (Inr v, d') \<Rightarrow>
              (case zod_parse FileSystemKernelStoreStateSchema d' of
                 Inl x \<Rightarrow> (Inl x, f) | Inr d'' \<Rightarrow> (Inr v, Some d''))))"

definition kernel_read :: "(store_doc \<Rightarrow> 'a) \<Rightarrow> 'a kfs" where
  "kernel_read g = (\<lambda>f. case kernel_readState f of Inl x \<Rightarrow> (Inl x, f) | Inr d \<Rightarrow> (Inr (g d), f))"

definition rejectDuplicateId :: "(store_doc \<Rightarrow> str list) \<Rightarrow> str \<Rightarrow> string \<Rightarrow> unit kdoc" where
  "rejectDuplicateId values i kind =
     (\<lambda>d. if i \<in> set (values d) then (Inl (duplicate_id kind i), d) else (Inr (), d))"

definition fs_createTask :: "task \<Rightarrow> task kfs" where
  "fs_createTask x = kernel_mutation (
     sx_bind (sx_lift (zod_parse TaskSchema x)) (\<lambda>parsed.
     sx_bind (rejectDuplicateId (\<lambda>d. map t_taskId (kd_tasks d)) (t_taskId parsed) ''task'') (\<lambda>_.
     sx_bind (sx_modify (\<lambda>d. d\<lparr>kd_tasks := kd_tasks d @ [parsed]\<rparr>)) (\<lambda>_.
     sx_return parsed))))"

definition fs_getTask :: "str \<Rightarrow> task option kfs" where
  "fs_getTask i = kernel_read (\<lambda>d. find (\<lambda>x. t_taskId x = i) (kd_tasks d))"

definition fs_listTasks :: "task_filter \<Rightarrow> task list kfs" where
  "fs_listTasks f = kernel_read (\<lambda>d. filter (\<lambda>x. matchesTask x f) (kd_tasks d))"

definition fs_createRun :: "run \<Rightarrow> run kfs" where
  "fs_createRun x = kernel_mutation (
     sx_bind (sx_lift (zod_parse RunSchema x)) (\<lambda>parsed.
     sx_bind (rejectDuplicateId (\<lambda>d. map r_runId (kd_runs d)) (r_runId parsed) ''run'') (\<lambda>_.
     sx_bind (sx_modify (\<lambda>d. d\<lparr>kd_runs := kd_runs d @ [parsed]\<rparr>)) (\<lambda>_.
     sx_return parsed))))"

definition fs_getRun :: "str \<Rightarrow> run option kfs" where
  "fs_getRun i = kernel_read (\<lambda>d. find (\<lambda>x. r_runId x = i) (kd_runs d))"

definition fs_updateRun :: "str \<Rightarrow> run_patch \<Rightarrow> run kfs" where
  "fs_updateRun i patch = kernel_mutation (
     sx_bind (sx_gets (\<lambda>d. find (\<lambda>x. r_runId x = i) (kd_runs d))) (\<lambda>found.
     case found of
       None \<Rightarrow> sx_throw (Err (js ''run_not_found:'' @ i))
     | Some existing \<Rightarrow>
         if renames (up_runId patch) i then sx_throw (Err (js ''run_id_update_forbidden''))
         else sx_bind (sx_lift (zod_parse RunSchema (patch_run i patch existing))) (\<lambda>updated.
              sx_bind (sx_modify (\<lambda>d. d\<lparr>kd_runs :=
                replace_first (\<lambda>x. r_runId x = i) updated (kd_runs d)\<rparr>)) (\<lambda>_.
              sx_return updated))))"

definition fs_listRuns :: "run_filter \<Rightarrow> run list kfs" where
  "fs_listRuns f = kernel_read (\<lambda>d. filter (\<lambda>x. matchesRun x f) (kd_runs d))"

definition fs_createStep :: "kstep \<Rightarrow> kstep kfs" where
  "fs_createStep x = kernel_mutation (
     sx_bind (sx_lift (zod_parse StepSchema x)) (\<lambda>parsed.
     sx_bind (rejectDuplicateId (\<lambda>d. map s_stepId (kd_steps d)) (s_stepId parsed) ''step'') (\<lambda>_.
     sx_bind (sx_modify (\<lambda>d. d\<lparr>kd_steps := kd_steps d @ [parsed]\<rparr>)) (\<lambda>_.
     sx_return parsed))))"

definition fs_getStep :: "str \<Rightarrow> kstep option kfs" where
  "fs_getStep i = kernel_read (\<lambda>d. find (\<lambda>x. s_stepId x = i) (kd_steps d))"

definition fs_updateStep :: "str \<Rightarrow> step_patch \<Rightarrow> kstep kfs" where
  "fs_updateStep i patch = kernel_mutation (
     sx_bind (sx_gets (\<lambda>d. find (\<lambda>x. s_stepId x = i) (kd_steps d))) (\<lambda>found.
     case found of
       None \<Rightarrow> sx_throw (Err (js ''step_not_found:'' @ i))
     | Some existing \<Rightarrow>
         if renames (sp_stepId patch) i then sx_throw (Err (js ''step_id_update_forbidden''))
         else sx_bind (sx_lift (zod_parse StepSchema (patch_step i patch existing))) (\<lambda>updated.
              sx_bind (sx_modify (\<lambda>d. d\<lparr>kd_steps :=
                replace_first (\<lambda>x. s_stepId x = i) updated (kd_steps d)\<rparr>)) (\<lambda>_.
              sx_return updated))))"

definition fs_listSteps :: "str \<Rightarrow> step_filter \<Rightarrow> kstep list kfs" where
  "fs_listSteps runId f = kernel_read (\<lambda>d.
     filter (\<lambda>x. matchesStep x (f\<lparr>fs_runId := Some runId\<rparr>))
       (filter (\<lambda>x. s_runId x = runId) (kd_steps d)))"

definition fs_appendEvent :: "event \<Rightarrow> event kfs" where
  "fs_appendEvent x = kernel_mutation (
     sx_bind (sx_lift (zod_parse EventSchema x)) (\<lambda>parsed.
     sx_bind (rejectDuplicateId (\<lambda>d. map e_eventId (kd_events d)) (e_eventId parsed) ''event'') (\<lambda>_.
     sx_bind (sx_modify (\<lambda>d. d\<lparr>kd_events := kd_events d @ [parsed]\<rparr>)) (\<lambda>_.
     sx_return parsed))))"

definition fs_listEvents :: "event_filter \<Rightarrow> event list kfs" where
  "fs_listEvents f = kernel_read (\<lambda>d. filter (\<lambda>x. matchesEvent x f) (kd_events d))"

definition fs_createArtifact :: "artifact \<Rightarrow> artifact kfs" where
  "fs_createArtifact x = kernel_mutation (
     sx_bind (sx_lift (zod_parse ArtifactSchema x)) (\<lambda>parsed.
     sx_bind (rejectDuplicateId (\<lambda>d. map a_artifactId (kd_artifacts d)) (a_artifactId parsed) ''artifact'') (\<lambda>_.
     sx_bind (sx_modify (\<lambda>d. d\<lparr>kd_artifacts := kd_artifacts d @ [parsed]\<rparr>)) (\<lambda>_.
     sx_return parsed))))"

definition fs_getArtifact :: "str \<Rightarrow> artifact option kfs" where
  "fs_getArtifact i = kernel_read (\<lambda>d. find (\<lambda>x. a_artifactId x = i) (kd_artifacts d))"

definition fs_listArtifacts :: "artifact_filter \<Rightarrow> artifact list kfs" where
  "fs_listArtifacts f = kernel_read (\<lambda>d. filter (\<lambda>x. matchesArtifact x f) (kd_artifacts d))"

end
