(* ===== verification/KernelContract.thy ===== *)
theory KernelContract
  imports KernelStore
begin

text \<open>
  The contract of the interface \<open>KernelStore\<close>, in the part its clients use: an abstract store
  \<open>kview\<close> (runs and steps by id, the log of events), the specification of each operation on it, and
  the locale \<open>kernel_store\<close>, which says that an implementation refines the specification. The
  in-memory store and the file-system store are shown to satisfy it, and to agree with each other.
\<close>

section \<open>The abstract store\<close>

record kview =
  kv_runs :: "str \<Rightarrow> run option"
  kv_steps :: "str \<Rightarrow> kstep option"
  kv_events :: "event list"

record 's kernel_ops =
  op_createRun :: "run \<Rightarrow> ('s, err, run) sx"
  op_getRun :: "str \<Rightarrow> ('s, err, run option) sx"
  op_updateRun :: "str \<Rightarrow> run_patch \<Rightarrow> ('s, err, run) sx"
  op_createStep :: "kstep \<Rightarrow> ('s, err, kstep) sx"
  op_getStep :: "str \<Rightarrow> ('s, err, kstep option) sx"
  op_updateStep :: "str \<Rightarrow> step_patch \<Rightarrow> ('s, err, kstep) sx"
  op_appendEvent :: "event \<Rightarrow> ('s, err, event) sx"

definition spec_createRun :: "run \<Rightarrow> (kview, err, run) sx" where
  "spec_createRun r = (\<lambda>v.
     if \<not> RunSchema r then (Inl ZodError, v)
     else if kv_runs v (r_runId r) \<noteq> None then (Inl (duplicate_id ''run'' (r_runId r)), v)
     else (Inr r, v\<lparr>kv_runs := (kv_runs v)(r_runId r \<mapsto> r)\<rparr>))"

definition spec_updateRun :: "str \<Rightarrow> run_patch \<Rightarrow> (kview, err, run) sx" where
  "spec_updateRun k p = (\<lambda>v. case kv_runs v k of
     None \<Rightarrow> (Inl (Err (js ''run_not_found:'' @ k)), v)
   | Some r \<Rightarrow>
       if renames (up_runId p) k then (Inl (Err (js ''run_id_update_forbidden'')), v)
       else if \<not> RunSchema (patch_run k p r) then (Inl ZodError, v)
       else (Inr (patch_run k p r), v\<lparr>kv_runs := (kv_runs v)(k \<mapsto> patch_run k p r)\<rparr>))"

definition spec_createStep :: "kstep \<Rightarrow> (kview, err, kstep) sx" where
  "spec_createStep s = (\<lambda>v.
     if \<not> StepSchema s then (Inl ZodError, v)
     else if kv_steps v (s_stepId s) \<noteq> None then (Inl (duplicate_id ''step'' (s_stepId s)), v)
     else (Inr s, v\<lparr>kv_steps := (kv_steps v)(s_stepId s \<mapsto> s)\<rparr>))"

definition spec_updateStep :: "str \<Rightarrow> step_patch \<Rightarrow> (kview, err, kstep) sx" where
  "spec_updateStep k p = (\<lambda>v. case kv_steps v k of
     None \<Rightarrow> (Inl (Err (js ''step_not_found:'' @ k)), v)
   | Some s \<Rightarrow>
       if renames (sp_stepId p) k then (Inl (Err (js ''step_id_update_forbidden'')), v)
       else if \<not> StepSchema (patch_step k p s) then (Inl ZodError, v)
       else (Inr (patch_step k p s), v\<lparr>kv_steps := (kv_steps v)(k \<mapsto> patch_step k p s)\<rparr>))"

definition spec_appendEvent :: "event \<Rightarrow> (kview, err, event) sx" where
  "spec_appendEvent e = (\<lambda>v.
     if \<not> EventSchema e then (Inl ZodError, v)
     else if e_eventId e \<in> e_eventId ` set (kv_events v)
     then (Inl (duplicate_id ''event'' (e_eventId e)), v)
     else (Inr e, v\<lparr>kv_events := kv_events v @ [e]\<rparr>))"

definition spec_ops :: "kview kernel_ops" where
  "spec_ops = \<lparr>op_createRun = spec_createRun, op_getRun = (\<lambda>k. sx_gets (\<lambda>v. kv_runs v k)),
     op_updateRun = spec_updateRun, op_createStep = spec_createStep,
     op_getStep = (\<lambda>k. sx_gets (\<lambda>v. kv_steps v k)), op_updateStep = spec_updateStep,
     op_appendEvent = spec_appendEvent\<rparr>"

lemmas spec_defs = spec_ops_def spec_createRun_def spec_updateRun_def spec_createStep_def
  spec_updateStep_def spec_appendEvent_def

section \<open>The contract\<close>

definition refines :: "('s \<Rightarrow> bool) \<Rightarrow> ('s \<Rightarrow> 'v) \<Rightarrow> ('s, 'e, 'a) sx \<Rightarrow> ('v, 'e, 'a) sx \<Rightarrow> bool" where
  "refines good av m spec \<longleftrightarrow> (\<forall>s. good s \<longrightarrow> good (snd (m s)) \<and>
     spec (av s) = (fst (m s), av (snd (m s))))"

lemma refinesI:
  "(\<And>s. good s \<Longrightarrow> good (snd (m s)) \<and> spec (av s) = (fst (m s), av (snd (m s)))) \<Longrightarrow> refines good av m spec"
  by (simp add: refines_def)

lemma refines_return: "refines good av (sx_return x) (sx_return x)"
  by (simp add: refines_def sx_return_def)

lemma refines_throw: "refines good av (sx_throw x) (sx_throw x)"
  by (simp add: refines_def sx_throw_def)

lemma refines_lift: "refines good av (sx_lift x) (sx_lift x)"
  by (simp add: refines_def sx_lift_def)

lemma refines_bind:
  assumes "refines good av m spec" and "\<And>x. refines good av (f x) (g x)"
  shows "refines good av (sx_bind m f) (sx_bind spec g)"
proof (rule refinesI)
  fix s assume s: "good s"
  obtain r t where m: "m s = (r, t)" by (cases "m s")
  then have t: "good t" "spec (av s) = (r, av t)" using assms(1) s by (auto simp: refines_def)
  show "good (snd (sx_bind m f s)) \<and> sx_bind spec g (av s) =
      (fst (sx_bind m f s), av (snd (sx_bind m f s)))"
  proof (cases r)
    case (Inl x)
    then show ?thesis using m t by (simp add: sx_bind_def)
  next
    case (Inr x)
    then show ?thesis using m t assms(2) [of x] by (simp add: sx_bind_def refines_def)
  qed
qed

lemma refines_if:
  "(c \<Longrightarrow> refines good av m n) \<Longrightarrow> (\<not> c \<Longrightarrow> refines good av m' n') \<Longrightarrow>
   refines good av (if c then m else m') (if c then n else n')"
  by simp

lemma refines_option:
  "refines good av m n \<Longrightarrow> (\<And>x. refines good av (f x) (g x)) \<Longrightarrow>
   refines good av (case v of None \<Rightarrow> m | Some x \<Rightarrow> f x) (case v of None \<Rightarrow> n | Some x \<Rightarrow> g x)"
  by (cases v) auto

lemma refines_each:
  "(\<And>x. refines good av (f x) (g x)) \<Longrightarrow> refines good av (sx_each f xs) (sx_each g xs)"
  by (induction xs) (auto intro: refines_return refines_bind)

lemmas refines_intros = refines_return refines_throw refines_lift refines_bind refines_if
  refines_option refines_each

locale kernel_store =
  fixes ops :: "'s kernel_ops" and good :: "'s \<Rightarrow> bool" and view :: "'s \<Rightarrow> kview"
  assumes create_run: "refines good view (op_createRun ops r) (op_createRun spec_ops r)"
    and get_run: "refines good view (op_getRun ops k) (op_getRun spec_ops k)"
    and update_run: "refines good view (op_updateRun ops k p) (op_updateRun spec_ops k p)"
    and create_step: "refines good view (op_createStep ops s) (op_createStep spec_ops s)"
    and get_step: "refines good view (op_getStep ops k) (op_getStep spec_ops k)"
    and update_step: "refines good view (op_updateStep ops k q) (op_updateStep spec_ops k q)"
    and append_event: "refines good view (op_appendEvent ops e) (op_appendEvent spec_ops e)"

section \<open>The in-memory store\<close>

definition mem_ops :: "mem_store kernel_ops" where
  "mem_ops = \<lparr>op_createRun = mem_createRun, op_getRun = mem_getRun, op_updateRun = mem_updateRun,
     op_createStep = mem_createStep, op_getStep = mem_getStep, op_updateStep = mem_updateStep,
     op_appendEvent = mem_appendEvent\<rparr>"

definition mem_view :: "mem_store \<Rightarrow> kview" where
  "mem_view s = \<lparr>kv_runs = map_of (km_runs s), kv_steps = map_of (km_steps s), kv_events = km_events s\<rparr>"

text \<open>
  Every map is keyed by the ids of its values, whose schemas hold; the set of event ids is that of
  the log.
\<close>

definition ids_ok :: "('a \<Rightarrow> bool) \<Rightarrow> ('a \<Rightarrow> str) \<Rightarrow> (str \<times> 'a) list \<Rightarrow> bool" where
  "ids_ok ok g m \<longleftrightarrow> distinct (map fst m) \<and> (\<forall>(k, x) \<in> set m. g x = k \<and> ok x)"

definition mem_inv :: "mem_store \<Rightarrow> bool" where
  "mem_inv s \<longleftrightarrow> ids_ok TaskSchema t_taskId (km_tasks s) \<and> ids_ok RunSchema r_runId (km_runs s) \<and>
     ids_ok StepSchema s_stepId (km_steps s) \<and> ids_ok ArtifactSchema a_artifactId (km_artifacts s) \<and>
     distinct (map e_eventId (km_events s)) \<and> list_all EventSchema (km_events s) \<and>
     km_eventIds s = e_eventId ` set (km_events s)"

lemma ids_ok_update: "ids_ok ok g m \<Longrightarrow> ok x \<Longrightarrow> g x = k \<Longrightarrow> ids_ok ok g (AList.update k x m)"
proof -
  have "(\<forall>(k, x) \<in> set m. g x = k \<and> ok x) \<Longrightarrow> ok x \<Longrightarrow> g x = k \<Longrightarrow>
      \<forall>(k, x) \<in> set (AList.update k x m). g x = k \<and> ok x"
    by (induction m) auto
  then show "ids_ok ok g m \<Longrightarrow> ok x \<Longrightarrow> g x = k \<Longrightarrow> ids_ok ok g (AList.update k x m)"
    by (simp add: ids_ok_def distinct_update)
qed

lemma mem_inv_new: "mem_inv new_mem_store"
  by (simp add: mem_inv_def new_mem_store_def ids_ok_def)

lemma patch_ids [simp]: "r_runId (patch_run k p r) = k" "s_stepId (patch_step k q s) = k"
  by (simp_all add: patch_run_def patch_step_def)

lemmas mem_defs = mem_createTask_def mem_createRun_def mem_updateRun_def mem_createStep_def
  mem_updateStep_def mem_appendEvent_def mem_createArtifact_def rejectDuplicate_def
  mem_getRun_def mem_getStep_def

interpretation mem: kernel_store mem_ops mem_inv mem_view
proof
  fix r k p s q e
  show "refines mem_inv mem_view (op_createRun mem_ops r) (op_createRun spec_ops r)"
    by (rule refinesI) (auto simp: mem_ops_def spec_defs mem_defs mem_view_def mem_inv_def sx_defs
        zod_parse_def map_of_update ids_ok_update)
  show "refines mem_inv mem_view (op_getRun mem_ops k) (op_getRun spec_ops k)"
    and "refines mem_inv mem_view (op_getStep mem_ops k) (op_getStep spec_ops k)"
    by (rule refinesI; simp add: mem_ops_def spec_ops_def mem_defs mem_view_def sx_gets_def)+
  show "refines mem_inv mem_view (op_updateRun mem_ops k p) (op_updateRun spec_ops k p)"
    by (rule refinesI) (auto simp: mem_ops_def spec_defs mem_defs mem_view_def mem_inv_def sx_defs
        zod_parse_def map_of_update ids_ok_update split: option.splits)
  show "refines mem_inv mem_view (op_createStep mem_ops s) (op_createStep spec_ops s)"
    by (rule refinesI) (auto simp: mem_ops_def spec_defs mem_defs mem_view_def mem_inv_def sx_defs
        zod_parse_def map_of_update ids_ok_update)
  show "refines mem_inv mem_view (op_updateStep mem_ops k q) (op_updateStep spec_ops k q)"
    by (rule refinesI) (auto simp: mem_ops_def spec_defs mem_defs mem_view_def mem_inv_def sx_defs
        zod_parse_def map_of_update ids_ok_update split: option.splits)
  show "refines mem_inv mem_view (op_appendEvent mem_ops e) (op_appendEvent spec_ops e)"
    by (rule refinesI) (auto simp: mem_ops_def spec_defs mem_defs mem_view_def mem_inv_def sx_defs
        zod_parse_def)
qed

section \<open>The two stores agree\<close>

definition doc_of :: "mem_store \<Rightarrow> store_doc" where
  "doc_of s = \<lparr>kd_tasks = map snd (km_tasks s), kd_runs = map snd (km_runs s),
     kd_steps = map snd (km_steps s), kd_events = km_events s, kd_artifacts = map snd (km_artifacts s)\<rparr>"

definition keyed_by :: "('a \<Rightarrow> str) \<Rightarrow> 'a list \<Rightarrow> (str \<times> 'a) list" where
  "keyed_by g xs = map (\<lambda>x. (g x, x)) xs"

definition mem_of :: "store_doc \<Rightarrow> mem_store" where
  "mem_of d = \<lparr>km_tasks = keyed_by t_taskId (kd_tasks d), km_runs = keyed_by r_runId (kd_runs d),
     km_steps = keyed_by s_stepId (kd_steps d), km_events = kd_events d,
     km_eventIds = e_eventId ` set (kd_events d), km_artifacts = keyed_by a_artifactId (kd_artifacts d)\<rparr>"

lemma no_duplicate_issues [simp]: "addDuplicateIssues vs kind = [] \<longleftrightarrow> distinct vs"
  by (simp add: addDuplicateIssues_def find_duplicates_Nil)

lemma ids_keys: "ids_ok ok g m \<Longrightarrow> map g (map snd m) = map fst m"
  by (auto simp: ids_ok_def)

lemma ids_ok_values: "ids_ok ok g m \<Longrightarrow> list_all ok (map snd m) \<and> distinct (map g (map snd m))"
proof -
  assume m: "ids_ok ok g m"
  have "list_all ok (map snd m)" using m by (auto simp: ids_ok_def list_all_iff)
  moreover have "distinct (map g (map snd m))" using m unfolding ids_keys [OF m] by (simp add: ids_ok_def)
  ultimately show ?thesis ..
qed

lemma doc_of_valid: "mem_inv s \<Longrightarrow> FileSystemKernelStoreStateSchema (doc_of s)"
  unfolding FileSystemKernelStoreStateSchema_def mem_inv_def doc_of_def no_duplicate_issues
    store_doc.select_convs by (elim conjE, intro conjI) (assumption | erule ids_ok_values [THEN conjunct1]
      | erule ids_ok_values [THEN conjunct2])+

lemma mem_of_inv: "FileSystemKernelStoreStateSchema d \<Longrightarrow> mem_inv (mem_of d)"
  by (auto simp: FileSystemKernelStoreStateSchema_def mem_inv_def mem_of_def ids_ok_def keyed_by_def
      list_all_iff comp_def)

lemma doc_of_mem_of [simp]: "doc_of (mem_of d) = d"
  by (simp add: doc_of_def mem_of_def keyed_by_def comp_def)

lemma ids_find: "ids_ok ok g m \<Longrightarrow> find (\<lambda>x. g x = k) (map snd m) = map_of m k"
  by (rule find_values) (auto simp: ids_ok_def)

lemma ids_replace:
  "ids_ok ok g m \<Longrightarrow> map_of m k = Some y \<Longrightarrow>
   map snd (AList.update k u m) = replace_first (\<lambda>x. g x = k) u (map snd m)"
  using map_of_is_None [of m k] by (intro replace_first_update [symmetric]) (auto simp: ids_ok_def)

lemma ids_push: "map_of m k = None \<Longrightarrow> map snd (AList.update k u m) = map snd m @ [u]"
  using map_of_is_None [of m k] by (simp add: map_snd_update_fresh)

lemma ids_mem: "ids_ok ok g m \<Longrightarrow> k \<in> g ` snd ` set m \<longleftrightarrow> map_of m k \<noteq> None"
  using ids_keys [of ok g m] map_of_is_None [of m k] by (metis set_map)

text \<open>
  A method of the in-memory class and the body of the same method of the file-system class: they
  agree through \<open>doc_of\<close>, and the in-memory one changes nothing when it throws.
\<close>

definition agrees :: "'a mst \<Rightarrow> 'a kdoc \<Rightarrow> bool" where
  "agrees m body \<longleftrightarrow> refines mem_inv doc_of m body \<and> (\<forall>s x t. m s = (Inl x, t) \<longrightarrow> t = s)"

lemma mutation_agrees:
  assumes "agrees m body" and "mem_inv s" and "kernel_readState f = Inr (doc_of s)"
  shows "mem_inv (snd (m s)) \<and> fst (kernel_mutation body f) = fst (m s) \<and>
    kernel_readState (snd (kernel_mutation body f)) = Inr (doc_of (snd (m s)))"
proof -
  obtain r t where m: "m s = (r, t)" by (cases "m s")
  then have t: "mem_inv t" "body (doc_of s) = (r, doc_of t)"
    using assms(1,2) by (auto simp: agrees_def refines_def)
  show ?thesis
  proof (cases r)
    case (Inl x)
    then have "t = s" using assms(1) m by (auto simp: agrees_def)
    with Inl m t assms show ?thesis by (simp add: kernel_mutation_def)
  next
    case (Inr v)
    with m t assms(3) doc_of_valid [OF t(1)] show ?thesis
      by (simp add: kernel_mutation_def zod_parse_def kernel_readState_def [of "Some _"])
  qed
qed

lemma read_agrees:
  assumes "\<And>s. mem_inv s \<Longrightarrow> g (doc_of s) = h s" and "mem_inv s" and "kernel_readState f = Inr (doc_of s)"
  shows "mem_inv (snd (sx_gets h s)) \<and> fst (kernel_read g f) = fst (sx_gets h s) \<and>
    kernel_readState (snd (kernel_read g f)) = Inr (doc_of (snd (sx_gets h s)))"
  using assms by (simp add: kernel_read_def sx_gets_def)

subsection \<open>The whole interface\<close>

datatype store_call =
    SCreateTask task | SGetTask str | SListTasks task_filter
  | SCreateRun run | SGetRun str | SUpdateRun str run_patch | SListRuns run_filter
  | SCreateStep kstep | SGetStep str | SUpdateStep str step_patch | SListSteps str step_filter
  | SAppendEvent event | SListEvents event_filter
  | SCreateArtifact artifact | SGetArtifact str | SListArtifacts artifact_filter

datatype store_reply =
    RTask task | RTaskOpt "task option" | RTasks "task list"
  | RRun run | RRunOpt "run option" | RRuns "run list"
  | RStep kstep | RStepOpt "kstep option" | RSteps "kstep list"
  | REvent event | REvents "event list"
  | RArtifact artifact | RArtifactOpt "artifact option" | RArtifacts "artifact list"

definition reply :: "('a \<Rightarrow> 'b) \<Rightarrow> ('s, 'e, 'a) sx \<Rightarrow> ('s, 'e, 'b) sx" where
  "reply f m = (\<lambda>s. case m s of (Inl x, t) \<Rightarrow> (Inl x, t) | (Inr v, t) \<Rightarrow> (Inr (f v), t))"

fun mem_store_call :: "store_call \<Rightarrow> store_reply mst" where
  "mem_store_call (SCreateTask x) = reply RTask (mem_createTask x)"
| "mem_store_call (SGetTask k) = reply RTaskOpt (mem_getTask k)"
| "mem_store_call (SListTasks f) = reply RTasks (mem_listTasks f)"
| "mem_store_call (SCreateRun x) = reply RRun (mem_createRun x)"
| "mem_store_call (SGetRun k) = reply RRunOpt (mem_getRun k)"
| "mem_store_call (SUpdateRun k p) = reply RRun (mem_updateRun k p)"
| "mem_store_call (SListRuns f) = reply RRuns (mem_listRuns f)"
| "mem_store_call (SCreateStep x) = reply RStep (mem_createStep x)"
| "mem_store_call (SGetStep k) = reply RStepOpt (mem_getStep k)"
| "mem_store_call (SUpdateStep k p) = reply RStep (mem_updateStep k p)"
| "mem_store_call (SListSteps r f) = reply RSteps (mem_listSteps r f)"
| "mem_store_call (SAppendEvent e) = reply REvent (mem_appendEvent e)"
| "mem_store_call (SListEvents f) = reply REvents (mem_listEvents f)"
| "mem_store_call (SCreateArtifact x) = reply RArtifact (mem_createArtifact x)"
| "mem_store_call (SGetArtifact k) = reply RArtifactOpt (mem_getArtifact k)"
| "mem_store_call (SListArtifacts f) = reply RArtifacts (mem_listArtifacts f)"

fun fs_store_call :: "store_call \<Rightarrow> store_reply kfs" where
  "fs_store_call (SCreateTask x) = reply RTask (fs_createTask x)"
| "fs_store_call (SGetTask k) = reply RTaskOpt (fs_getTask k)"
| "fs_store_call (SListTasks f) = reply RTasks (fs_listTasks f)"
| "fs_store_call (SCreateRun x) = reply RRun (fs_createRun x)"
| "fs_store_call (SGetRun k) = reply RRunOpt (fs_getRun k)"
| "fs_store_call (SUpdateRun k p) = reply RRun (fs_updateRun k p)"
| "fs_store_call (SListRuns f) = reply RRuns (fs_listRuns f)"
| "fs_store_call (SCreateStep x) = reply RStep (fs_createStep x)"
| "fs_store_call (SGetStep k) = reply RStepOpt (fs_getStep k)"
| "fs_store_call (SUpdateStep k p) = reply RStep (fs_updateStep k p)"
| "fs_store_call (SListSteps r f) = reply RSteps (fs_listSteps r f)"
| "fs_store_call (SAppendEvent e) = reply REvent (fs_appendEvent e)"
| "fs_store_call (SListEvents f) = reply REvents (fs_listEvents f)"
| "fs_store_call (SCreateArtifact x) = reply RArtifact (fs_createArtifact x)"
| "fs_store_call (SGetArtifact k) = reply RArtifactOpt (fs_getArtifact k)"
| "fs_store_call (SListArtifacts f) = reply RArtifacts (fs_listArtifacts f)"

text \<open>A method of one class and the same method of the other answer alike.\<close>

definition same_method :: "'a mst \<Rightarrow> 'a kfs \<Rightarrow> bool" where
  "same_method m g \<longleftrightarrow> (\<forall>s f. mem_inv s \<and> kernel_readState f = Inr (doc_of s) \<longrightarrow>
     mem_inv (snd (m s)) \<and> fst (g f) = fst (m s) \<and>
     kernel_readState (snd (g f)) = Inr (doc_of (snd (m s))))"

lemma same_reply: "same_method m g \<Longrightarrow> same_method (reply h m) (reply h g)"
  unfolding same_method_def reply_def
  by (intro allI impI) (force split: prod.splits sum.splits)

lemma same_mutation: "agrees m body \<Longrightarrow> same_method m (kernel_mutation body)"
  unfolding same_method_def using mutation_agrees by blast

lemma same_read: "(\<And>s. mem_inv s \<Longrightarrow> g (doc_of s) = h s) \<Longrightarrow> same_method (sx_gets h) (kernel_read g)"
  unfolding same_method_def using read_agrees by blast

lemma agreesI:
  "(\<And>s. mem_inv s \<Longrightarrow> mem_inv (snd (m s)) \<and> body (doc_of s) = (fst (m s), doc_of (snd (m s)))) \<Longrightarrow>
   (\<And>s x t. m s = (Inl x, t) \<Longrightarrow> t = s) \<Longrightarrow> agrees m body"
  by (simp add: agrees_def refines_def)

lemmas create_defs = mem_defs sx_defs zod_parse_def rejectDuplicateId_def doc_of_def mem_inv_def

lemma same_creates:
  "same_method (mem_createTask t) (fs_createTask t)" "same_method (mem_createRun r) (fs_createRun r)"
  "same_method (mem_createStep st) (fs_createStep st)" "same_method (mem_appendEvent e) (fs_appendEvent e)"
  "same_method (mem_createArtifact a) (fs_createArtifact a)"
proof -
  show "same_method (mem_createTask t) (fs_createTask t)"
    unfolding fs_createTask_def
    apply (intro same_mutation agreesI)
    subgoal for s
      using ids_mem [of TaskSchema t_taskId "km_tasks s" "t_taskId t"]
      by (auto simp: create_defs ids_ok_update ids_push simp del: image_image)
    by (auto simp: create_defs split: if_splits)
  show "same_method (mem_createRun r) (fs_createRun r)"
    unfolding fs_createRun_def
    apply (intro same_mutation agreesI)
    subgoal for s
      using ids_mem [of RunSchema r_runId "km_runs s" "r_runId r"]
      by (auto simp: create_defs ids_ok_update ids_push simp del: image_image)
    by (auto simp: create_defs split: if_splits)
  show "same_method (mem_createStep st) (fs_createStep st)"
    unfolding fs_createStep_def
    apply (intro same_mutation agreesI)
    subgoal for s
      using ids_mem [of StepSchema s_stepId "km_steps s" "s_stepId st"]
      by (auto simp: create_defs ids_ok_update ids_push simp del: image_image)
    by (auto simp: create_defs split: if_splits)
  show "same_method (mem_createArtifact a) (fs_createArtifact a)"
    unfolding fs_createArtifact_def
    apply (intro same_mutation agreesI)
    subgoal for s
      using ids_mem [of ArtifactSchema a_artifactId "km_artifacts s" "a_artifactId a"]
      by (auto simp: create_defs ids_ok_update ids_push simp del: image_image)
    by (auto simp: create_defs split: if_splits)
  show "same_method (mem_appendEvent e) (fs_appendEvent e)"
    unfolding fs_appendEvent_def
    by (intro same_mutation agreesI) (auto simp: create_defs split: if_splits)
qed

lemma same_updates:
  "same_method (mem_updateRun k p) (fs_updateRun k p)"
  "same_method (mem_updateStep k q) (fs_updateStep k q)"
proof -
  show "same_method (mem_updateRun k p) (fs_updateRun k p)"
    unfolding fs_updateRun_def
  proof (intro same_mutation agreesI)
    fix s assume s: "mem_inv s"
    then have r: "ids_ok RunSchema r_runId (km_runs s)" by (simp add: mem_inv_def)
    show "mem_inv (snd (mem_updateRun k p s)) \<and>
      sx_bind (sx_gets (\<lambda>d. find (\<lambda>x. r_runId x = k) (kd_runs d))) (\<lambda>found. case found of
        None \<Rightarrow> sx_throw (Err (js ''run_not_found:'' @ k))
      | Some existing \<Rightarrow> if renames (up_runId p) k then sx_throw (Err (js ''run_id_update_forbidden''))
          else sx_bind (sx_lift (zod_parse RunSchema (patch_run k p existing))) (\<lambda>updated.
            sx_bind (sx_modify (\<lambda>d. d\<lparr>kd_runs := replace_first (\<lambda>x. r_runId x = k) updated (kd_runs d)\<rparr>))
              (\<lambda>_. sx_return updated))) (doc_of s) =
      (fst (mem_updateRun k p s), doc_of (snd (mem_updateRun k p s)))"
      using s ids_find [OF r, of k] ids_replace [OF r, of k]
      by (cases "map_of (km_runs s) k")
        (auto simp: mem_updateRun_def sx_defs zod_parse_def doc_of_def mem_inv_def ids_ok_update)
  qed (auto simp: mem_updateRun_def sx_defs zod_parse_def split: option.splits if_splits)
  show "same_method (mem_updateStep k q) (fs_updateStep k q)"
    unfolding fs_updateStep_def
  proof (intro same_mutation agreesI)
    fix s assume s: "mem_inv s"
    then have r: "ids_ok StepSchema s_stepId (km_steps s)" by (simp add: mem_inv_def)
    show "mem_inv (snd (mem_updateStep k q s)) \<and>
      sx_bind (sx_gets (\<lambda>d. find (\<lambda>x. s_stepId x = k) (kd_steps d))) (\<lambda>found. case found of
        None \<Rightarrow> sx_throw (Err (js ''step_not_found:'' @ k))
      | Some existing \<Rightarrow> if renames (sp_stepId q) k then sx_throw (Err (js ''step_id_update_forbidden''))
          else sx_bind (sx_lift (zod_parse StepSchema (patch_step k q existing))) (\<lambda>updated.
            sx_bind (sx_modify (\<lambda>d. d\<lparr>kd_steps := replace_first (\<lambda>x. s_stepId x = k) updated (kd_steps d)\<rparr>))
              (\<lambda>_. sx_return updated))) (doc_of s) =
      (fst (mem_updateStep k q s), doc_of (snd (mem_updateStep k q s)))"
      using s ids_find [OF r, of k] ids_replace [OF r, of k]
      by (cases "map_of (km_steps s) k")
        (auto simp: mem_updateStep_def sx_defs zod_parse_def doc_of_def mem_inv_def ids_ok_update)
  qed (auto simp: mem_updateStep_def sx_defs zod_parse_def split: option.splits if_splits)
qed

lemma same_reads:
  "same_method (mem_getTask k) (fs_getTask k)" "same_method (mem_getRun k) (fs_getRun k)"
  "same_method (mem_getStep k) (fs_getStep k)" "same_method (mem_getArtifact k) (fs_getArtifact k)"
  "same_method (mem_listTasks ft) (fs_listTasks ft)" "same_method (mem_listRuns fr) (fs_listRuns fr)"
  "same_method (mem_listSteps k fs) (fs_listSteps k fs)"
  "same_method (mem_listEvents fe) (fs_listEvents fe)"
  "same_method (mem_listArtifacts fa) (fs_listArtifacts fa)"
  unfolding mem_getTask_def fs_getTask_def mem_getRun_def fs_getRun_def mem_getStep_def fs_getStep_def
    mem_getArtifact_def fs_getArtifact_def mem_listTasks_def fs_listTasks_def mem_listRuns_def
    fs_listRuns_def mem_listSteps_def fs_listSteps_def mem_listEvents_def fs_listEvents_def
    mem_listArtifacts_def fs_listArtifacts_def
  by (rule same_read, auto simp: mem_inv_def doc_of_def intro: ids_find)+

lemma same_calls: "same_method (mem_store_call c) (fs_store_call c)"
  by (cases c) (simp_all add: same_reply same_creates same_updates same_reads)

text \<open>The replies to a sequence of calls, and the state it leaves.\<close>

fun replies :: "('c \<Rightarrow> ('s, 'e, 'r) sx) \<Rightarrow> 'c list \<Rightarrow> 's \<Rightarrow> ('e + 'r) list \<times> 's" where
  "replies call [] s = ([], s)"
| "replies call (c # cs) s =
     (case call c s of (r, t) \<Rightarrow> (case replies call cs t of (rs, u) \<Rightarrow> (r # rs, u)))"

lemma replies_agree:
  assumes "mem_inv s" and "kernel_readState f = Inr (doc_of s)"
  shows "fst (replies fs_store_call cs f) = fst (replies mem_store_call cs s) \<and>
    mem_inv (snd (replies mem_store_call cs s)) \<and>
    kernel_readState (snd (replies fs_store_call cs f)) = Inr (doc_of (snd (replies mem_store_call cs s)))"
  using assms
proof (induction cs arbitrary: s f)
  case (Cons c cs)
  have step: "mem_inv (snd (mem_store_call c s)) \<and> fst (fs_store_call c f) = fst (mem_store_call c s) \<and>
      kernel_readState (snd (fs_store_call c f)) = Inr (doc_of (snd (mem_store_call c s)))"
    using same_calls [of c] Cons.prems unfolding same_method_def by blast
  with Cons.IH [of "snd (mem_store_call c s)" "snd (fs_store_call c f)"] show ?case
    by (simp split: prod.splits) (metis fst_conv snd_conv)
qed simp

text \<open>
  C4: The file-system store and the in-memory store cannot be told apart. Any sequence of calls on a
  fresh directory and on a fresh in-memory store gets the same replies, errors included, and the
  document on disk is at the end the content of the in-memory store.
\<close>

theorem kernel_stores_agree:
  "fst (replies fs_store_call cs None) = fst (replies mem_store_call cs new_mem_store) \<and>
   kernel_readState (snd (replies fs_store_call cs None)) =
     Inr (doc_of (snd (replies mem_store_call cs new_mem_store)))"
proof -
  have "kernel_readState None = Inr (doc_of new_mem_store)"
    by (simp add: kernel_readState_def doc_of_def new_mem_store_def
        createEmptyFileSystemKernelStoreState_def)
  from replies_agree [OF mem_inv_new this] show ?thesis by blast
qed

lemma mem_events:
  assumes "mem_inv s"
  shows "prefix (km_events s) (km_events (snd (mem_store_call c s)))"
  by (cases c) (auto simp: reply_def mem_defs mem_getTask_def mem_getArtifact_def mem_listTasks_def
      mem_listRuns_def mem_listSteps_def mem_listEvents_def mem_listArtifacts_def sx_defs zod_parse_def
      split: option.splits sum.splits prod.splits if_splits)

lemma readState_valid: "kernel_readState f = Inr d \<Longrightarrow> FileSystemKernelStoreStateSchema d"
  by (auto simp: kernel_readState_def FileSystemKernelStoreStateSchema_def
      createEmptyFileSystemKernelStoreState_def split: option.splits)

text \<open>
  The event log is append-only. Whatever call is made on a readable store, its document stays
  readable and valid, every event of the log is kept in its place, and no two events share an id.
\<close>

theorem event_log_append_only:
  assumes "kernel_readState f = Inr d"
  shows "\<exists>d'. kernel_readState (snd (fs_store_call c f)) = Inr d' \<and>
    FileSystemKernelStoreStateSchema d' \<and> prefix (kd_events d) (kd_events d') \<and>
    distinct (map e_eventId (kd_events d'))"
proof -
  let ?s = "mem_of d" and ?t = "snd (mem_store_call c (mem_of d))"
  have inv: "mem_inv ?s" using mem_of_inv readState_valid [OF assms] by blast
  have t: "mem_inv ?t" "kernel_readState (snd (fs_store_call c f)) = Inr (doc_of ?t)"
    using same_calls [of c] inv assms unfolding same_method_def by auto
  have "prefix (kd_events d) (kd_events (doc_of ?t))"
    using mem_events [OF inv, of c] by (simp add: doc_of_def mem_of_def)
  moreover have "distinct (map e_eventId (kd_events (doc_of ?t)))"
    using t(1) by (simp add: mem_inv_def doc_of_def)
  ultimately show ?thesis using t(2) doc_of_valid [OF t(1)] by blast
qed

theorem event_log_append_only_witness:
  "\<exists>d'. kernel_readState (snd (fs_store_call (SGetRun (js ''r'')) None)) = Inr d' \<and>
     prefix [] (kd_events d')"
proof -
  have "kernel_readState None = Inr createEmptyFileSystemKernelStoreState"
    by (simp add: kernel_readState_def)
  from event_log_append_only [OF this, of "SGetRun (js ''r'')"] show ?thesis
    by (auto simp: createEmptyFileSystemKernelStoreState_def)
qed

section \<open>The file-system store\<close>

definition disk_ops :: "disk kernel_ops" where
  "disk_ops = \<lparr>op_createRun = fs_createRun, op_getRun = fs_getRun, op_updateRun = fs_updateRun,
     op_createStep = fs_createStep, op_getStep = fs_getStep, op_updateStep = fs_updateStep,
     op_appendEvent = fs_appendEvent\<rparr>"

definition disk_good :: "disk \<Rightarrow> bool" where
  "disk_good f \<longleftrightarrow> isOk (kernel_readState f)"

definition disk_view :: "disk \<Rightarrow> kview" where
  "disk_view f = (case kernel_readState f of
     Inl _ \<Rightarrow> mem_view new_mem_store
   | Inr d \<Rightarrow> \<lparr>kv_runs = lookup r_runId (kd_runs d), kv_steps = lookup s_stepId (kd_steps d),
               kv_events = kd_events d\<rparr>)"

lemma map_of_keyed_by: "map_of (keyed_by g xs) = lookup g xs"
  by (induction xs) (auto simp: keyed_by_def)

lemma disk_view_mem: "mem_inv s \<Longrightarrow> kernel_readState f = Inr (doc_of s) \<Longrightarrow> disk_view f = mem_view s"
proof -
  assume s: "mem_inv s" and f: "kernel_readState f = Inr (doc_of s)"
  have "ids_ok RunSchema r_runId (km_runs s)" "ids_ok StepSchema s_stepId (km_steps s)"
    using s by (simp_all add: mem_inv_def)
  then have "lookup r_runId (map snd (km_runs s)) = map_of (km_runs s)"
    "lookup s_stepId (map snd (km_steps s)) = map_of (km_steps s)"
    using ids_find by (intro ext; blast)+
  with f show ?thesis by (simp add: disk_view_def mem_view_def doc_of_def)
qed

lemma disk_refines:
  assumes "same_method m g" and "refines mem_inv mem_view m spec"
  shows "refines disk_good disk_view g spec"
proof (rule refinesI)
  fix f assume "disk_good f"
  then obtain d where d: "kernel_readState f = Inr d"
    unfolding disk_good_def by (cases "kernel_readState f") auto
  let ?s = "mem_of d"
  have inv: "mem_inv ?s" using mem_of_inv readState_valid [OF d] by blast
  have d': "kernel_readState f = Inr (doc_of ?s)" using d by simp
  have m: "mem_inv (snd (m ?s))" "fst (g f) = fst (m ?s)"
    "kernel_readState (snd (g f)) = Inr (doc_of (snd (m ?s)))"
    using assms(1) inv d' unfolding same_method_def by auto
  have "disk_view f = mem_view ?s" "disk_view (snd (g f)) = mem_view (snd (m ?s))"
    using disk_view_mem [OF inv d'] disk_view_mem [OF m(1,3)] by simp_all
  with assms(2) inv m show "disk_good (snd (g f)) \<and> spec (disk_view f) = (fst (g f), disk_view (snd (g f)))"
    by (simp add: refines_def disk_good_def)
qed

interpretation fs: kernel_store disk_ops disk_good disk_view
  by unfold_locales
    (use disk_refines [OF same_creates(2) mem.create_run [unfolded mem_ops_def, simplified]]
      disk_refines [OF same_reads(2) mem.get_run [unfolded mem_ops_def, simplified]]
      disk_refines [OF same_updates(1) mem.update_run [unfolded mem_ops_def, simplified]]
      disk_refines [OF same_creates(3) mem.create_step [unfolded mem_ops_def, simplified]]
      disk_refines [OF same_reads(3) mem.get_step [unfolded mem_ops_def, simplified]]
      disk_refines [OF same_updates(2) mem.update_step [unfolded mem_ops_def, simplified]]
      disk_refines [OF same_creates(4) mem.append_event [unfolded mem_ops_def, simplified]]
     in \<open>simp_all add: disk_ops_def\<close>)

end
