(* ===== verification/RunManager.thy ===== *)
theory RunManager
  imports KernelContract
begin

text \<open>
  The run manager of \<open>packages/governance-internal-run-manager/src/index.ts\<close>, a client of the
  interface \<open>KernelStore\<close>: it creates runs and steps, moves them through their states and logs an
  event for every change. The store is the argument \<open>ops\<close>; \<open>now n\<close> is what the \<open>n\<close>-th call of
  \<open>this.now()\<close> returns.
\<close>

section \<open>State and helpers\<close>

record 's manager =
  mg_store :: 's
  mg_runSequence :: nat
  mg_stepSequence :: nat
  mg_eventSequence :: nat
  mg_tick :: nat

type_synonym ('s, 'a) rm = "('s manager, err, 'a) sx"

definition new_manager :: "'s \<Rightarrow> nat \<Rightarrow> 's manager" where
  "new_manager store tick = \<lparr>mg_store = store, mg_runSequence = 0, mg_stepSequence = 0,
     mg_eventSequence = 0, mg_tick = tick\<rparr>"

definition via :: "('s, err, 'a) sx \<Rightarrow> ('s, 'a) rm" where
  "via m = (\<lambda>g. case m (mg_store g) of (r, s) \<Rightarrow> (r, g\<lparr>mg_store := s\<rparr>))"

definition rm_now :: "(nat \<Rightarrow> str) \<Rightarrow> ('s, str) rm" where
  "rm_now now = (\<lambda>g. (Inr (now (mg_tick g)), g\<lparr>mg_tick := Suc (mg_tick g)\<rparr>))"

definition terminalRunStatuses :: "run_status list" where
  "terminalRunStatuses = [RunSucceeded, RunFailed, RunCancelled]"

definition terminalStepStatuses :: "step_status list" where
  "terminalStepStatuses = [StepSucceeded, StepFailed, StepCancelled, StepSkipped]"

definition run_status_name :: "run_status \<Rightarrow> str" where
  "run_status_name s = (case s of RunQueued \<Rightarrow> js ''queued'' | RunRunning \<Rightarrow> js ''running''
     | RunBlocked \<Rightarrow> js ''blocked'' | RunSucceeded \<Rightarrow> js ''succeeded'' | RunFailed \<Rightarrow> js ''failed''
     | RunCancelled \<Rightarrow> js ''cancelled'')"

definition step_status_name :: "step_status \<Rightarrow> str" where
  "step_status_name s = (case s of StepPending \<Rightarrow> js ''pending'' | StepRunning \<Rightarrow> js ''running''
     | StepBlocked \<Rightarrow> js ''blocked'' | StepSucceeded \<Rightarrow> js ''succeeded'' | StepFailed \<Rightarrow> js ''failed''
     | StepSkipped \<Rightarrow> js ''skipped'' | StepCancelled \<Rightarrow> js ''cancelled'')"

definition step_kind_name :: "step_kind \<Rightarrow> str" where
  "step_kind_name k = (case k of ToolStep \<Rightarrow> js ''tool'' | ExecutorStep \<Rightarrow> js ''executor''
     | ApprovalStep \<Rightarrow> js ''approval'' | CheckpointStep \<Rightarrow> js ''checkpoint'' | SystemStep \<Rightarrow> js ''system'')"

text \<open>\<open>{ ...base, ...patch }\<close>.\<close>

definition spread :: "(str \<times> json) list \<Rightarrow> (str \<times> json) list \<Rightarrow> (str \<times> json) list" where
  "spread base patch = foldl (\<lambda>r (k, v). AList.update k v r) base patch"

definition mergeRunMetadata :: "run_metadata option \<Rightarrow> (str \<times> json) list \<Rightarrow> run_metadata" where
  "mergeRunMetadata metadata legacyPatch =
     \<lparr>rm_legacy = Some (spread (case metadata of None \<Rightarrow> [] | Some m \<Rightarrow> given (rm_legacy m) []) legacyPatch)\<rparr>"

datatype fail_error = FailError str str | FailString str | FailRecord "(str \<times> json) list"

definition normalizeFailure :: "fail_error \<Rightarrow> (str \<times> json) list" where
  "normalizeFailure error = (case error of
     FailError name message \<Rightarrow> [(js ''name'', JStr name), (js ''message'', JStr message)]
   | FailString s \<Rightarrow> [(js ''message'', JStr s)]
   | FailRecord r \<Rightarrow> r)"

text \<open>\<open>eventType.replace(/[^a-zA-Z0-9]+/g, "_")\<close>.\<close>

definition is_alnum :: "cu \<Rightarrow> bool" where
  "is_alnum c \<longleftrightarrow> is_lower c \<or> is_upper c \<or> is_digit c"

fun squeeze :: "str \<Rightarrow> str" where
  "squeeze [] = []"
| "squeeze (c # cs) = (if is_alnum c then c # squeeze cs
     else case cs of [] \<Rightarrow> [95] | d # _ \<Rightarrow> if is_alnum d then 95 # squeeze cs else squeeze cs)"

definition createRunId :: "str \<Rightarrow> ('s, str) rm" where
  "createRunId taskId =
     sx_bind (sx_modify (\<lambda>g. g\<lparr>mg_runSequence := Suc (mg_runSequence g)\<rparr>)) (\<lambda>_.
     sx_gets (\<lambda>g. js ''run_'' @ sanitizeIdPart taskId @ js ''_'' @ padStart 3 48 (dec_nat (mg_runSequence g))))"

definition createStepId :: "str \<Rightarrow> ('s, str) rm" where
  "createStepId runId =
     sx_bind (sx_modify (\<lambda>g. g\<lparr>mg_stepSequence := Suc (mg_stepSequence g)\<rparr>)) (\<lambda>_.
     sx_gets (\<lambda>g. js ''step_'' @ sanitizeIdPart runId @ js ''_'' @ padStart 3 48 (dec_nat (mg_stepSequence g))))"

definition event_id :: "str \<Rightarrow> str \<Rightarrow> str option \<Rightarrow> nat \<Rightarrow> str" where
  "event_id eventType runId stepId seq =
     join_with (js ''_'') ([js ''event'', squeeze eventType, sanitizeIdPart runId] @
       (case stepId of Some (c # cs) \<Rightarrow> [sanitizeIdPart (c # cs)] | _ \<Rightarrow> []) @
       [padStart 4 48 (dec_nat seq)])"

definition createEventId :: "str \<Rightarrow> str \<Rightarrow> str option \<Rightarrow> ('s, str) rm" where
  "createEventId eventType runId stepId =
     sx_bind (sx_modify (\<lambda>g. g\<lparr>mg_eventSequence := Suc (mg_eventSequence g)\<rparr>)) (\<lambda>_.
     sx_gets (\<lambda>g. event_id eventType runId stepId (mg_eventSequence g)))"

definition requireRun :: "'s kernel_ops \<Rightarrow> str \<Rightarrow> ('s, run) rm" where
  "requireRun ops runId =
     sx_bind (via (op_getRun ops runId)) (\<lambda>found. case found of
       None \<Rightarrow> sx_throw (Err (js ''run_not_found:'' @ runId)) | Some r \<Rightarrow> sx_return r)"

definition requireStep :: "'s kernel_ops \<Rightarrow> str \<Rightarrow> ('s, kstep) rm" where
  "requireStep ops stepId =
     sx_bind (via (op_getStep ops stepId)) (\<lambda>found. case found of
       None \<Rightarrow> sx_throw (Err (js ''step_not_found:'' @ stepId)) | Some s \<Rightarrow> sx_return s)"

definition assertRunTransition :: "run \<Rightarrow> run_status \<Rightarrow> ('s, unit) rm" where
  "assertRunTransition run nextStatus =
     (if r_status run \<in> set terminalRunStatuses
      then sx_throw (Err (js ''run_terminal:'' @ run_status_name (r_status run)))
      else if (r_status run = RunQueued \<and> (nextStatus = RunRunning \<or> nextStatus = RunCancelled)) \<or>
              (r_status run = RunBlocked \<and> nextStatus = RunRunning) \<or>
              (r_status run = RunRunning \<and>
                 (nextStatus = RunSucceeded \<or> nextStatus = RunFailed \<or> nextStatus = RunCancelled))
      then sx_return ()
      else sx_throw (Err (js ''invalid_run_transition:'' @ run_status_name (r_status run) @ js ''->'' @
             run_status_name nextStatus)))"

definition assertStepTransition :: "kstep \<Rightarrow> step_status \<Rightarrow> ('s, unit) rm" where
  "assertStepTransition step nextStatus =
     (if s_status step \<in> set terminalStepStatuses
      then sx_throw (Err (js ''step_terminal:'' @ step_status_name (s_status step)))
      else if (s_status step = StepPending \<and> (nextStatus = StepRunning \<or> nextStatus = StepCancelled)) \<or>
              (s_status step = StepRunning \<and>
                 (nextStatus = StepSucceeded \<or> nextStatus = StepFailed \<or> nextStatus = StepCancelled))
      then sx_return ()
      else sx_throw (Err (js ''invalid_step_transition:'' @ step_status_name (s_status step) @ js ''->'' @
             step_status_name nextStatus)))"

definition assert_dependency :: "'s kernel_ops \<Rightarrow> kstep \<Rightarrow> str \<Rightarrow> ('s, unit) rm" where
  "assert_dependency ops step dependencyStepId =
     sx_bind (requireStep ops dependencyStepId) (\<lambda>dependency.
     if s_runId dependency \<noteq> s_runId step
     then sx_throw (Err (js ''step_dependency_run_mismatch:'' @ s_stepId dependency @ js '':'' @
            s_runId dependency @ js '':'' @ s_runId step))
     else if s_status dependency \<noteq> StepSucceeded
     then sx_throw (Err (js ''step_dependency_not_succeeded:'' @ s_stepId dependency @ js '':'' @
            step_status_name (s_status dependency)))
     else sx_return ())"

definition assertStepDependenciesSucceeded :: "'s kernel_ops \<Rightarrow> kstep \<Rightarrow> ('s, unit) rm" where
  "assertStepDependenciesSucceeded ops step = sx_each (assert_dependency ops step) (s_dependsOn step)"

definition assertStepParentRunRunning :: "'s kernel_ops \<Rightarrow> kstep \<Rightarrow> ('s, unit) rm" where
  "assertStepParentRunRunning ops step =
     sx_bind (requireRun ops (s_runId step)) (\<lambda>run.
     if r_status run \<in> set terminalRunStatuses
     then sx_throw (Err (js ''run_terminal:'' @ run_status_name (r_status run)))
     else if r_status run \<noteq> RunRunning
     then sx_throw (Err (js ''run_not_running:'' @ run_status_name (r_status run)))
     else sx_return ())"

definition appendEvent ::
  "'s kernel_ops \<Rightarrow> (nat \<Rightarrow> str) \<Rightarrow> str \<Rightarrow> str \<Rightarrow> str \<Rightarrow> (str \<times> json) list \<Rightarrow> str option \<Rightarrow> ('s, event) rm" where
  "appendEvent ops now eventType runId taskId payload stepId =
     sx_bind (rm_now now) (\<lambda>createdAt.
     sx_bind (createEventId eventType runId stepId) (\<lambda>eventId.
     sx_bind (sx_lift (zod_parse EventSchema
       \<lparr>e_eventId = eventId, e_eventType = eventType, e_taskId = Some taskId, e_runId = Some runId,
        e_stepId = (case stepId of Some (c # cs) \<Rightarrow> Some (c # cs) | _ \<Rightarrow> None), e_principalId = None,
        e_createdAt = createdAt, e_payload = payload, e_prevHash = None, e_hash = None\<rparr>)) (\<lambda>event.
     via (op_appendEvent ops event))))"

definition appendStepEvent ::
  "'s kernel_ops \<Rightarrow> (nat \<Rightarrow> str) \<Rightarrow> str \<Rightarrow> kstep \<Rightarrow> (str \<times> json) list \<Rightarrow> ('s, event) rm" where
  "appendStepEvent ops now eventType step payload =
     appendEvent ops now eventType (s_runId step) (s_taskId step)
       (spread payload [(js ''stepId'', JStr (s_stepId step)),
                        (js ''stepKind'', JStr (step_kind_name (s_kind step)))])
       (Some (s_stepId step))"

section \<open>Runs\<close>

record create_run_options =
  cro_runId :: "str option"
  cro_policyDecisionId :: "str option"
  cro_metadata :: "run_metadata option"

definition createRunFromTask ::
  "'s kernel_ops \<Rightarrow> (nat \<Rightarrow> str) \<Rightarrow> task \<Rightarrow> principal \<Rightarrow> create_run_options \<Rightarrow> ('s, run) rm" where
  "createRunFromTask ops now task who options =
     sx_bind (rm_now now) (\<lambda>createdAt.
     sx_bind (case cro_runId options of Some i \<Rightarrow> sx_return i | None \<Rightarrow> createRunId (t_taskId task)) (\<lambda>runId.
     sx_bind (sx_lift (zod_parse RunSchema
       \<lparr>r_runId = runId, r_taskId = t_taskId task, r_status = RunQueued,
        r_policyDecisionId = (case cro_policyDecisionId options of Some (c # cs) \<Rightarrow> Some (c # cs) | _ \<Rightarrow> None),
        r_metadata = Some (mergeRunMetadata (cro_metadata options)
          [(js ''createdByPrincipalId'', JStr (pr_principalId who))]),
        r_createdAt = createdAt, r_updatedAt = createdAt, r_completedAt = None\<rparr>)) (\<lambda>run.
     sx_bind (via (op_createRun ops run)) (\<lambda>stored.
     sx_bind (appendEvent ops now (js ''kernel.run.created'') (r_runId stored) (r_taskId stored)
       [(js ''principalId'', JStr (pr_principalId who))] None) (\<lambda>_.
     sx_return stored)))))"

definition startRun :: "'s kernel_ops \<Rightarrow> (nat \<Rightarrow> str) \<Rightarrow> str \<Rightarrow> ('s, run) rm" where
  "startRun ops now runId =
     sx_bind (requireRun ops runId) (\<lambda>run.
     sx_bind (assertRunTransition run RunRunning) (\<lambda>_.
     sx_bind (rm_now now) (\<lambda>t.
     sx_bind (via (op_updateRun ops runId
       (no_run_patch\<lparr>up_status := Some RunRunning, up_updatedAt := Some t\<rparr>))) (\<lambda>updated.
     sx_bind (appendEvent ops now (js ''kernel.run.started'') (r_runId updated) (r_taskId updated) [] None) (\<lambda>_.
     sx_return updated)))))"

text \<open>The common end of \<open>completeRun\<close>, \<open>failRun\<close> and \<open>cancelRun\<close>.\<close>

definition finish_run ::
  "'s kernel_ops \<Rightarrow> (nat \<Rightarrow> str) \<Rightarrow> str \<Rightarrow> run_status \<Rightarrow> string \<Rightarrow> (str \<times> json) list \<Rightarrow> (str \<times> json) list \<Rightarrow>
   ('s, run) rm" where
  "finish_run ops now runId status eventType legacyPatch payload =
     sx_bind (requireRun ops runId) (\<lambda>run.
     sx_bind (assertRunTransition run status) (\<lambda>_.
     sx_bind (rm_now now) (\<lambda>timestamp.
     sx_bind (via (op_updateRun ops runId
       (no_run_patch\<lparr>up_status := Some status, up_updatedAt := Some timestamp,
          up_completedAt := Some timestamp,
          up_metadata := Some (mergeRunMetadata (r_metadata run) legacyPatch)\<rparr>))) (\<lambda>updated.
     sx_bind (appendEvent ops now (js eventType) (r_runId updated) (r_taskId updated) payload None) (\<lambda>_.
     sx_return updated)))))"

definition completeRun :: "'s kernel_ops \<Rightarrow> (nat \<Rightarrow> str) \<Rightarrow> str \<Rightarrow> (str \<times> json) list \<Rightarrow> ('s, run) rm" where
  "completeRun ops now runId result =
     finish_run ops now runId RunSucceeded ''kernel.run.completed''
       [(js ''result'', JObj result)] [(js ''result'', JObj result)]"

definition failRun :: "'s kernel_ops \<Rightarrow> (nat \<Rightarrow> str) \<Rightarrow> str \<Rightarrow> fail_error \<Rightarrow> ('s, run) rm" where
  "failRun ops now runId error =
     finish_run ops now runId RunFailed ''kernel.run.failed''
       [(js ''error'', JObj (normalizeFailure error))] [(js ''error'', JObj (normalizeFailure error))]"

definition cancelRun :: "'s kernel_ops \<Rightarrow> (nat \<Rightarrow> str) \<Rightarrow> str \<Rightarrow> str \<Rightarrow> ('s, run) rm" where
  "cancelRun ops now runId reason =
     finish_run ops now runId RunCancelled ''kernel.run.cancelled''
       [(js ''cancelReason'', JStr reason)] [(js ''reason'', JStr reason)]"

section \<open>Steps\<close>

record create_step_input =
  csi_stepId :: "str option"
  csi_kind :: step_kind
  csi_input :: "(str \<times> json) list option"
  csi_dependsOn :: "str list option"

definition createStep :: "'s kernel_ops \<Rightarrow> (nat \<Rightarrow> str) \<Rightarrow> str \<Rightarrow> create_step_input \<Rightarrow> ('s, kstep) rm" where
  "createStep ops now runId input =
     sx_bind (requireRun ops runId) (\<lambda>run.
     if r_status run \<in> set terminalRunStatuses
     then sx_throw (Err (js ''run_terminal:'' @ run_status_name (r_status run)))
     else
     sx_bind (rm_now now) (\<lambda>createdAt.
     sx_bind (case csi_stepId input of Some i \<Rightarrow> sx_return i | None \<Rightarrow> createStepId runId) (\<lambda>stepId.
     sx_bind (sx_lift (zod_parse StepSchema
       \<lparr>s_stepId = stepId, s_runId = runId, s_taskId = r_taskId run, s_kind = csi_kind input,
        s_status = StepPending, s_dependsOn = given (csi_dependsOn input) [],
        s_createdAt = createdAt, s_updatedAt = createdAt, s_input = given (csi_input input) [],
        s_output = None\<rparr>)) (\<lambda>step.
     sx_bind (via (op_createStep ops step)) (\<lambda>stored.
     sx_bind (appendEvent ops now (js ''kernel.step.created'') (r_runId run) (r_taskId run)
       [(js ''stepId'', JStr (s_stepId stored)), (js ''stepKind'', JStr (step_kind_name (s_kind stored)))]
       None) (\<lambda>_.
     sx_return stored))))))"

definition startStep :: "'s kernel_ops \<Rightarrow> (nat \<Rightarrow> str) \<Rightarrow> str \<Rightarrow> ('s, kstep) rm" where
  "startStep ops now stepId =
     sx_bind (requireStep ops stepId) (\<lambda>step.
     sx_bind (assertStepParentRunRunning ops step) (\<lambda>_.
     sx_bind (assertStepTransition step StepRunning) (\<lambda>_.
     sx_bind (assertStepDependenciesSucceeded ops step) (\<lambda>_.
     sx_bind (rm_now now) (\<lambda>t.
     sx_bind (via (op_updateStep ops stepId
       (no_step_patch\<lparr>sp_status := Some StepRunning, sp_updatedAt := Some t\<rparr>))) (\<lambda>updated.
     sx_bind (appendStepEvent ops now (js ''kernel.step.started'') updated []) (\<lambda>_.
     sx_return updated)))))))"

text \<open>The common end of \<open>completeStep\<close>, \<open>failStep\<close> and \<open>cancelStep\<close>.\<close>

definition finish_step ::
  "'s kernel_ops \<Rightarrow> (nat \<Rightarrow> str) \<Rightarrow> str \<Rightarrow> step_status \<Rightarrow> string \<Rightarrow> (str \<times> json) list \<Rightarrow> (str \<times> json) list \<Rightarrow>
   ('s, kstep) rm" where
  "finish_step ops now stepId status eventType output payload =
     sx_bind (requireStep ops stepId) (\<lambda>step.
     sx_bind (assertStepParentRunRunning ops step) (\<lambda>_.
     sx_bind (assertStepTransition step status) (\<lambda>_.
     sx_bind (rm_now now) (\<lambda>t.
     sx_bind (via (op_updateStep ops stepId
       (no_step_patch\<lparr>sp_status := Some status, sp_updatedAt := Some t, sp_output := Some output\<rparr>))) (\<lambda>updated.
     sx_bind (appendStepEvent ops now (js eventType) updated payload) (\<lambda>_.
     sx_return updated))))))"

definition completeStep :: "'s kernel_ops \<Rightarrow> (nat \<Rightarrow> str) \<Rightarrow> str \<Rightarrow> (str \<times> json) list \<Rightarrow> ('s, kstep) rm" where
  "completeStep ops now stepId output =
     finish_step ops now stepId StepSucceeded ''kernel.step.completed'' output [(js ''output'', JObj output)]"

definition failStep :: "'s kernel_ops \<Rightarrow> (nat \<Rightarrow> str) \<Rightarrow> str \<Rightarrow> fail_error \<Rightarrow> ('s, kstep) rm" where
  "failStep ops now stepId error =
     finish_step ops now stepId StepFailed ''kernel.step.failed''
       [(js ''error'', JObj (normalizeFailure error))] [(js ''error'', JObj (normalizeFailure error))]"

definition cancelStep :: "'s kernel_ops \<Rightarrow> (nat \<Rightarrow> str) \<Rightarrow> str \<Rightarrow> str \<Rightarrow> ('s, kstep) rm" where
  "cancelStep ops now stepId reason =
     finish_step ops now stepId StepCancelled ''kernel.step.cancelled''
       [(js ''cancelReason'', JStr reason)] [(js ''reason'', JStr reason)]"

end
