(* ===== verification/RunManagerProofs.thy ===== *)
theory RunManagerProofs
  imports RunManager
begin

text \<open>
  What the run manager guarantees on every store that satisfies the contract \<open>kernel_store\<close>. The
  manager on such a store refines the manager on the abstract store; there its methods are sequences
  of the transitions \<open>mgr_step\<close>, on which the properties are proved.
\<close>

section \<open>The calls\<close>

datatype mgr_request =
    MCreateRun task principal create_run_options
  | MStartRun str
  | MCompleteRun str "(str \<times> json) list"
  | MFailRun str fail_error
  | MCancelRun str str
  | MCreateStep str create_step_input
  | MStartStep str
  | MCompleteStep str "(str \<times> json) list"
  | MFailStep str fail_error
  | MCancelStep str str

datatype mgr_reply = MRun run | MStep kstep

fun mgr_call :: "'s kernel_ops \<Rightarrow> (nat \<Rightarrow> str) \<Rightarrow> mgr_request \<Rightarrow> ('s, mgr_reply) rm" where
  "mgr_call ops now (MCreateRun t p x) = reply MRun (createRunFromTask ops now t p x)"
| "mgr_call ops now (MStartRun k) = reply MRun (startRun ops now k)"
| "mgr_call ops now (MCompleteRun k x) = reply MRun (completeRun ops now k x)"
| "mgr_call ops now (MFailRun k x) = reply MRun (failRun ops now k x)"
| "mgr_call ops now (MCancelRun k x) = reply MRun (cancelRun ops now k x)"
| "mgr_call ops now (MCreateStep k x) = reply MStep (createStep ops now k x)"
| "mgr_call ops now (MStartStep k) = reply MStep (startStep ops now k)"
| "mgr_call ops now (MCompleteStep k x) = reply MStep (completeStep ops now k x)"
| "mgr_call ops now (MFailStep k x) = reply MStep (failStep ops now k x)"
| "mgr_call ops now (MCancelStep k x) = reply MStep (cancelStep ops now k x)"

section \<open>Refinement\<close>

definition mgr_view :: "('s \<Rightarrow> kview) \<Rightarrow> 's manager \<Rightarrow> kview manager" where
  "mgr_view view g = \<lparr>mg_store = view (mg_store g), mg_runSequence = mg_runSequence g,
     mg_stepSequence = mg_stepSequence g, mg_eventSequence = mg_eventSequence g, mg_tick = mg_tick g\<rparr>"

abbreviation mgr_good :: "('s \<Rightarrow> bool) \<Rightarrow> 's manager \<Rightarrow> bool" where
  "mgr_good good \<equiv> \<lambda>g. good (mg_store g)"

lemma refines_via:
  "refines good view m spec \<Longrightarrow> refines (mgr_good good) (mgr_view view) (via m) (via spec)"
  by (auto simp: refines_def via_def mgr_view_def split: prod.splits)

lemma refines_now: "refines (mgr_good good) (mgr_view view) (rm_now now) (rm_now now)"
  by (simp add: refines_def rm_now_def mgr_view_def)

lemma refines_ids:
  "refines (mgr_good good) (mgr_view view) (createRunId t) (createRunId t)"
  "refines (mgr_good good) (mgr_view view) (createStepId r) (createStepId r)"
  "refines (mgr_good good) (mgr_view view) (createEventId e r s) (createEventId e r s)"
  by (simp_all add: refines_def createRunId_def createStepId_def createEventId_def sx_defs mgr_view_def)

lemma refines_reply: "refines good av m spec \<Longrightarrow> refines good av (reply f m) (reply f spec)"
  by (auto simp: refines_def reply_def split: prod.splits sum.splits)

context kernel_store
begin

lemmas store_refines = create_run get_run update_run create_step get_step update_step append_event

lemma require_refines:
  "refines (mgr_good good) (mgr_view view) (requireRun ops k) (requireRun spec_ops k)"
  "refines (mgr_good good) (mgr_view view) (requireStep ops k) (requireStep spec_ops k)"
  unfolding requireRun_def requireStep_def
  by (intro refines_intros refines_via store_refines)+

lemma assert_refines:
  "refines (mgr_good good) (mgr_view view) (assertRunTransition r n) (assertRunTransition r n)"
  "refines (mgr_good good) (mgr_view view) (assertStepTransition s m) (assertStepTransition s m)"
  "refines (mgr_good good) (mgr_view view) (assertStepDependenciesSucceeded ops s)
     (assertStepDependenciesSucceeded spec_ops s)"
  "refines (mgr_good good) (mgr_view view) (assertStepParentRunRunning ops s)
     (assertStepParentRunRunning spec_ops s)"
  unfolding assertRunTransition_def assertStepTransition_def assertStepDependenciesSucceeded_def
    assert_dependency_def assertStepParentRunRunning_def
  by (intro refines_intros require_refines)+

lemma event_refines:
  "refines (mgr_good good) (mgr_view view) (appendEvent ops now t r k p s) (appendEvent spec_ops now t r k p s)"
  "refines (mgr_good good) (mgr_view view) (appendStepEvent ops now t x p) (appendStepEvent spec_ops now t x p)"
  unfolding appendStepEvent_def appendEvent_def
  by (intro refines_intros refines_now refines_ids refines_via store_refines)+

lemmas mgr_refines = refines_intros refines_now refines_ids refines_via store_refines
  require_refines assert_refines event_refines

text \<open>The manager on this store is the manager on the abstract store.\<close>

lemma call_refines:
  "refines (mgr_good good) (mgr_view view) (mgr_call ops now c) (mgr_call spec_ops now c)"
proof -
  have "refines (mgr_good good) (mgr_view view) (createRunFromTask ops now t p x)
      (createRunFromTask spec_ops now t p x)" for t p x
    unfolding createRunFromTask_def by (intro mgr_refines)
  moreover have "refines (mgr_good good) (mgr_view view) (startRun ops now k) (startRun spec_ops now k)" for k
    unfolding startRun_def by (intro mgr_refines)
  moreover have "refines (mgr_good good) (mgr_view view) (finish_run ops now k st ty l p)
      (finish_run spec_ops now k st ty l p)" for k st ty l p
    unfolding finish_run_def by (intro mgr_refines)
  moreover have "refines (mgr_good good) (mgr_view view) (createStep ops now k x) (createStep spec_ops now k x)"
    for k x unfolding createStep_def by (intro mgr_refines)
  moreover have "refines (mgr_good good) (mgr_view view) (startStep ops now k) (startStep spec_ops now k)" for k
    unfolding startStep_def by (intro mgr_refines)
  moreover have "refines (mgr_good good) (mgr_view view) (finish_step ops now k st ty l p)
      (finish_step spec_ops now k st ty l p)" for k st ty l p
    unfolding finish_step_def by (intro mgr_refines)
  ultimately show ?thesis
    by (cases c) (simp_all add: refines_reply completeRun_def failRun_def cancelRun_def completeStep_def
        failStep_def cancelStep_def)
qed

text \<open>Any sequence of calls gets the replies, and leaves the view, of the abstract store.\<close>

lemma replies_refine:
  assumes "good (mg_store g)"
  shows "good (mg_store (snd (replies (mgr_call ops now) cs g))) \<and>
    replies (mgr_call spec_ops now) cs (mgr_view view g) =
      (fst (replies (mgr_call ops now) cs g), mgr_view view (snd (replies (mgr_call ops now) cs g)))"
  using assms
proof (induction cs arbitrary: g)
  case (Cons c cs)
  obtain r h where c: "mgr_call ops now c g = (r, h)" by (cases "mgr_call ops now c g")
  then have h: "good (mg_store h)" "mgr_call spec_ops now c (mgr_view view g) = (r, mgr_view view h)"
    using call_refines [of now c] Cons.prems unfolding refines_def by auto
  with c Cons.IH [OF h(1)] show ?case by (simp add: case_prod_beta)
qed simp

end

section \<open>The state machine on the abstract store\<close>

inductive run_edge :: "run_status \<Rightarrow> run_status \<Rightarrow> bool" where
  "run_edge RunQueued RunRunning"
| "run_edge RunQueued RunCancelled"
| "run_edge RunBlocked RunRunning"
| "run_edge RunRunning RunSucceeded"
| "run_edge RunRunning RunFailed"
| "run_edge RunRunning RunCancelled"

inductive step_edge :: "step_status \<Rightarrow> step_status \<Rightarrow> bool" where
  "step_edge StepPending StepRunning"
| "step_edge StepPending StepCancelled"
| "step_edge StepRunning StepSucceeded"
| "step_edge StepRunning StepFailed"
| "step_edge StepRunning StepCancelled"

inductive_simps run_edge_iff: "run_edge a b"
inductive_simps step_edge_iff: "step_edge a b"
inductive_cases run_edge_terminal [elim!]:
  "run_edge RunSucceeded b" "run_edge RunFailed b" "run_edge RunCancelled b"
inductive_cases step_edge_terminal [elim!]:
  "step_edge StepSucceeded b" "step_edge StepFailed b" "step_edge StepCancelled b" "step_edge StepSkipped b"

definition deps_done :: "kview \<Rightarrow> kstep \<Rightarrow> bool" where
  "deps_done v s \<longleftrightarrow> (\<forall>d \<in> set (s_dependsOn s).
     \<exists>t. kv_steps v d = Some t \<and> s_runId t = s_runId s \<and> s_status t = StepSucceeded)"

text \<open>The legal changes of the records.\<close>

inductive kv_change :: "kview \<Rightarrow> kview \<Rightarrow> bool" where
  ch_create_run: "RunSchema r \<Longrightarrow> r_status r = RunQueued \<Longrightarrow> kv_runs v (r_runId r) = None \<Longrightarrow>
    kv_change v (v\<lparr>kv_runs := (kv_runs v)(r_runId r \<mapsto> r)\<rparr>)"
| ch_run: "kv_runs v k = Some r \<Longrightarrow> run_edge (r_status r) (r_status r') \<Longrightarrow> RunSchema r' \<Longrightarrow>
    r_runId r' = k \<Longrightarrow> r_taskId r' = r_taskId r \<Longrightarrow>
    kv_change v (v\<lparr>kv_runs := (kv_runs v)(k \<mapsto> r')\<rparr>)"
| ch_create_step: "StepSchema s \<Longrightarrow> s_status s = StepPending \<Longrightarrow> kv_steps v (s_stepId s) = None \<Longrightarrow>
    kv_runs v (s_runId s) = Some r \<Longrightarrow> r_status r \<notin> {RunSucceeded, RunFailed, RunCancelled} \<Longrightarrow>
    kv_change v (v\<lparr>kv_steps := (kv_steps v)(s_stepId s \<mapsto> s)\<rparr>)"
| ch_step: "kv_steps v k = Some s \<Longrightarrow> step_edge (s_status s) (s_status s') \<Longrightarrow> StepSchema s' \<Longrightarrow>
    s_stepId s' = k \<Longrightarrow> s_runId s' = s_runId s \<Longrightarrow> s_dependsOn s' = s_dependsOn s \<Longrightarrow>
    kv_runs v (s_runId s) = Some r \<Longrightarrow> r_status r = RunRunning \<Longrightarrow>
    (s_status s' = StepRunning \<Longrightarrow> deps_done v s) \<Longrightarrow>
    kv_change v (v\<lparr>kv_steps := (kv_steps v)(k \<mapsto> s')\<rparr>)"

text \<open>The suffix of an event id is the number of the event.\<close>

definition event_seq :: "str \<Rightarrow> nat \<Rightarrow> bool" where
  "event_seq i q \<longleftrightarrow> (\<exists>x. i = x @ 95 # padStart 4 48 (dec_nat q))"

text \<open>One call: it throws and the store is as before, or it makes one change and logs one event.\<close>

inductive mgr_step :: "kview manager \<Rightarrow> err + 'a \<Rightarrow> kview manager \<Rightarrow> bool" where
  ms_throw: "mg_store h = mg_store g \<Longrightarrow> mg_eventSequence g \<le> mg_eventSequence h \<Longrightarrow>
    mgr_step g (Inl x) h"
| ms_change: "kv_change (mg_store g) v \<Longrightarrow> EventSchema e \<Longrightarrow>
    mg_eventSequence h = Suc (mg_eventSequence g) \<Longrightarrow> event_seq (e_eventId e) (mg_eventSequence h) \<Longrightarrow>
    mg_store h = v\<lparr>kv_events := kv_events v @ [e]\<rparr> \<Longrightarrow> mgr_step g (Inr x) h"

inductive_cases mgr_stepE [elim!]: "mgr_step g (Inl x) h" "mgr_step g (Inr y) h"

section \<open>The invariant\<close>

definition step_inv :: "kview \<Rightarrow> str \<Rightarrow> kstep \<Rightarrow> bool" where
  "step_inv v k s \<longleftrightarrow> StepSchema s \<and> s_stepId s = k \<and> kv_runs v (s_runId s) \<noteq> None \<and>
     (s_status s \<in> {StepRunning, StepSucceeded, StepFailed} \<longrightarrow> deps_done v s)"

definition kv_inv :: "kview \<Rightarrow> bool" where
  "kv_inv v \<longleftrightarrow> (\<forall>k r. kv_runs v k = Some r \<longrightarrow> RunSchema r \<and> r_runId r = k) \<and>
     (\<forall>k s. kv_steps v k = Some s \<longrightarrow> step_inv v k s)"

definition mgr_inv :: "kview manager \<Rightarrow> bool" where
  "mgr_inv g \<longleftrightarrow> kv_inv (mg_store g) \<and>
     (\<forall>e \<in> set (kv_events (mg_store g)). \<exists>q \<le> mg_eventSequence g. event_seq (e_eventId e) q)"

lemma kv_invD:
  assumes "kv_inv v"
  shows "kv_runs v k = Some r \<Longrightarrow> RunSchema r \<and> r_runId r = k"
    and "kv_steps v k = Some s \<Longrightarrow> step_inv v k s"
  using assms by (simp_all add: kv_inv_def)

lemma step_inv_mono:
  assumes "step_inv v k s"
    and "\<And>d t. kv_steps v d = Some t \<Longrightarrow> s_status t = StepSucceeded \<Longrightarrow> kv_steps v' d = Some t"
    and "\<And>r. kv_runs v r \<noteq> None \<Longrightarrow> kv_runs v' r \<noteq> None"
  shows "step_inv v' k s"
  using assms unfolding step_inv_def deps_done_def by blast

lemma kv_inv_change: "kv_change v v' \<Longrightarrow> kv_inv v \<Longrightarrow> kv_inv v'"
proof (induction rule: kv_change.induct)
  case (ch_create_run r v)
  have "step_inv (v\<lparr>kv_runs := (kv_runs v)(r_runId r \<mapsto> r)\<rparr>) k s" if "kv_steps v k = Some s" for k s
    by (rule step_inv_mono [OF kv_invD(2) [OF ch_create_run(4) that]]) auto
  with ch_create_run show ?case unfolding kv_inv_def by auto
next
  case (ch_run v k r r')
  have "step_inv (v\<lparr>kv_runs := (kv_runs v)(k \<mapsto> r')\<rparr>) k' s" if "kv_steps v k' = Some s" for k' s
    by (rule step_inv_mono [OF kv_invD(2) [OF ch_run(6) that]]) auto
  with ch_run show ?case unfolding kv_inv_def by auto
next
  case (ch_create_step s v r)
  let ?v = "v\<lparr>kv_steps := (kv_steps v)(s_stepId s \<mapsto> s)\<rparr>"
  have "step_inv ?v k t" if "kv_steps v k = Some t" for k t
    by (rule step_inv_mono [OF kv_invD(2) [OF ch_create_step(6) that]]) (use ch_create_step in auto)
  moreover have "step_inv ?v (s_stepId s) s" using ch_create_step by (auto simp: step_inv_def)
  ultimately show ?case using ch_create_step unfolding kv_inv_def by auto
next
  case (ch_step v k s s' r)
  let ?v = "v\<lparr>kv_steps := (kv_steps v)(k \<mapsto> s')\<rparr>"
  have keep: "kv_steps ?v d = Some t" if "kv_steps v d = Some t" "s_status t = StepSucceeded" for d t
    using that ch_step(1,2) by auto
  have "step_inv ?v k' t" if "kv_steps v k' = Some t" for k' t
    by (rule step_inv_mono [OF kv_invD(2) [OF ch_step(10) that] keep]) auto
  moreover have "step_inv ?v k s'"
  proof -
    have "deps_done v s" if "s_status s' \<in> {StepRunning, StepSucceeded, StepFailed}"
      using that ch_step(2,9) kv_invD(2) [OF ch_step(10,1)] by (auto simp: step_edge_iff step_inv_def)
    then have "deps_done ?v s'" if "s_status s' \<in> {StepRunning, StepSucceeded, StepFailed}"
      using that keep ch_step(5,6) unfolding deps_done_def by metis
    then show ?thesis using ch_step by (simp add: step_inv_def)
  qed
  ultimately show ?case using ch_step(10) unfolding kv_inv_def by auto
qed

lemma kv_change_events: "kv_change v v' \<Longrightarrow> kv_events v' = kv_events v"
  by (induction rule: kv_change.induct) simp_all

lemma kv_inv_log: "kv_inv (v\<lparr>kv_events := x\<rparr>) \<longleftrightarrow> kv_inv v"
  by (simp add: kv_inv_def step_inv_def deps_done_def)

lemma mgr_inv_step: "mgr_step g r h \<Longrightarrow> mgr_inv g \<Longrightarrow> mgr_inv h"
proof (induction rule: mgr_step.induct)
  case (ms_throw h g x)
  then show ?case unfolding mgr_inv_def by (metis order_trans)
next
  case (ms_change g v e h x)
  then have "kv_inv (mg_store h)" using kv_inv_change by (simp add: mgr_inv_def kv_inv_log)
  moreover have "\<exists>q \<le> mg_eventSequence h. event_seq (e_eventId x) q" if "x \<in> set (kv_events (mg_store g))" for x
    using that ms_change unfolding mgr_inv_def by (metis le_SucI)
  ultimately show ?case
    using ms_change kv_change_events [OF ms_change(1)] unfolding mgr_inv_def by auto
qed

section \<open>Every call is one step\<close>

lemma event_seq_unique: "event_seq i p \<Longrightarrow> event_seq i q \<Longrightarrow> p = q"
proof -
  have no: "95 \<notin> set (padStart 4 48 (dec_nat n))" for n
    using padStart_digits by (force simp: is_digit_def)
  have tail: "takeWhile (\<lambda>c. c \<noteq> 95) (rev (x @ 95 # padStart 4 48 (dec_nat n))) = rev (padStart 4 48 (dec_nat n))"
    for x n using no [of n] by (simp, subst takeWhile_append2) auto
  assume "event_seq i p" "event_seq i q"
  then show ?thesis unfolding event_seq_def by (metis tail padStart_dec_inj rev_rev_ident)
qed

lemma event_id_seq: "event_seq (event_id eventType runId stepId q) q"
  unfolding event_seq_def event_id_def
  by (cases stepId rule: option.exhaust, simp_all add: js_def split: list.splits)

lemma requireRun_spec:
  "requireRun spec_ops k g = ((case kv_runs (mg_store g) k of
     None \<Rightarrow> Inl (Err (js ''run_not_found:'' @ k)) | Some r \<Rightarrow> Inr r), g)"
  by (simp add: requireRun_def via_def spec_ops_def sx_defs split: option.splits)

lemma requireStep_spec:
  "requireStep spec_ops k g = ((case kv_steps (mg_store g) k of
     None \<Rightarrow> Inl (Err (js ''step_not_found:'' @ k)) | Some s \<Rightarrow> Inr s), g)"
  by (simp add: requireStep_def via_def spec_ops_def sx_defs split: option.splits)

lemma assertRunTransition_spec:
  "\<exists>x. assertRunTransition r n g = ((if run_edge (r_status r) n then Inr () else Inl x), g)"
  by (auto simp: assertRunTransition_def run_edge_iff sx_defs terminalRunStatuses_def)

lemma assertStepTransition_spec:
  "\<exists>x. assertStepTransition s n g = ((if step_edge (s_status s) n then Inr () else Inl x), g)"
  by (auto simp: assertStepTransition_def step_edge_iff sx_defs terminalStepStatuses_def)

lemma assertStepParentRunRunning_spec:
  "\<exists>x. assertStepParentRunRunning spec_ops s g =
     ((if \<exists>r. kv_runs (mg_store g) (s_runId s) = Some r \<and> r_status r = RunRunning then Inr () else Inl x), g)"
  by (auto simp: assertStepParentRunRunning_def sx_defs requireRun_spec terminalRunStatuses_def split: option.splits)

lemma assertStepDependenciesSucceeded_spec:
  "\<exists>x. assertStepDependenciesSucceeded spec_ops s g = ((if deps_done (mg_store g) s then Inr () else Inl x), g)"
proof -
  define P where "P d \<longleftrightarrow> (\<exists>t. kv_steps (mg_store g) d = Some t \<and> s_runId t = s_runId s \<and>
    s_status t = StepSucceeded)" for d
  have one: "\<exists>x. assert_dependency spec_ops s d g = ((if P d then Inr () else Inl x), g)" for d
    by (auto simp: P_def assert_dependency_def sx_defs requireStep_spec split: option.splits)
  have "\<exists>x. sx_each (assert_dependency spec_ops s) ds g = ((if \<forall>d \<in> set ds. P d then Inr () else Inl x), g)" for ds
  proof (induction ds)
    case (Cons d ds)
    with one [of d] show ?case by (auto simp: sx_bind_def split: if_splits)
  qed (simp add: sx_return_def)
  then show ?thesis unfolding assertStepDependenciesSucceeded_def deps_done_def P_def .
qed

lemma rm_now_spec: "rm_now now g = (Inr (now (mg_tick g)), g\<lparr>mg_tick := Suc (mg_tick g)\<rparr>)"
  by (simp add: rm_now_def)

lemma event_fresh:
  assumes "mgr_inv g" and "event_seq i (Suc (mg_eventSequence g))"
  shows "i \<notin> e_eventId ` set (kv_events (mg_store g))"
proof
  assume "i \<in> e_eventId ` set (kv_events (mg_store g))"
  then obtain q where "q \<le> mg_eventSequence g" "event_seq i q"
    using assms(1) unfolding mgr_inv_def by auto
  with event_seq_unique [OF assms(2)] show False by fastforce
qed

text \<open>The append of an event whose number is new.\<close>

lemma appendEvent_spec:
  assumes "mgr_inv g" and "kv_events (mg_store u) = kv_events (mg_store g)"
    and "mg_eventSequence u = mg_eventSequence g" and "\<forall>n. now n \<noteq> []"
    and "eventType \<noteq> []" and "runId \<noteq> []" and "taskId \<noteq> []"
  shows "\<exists>e h. appendEvent spec_ops now eventType runId taskId p s u = (Inr e, h) \<and> EventSchema e \<and>
    mg_eventSequence h = Suc (mg_eventSequence g) \<and> event_seq (e_eventId e) (mg_eventSequence h) \<and>
    mg_store h = (mg_store u)\<lparr>kv_events := kv_events (mg_store u) @ [e]\<rparr>"
proof -
  let ?i = "event_id eventType runId s (Suc (mg_eventSequence g))"
  have seq: "event_seq ?i (Suc (mg_eventSequence g))" by (rule event_id_seq)
  then have "?i \<noteq> []" unfolding event_seq_def by auto
  moreover have "?i \<notin> e_eventId ` set (kv_events (mg_store g))" using event_fresh [OF assms(1) seq] .
  ultimately show ?thesis
    using assms seq
    by (auto simp: appendEvent_def createEventId_def rm_now_def sx_defs zod_parse_def EventSchema_def
        via_def spec_ops_def spec_appendEvent_def split: option.splits list.splits)
qed

text \<open>
  \<open>lawful g m u\<close>: the call that began in \<open>g\<close>, is in \<open>u\<close> and still has to do \<open>m\<close>, is one step. Reads and
  checks that pass leave the obligation to the rest of the method.
\<close>

definition lawful :: "kview manager \<Rightarrow> (kview, 'a) rm \<Rightarrow> kview manager \<Rightarrow> bool" where
  "lawful g m u \<longleftrightarrow> mgr_step g (fst (m u)) (snd (m u))"

definition untouched :: "kview manager \<Rightarrow> kview manager \<Rightarrow> bool" where
  "untouched g u \<longleftrightarrow> mg_store u = mg_store g \<and> mg_eventSequence u = mg_eventSequence g"

lemma untouched_simps [simp]:
  "untouched g g" "untouched g (u\<lparr>mg_tick := n\<rparr>) = untouched g u"
  "untouched g (u\<lparr>mg_runSequence := n\<rparr>) = untouched g u" "untouched g (u\<lparr>mg_stepSequence := n\<rparr>) = untouched g u"
  by (simp_all add: untouched_def)

lemma lawful_reply: "lawful g (reply f m) u \<longleftrightarrow> lawful g m u"
  by (auto simp: lawful_def reply_def intro: mgr_step.intros split: prod.splits sum.splits)

lemma lawful_throw: "untouched g u \<Longrightarrow> lawful g (sx_throw x) u"
  by (simp add: lawful_def sx_throw_def untouched_def ms_throw)

lemma lawful_bind: "m u = (Inr x, u') \<Longrightarrow> lawful g (f x) u' \<Longrightarrow> lawful g (sx_bind m f) u"
  by (simp add: lawful_def sx_bind_def)

lemma lawful_check:
  "\<exists>y. m u = ((if c then Inr x else Inl y), u) \<Longrightarrow> untouched g u \<Longrightarrow> (c \<Longrightarrow> lawful g (f x) u) \<Longrightarrow>
   lawful g (sx_bind m f) u"
  by (auto simp: lawful_def sx_bind_def untouched_def ms_throw)

lemma lawful_requireRun:
  "untouched g u \<Longrightarrow> (\<And>r. kv_runs (mg_store g) k = Some r \<Longrightarrow> lawful g (f r) u) \<Longrightarrow>
   lawful g (sx_bind (requireRun spec_ops k) f) u"
  by (cases "kv_runs (mg_store g) k")
    (auto simp: lawful_def sx_bind_def requireRun_spec untouched_def ms_throw)

lemma lawful_requireStep:
  "untouched g u \<Longrightarrow> (\<And>s. kv_steps (mg_store g) k = Some s \<Longrightarrow> lawful g (f s) u) \<Longrightarrow>
   lawful g (sx_bind (requireStep spec_ops k) f) u"
  by (cases "kv_steps (mg_store g) k")
    (auto simp: lawful_def sx_bind_def requireStep_spec untouched_def ms_throw)

lemma lawful_now:
  "lawful g (f (now (mg_tick u))) (u\<lparr>mg_tick := Suc (mg_tick u)\<rparr>) \<Longrightarrow> lawful g (sx_bind (rm_now now) f) u"
  by (simp add: lawful_def sx_bind_def rm_now_def)

lemma lawful_parse:
  "untouched g u \<Longrightarrow> (P x \<Longrightarrow> lawful g (f x) u) \<Longrightarrow> lawful g (sx_bind (sx_lift (zod_parse P x)) f) u"
  by (auto simp: lawful_def sx_defs zod_parse_def untouched_def ms_throw)

lemma lawful_log:
  assumes "mgr_inv g" and "kv_change (mg_store g) (mg_store u)"
    and "mg_eventSequence u = mg_eventSequence g" and "\<forall>n. now n \<noteq> []"
    and "eventType \<noteq> []" and "runId \<noteq> []" and "taskId \<noteq> []"
  shows "lawful g (sx_bind (appendEvent spec_ops now eventType runId taskId p s) (\<lambda>_. sx_return x)) u"
proof -
  from appendEvent_spec [OF assms(1) kv_change_events [OF assms(2)] assms(3-7), where p = p and s = s] obtain e h where
    e: "appendEvent spec_ops now eventType runId taskId p s u = (Inr e, h)" "EventSchema e"
      "mg_eventSequence h = Suc (mg_eventSequence g)" "event_seq (e_eventId e) (mg_eventSequence h)"
      "mg_store h = (mg_store u)\<lparr>kv_events := kv_events (mg_store u) @ [e]\<rparr>" by blast
  then show ?thesis
    using ms_change [OF assms(2) e(2-5)] by (simp add: lawful_def sx_bind_def sx_return_def)
qed

text \<open>The update of a run, and the event it is logged with.\<close>

lemma lawful_update_run:
  assumes "mgr_inv g" and "untouched g u" and "kv_runs (mg_store g) k = Some r"
    and "up_runId p = None" and "up_taskId p = None" and "up_status p = Some n" and "run_edge (r_status r) n"
    and "\<forall>n. now n \<noteq> []" and "eventType \<noteq> []"
  shows "lawful g (sx_bind (via (op_updateRun spec_ops k p)) (\<lambda>v.
    sx_bind (appendEvent spec_ops now eventType (r_runId v) (r_taskId v) q None) (\<lambda>_. sx_return v))) u"
proof (cases "RunSchema (patch_run k p r)")
  case True
  let ?r = "patch_run k p r"
  let ?u = "u\<lparr>mg_store := (mg_store g)\<lparr>kv_runs := (kv_runs (mg_store g))(k \<mapsto> ?r)\<rparr>\<rparr>"
  have "via (op_updateRun spec_ops k p) u = (Inr ?r, ?u)"
    using True assms(2-4) by (simp add: via_def spec_ops_def spec_updateRun_def renames_def untouched_def)
  moreover have "kv_change (mg_store g) (mg_store ?u)"
    using ch_run [OF assms(3), of ?r] assms True by (simp add: patch_run_def)
  then have "lawful g (sx_bind (appendEvent spec_ops now eventType (r_runId ?r) (r_taskId ?r) q None)
      (\<lambda>_. sx_return ?r)) ?u"
    using True assms by (intro lawful_log) (auto simp: RunSchema_def untouched_def)
  ultimately show ?thesis by (rule lawful_bind)
next
  case False
  then show ?thesis
    using assms(2-4) by (simp add: lawful_def sx_bind_def via_def spec_ops_def spec_updateRun_def
        renames_def untouched_def ms_throw)
qed

lemma startRun_lawful: "mgr_inv g \<Longrightarrow> \<forall>n. now n \<noteq> [] \<Longrightarrow> lawful g (startRun spec_ops now k) g"
  unfolding startRun_def
  by (intro lawful_requireRun lawful_check [OF assertRunTransition_spec] lawful_now lawful_update_run)
    (auto simp: no_run_patch_def js_def)

lemma finish_run_lawful:
  "mgr_inv g \<Longrightarrow> \<forall>n. now n \<noteq> [] \<Longrightarrow> ev \<noteq> [] \<Longrightarrow> lawful g (finish_run spec_ops now k n ev l p) g"
  unfolding finish_run_def
  by (intro lawful_requireRun lawful_check [OF assertRunTransition_spec] lawful_now lawful_update_run)
    (auto simp: no_run_patch_def js_def)

text \<open>The same for a step.\<close>

lemma lawful_update_step:
  assumes "mgr_inv g" and "untouched g u" and "kv_steps (mg_store g) k = Some s"
    and "sp_stepId p = None" and "sp_runId p = None" and "sp_taskId p = None" and "sp_dependsOn p = None"
    and "sp_status p = Some n" and "step_edge (s_status s) n"
    and "\<exists>r. kv_runs (mg_store u) (s_runId s) = Some r \<and> r_status r = RunRunning"
    and "n = StepRunning \<Longrightarrow> deps_done (mg_store u) s" and "\<forall>n. now n \<noteq> []" and "eventType \<noteq> []"
  shows "lawful g (sx_bind (via (op_updateStep spec_ops k p)) (\<lambda>v.
    sx_bind (appendStepEvent spec_ops now eventType v q) (\<lambda>_. sx_return v))) u"
proof (cases "StepSchema (patch_step k p s)")
  case True
  let ?s = "patch_step k p s"
  let ?u = "u\<lparr>mg_store := (mg_store g)\<lparr>kv_steps := (kv_steps (mg_store g))(k \<mapsto> ?s)\<rparr>\<rparr>"
  obtain r where r: "kv_runs (mg_store g) (s_runId s) = Some r" "r_status r = RunRunning"
    using assms(2,10) by (auto simp: untouched_def)
  have "via (op_updateStep spec_ops k p) u = (Inr ?s, ?u)"
    using True assms(2-4) by (simp add: via_def spec_ops_def spec_updateStep_def renames_def untouched_def)
  moreover have "kv_change (mg_store g) (mg_store ?u)"
    using ch_step [OF assms(3) _ True _ _ _ r] assms by (simp add: patch_step_def untouched_def)
  then have "lawful g (sx_bind (appendStepEvent spec_ops now eventType ?s q) (\<lambda>_. sx_return ?s)) ?u"
    using True assms unfolding appendStepEvent_def
    by (intro lawful_log) (auto simp: StepSchema_def untouched_def)
  ultimately show ?thesis by (rule lawful_bind)
next
  case False
  then show ?thesis
    using assms(2-4) by (simp add: lawful_def sx_bind_def via_def spec_ops_def spec_updateStep_def
        renames_def untouched_def ms_throw)
qed

lemma startStep_lawful: "mgr_inv g \<Longrightarrow> \<forall>n. now n \<noteq> [] \<Longrightarrow> lawful g (startStep spec_ops now k) g"
  unfolding startStep_def
  by (intro lawful_requireStep lawful_check [OF assertStepParentRunRunning_spec]
      lawful_check [OF assertStepTransition_spec] lawful_check [OF assertStepDependenciesSucceeded_spec]
      lawful_now lawful_update_step)
    (auto simp: no_step_patch_def js_def)

lemma finish_step_lawful:
  "mgr_inv g \<Longrightarrow> \<forall>n. now n \<noteq> [] \<Longrightarrow> ev \<noteq> [] \<Longrightarrow> n \<noteq> StepRunning \<Longrightarrow>
   lawful g (finish_step spec_ops now k n ev l p) g"
  unfolding finish_step_def
  by (intro lawful_requireStep lawful_check [OF assertStepParentRunRunning_spec]
      lawful_check [OF assertStepTransition_spec] lawful_now lawful_update_step)
    (auto simp: no_step_patch_def js_def)

text \<open>The creation of a run and of a step.\<close>

lemma lawful_create_run:
  assumes "mgr_inv g" and "untouched g u" and "RunSchema r" and "r_status r = RunQueued"
    and "\<forall>n. now n \<noteq> []" and "eventType \<noteq> []"
  shows "lawful g (sx_bind (via (op_createRun spec_ops r)) (\<lambda>v.
    sx_bind (appendEvent spec_ops now eventType (r_runId v) (r_taskId v) q None) (\<lambda>_. sx_return v))) u"
proof (cases "kv_runs (mg_store g) (r_runId r)")
  case None
  let ?u = "u\<lparr>mg_store := (mg_store g)\<lparr>kv_runs := (kv_runs (mg_store g))(r_runId r \<mapsto> r)\<rparr>\<rparr>"
  have "via (op_createRun spec_ops r) u = (Inr r, ?u)"
    using None assms(2,3) by (simp add: via_def spec_ops_def spec_createRun_def untouched_def)
  moreover have "kv_change (mg_store g) (mg_store ?u)"
    using ch_create_run [OF assms(3,4) None] by simp
  then have "lawful g (sx_bind (appendEvent spec_ops now eventType (r_runId r) (r_taskId r) q None)
      (\<lambda>_. sx_return r)) ?u"
    using assms by (intro lawful_log) (auto simp: RunSchema_def untouched_def)
  ultimately show ?thesis by (rule lawful_bind)
next
  case Some
  then show ?thesis
    using assms(2,3) by (simp add: lawful_def sx_bind_def via_def spec_ops_def spec_createRun_def
        untouched_def ms_throw)
qed

lemma lawful_create_step:
  assumes "mgr_inv g" and "untouched g u" and "StepSchema s" and "s_status s = StepPending"
    and r: "kv_runs (mg_store g) (s_runId s) = Some r" "r_status r \<notin> {RunSucceeded, RunFailed, RunCancelled}"
    and "\<forall>n. now n \<noteq> []" and "eventType \<noteq> []"
  shows "lawful g (sx_bind (via (op_createStep spec_ops s)) (\<lambda>v.
    sx_bind (appendEvent spec_ops now eventType (r_runId r) (r_taskId r) (q v) None) (\<lambda>_. sx_return v))) u"
proof (cases "kv_steps (mg_store g) (s_stepId s)")
  case None
  let ?u = "u\<lparr>mg_store := (mg_store g)\<lparr>kv_steps := (kv_steps (mg_store g))(s_stepId s \<mapsto> s)\<rparr>\<rparr>"
  have "via (op_createStep spec_ops s) u = (Inr s, ?u)"
    using None assms(2,3) by (simp add: via_def spec_ops_def spec_createStep_def untouched_def)
  moreover have "kv_change (mg_store g) (mg_store ?u)"
    using ch_create_step [OF assms(3,4) None r] by simp
  moreover have "RunSchema r" using kv_invD(1) r(1) assms(1) unfolding mgr_inv_def by blast
  ultimately show ?thesis
    using assms by (intro lawful_bind [where u' = ?u] lawful_log) (auto simp: RunSchema_def untouched_def)
next
  case Some
  then show ?thesis
    using assms(2,3) by (simp add: lawful_def sx_bind_def via_def spec_ops_def spec_createStep_def
        untouched_def ms_throw)
qed

lemma lawful_id:
  assumes "untouched g u" and "\<And>i u'. untouched g u' \<Longrightarrow> lawful g (f i) u'"
  shows "lawful g (sx_bind (case v of None \<Rightarrow> createRunId t | Some i \<Rightarrow> sx_return i) f) u"
    and "lawful g (sx_bind (case v of None \<Rightarrow> createStepId t | Some i \<Rightarrow> sx_return i) f) u"
  using assms
  by (cases v; auto simp: lawful_def sx_defs createRunId_def createStepId_def untouched_def)+

lemma createRun_lawful:
  assumes "mgr_inv g" and "\<forall>n. now n \<noteq> []"
  shows "lawful g (createRunFromTask spec_ops now t who opts) g"
proof -
  have "js ''kernel.run.created'' \<noteq> []" by (simp add: js_def)
  with assms show ?thesis
    unfolding createRunFromTask_def
    by (intro lawful_now lawful_id(1) lawful_parse lawful_create_run) auto
qed

lemma lawful_if:
  "(c \<Longrightarrow> lawful g m u) \<Longrightarrow> (\<not> c \<Longrightarrow> lawful g m' u) \<Longrightarrow> lawful g (if c then m else m') u"
  by simp

lemma createStep_lawful:
  assumes "mgr_inv g" and "\<forall>n. now n \<noteq> []"
  shows "lawful g (createStep spec_ops now k i) g"
proof -
  have "js ''kernel.step.created'' \<noteq> []" by (simp add: js_def)
  with assms show ?thesis
    unfolding createStep_def
    by (intro lawful_requireRun lawful_if lawful_throw lawful_now lawful_id(2) lawful_parse lawful_create_step)
      (auto simp: terminalRunStatuses_def)
qed

lemma call_lawful:
  assumes "mgr_inv g" and "\<forall>n. now n \<noteq> []"
  shows "lawful g (mgr_call spec_ops now c) g"
  using assms createRun_lawful createStep_lawful startRun_lawful finish_run_lawful startStep_lawful finish_step_lawful
  by (cases c) (simp_all add: lawful_reply completeRun_def failRun_def cancelRun_def completeStep_def
      failStep_def cancelStep_def)

end
