(* ===== verification/RunManagerSpec.thy ===== *)
theory RunManagerSpec
  imports RunManagerProofs "HOL-Library.Sublist"
begin

text \<open>
  The guarantees of the run manager over a whole history of calls, on every store that satisfies the
  contract, and what is lost when two managers share a store.
\<close>

section \<open>Histories\<close>

definition terminal_run :: "run \<Rightarrow> bool" where
  "terminal_run r \<longleftrightarrow> r_status r \<in> set terminalRunStatuses"

definition terminal_step :: "kstep \<Rightarrow> bool" where
  "terminal_step s \<longleftrightarrow> s_status s \<in> set terminalStepStatuses"

text \<open>What can only be added to.\<close>

definition kv_le :: "kview \<Rightarrow> kview \<Rightarrow> bool" where
  "kv_le v w \<longleftrightarrow> (\<forall>k r. kv_runs v k = Some r \<longrightarrow>
       (\<exists>r'. kv_runs w k = Some r' \<and> r_taskId r' = r_taskId r \<and> (terminal_run r \<longrightarrow> r' = r))) \<and>
     (\<forall>k s. kv_steps v k = Some s \<longrightarrow>
       (\<exists>s'. kv_steps w k = Some s' \<and> s_runId s' = s_runId s \<and> s_dependsOn s' = s_dependsOn s \<and>
         (terminal_step s \<longrightarrow> s' = s))) \<and>
     prefix (kv_events v) (kv_events w)"

lemma kv_le_refl: "kv_le v v"
  by (simp add: kv_le_def)

lemma kv_leD:
  assumes "kv_le v w"
  shows "kv_runs v k = Some r \<Longrightarrow>
      \<exists>r'. kv_runs w k = Some r' \<and> r_taskId r' = r_taskId r \<and> (terminal_run r \<longrightarrow> r' = r)"
    and "kv_steps v k = Some s \<Longrightarrow> \<exists>s'. kv_steps w k = Some s' \<and> s_runId s' = s_runId s \<and>
      s_dependsOn s' = s_dependsOn s \<and> (terminal_step s \<longrightarrow> s' = s)"
    and "prefix (kv_events v) (kv_events w)"
  using assms unfolding kv_le_def by simp_all

lemma kv_le_trans:
  assumes "kv_le u v" and "kv_le v w"
  shows "kv_le u w"
  unfolding kv_le_def
proof (intro conjI allI impI)
  fix k r assume "kv_runs u k = Some r"
  from kv_leD(1) [OF assms(1) this] obtain r' where r': "kv_runs v k = Some r'" "r_taskId r' = r_taskId r"
    "terminal_run r \<longrightarrow> r' = r" by blast
  from kv_leD(1) [OF assms(2) r'(1)] r'(2,3)
  show "\<exists>r'. kv_runs w k = Some r' \<and> r_taskId r' = r_taskId r \<and> (terminal_run r \<longrightarrow> r' = r)" by auto
next
  fix k s assume "kv_steps u k = Some s"
  from kv_leD(2) [OF assms(1) this] obtain s' where s': "kv_steps v k = Some s'" "s_runId s' = s_runId s"
    "s_dependsOn s' = s_dependsOn s" "terminal_step s \<longrightarrow> s' = s" by blast
  from kv_leD(2) [OF assms(2) s'(1)] s'(2-4)
  show "\<exists>s'. kv_steps w k = Some s' \<and> s_runId s' = s_runId s \<and> s_dependsOn s' = s_dependsOn s \<and>
    (terminal_step s \<longrightarrow> s' = s)" by auto
next
  show "prefix (kv_events u) (kv_events w)"
    using kv_leD(3) [OF assms(1)] kv_leD(3) [OF assms(2)] by (rule prefix_order.trans)
qed

lemma edge_not_terminal:
  "run_edge (r_status r) n \<Longrightarrow> \<not> terminal_run r" "step_edge (s_status s) m \<Longrightarrow> \<not> terminal_step s"
  unfolding terminal_run_def terminal_step_def terminalRunStatuses_def terminalStepStatuses_def
  by (cases "r_status r"; force)+

lemma kv_change_le: "kv_change v w \<Longrightarrow> kv_le v w"
proof (induction rule: kv_change.induct)
  case (ch_run v k r r')
  with edge_not_terminal(1) [OF ch_run(2)] show ?case by (simp add: kv_le_def)
next
  case (ch_step v k s s' r)
  with edge_not_terminal(2) [OF ch_step(2)] show ?case by (simp add: kv_le_def)
qed (auto simp: kv_le_def)

lemma mgr_step_le: "mgr_step g r h \<Longrightarrow> kv_le (mg_store g) (mg_store h)"
proof (induction rule: mgr_step.induct)
  case (ms_throw h g x)
  then show ?case by (simp add: kv_le_refl)
next
  case (ms_change g v e h x)
  have "kv_le v (mg_store h)" using ms_change by (simp add: kv_le_def)
  with kv_change_le [OF ms_change(1)] show ?case by (rule kv_le_trans)
qed

context kernel_store
begin

lemma call_is_step:
  assumes "good (mg_store g)" and "mgr_inv (mgr_view view g)" and "\<forall>n. now n \<noteq> []"
  shows "good (mg_store (snd (mgr_call ops now c g)))"
    and "mgr_step (mgr_view view g) (fst (mgr_call ops now c g)) (mgr_view view (snd (mgr_call ops now c g)))"
  using assms call_refines [of now c] call_lawful [OF assms(2,3), of c]
  unfolding refines_def lawful_def by simp_all

lemma history:
  assumes "good (mg_store g)" and "mgr_inv (mgr_view view g)" and "\<forall>n. now n \<noteq> []"
  shows "good (mg_store (snd (replies (mgr_call ops now) cs g))) \<and>
    mgr_inv (mgr_view view (snd (replies (mgr_call ops now) cs g))) \<and>
    kv_le (view (mg_store g)) (view (mg_store (snd (replies (mgr_call ops now) cs g))))"
  using assms(1,2)
proof (induction cs arbitrary: g)
  case Nil
  then show ?case by (simp add: kv_le_refl)
next
  case (Cons c cs)
  let ?h = "snd (mgr_call ops now c g)"
  note step = call_is_step [OF Cons.prems assms(3), of c]
  have "kv_le (view (mg_store g)) (view (mg_store ?h))"
    using mgr_step_le [OF step(2)] by (simp add: mgr_view_def)
  with Cons.IH [OF step(1) mgr_inv_step [OF step(2) Cons.prems(2)]] show ?case
    by (auto simp: split_beta elim: kv_le_trans)
qed

end

lemma new_manager_inv:
  assumes "kv_runs (view s) = Map.empty" and "kv_steps (view s) = Map.empty" and "kv_events (view s) = []"
  shows "mgr_inv (mgr_view view (new_manager s n))"
  using assms by (simp add: mgr_inv_def kv_inv_def mgr_view_def new_manager_def)

lemma replies_append:
  "snd (replies call (cs @ ds) s) = snd (replies call ds (snd (replies call cs s)))"
  by (induction cs arbitrary: s) (simp_all add: split_beta)

text \<open>The manager on a fresh directory, after the calls \<open>cs\<close>.\<close>

definition managed :: "(nat \<Rightarrow> str) \<Rightarrow> mgr_request list \<Rightarrow> disk manager" where
  "managed now cs = snd (replies (mgr_call disk_ops now) cs (new_manager None 0))"

definition kernel_view :: "disk manager \<Rightarrow> kview" where
  "kernel_view g = disk_view (mg_store g)"

lemma disk_view_empty:
  "kv_runs (disk_view None) = Map.empty" "kv_steps (disk_view None) = Map.empty" "kv_events (disk_view None) = []"
  by (auto simp: disk_view_def kernel_readState_def createEmptyFileSystemKernelStoreState_def)

lemma managed_inv:
  assumes "\<forall>n. now n \<noteq> []"
  shows "disk_good (mg_store (managed now cs))" and "mgr_inv (mgr_view disk_view (managed now cs))"
proof -
  have "disk_good (mg_store (new_manager None 0))"
    by (simp add: disk_good_def kernel_readState_def new_manager_def)
  from fs.history [OF this new_manager_inv [of disk_view None, OF disk_view_empty] assms, of cs]
  show "disk_good (mg_store (managed now cs))" "mgr_inv (mgr_view disk_view (managed now cs))"
    by (simp_all add: managed_def)
qed

text \<open>
  C6: The sole manager of a directory changes all or nothing. Take one run manager that has been the only
  one on its directory since the directory was empty, with a clock that never returns the empty text,
  and any history of calls. A call that throws leaves the runs, steps and events as they were; a call
  that returns has made exactly one legal change of a run or step and logged exactly one event, under an
  id that no earlier event has. Lock timeouts, I/O errors and a crash between the two mutations (the
  change, then the event) are outside of the model; so is a second manager on the same directory, for
  which this is false, see \<open>second_manager_not_atomic\<close>.
\<close>

theorem sole_manager_atomic:
  assumes "\<forall>n. now n \<noteq> []"
  shows "case mgr_call disk_ops now c (managed now cs) of
     (Inl x, h) \<Rightarrow> kernel_view h = kernel_view (managed now cs)
   | (Inr y, h) \<Rightarrow> \<exists>w e. kv_change (kernel_view (managed now cs)) w \<and> EventSchema e \<and>
       e_eventId e \<notin> e_eventId ` set (kv_events (kernel_view (managed now cs))) \<and>
       kernel_view h = w\<lparr>kv_events := kv_events (kernel_view (managed now cs)) @ [e]\<rparr>"
proof -
  let ?g = "mgr_view disk_view (managed now cs)"
  note inv = managed_inv [OF assms, of cs]
  obtain r h where r: "mgr_call disk_ops now c (managed now cs) = (r, h)"
    by (cases "mgr_call disk_ops now c (managed now cs)")
  have step: "mgr_step ?g r (mgr_view disk_view h)"
    using fs.call_is_step(2) [OF inv assms, of c] r by simp
  have view: "mg_store ?g = kernel_view (managed now cs)" "mg_store (mgr_view disk_view h) = kernel_view h"
    by (simp_all add: mgr_view_def kernel_view_def)
  show ?thesis
  proof (cases r)
    case (Inl x)
    with step view r show ?thesis by auto
  next
    case (Inr y)
    with step obtain w e where w: "kv_change (mg_store ?g) w" "EventSchema e"
      "event_seq (e_eventId e) (Suc (mg_eventSequence ?g))" "kernel_view h = w\<lparr>kv_events := kv_events w @ [e]\<rparr>"
      using view by auto
    have "e_eventId e \<notin> e_eventId ` set (kv_events (mg_store ?g))"
      using event_fresh [OF inv(2) w(3)] .
    with w kv_change_events [OF w(1)] view Inr r show ?thesis by auto
  qed
qed

text \<open>
  C10: No step runs ahead of its dependencies. After any history of calls, a step that is running, has
  succeeded or has failed belongs to a stored run, and every step it depends on is stored, belongs to
  the same run and has succeeded.
\<close>

theorem dependencies_succeed_first:
  assumes "\<forall>n. now n \<noteq> []" and "kv_steps (kernel_view (managed now cs)) k = Some s"
    and "s_status s \<in> {StepRunning, StepSucceeded, StepFailed}"
  shows "kv_runs (kernel_view (managed now cs)) (s_runId s) \<noteq> None \<and>
    (\<forall>d \<in> set (s_dependsOn s). \<exists>t. kv_steps (kernel_view (managed now cs)) d = Some t \<and>
       s_runId t = s_runId s \<and> s_status t = StepSucceeded)"
proof -
  have "kv_inv (kernel_view (managed now cs))"
    using managed_inv(2) [OF assms(1), of cs] by (simp add: mgr_inv_def mgr_view_def kernel_view_def)
  from kv_invD(2) [OF this assms(2)] assms(3) show ?thesis
    unfolding step_inv_def deps_done_def by blast
qed

text \<open>
  What is terminal stays as it is. Whatever is called later, a succeeded, failed or cancelled run
  and a succeeded, failed, cancelled or skipped step keep every field, no run or step disappears or
  changes its owner, and the event log is only extended at its end.
\<close>

theorem terminal_records_final:
  fixes cs ds :: "mgr_request list"
  assumes "\<forall>n. now n \<noteq> []"
  defines "v \<equiv> kernel_view (managed now cs)" and "w \<equiv> kernel_view (managed now (cs @ ds))"
  shows "(\<forall>k r. kv_runs v k = Some r \<longrightarrow> (\<exists>r'. kv_runs w k = Some r' \<and> r_taskId r' = r_taskId r \<and>
       (r_status r \<in> set terminalRunStatuses \<longrightarrow> r' = r))) \<and>
    (\<forall>k s. kv_steps v k = Some s \<longrightarrow> (\<exists>s'. kv_steps w k = Some s' \<and> s_runId s' = s_runId s \<and>
       s_dependsOn s' = s_dependsOn s \<and> (s_status s \<in> set terminalStepStatuses \<longrightarrow> s' = s))) \<and>
    prefix (kv_events v) (kv_events w)"
proof -
  have "kv_le v w"
    using fs.history [OF managed_inv [OF assms(1), of cs] assms(1), of ds]
    unfolding v_def w_def kernel_view_def by (simp add: managed_def replies_append)
  then show ?thesis unfolding kv_le_def terminal_run_def terminal_step_def .
qed

text \<open>
  The manager does not depend on the store behind it. The same calls get the same replies, errors
  included, on the file-system store and on the in-memory store.
\<close>

theorem manager_store_independent:
  "fst (replies (mgr_call disk_ops now) cs (new_manager None n)) =
   fst (replies (mgr_call mem_ops now) cs (new_manager new_mem_store n))"
proof -
  have "mgr_view disk_view (new_manager None n) = mgr_view mem_view (new_manager new_mem_store n)"
    by (simp add: mgr_view_def new_manager_def disk_view_def mem_view_def kernel_readState_def
        new_mem_store_def createEmptyFileSystemKernelStoreState_def fun_eq_iff)
  moreover have "disk_good (mg_store (new_manager None n))" "mem_inv (mg_store (new_manager new_mem_store n))"
    by (simp_all add: disk_good_def kernel_readState_def new_manager_def mem_inv_new)
  ultimately show ?thesis using fs.replies_refine mem.replies_refine by (metis fst_conv)
qed

section \<open>A history\<close>

definition demo_now :: "nat \<Rightarrow> str" where
  "demo_now n = js ''now''"

definition demo_task :: task where
  "demo_task = \<lparr>t_taskId = js ''t'', t_source = CliSource, t_title = js ''title'', t_requestedAction = js ''act'',
     t_successCriteria = [], t_outOfScope = [], t_intent = None, t_createdBy = None,
     t_repo = \<lparr>tr_root = None, tr_branch = None, tr_worktreeClean = None, tr_protectedBranch = None\<rparr>,
     t_workspace = None, t_context = None,
     t_target = \<lparr>tt_branches = [], tt_files = [], tt_modules = []\<rparr>,
     t_hints = \<lparr>th_taskClass = None, th_riskHints = [], th_tags = [], th_provenance = []\<rparr>,
     t_constraints = [], t_metadata = None, t_createdAt = js ''now''\<rparr>"

definition demo_principal :: principal where
  "demo_principal = \<lparr>pr_principalId = js ''p'', pr_kind = KindUser, pr_displayName = None,
     pr_tenantId = None, pr_workspaceId = None, pr_createdAt = js ''now''\<rparr>"

definition demo_create :: mgr_request where
  "demo_create = MCreateRun demo_task demo_principal
     \<lparr>cro_runId = Some (js ''r''), cro_policyDecisionId = None, cro_metadata = None\<rparr>"

definition demo_step :: "string \<Rightarrow> string list \<Rightarrow> mgr_request" where
  "demo_step k ds = MCreateStep (js ''r'') \<lparr>csi_stepId = Some (js k), csi_kind = ToolStep,
     csi_input = None, csi_dependsOn = Some (map js ds)\<rparr>"

definition demo_history :: "mgr_request list" where
  "demo_history = [demo_create, MStartRun (js ''r''), demo_step ''a'' [], demo_step ''b'' [''a''],
     MStartStep (js ''a''), MCompleteStep (js ''a'') [], MStartStep (js ''b'')]"

definition no_records :: kview where
  "no_records = \<lparr>kv_runs = (\<lambda>_. None), kv_steps = (\<lambda>_. None), kv_events = []\<rparr>"

lemma demo_now_ok: "\<forall>n. demo_now n \<noteq> []"
  by (simp add: demo_now_def js_def)

lemma managed_spec:
  "mgr_view disk_view (managed now cs) = snd (replies (mgr_call spec_ops now) cs (new_manager no_records 0))"
proof -
  have "mgr_view disk_view (new_manager None 0) = new_manager no_records 0"
    using disk_view_empty by (simp add: mgr_view_def new_manager_def no_records_def)
  moreover have "disk_good (mg_store (new_manager None 0))"
    by (simp add: disk_good_def kernel_readState_def new_manager_def)
  ultimately show ?thesis using fs.replies_refine [of "new_manager None 0" now cs] by (simp add: managed_def)
qed

lemma kernel_view_spec:
  "kernel_view (managed now cs) = mg_store (snd (replies (mgr_call spec_ops now) cs (new_manager no_records 0)))"
  by (simp add: kernel_view_def mgr_view_def flip: managed_spec)

lemma demo_second_step:
  "map_option (\<lambda>s. (s_status s, s_dependsOn s)) (kv_steps (kernel_view (managed demo_now demo_history)) (js ''b'')) =
     Some (StepRunning, [js ''a''])"
  unfolding kernel_view_spec by code_simp

lemma demo_cancelled:
  "map_option r_status (kv_runs (kernel_view (managed demo_now [demo_create, MCancelRun (js ''r'') (js ''x'')])) (js ''r'')) =
     Some RunCancelled"
  unfolding kernel_view_spec by code_simp

lemma demo_created: "isOk (fst (mgr_call disk_ops demo_now demo_create (managed demo_now [])))"
proof -
  have "fst (mgr_call spec_ops demo_now demo_create (new_manager no_records 0)) =
      fst (mgr_call disk_ops demo_now demo_create (managed demo_now []))"
    using fs.call_refines [of demo_now demo_create] managed_inv(1) [OF demo_now_ok, of "[]"] managed_spec [of demo_now "[]"]
    unfolding refines_def by (metis fst_conv replies.simps(1) snd_conv)
  moreover have "isOk (fst (mgr_call spec_ops demo_now demo_create (new_manager no_records 0)))" by code_simp
  ultimately show ?thesis by simp
qed

theorem sole_manager_atomic_witness:
  "isOk (fst (mgr_call disk_ops demo_now demo_create (managed demo_now []))) \<and>
   (\<exists>w e. kv_change (kernel_view (managed demo_now [])) w \<and> EventSchema e \<and>
     kernel_view (snd (mgr_call disk_ops demo_now demo_create (managed demo_now []))) =
       w\<lparr>kv_events := kv_events (kernel_view (managed demo_now [])) @ [e]\<rparr>)"
  using sole_manager_atomic [OF demo_now_ok, where c = demo_create and cs = "[]"] demo_created
  by (auto split: prod.splits sum.splits)

theorem dependencies_succeed_first_witness:
  "\<exists>t. kv_steps (kernel_view (managed demo_now demo_history)) (js ''a'') = Some t \<and> s_status t = StepSucceeded"
proof -
  obtain s where "kv_steps (kernel_view (managed demo_now demo_history)) (js ''b'') = Some s"
    "s_status s = StepRunning" "s_dependsOn s = [js ''a'']" using demo_second_step by auto
  then show ?thesis using dependencies_succeed_first [OF demo_now_ok, of demo_history "js ''b''" s] by auto
qed

theorem terminal_records_final_witness:
  "map_option r_status (kv_runs (kernel_view (managed demo_now ([demo_create, MCancelRun (js ''r'') (js ''x'')] @
     [MStartRun (js ''r''), demo_step ''a'' []]))) (js ''r'')) = Some RunCancelled"
  using demo_cancelled terminal_records_final [OF demo_now_ok, of "[demo_create, MCancelRun (js ''r'') (js ''x'')]"
      "[MStartRun (js ''r''), demo_step ''a'' []]"]
  by (auto simp: terminalRunStatuses_def)

definition second_manager :: "mgr_request list \<Rightarrow> (err + mgr_reply) list \<times> disk manager" where
  "second_manager cs = replies (mgr_call disk_ops demo_now) cs
     (new_manager (mg_store (managed demo_now [demo_create, demo_step ''a'' []])) 0)"

text \<open>
  The numbers of events start again with every manager. A second manager on the same directory, as
  after a restart, reuses event ids: its second \<open>createStep\<close> throws \<open>duplicate_event_id\<close>, and the step it
  reports as failed has already been stored.
\<close>

theorem second_manager_not_atomic:
  "map isOk (fst (second_manager [demo_step ''b'' [], demo_step ''c'' []])) = [True, False] \<and>
   last (fst (second_manager [demo_step ''b'' [], demo_step ''c'' []])) =
     Inl (Err (js ''duplicate_event_id:event_kernel_step_created_r_0002'')) \<and>
   kv_steps (kernel_view (snd (second_manager [demo_step ''b'' [], demo_step ''c'' []]))) (js ''c'') \<noteq> None"
proof -
  let ?cs = "[demo_step ''b'' [], demo_step ''c'' []]"
  let ?g = "new_manager (mg_store (snd (replies (mgr_call spec_ops demo_now) [demo_create, demo_step ''a'' []]
    (new_manager no_records 0)))) 0"
  have g: "mgr_view disk_view (new_manager (mg_store (managed demo_now [demo_create, demo_step ''a'' []])) 0) = ?g"
    using kernel_view_spec [of demo_now "[demo_create, demo_step ''a'' []]"]
    by (simp only: mgr_view_def new_manager_def kernel_view_def manager.select_convs)
  have "disk_good (mg_store (new_manager (mg_store (managed demo_now [demo_create, demo_step ''a'' []])) 0))"
    using managed_inv(1) [OF demo_now_ok] by (simp add: new_manager_def)
  from fs.replies_refine [OF this, of demo_now ?cs]
  have "fst (second_manager ?cs) = fst (replies (mgr_call spec_ops demo_now) ?cs ?g)"
    "kernel_view (snd (second_manager ?cs)) = mg_store (snd (replies (mgr_call spec_ops demo_now) ?cs ?g))"
    unfolding second_manager_def kernel_view_def g by (simp_all add: mgr_view_def)
  moreover have "map isOk (fst (replies (mgr_call spec_ops demo_now) ?cs ?g)) = [True, False] \<and>
      last (fst (replies (mgr_call spec_ops demo_now) ?cs ?g)) =
        Inl (Err (js ''duplicate_event_id:event_kernel_step_created_r_0002'')) \<and>
      \<not> Option.is_none (kv_steps (mg_store (snd (replies (mgr_call spec_ops demo_now) ?cs ?g))) (js ''c''))"
    by code_simp
  ultimately show ?thesis by (simp add: Option.is_none_def)
qed

end
