(* ===== verification/AdmissionControl.thy ===== *)
theory AdmissionControl
  imports Capability
begin

text \<open>
  Admission of a task, \<open>packages/admission-control/src/index.ts\<close>: the risk signals and the
  capabilities a task asks for are read off its text and the policy decision, and decide between
  acceptance, rejection, clarification and approval. \<open>String.prototype.toLowerCase\<close> is the argument
  \<open>lower\<close>.
\<close>

section \<open>Inputs\<close>

datatype policy_risk = PolicyLow | PolicyMedium | PolicyHigh | PolicyCritical

text \<open>
  The parts of a policy decision the admission and eligibility checks read; \<open>pd_json\<close> is the whole
  object, which is only hashed. \<open>pd_legacy\<close> is \<open>metadata?.legacy\<close>.
\<close>

record policy_decision =
  pd_riskLevel :: policy_risk
  pd_clarificationRequired :: bool
  pd_approvalRequired :: bool
  pd_capabilities :: "capability_scope list"
  pd_legacy :: "(str \<times> json) list option"
  pd_status :: "str option"
  pd_blocked :: "bool option"
  pd_json :: json

text \<open>The field of an agent manifest that admission reads.\<close>

record agent_manifest =
  am_capabilities :: "capability_scope list"

record admission_input =
  ei_task :: task
  ei_principal :: "principal option"
  ei_agent :: "agent_manifest option"
  ei_policyDecision :: "policy_decision option"
  ei_now :: "str option"

datatype admission_status = Accepted | Rejected | NeedsClarification | NeedsApproval

record admission_decision =
  ad_status :: admission_status
  ad_taskId :: str
  ad_principalId :: str
  ad_reasons :: "str list"
  ad_riskSignals :: "str list"
  ad_requiredCapabilities :: "capability_scope list"
  ad_requiredApprovals :: "str list"
  ad_createdAt :: str

section \<open>Signals\<close>

definition primitive_text :: "json \<Rightarrow> str list" where
  "primitive_text v = (case v of JStr s \<Rightarrow> [s] | JNum n \<Rightarrow> [dec_int n]
     | JBool b \<Rightarrow> [if b then js ''true'' else js ''false''] | _ \<Rightarrow> [])"

text \<open>The texts a value adds after its key; \<open>None\<close> when the key is skipped as well.\<close>

fun value_texts :: "json \<Rightarrow> str list option" where
  "value_texts JNull = None"
| "value_texts (JBool b) = (if b then Some [js ''true''] else None)"
| "value_texts (JNum n) = Some [dec_int n]"
| "value_texts (JStr s) = Some [s]"
| "value_texts (JArr xs) = Some (concat (map primitive_text xs))"
| "value_texts (JObj kvs) =
     Some (concat (map (\<lambda>(k, v). case value_texts v of None \<Rightarrow> [] | Some ts \<Rightarrow> k # ts) kvs))"

definition appendRecordValues :: "str list \<Rightarrow> (str \<times> json) list \<Rightarrow> str list" where
  "appendRecordValues values r =
     values @ concat (map (\<lambda>(k, v). case value_texts v of None \<Rightarrow> [] | Some ts \<Rightarrow> k # ts) r)"

definition append_opt_record :: "str list \<Rightarrow> (str \<times> json) list option \<Rightarrow> str list" where
  "append_opt_record values r = (case r of None \<Rightarrow> values | Some kvs \<Rightarrow> appendRecordValues values kvs)"

definition collectTaskSignalText :: "(str \<Rightarrow> str) \<Rightarrow> task \<Rightarrow> str list" where
  "collectTaskSignalText lower task =
     (let values = [t_title task, t_requestedAction task] @ t_successCriteria task @
            tt_branches (t_target task) @ tt_files (t_target task) @ tt_modules (t_target task) @
            th_riskHints (t_hints task) @ th_tags (t_hints task);
          values = values @ (case truthy (th_taskClass (t_hints task)) of None \<Rightarrow> [] | Some c \<Rightarrow> [c]);
          values = appendRecordValues values (t_constraints task);
          values = (case t_metadata task of None \<Rightarrow> values | Some m \<Rightarrow>
            append_opt_record (append_opt_record
              (values @ (case truthy (tm_legacySource m) of None \<Rightarrow> [] | Some s \<Rightarrow> [s]))
              (tm_legacyHints m)) (tm_legacy m))
      in map lower values)"

definition hasAnySignal :: "str \<Rightarrow> string list \<Rightarrow> bool" where
  "hasAnySignal text terms = list_ex (\<lambda>term. str_includes text (js term)) terms"

definition signal_text :: "(str \<Rightarrow> str) \<Rightarrow> task \<Rightarrow> str" where
  "signal_text lower task = join_with (js '' '') (collectTaskSignalText lower task)"

definition collectRiskSignals :: "(str \<Rightarrow> str) \<Rightarrow> task \<Rightarrow> policy_decision option \<Rightarrow> str list" where
  "collectRiskSignals lower task policyDecision =
     (let text = signal_text lower task in
      (if hasAnySignal text [''external'', ''remote'', ''network''] then [js ''external_side_effect''] else []) @
      (if hasAnySignal text [''destructive'', ''delete'', ''remove'', ''overwrite'']
       then [js ''destructive''] else []) @
      (if hasAnySignal text [''production'', ''prod'', ''release''] then [js ''production''] else []) @
      (if hasAnySignal text [''secret'', ''credential'', ''token''] then [js ''secret''] else []) @
      (if opt_ex pd_approvalRequired policyDecision then [js ''policy_approval_required''] else []) @
      (if opt_ex (\<lambda>d. pd_riskLevel d = PolicyCritical) policyDecision then [js ''critical_policy_risk''] else []))"

definition approval_signals :: "str list" where
  "approval_signals = [js ''external_side_effect'', js ''destructive'', js ''production'', js ''secret'',
     js ''critical_policy_risk'', js ''policy_approval_required'']"

definition collectRequiredApprovals :: "str list \<Rightarrow> str list" where
  "collectRequiredApprovals riskSignals =
     map (\<lambda>s. js ''approval:'' @ s) (filter (\<lambda>s. s \<in> set approval_signals) riskSignals)"

definition requiresApproval :: "str list \<Rightarrow> bool" where
  "requiresApproval riskSignals = list_ex (\<lambda>s. s \<in> set approval_signals) riskSignals"

section \<open>Capabilities\<close>

definition inferResources :: "task \<Rightarrow> str list" where
  "inferResources task =
     (if tt_files (t_target task) \<noteq> [] then tt_files (t_target task)
      else case truthy (tr_root (t_repo task)) of Some root \<Rightarrow> [root @ js ''/**'']
      | None \<Rightarrow> [js ''workspace/**''])"

definition plain_scope :: "scope_kind \<Rightarrow> capability_access \<Rightarrow> str \<Rightarrow> capability_scope" where
  "plain_scope kind access resource =
     \<lparr>cs_kind = kind, cs_resource = resource, cs_access = access, cs_constraints = []\<rparr>"

definition capability_key :: "capability_scope \<Rightarrow> str" where
  "capability_key c = kind_name (cs_kind c) @ js '':'' @ access_name (cs_access c) @ js '':'' @ cs_resource c"

definition uniqueCapabilities :: "capability_scope list \<Rightarrow> capability_scope list" where
  "uniqueCapabilities capabilities = dedupe_by_key {} (map (\<lambda>c. (capability_key c, c)) capabilities)"

definition collectRequiredCapabilities ::
  "(str \<Rightarrow> str) \<Rightarrow> task \<Rightarrow> policy_decision option \<Rightarrow> capability_scope list" where
  "collectRequiredCapabilities lower task policyDecision =
     (if opt_ex (\<lambda>d. pd_capabilities d \<noteq> []) policyDecision
      then (case policyDecision of Some d \<Rightarrow> pd_capabilities d | None \<Rightarrow> [])
      else let signals = signal_text lower task; resources = inferResources task in
        uniqueCapabilities (map (plain_scope FileScope AccRead) resources @
          (if hasAnySignal signals [''write'', ''edit'', ''modify'', ''patch'', ''change'', ''local_write'']
           then map (plain_scope FileScope AccWrite) resources else []) @
          (if hasAnySignal signals [''external'', ''network'', ''remote'']
           then [plain_scope ExternalScope AccWrite (js ''external_side_effect'')] else []) @
          (if hasAnySignal signals [''secret''] then [plain_scope SecretScope AccRead (js ''task_secret'')] else [])))"

definition normalizeFileResourcePattern :: "str \<Rightarrow> str" where
  "normalizeFileResourcePattern resource =
     (let slashResource = slashes resource;
          recursive = endsWith slashResource (js ''/**'');
          base = (if recursive then take (length slashResource - 3) slashResource else slashResource);
          normalizedBase = trimTrailingSlash (posix_normalize base)
      in if recursive then normalizedBase @ js ''/**'' else normalizedBase)"

definition resourceMatches :: "str \<Rightarrow> str \<Rightarrow> bool" where
  "resourceMatches grantedResource requiredResource =
     (if grantedResource = js ''**'' then True
      else let g = normalizeFileResourcePattern grantedResource;
               r = normalizeFileResourcePattern requiredResource
           in if g = r then True
              else if endsWith g (js ''/**'')
              then (let p = take (length g - 3) g in r = p \<or> startsWith r (p @ [SLASH]))
              else False)"

definition agentHasMatchingCapability :: "agent_manifest option \<Rightarrow> capability_scope \<Rightarrow> bool" where
  "agentHasMatchingCapability agent requiredScope = (case agent of
     None \<Rightarrow> cs_kind requiredScope = FileScope \<and> cs_access requiredScope = AccRead
   | Some a \<Rightarrow> list_ex (\<lambda>s. cs_kind s = cs_kind requiredScope \<and> cs_access s = cs_access requiredScope \<and>
       resourceMatches (cs_resource s) (cs_resource requiredScope)) (am_capabilities a))"

section \<open>The decision\<close>

definition policy_object_blocked :: "policy_decision \<Rightarrow> bool" where
  "policy_object_blocked d \<longleftrightarrow> pd_status d = Some (js ''blocked'') \<or> pd_blocked d = Some True \<or>
     opt_ex (\<lambda>m. jprop m (js ''status'') = Some (JStr (js ''blocked'')) \<or>
                 jprop m (js ''blocked'') = Some (JBool True)) (pd_legacy d)"

definition isPolicyBlocked :: "policy_decision option \<Rightarrow> bool" where
  "isPolicyBlocked policyDecision = opt_ex policy_object_blocked policyDecision"

definition createDecision :: "admission_decision \<Rightarrow> admission_decision" where
  "createDecision d = d\<lparr>ad_reasons := uniq (ad_reasons d), ad_riskSignals := uniq (ad_riskSignals d),
     ad_requiredCapabilities := uniqueCapabilities (ad_requiredCapabilities d),
     ad_requiredApprovals := uniq (ad_requiredApprovals d)\<rparr>"

definition evaluateTaskAdmission :: "(str \<Rightarrow> str) \<Rightarrow> admission_input \<Rightarrow> admission_decision" where
  "evaluateTaskAdmission lower input =
     (let task = ei_task input; policy = ei_policyDecision input;
          createdAt = (case ei_now input of Some n \<Rightarrow> n | None \<Rightarrow> js ''1970-01-01T00:00:00.000Z'');
          principalId = (case ei_principal input of Some p \<Rightarrow> pr_principalId p | None \<Rightarrow> js ''unknown_principal'');
          riskSignals = collectRiskSignals lower task policy;
          requiredCapabilities = collectRequiredCapabilities lower task policy;
          requiredApprovals = collectRequiredApprovals riskSignals;
          decide = (\<lambda>status reasons approvals. createDecision
            \<lparr>ad_status = status, ad_taskId = t_taskId task, ad_principalId = principalId, ad_reasons = reasons,
             ad_riskSignals = riskSignals, ad_requiredCapabilities = requiredCapabilities,
             ad_requiredApprovals = approvals, ad_createdAt = createdAt\<rparr>)
      in if ei_principal input = None then decide Rejected [js ''missing_principal''] requiredApprovals
         else if t_intent task = None then decide Rejected [js ''missing_task_intent''] requiredApprovals
         else if isPolicyBlocked policy then decide Rejected [js ''policy_decision_blocked''] requiredApprovals
         else if opt_ex pd_clarificationRequired policy
         then decide NeedsClarification [js ''policy_decision_requires_clarification''] requiredApprovals
         else let missing = filter (\<lambda>s. \<not> agentHasMatchingCapability (ei_agent input) s) requiredCapabilities;
                  capabilityApprovals = map (\<lambda>s. js ''capability:'' @ capability_key s) missing;
                  approvalReasons =
                    (if requiresApproval riskSignals then [js ''approval_required_by_task_risk''] else []) @
                    (if list_ex (\<lambda>s. cs_access s \<noteq> AccRead) missing
                     then [js ''missing_required_write_capability''] else []) @
                    (if list_ex (\<lambda>s. cs_access s = AccRead) missing
                     then [js ''missing_required_read_capability''] else [])
              in if approvalReasons \<noteq> []
                 then decide NeedsApproval approvalReasons (requiredApprovals @ capabilityApprovals)
                 else decide Accepted [] requiredApprovals)"

section \<open>What an admission says\<close>

lemma risk_signals_known: "set (collectRiskSignals lower task policy) \<subseteq> set approval_signals"
  by (auto simp: collectRiskSignals_def approval_signals_def Let_def)

lemma requires_approval_iff:
  "requiresApproval (collectRiskSignals lower task policy) \<longleftrightarrow> collectRiskSignals lower task policy \<noteq> []"
  using risk_signals_known [of lower task policy]
  by (cases "collectRiskSignals lower task policy") (auto simp: requiresApproval_def list_ex_iff)

lemma admission_fields:
  "ad_riskSignals (evaluateTaskAdmission lower i) = uniq (collectRiskSignals lower (ei_task i) (ei_policyDecision i))"
  "collectRiskSignals lower (ei_task i) (ei_policyDecision i) = s # ss \<Longrightarrow>
   js ''approval:'' @ s \<in> set (ad_requiredApprovals (evaluateTaskAdmission lower i))"
proof -
  show "ad_riskSignals (evaluateTaskAdmission lower i) = uniq (collectRiskSignals lower (ei_task i) (ei_policyDecision i))"
    by (simp add: evaluateTaskAdmission_def Let_def createDecision_def)
  assume s: "collectRiskSignals lower (ei_task i) (ei_policyDecision i) = s # ss"
  then have "s \<in> set approval_signals"
    using risk_signals_known [of lower "ei_task i" "ei_policyDecision i"] by simp
  with s show "js ''approval:'' @ s \<in> set (ad_requiredApprovals (evaluateTaskAdmission lower i))"
    by (simp add: evaluateTaskAdmission_def Let_def createDecision_def collectRequiredApprovals_def)
qed

lemma admission_open:
  assumes "ad_status (evaluateTaskAdmission lower i) \<notin> {Rejected, NeedsClarification}"
  shows "ei_principal i \<noteq> None" "t_intent (ei_task i) \<noteq> None" "\<not> isPolicyBlocked (ei_policyDecision i)"
    "\<not> opt_ex pd_clarificationRequired (ei_policyDecision i)"
  using assms by (auto simp: evaluateTaskAdmission_def Let_def createDecision_def split: if_splits)

lemma accepted_iff:
  "ad_status (evaluateTaskAdmission lower i) = Accepted \<longleftrightarrow>
     ei_principal i \<noteq> None \<and> t_intent (ei_task i) \<noteq> None \<and> \<not> isPolicyBlocked (ei_policyDecision i) \<and>
     \<not> opt_ex pd_clarificationRequired (ei_policyDecision i) \<and>
     collectRiskSignals lower (ei_task i) (ei_policyDecision i) = [] \<and>
     (\<forall>s \<in> set (collectRequiredCapabilities lower (ei_task i) (ei_policyDecision i)).
        agentHasMatchingCapability (ei_agent i) s)"
proof -
  let ?m = "filter (\<lambda>s. \<not> agentHasMatchingCapability (ei_agent i) s)
    (collectRequiredCapabilities lower (ei_task i) (ei_policyDecision i))"
  have "list_ex (\<lambda>s. cs_access s \<noteq> AccRead) ?m \<or> list_ex (\<lambda>s. cs_access s = AccRead) ?m \<longleftrightarrow> ?m \<noteq> []"
    by (auto simp: list_ex_iff filter_empty_conv)
  then show ?thesis
    by (auto simp: evaluateTaskAdmission_def Let_def createDecision_def requires_approval_iff filter_empty_conv
        split: if_splits)
qed

lemma includes_join:
  assumes "v \<in> set vs" and "str_includes v w"
  shows "str_includes (join_with d vs) w"
proof -
  have "\<exists>a b. join_with d vs = a @ v @ b"
    using assms(1)
  proof (induction d vs rule: join_with.induct)
    case (2 d x)
    then have "join_with d [x] = [] @ v @ []" by simp
    then show ?case by blast
  next
    case (3 d x y vs)
    show ?case
    proof (cases "v = x")
      case True
      then have "join_with d (x # y # vs) = [] @ v @ (d @ join_with d (y # vs))" by simp
      then show ?thesis by blast
    next
      case False
      with 3 obtain a b where "join_with d (y # vs) = a @ v @ b" by auto
      then have "join_with d (x # y # vs) = (x @ d @ a) @ v @ b" by simp
      then show ?thesis by blast
    qed
  qed simp
  with assms(2) show ?thesis unfolding str_includes_def by (auto simp: sublist_def) (metis append.assoc)
qed

lemma signal_in_text:
  "v \<in> set (collectTaskSignalText lower task) \<Longrightarrow> str_includes v (js w) \<Longrightarrow> w \<in> set terms \<Longrightarrow>
   hasAnySignal (signal_text lower task) terms"
  by (auto simp: hasAnySignal_def signal_text_def list_ex_iff intro: includes_join)

definition risk_words :: "string list" where
  "risk_words = [''external'', ''remote'', ''network'', ''destructive'', ''delete'', ''remove'', ''overwrite'',
     ''production'', ''prod'', ''release'', ''secret'', ''credential'', ''token'']"

lemma risk_word_signals:
  assumes "v \<in> set (collectTaskSignalText lower task)" and "str_includes v (js w)" and "w \<in> set risk_words"
  shows "collectRiskSignals lower task policy \<noteq> []"
proof -
  from assms(3) have "w \<in> set [''external'', ''remote'', ''network''] \<or>
      w \<in> set [''destructive'', ''delete'', ''remove'', ''overwrite''] \<or>
      w \<in> set [''production'', ''prod'', ''release''] \<or> w \<in> set [''secret'', ''credential'', ''token'']"
    by (auto simp: risk_words_def)
  with signal_in_text [OF assms(1,2)] show ?thesis
    by (auto simp: collectRiskSignals_def Let_def)
qed

text \<open>
  A task that mentions a risk is never admitted unattended. If the lower-cased title, requested
  action, success criteria, targets, hints, constraints or metadata of a task contain one of the risk
  words anywhere, its admission is not \<open>accepted\<close>, whatever the agent may do; and a task accepted
  for a caller without an agent manifest requires file reads only.
\<close>

theorem risky_task_not_accepted:
  assumes "v \<in> set (collectTaskSignalText lower (ei_task i))" and "str_includes v (js w)" and "w \<in> set risk_words"
  shows "ad_status (evaluateTaskAdmission lower i) \<noteq> Accepted \<and>
    (ad_status (evaluateTaskAdmission lower (i\<lparr>ei_agent := None, ei_task := t\<rparr>)) = Accepted \<longrightarrow>
      (\<forall>s \<in> set (collectRequiredCapabilities lower t (ei_policyDecision i)).
         cs_kind s = FileScope \<and> cs_access s = AccRead))"
proof -
  have "\<not> ad_status (evaluateTaskAdmission lower i) = Accepted"
    using risk_word_signals [OF assms] unfolding accepted_iff by blast
  moreover have "cs_kind s = FileScope \<and> cs_access s = AccRead"
    if "ad_status (evaluateTaskAdmission lower (i\<lparr>ei_agent := None, ei_task := t\<rparr>)) = Accepted"
      "s \<in> set (collectRequiredCapabilities lower t (ei_policyDecision i))" for s
    using that by (auto simp: accepted_iff agentHasMatchingCapability_def)
  ultimately show ?thesis by blast
qed

definition risky_task :: task where
  "risky_task = \<lparr>t_taskId = js ''t'', t_source = CliSource, t_title = js ''tidy up'',
     t_requestedAction = js ''delete the branch'',
     t_successCriteria = [], t_outOfScope = [],
     t_intent = Some \<lparr>ti_summary = js ''s'', ti_requestedAction = js ''a'', ti_successCriteria = [], ti_outOfScope = []\<rparr>,
     t_createdBy = None,
     t_repo = \<lparr>tr_root = None, tr_branch = None, tr_worktreeClean = None, tr_protectedBranch = None\<rparr>,
     t_workspace = None, t_context = None,
     t_target = \<lparr>tt_branches = [], tt_files = [], tt_modules = []\<rparr>,
     t_hints = \<lparr>th_taskClass = None, th_riskHints = [], th_tags = [], th_provenance = []\<rparr>,
     t_constraints = [], t_metadata = None, t_createdAt = js ''now''\<rparr>"

definition risky_input :: admission_input where
  "risky_input = \<lparr>ei_task = risky_task, ei_principal = Some \<lparr>pr_principalId = js ''p'', pr_kind = KindUser,
     pr_displayName = None, pr_tenantId = None, pr_workspaceId = None, pr_createdAt = js ''now''\<rparr>,
     ei_agent = None, ei_policyDecision = None, ei_now = None\<rparr>"

theorem risky_task_not_accepted_witness:
  "ad_status (evaluateTaskAdmission ascii_lower risky_input) \<noteq> Accepted"
proof -
  have "js ''delete the branch'' \<in> set (collectTaskSignalText ascii_lower (ei_task risky_input))" by code_simp
  moreover have "str_includes (js ''delete the branch'') (js ''delete'')" by code_simp
  moreover have "''delete'' \<in> set risk_words" by (simp add: risk_words_def)
  ultimately show ?thesis using risky_task_not_accepted by blast
qed

end
