(* ===== verification/ApprovalPermit.thy ===== *)
theory ApprovalPermit
  imports Capability Canonical
begin

text \<open>
  Approval permits, \<open>packages/governance-internal-approval-permit/src/index.ts\<close>: a permit binds an
  approval to one task, run, principal, policy decision and plan, for a set of capability scopes and
  until a time. \<open>Date.parse\<close> is the argument \<open>dp\<close> (\<open>None\<close> for NaN) and SHA-256 the argument \<open>sha256\<close>.
\<close>

section \<open>Creating a permit\<close>

record permit_input =
  pi_permitId :: str
  pi_taskId :: str
  pi_runId :: str
  pi_principalId :: str
  pi_approverId :: str
  pi_policyDecisionHash :: str
  pi_planHash :: str
  pi_capabilityScopes :: "str list"
  pi_createdAt :: str
  pi_expiresAt :: str
  pi_approver :: "principal option"
  pi_reason :: "str option"
  pi_signature :: "str option"

definition kernel_scope :: "scope_kind \<Rightarrow> str \<Rightarrow> capability_access \<Rightarrow> (str \<times> json) list \<Rightarrow> capability_scope" where
  "kernel_scope kind resource access constraints =
     \<lparr>cs_kind = kind, cs_resource = resource, cs_access = access, cs_constraints = constraints\<rparr>"

definition capabilityScopeToKernelScope :: "str \<Rightarrow> err + capability_scope" where
  "capabilityScopeToKernelScope scope =
     bind_res (parseCapabilityScope scope) (\<lambda>parsed.
       let parts = split_on DOT (ps_action parsed);
           family = hd parts;
           action = (case tl parts of [] \<Rightarrow> [] | a # _ \<Rightarrow> a);
           constraint = (js ''capabilityScope'', JStr scope);
           resource = ps_resource parsed;
           rw = (if action = js ''read'' then AccRead else AccWrite)
       in if family = [] \<or> action = [] then Inl (Err (js ''invalid capability action: '' @ ps_action parsed))
          else if family = js ''fs'' then Inr (kernel_scope FileScope resource rw [constraint])
          else if family = js ''shell'' \<or> family = js ''mcp''
          then Inr (kernel_scope ToolScope resource AccExecute [constraint, (js ''family'', JStr family)])
          else if family = js ''network'' then Inr (kernel_scope NetworkScope resource AccWrite [constraint])
          else if family = js ''memory''
          then Inr (kernel_scope ProcessScope resource rw [constraint, (js ''family'', JStr family)])
          else if family = js ''secret'' then Inr (kernel_scope SecretScope resource AccRead [constraint])
          else if family = js ''external''
          then Inr (kernel_scope ExternalScope resource
                 (if action = js ''admin'' then AccAdmin
                  else if action = js ''execute'' then AccExecute else AccWrite) [constraint])
          else Inl (Err (js ''unsupported capability family: '' @ family)))"

definition permit_approver :: "permit_input \<Rightarrow> err + principal" where
  "permit_approver input = (case pi_approver input of Some p \<Rightarrow> Inr p
     | None \<Rightarrow> zod_parse PrincipalSchema
         \<lparr>pr_principalId = pi_approverId input, pr_kind = KindUser, pr_displayName = None,
          pr_tenantId = None, pr_workspaceId = None, pr_createdAt = pi_createdAt input\<rparr>)"

definition createApprovalPermit :: "permit_input \<Rightarrow> err + approval_permit" where
  "createApprovalPermit input =
     bind_res (permit_approver input) (\<lambda>approver.
     bind_res (map_res capabilityScopeToKernelScope (pi_capabilityScopes input)) (\<lambda>scopes.
     zod_parse ApprovalPermitSchema
       \<lparr>ap_permitId = pi_permitId input, ap_taskId = pi_taskId input, ap_runId = pi_runId input,
        ap_principalId = Some (pi_principalId input), ap_approverId = Some (pi_approverId input),
        ap_decisionHash = pi_policyDecisionHash input,
        ap_policyDecisionHash = Some (pi_policyDecisionHash input),
        ap_planHash = pi_planHash input, ap_approvedBy = approver, ap_scopes = scopes,
        ap_capabilityScopes = pi_capabilityScopes input, ap_issuedAt = pi_createdAt input,
        ap_createdAt = Some (pi_createdAt input), ap_expiresAt = pi_expiresAt input,
        ap_revokedAt = None, ap_revokedReason = None,
        ap_signature = truthy (pi_signature input), ap_reason = truthy (pi_reason input)\<rparr>))"

definition hashApprovalScope :: "(str \<Rightarrow> str) \<Rightarrow> json \<Rightarrow> str" where
  "hashApprovalScope sha256 input = sha256 (stableStringify input)"

section \<open>Validating a permit\<close>

record permit_context =
  pc_taskId :: str
  pc_runId :: str
  pc_principalId :: str
  pc_policyDecisionHash :: str
  pc_planHash :: str
  pc_requestedCapabilityScopes :: "str list"
  pc_now :: str

record permit_validation =
  pv_valid :: bool
  pv_reasons :: "str list"
  pv_missingCapabilityScopes :: "str list"
  pv_matchedCapabilityScopes :: "str list"

definition getPolicyDecisionHash :: "approval_permit \<Rightarrow> str" where
  "getPolicyDecisionHash permit =
     (case ap_policyDecisionHash permit of Some h \<Rightarrow> h | None \<Rightarrow> ap_decisionHash permit)"

definition getCapabilityScopes :: "approval_permit \<Rightarrow> err + str list" where
  "getCapabilityScopes permit =
     (if ap_capabilityScopes permit \<noteq> [] then Inr (ap_capabilityScopes permit)
      else map_res capabilityScopeToCanonicalString (ap_scopes permit))"

text \<open>The scope \<open>permittedScopes.find(...)\<close> returns; an empty string counts as not found.\<close>

definition matched_scope :: "str list \<Rightarrow> str \<Rightarrow> bool" where
  "matched_scope permittedScopes requestedScope =
     (case find (\<lambda>s. capabilityImplies s requestedScope = Inr True) permittedScopes of
        Some (c # cs) \<Rightarrow> True | _ \<Rightarrow> False)"

definition permit_reasons :: "(str \<Rightarrow> int option) \<Rightarrow> approval_permit \<Rightarrow> permit_context \<Rightarrow> str list" where
  "permit_reasons dp permit ctx =
     (if ap_taskId permit \<noteq> pc_taskId ctx then [js ''task_id_mismatch''] else []) @
     (if ap_runId permit \<noteq> pc_runId ctx then [js ''run_id_mismatch''] else []) @
     (if ap_principalId permit \<noteq> Some (pc_principalId ctx) then [js ''principal_id_mismatch''] else []) @
     (if getPolicyDecisionHash permit \<noteq> pc_policyDecisionHash ctx
      then [js ''policy_decision_hash_mismatch''] else []) @
     (if ap_planHash permit \<noteq> pc_planHash ctx then [js ''plan_hash_mismatch''] else []) @
     (if dp (ap_expiresAt permit) = None then [js ''invalid_permit_expires_at''] else []) @
     (if dp (pc_now ctx) = None then [js ''invalid_validation_now''] else []) @
     (case (dp (ap_expiresAt permit), dp (pc_now ctx)) of
        (Some expires, Some now) \<Rightarrow> (if expires \<le> now then [js ''permit_expired''] else []) | _ \<Rightarrow> []) @
     (if truthy (ap_revokedAt permit) \<noteq> None then [js ''permit_revoked''] else [])"

definition validateApprovalPermit ::
  "(str \<Rightarrow> int option) \<Rightarrow> approval_permit \<Rightarrow> permit_context \<Rightarrow> err + permit_validation" where
  "validateApprovalPermit dp permit ctx =
     bind_res (getCapabilityScopes permit) (\<lambda>permittedScopes.
       let matched = filter (matched_scope permittedScopes) (pc_requestedCapabilityScopes ctx);
           missing = filter (\<lambda>s. \<not> matched_scope permittedScopes s) (pc_requestedCapabilityScopes ctx);
           reasons = permit_reasons dp permit ctx @
             (if missing \<noteq> [] then [js ''missing_capability_scope''] else [])
       in Inr \<lparr>pv_valid = (reasons = []), pv_reasons = uniq reasons,
               pv_missingCapabilityScopes = missing, pv_matchedCapabilityScopes = matched\<rparr>)"

definition revokeApprovalPermit :: "approval_permit \<Rightarrow> str \<Rightarrow> str \<Rightarrow> err + approval_permit" where
  "revokeApprovalPermit permit revokedAt reason =
     zod_parse ApprovalPermitSchema (permit\<lparr>ap_revokedAt := Some revokedAt, ap_revokedReason := Some reason\<rparr>)"

section \<open>The store\<close>

type_synonym permit_store = "(str \<times> approval_permit) list"

record permit_filter =
  pf_taskId :: "str option"
  pf_runId :: "str option"
  pf_principalId :: "str option"
  pf_approverId :: "str option"
  pf_revoked :: "bool option"

definition matchesApprovalPermit :: "approval_permit \<Rightarrow> permit_filter \<Rightarrow> bool" where
  "matchesApprovalPermit permit f \<longleftrightarrow>
     opt_all (\<lambda>x. ap_taskId permit = x) (pf_taskId f) \<and> opt_all (\<lambda>x. ap_runId permit = x) (pf_runId f) \<and>
     opt_all (\<lambda>x. ap_principalId permit = Some x) (pf_principalId f) \<and>
     opt_all (\<lambda>x. ap_approverId permit = Some x) (pf_approverId f) \<and>
     opt_all (\<lambda>b. if b then ap_revokedAt permit \<noteq> None else ap_revokedAt permit = None) (pf_revoked f)"

definition cloneApprovalPermit :: "approval_permit \<Rightarrow> err + approval_permit" where
  "cloneApprovalPermit permit = zod_parse ApprovalPermitSchema permit"

definition savePermit :: "approval_permit \<Rightarrow> (permit_store, err, approval_permit) sx" where
  "savePermit permit =
     sx_bind (sx_lift (zod_parse ApprovalPermitSchema permit)) (\<lambda>parsed.
     sx_bind (sx_gets (\<lambda>m. map_of m (ap_permitId parsed))) (\<lambda>old.
     if old \<noteq> None then sx_throw (Err (js ''duplicate_approval_permit_id:'' @ ap_permitId parsed))
     else
     sx_bind (sx_lift (cloneApprovalPermit parsed)) (\<lambda>copy.
     sx_bind (sx_modify (AList.update (ap_permitId parsed) copy)) (\<lambda>_.
     sx_lift (cloneApprovalPermit parsed)))))"

definition getPermit :: "str \<Rightarrow> (permit_store, err, approval_permit option) sx" where
  "getPermit permitId =
     sx_bind (sx_gets (\<lambda>m. map_of m permitId)) (\<lambda>found. case found of
       None \<Rightarrow> sx_return None
     | Some permit \<Rightarrow> sx_bind (sx_lift (cloneApprovalPermit permit)) (\<lambda>p. sx_return (Some p)))"

definition listPermits :: "permit_filter \<Rightarrow> (permit_store, err, approval_permit list) sx" where
  "listPermits f =
     sx_bind (sx_gets (\<lambda>m. filter (\<lambda>p. matchesApprovalPermit p f) (map snd m))) (\<lambda>ps.
     sx_lift (map_res cloneApprovalPermit ps))"

definition revokePermit :: "str \<Rightarrow> str \<Rightarrow> str \<Rightarrow> (permit_store, err, approval_permit option) sx" where
  "revokePermit permitId revokedAt reason =
     sx_bind (sx_gets (\<lambda>m. map_of m permitId)) (\<lambda>found. case found of
       None \<Rightarrow> sx_return None
     | Some permit \<Rightarrow>
       sx_bind (sx_lift (revokeApprovalPermit permit revokedAt reason)) (\<lambda>revoked.
       sx_bind (sx_lift (cloneApprovalPermit revoked)) (\<lambda>copy.
       sx_bind (sx_modify (AList.update permitId copy)) (\<lambda>_.
       sx_bind (sx_lift (cloneApprovalPermit revoked)) (\<lambda>r. sx_return (Some r))))))"

section \<open>What a permit is worth\<close>

lemma implies_Nil: "capabilityImplies [] q \<noteq> Inr True"
  by (simp add: capabilityImplies_def parseCapabilityScope_def Let_def trim_def)

lemma matched_scope_iff: "matched_scope ps q \<longleftrightarrow> (\<exists>s \<in> set ps. capabilityImplies s q = Inr True)"
proof (cases "find (\<lambda>s. capabilityImplies s q = Inr True) ps")
  case None
  then have "\<forall>s \<in> set ps. capabilityImplies s q \<noteq> Inr True" by (auto simp: find_None_iff)
  with None show ?thesis by (simp add: matched_scope_def)
next
  case (Some s)
  then have "s \<in> set ps" "capabilityImplies s q = Inr True" by (auto simp: find_Some_iff)
  with Some show ?thesis using implies_Nil by (cases s) (auto simp: matched_scope_def)
qed

definition permit_in_force :: "(str \<Rightarrow> int option) \<Rightarrow> approval_permit \<Rightarrow> permit_context \<Rightarrow> bool" where
  "permit_in_force dp p ctx \<longleftrightarrow>
     ap_taskId p = pc_taskId ctx \<and> ap_runId p = pc_runId ctx \<and> ap_principalId p = Some (pc_principalId ctx) \<and>
     getPolicyDecisionHash p = pc_policyDecisionHash ctx \<and> ap_planHash p = pc_planHash ctx \<and>
     (\<exists>expires now. dp (ap_expiresAt p) = Some expires \<and> dp (pc_now ctx) = Some now \<and> now < expires) \<and>
     truthy (ap_revokedAt p) = None"

lemma permit_reasons_Nil: "permit_reasons dp p ctx = [] \<longleftrightarrow> permit_in_force dp p ctx"
  by (auto simp: permit_reasons_def permit_in_force_def split: option.splits)

lemma validate_iff:
  assumes "validateApprovalPermit dp p ctx = Inr r"
  shows "pv_valid r \<longleftrightarrow> permit_in_force dp p ctx \<and> (\<exists>scopes. getCapabilityScopes p = Inr scopes \<and>
    (\<forall>q \<in> set (pc_requestedCapabilityScopes ctx). \<exists>s \<in> set scopes. capabilityImplies s q = Inr True))"
  using assms
  by (auto simp: validateApprovalPermit_def bind_res_Inr Let_def permit_reasons_Nil matched_scope_iff filter_empty_conv
      split: if_splits)

text \<open>
  C9: A permit is valid exactly when it was issued for this task, run, principal, policy decision and
  plan, both times parse and the expiry is in the future, it is not revoked, and every requested
  scope is implied by one of its scopes. The requested scopes split into the matched and the missing
  ones.
\<close>

theorem permit_valid_iff:
  assumes "validateApprovalPermit dp p ctx = Inr r"
  shows "(pv_valid r \<longleftrightarrow> pv_reasons r = []) \<and> (pv_valid r \<longleftrightarrow>
      ap_taskId p = pc_taskId ctx \<and> ap_runId p = pc_runId ctx \<and> ap_principalId p = Some (pc_principalId ctx) \<and>
      getPolicyDecisionHash p = pc_policyDecisionHash ctx \<and> ap_planHash p = pc_planHash ctx \<and>
      (\<exists>expires now. dp (ap_expiresAt p) = Some expires \<and> dp (pc_now ctx) = Some now \<and> now < expires) \<and>
      truthy (ap_revokedAt p) = None \<and> (\<exists>scopes. getCapabilityScopes p = Inr scopes \<and>
        (\<forall>q \<in> set (pc_requestedCapabilityScopes ctx). \<exists>s \<in> set scopes. capabilityImplies s q = Inr True))) \<and>
    set (pc_requestedCapabilityScopes ctx) =
      set (pv_matchedCapabilityScopes r) \<union> set (pv_missingCapabilityScopes r) \<and>
    set (pv_matchedCapabilityScopes r) \<inter> set (pv_missingCapabilityScopes r) = {}"
proof -
  have "pv_valid r \<longleftrightarrow> pv_reasons r = []"
    using assms by (auto simp: validateApprovalPermit_def bind_res_Inr Let_def simp flip: set_empty)
  moreover have "set (pc_requestedCapabilityScopes ctx) =
      set (pv_matchedCapabilityScopes r) \<union> set (pv_missingCapabilityScopes r)"
    "set (pv_matchedCapabilityScopes r) \<inter> set (pv_missingCapabilityScopes r) = {}"
    using assms by (auto simp: validateApprovalPermit_def bind_res_Inr Let_def)
  ultimately show ?thesis using validate_iff [OF assms] unfolding permit_in_force_def by blast
qed

section \<open>Scopes\<close>

lemma known_actions: "set knownActions = {js ''fs.read'', js ''fs.write'', js ''shell.exec'', js ''network.egress'', js ''mcp.call'',
      js ''memory.read'', js ''memory.write'', js ''secret.read'', js ''external.write'',
      js ''external.execute'', js ''external.admin''}"
  by (simp add: knownActions_def)

lemma implies_self:
  "parseCapabilityScope s = Inr g \<Longrightarrow> ps_effect g = EffectAllow \<Longrightarrow> capabilityImplies s s = Inr True"
  using parse_Inr [of s g] by (auto simp: capabilityImplies_def resourceImplies_def Let_def)

lemma action_parts:
  "split_on DOT (js ''fs.read'') = [js ''fs'', js ''read'']" "split_on DOT (js ''fs.write'') = [js ''fs'', js ''write'']"
  "split_on DOT (js ''shell.exec'') = [js ''shell'', js ''exec'']"
  "split_on DOT (js ''network.egress'') = [js ''network'', js ''egress'']"
  "split_on DOT (js ''mcp.call'') = [js ''mcp'', js ''call'']"
  "split_on DOT (js ''memory.read'') = [js ''memory'', js ''read'']"
  "split_on DOT (js ''memory.write'') = [js ''memory'', js ''write'']"
  "split_on DOT (js ''secret.read'') = [js ''secret'', js ''read'']"
  "split_on DOT (js ''external.write'') = [js ''external'', js ''write'']"
  "split_on DOT (js ''external.execute'') = [js ''external'', js ''execute'']"
  "split_on DOT (js ''external.admin'') = [js ''external'', js ''admin'']"
  by code_simp+

text \<open>The structured scope of a permit has the action and the resource of the string it is made from.\<close>

lemma kernel_scope_spec:
  assumes "parseCapabilityScope s = Inr g"
  shows "\<exists>k. capabilityScopeToKernelScope s = Inr k \<and> cs_resource k = ps_resource g \<and>
    capabilityScopeToCanonicalAction k = ps_action g \<and> CapabilityScopeSchema k \<and>
    jprop (cs_constraints k) (js ''capabilityScope'') = Some (JStr s)"
proof -
  have "ps_action g \<in> set knownActions" "ps_resource g \<noteq> []" using parse_Inr [OF assms] by auto
  then show ?thesis
    unfolding known_actions
    by (elim insertE emptyE)
      (simp_all add: capabilityScopeToKernelScope_def assms action_parts kernel_scope_def CapabilityScopeSchema_def
        capabilityScopeToCanonicalAction_def kind_name_def access_name_def Let_def flip: js_append)
qed

lemma parse_canonical:
  assumes "parseCapabilityScope s = Inr g"
  shows "parseCapabilityScope (ps_action g @ js '':'' @ ps_resource g) = Inr g"
proof -
  have "ps_raw g = ps_action g @ js '':'' @ ps_resource g" using parse_Inr [OF assms] by (simp add: js_def)
  then show ?thesis using parse_raw [OF assms] by simp
qed

text \<open>
  The structured scopes of a permit say what its scope strings say. Every scope string a permit is
  created with becomes a valid structured scope, and the canonical string computed back from that
  scope parses to the same action, resource and effect.
\<close>

theorem kernel_scope_roundtrip:
  assumes "capabilityScopeToKernelScope s = Inr k"
  shows "CapabilityScopeSchema k \<and> isOk (parseCapabilityScope s) \<and>
    (\<exists>t. capabilityScopeToCanonicalString k = Inr t \<and> parseCapabilityScope t = parseCapabilityScope s)"
proof -
  from assms obtain g where g: "parseCapabilityScope s = Inr g"
    by (auto simp: capabilityScopeToKernelScope_def bind_res_Inr)
  from kernel_scope_spec [OF g] assms have k: "cs_resource k = ps_resource g"
    "capabilityScopeToCanonicalAction k = ps_action g" "CapabilityScopeSchema k"
    "jprop (cs_constraints k) (js ''capabilityScope'') = Some (JStr s)" by auto
  have again: "parseCapabilityScope (capabilityScopeToCanonicalAction k @ js '':'' @ cs_resource k) = Inr g"
    using parse_canonical [OF g] k by simp
  have "s \<noteq> []" using g by (auto simp: parseCapabilityScope_def Let_def trim_def)
  then have "capabilityScopeToCanonicalString k = Inr s \<or> capabilityScopeToCanonicalString k =
      Inr (capabilityScopeToCanonicalAction k @ js '':'' @ cs_resource k)"
    using k(3,4) by (cases s) (auto simp: capabilityScopeToCanonicalString_def parseCapabilityScopeObject_def
        zod_parse_ok getCanonicalScopeConstraint_def split: sum.splits bool.splits)
  with again g k(3) show ?thesis by auto
qed

lemma created_fields:
  assumes "createApprovalPermit i = Inr p"
  shows "ApprovalPermitSchema p" "map_res capabilityScopeToKernelScope (pi_capabilityScopes i) = Inr (ap_scopes p)"
    "ap_capabilityScopes p = pi_capabilityScopes i" "ap_permitId p = pi_permitId i"
    "ap_taskId p = pi_taskId i" "ap_runId p = pi_runId i" "ap_principalId p = Some (pi_principalId i)"
    "ap_policyDecisionHash p = Some (pi_policyDecisionHash i)" "ap_planHash p = pi_planHash i"
    "ap_expiresAt p = pi_expiresAt i" "ap_revokedAt p = None"
  using assms by (auto simp: createApprovalPermit_def bind_res_Inr)

text \<open>The context a permit is meant for.\<close>

definition issued_for :: "permit_input \<Rightarrow> permit_context \<Rightarrow> bool" where
  "issued_for i ctx \<longleftrightarrow> pc_taskId ctx = pi_taskId i \<and> pc_runId ctx = pi_runId i \<and>
     pc_principalId ctx = pi_principalId i \<and> pc_policyDecisionHash ctx = pi_policyDecisionHash i \<and>
     pc_planHash ctx = pi_planHash i"

text \<open>
  A permit opens what it was created for. In the context it names, before it expires, it is valid
  for any of its own scopes other than denials, and validation does not throw.
\<close>

theorem created_permit_valid:
  assumes "createApprovalPermit i = Inr p" and "issued_for i ctx"
    and "dp (pi_expiresAt i) = Some expires" and "dp (pc_now ctx) = Some now" and "now < expires"
    and "set (pc_requestedCapabilityScopes ctx) \<subseteq> set (pi_capabilityScopes i)"
    and "\<forall>q \<in> set (pc_requestedCapabilityScopes ctx). \<forall>g. parseCapabilityScope q = Inr g \<longrightarrow> ps_effect g = EffectAllow"
  shows "\<exists>r. validateApprovalPermit dp p ctx = Inr r \<and> pv_valid r"
proof -
  note p = created_fields [OF assms(1)]
  have "pi_capabilityScopes i \<noteq> []" using p(1,2) by (auto simp: ApprovalPermitSchema_def)
  then have get: "getCapabilityScopes p = Inr (pi_capabilityScopes i)" by (simp add: getCapabilityScopes_def p)
  then obtain r where r: "validateApprovalPermit dp p ctx = Inr r" by (simp add: validateApprovalPermit_def Let_def)
  have "permit_in_force dp p ctx"
    using assms(2-5) p by (simp add: permit_in_force_def issued_for_def getPolicyDecisionHash_def truthy_def)
  moreover have "capabilityImplies q q = Inr True" if "q \<in> set (pc_requestedCapabilityScopes ctx)" for q
  proof -
    have "q \<in> set (pi_capabilityScopes i)" using assms(6) that by blast
    then obtain k where "capabilityScopeToKernelScope q = Inr k"
      using map_res_mem [OF p(2)] by blast
    then obtain g where "parseCapabilityScope q = Inr g"
      by (auto simp: capabilityScopeToKernelScope_def bind_res_Inr)
    with assms(7) that implies_self show ?thesis by blast
  qed
  ultimately have "pv_valid r" using validate_iff [OF r] get assms(6) by blast
  with r show ?thesis by blast
qed

section \<open>The store over time\<close>

datatype permit_call = PSave approval_permit | PGet str | PList permit_filter | PRevoke str str str

definition permit_step :: "permit_call \<Rightarrow> permit_store \<Rightarrow> permit_store" where
  "permit_step c m = (case c of
     PSave p \<Rightarrow> snd (savePermit p m) | PGet k \<Rightarrow> snd (getPermit k m) | PList f \<Rightarrow> snd (listPermits f m)
   | PRevoke k t r \<Rightarrow> snd (revokePermit k t r m))"

definition permits :: "permit_call list \<Rightarrow> permit_store" where
  "permits cs = foldl (\<lambda>m c. permit_step c m) [] cs"

definition permits_ok :: "permit_store \<Rightarrow> bool" where
  "permits_ok m \<longleftrightarrow> (\<forall>k p. map_of m k = Some p \<longrightarrow> ApprovalPermitSchema p \<and> ap_permitId p = k)"

lemma save_spec:
  "savePermit p m = (if \<not> ApprovalPermitSchema p then (Inl ZodError, m)
     else if map_of m (ap_permitId p) \<noteq> None
     then (Inl (Err (js ''duplicate_approval_permit_id:'' @ ap_permitId p)), m)
     else (Inr p, AList.update (ap_permitId p) p m))"
  by (auto simp: savePermit_def sx_defs zod_parse_def cloneApprovalPermit_def)

definition revoked_at :: "approval_permit \<Rightarrow> str \<Rightarrow> str \<Rightarrow> approval_permit" where
  "revoked_at p t r = p\<lparr>ap_revokedAt := Some t, ap_revokedReason := Some r\<rparr>"

lemma revoke_spec:
  "revokePermit k t r m = (case map_of m k of None \<Rightarrow> (Inr None, m)
     | Some p \<Rightarrow> if ApprovalPermitSchema (revoked_at p t r)
         then (Inr (Some (revoked_at p t r)), AList.update k (revoked_at p t r) m) else (Inl ZodError, m))"
  by (auto simp: revokePermit_def revokeApprovalPermit_def revoked_at_def sx_defs zod_parse_def
      cloneApprovalPermit_def split: option.splits)

lemma reads_pure: "snd (getPermit k m) = m" "snd (listPermits f m) = m"
  by (auto simp: getPermit_def listPermits_def sx_defs split: option.splits sum.splits)

text \<open>What later calls may do to a stored permit: revoke it, and nothing else.\<close>

definition permits_le :: "permit_store \<Rightarrow> permit_store \<Rightarrow> bool" where
  "permits_le m m' \<longleftrightarrow> (\<forall>k p. map_of m k = Some p \<longrightarrow>
     (\<exists>p'. map_of m' k = Some p' \<and> (p' = p \<or> (\<exists>t r. p' = revoked_at p t r))))"

lemma revoked_twice [simp]: "revoked_at (revoked_at p t r) t' r' = revoked_at p t' r'"
  by (simp add: revoked_at_def)

lemma permits_leD:
  "permits_le m m' \<Longrightarrow> map_of m k = Some p \<Longrightarrow>
   \<exists>p'. map_of m' k = Some p' \<and> (p' = p \<or> (\<exists>t r. p' = revoked_at p t r))"
  by (simp add: permits_le_def)

lemma permits_le_trans:
  assumes "permits_le a b" and "permits_le b c"
  shows "permits_le a c"
  unfolding permits_le_def
proof (intro allI impI)
  fix k p assume "map_of a k = Some p"
  from permits_leD [OF assms(1) this] obtain q where
    q: "map_of b k = Some q" "q = p \<or> (\<exists>t r. q = revoked_at p t r)" by blast
  from permits_leD [OF assms(2) q(1)] q(2)
  show "\<exists>p'. map_of c k = Some p' \<and> (p' = p \<or> (\<exists>t r. p' = revoked_at p t r))"
    by (elim disjE exE conjE) (simp_all, metis+)
qed

lemma step_ok: "permits_ok m \<Longrightarrow> permits_ok (permit_step c m)"
  by (cases c) (auto simp: permit_step_def reads_pure save_spec revoke_spec permits_ok_def update_conv'
      revoked_at_def split: option.splits if_splits)

lemma step_le: "permits_le m (permit_step c m)"
  by (cases c) (auto simp: permit_step_def reads_pure save_spec revoke_spec permits_le_def update_conv'
      split: option.splits)

lemma permits_ok: "permits_ok (permits cs)"
proof (induction cs rule: rev_induct)
  case Nil
  then show ?case by (simp add: permits_def permits_ok_def)
next
  case (snoc c cs)
  have "permits (cs @ [c]) = permit_step c (permits cs)" by (simp add: permits_def)
  with step_ok [OF snoc] show ?case by simp
qed

lemma permits_distinct: "distinct (map fst (permits cs))"
proof (induction cs rule: rev_induct)
  case (snoc c cs)
  have "permits (cs @ [c]) = permit_step c (permits cs)" by (simp add: permits_def)
  with snoc show ?case
    by (cases c) (auto simp: permit_step_def reads_pure save_spec revoke_spec distinct_update split: option.splits)
qed (simp add: permits_def)

lemma listed_permit:
  assumes "fst (listPermits f (permits cs)) = Inr ps" and "p \<in> set ps"
  shows "map_of (permits cs) (ap_permitId p) = Some p" and "ApprovalPermitSchema p"
proof -
  have same: "map_res cloneApprovalPermit xs = Inr ys \<Longrightarrow> ys = xs" for xs ys
    by (induction xs arbitrary: ys) (auto simp: bind_res_Inr cloneApprovalPermit_def)
  have "map_res cloneApprovalPermit (filter (\<lambda>p. matchesApprovalPermit p f) (map snd (permits cs))) = Inr ps"
    using assms(1) by (simp add: listPermits_def sx_bind_def sx_gets_def sx_lift_def)
  from same [OF this] assms(2) have "p \<in> set (map snd (permits cs))" by auto
  then obtain k where "(k, p) \<in> set (permits cs)" by auto
  then have k: "map_of (permits cs) k = Some p" using permits_distinct by simp
  with permits_ok [of cs] show "map_of (permits cs) (ap_permitId p) = Some p" "ApprovalPermitSchema p"
    unfolding permits_ok_def by auto
qed

lemma permits_grow: "permits_le (permits cs) (permits (cs @ ds))"
proof (induction ds rule: rev_induct)
  case Nil
  then show ?case by (simp add: permits_le_def)
next
  case (snoc d ds)
  have "permits (cs @ ds @ [d]) = permit_step d (permits (cs @ ds))" by (simp add: permits_def)
  with snoc step_le show ?case by (metis permits_le_trans)
qed

lemma revoked_rejected:
  assumes "ap_revokedAt p = Some t" and "t \<noteq> []" and "validateApprovalPermit dp p ctx = Inr r"
  shows "\<not> pv_valid r" "js ''permit_revoked'' \<in> set (pv_reasons r)"
  using assms by (auto simp: validateApprovalPermit_def bind_res_Inr Let_def permit_reasons_def truthy_def
      split: list.splits)

text \<open>
  A revocation is final. Once the store has returned the revoked permit, any later sequence of
  calls leaves a permit with the same bindings and scopes under its id, still revoked, which can be
  read back and which no context makes valid again.
\<close>

theorem revocation_final:
  assumes "fst (revokePermit k t r (permits cs)) = Inr (Some p)"
  shows "\<exists>p'. fst (getPermit k (permits (cs @ PRevoke k t r # ds))) = Inr (Some p') \<and>
    (\<exists>t' r'. p' = p\<lparr>ap_revokedAt := Some t', ap_revokedReason := Some r'\<rparr>) \<and>
    (\<forall>dp ctx v. validateApprovalPermit dp p' ctx = Inr v \<longrightarrow>
       \<not> pv_valid v \<and> js ''permit_revoked'' \<in> set (pv_reasons v))"
proof -
  from assms obtain q where q: "map_of (permits cs) k = Some q" "p = revoked_at q t r"
    by (auto simp: revoke_spec split: option.splits if_splits)
  have "permits (cs @ [PRevoke k t r]) = snd (revokePermit k t r (permits cs))"
    by (simp add: permits_def permit_step_def)
  then have "map_of (permits (cs @ [PRevoke k t r])) k = Some p"
    using assms q by (auto simp: revoke_spec update_conv' split: if_splits)
  from permits_leD [OF permits_grow this, of ds] obtain p' where
    p': "map_of (permits (cs @ PRevoke k t r # ds)) k = Some p'" "p' = p \<or> (\<exists>t r. p' = revoked_at p t r)"
    by auto
  from p'(2) q(2) obtain t' r' where rev: "p' = revoked_at p t' r'" by auto
  have ok: "ApprovalPermitSchema p'" using permits_ok p'(1) unfolding permits_ok_def by blast
  then have "t' \<noteq> []" using rev by (simp add: ApprovalPermitSchema_def revoked_at_def)
  moreover have "ap_revokedAt p' = Some t'" using rev by (simp add: revoked_at_def)
  ultimately have "\<forall>dp ctx v. validateApprovalPermit dp p' ctx = Inr v \<longrightarrow>
       \<not> pv_valid v \<and> js ''permit_revoked'' \<in> set (pv_reasons v)"
    using revoked_rejected by blast
  moreover have "fst (getPermit k (permits (cs @ PRevoke k t r # ds))) = Inr (Some p')"
    using p'(1) ok by (simp add: getPermit_def sx_defs cloneApprovalPermit_def zod_parse_ok)
  ultimately show ?thesis using rev unfolding revoked_at_def by blast
qed

section \<open>Witnesses\<close>

definition demo_input :: permit_input where
  "demo_input = \<lparr>pi_permitId = js ''p1'', pi_taskId = js ''t'', pi_runId = js ''r'', pi_principalId = js ''u'',
     pi_approverId = js ''boss'', pi_policyDecisionHash = js ''d'', pi_planHash = js ''h'',
     pi_capabilityScopes = [js ''fs.write:src/**''], pi_createdAt = js ''a'', pi_expiresAt = js ''b'',
     pi_approver = None, pi_reason = None, pi_signature = None\<rparr>"

definition demo_context :: permit_context where
  "demo_context = \<lparr>pc_taskId = js ''t'', pc_runId = js ''r'', pc_principalId = js ''u'',
     pc_policyDecisionHash = js ''d'', pc_planHash = js ''h'',
     pc_requestedCapabilityScopes = [js ''fs.write:src/**''], pc_now = js ''a''\<rparr>"

definition demo_clock :: "str \<Rightarrow> int option" where
  "demo_clock s = (if s = js ''a'' then Some 1 else if s = js ''b'' then Some 2 else None)"

definition demo_permit :: approval_permit where
  "demo_permit = (case createApprovalPermit demo_input of Inr p \<Rightarrow> p | Inl _ \<Rightarrow> undefined)"

lemma demo_permit_created: "createApprovalPermit demo_input = Inr demo_permit"
proof -
  have "isOk (createApprovalPermit demo_input)" by code_simp
  then show ?thesis unfolding demo_permit_def by (cases "createApprovalPermit demo_input") simp_all
qed

lemma demo_scope_allows: "parseCapabilityScope (js ''fs.write:src/**'') = Inr g \<Longrightarrow> ps_effect g = EffectAllow"
proof -
  have "parseCapabilityScope (js ''fs.write:src/**'') = Inr \<lparr>ps_raw = js ''fs.write:src/**'',
      ps_family = js ''fs'', ps_action = js ''fs.write'', ps_resource = js ''src/**'', ps_effect = EffectAllow\<rparr>"
    by code_simp
  then show "parseCapabilityScope (js ''fs.write:src/**'') = Inr g \<Longrightarrow> ps_effect g = EffectAllow" by auto
qed

theorem created_permit_valid_witness:
  "\<exists>r. validateApprovalPermit demo_clock demo_permit demo_context = Inr r \<and> pv_valid r"
  by (rule created_permit_valid [OF demo_permit_created, where expires = 2 and now = 1])
    (auto simp: issued_for_def demo_input_def demo_context_def demo_clock_def demo_scope_allows)

theorem permit_valid_iff_witness:
  "\<exists>r. validateApprovalPermit demo_clock demo_permit (demo_context\<lparr>pc_planHash := js ''other''\<rparr>) = Inr r \<and>
     \<not> pv_valid r \<and> pv_reasons r \<noteq> []"
proof -
  let ?c = "demo_context\<lparr>pc_planHash := js ''other''\<rparr>"
  have p: "ap_capabilityScopes demo_permit \<noteq> []" "ap_planHash demo_permit = js ''h''"
    using created_fields [OF demo_permit_created] by (auto simp: demo_input_def)
  then obtain r where r: "validateApprovalPermit demo_clock demo_permit ?c = Inr r"
    by (simp add: validateApprovalPermit_def getCapabilityScopes_def Let_def)
  show ?thesis using permit_valid_iff [OF r] r p(2) by auto
qed

theorem kernel_scope_roundtrip_witness:
  "\<exists>k t. capabilityScopeToKernelScope (js ''mcp.call:fetch'') = Inr k \<and>
     capabilityScopeToCanonicalString k = Inr t \<and> parseCapabilityScope t = parseCapabilityScope (js ''mcp.call:fetch'')"
proof -
  have "isOk (capabilityScopeToKernelScope (js ''mcp.call:fetch''))" by code_simp
  then obtain k where k: "capabilityScopeToKernelScope (js ''mcp.call:fetch'') = Inr k"
    by (cases "capabilityScopeToKernelScope (js ''mcp.call:fetch'')") auto
  from k kernel_scope_roundtrip [OF k] show ?thesis by blast
qed

theorem revocation_final_witness:
  "\<exists>p. fst (getPermit (js ''p1'') (permits ([PSave demo_permit] @ PRevoke (js ''p1'') (js ''c'') (js ''x'') #
     [PSave demo_permit]))) = Inr (Some p) \<and>
     (\<forall>v. validateApprovalPermit demo_clock p demo_context = Inr v \<longrightarrow> \<not> pv_valid v)"
proof -
  have p: "ApprovalPermitSchema demo_permit" "ap_permitId demo_permit = js ''p1''"
    using created_fields [OF demo_permit_created] by (auto simp: demo_input_def)
  then have "ApprovalPermitSchema (revoked_at demo_permit (js ''c'') (js ''x''))"
    by (simp add: ApprovalPermitSchema_def revoked_at_def)
  with p have "fst (revokePermit (js ''p1'') (js ''c'') (js ''x'') (permits [PSave demo_permit])) =
      Inr (Some (revoked_at demo_permit (js ''c'') (js ''x'')))"
    by (simp add: permits_def permit_step_def save_spec revoke_spec)
  from revocation_final [OF this, of "[PSave demo_permit]"] show ?thesis by auto
qed

end
