(* ===== verification/Eligibility.thy ===== *)
theory Eligibility
  imports AdmissionControl ApprovalPermit
begin

text \<open>
  Eligibility of a run for execution, \<open>packages/execution-eligibility/src/index.ts\<close>: the composition
  of the admission check, the capability grants and the approval permits. The host's \<open>Date.parse\<close>,
  \<open>Date.now\<close>, \<open>toLowerCase\<close> and SHA-256 are the fields of \<open>kernel_env\<close>.
\<close>

section \<open>The check\<close>

record kernel_env =
  ke_date :: "str \<Rightarrow> int option"
  ke_dateNow :: int
  ke_lower :: "str \<Rightarrow> str"
  ke_sha256 :: "str \<Rightarrow> str"

datatype eligibility_status = Eligible | EligBlocked | WaitingApproval

record eligibility_decision =
  ee_status :: eligibility_status
  ee_taskId :: str
  ee_runId :: str
  ee_policyDecisionHash :: str
  ee_reasons :: "str list"
  ee_missingCapabilities :: "str list"
  ee_requiredApprovals :: "str list"
  ee_acceptedPermits :: "str list"
  ee_rejectedPermits :: "str list"
  ee_createdAt :: str

record eligibility_input =
  ev_task :: task
  ev_run :: run
  ev_principal :: principal
  ev_policyDecision :: policy_decision
  ev_capabilityGrants :: "grant_like list"
  ev_approvalPermits :: "approval_permit list"
  ev_requestedScopes :: "str list"
  ev_planHash :: str
  ev_now :: str

definition elig_terminalRunStatuses :: "run_status list" where
  "elig_terminalRunStatuses = [RunSucceeded, RunFailed, RunCancelled]"

definition elig_run_status_name :: "run_status \<Rightarrow> str" where
  "elig_run_status_name s = (case s of RunQueued \<Rightarrow> js ''queued'' | RunRunning \<Rightarrow> js ''running''
     | RunBlocked \<Rightarrow> js ''blocked'' | RunSucceeded \<Rightarrow> js ''succeeded'' | RunFailed \<Rightarrow> js ''failed''
     | RunCancelled \<Rightarrow> js ''cancelled'')"

definition elig_isPolicyBlocked :: "policy_decision \<Rightarrow> bool" where
  "elig_isPolicyBlocked d \<longleftrightarrow> pd_status d = Some (js ''blocked'') \<or> pd_blocked d = Some True \<or>
     opt_ex (\<lambda>m. jprop m (js ''status'') = Some (JStr (js ''blocked'')) \<or>
                 jprop m (js ''blocked'') = Some (JBool True)) (pd_legacy d)"

definition createBaseDecision :: "kernel_env \<Rightarrow> eligibility_input \<Rightarrow> eligibility_decision" where
  "createBaseDecision env input =
     \<lparr>ee_status = EligBlocked, ee_taskId = t_taskId (ev_task input), ee_runId = r_runId (ev_run input),
      ee_policyDecisionHash = hashApprovalScope (ke_sha256 env) (pd_json (ev_policyDecision input)),
      ee_reasons = [], ee_missingCapabilities = [], ee_requiredApprovals = [], ee_acceptedPermits = [],
      ee_rejectedPermits = [], ee_createdAt = ev_now input\<rparr>"

definition permit_context_of :: "kernel_env \<Rightarrow> eligibility_input \<Rightarrow> str list \<Rightarrow> permit_context" where
  "permit_context_of env input scopes =
     \<lparr>pc_taskId = t_taskId (ev_task input), pc_runId = r_runId (ev_run input),
      pc_principalId = pr_principalId (ev_principal input),
      pc_policyDecisionHash = hashApprovalScope (ke_sha256 env) (pd_json (ev_policyDecision input)),
      pc_planHash = ev_planHash input, pc_requestedCapabilityScopes = scopes, pc_now = ev_now input\<rparr>"

fun evaluate_permits ::
  "(str \<Rightarrow> int option) \<Rightarrow> permit_context \<Rightarrow> approval_permit list \<Rightarrow> err + (str list \<times> str list)" where
  "evaluate_permits dp ctx [] = Inr ([], [])"
| "evaluate_permits dp ctx (permit # rest) =
     bind_res (validateApprovalPermit dp permit ctx) (\<lambda>v.
     bind_res (evaluate_permits dp ctx rest) (\<lambda>(accepted, rejected).
       if pv_valid v then Inr (ap_permitId permit # accepted, rejected)
       else Inr (accepted, (ap_permitId permit @ js '':'' @ join_with (js '','') (pv_reasons v)) # rejected)))"

definition evaluatePermits ::
  "kernel_env \<Rightarrow> eligibility_input \<Rightarrow> str list \<Rightarrow> err + (str list \<times> str list)" where
  "evaluatePermits env input requestedCapabilityScopes =
     evaluate_permits (ke_date env) (permit_context_of env input requestedCapabilityScopes)
       (ev_approvalPermits input)"

definition check_options_of :: "eligibility_input \<Rightarrow> check_options" where
  "check_options_of input =
     \<lparr>o_principalId = Some (pr_principalId (ev_principal input)), o_taskId = Some (t_taskId (ev_task input)),
      o_runId = Some (r_runId (ev_run input)), o_now = Some (ev_now input)\<rparr>"

definition effective_scopes :: "eligibility_input \<Rightarrow> err + str list" where
  "effective_scopes input =
     bind_res (map_res capabilityScopeToCanonicalString (pd_capabilities (ev_policyDecision input))) (\<lambda>cs.
       Inr (uniq (ev_requestedScopes input @ cs)))"

definition capabilityFailureReasons :: "check_result \<Rightarrow> str list" where
  "capabilityFailureReasons r = cr_reasons r @ cr_ignoredGrantReasons r"

definition task_admission :: "kernel_env \<Rightarrow> eligibility_input \<Rightarrow> admission_decision" where
  "task_admission env input = evaluateTaskAdmission (ke_lower env)
     \<lparr>ei_task = ev_task input, ei_principal = Some (ev_principal input), ei_agent = None,
      ei_policyDecision = Some (ev_policyDecision input), ei_now = Some (ev_now input)\<rparr>"

definition approval_prefix :: "str list \<Rightarrow> str list" where
  "approval_prefix scopes = map (\<lambda>s. js ''approval:'' @ s) scopes"

text \<open>The part of the check that follows once the grants and the permits are evaluated.\<close>

definition grant_outcome ::
  "eligibility_decision \<Rightarrow> admission_decision \<Rightarrow> str list \<Rightarrow> check_result list \<Rightarrow> str list \<Rightarrow> str list \<Rightarrow>
   eligibility_decision" where
  "grant_outcome base admission scopes results accepted rejected =
     (let missing = map cr_requestedScope (filter (\<lambda>r. \<not> cr_allowed r) results);
          nonCapabilityApprovals =
            filter (\<lambda>a. \<not> startsWith a (js ''capability:'')) (ad_requiredApprovals admission);
          approvalRequired = (nonCapabilityApprovals \<noteq> [] \<or> missing \<noteq> [])
      in if missing \<noteq> []
         then base\<lparr>ee_status := WaitingApproval,
           ee_reasons := uniq ([js ''missing_capability'', js ''capability_grant_required''] @
             (if accepted \<noteq> [] then [js ''approval_permit_cannot_expand_capability''] else []) @
             concat (map capabilityFailureReasons (filter (\<lambda>r. \<not> cr_allowed r) results))),
           ee_missingCapabilities := missing,
           ee_requiredApprovals := uniq (ad_requiredApprovals admission @ approval_prefix missing),
           ee_acceptedPermits := [],
           ee_rejectedPermits :=
             uniq (rejected @ map (\<lambda>p. p @ js '':permit_cannot_expand_capability'') accepted)\<rparr>
         else if approvalRequired \<and> accepted = []
         then base\<lparr>ee_status := WaitingApproval,
           ee_reasons := uniq (js ''approval_required'' # ad_reasons admission),
           ee_missingCapabilities := missing,
           ee_requiredApprovals := uniq (ad_requiredApprovals admission @ approval_prefix scopes),
           ee_rejectedPermits := rejected\<rparr>
         else if accepted \<noteq> []
         then base\<lparr>ee_status := Eligible, ee_reasons := [js ''valid_approval_permit''],
           ee_missingCapabilities := [], ee_requiredApprovals := [], ee_acceptedPermits := accepted,
           ee_rejectedPermits := rejected\<rparr>
         else base\<lparr>ee_status := Eligible, ee_reasons := [js ''capability_grants_satisfied''],
           ee_missingCapabilities := [], ee_requiredApprovals := [], ee_rejectedPermits := rejected\<rparr>)"

definition evaluateExecutionEligibility ::
  "kernel_env \<Rightarrow> eligibility_input \<Rightarrow> err + eligibility_decision" where
  "evaluateExecutionEligibility env input =
     (let base = createBaseDecision env input; status = r_status (ev_run input);
          admission = task_admission env input;
          rejected = (\<lambda>reason. base\<lparr>ee_status := EligBlocked,
            ee_reasons := uniq (js reason # ad_reasons admission),
            ee_requiredApprovals := ad_requiredApprovals admission\<rparr>)
      in if status \<in> set elig_terminalRunStatuses
         then Inr (base\<lparr>ee_status := EligBlocked, ee_reasons := [js ''run_terminal:'' @ elig_run_status_name status]\<rparr>)
         else if ad_status admission = Rejected then Inr (rejected ''admission_rejected'')
         else if ad_status admission = NeedsClarification then Inr (rejected ''admission_needs_clarification'')
         else if elig_isPolicyBlocked (ev_policyDecision input)
         then Inr (base\<lparr>ee_status := EligBlocked, ee_reasons := [js ''policy_blocked'']\<rparr>)
         else
         bind_res (effective_scopes input) (\<lambda>scopes.
         bind_res (map_res (\<lambda>s. explainCapabilityDecision (ke_date env) (ke_dateNow env)
           (ev_capabilityGrants input) s (check_options_of input)) scopes) (\<lambda>results.
         let denied = filter (\<lambda>r. js ''matched_deny_scope'' \<in> set (cr_reasons r)) results
         in if denied \<noteq> []
            then Inr (base\<lparr>ee_status := EligBlocked,
              ee_reasons := uniq (js ''capability_deny'' # concat (map cr_reasons denied)),
              ee_missingCapabilities := map cr_requestedScope denied\<rparr>)
            else bind_res (evaluatePermits env input scopes) (\<lambda>(accepted, rejected).
              Inr (grant_outcome base admission scopes results accepted rejected)))))"

definition evaluateExecutionEligibilityWithPermitStore ::
  "kernel_env \<Rightarrow> eligibility_input \<Rightarrow> (permit_store, err, eligibility_decision) sx" where
  "evaluateExecutionEligibilityWithPermitStore env input =
     sx_bind (listPermits \<lparr>pf_taskId = Some (t_taskId (ev_task input)), pf_runId = Some (r_runId (ev_run input)),
       pf_principalId = Some (pr_principalId (ev_principal input)), pf_approverId = None, pf_revoked = None\<rparr>)
     (\<lambda>approvalPermits. sx_lift (evaluateExecutionEligibility env (input\<lparr>ev_approvalPermits := approvalPermits\<rparr>)))"

section \<open>What an eligible run has\<close>

lemma evaluate_permits_spec:
  "evaluate_permits dp ctx ps = Inr (accepted, rejected) \<Longrightarrow> i \<in> set accepted \<Longrightarrow>
   \<exists>p \<in> set ps. ap_permitId p = i \<and> permit_in_force dp p ctx \<and> (\<exists>scopes. getCapabilityScopes p = Inr scopes \<and>
     (\<forall>q \<in> set (pc_requestedCapabilityScopes ctx). \<exists>s \<in> set scopes. capabilityImplies s q = Inr True))"
proof (induction ps arbitrary: accepted rejected)
  case (Cons p ps)
  from Cons.prems(1) obtain v a b where v: "validateApprovalPermit dp p ctx = Inr v"
    and rest: "evaluate_permits dp ctx ps = Inr (a, b)"
    and acc: "accepted = (if pv_valid v then ap_permitId p # a else a)"
    by (auto simp: bind_res_Inr split: if_splits)
  from acc Cons.prems(2) consider "pv_valid v" "i = ap_permitId p" | "i \<in> set a" by (auto split: if_splits)
  then show ?case
  proof cases
    case 1
    with validate_iff [OF v] show ?thesis by auto
  next
    case 2
    with Cons.IH [OF rest] show ?thesis by auto
  qed
qed simp

lemma effective_requested: "effective_scopes input = Inr scopes \<Longrightarrow> set (ev_requestedScopes input) \<subseteq> set scopes"
  by (auto simp: effective_scopes_def bind_res_Inr)

lemma eligible_parts:
  assumes "evaluateExecutionEligibility env input = Inr d" and "ee_status d = Eligible"
  obtains scopes results accepted rejected where
    "r_status (ev_run input) \<notin> set elig_terminalRunStatuses"
    "ad_status (task_admission env input) \<notin> {Rejected, NeedsClarification}"
    "\<not> elig_isPolicyBlocked (ev_policyDecision input)"
    "effective_scopes input = Inr scopes"
    "map_res (\<lambda>s. explainCapabilityDecision (ke_date env) (ke_dateNow env)
       (ev_capabilityGrants input) s (check_options_of input)) scopes = Inr results"
    "evaluatePermits env input scopes = Inr (accepted, rejected)"
    "d = grant_outcome (createBaseDecision env input) (task_admission env input) scopes results accepted rejected"
  using assms
  by (auto simp: evaluateExecutionEligibility_def Let_def bind_res_Inr split: if_splits)

lemma outcome_eligible:
  assumes "ee_status (grant_outcome base admission scopes results accepted rejected) = Eligible"
    and "ee_acceptedPermits base = []"
  shows "\<forall>r \<in> set results. cr_allowed r"
    and "ee_acceptedPermits (grant_outcome base admission scopes results accepted rejected) = accepted"
    and "\<exists>a \<in> set (ad_requiredApprovals admission). \<not> startsWith a (js ''capability:'') \<Longrightarrow> accepted \<noteq> []"
  using assms by (auto simp: grant_outcome_def Let_def filter_empty_conv split: if_splits)

abbreviation usable_grants :: "kernel_env \<Rightarrow> eligibility_input \<Rightarrow> str set" where
  "usable_grants env input \<equiv> usable_scopes (ke_date env) (ke_dateNow env) (check_options_of input)
     (ev_capabilityGrants input)"

text \<open>A scope that the grants cover.\<close>

definition granted :: "kernel_env \<Rightarrow> eligibility_input \<Rightarrow> str \<Rightarrow> bool" where
  "granted env input q \<longleftrightarrow> (\<exists>r. parseCapabilityScope q = Inr r \<and>
     (\<exists>s \<in> usable_grants env input. scope_allows r s) \<and> (\<forall>s \<in> usable_grants env input. \<not> scope_denies r s))"

lemma results_granted:
  assumes "map_res (\<lambda>s. explainCapabilityDecision (ke_date env) (ke_dateNow env)
       (ev_capabilityGrants input) s (check_options_of input)) scopes = Inr results"
    and "\<forall>r \<in> set results. cr_allowed r" and "q \<in> set scopes"
  shows "granted env input q"
proof -
  from map_res_mem [OF assms(1,3)] obtain r where r: "r \<in> set results" "explainCapabilityDecision (ke_date env) (ke_dateNow env)
       (ev_capabilityGrants input) q (check_options_of input) = Inr r"
    by blast
  then have "cr_allowed r" using assms(2) by blast
  with r(2) explain_unparsed(1) obtain p where "parseCapabilityScope q = Inr p"
    by (cases "parseCapabilityScope q") blast+
  with explain_parsed(2) [OF this r(2)] \<open>cr_allowed r\<close> show ?thesis unfolding granted_def by blast
qed

text \<open>A permit that stands for the whole request.\<close>

definition covering_permit :: "kernel_env \<Rightarrow> eligibility_input \<Rightarrow> str list \<Rightarrow> approval_permit \<Rightarrow> bool" where
  "covering_permit env input scopes p \<longleftrightarrow> permit_in_force (ke_date env) p (permit_context_of env input scopes) \<and>
     (\<exists>ps. getCapabilityScopes p = Inr ps \<and> (\<forall>q \<in> set scopes. \<exists>s \<in> set ps. capabilityImplies s q = Inr True))"

lemma eligible_facts:
  assumes "evaluateExecutionEligibility env input = Inr d" and "ee_status d = Eligible"
  obtains scopes where "effective_scopes input = Inr scopes" "\<forall>q \<in> set scopes. granted env input q"
    "\<forall>i \<in> set (ee_acceptedPermits d). \<exists>p \<in> set (ev_approvalPermits input). ap_permitId p = i \<and> covering_permit env input scopes p"
    "collectRiskSignals (ke_lower env) (ev_task input) (Some (ev_policyDecision input)) \<noteq> [] \<Longrightarrow> ee_acceptedPermits d \<noteq> []"
proof -
  from eligible_parts [OF assms] obtain scopes results accepted rejected where
    e: "effective_scopes input = Inr scopes"
      "map_res (\<lambda>s. explainCapabilityDecision (ke_date env) (ke_dateNow env)
         (ev_capabilityGrants input) s (check_options_of input)) scopes = Inr results"
      "evaluatePermits env input scopes = Inr (accepted, rejected)"
      "d = grant_outcome (createBaseDecision env input) (task_admission env input) scopes results accepted rejected"
    by metis
  have base: "ee_acceptedPermits (createBaseDecision env input) = []" by (simp add: createBaseDecision_def)
  note o = outcome_eligible [OF assms(2) [unfolded e(4)] base]
  have "\<forall>q \<in> set scopes. granted env input q" using results_granted [OF e(2) o(1)] by blast
  moreover have "\<forall>i \<in> set (ee_acceptedPermits d). \<exists>p \<in> set (ev_approvalPermits input). ap_permitId p = i \<and>
      covering_permit env input scopes p"
    using evaluate_permits_spec [OF e(3) [unfolded evaluatePermits_def]] o(2)
    unfolding e(4) covering_permit_def by (simp add: permit_context_of_def)
  moreover have "ee_acceptedPermits d \<noteq> []"
    if risk: "collectRiskSignals (ke_lower env) (ev_task input) (Some (ev_policyDecision input)) \<noteq> []"
  proof -
    from risk obtain s ss where "collectRiskSignals (ke_lower env) (ev_task input) (Some (ev_policyDecision input)) = s # ss"
      by (cases "collectRiskSignals (ke_lower env) (ev_task input) (Some (ev_policyDecision input))") auto
    then have "js ''approval:'' @ s \<in> set (ad_requiredApprovals (task_admission env input))"
      unfolding task_admission_def by (intro admission_fields(2) [where ss = ss]) simp
    moreover have "\<not> startsWith (js ''approval:'' @ s) (js ''capability:'')" by (simp add: startsWith_def js_def)
    ultimately show ?thesis using o(2,3) unfolding e(4) by metis
  qed
  ultimately show thesis using that [OF e(1)] by blast
qed

text \<open>
  C1: Eligibility is sound. A run is eligible only if it is not terminal, its task has an intent and is
  neither blocked nor waiting for clarification, and every requested scope and every capability of the
  policy decision is allowed by a usable grant and denied by none: permits never widen the grants. If
  the task or the policy raises any risk signal, one of the given permits is in force for exactly this
  task, run, principal, plan and policy decision and covers every scope.
\<close>

theorem eligible_sound:
  assumes "evaluateExecutionEligibility env input = Inr d" and "ee_status d = Eligible"
  shows "r_status (ev_run input) \<notin> {RunSucceeded, RunFailed, RunCancelled} \<and> t_intent (ev_task input) \<noteq> None \<and>
    \<not> elig_isPolicyBlocked (ev_policyDecision input) \<and> \<not> pd_clarificationRequired (ev_policyDecision input) \<and>
    (\<exists>scopes. effective_scopes input = Inr scopes \<and> set (ev_requestedScopes input) \<subseteq> set scopes \<and>
       (\<forall>q \<in> set scopes. granted env input q) \<and>
       (collectRiskSignals (ke_lower env) (ev_task input) (Some (ev_policyDecision input)) \<noteq> [] \<longrightarrow>
          (\<exists>p \<in> set (ev_approvalPermits input). ap_permitId p \<in> set (ee_acceptedPermits d) \<and>
             permit_in_force (ke_date env) p (permit_context_of env input scopes) \<and>
             (\<exists>ps. getCapabilityScopes p = Inr ps \<and>
               (\<forall>q \<in> set scopes. \<exists>s \<in> set ps. capabilityImplies s q = Inr True)))))"
proof -
  from eligible_parts [OF assms] have e: "r_status (ev_run input) \<notin> set elig_terminalRunStatuses"
    "ad_status (task_admission env input) \<notin> {Rejected, NeedsClarification}"
    "\<not> elig_isPolicyBlocked (ev_policyDecision input)" by metis+
  from admission_open [OF e(2) [unfolded task_admission_def]]
  have a: "t_intent (ev_task input) \<noteq> None" "\<not> pd_clarificationRequired (ev_policyDecision input)" by simp_all
  from eligible_facts [OF assms] obtain scopes where s: "effective_scopes input = Inr scopes"
    "\<forall>q \<in> set scopes. granted env input q"
    "\<forall>i \<in> set (ee_acceptedPermits d). \<exists>p \<in> set (ev_approvalPermits input). ap_permitId p = i \<and> covering_permit env input scopes p"
    "collectRiskSignals (ke_lower env) (ev_task input) (Some (ev_policyDecision input)) \<noteq> [] \<Longrightarrow> ee_acceptedPermits d \<noteq> []"
    by metis
  have "\<exists>p \<in> set (ev_approvalPermits input). ap_permitId p \<in> set (ee_acceptedPermits d) \<and> covering_permit env input scopes p"
    if "collectRiskSignals (ke_lower env) (ev_task input) (Some (ev_policyDecision input)) \<noteq> []"
    using s(3) s(4) [OF that] by (metis list.set_intros(1) neq_Nil_conv)
  then show ?thesis
    using e(1,3) a s(1,2) effective_requested [OF s(1)]
    unfolding elig_terminalRunStatuses_def covering_permit_def by auto
qed

text \<open>
  C11: With the permit store, only live permits count. Whatever was saved and revoked before, every
  permit accepted for an eligible run is stored under its id and has not been revoked; its expiry and
  the given time parse and the time is before the expiry; it was issued for exactly this task, run,
  principal, plan and policy decision; and it covers every requested scope and every capability of
  the policy decision. The store is left as it was.
\<close>

theorem accepted_permits_live:
  assumes "evaluateExecutionEligibilityWithPermitStore env input (permits cs) = (Inr d, m)"
    and "ee_status d = Eligible" and "i \<in> set (ee_acceptedPermits d)"
  shows "m = permits cs \<and> (\<exists>p. map_of (permits cs) i = Some p \<and> ap_permitId p = i \<and> ap_revokedAt p = None \<and>
    (\<exists>expires now. ke_date env (ap_expiresAt p) = Some expires \<and> ke_date env (ev_now input) = Some now \<and> now < expires) \<and>
    ap_taskId p = t_taskId (ev_task input) \<and> ap_runId p = r_runId (ev_run input) \<and>
    ap_principalId p = Some (pr_principalId (ev_principal input)) \<and> ap_planHash p = ev_planHash input \<and>
    getPolicyDecisionHash p = hashApprovalScope (ke_sha256 env) (pd_json (ev_policyDecision input)) \<and>
    (\<exists>scopes ps. effective_scopes input = Inr scopes \<and> set (ev_requestedScopes input) \<subseteq> set scopes \<and>
       getCapabilityScopes p = Inr ps \<and> (\<forall>q \<in> set scopes. \<exists>s \<in> set ps. capabilityImplies s q = Inr True)))"
proof -
  let ?f = "\<lparr>pf_taskId = Some (t_taskId (ev_task input)), pf_runId = Some (r_runId (ev_run input)),
       pf_principalId = Some (pr_principalId (ev_principal input)), pf_approverId = None, pf_revoked = None\<rparr>"
  from assms(1) obtain ps where ps: "fst (listPermits ?f (permits cs)) = Inr ps" "m = permits cs"
    "evaluateExecutionEligibility env (input\<lparr>ev_approvalPermits := ps\<rparr>) = Inr d"
    using reads_pure(2) [of ?f "permits cs"]
    by (auto simp: evaluateExecutionEligibilityWithPermitStore_def sx_bind_def sx_lift_def
        split: prod.splits sum.splits)
  let ?input = "input\<lparr>ev_approvalPermits := ps\<rparr>"
  from eligible_facts [OF ps(3) assms(2)] assms(3) obtain scopes p where
    scopes: "effective_scopes ?input = Inr scopes" and
    p: "p \<in> set ps" "ap_permitId p = i" "covering_permit env ?input scopes p"
    by auto metis
  note stored = listed_permit [OF ps(1) p(1)]
  have "effective_scopes input = Inr scopes" using scopes by (simp add: effective_scopes_def)
  moreover note effective_requested [OF this]
  moreover have "ap_revokedAt p = None"
    using p(3) stored(2) by (auto simp: covering_permit_def permit_in_force_def truthy_def ApprovalPermitSchema_def
        split: option.splits list.splits)
  ultimately show ?thesis using p(2,3) stored(1) ps(2)
    by (auto simp: covering_permit_def permit_in_force_def permit_context_of_def)
qed

section \<open>Witnesses\<close>

definition demo_env :: kernel_env where
  "demo_env = \<lparr>ke_date = demo_clock, ke_dateNow = 0, ke_lower = ascii_lower, ke_sha256 = (\<lambda>_. js ''d'')\<rparr>"

definition demo_eligibility :: eligibility_input where
  "demo_eligibility = \<lparr>ev_task = risky_task,
     ev_run = \<lparr>r_runId = js ''r'', r_taskId = js ''t'', r_status = RunRunning, r_policyDecisionId = None,
       r_metadata = None, r_createdAt = js ''a'', r_updatedAt = js ''a'', r_completedAt = None\<rparr>,
     ev_principal = \<lparr>pr_principalId = js ''u'', pr_kind = KindUser, pr_displayName = None, pr_tenantId = None,
       pr_workspaceId = None, pr_createdAt = js ''a''\<rparr>,
     ev_policyDecision = \<lparr>pd_riskLevel = PolicyLow, pd_clarificationRequired = False,
       pd_approvalRequired = False, pd_capabilities = [], pd_legacy = None, pd_status = None,
       pd_blocked = None, pd_json = JNull\<rparr>,
     ev_capabilityGrants = [GrantString (js ''fs.write:src/**'')],
     ev_approvalPermits = [demo_permit], ev_requestedScopes = [js ''fs.write:src/**''],
     ev_planHash = js ''h'', ev_now = js ''a''\<rparr>"

lemma demo_checks:
  "ad_status (task_admission demo_env demo_eligibility) = NeedsApproval"
  "effective_scopes demo_eligibility = Inr [js ''fs.write:src/**'']"
  "\<exists>r. explainCapabilityDecision (ke_date demo_env) (ke_dateNow demo_env) (ev_capabilityGrants demo_eligibility)
     (js ''fs.write:src/**'') (check_options_of demo_eligibility) = Inr r \<and> cr_allowed r \<and>
     cr_reasons r = [js ''matched_allow_scope'']"
proof -
  show "ad_status (task_admission demo_env demo_eligibility) = NeedsApproval" by code_simp
  show "effective_scopes demo_eligibility = Inr [js ''fs.write:src/**'']" by code_simp
  have "case explainCapabilityDecision (ke_date demo_env) (ke_dateNow demo_env) (ev_capabilityGrants demo_eligibility)
     (js ''fs.write:src/**'') (check_options_of demo_eligibility) of
     Inr r \<Rightarrow> cr_allowed r \<and> cr_reasons r = [js ''matched_allow_scope''] | Inl _ \<Rightarrow> False"
    by code_simp
  then show "\<exists>r. explainCapabilityDecision (ke_date demo_env) (ke_dateNow demo_env) (ev_capabilityGrants demo_eligibility)
     (js ''fs.write:src/**'') (check_options_of demo_eligibility) = Inr r \<and> cr_allowed r \<and>
     cr_reasons r = [js ''matched_allow_scope'']" by (auto split: sum.splits)
qed

lemma demo_permits: "evaluatePermits demo_env demo_eligibility [js ''fs.write:src/**''] = Inr ([js ''p1''], [])"
proof -
  let ?ctx = "permit_context_of demo_env demo_eligibility [js ''fs.write:src/**'']"
  note p = created_fields [OF demo_permit_created]
  have scopes: "getCapabilityScopes demo_permit = Inr [js ''fs.write:src/**'']"
    by (simp add: getCapabilityScopes_def p demo_input_def)
  then obtain v where v: "validateApprovalPermit demo_clock demo_permit ?ctx = Inr v"
    by (simp add: validateApprovalPermit_def Let_def)
  have "permit_in_force demo_clock demo_permit ?ctx"
    by (simp add: permit_in_force_def permit_context_of_def p demo_input_def demo_eligibility_def demo_env_def
        demo_clock_def getPolicyDecisionHash_def truthy_def hashApprovalScope_def risky_task_def)
  moreover have "capabilityImplies (js ''fs.write:src/**'') (js ''fs.write:src/**'') = Inr True" by code_simp
  ultimately have "pv_valid v" using validate_iff [OF v] scopes by (simp add: permit_context_of_def)
  with v p show ?thesis by (simp add: evaluatePermits_def demo_eligibility_def demo_env_def demo_input_def)
qed

lemma demo_eligible:
  "\<exists>d. evaluateExecutionEligibility demo_env demo_eligibility = Inr d \<and> ee_status d = Eligible \<and>
     ee_acceptedPermits d = [js ''p1'']"
proof -
  have "r_status (ev_run demo_eligibility) = RunRunning" "\<not> elig_isPolicyBlocked (ev_policyDecision demo_eligibility)"
    by (simp_all add: demo_eligibility_def elig_isPolicyBlocked_def)
  moreover obtain r where "explainCapabilityDecision (ke_date demo_env) (ke_dateNow demo_env)
      (ev_capabilityGrants demo_eligibility) (js ''fs.write:src/**'') (check_options_of demo_eligibility) = Inr r"
    "cr_allowed r" "cr_reasons r = [js ''matched_allow_scope'']" using demo_checks(3) by blast
  ultimately show ?thesis
    using demo_checks(1,2) demo_permits
    by (simp add: evaluateExecutionEligibility_def Let_def elig_terminalRunStatuses_def grant_outcome_def)
qed

theorem eligible_sound_witness:
  "\<exists>p \<in> set (ev_approvalPermits demo_eligibility). ap_permitId p = js ''p1'' \<and>
     (\<exists>scopes. permit_in_force (ke_date demo_env) p (permit_context_of demo_env demo_eligibility scopes))"
proof -
  from demo_eligible obtain d where d: "evaluateExecutionEligibility demo_env demo_eligibility = Inr d"
    "ee_status d = Eligible" "ee_acceptedPermits d = [js ''p1'']" by blast
  have "collectRiskSignals (ke_lower demo_env) (ev_task demo_eligibility)
      (Some (ev_policyDecision demo_eligibility)) \<noteq> []" by code_simp
  with eligible_sound [OF d(1,2)] d(3) show ?thesis by auto
qed

theorem accepted_permits_live_witness:
  "\<exists>p. map_of (permits [PSave demo_permit]) (js ''p1'') = Some p \<and> ap_revokedAt p = None"
proof -
  let ?f = "\<lparr>pf_taskId = Some (t_taskId (ev_task demo_eligibility)), pf_runId = Some (r_runId (ev_run demo_eligibility)),
    pf_principalId = Some (pr_principalId (ev_principal demo_eligibility)), pf_approverId = None, pf_revoked = None\<rparr>"
  note p = created_fields [OF demo_permit_created]
  have "permits [PSave demo_permit] = [(js ''p1'', demo_permit)]"
    by (simp add: permits_def permit_step_def save_spec p demo_input_def)
  moreover have "matchesApprovalPermit demo_permit ?f"
    by (simp add: matchesApprovalPermit_def p demo_input_def demo_eligibility_def risky_task_def)
  ultimately have "listPermits ?f (permits [PSave demo_permit]) = (Inr [demo_permit], permits [PSave demo_permit])"
    by (simp add: listPermits_def sx_bind_def sx_gets_def sx_lift_def cloneApprovalPermit_def zod_parse_ok p(1))
  moreover have "demo_eligibility\<lparr>ev_approvalPermits := [demo_permit]\<rparr> = demo_eligibility"
    by (simp add: demo_eligibility_def)
  ultimately obtain d m where d: "evaluateExecutionEligibilityWithPermitStore demo_env demo_eligibility
      (permits [PSave demo_permit]) = (Inr d, m)" "ee_status d = Eligible" "ee_acceptedPermits d = [js ''p1'']"
    using demo_eligible by (auto simp: evaluateExecutionEligibilityWithPermitStore_def sx_bind_def sx_lift_def)
  from accepted_permits_live [OF d(1,2), of "js ''p1''"] d(3) show ?thesis by auto
qed

end
