(* ===== verification/FileLock.thy ===== *)
theory FileLock
  imports Prelude
begin

text \<open>
  The lock file that serialises the mutations of the file-system stores: \<open>withLock\<close>, \<open>releaseLock\<close>
  and \<open>removeStaleLock\<close> of \<open>packages/kernel-store/src/index.ts\<close> (the same code is in the scheduler, the
  provider registry and the execution planner). Processes are interleaved between system calls: one
  step of a process is one access to the lock file, or one evaluation of \<open>Date.now()\<close> and
  \<open>process.kill(pid, 0)\<close>. A snapshot, a \<open>statSync\<close> followed by a \<open>readFileSync\<close>, is one step.
\<close>

section \<open>The lock file\<close>

text \<open>\<open>[process.pid, Date.now(), Math.random()]\<close>.\<close>

type_synonym token = "nat \<times> int \<times> nat"

definition createLockToken :: "nat \<Rightarrow> int \<Rightarrow> nat \<Rightarrow> token" where
  "createLockToken pid now random = (pid, now, random)"

text \<open>The text of the lock file: empty once it is created, then the JSON object of the owner.\<close>

datatype lock_text = Blank | Owner token nat int

record lock_inode =
  li_ino :: nat
  li_text :: lock_text
  li_mtime :: int
  li_ctime :: int

text \<open>\<open>JSON.parse\<close> of the empty text throws, and the metadata is empty.\<close>

definition parseFileLockMetadata :: "lock_text \<Rightarrow> int option \<times> nat option" where
  "parseFileLockMetadata raw = (case raw of Blank \<Rightarrow> (None, None) | Owner _ pid createdAt \<Rightarrow> (Some createdAt, Some pid))"

record snapshot =
  sn_raw :: lock_text
  sn_mtimeMs :: int
  sn_ctimeMs :: int
  sn_size :: nat
  sn_createdAtMs :: "int option"
  sn_pid :: "nat option"

text \<open>The options; \<open>lc_size\<close> is the size of a text in bytes.\<close>

record lock_config =
  lc_timeoutMs :: int
  lc_staleMs :: int
  lc_size :: "lock_text \<Rightarrow> nat"

definition readFileLockSnapshot :: "lock_config \<Rightarrow> lock_inode \<Rightarrow> snapshot" where
  "readFileLockSnapshot cfg f = (case parseFileLockMetadata (li_text f) of (createdAt, pid) \<Rightarrow>
     \<lparr>sn_raw = li_text f, sn_mtimeMs = li_mtime f, sn_ctimeMs = li_ctime f, sn_size = lc_size cfg (li_text f),
      sn_createdAtMs = createdAt, sn_pid = pid\<rparr>)"

definition isFileLockSnapshotStale :: "int \<Rightarrow> snapshot \<Rightarrow> int \<Rightarrow> bool" where
  "isFileLockSnapshotStale now sn lockStaleMs =
     (if now - sn_mtimeMs sn < lockStaleMs then False
      else if opt_ex (\<lambda>created. now - created < lockStaleMs) (sn_createdAtMs sn) then False
      else True)"

definition isSameFileLockSnapshot :: "snapshot \<Rightarrow> snapshot \<Rightarrow> bool" where
  "isSameFileLockSnapshot l r \<longleftrightarrow> sn_raw l = sn_raw r \<and> sn_mtimeMs l = sn_mtimeMs r \<and>
     sn_ctimeMs l = sn_ctimeMs r \<and> sn_size l = sn_size r"

definition isFileLockOwnerAlive :: "(nat \<Rightarrow> bool) \<Rightarrow> nat \<Rightarrow> snapshot \<Rightarrow> bool" where
  "isFileLockOwnerAlive alive self sn = (case sn_pid sn of None \<Rightarrow> False | Some pid \<Rightarrow> pid = self \<or> alive pid)"

section \<open>The processes\<close>

text \<open>
  Where a process is in \<open>withLock\<close>. \<open>Opening\<close> to \<open>Releasing\<close> follow the loop body, \<open>Looking\<close> to
  \<open>Unlinking\<close> are \<open>removeStaleLock\<close>, and \<open>Waiting\<close> is the check of the timeout before the next turn.
\<close>

datatype pc =
    Idle
  | Opening token int
  | Writing token nat
  | Critical token
  | Releasing token
  | ReleaseUnlink token
  | Looking token int
  | Judging token int snapshot
  | LookingAgain token int snapshot
  | JudgingAgain token int snapshot snapshot
  | Unlinking token int
  | Waiting token int

record lock_sys =
  ls_file :: "lock_inode option"
  ls_nextIno :: nat
  ls_now :: int
  ls_alive :: "nat \<Rightarrow> bool"
  ls_pc :: "nat \<Rightarrow> pc"

definition goto :: "nat \<Rightarrow> pc \<Rightarrow> lock_sys \<Rightarrow> lock_sys" where
  "goto p c s = s\<lparr>ls_pc := (ls_pc s)(p := c)\<rparr>"

definition act :: "lock_config \<Rightarrow> nat \<Rightarrow> nat \<Rightarrow> lock_sys \<Rightarrow> lock_sys" where
  "act cfg random p s = (case ls_pc s p of
     Idle \<Rightarrow> goto p (Opening (createLockToken p (ls_now s) random) (ls_now s)) s
   | Opening token startedAt \<Rightarrow>
       (case ls_file s of
          None \<Rightarrow> goto p (Writing token (ls_nextIno s))
            (s\<lparr>ls_file := Some \<lparr>li_ino = ls_nextIno s, li_text = Blank, li_mtime = ls_now s, li_ctime = ls_now s\<rparr>,
               ls_nextIno := Suc (ls_nextIno s)\<rparr>)
        | Some _ \<Rightarrow> goto p (Looking token startedAt) s)
   | Writing token ino \<Rightarrow>
       (case ls_file s of
          Some f \<Rightarrow> goto p (Critical token)
            (if li_ino f = ino
             then s\<lparr>ls_file := Some (f\<lparr>li_text := Owner token p (ls_now s), li_mtime := ls_now s, li_ctime := ls_now s\<rparr>)\<rparr>
             else s)
        | None \<Rightarrow> goto p (Critical token) s)
   | Critical token \<Rightarrow> goto p (Releasing token) s
   | Releasing token \<Rightarrow>
       (case ls_file s of
          None \<Rightarrow> goto p Idle s
        | Some f \<Rightarrow> (case li_text f of Blank \<Rightarrow> goto p Idle s
            | Owner t _ _ \<Rightarrow> goto p (if t = token then ReleaseUnlink token else Idle) s))
   | ReleaseUnlink token \<Rightarrow> goto p Idle (s\<lparr>ls_file := None\<rparr>)
   | Looking token startedAt \<Rightarrow>
       (case ls_file s of
          None \<Rightarrow> goto p (Waiting token startedAt) s
        | Some f \<Rightarrow> goto p (Judging token startedAt (readFileLockSnapshot cfg f)) s)
   | Judging token startedAt sn \<Rightarrow>
       goto p (if \<not> isFileLockSnapshotStale (ls_now s) sn (lc_staleMs cfg) \<or> isFileLockOwnerAlive (ls_alive s) p sn
               then Waiting token startedAt else LookingAgain token startedAt sn) s
   | LookingAgain token startedAt sn \<Rightarrow>
       (case ls_file s of
          None \<Rightarrow> goto p (Waiting token startedAt) s
        | Some f \<Rightarrow> goto p (JudgingAgain token startedAt sn (readFileLockSnapshot cfg f)) s)
   | JudgingAgain token startedAt sn current \<Rightarrow>
       goto p (if isSameFileLockSnapshot sn current \<and>
                  isFileLockSnapshotStale (ls_now s) current (lc_staleMs cfg) \<and>
                  \<not> isFileLockOwnerAlive (ls_alive s) p current
               then Unlinking token startedAt else Waiting token startedAt) s
   | Unlinking token startedAt \<Rightarrow> goto p (Waiting token startedAt) (s\<lparr>ls_file := None\<rparr>)
   | Waiting token startedAt \<Rightarrow>
       goto p (if lc_timeoutMs cfg \<le> ls_now s - startedAt then Idle else Opening token startedAt) s)"

inductive lock_step :: "lock_config \<Rightarrow> lock_sys \<Rightarrow> lock_sys \<Rightarrow> bool" for cfg where
  lock_act: "ls_alive s p \<Longrightarrow> lock_step cfg s (act cfg random p s)"
| lock_tick: "0 \<le> d \<Longrightarrow> lock_step cfg s (s\<lparr>ls_now := ls_now s + d\<rparr>)"
| lock_crash: "lock_step cfg s (s\<lparr>ls_alive := (ls_alive s)(p := False)\<rparr>)"

definition fresh_system :: "int \<Rightarrow> lock_sys" where
  "fresh_system now = \<lparr>ls_file = None, ls_nextIno = 0, ls_now = now, ls_alive = (\<lambda>_. True), ls_pc = (\<lambda>_. Idle)\<rparr>"

section \<open>Mutual exclusion\<close>

text \<open>The process that owns the lock, and the file it has on disk meanwhile.\<close>

fun owns :: "pc \<Rightarrow> bool" where
  "owns (Writing _ _) = True" | "owns (Critical _) = True" | "owns (Releasing _) = True"
| "owns (ReleaseUnlink _) = True" | "owns _ = False"

fun file_of :: "nat \<Rightarrow> pc \<Rightarrow> lock_inode \<Rightarrow> bool" where
  "file_of p (Writing _ ino) f \<longleftrightarrow> li_ino f = ino \<and> li_text f = Blank"
| "file_of p (Critical token) f \<longleftrightarrow> (\<exists>c. li_text f = Owner token p c)"
| "file_of p (Releasing token) f \<longleftrightarrow> (\<exists>c. li_text f = Owner token p c)"
| "file_of p (ReleaseUnlink token) f \<longleftrightarrow> (\<exists>c. li_text f = Owner token p c)"
| "file_of p _ f \<longleftrightarrow> True"

fun writing :: "pc \<Rightarrow> bool" where
  "writing (Writing _ _) = True" | "writing _ = False"

text \<open>A created file is written before it is old enough to be taken for stale.\<close>

definition timely :: "lock_config \<Rightarrow> lock_sys \<Rightarrow> bool" where
  "timely cfg s \<longleftrightarrow> (\<forall>p f. writing (ls_pc s p) \<and> ls_file s = Some f \<longrightarrow>
     ls_now s - li_mtime f < lc_staleMs cfg)"

text \<open>No process is dead between the creation of its lock file and its removal; others may crash.\<close>

definition owners_alive :: "lock_sys \<Rightarrow> bool" where
  "owners_alive s \<longleftrightarrow> (\<forall>p. owns (ls_pc s p) \<longrightarrow> ls_alive s p)"

definition calm_step :: "lock_config \<Rightarrow> lock_sys \<Rightarrow> lock_sys \<Rightarrow> bool" where
  "calm_step cfg s t \<longleftrightarrow> lock_step cfg s t \<and> owners_alive t \<and> timely cfg t"

text \<open>What a process inside \<open>removeStaleLock\<close> may have seen when no owner has crashed.\<close>

definition abandoned :: "(nat \<Rightarrow> bool) \<Rightarrow> lock_text \<Rightarrow> bool" where
  "abandoned alive raw \<longleftrightarrow> (case raw of Blank \<Rightarrow> False | Owner _ pid _ \<Rightarrow> \<not> alive pid)"

fun harmless :: "lock_config \<Rightarrow> (nat \<Rightarrow> bool) \<Rightarrow> int \<Rightarrow> pc \<Rightarrow> bool" where
  "harmless cfg alive now (Judging _ _ sn) \<longleftrightarrow>
     sn_pid sn = (case sn_raw sn of Blank \<Rightarrow> None | Owner _ pid _ \<Rightarrow> Some pid)"
| "harmless cfg alive now (LookingAgain _ _ sn) \<longleftrightarrow>
     abandoned alive (sn_raw sn) \<or> sn_raw sn = Blank \<and> lc_staleMs cfg \<le> now - sn_mtimeMs sn"
| "harmless cfg alive now (JudgingAgain _ _ sn current) \<longleftrightarrow> \<not> isSameFileLockSnapshot sn current"
| "harmless cfg alive now (Unlinking _ _) \<longleftrightarrow> False"
| "harmless cfg alive now _ \<longleftrightarrow> True"

definition lock_inv :: "lock_config \<Rightarrow> lock_sys \<Rightarrow> bool" where
  "lock_inv cfg s \<longleftrightarrow> owners_alive s \<and> timely cfg s \<and>
     (\<forall>p. owns (ls_pc s p) \<longrightarrow> (\<exists>f. ls_file s = Some f \<and> file_of p (ls_pc s p) f)) \<and>
     (\<forall>p q. owns (ls_pc s p) \<and> owns (ls_pc s q) \<longrightarrow> p = q) \<and>
     (\<forall>f. ls_file s = Some f \<and> li_text f = Blank \<longrightarrow> (\<exists>p. writing (ls_pc s p))) \<and>
     (\<forall>p. harmless cfg (ls_alive s) (ls_now s) (ls_pc s p)) \<and>
     (\<forall>f t p c. ls_file s = Some f \<and> li_text f = Owner t p c \<longrightarrow> owns (ls_pc s p))"

lemma lock_invD:
  assumes "lock_inv cfg s"
  shows "owns (ls_pc s p) \<Longrightarrow> ls_alive s p" and "timely cfg s"
    and "owns (ls_pc s p) \<Longrightarrow> \<exists>f. ls_file s = Some f \<and> file_of p (ls_pc s p) f"
    and "owns (ls_pc s p) \<Longrightarrow> owns (ls_pc s q) \<Longrightarrow> p = q"
    and "ls_file s = Some f \<Longrightarrow> li_text f = Blank \<Longrightarrow> \<exists>p. writing (ls_pc s p)"
    and "harmless cfg (ls_alive s) (ls_now s) (ls_pc s p)"
    and "ls_file s = Some f \<Longrightarrow> li_text f = Owner t p c \<Longrightarrow> owns (ls_pc s p)"
  using assms unfolding lock_inv_def owners_alive_def by blast+

text \<open>A step of one process that leaves the file alone.\<close>

lemma goto_inv:
  assumes "lock_inv cfg s" and "timely cfg (goto p c s)" and "harmless cfg (ls_alive s) (ls_now s) c"
    and "\<not> writing (ls_pc s p)" and "owns (ls_pc s p) \<Longrightarrow> owns c"
    and "owns c \<Longrightarrow> owns (ls_pc s p) \<and> (\<forall>f. ls_file s = Some f \<longrightarrow> file_of p (ls_pc s p) f \<longrightarrow> file_of p c f)"
  shows "lock_inv cfg (goto p c s)"
proof -
  let ?s = "goto p c s"
  have o: "owns (ls_pc ?s q) \<Longrightarrow> owns (ls_pc s q)" for q using assms(6) by (cases "q = p") (auto simp: goto_def)
  have "\<exists>f. ls_file ?s = Some f \<and> file_of q (ls_pc ?s q) f" if q: "owns (ls_pc ?s q)" for q
    using lock_invD(3) [OF assms(1) o [OF q]] assms(6) q by (cases "q = p") (auto simp: goto_def)
  moreover have "q = r" if "owns (ls_pc ?s q)" "owns (ls_pc ?s r)" for q r
    using lock_invD(4) [OF assms(1)] o that by blast
  moreover have "\<exists>q. writing (ls_pc ?s q)" if f: "ls_file ?s = Some f" "li_text f = Blank" for f
  proof -
    from f obtain q where "writing (ls_pc s q)" using lock_invD(5) [OF assms(1)] by (auto simp: goto_def)
    then have "writing (ls_pc ?s q)" using assms(4) by (cases "q = p") (auto simp: goto_def)
    then show ?thesis by blast
  qed
  moreover have "\<forall>q. harmless cfg (ls_alive ?s) (ls_now ?s) (ls_pc ?s q)"
    using assms(3) lock_invD(6) [OF assms(1)] by (auto simp: goto_def)
  moreover have "owners_alive ?s"
    using lock_invD(1) [OF assms(1)] o by (simp add: owners_alive_def) (simp add: goto_def)
  moreover have "owns (ls_pc ?s q)" if "ls_file ?s = Some f" "li_text f = Owner t q d" for f t q d
    using lock_invD(7) [OF assms(1), of f t q d] that assms(5) by (auto simp: goto_def)
  ultimately show ?thesis using assms(2) unfolding lock_inv_def by blast
qed

lemma act_alive [simp]: "ls_alive (act cfg random p s) = ls_alive s"
  by (simp add: act_def goto_def split: pc.splits option.splits lock_text.splits)

lemma act_inv:
  assumes inv: "lock_inv cfg s" and timely: "timely cfg (act cfg random p s)" and alive: "ls_alive s p"
  shows "lock_inv cfg (act cfg random p s)"
proof -
  have stay: "lock_inv cfg (act cfg random p s)"
    if "act cfg random p s = goto p c s" "harmless cfg (ls_alive s) (ls_now s) c" "\<not> writing (ls_pc s p)"
      "owns (ls_pc s p) \<Longrightarrow> owns c" "owns c \<Longrightarrow> owns (ls_pc s p) \<and> (\<forall>f. ls_file s = Some f \<longrightarrow> file_of p (ls_pc s p) f \<longrightarrow> file_of p c f)" for c
    using goto_inv [OF inv _ that(2-5)] timely that(1) by simp
  show ?thesis
  proof (cases "ls_pc s p")
    case Idle
    then show ?thesis by (intro stay [of "Opening (createLockToken p (ls_now s) random) (ls_now s)"]) (simp_all add: act_def)
  next
    case (Opening token d)
    show ?thesis
    proof (cases "ls_file s")
      case None
      let ?f = "\<lparr>li_ino = ls_nextIno s, li_text = Blank, li_mtime = ls_now s, li_ctime = ls_now s\<rparr>"
      let ?s = "goto p (Writing token (ls_nextIno s)) (s\<lparr>ls_file := Some ?f, ls_nextIno := Suc (ls_nextIno s)\<rparr>)"
      have s: "act cfg random p s = ?s" using Opening None by (simp add: act_def)
      have no: "\<not> owns (ls_pc s q)" for q using lock_invD(3) [OF inv] None by auto
      show ?thesis
        using timely lock_invD(6) [OF inv] no alive unfolding s lock_inv_def by (auto simp: goto_def owners_alive_def)
    next
      case (Some f)
      with Opening show ?thesis by (intro stay [of "Looking token d"]) (simp_all add: act_def)
    qed
  next
    case (Writing token ino)
    then obtain f where f: "ls_file s = Some f" "li_ino f = ino" "li_text f = Blank"
      using lock_invD(3) [OF inv, of p] by auto
    let ?f = "f\<lparr>li_text := Owner token p (ls_now s), li_mtime := ls_now s, li_ctime := ls_now s\<rparr>"
    let ?s = "goto p (Critical token) (s\<lparr>ls_file := Some ?f\<rparr>)"
    have s: "act cfg random p s = ?s" using Writing f by (simp add: act_def)
    have o: "owns (ls_pc ?s q) \<Longrightarrow> q = p" for q
      using lock_invD(4) [OF inv, of p q] Writing by (cases "q = p") (auto simp: goto_def)
    have "\<exists>f. ls_file ?s = Some f \<and> file_of q (ls_pc ?s q) f" if "owns (ls_pc ?s q)" for q
      using o [OF that] by (simp add: goto_def)
    moreover have "q = r" if "owns (ls_pc ?s q)" "owns (ls_pc ?s r)" for q r using o that by blast
    moreover have "\<forall>q. harmless cfg (ls_alive ?s) (ls_now ?s) (ls_pc ?s q)"
      using lock_invD(6) [OF inv] by (auto simp: goto_def)
    moreover have "owners_alive ?s" using o alive unfolding owners_alive_def by (metis act_alive s)
    moreover have "\<forall>f t q c. ls_file ?s = Some f \<and> li_text f = Owner t q c \<longrightarrow> owns (ls_pc ?s q)" by (simp add: goto_def)
    moreover have "\<forall>f. ls_file ?s = Some f \<and> li_text f = Blank \<longrightarrow> (\<exists>q. writing (ls_pc ?s q))" by (simp add: goto_def)
    ultimately show ?thesis using timely unfolding s lock_inv_def by blast
  next
    case (Critical token)
    then show ?thesis by (intro stay [of "Releasing token"]) (simp_all add: act_def)
  next
    case (Releasing token)
    then obtain f c where f: "ls_file s = Some f" "li_text f = Owner token p c"
      using lock_invD(3) [OF inv, of p] by auto
    with Releasing show ?thesis by (intro stay [of "ReleaseUnlink token"]) (simp_all add: act_def)
  next
    case (ReleaseUnlink token)
    let ?s = "goto p Idle (s\<lparr>ls_file := None\<rparr>)"
    have s: "act cfg random p s = ?s" using ReleaseUnlink by (simp add: act_def)
    have no: "\<not> owns (ls_pc ?s q)" for q
      using lock_invD(4) [OF inv, of p q] ReleaseUnlink by (cases "q = p") (auto simp: goto_def)
    have "\<forall>q. harmless cfg (ls_alive ?s) (ls_now ?s) (ls_pc ?s q)"
      using lock_invD(6) [OF inv] by (auto simp: goto_def)
    then show ?thesis using timely no unfolding s lock_inv_def owners_alive_def by (auto simp: goto_def)
  next
    case (Looking token d)
    have "harmless cfg (ls_alive s) (ls_now s) (Judging token d (readFileLockSnapshot cfg f))" for f
      by (auto simp: readFileLockSnapshot_def parseFileLockMetadata_def split: lock_text.splits)
    with Looking show ?thesis
      by (cases "ls_file s") (rule stay, simp add: act_def, simp_all)+
  next
    case (Judging token d sn)
    have "harmless cfg (ls_alive s) (ls_now s) (LookingAgain token d sn)"
      if "isFileLockSnapshotStale (ls_now s) sn (lc_staleMs cfg)" "\<not> isFileLockOwnerAlive (ls_alive s) p sn"
    proof (cases "sn_raw sn")
      case Blank
      then show ?thesis using that(1) by (simp add: isFileLockSnapshotStale_def split: if_splits)
    next
      case (Owner t pid c)
      then show ?thesis using that(2) lock_invD(6) [OF inv, of p] Judging
        by (simp add: isFileLockOwnerAlive_def abandoned_def)
    qed
    then show ?thesis using Judging by (intro stay) (simp add: act_def, auto split: if_splits)
  next
    case (LookingAgain token d sn)
    have sn: "abandoned (ls_alive s) (sn_raw sn) \<or> sn_raw sn = Blank \<and> lc_staleMs cfg \<le> ls_now s - sn_mtimeMs sn"
      using lock_invD(6) [OF inv, of p] LookingAgain by auto
    have "\<not> isSameFileLockSnapshot sn (readFileLockSnapshot cfg f)" if f: "ls_file s = Some f" for f
    proof (cases "li_text f")
      case Blank
      then obtain q where "writing (ls_pc s q)" using lock_invD(5) [OF inv f] by blast
      then have "ls_now s - li_mtime f < lc_staleMs cfg" using lock_invD(2) [OF inv] f unfolding timely_def by blast
      with sn Blank show ?thesis
        by (auto simp: isSameFileLockSnapshot_def readFileLockSnapshot_def abandoned_def split: prod.splits)
    next
      case (Owner t pid c)
      then have "ls_alive s pid" using lock_invD(1,7) [OF inv] f by blast
      with sn Owner show ?thesis
        by (auto simp: isSameFileLockSnapshot_def readFileLockSnapshot_def abandoned_def split: prod.splits)
    qed
    with LookingAgain show ?thesis
      by (cases "ls_file s") (rule stay, simp add: act_def, simp_all)+
  next
    case (JudgingAgain token d sn current)
    then have "\<not> isSameFileLockSnapshot sn current" using lock_invD(6) [OF inv, of p] by simp
    then show ?thesis using JudgingAgain by (intro stay [of "Waiting token d"]) (simp_all add: act_def)
  next
    case (Unlinking token d)
    then show ?thesis using lock_invD(6) [OF inv, of p] by simp
  next
    case (Waiting token d)
    then show ?thesis by (intro stay) (simp add: act_def, simp_all split: if_splits)
  qed
qed

lemma lock_inv_cong:
  assumes "lock_inv cfg s" and "ls_file t = ls_file s" and "ls_pc t = ls_pc s"
    and "timely cfg t" and "owners_alive t" and "\<forall>p. harmless cfg (ls_alive t) (ls_now t) (ls_pc s p)"
  shows "lock_inv cfg t"
  using assms(1) assms(4-6) unfolding lock_inv_def assms(2,3) by (elim conjE, intro conjI) assumption+

lemma calm_inv:
  assumes "calm_step cfg s t" and "lock_inv cfg s"
  shows "lock_inv cfg t"
proof -
  have calm: "timely cfg t" "owners_alive t" using assms(1) by (auto simp: calm_step_def)
  from assms(1) have "lock_step cfg s t" by (simp add: calm_step_def)
  then show ?thesis
  proof cases
    case (lock_act p random)
    then show ?thesis using act_inv [OF assms(2)] calm by simp
  next
    case (lock_tick d)
    have "harmless cfg (ls_alive t) (ls_now t) (ls_pc s p)" for p
      using lock_invD(6) [OF assms(2), of p] lock_tick by (cases "ls_pc s p") auto
    then show ?thesis by (intro lock_inv_cong [OF assms(2) _ _ calm]) (simp_all add: lock_tick)
  next
    case (lock_crash q)
    have "harmless cfg (ls_alive t) (ls_now t) (ls_pc s p)" for p
      using lock_invD(6) [OF assms(2), of p] lock_crash by (cases "ls_pc s p") (auto simp: abandoned_def split: lock_text.splits)
    then show ?thesis by (intro lock_inv_cong [OF assms(2) _ _ calm]) (simp_all add: lock_crash)
  qed
qed

lemma fresh_inv: "lock_inv cfg (fresh_system now)"
  by (simp add: lock_inv_def fresh_system_def timely_def owners_alive_def)

lemma calm_reach: "(calm_step cfg)\<^sup>*\<^sup>* (fresh_system now) s \<Longrightarrow> lock_inv cfg s"
  by (induction rule: rtranclp_induct) (auto intro: fresh_inv calm_inv)

definition in_critical_section :: "lock_sys \<Rightarrow> nat \<Rightarrow> bool" where
  "in_critical_section s p = (case ls_pc s p of Critical _ \<Rightarrow> True | _ \<Rightarrow> False)"

lemma in_critical_sectionE:
  "in_critical_section s p \<Longrightarrow> (\<And>token. ls_pc s p = Critical token \<Longrightarrow> thesis) \<Longrightarrow> thesis"
  by (cases "ls_pc s p") (simp_all add: in_critical_section_def)

text \<open>
  C8: The lock file excludes while its owners survive. Suppose that no process dies between creating
  the lock file and removing it (processes that wait or are done may crash), and that every process writes
  the lock file it created before that file could be taken for stale. Then two processes are never
  inside their critical sections at once, however long they stay there, and the lock file on disk
  is that of the process inside. Without the first condition this fails, see
  \<open>stale_removal_not_exclusive\<close> below.
\<close>

theorem lock_excludes:
  assumes "(calm_step cfg)\<^sup>*\<^sup>* (fresh_system now) s"
    and "in_critical_section s p" and "in_critical_section s q"
  shows "p = q \<and> (\<exists>f token c. ls_file s = Some f \<and> ls_pc s p = Critical token \<and> li_text f = Owner token p c)"
proof -
  note inv = calm_reach [OF assms(1)]
  from assms(2,3) obtain token token' where t: "ls_pc s p = Critical token" "ls_pc s q = Critical token'"
    by (meson in_critical_sectionE)
  then have "p = q" using lock_invD(4) [OF inv, of p q] by simp
  moreover obtain f c where "ls_file s = Some f" "li_text f = Owner token p c"
    using lock_invD(3) [OF inv, of p] t(1) by auto
  ultimately show ?thesis using t(1) by blast
qed

section \<open>A run of one process, and a run of three\<close>

definition demo_lock :: lock_config where
  "demo_lock = \<lparr>lc_timeoutMs = 1000, lc_staleMs = 30000, lc_size = (\<lambda>x. case x of Blank \<Rightarrow> 0 | Owner _ _ _ \<Rightarrow> 100)\<rparr>"

text \<open>A schedule: the process that acts next, the time that passes, or the process that crashes.\<close>

datatype event_kind = Acts nat | Passes nat | Crashes nat

definition sched_step :: "event_kind \<Rightarrow> lock_sys \<Rightarrow> lock_sys" where
  "sched_step e s = (case e of
     Acts p \<Rightarrow> (if ls_alive s p then act demo_lock 0 p s else s)
   | Passes d \<Rightarrow> s\<lparr>ls_now := ls_now s + int d\<rparr>
   | Crashes p \<Rightarrow> s\<lparr>ls_alive := (ls_alive s)(p := False)\<rparr>)"

definition sched_run :: "event_kind list \<Rightarrow> lock_sys" where
  "sched_run es = foldl (\<lambda>s e. sched_step e s) (fresh_system 0) es"

lemma sched_run_reach: "(lock_step demo_lock)\<^sup>*\<^sup>* (fresh_system 0) (sched_run es)"
proof (induction es rule: rev_induct)
  case (snoc e es)
  have "sched_run (es @ [e]) = sched_run es \<or> lock_step demo_lock (sched_run es) (sched_run (es @ [e]))"
    by (cases e) (auto simp: sched_run_def sched_step_def intro: lock_act lock_tick lock_crash)
  with snoc show ?case by (metis rtranclp.rtrancl_into_rtrancl)
qed (simp add: sched_run_def)

lemma calm_act:
  assumes "\<forall>p. ls_alive s p" and "\<And>f. ls_file (act cfg random p s) = Some f \<Longrightarrow>
    ls_now (act cfg random p s) - li_mtime f < lc_staleMs cfg"
  shows "calm_step cfg s (act cfg random p s)"
  using assms lock_act [of s p cfg random] by (simp add: calm_step_def timely_def owners_alive_def)

theorem lock_excludes_witness:
  "in_critical_section (sched_run [Acts 1, Acts 1, Acts 1]) 1 \<and>
   (\<exists>f token c. ls_file (sched_run [Acts 1, Acts 1, Acts 1]) = Some f \<and> li_text f = Owner token 1 c)"
proof -
  let ?a = "act demo_lock 0 1" and ?s = "fresh_system 0"
  note eval = fresh_system_def act_def goto_def demo_lock_def
  have run: "sched_run [Acts 1, Acts 1, Acts 1] = ?a (?a (?a ?s))"
    by (simp add: sched_run_def sched_step_def fresh_system_def)
  have "calm_step demo_lock ?s (?a ?s)" by (rule calm_act) (simp_all add: eval)
  moreover have "calm_step demo_lock (?a ?s) (?a (?a ?s))"
    by (rule calm_act) (auto simp: eval)
  moreover have "calm_step demo_lock (?a (?a ?s)) (?a (?a (?a ?s)))"
    by (rule calm_act) (auto simp: eval)
  ultimately have "(calm_step demo_lock)\<^sup>*\<^sup>* ?s (?a (?a (?a ?s)))"
    by (meson r_into_rtranclp rtranclp_trans)
  moreover have "in_critical_section (?a (?a (?a ?s))) 1" by (simp add: in_critical_section_def eval)
  ultimately show ?thesis using lock_excludes unfolding run by blast
qed

definition double_removal :: "event_kind list" where
  "double_removal = [Acts 1, Acts 1, Acts 1, Crashes 1, Passes 40000,
     Acts 2, Acts 2, Acts 2, Acts 2, Acts 2, Acts 2,
     Acts 3, Acts 3, Acts 3, Acts 3, Acts 3, Acts 3,
     Acts 2, Acts 2, Acts 2, Acts 2,
     Acts 3, Acts 3, Acts 3, Acts 3]"

text \<open>
  After a crash the lock no longer excludes. Process 1 dies inside its critical section; when its
  lock is stale, processes 2 and 3 both decide to remove it. Process 2 removes it, locks and enters;
  then process 3 carries out its removal, which deletes the lock of process 2, locks and enters as
  well. Both are alive and inside.
\<close>

theorem stale_removal_not_exclusive:
  "(lock_step demo_lock)\<^sup>*\<^sup>* (fresh_system 0) (sched_run double_removal) \<and>
   ls_alive (sched_run double_removal) 2 \<and> ls_alive (sched_run double_removal) 3 \<and>
   in_critical_section (sched_run double_removal) 2 \<and> in_critical_section (sched_run double_removal) 3"
proof -
  have "ls_alive (sched_run double_removal) 2" "ls_alive (sched_run double_removal) 3"
    "in_critical_section (sched_run double_removal) 2" "in_critical_section (sched_run double_removal) 3"
    by (simp_all add: sched_run_def double_removal_def sched_step_def fresh_system_def act_def goto_def
        demo_lock_def createLockToken_def readFileLockSnapshot_def parseFileLockMetadata_def
        isFileLockSnapshotStale_def isFileLockOwnerAlive_def isSameFileLockSnapshot_def in_critical_section_def)
  with sched_run_reach show ?thesis by blast
qed

end
