(* ===== verification/TaskGraph.thy ===== *)
theory TaskGraph
  imports Contracts
begin

text \<open>
  Task graphs, \<open>packages/task-graph/src/index.ts\<close>: nodes and edges owned by branches, checkpoints with
  the snapshot they can be rolled back to, branch merges, traversal and the two stores. The time
  \<open>new Date().toISOString()\<close> of an operation is its argument \<open>now\<close>.
\<close>

section \<open>Data\<close>

datatype tg_node_type = RootNode | SubtaskNode | CheckpointNode | BranchNode
datatype tg_status = TgPending | TgInProgress | TgCompleted | TgFailed | TgBlocked
datatype tg_edge_type = DependencyEdge | ConflictEdge | ParentChildEdge | SequentialEdge

record tg_edge =
  te_edgeId :: str
  te_sourceNodeId :: str
  te_targetNodeId :: str
  te_type :: tg_edge_type
  te_branchId :: str
  te_originBranchId :: str
  te_mergedFromBranchIds :: "str list"
  te_metadata :: "(str \<times> json) list option"

text \<open>
  A node may carry a snapshot of the graph in \<open>data.delta\<close>, so nodes, their data and deltas are one
  recursive type. \<open>RawOther\<close> is a \<open>data.delta\<close> that has not the shape of a delta.
\<close>

datatype tg_node =
  TgNode (tn_nodeId: str) (tn_taskId: str) (tn_type: tg_node_type) (tn_status: tg_status)
    (tn_data: "tg_data option") (tn_branchId: str) (tn_originBranchId: str)
    (tn_mergedFromBranchIds: "str list") (tn_createdAt: str) (tn_updatedAt: str)
and tg_data = TgData (td_delta: "tg_raw option") (td_rest: "(str \<times> json) list")
and tg_raw = RawDelta tg_delta | RawOther json
and tg_delta =
  TgDelta (gd_graphId: str) (gd_checkpointId: str) (gd_branchId: str) (gd_nodes: "tg_node list")
    (gd_edges: "tg_edge list") (gd_activeBranch: str) (gd_rootTaskId: str) (gd_createdAt: str)

record task_graph =
  tg_graphId :: str
  tg_rootTaskId :: str
  tg_nodes :: "tg_node list"
  tg_edges :: "tg_edge list"
  tg_branches :: "str list"
  tg_activeBranch :: str
  tg_createdAt :: str
  tg_updatedAt :: str

definition TaskGraphNodeSchema :: "tg_node \<Rightarrow> bool" where
  "TaskGraphNodeSchema n \<longleftrightarrow> str_min1 (tn_nodeId n) \<and> str_min1 (tn_taskId n) \<and> str_min1 (tn_branchId n) \<and>
     str_min1 (tn_originBranchId n) \<and> list_all str_min1 (tn_mergedFromBranchIds n) \<and>
     str_min1 (tn_createdAt n) \<and> str_min1 (tn_updatedAt n)"

definition TaskGraphEdgeSchema :: "tg_edge \<Rightarrow> bool" where
  "TaskGraphEdgeSchema e \<longleftrightarrow> str_min1 (te_edgeId e) \<and> str_min1 (te_sourceNodeId e) \<and>
     str_min1 (te_targetNodeId e) \<and> str_min1 (te_branchId e) \<and> str_min1 (te_originBranchId e) \<and>
     list_all str_min1 (te_mergedFromBranchIds e)"

definition TaskGraphSchema :: "task_graph \<Rightarrow> bool" where
  "TaskGraphSchema g \<longleftrightarrow> str_min1 (tg_graphId g) \<and> str_min1 (tg_rootTaskId g) \<and>
     list_all TaskGraphNodeSchema (tg_nodes g) \<and> list_all TaskGraphEdgeSchema (tg_edges g) \<and>
     str_min1 (tg_activeBranch g) \<and> str_min1 (tg_createdAt g) \<and> str_min1 (tg_updatedAt g)"

definition TaskGraphDeltaSchema :: "tg_delta \<Rightarrow> bool" where
  "TaskGraphDeltaSchema d \<longleftrightarrow> str_min1 (gd_graphId d) \<and> str_min1 (gd_checkpointId d) \<and> str_min1 (gd_branchId d) \<and>
     list_all TaskGraphNodeSchema (gd_nodes d) \<and> list_all TaskGraphEdgeSchema (gd_edges d) \<and>
     str_min1 (gd_activeBranch d) \<and> str_min1 (gd_rootTaskId d) \<and> str_min1 (gd_createdAt d)"

definition parseTaskGraph :: "task_graph \<Rightarrow> err + task_graph" where
  "parseTaskGraph g = zod_parse TaskGraphSchema g"

definition parseTaskGraphDelta :: "tg_delta \<Rightarrow> err + tg_delta" where
  "parseTaskGraphDelta d = zod_parse TaskGraphDeltaSchema d"

text \<open>\<open>Array.from(new Set(values.filter(value => value.length > 0)))\<close>.\<close>

definition tg_uniqueStrings :: "str list \<Rightarrow> str list" where
  "tg_uniqueStrings values = uniq (filter str_min1 values)"

section \<open>Creating and growing a graph\<close>

definition createTaskGraph :: "str \<Rightarrow> str option \<Rightarrow> str \<Rightarrow> err + task_graph" where
  "createTaskGraph taskId branch timestamp =
     (let branchId = (case branch of Some b \<Rightarrow> b | None \<Rightarrow> js ''main'');
          rootNode = TgNode (taskId @ js '':root'') taskId RootNode TgPending None branchId branchId [] timestamp timestamp
      in parseTaskGraph \<lparr>tg_graphId = js ''graph:'' @ taskId, tg_rootTaskId = taskId, tg_nodes = [rootNode],
           tg_edges = [], tg_branches = [branchId], tg_activeBranch = branchId,
           tg_createdAt = timestamp, tg_updatedAt = timestamp\<rparr>)"

record tg_node_input =
  ni_nodeId :: str
  ni_taskId :: str
  ni_type :: tg_node_type
  ni_status :: tg_status
  ni_data :: "tg_data option"
  ni_branchId :: "str option"
  ni_originBranchId :: "str option"
  ni_mergedFromBranchIds :: "str list option"

record tg_edge_input =
  gi_sourceNodeId :: str
  gi_targetNodeId :: str
  gi_type :: tg_edge_type
  gi_metadata :: "(str \<times> json) list option"
  gi_branchId :: "str option"
  gi_originBranchId :: "str option"
  gi_mergedFromBranchIds :: "str list option"

text \<open>\<open>applyBranchOwnership\<close>: the branch, the origin and the merge history of a new item.\<close>

definition applyBranchOwnership ::
  "str option \<Rightarrow> str option \<Rightarrow> str list option \<Rightarrow> str \<Rightarrow> str \<times> str \<times> str list" where
  "applyBranchOwnership branch origin merged defaultBranchId =
     (let branchId = (case branch of Some b \<Rightarrow> b | None \<Rightarrow> defaultBranchId)
      in (branchId, (case origin of Some b \<Rightarrow> b | None \<Rightarrow> branchId),
          tg_uniqueStrings (case merged of Some m \<Rightarrow> m | None \<Rightarrow> [])))"

definition addNodeToGraph :: "str \<Rightarrow> task_graph \<Rightarrow> tg_node_input \<Rightarrow> task_graph" where
  "addNodeToGraph now g node =
     (case applyBranchOwnership (ni_branchId node) (ni_originBranchId node) (ni_mergedFromBranchIds node)
        (tg_activeBranch g) of (b, origin, m) \<Rightarrow>
      g\<lparr>tg_nodes := tg_nodes g @ [TgNode (ni_nodeId node) (ni_taskId node) (ni_type node) (ni_status node)
          (ni_data node) b origin m now now], tg_updatedAt := now\<rparr>)"

definition with_status :: "tg_status \<Rightarrow> str \<Rightarrow> tg_node \<Rightarrow> tg_node" where
  "with_status status now n = (case n of TgNode i t ty _ d b origin m c _ \<Rightarrow> TgNode i t ty status d b origin m c now)"

definition updateNodeStatus :: "str \<Rightarrow> task_graph \<Rightarrow> str \<Rightarrow> tg_status \<Rightarrow> task_graph" where
  "updateNodeStatus now g nodeId status =
     (let activeBranchHasNode = list_ex (\<lambda>n. tn_nodeId n = nodeId \<and> tn_branchId n = tg_activeBranch g) (tg_nodes g)
      in g\<lparr>tg_nodes := map (\<lambda>n. if tn_nodeId n = nodeId \<and> (\<not> activeBranchHasNode \<or> tn_branchId n = tg_activeBranch g)
            then with_status status now n else n) (tg_nodes g), tg_updatedAt := now\<rparr>)"

definition addEdgeToGraph :: "str \<Rightarrow> task_graph \<Rightarrow> tg_edge_input \<Rightarrow> task_graph" where
  "addEdgeToGraph now g edge =
     (case applyBranchOwnership (gi_branchId edge) (gi_originBranchId edge) (gi_mergedFromBranchIds edge)
        (tg_activeBranch g) of (b, origin, m) \<Rightarrow>
      g\<lparr>tg_edges := tg_edges g @ [\<lparr>te_edgeId = js ''edge:'' @ gi_sourceNodeId edge @ js ''->'' @
            gi_targetNodeId edge @ js '':'' @ now,
          te_sourceNodeId = gi_sourceNodeId edge, te_targetNodeId = gi_targetNodeId edge, te_type = gi_type edge,
          te_branchId = b, te_originBranchId = origin, te_mergedFromBranchIds = m,
          te_metadata = gi_metadata edge\<rparr>], tg_updatedAt := now\<rparr>)"

definition plain_edge :: "tg_edge_type \<Rightarrow> str \<Rightarrow> str \<Rightarrow> tg_edge_input" where
  "plain_edge type sourceNodeId targetNodeId =
     \<lparr>gi_sourceNodeId = sourceNodeId, gi_targetNodeId = targetNodeId, gi_type = type, gi_metadata = None,
      gi_branchId = None, gi_originBranchId = None, gi_mergedFromBranchIds = None\<rparr>"

definition addDependencyEdge :: "str \<Rightarrow> task_graph \<Rightarrow> str \<Rightarrow> str \<Rightarrow> task_graph" where
  "addDependencyEdge now g sourceNodeId targetNodeId =
     addEdgeToGraph now g (plain_edge DependencyEdge sourceNodeId targetNodeId)"

definition addConflictEdge :: "str \<Rightarrow> task_graph \<Rightarrow> str \<Rightarrow> str \<Rightarrow> task_graph" where
  "addConflictEdge now g sourceNodeId targetNodeId =
     addEdgeToGraph now g (plain_edge ConflictEdge sourceNodeId targetNodeId)"

definition createBranch :: "str \<Rightarrow> task_graph \<Rightarrow> str \<Rightarrow> task_graph" where
  "createBranch now g branchId =
     (if branchId \<in> set (tg_branches g) then g
      else g\<lparr>tg_branches := tg_branches g @ [branchId], tg_activeBranch := branchId, tg_updatedAt := now\<rparr>)"

definition switchBranch :: "str \<Rightarrow> task_graph \<Rightarrow> str \<Rightarrow> task_graph" where
  "switchBranch now g branchId =
     (if branchId \<notin> set (tg_branches g) then g
      else g\<lparr>tg_activeBranch := branchId, tg_updatedAt := now\<rparr>)"

section \<open>Queries and traversal\<close>

definition getNode :: "task_graph \<Rightarrow> str \<Rightarrow> tg_node option" where
  "getNode g nodeId = find (\<lambda>n. tn_nodeId n = nodeId) (tg_nodes g)"

definition getNodesByStatus :: "task_graph \<Rightarrow> tg_status \<Rightarrow> tg_node list" where
  "getNodesByStatus g status = filter (\<lambda>n. tn_status n = status) (tg_nodes g)"

definition getDependencies :: "task_graph \<Rightarrow> str \<Rightarrow> str list" where
  "getDependencies g nodeId =
     map te_sourceNodeId (filter (\<lambda>e. te_targetNodeId e = nodeId \<and> te_type e = DependencyEdge) (tg_edges g))"

definition getConflicts :: "task_graph \<Rightarrow> str \<Rightarrow> str list" where
  "getConflicts g nodeId =
     map te_targetNodeId (filter (\<lambda>e. te_sourceNodeId e = nodeId \<and> te_type e = ConflictEdge) (tg_edges g))"

definition hasConflict :: "task_graph \<Rightarrow> str \<Rightarrow> str \<Rightarrow> bool" where
  "hasConflict g nodeId1 nodeId2 = list_ex (\<lambda>e. te_type e = ConflictEdge \<and>
     (te_sourceNodeId e = nodeId1 \<and> te_targetNodeId e = nodeId2 \<or>
      te_sourceNodeId e = nodeId2 \<and> te_targetNodeId e = nodeId1)) (tg_edges g)"

definition neighbors :: "tg_edge list \<Rightarrow> str \<Rightarrow> str list" where
  "neighbors edges current =
     map te_targetNodeId (filter (\<lambda>e. te_sourceNodeId e = current \<and> te_type e = DependencyEdge) edges)"

lemma neighbors_targets: "set (neighbors es c) \<subseteq> te_targetNodeId ` set es"
  by (auto simp: neighbors_def)

text \<open>The loop of \<open>getReachableNodes\<close>: the visited set in order of insertion, and the queue.\<close>

function reach_loop :: "tg_edge list \<Rightarrow> str list \<Rightarrow> str list \<Rightarrow> str list" where
  "reach_loop edges visited [] = visited"
| "reach_loop edges visited (current # queue) =
     (if current \<in> set visited then reach_loop edges visited queue
      else let visited' = visited @ [current]
           in reach_loop edges visited'
                (queue @ filter (\<lambda>n. n \<notin> set visited') (neighbors edges current)))"
  by pat_completeness auto

termination
proof (relation "measures [\<lambda>(es, vis, q). card ((te_targetNodeId ` set es \<union> set q) - set vis), \<lambda>(es, vis, q). length q]")
  fix es :: "tg_edge list" and vis q :: "str list" and c :: str and vis'
  let ?m = "measures [\<lambda>(es, vis, q). card ((te_targetNodeId ` set es \<union> set q) - set vis), \<lambda>(es, vis, q). length q]"
  let ?T = "te_targetNodeId ` set es"
  assume "c \<in> set vis"
  then have "(?T \<union> set (c # q)) - set vis = (?T \<union> set q) - set vis" by auto
  then show "((es, vis, q), (es, vis, c # q)) \<in> ?m" by simp
next
  fix es :: "tg_edge list" and vis q :: "str list" and c :: str and vis'
  let ?m = "measures [\<lambda>(es, vis, q). card ((te_targetNodeId ` set es \<union> set q) - set vis), \<lambda>(es, vis, q). length q]"
  let ?T = "te_targetNodeId ` set es"
  assume c: "c \<notin> set vis" and v: "vis' = vis @ [c]"
  let ?q = "q @ filter (\<lambda>n. n \<notin> set vis') (neighbors es c)"
  have "(?T \<union> set ?q) - set vis' \<subset> (?T \<union> set (c # q)) - set vis"
    using neighbors_targets [of es c] c v by auto
  then have "card ((?T \<union> set ?q) - set vis') < card ((?T \<union> set (c # q)) - set vis)"
    by (intro psubset_card_mono) auto
  then show "((es, vis', ?q), (es, vis, c # q)) \<in> ?m" by simp
qed simp

definition getReachableNodes :: "task_graph \<Rightarrow> str \<Rightarrow> str list" where
  "getReachableNodes g startNodeId = reach_loop (tg_edges g) [] [startNodeId]"

definition isGraphComplete :: "task_graph \<Rightarrow> bool" where
  "isGraphComplete g = list_all (\<lambda>n. tn_status n = TgCompleted \<or> tn_status n = TgBlocked) (tg_nodes g)"

section \<open>Checkpoints\<close>

definition checkpoint_id :: "str \<Rightarrow> str" where
  "checkpoint_id checkpointId = js ''checkpoint:'' @ checkpointId"

definition createGraphDelta :: "str \<Rightarrow> task_graph \<Rightarrow> str \<Rightarrow> err + tg_delta" where
  "createGraphDelta now g checkpointId =
     parseTaskGraphDelta (TgDelta (tg_graphId g) checkpointId (tg_activeBranch g)
       (filter (\<lambda>n. tn_nodeId n \<noteq> checkpoint_id checkpointId) (tg_nodes g)) (tg_edges g)
       (tg_activeBranch g) (tg_rootTaskId g) now)"

definition applyGraphDelta :: "str \<Rightarrow> task_graph \<Rightarrow> tg_delta \<Rightarrow> task_graph" where
  "applyGraphDelta now g delta =
     (let deltaNodeIds = tn_nodeId ` set (gd_nodes delta);
          checkpointNodes = filter (\<lambda>n. tn_type n = CheckpointNode \<and> tn_nodeId n \<notin> deltaNodeIds) (tg_nodes g)
      in g\<lparr>tg_nodes := gd_nodes delta @ checkpointNodes, tg_edges := gd_edges delta,
           tg_activeBranch := gd_activeBranch delta, tg_updatedAt := now\<rparr>)"

definition with_delta :: "tg_delta \<Rightarrow> tg_node \<Rightarrow> tg_node" where
  "with_delta delta n = (case n of TgNode i t ty st _ b origin m c u \<Rightarrow>
     TgNode i t ty st (Some (TgData (Some (RawDelta delta)) [])) b origin m c u)"

text \<open>The two times are those of \<open>addNodeToGraph\<close> and of \<open>createGraphDelta\<close>.\<close>

definition recordCheckpointNode :: "str \<Rightarrow> str \<Rightarrow> task_graph \<Rightarrow> str \<Rightarrow> err + (task_graph \<times> tg_delta)" where
  "recordCheckpointNode now now' g checkpointId =
     (let checkpointNodeId = checkpoint_id checkpointId;
          checkpointNode = \<lparr>ni_nodeId = checkpointNodeId, ni_taskId = tg_rootTaskId g, ni_type = CheckpointNode,
            ni_status = TgCompleted, ni_data = None, ni_branchId = Some (tg_activeBranch g),
            ni_originBranchId = Some (tg_activeBranch g), ni_mergedFromBranchIds = Some []\<rparr>;
          updated = addNodeToGraph now g checkpointNode
      in bind_res (createGraphDelta now' updated checkpointId) (\<lambda>delta.
         Inr (updated\<lparr>tg_nodes := map (\<lambda>n. if tn_nodeId n = checkpointNodeId then with_delta delta n else n)
                (tg_nodes updated)\<rparr>, delta)))"

definition rollbackToCheckpoint :: "str \<Rightarrow> task_graph \<Rightarrow> str \<Rightarrow> task_graph" where
  "rollbackToCheckpoint now g checkpointId =
     (case getNode g (checkpoint_id checkpointId) of
        None \<Rightarrow> g
      | Some n \<Rightarrow> (case tn_data n of
          Some (TgData (Some (RawDelta raw)) _) \<Rightarrow>
            (case parseTaskGraphDelta raw of Inr delta \<Rightarrow> applyGraphDelta now g delta | Inl _ \<Rightarrow> g)
        | _ \<Rightarrow> g))"

text \<open>\<open>Array.prototype.sort\<close> is stable; \<open>le a b\<close> stands for \<open>a.localeCompare(b) <= 0\<close>.\<close>

fun insert_sorted :: "('a \<Rightarrow> 'a \<Rightarrow> bool) \<Rightarrow> 'a \<Rightarrow> 'a list \<Rightarrow> 'a list" where
  "insert_sorted le x [] = [x]"
| "insert_sorted le x (y # ys) = (if le x y then x # y # ys else y # insert_sorted le x ys)"

definition has_delta :: "tg_node \<Rightarrow> bool" where
  "has_delta n = (case tn_data n of None \<Rightarrow> False
     | Some d \<Rightarrow> (case td_delta d of None \<Rightarrow> False | Some (RawOther JNull) \<Rightarrow> False | Some _ \<Rightarrow> True))"

definition listCheckpoints :: "(str \<Rightarrow> str \<Rightarrow> bool) \<Rightarrow> task_graph \<Rightarrow> str list" where
  "listCheckpoints le g =
     map (\<lambda>n. if startsWith (tn_nodeId n) (js ''checkpoint:'') then drop 11 (tn_nodeId n) else tn_nodeId n)
       (foldr (insert_sorted (\<lambda>a b. le (tn_createdAt a) (tn_createdAt b)))
         (filter (\<lambda>n. tn_type n = CheckpointNode \<and> has_delta n) (tg_nodes g)) [])"

section \<open>Merging branches\<close>

datatype merge_strategy = KeepSource | KeepTarget | UnionMerge

text \<open>
  What \<open>mergeBranchOwnedItems\<close> uses of an item, which is a node or an edge: its key, its branch, the
  branches merged into it, and the copy with another branch and other merged branches.
\<close>

record 'a owned_item =
  ow_key :: "'a \<Rightarrow> str"
  ow_branch :: "'a \<Rightarrow> str"
  ow_merged :: "'a \<Rightarrow> str list"
  ow_retag :: "str \<Rightarrow> str list \<Rightarrow> 'a \<Rightarrow> 'a"

definition groupByKey :: "('a \<Rightarrow> str) \<Rightarrow> 'a list \<Rightarrow> 'a list list" where
  "groupByKey getKey items = map (\<lambda>k. filter (\<lambda>x. getKey x = k) items) (uniq (map getKey items))"

definition markMergedIntoTarget :: "'a owned_item \<Rightarrow> 'a \<Rightarrow> str \<Rightarrow> str \<Rightarrow> str list \<Rightarrow> 'a" where
  "markMergedIntoTarget ops item targetBranchId sourceBranchId extra =
     ow_retag ops targetBranchId (tg_uniqueStrings (ow_merged ops item @ extra @ [sourceBranchId])) item"

definition collectMergedFrom :: "'a owned_item \<Rightarrow> 'a \<Rightarrow> str list" where
  "collectMergedFrom ops item = tg_uniqueStrings (ow_merged ops item)"

definition merge_group ::
  "'a owned_item \<Rightarrow> str \<Rightarrow> str \<Rightarrow> merge_strategy \<Rightarrow> 'a list \<Rightarrow> 'a list" where
  "merge_group ops sourceBranchId targetBranchId strategy grp =
     (let sourceItem = find (\<lambda>x. ow_branch ops x = sourceBranchId) grp;
          targetItem = find (\<lambda>x. ow_branch ops x = targetBranchId) grp;
          unrelated = filter (\<lambda>x. ow_branch ops x \<noteq> sourceBranchId \<and> ow_branch ops x \<noteq> targetBranchId) grp
      in unrelated @ (case (sourceItem, targetItem) of
           (Some s, Some t) \<Rightarrow>
             (if strategy = KeepSource
              then [markMergedIntoTarget ops s targetBranchId sourceBranchId (collectMergedFrom ops t)]
              else [markMergedIntoTarget ops t targetBranchId sourceBranchId (collectMergedFrom ops s)])
         | (Some s, None) \<Rightarrow> [markMergedIntoTarget ops s targetBranchId sourceBranchId []]
         | (None, Some t) \<Rightarrow> [t]
         | (None, None) \<Rightarrow> []))"

definition mergeBranchOwnedItems ::
  "'a owned_item \<Rightarrow> 'a list \<Rightarrow> str \<Rightarrow> str \<Rightarrow> merge_strategy \<Rightarrow> 'a list" where
  "mergeBranchOwnedItems ops items sourceBranchId targetBranchId strategy =
     concat (map (merge_group ops sourceBranchId targetBranchId strategy) (groupByKey (ow_key ops) items))"

definition retag_node :: "str \<Rightarrow> str list \<Rightarrow> tg_node \<Rightarrow> tg_node" where
  "retag_node branch merged n = (case n of TgNode i t ty st d _ origin _ c u \<Rightarrow> TgNode i t ty st d branch origin merged c u)"

definition node_item :: "tg_node owned_item" where
  "node_item = \<lparr>ow_key = tn_nodeId, ow_branch = tn_branchId, ow_merged = tn_mergedFromBranchIds, ow_retag = retag_node\<rparr>"

definition edge_type_name :: "tg_edge_type \<Rightarrow> str" where
  "edge_type_name ty = (case ty of DependencyEdge \<Rightarrow> js ''dependency'' | ConflictEdge \<Rightarrow> js ''conflict''
     | ParentChildEdge \<Rightarrow> js ''parent_child'' | SequentialEdge \<Rightarrow> js ''sequential'')"

definition edgeOwnedKey :: "tg_edge \<Rightarrow> str" where
  "edgeOwnedKey e = te_sourceNodeId e @ js ''->'' @ te_targetNodeId e @ js '':'' @ edge_type_name (te_type e)"

definition edge_item :: "tg_edge owned_item" where
  "edge_item = \<lparr>ow_key = edgeOwnedKey, ow_branch = te_branchId, ow_merged = te_mergedFromBranchIds,
     ow_retag = (\<lambda>b m e. e\<lparr>te_branchId := b, te_mergedFromBranchIds := m\<rparr>)\<rparr>"

definition mergeBranch :: "str \<Rightarrow> task_graph \<Rightarrow> str \<Rightarrow> str \<Rightarrow> merge_strategy \<Rightarrow> task_graph" where
  "mergeBranch now g sourceBranchId targetBranchId strategy =
     (if sourceBranchId \<notin> set (tg_branches g) then g
      else if targetBranchId \<notin> set (tg_branches g) then g
      else if sourceBranchId = targetBranchId then g
      else g\<lparr>tg_nodes := mergeBranchOwnedItems node_item (tg_nodes g) sourceBranchId targetBranchId strategy,
             tg_edges := mergeBranchOwnedItems edge_item (tg_edges g) sourceBranchId targetBranchId strategy,
             tg_activeBranch := targetBranchId, tg_updatedAt := now\<rparr>)"

section \<open>Stores\<close>

type_synonym graph_store = "(str \<times> task_graph) list"

definition recording_save :: "task_graph \<Rightarrow> graph_store \<Rightarrow> graph_store" where
  "recording_save g m = AList.update (tg_graphId g) g m"

definition recording_load :: "graph_store \<Rightarrow> str \<Rightarrow> task_graph option" where
  "recording_load m graphId = map_of m graphId"

definition recording_findByRootTaskId :: "graph_store \<Rightarrow> str \<Rightarrow> task_graph option" where
  "recording_findByRootTaskId m taskId = map_of m (js ''graph:'' @ taskId)"

text \<open>The file store, as a map from file names to the graphs whose JSON they hold.\<close>

definition safe_graph_char :: "cu \<Rightarrow> bool" where
  "safe_graph_char c \<longleftrightarrow> is_lower c \<or> is_upper c \<or> is_digit c \<or> c = 95 \<or> c = 58 \<or> c = 45"

definition getFilePath :: "str \<Rightarrow> str" where
  "getFilePath graphId = map (\<lambda>c. if safe_graph_char c then c else 95) graphId @ js ''.json''"

definition file_save :: "task_graph \<Rightarrow> graph_store \<Rightarrow> graph_store" where
  "file_save g m = AList.update (getFilePath (tg_graphId g)) g m"

definition file_load :: "graph_store \<Rightarrow> str \<Rightarrow> task_graph option" where
  "file_load m graphId = (case map_of m (getFilePath graphId) of None \<Rightarrow> None
     | Some content \<Rightarrow> (case parseTaskGraph content of Inr g \<Rightarrow> Some g | Inl _ \<Rightarrow> None))"

definition file_findByRootTaskId :: "graph_store \<Rightarrow> str \<Rightarrow> task_graph option" where
  "file_findByRootTaskId m taskId = file_load m (js ''graph:'' @ taskId)"

end
