(* ===== verification/TaskGraphProofs.thy ===== *)
theory TaskGraphProofs
  imports TaskGraph
begin

text \<open>
  What the task graph operations guarantee: the traversal computes exactly the reachable nodes, a
  merge leaves one item per key on the target branch, and a rollback restores the graph of the
  checkpoint.
\<close>

section \<open>Traversal\<close>

inductive depends :: "tg_edge list \<Rightarrow> str \<Rightarrow> str \<Rightarrow> bool" for es where
  depends_edge: "e \<in> set es \<Longrightarrow> te_type e = DependencyEdge \<Longrightarrow> depends es (te_sourceNodeId e) (te_targetNodeId e)"

lemma neighbors_depends: "n \<in> set (neighbors es c) \<longleftrightarrow> depends es c n"
  by (auto simp: neighbors_def depends.simps)

lemma reach_loop_visited: "set vis \<union> set q \<subseteq> set (reach_loop es vis q)"
  by (induction es vis q rule: reach_loop.induct) (auto simp: Let_def)

lemma reach_loop_distinct: "distinct vis \<Longrightarrow> distinct (reach_loop es vis q)"
  by (induction es vis q rule: reach_loop.induct) (auto simp: Let_def)

lemma reach_loop_prefix: "prefix vis (reach_loop es vis q)"
  by (induction es vis q rule: reach_loop.induct) (auto simp: Let_def dest: append_prefixD)

lemma reach_loop_sound:
  "\<forall>x \<in> set vis \<union> set q. (depends es)\<^sup>*\<^sup>* s x \<Longrightarrow> x \<in> set (reach_loop es vis q) \<Longrightarrow> (depends es)\<^sup>*\<^sup>* s x"
proof (induction es vis q rule: reach_loop.induct)
  case (2 es vis c q)
  show ?case
  proof (cases "c \<in> set vis")
    case False
    have "\<forall>x \<in> set (vis @ [c]) \<union> set (q @ filter (\<lambda>n. n \<notin> set (vis @ [c])) (neighbors es c)). (depends es)\<^sup>*\<^sup>* s x"
      using 2(3) neighbors_depends [of _ es c] by (auto intro: rtranclp.rtrancl_into_rtrancl)
    with 2 False show ?thesis by (auto simp: Let_def)
  qed (use 2 in auto)
qed auto

lemma reach_loop_closed:
  "\<forall>v \<in> set vis. set (neighbors es v) \<subseteq> set vis \<union> set q \<Longrightarrow> v \<in> set (reach_loop es vis q) \<Longrightarrow>
   set (neighbors es v) \<subseteq> set (reach_loop es vis q)"
proof (induction es vis q rule: reach_loop.induct)
  case (2 es vis c q)
  show ?case
  proof (cases "c \<in> set vis")
    case True
    then have "\<forall>v \<in> set vis. set (neighbors es v) \<subseteq> set vis \<union> set q" using 2(3) by auto
    with 2(1,4) True show ?thesis by simp
  next
    case False
    let ?v = "vis @ [c]" and ?q = "q @ filter (\<lambda>n. n \<notin> set (vis @ [c])) (neighbors es c)"
    have "\<forall>v \<in> set ?v. set (neighbors es v) \<subseteq> set ?v \<union> set ?q" using 2(3) by auto
    with 2 False show ?thesis by (simp add: Let_def)
  qed
qed auto

text \<open>
  The traversal ends and is exact. \<open>getReachableNodes\<close> returns the start node first, every node
  once, and exactly the nodes that a chain of dependency edges leads to.
\<close>

theorem reachable_nodes_exact:
  "set (getReachableNodes g s) = {n. (depends (tg_edges g))\<^sup>*\<^sup>* s n} \<and> distinct (getReachableNodes g s) \<and>
   getReachableNodes g s \<noteq> [] \<and> hd (getReachableNodes g s) = s"
proof -
  let ?r = "reach_loop (tg_edges g) [] [s]"
  have "n \<in> set ?r" if "(depends (tg_edges g))\<^sup>*\<^sup>* s n" for n
    using that
  proof (induction rule: rtranclp_induct)
    case base
    show ?case using reach_loop_visited [of "[]" "[s]"] by auto
  next
    case (step x y)
    then show ?case using reach_loop_closed [of "[]" "tg_edges g" "[s]" x] neighbors_depends [of y "tg_edges g" x] by auto
  qed
  moreover have "(depends (tg_edges g))\<^sup>*\<^sup>* s n" if "n \<in> set ?r" for n
    using reach_loop_sound [of "[]" "[s]" "tg_edges g" s n] that by simp
  ultimately have "set ?r = {n. (depends (tg_edges g))\<^sup>*\<^sup>* s n}" by blast
  moreover have "distinct ?r" by (rule reach_loop_distinct) simp
  moreover have "prefix [s] ?r" using reach_loop_prefix [of "[s]"] by (simp add: Let_def)
  then have "?r \<noteq> [] \<and> hd ?r = s" by (cases ?r) (simp_all del: reach_loop.simps)
  ultimately show ?thesis unfolding getReachableNodes_def by blast
qed

section \<open>Merging\<close>

definition items_at :: "'a owned_item \<Rightarrow> 'a list \<Rightarrow> str \<Rightarrow> str \<Rightarrow> 'a list" where
  "items_at ops xs k b = filter (\<lambda>x. ow_branch ops x = b) (filter (\<lambda>x. ow_key ops x = k) xs)"

text \<open>
  The specification of a merge, key by key: other branches are as before, the source branch is empty,
  and the target branch has one item, the first one of the branch that wins, marked as merged.
\<close>

definition merged_items :: "'a owned_item \<Rightarrow> str \<Rightarrow> str \<Rightarrow> merge_strategy \<Rightarrow> 'a list \<Rightarrow> 'a list \<Rightarrow> bool" where
  "merged_items ops s t strategy xs ys \<longleftrightarrow> (\<forall>k.
     (\<forall>b. b \<noteq> s \<and> b \<noteq> t \<longrightarrow> items_at ops ys k b = items_at ops xs k b) \<and> items_at ops ys k s = [] \<and>
     (if items_at ops xs k s = [] \<and> items_at ops xs k t = [] then items_at ops ys k t = []
      else \<exists>m. items_at ops ys k t = [ow_retag ops t m (hd (items_at ops xs k
             (if items_at ops xs k s \<noteq> [] \<and> (strategy = KeepSource \<or> items_at ops xs k t = []) then s else t)))] \<and>
           (items_at ops xs k s \<noteq> [] \<and> s \<noteq> [] \<longrightarrow> s \<in> set m)))"

lemma find_filter: "find P xs = (case filter P xs of [] \<Rightarrow> None | x # _ \<Rightarrow> Some x)"
  by (induction xs) auto

lemma concat_only:
  "distinct ks \<Longrightarrow> (\<And>k'. k' \<in> set ks \<Longrightarrow> k' \<noteq> k \<Longrightarrow> f k' = []) \<Longrightarrow>
   concat (map f ks) = (if k \<in> set ks then f k else [])"
  by (induction ks) (auto simp: concat_eq_Nil_conv)

locale owned_items =
  fixes ops :: "'a owned_item"
  assumes key_retag: "ow_key ops (ow_retag ops b m x) = ow_key ops x"
    and branch_retag: "ow_branch ops (ow_retag ops b m x) = b"
    and retag_same: "ow_retag ops (ow_branch ops x) (ow_merged ops x) x = x"
begin

lemma merge_group_key:
  "\<forall>x \<in> set grp. ow_key ops x = k \<Longrightarrow> y \<in> set (merge_group ops s t st grp) \<Longrightarrow> ow_key ops y = k"
  by (auto simp: merge_group_def markMergedIntoTarget_def key_retag Let_def find_Some_iff find_Some_iff2
      split: option.splits if_splits)

lemma merge_at_key:
  "filter (\<lambda>x. ow_key ops x = k) (mergeBranchOwnedItems ops xs s t st) =
   merge_group ops s t st (filter (\<lambda>x. ow_key ops x = k) xs)"
proof -
  let ?g = "\<lambda>k'. merge_group ops s t st (filter (\<lambda>x. ow_key ops x = k') xs)"
  let ?f = "\<lambda>k'. filter (\<lambda>x. ow_key ops x = k) (?g k')"
  have key: "ow_key ops y = k'" if "y \<in> set (?g k')" for y k'
    by (rule merge_group_key [OF _ that]) simp
  have "?f k' = []" if "k' \<noteq> k" for k'
    unfolding filter_empty_conv using key that by blast
  then have "concat (map ?f (uniq (map (ow_key ops) xs))) = (if k \<in> ow_key ops ` set xs then ?f k else [])"
    using concat_only [of "uniq (map (ow_key ops) xs)" k ?f] by simp
  moreover have "?f k = ?g k" unfolding filter_id_conv using key by blast
  moreover have "merge_group ops s t st (filter (\<lambda>x. ow_key ops x = k) xs) = []" if "k \<notin> ow_key ops ` set xs"
  proof -
    have "filter (\<lambda>x. ow_key ops x = k) xs = []" using that by (auto simp: filter_empty_conv)
    then show ?thesis by (simp add: merge_group_def)
  qed
  ultimately show ?thesis
    by (simp add: mergeBranchOwnedItems_def groupByKey_def filter_concat comp_def)
qed

lemma at_merge:
  "items_at ops (mergeBranchOwnedItems ops xs s t st) k b =
   filter (\<lambda>x. ow_branch ops x = b) (merge_group ops s t st (filter (\<lambda>x. ow_key ops x = k) xs))"
  by (simp add: items_at_def merge_at_key)

lemma merge_correct:
  assumes "s \<noteq> t"
  shows "merged_items ops s t st xs (mergeBranchOwnedItems ops xs s t st)"
  unfolding merged_items_def
proof (intro allI conjI impI)
  fix k b assume "b \<noteq> s \<and> b \<noteq> t"
  then show "items_at ops (mergeBranchOwnedItems ops xs s t st) k b = items_at ops xs k b"
    unfolding at_merge
    by (auto simp: items_at_def merge_group_def Let_def markMergedIntoTarget_def branch_retag find_Some_iff find_Some_iff2
        intro: filter_cong split: option.splits)
next
  fix k
  show "items_at ops (mergeBranchOwnedItems ops xs s t st) k s = []"
    using assms unfolding at_merge
    by (auto simp: merge_group_def Let_def markMergedIntoTarget_def branch_retag find_Some_iff find_Some_iff2
        filter_empty_conv split: option.splits)
next
  fix k
  let ?g = "filter (\<lambda>x. ow_key ops x = k) xs"
  let ?S = "items_at ops xs k s" and ?T = "items_at ops xs k t"
  have find: "find (\<lambda>x. ow_branch ops x = s) ?g = (case ?S of [] \<Rightarrow> None | x # _ \<Rightarrow> Some x)"
    "find (\<lambda>x. ow_branch ops x = t) ?g = (case ?T of [] \<Rightarrow> None | x # _ \<Rightarrow> Some x)"
    unfolding items_at_def by (rule find_filter)+
  have T: "ow_branch ops x = t" if "?T = x # xs'" for x xs'
    using that unfolding items_at_def by (metis (mono_tags, lifting) filter_eq_ConsD)
  have unrelated: "filter (\<lambda>x. ow_branch ops x = t) (filter (\<lambda>x. ow_branch ops x \<noteq> s \<and> ow_branch ops x \<noteq> t) ?g) = []"
    by (auto simp: filter_empty_conv)
  show "if ?S = [] \<and> ?T = [] then items_at ops (mergeBranchOwnedItems ops xs s t st) k t = []
    else \<exists>m. items_at ops (mergeBranchOwnedItems ops xs s t st) k t = [ow_retag ops t m (hd (items_at ops xs k
             (if ?S \<noteq> [] \<and> (st = KeepSource \<or> ?T = []) then s else t)))] \<and> (?S \<noteq> [] \<and> s \<noteq> [] \<longrightarrow> s \<in> set m)"
  proof (cases ?S)
    case Nil
    show ?thesis
    proof (cases ?T)
      case Nil
      with \<open>?S = []\<close> unrelated show ?thesis unfolding at_merge by (simp add: merge_group_def find)
    next
      case (Cons x xs')
      have "x = ow_retag ops t (ow_merged ops x) x" using retag_same [of x] T [OF Cons] by simp
      with \<open>?S = []\<close> Cons unrelated T [OF Cons] show ?thesis
        unfolding at_merge by (auto simp: merge_group_def find)
    qed
  next
    case (Cons y ys)
    then show ?thesis
      using unrelated unfolding at_merge
      by (cases ?T) (auto simp: merge_group_def find markMergedIntoTarget_def branch_retag tg_uniqueStrings_def)
  qed
qed

end

interpretation nodes: owned_items node_item
  by unfold_locales (auto simp: node_item_def retag_node_def split: tg_node.splits)

interpretation edges: owned_items edge_item
  by unfold_locales (auto simp: edge_item_def edgeOwnedKey_def)

text \<open>
  C12: A merge moves a branch. When both branches exist and differ, the target becomes active and, for
  nodes by id and for edges by key: the source branch has no item left, every other branch keeps its
  items in order, and the target branch has exactly one item for each key that was on either branch,
  which is the source's under \<open>keep_source\<close> (or when the target had none) and the target's
  otherwise, with the source recorded among the branches merged into it. In all other cases the graph
  is returned unchanged.
\<close>

theorem merge_branch_spec:
  "if src \<in> set (tg_branches g) \<and> tgt \<in> set (tg_branches g) \<and> src \<noteq> tgt
   then merged_items node_item src tgt st (tg_nodes g) (tg_nodes (mergeBranch now g src tgt st)) \<and>
     merged_items edge_item src tgt st (tg_edges g) (tg_edges (mergeBranch now g src tgt st)) \<and>
     tg_activeBranch (mergeBranch now g src tgt st) = tgt \<and>
     tg_branches (mergeBranch now g src tgt st) = tg_branches g
   else mergeBranch now g src tgt st = g"
  using nodes.merge_correct edges.merge_correct by (auto simp: mergeBranch_def)

section \<open>Checkpoints and rollback\<close>

datatype tg_op = OpNode tg_node_input | OpStatus str tg_status | OpEdge tg_edge_input | OpBranch str | OpSwitch str
  | OpMerge str str merge_strategy | OpCheckpoint str

fun tg_apply :: "str \<Rightarrow> tg_op \<Rightarrow> task_graph \<Rightarrow> task_graph" where
  "tg_apply now (OpNode n) g = addNodeToGraph now g n"
| "tg_apply now (OpStatus i st) g = updateNodeStatus now g i st"
| "tg_apply now (OpEdge e) g = addEdgeToGraph now g e"
| "tg_apply now (OpBranch b) g = createBranch now g b"
| "tg_apply now (OpSwitch b) g = switchBranch now g b"
| "tg_apply now (OpMerge s t st) g = mergeBranch now g s t st"
| "tg_apply now (OpCheckpoint c) g =
     (case recordCheckpointNode now now g c of Inr (g', _) \<Rightarrow> g' | Inl _ \<Rightarrow> g)"

text \<open>No operation reuses the id of the checkpoint's node.\<close>

fun op_avoids :: "str \<Rightarrow> tg_op \<Rightarrow> bool" where
  "op_avoids c (OpNode n) = (ni_nodeId n \<noteq> checkpoint_id c)"
| "op_avoids c (OpCheckpoint c') = (c' \<noteq> c)"
| "op_avoids c _ = True"

definition holds_delta :: "str \<Rightarrow> tg_delta \<Rightarrow> task_graph \<Rightarrow> bool" where
  "holds_delta c d g \<longleftrightarrow> (\<exists>n. filter (\<lambda>x. tn_nodeId x = checkpoint_id c) (tg_nodes g) = [n] \<and>
     tn_data n = Some (TgData (Some (RawDelta d)) []))"

lemma holds_delta_map:
  assumes "holds_delta c d g" "\<And>n. tn_nodeId (f n) = tn_nodeId n"
    "\<And>n. tn_nodeId n = checkpoint_id c \<Longrightarrow> tn_data (f n) = tn_data n" "tg_nodes g' = map f (tg_nodes g)"
  shows "holds_delta c d g'"
proof -
  from assms(1) obtain n where n: "filter (\<lambda>x. tn_nodeId x = checkpoint_id c) (tg_nodes g) = [n]"
    "tn_data n = Some (TgData (Some (RawDelta d)) [])"
    unfolding holds_delta_def by blast
  have "n \<in> set (filter (\<lambda>x. tn_nodeId x = checkpoint_id c) (tg_nodes g))" unfolding n by simp
  then have "tn_nodeId n = checkpoint_id c" by simp
  then have "filter (\<lambda>x. tn_nodeId x = checkpoint_id c) (map f (tg_nodes g)) = [f n]" "tn_data (f n) = tn_data n"
    using assms(2,3) n(1) by (simp_all add: filter_map comp_def)
  then show ?thesis using n(2) assms(4) unfolding holds_delta_def by auto
qed

lemma holds_delta_add:
  "holds_delta c d g \<Longrightarrow> tg_nodes g' = tg_nodes g @ [x] \<Longrightarrow> tn_nodeId x \<noteq> checkpoint_id c \<Longrightarrow> holds_delta c d g'"
  by (simp add: holds_delta_def)

lemma holds_delta_same: "holds_delta c d g \<Longrightarrow> tg_nodes g' = tg_nodes g \<Longrightarrow> holds_delta c d g'"
  by (simp add: holds_delta_def)

lemma merge_group_single:
  "\<exists>m. merge_group node_item s t st [n] = [m] \<and> tn_data m = tn_data n"
  by (cases n) (auto simp: merge_group_def markMergedIntoTarget_def node_item_def retag_node_def)

lemma holds_delta_merge: "holds_delta c d g \<Longrightarrow> holds_delta c d (mergeBranch now g s t st)"
  unfolding mergeBranch_def holds_delta_def
  using merge_group_single nodes.merge_at_key [of "checkpoint_id c" "tg_nodes g" s t st]
  by (fastforce simp: node_item_def)

lemma addNode_nodes:
  "\<exists>x. tg_nodes (addNodeToGraph now g n) = tg_nodes g @ [x] \<and> tn_nodeId x = ni_nodeId n"
  by (auto simp: addNodeToGraph_def applyBranchOwnership_def Let_def)

lemma with_delta_id [simp]: "tn_nodeId (with_delta d n) = tn_nodeId n"
  by (cases n) (simp add: with_delta_def)

lemma holds_delta_checkpoint:
  assumes "holds_delta c d g" "c' \<noteq> c" "recordCheckpointNode now now' g c' = Inr (g', d')"
  shows "holds_delta c d g'"
proof -
  let ?cp = "\<lparr>ni_nodeId = checkpoint_id c', ni_taskId = tg_rootTaskId g, ni_type = CheckpointNode,
            ni_status = TgCompleted, ni_data = None, ni_branchId = Some (tg_activeBranch g),
            ni_originBranchId = Some (tg_activeBranch g), ni_mergedFromBranchIds = Some []\<rparr>"
  let ?u = "addNodeToGraph now g ?cp"
  have ne: "checkpoint_id c' \<noteq> checkpoint_id c" using assms(2) by (simp add: checkpoint_id_def)
  obtain x where "tg_nodes ?u = tg_nodes g @ [x]" "tn_nodeId x = checkpoint_id c'"
    using addNode_nodes [of now g ?cp] by auto
  then have u: "holds_delta c d ?u" using holds_delta_add [OF assms(1)] ne by simp
  have g': "tg_nodes g' = map (\<lambda>n. if tn_nodeId n = checkpoint_id c' then with_delta d' n else n) (tg_nodes ?u)"
    using assms(3) by (auto simp: recordCheckpointNode_def Let_def bind_res_def split: sum.splits)
  show ?thesis by (rule holds_delta_map [OF u _ _ g']) (use ne in auto)
qed

lemma holds_delta_apply: "holds_delta c d g \<Longrightarrow> op_avoids c op \<Longrightarrow> holds_delta c d (tg_apply now op g)"
proof (cases op)
  case (OpNode n)
  assume "holds_delta c d g" "op_avoids c op"
  with OpNode show ?thesis using addNode_nodes [of now g n] holds_delta_add [of c d g] by fastforce
next
  case (OpStatus i st)
  assume *: "holds_delta c d g"
  have keep: "tn_nodeId (with_status st now n) = tn_nodeId n \<and> tn_data (with_status st now n) = tn_data n" for n
    by (cases n) (simp add: with_status_def)
  show ?thesis unfolding OpStatus tg_apply.simps
    by (rule holds_delta_map [OF *, where f = "\<lambda>n. if tn_nodeId n = i \<and>
      (\<not> list_ex (\<lambda>n. tn_nodeId n = i \<and> tn_branchId n = tg_activeBranch g) (tg_nodes g) \<or>
       tn_branchId n = tg_activeBranch g) then with_status st now n else n"])
      (use keep in \<open>auto simp: updateNodeStatus_def\<close>)
next
  case (OpEdge e)
  assume "holds_delta c d g"
  then show ?thesis unfolding OpEdge tg_apply.simps
    by (rule holds_delta_same) (simp add: addEdgeToGraph_def applyBranchOwnership_def Let_def)
next
  case (OpBranch b)
  assume "holds_delta c d g"
  then show ?thesis unfolding OpBranch tg_apply.simps by (rule holds_delta_same) (simp add: createBranch_def)
next
  case (OpSwitch b)
  assume "holds_delta c d g"
  then show ?thesis unfolding OpSwitch tg_apply.simps by (rule holds_delta_same) (simp add: switchBranch_def)
next
  case (OpMerge s t st)
  assume "holds_delta c d g"
  then show ?thesis unfolding OpMerge tg_apply.simps by (rule holds_delta_merge)
next
  case (OpCheckpoint c')
  assume "holds_delta c d g" "op_avoids c op"
  with OpCheckpoint show ?thesis by (auto intro: holds_delta_checkpoint split: sum.splits)
qed

lemma holds_delta_applies:
  "holds_delta c d g \<Longrightarrow> list_all (\<lambda>(now, op). op_avoids c op) ops \<Longrightarrow>
   holds_delta c d (fold (\<lambda>(now, op). tg_apply now op) ops g)"
  by (induction ops arbitrary: g) (auto intro: holds_delta_apply)

text \<open>What a recorded checkpoint holds, whatever was in the graph.\<close>

lemma checkpoint_delta:
  assumes "recordCheckpointNode now now' g c = Inr (g', d)" "\<forall>n \<in> set (tg_nodes g). tn_nodeId n \<noteq> checkpoint_id c"
  shows "holds_delta c d g'" "gd_nodes d = tg_nodes g" "gd_edges d = tg_edges g" "gd_activeBranch d = tg_activeBranch g"
    "TaskGraphDeltaSchema d"
proof -
  let ?cp = "\<lparr>ni_nodeId = checkpoint_id c, ni_taskId = tg_rootTaskId g, ni_type = CheckpointNode,
            ni_status = TgCompleted, ni_data = None, ni_branchId = Some (tg_activeBranch g),
            ni_originBranchId = Some (tg_activeBranch g), ni_mergedFromBranchIds = Some []\<rparr>"
  let ?u = "addNodeToGraph now g ?cp"
  obtain x where x: "tg_nodes ?u = tg_nodes g @ [x]" "tn_nodeId x = checkpoint_id c"
    using addNode_nodes [of now g ?cp] by auto
  have old: "filter (\<lambda>n. tn_nodeId n \<noteq> checkpoint_id c) (tg_nodes g) = tg_nodes g"
    "filter (\<lambda>n. tn_nodeId n = checkpoint_id c) (tg_nodes g) = []"
    using assms(2) by (auto simp: filter_id_conv filter_empty_conv)
  have edges: "tg_edges ?u = tg_edges g" "tg_activeBranch ?u = tg_activeBranch g"
    by (simp_all add: addNodeToGraph_def applyBranchOwnership_def Let_def)
  have d: "createGraphDelta now' ?u c = Inr d" and
    g': "tg_nodes g' = map (\<lambda>n. if tn_nodeId n = checkpoint_id c then with_delta d n else n) (tg_nodes ?u)"
    using assms(1) by (auto simp: recordCheckpointNode_def Let_def bind_res_def split: sum.splits)
  from d show "gd_nodes d = tg_nodes g" "gd_edges d = tg_edges g" "gd_activeBranch d = tg_activeBranch g"
    "TaskGraphDeltaSchema d"
    by (auto simp: createGraphDelta_def parseTaskGraphDelta_def zod_parse_def x old edges split: if_splits)
  have "tg_nodes g' = tg_nodes g @ [with_delta d x]"
    using assms(2) unfolding g' x by (auto simp: x(2) intro: map_idI)
  moreover have "tn_data (with_delta d x) = Some (TgData (Some (RawDelta d)) [])" by (cases x) (simp add: with_delta_def)
  ultimately show "holds_delta c d g'" by (simp add: holds_delta_def old x)
qed

lemma rollback_restores:
  assumes "holds_delta c d g" "TaskGraphDeltaSchema d"
  shows "rollbackToCheckpoint now g c = applyGraphDelta now g d"
proof -
  from assms(1) obtain n where n: "filter (\<lambda>x. tn_nodeId x = checkpoint_id c) (tg_nodes g) = [n]"
    "tn_data n = Some (TgData (Some (RawDelta d)) [])"
    unfolding holds_delta_def by blast
  then have "getNode g (checkpoint_id c) = Some n" by (simp add: getNode_def find_filter)
  with n assms(2) show ?thesis
    by (simp add: rollbackToCheckpoint_def parseTaskGraphDelta_def zod_parse_def)
qed

text \<open>
  C19: A rollback undoes everything done since the checkpoint. Take a checkpoint under an unused id, then add
  nodes and edges, change statuses, create, switch and merge branches and take other checkpoints, in any order:
  rolling back gives the nodes, edges and active branch of the moment of the checkpoint, followed only
  by checkpoint nodes recorded since. The branches created since stay.
\<close>

theorem rollback_undoes:
  assumes "recordCheckpointNode now now' g c = Inr (g', d)"
    and "\<forall>n \<in> set (tg_nodes g). tn_nodeId n \<noteq> checkpoint_id c"
    and "list_all (\<lambda>(now, op). op_avoids c op) ops"
    and "later = fold (\<lambda>(now, op). tg_apply now op) ops g'"
  shows "\<exists>cps. tg_nodes (rollbackToCheckpoint t later c) = tg_nodes g @ cps \<and> (\<forall>n \<in> set cps. tn_type n = CheckpointNode) \<and>
    tg_edges (rollbackToCheckpoint t later c) = tg_edges g \<and>
    tg_activeBranch (rollbackToCheckpoint t later c) = tg_activeBranch g \<and>
    tg_branches (rollbackToCheckpoint t later c) = tg_branches later"
proof -
  note d = checkpoint_delta [OF assms(1,2)]
  have "rollbackToCheckpoint t later c = applyGraphDelta t later d"
    unfolding assms(4) by (rule rollback_restores [OF holds_delta_applies [OF d(1) assms(3)] d(5)])
  then show ?thesis using d(2-4) by (auto simp: applyGraphDelta_def Let_def)
qed

definition demo_graph :: task_graph where
  "demo_graph = (case createTaskGraph (js ''t'') None (js ''2026-01-01'') of Inr g \<Rightarrow> g)"

definition demo_node :: tg_node_input where
  "demo_node = \<lparr>ni_nodeId = js ''n1'', ni_taskId = js ''t'', ni_type = SubtaskNode, ni_status = TgPending, ni_data = None,
     ni_branchId = None, ni_originBranchId = None, ni_mergedFromBranchIds = None\<rparr>"

definition demo_work :: "(str \<times> tg_op) list" where
  "demo_work = map (Pair (js ''later'')) [OpNode demo_node, OpStatus (js ''t:root'') TgFailed, OpBranch (js ''b''),
     OpEdge (plain_edge DependencyEdge (js ''t:root'') (js ''n1'')), OpCheckpoint (js ''c2''),
     OpMerge (js ''main'') (js ''b'') UnionMerge]"

lemma demo_graph_eval:
  "demo_graph = \<lparr>tg_graphId = js ''graph:t'', tg_rootTaskId = js ''t'',
     tg_nodes = [TgNode (js ''t:root'') (js ''t'') RootNode TgPending None (js ''main'') (js ''main'') [] (js ''2026-01-01'') (js ''2026-01-01'')],
     tg_edges = [], tg_branches = [js ''main''], tg_activeBranch = js ''main'',
     tg_createdAt = js ''2026-01-01'', tg_updatedAt = js ''2026-01-01''\<rparr>"
  by code_simp

lemma rollback_undoes_witness:
  "\<exists>g' d. recordCheckpointNode (js ''t1'') (js ''t1'') demo_graph (js ''c'') = Inr (g', d) \<and>
     tg_edges (rollbackToCheckpoint (js ''t2'') (fold (\<lambda>(now, op). tg_apply now op) demo_work g') (js ''c'')) = []"
proof -
  obtain g' d where r: "recordCheckpointNode (js ''t1'') (js ''t1'') demo_graph (js ''c'') = Inr (g', d)"
  proof -
    have "isl (recordCheckpointNode (js ''t1'') (js ''t1'') demo_graph (js ''c'')) = False" by code_simp
    then show ?thesis using that by (cases "recordCheckpointNode (js ''t1'') (js ''t1'') demo_graph (js ''c'')") auto
  qed
  have "\<forall>n \<in> set (tg_nodes demo_graph). tn_nodeId n \<noteq> checkpoint_id (js ''c'')" by code_simp
  moreover have "list_all (\<lambda>(now, op). op_avoids (js ''c'') op) demo_work" by code_simp
  moreover have "tg_edges demo_graph = []" by (simp add: demo_graph_eval)
  ultimately show ?thesis using r rollback_undoes [OF r _ _ refl, of demo_work] by metis
qed

section \<open>Stores\<close>

text \<open>
  A saved graph comes back. After \<open>save\<close> the file store loads exactly the graph under its id, and every
  graph whose file has another name is as before.
\<close>

theorem graph_file_roundtrip:
  assumes "TaskGraphSchema g"
  shows "file_load (file_save g m) (tg_graphId g) = Some g \<and>
    (\<forall>i. getFilePath i \<noteq> getFilePath (tg_graphId g) \<longrightarrow> file_load (file_save g m) i = file_load m i)"
  using assms by (simp add: file_load_def file_save_def parseTaskGraph_def zod_parse_def update_conv')

lemma graph_file_roundtrip_witness: "file_load (file_save demo_graph []) (js ''graph:t'') = Some demo_graph"
proof -
  have "TaskGraphSchema demo_graph" by code_simp
  moreover have "tg_graphId demo_graph = js ''graph:t''" by (simp add: demo_graph_eval)
  ultimately show ?thesis using graph_file_roundtrip [of demo_graph "[]"] by simp
qed

text \<open>
  Two graphs can share a file. \<open>getFilePath\<close> replaces every character outside its safe set by an
  underscore and \<open>load\<close> does not compare the id: after saving the graph of task \<open>a/b\<close> and then that of task
  \<open>a_b\<close>, the first id loads the second graph, and the first graph is lost. The recording store keeps both.
\<close>

theorem graph_files_collide:
  "\<exists>g1 g2. createTaskGraph (js ''a/b'') None (js ''now'') = Inr g1 \<and> createTaskGraph (js ''a_b'') None (js ''now'') = Inr g2 \<and>
     g1 \<noteq> g2 \<and> file_load (file_save g2 (file_save g1 [])) (tg_graphId g1) = Some g2 \<and>
     recording_load (recording_save g2 (recording_save g1 [])) (tg_graphId g1) = Some g1"
proof -
  let ?a = "createTaskGraph (js ''a/b'') None (js ''now'')" and ?b = "createTaskGraph (js ''a_b'') None (js ''now'')"
  have "\<not> isl ?a" "\<not> isl ?b" by code_simp+
  then obtain g1 g2 where g: "?a = Inr g1" "?b = Inr g2" by (cases ?a; cases ?b) auto
  have "tg_graphId (projr ?a) = js ''graph:a/b''" "tg_graphId (projr ?b) = js ''graph:a_b''"
    "TaskGraphSchema (projr ?b)" "getFilePath (js ''graph:a/b'') = getFilePath (js ''graph:a_b'')"
    by code_simp+
  then have "g1 \<noteq> g2 \<and> file_load (file_save g2 (file_save g1 [])) (tg_graphId g1) = Some g2 \<and>
    recording_load (recording_save g2 (recording_save g1 [])) (tg_graphId g1) = Some g1"
    unfolding g by (auto simp: file_load_def file_save_def parseTaskGraph_def zod_parse_def recording_load_def
        recording_save_def update_conv')
  with g show ?thesis by blast
qed

text \<open>
  The key of an edge is not injective: ids that contain \<open>->\<close> give two different edges one key, and a merge
  keeps only one of them.
\<close>

lemma edge_keys_collide:
  "\<exists>e1 e2. te_sourceNodeId e1 \<noteq> te_sourceNodeId e2 \<and> te_branchId e1 = js ''s'' \<and> te_branchId e2 = js ''t'' \<and>
     length (mergeBranchOwnedItems edge_item [e1, e2] (js ''s'') (js ''t'') UnionMerge) = 1"
proof -
  let ?e = "\<lambda>a b br. \<lparr>te_edgeId = js ''e'', te_sourceNodeId = js a, te_targetNodeId = js b, te_type = DependencyEdge,
    te_branchId = js br, te_originBranchId = js br, te_mergedFromBranchIds = [], te_metadata = None\<rparr>"
  have "te_sourceNodeId (?e ''a->b'' ''c'' ''s'') \<noteq> te_sourceNodeId (?e ''a'' ''b->c'' ''t'') \<and>
    length (mergeBranchOwnedItems edge_item [?e ''a->b'' ''c'' ''s'', ?e ''a'' ''b->c'' ''t''] (js ''s'') (js ''t'') UnionMerge) = 1"
    by code_simp
  then show ?thesis by (intro exI [of _ "?e ''a->b'' ''c'' ''s''"] exI [of _ "?e ''a'' ''b->c'' ''t''"]) simp
qed

end
