(* ===== verification/JsonText.thy ===== *)
theory JsonText
  imports Canonical
begin

text \<open>
  \<open>JSON.parse\<close> as the ECMAScript standard defines it, for documents whose numbers are integers: a number with
  a fraction or an exponent is not read. The text is read left to right, a function returns
  the value and the rest of the text. The main results are that the canonical text of an object
  parses back to that object with its keys sorted, and so that canonical texts, which the kernel hashes,
  are equal exactly for objects that differ only in the order of keys.
\<close>

section \<open>Reading\<close>

definition json_space :: "cu \<Rightarrow> bool" where
  "json_space c \<longleftrightarrow> c = 9 \<or> c = 10 \<or> c = 13 \<or> c = 32"

abbreviation skip_space :: "str \<Rightarrow> str" where
  "skip_space s \<equiv> dropWhile json_space s"

definition unhex :: "cu \<Rightarrow> nat option" where
  "unhex c = (if is_digit c then Some (unat c - 48) else if 97 \<le> c \<and> c \<le> 102 then Some (unat c - 87)
     else if 65 \<le> c \<and> c \<le> 70 then Some (unat c - 55) else None)"

definition unhex4 :: "str \<Rightarrow> (cu \<times> str) option" where
  "unhex4 s = (case s of
     a # b # c # d # r \<Rightarrow> (case (unhex a, unhex b, unhex c, unhex d) of
         (Some i, Some j, Some k, Some l) \<Rightarrow> Some (of_nat (4096 * i + 256 * j + 16 * k + l), r)
       | _ \<Rightarrow> None)
   | _ \<Rightarrow> None)"

text \<open>One character of a string literal, after the opening quote.\<close>

definition json_char :: "str \<Rightarrow> (cu \<times> str) option" where
  "json_char s = (case s of [] \<Rightarrow> None | c # r \<Rightarrow>
     if c = BACKSLASH then (case r of [] \<Rightarrow> None | e # r' \<Rightarrow>
       if e = 34 \<or> e = BACKSLASH \<or> e = SLASH then Some (e, r')
       else if e = 98 then Some (8, r') else if e = 102 then Some (12, r') else if e = 110 then Some (10, r')
       else if e = 114 then Some (13, r') else if e = 116 then Some (9, r')
       else if e = 117 then unhex4 r' else None)
     else if c = 34 \<or> c < 32 then None else Some (c, r))"

lemma json_char_length: "json_char s = Some (c, r) \<Longrightarrow> length r < length s"
  by (auto simp: json_char_def unhex4_def split: list.splits if_splits option.splits)

function json_chars :: "str \<Rightarrow> (str \<times> str) option" where
  "json_chars s = (if s \<noteq> [] \<and> hd s = 34 then Some ([], tl s)
     else (case json_char s of None \<Rightarrow> None | Some (c, r) \<Rightarrow>
       (case json_chars r of None \<Rightarrow> None | Some (t, r') \<Rightarrow> Some (c # t, r'))))"
  by pat_completeness auto
termination by (relation "measure length") (auto dest: json_char_length)

declare json_chars.simps [simp del]

lemma json_chars_length: "json_chars s = Some (t, r) \<Longrightarrow> length r < length s"
proof (induction s arbitrary: t rule: json_chars.induct)
  case (1 s)
  show ?case
  proof (cases "s \<noteq> [] \<and> hd s = 34")
    case True
    then have "json_chars s = Some ([], tl s)" by (subst json_chars.simps) simp
    with 1(2) True show ?thesis by (cases s) simp_all
  next
    case False
    with 1(2) obtain c q t' where q: "json_char s = Some (c, q)" "json_chars q = Some (t', r)"
      by (auto simp: json_chars.simps [of s] split: option.splits)
    with 1(1) [OF False q(1) refl, of t'] json_char_length [OF q(1)] show ?thesis by simp
  qed
qed

definition json_number :: "str \<Rightarrow> (json \<times> str) option" where
  "json_number s = (let neg = (s \<noteq> [] \<and> hd s = 45); t = (if neg then tl s else s);
       ds = takeWhile is_digit t; r = dropWhile is_digit t
     in if ds = [] \<or> hd ds = 48 \<and> tl ds \<noteq> [] then None
        else if r \<noteq> [] \<and> (hd r = DOT \<or> hd r = 101 \<or> hd r = 69) then None
        else Some (JNum (if neg then - int (undec ds) else int (undec ds)), r))"

lemma json_number_length:
  assumes "json_number s = Some (v, r)" shows "length r < length s"
proof -
  let ?t = "if s \<noteq> [] \<and> hd s = 45 then tl s else s"
  have "takeWhile is_digit ?t \<noteq> []" "r = dropWhile is_digit ?t"
    using assms by (auto simp: json_number_def Let_def split: if_splits)
  then have "length r < length ?t"
    by (metis length_append length_greater_0_conv less_add_same_cancel2 takeWhile_dropWhile_id)
  then show ?thesis by (cases s) (auto split: if_splits)
qed

text \<open>\<open>null\<close>, \<open>true\<close>, \<open>false\<close> and numbers.\<close>

definition json_literal :: "str \<Rightarrow> (json \<times> str) option" where
  "json_literal s = (if startsWith s (js ''null'') then Some (JNull, drop 4 s)
     else if startsWith s (js ''true'') then Some (JBool True, drop 4 s)
     else if startsWith s (js ''false'') then Some (JBool False, drop 5 s)
     else json_number s)"

lemma json_literal_length: "json_literal s = Some (v, r) \<Longrightarrow> length r < length s"
  by (auto simp: json_literal_def startsWith_def prefix_def js_def dest: json_number_length split: if_splits)

text \<open>A repeated key keeps its first place and takes the last value.\<close>

definition json_object :: "(str \<times> json) list \<Rightarrow> json" where
  "json_object kvs = JObj (foldl (\<lambda>m (k, v). AList.update k v m) [] kvs)"

text \<open>Values, the elements after \<open>[\<close> and the members after \<open>{\<close>; the number is the fuel.\<close>

fun json_value :: "nat \<Rightarrow> str \<Rightarrow> (json \<times> str) option"
  and json_elems :: "nat \<Rightarrow> str \<Rightarrow> (json list \<times> str) option"
  and json_members :: "nat \<Rightarrow> str \<Rightarrow> ((str \<times> json) list \<times> str) option" where
  "json_value 0 s = None"
| "json_value (Suc n) s = (case skip_space s of [] \<Rightarrow> None | c # r \<Rightarrow>
     if c = 34 then (case json_chars r of None \<Rightarrow> None | Some (t, r') \<Rightarrow> Some (JStr t, r'))
     else if c = 91 then (case skip_space r of [] \<Rightarrow> None | d # r' \<Rightarrow>
       if d = 93 then Some (JArr [], r')
       else (case json_elems n r of None \<Rightarrow> None | Some (xs, q) \<Rightarrow> Some (JArr xs, q)))
     else if c = 123 then (case skip_space r of [] \<Rightarrow> None | d # r' \<Rightarrow>
       if d = 125 then Some (JObj [], r')
       else (case json_members n r of None \<Rightarrow> None | Some (kvs, q) \<Rightarrow> Some (json_object kvs, q)))
     else json_literal (c # r))"
| "json_elems 0 s = None"
| "json_elems (Suc n) s = (case json_value n s of None \<Rightarrow> None | Some (v, r) \<Rightarrow>
     (case skip_space r of [] \<Rightarrow> None | d # r' \<Rightarrow>
       if d = 93 then Some ([v], r')
       else if d = 44 then (case json_elems n r' of None \<Rightarrow> None | Some (vs, q) \<Rightarrow> Some (v # vs, q))
       else None))"
| "json_members 0 s = None"
| "json_members (Suc n) s = (case skip_space s of [] \<Rightarrow> None | c # s' \<Rightarrow>
     if c \<noteq> 34 then None else (case json_chars s' of None \<Rightarrow> None | Some (k, r) \<Rightarrow>
     (case skip_space r of [] \<Rightarrow> None | d # r' \<Rightarrow>
     if d \<noteq> COLON then None else (case json_value n r' of None \<Rightarrow> None | Some (v, q) \<Rightarrow>
     (case skip_space q of [] \<Rightarrow> None | e # q' \<Rightarrow>
       if e = 125 then Some ([(k, v)], q')
       else if e = 44 then (case json_members n q' of None \<Rightarrow> None | Some (kvs, p) \<Rightarrow> Some ((k, v) # kvs, p))
       else None)))))"

text \<open>Each nested value costs two units of fuel and at least one character.\<close>

definition json_fuel :: "str \<Rightarrow> nat" where
  "json_fuel s = 2 * length s + 2"

definition json_parse :: "str \<Rightarrow> json option" where
  "json_parse s = (case json_value (json_fuel s) s of None \<Rightarrow> None
     | Some (v, r) \<Rightarrow> if skip_space r = [] then Some v else None)"

section \<open>The fuel is enough\<close>

lemma skip_space_length: "skip_space s = c # r \<Longrightarrow> length r < length s"
  using length_dropWhile_le [of json_space s] by simp

lemma json_rest_shorter:
  "json_value n s = Some (v, r) \<Longrightarrow> length r < length s"
  "json_elems n s = Some (vs, r) \<Longrightarrow> length r < length s"
  "json_members n s = Some (kvs, r) \<Longrightarrow> length r < length s"
proof (induction n s and n s and n s arbitrary: v r and vs r and kvs r
    rule: json_value_json_elems_json_members.induct)
  case (2 n s)
  show ?case
  proof (cases "skip_space s")
    case (Cons c q)
    note le = skip_space_length [OF Cons]
    have lit: "json_literal (c # q) = Some (v, r) \<Longrightarrow> length r < length s"
      using json_literal_length [of "c # q" v r] Cons length_dropWhile_le [of json_space s] by auto
    consider "c = 34" | "c = 91" | "c = 123" | "c \<noteq> 34 \<and> c \<noteq> 91 \<and> c \<noteq> 123" by blast
    then show ?thesis
    proof cases
      case 1
      with 2(3) Cons le show ?thesis by (auto dest: json_chars_length split: option.splits)
    next
      case b: 2
      with 2(3) Cons obtain d q' where d: "skip_space q = d # q'" by (auto split: list.splits)
      with 2 b Cons le skip_space_length [OF d] show ?thesis by (force split: option.splits if_splits)
    next
      case b: 3
      with 2(3) Cons obtain d q' where d: "skip_space q = d # q'" by (auto split: list.splits)
      with 2 b Cons le skip_space_length [OF d] show ?thesis by (force split: option.splits if_splits)
    next
      case 4
      with 2(3) Cons lit show ?thesis by simp
    qed
  next
    case Nil
    with 2(3) show ?thesis by (simp del: dropWhile_eq_Nil_conv)
  qed
next
  case (4 n s)
  then obtain v q where v: "json_value n s = Some (v, q)" by (auto split: option.splits)
  note q = 4(1) [OF v]
  then obtain d q' where d: "skip_space q = d # q'" using 4(3) v by (auto split: list.splits)
  from skip_space_length [OF d] q 4 v d show ?case by (force split: if_splits option.splits)
next
  case (6 n s)
  then obtain s' where s': "skip_space s = 34 # s'" by (auto split: list.splits if_splits)
  then obtain k q where k: "json_chars s' = Some (k, q)" using 6(3) by (auto split: option.splits)
  then obtain q' where q': "skip_space q = COLON # q'" using 6(3) s' by (auto split: list.splits if_splits)
  then obtain v p where v: "json_value n q' = Some (v, p)" using 6(3) s' k by (auto split: option.splits)
  then obtain e p' where p': "skip_space p = e # p'" using 6(3) s' k q' by (auto split: list.splits)
  have "length p < length q'" by (rule 6(1) [OF s' _ k refl q' _ v]) simp_all
  then have le: "length p' < length s"
    using skip_space_length [OF s'] json_chars_length [OF k] skip_space_length [OF q'] skip_space_length [OF p'] by simp
  show ?case
  proof (cases "e = 125")
    case True
    with 6(3) s' k q' v p' le show ?thesis by simp
  next
    case False
    with 6(3) s' k q' v p' obtain kvs' where m: "e = 44" "json_members n p' = Some (kvs', r)"
      by (auto split: option.splits if_splits)
    have "length r < length p'" by (rule 6(2) [OF s' _ k refl q' _ v refl p' False m]) simp_all
    with le show ?thesis by simp
  qed
qed simp_all

text \<open>More fuel than \<open>json_fuel\<close> gives the same answer, so the parser never stops for lack of it.\<close>

lemma json_value_enough:
  "2 * length s < n \<Longrightarrow> 2 * length s < m \<Longrightarrow> json_value n s = json_value m s"
  "2 * length s + 1 < n \<Longrightarrow> 2 * length s + 1 < m \<Longrightarrow> json_elems n s = json_elems m s"
  "2 * length s + 1 < n \<Longrightarrow> 2 * length s + 1 < m \<Longrightarrow> json_members n s = json_members m s"
proof (induction n s and n s and n s arbitrary: m and m and m rule: json_value_json_elems_json_members.induct)
  case (2 n s)
  from 2(4) obtain m' where m: "m = Suc m'" by (cases m) auto
  show ?case
  proof (cases "skip_space s")
    case (Cons c r)
    note le = skip_space_length [OF Cons]
    have "json_elems n r = json_elems m' r" if "c = 91" "skip_space r = d # r'" "d \<noteq> 93" for d r'
      by (rule 2(1) [OF Cons _ that]) (use that le 2(3,4) m in simp_all)
    moreover have "json_members n r = json_members m' r" if "c = 123" "skip_space r = d # r'" "d \<noteq> 125" for d r'
      by (rule 2(2) [OF Cons _ _ that]) (use that le 2(3,4) m in simp_all)
    ultimately show ?thesis using Cons unfolding m by (cases "skip_space r") (simp_all del: dropWhile_eq_Nil_conv)
  next
    case Nil
    with m show ?thesis by (simp del: dropWhile_eq_Nil_conv)
  qed
next
  case (4 n s)
  from 4(4) obtain m' where m: "m = Suc m'" by (cases m) auto
  have v: "json_value n s = json_value m' s" by (rule 4(1)) (use 4(3,4) m in simp_all)
  show ?case
  proof (cases "json_value n s")
    case (Some vr)
    obtain v r where vr: "vr = (v, r)" by (cases vr)
    note le = json_rest_shorter(1) [OF Some [unfolded vr]]
    have "json_elems n r' = json_elems m' r'" if "skip_space r = 44 # r'" for r'
      by (rule 4(2) [OF Some [unfolded vr] refl that]) (use skip_space_length [OF that] le 4(3,4) m in simp_all)
    then show ?thesis using Some vr v unfolding m by (cases "skip_space r") (simp_all del: dropWhile_eq_Nil_conv)
  qed (use m v in simp)
next
  case (6 n s)
  from 6(4) obtain m' where m: "m = Suc m'" by (cases m) auto
  show ?case
  proof (cases "\<exists>s' k r r'. skip_space s = 34 # s' \<and> json_chars s' = Some (k, r) \<and> skip_space r = COLON # r'")
    case True
    then obtain s' k r r' where s': "skip_space s = 34 # s'" and k: "json_chars s' = Some (k, r)"
      and r': "skip_space r = COLON # r'" by blast
    have le: "length r' < length s"
      using skip_space_length [OF s'] json_chars_length [OF k] skip_space_length [OF r'] by simp
    have v: "json_value n r' = json_value m' r'"
      by (rule 6(1) [OF s' _ k refl r']) (use le 6(3,4) m in simp_all)
    show ?thesis
    proof (cases "json_value n r'")
      case (Some vq)
      obtain w q where w: "vq = (w, q)" by (cases vq)
      have "json_members n q' = json_members m' q'" if "skip_space q = 44 # q'" for q'
        by (rule 6(2) [OF s' _ k refl r' _ Some w [symmetric] that])
          (use le json_rest_shorter(1) [OF Some [unfolded w]] skip_space_length [OF that] 6(3,4) m in simp_all)
      then show ?thesis using Some w v s' k r' unfolding m by (cases "skip_space q") (simp_all del: dropWhile_eq_Nil_conv)
    qed (use s' k r' v m in simp)
  next
    case False
    show ?thesis
    proof (cases "skip_space s")
      case (Cons c s')
      show ?thesis
      proof (cases "c = 34 \<and> json_chars s' \<noteq> None")
        case True
        then obtain k r where k: "json_chars s' = Some (k, r)" by auto
        show ?thesis using False Cons True k unfolding m
          by (cases "skip_space r") (auto simp del: dropWhile_eq_Nil_conv)
      qed (use Cons m in \<open>cases "json_chars s'"; auto\<close>)
    qed (use m in \<open>simp del: dropWhile_eq_Nil_conv\<close>)
  qed
qed simp_all

lemma json_parse_fuel:
  "json_fuel s \<le> n \<Longrightarrow> json_value n s = json_value (json_fuel s) s"
  by (rule json_value_enough) (simp_all add: json_fuel_def)

section \<open>Parsing what was printed\<close>

lemma unhex_digit: "n < 16 \<Longrightarrow> unhex (hex_digit n) = Some n"
proof -
  assume "n < 16"
  then have "n \<in> {0..<16}" by simp
  also have "{0..<16} = set [0..<16]" by simp
  finally have n: "n \<in> set [0..<16]" .
  have "\<forall>n \<in> set [0..<16]. unhex (hex_digit n) = Some n" by code_simp
  with n show ?thesis by blast
qed

lemma unhex4_hex4 [simp]: "unhex4 (hex4 c @ r) = Some (c, r)"
proof -
  let ?n = "unat c"
  have n: "?n < 65536" using unsigned_less [of c, where 'a = nat] by simp
  then have "?n div 4096 < 16" by simp
  moreover have "?n = 4096 * (?n div 4096) + 256 * (?n div 256 mod 16) + 16 * (?n div 16 mod 16) + ?n mod 16"
  proof -
    have q: "?n div 256 = ?n div 16 div 16" "?n div 4096 = ?n div 256 div 16" by (simp_all add: div_mult2_eq [symmetric])
    have "?n = 16 * (?n div 16) + ?n mod 16" "?n div 16 = 16 * (?n div 256) + ?n div 16 mod 16"
      "?n div 256 = 16 * (?n div 4096) + ?n div 256 mod 16"
      unfolding q by (simp_all only: mult_div_mod_eq)
    then show ?thesis by linarith
  qed
  ultimately show ?thesis
    by (simp add: unhex4_def hex4_def Let_def unhex_digit del: of_nat_add of_nat_mult)
qed

lemma json_char_escape: "json_char (json_escape c @ r) = Some (c, r)"
  by (auto simp: json_char_def json_escape_def hex4_def Let_def unhex4_hex4 [unfolded hex4_def Let_def, simplified])

lemma json_char_plain: "high_surrogate c \<or> low_surrogate c \<Longrightarrow> json_char (c # r) = Some (c, r)"
  by (auto simp: json_char_def high_surrogate_def low_surrogate_def word_le_nat_alt word_less_nat_alt)

lemma json_escape_hd: "json_escape c \<noteq> [] \<and> hd (json_escape c) \<noteq> 34"
  by (auto simp: json_escape_def)

lemma json_chars_step:
  "json_char s = Some (c, r) \<Longrightarrow> s \<noteq> [] \<Longrightarrow> hd s \<noteq> 34 \<Longrightarrow> json_chars r = Some (t, q) \<Longrightarrow> json_chars s = Some (c # t, q)"
  by (subst json_chars.simps) simp

lemma json_chars_escape:
  "json_chars r = Some (t, q) \<Longrightarrow> json_chars (json_escape c @ r) = Some (c # t, q)"
  by (rule json_chars_step [OF json_char_escape]) (use json_escape_hd [of c] in auto)

lemma json_chars_body: "json_chars (json_body s @ 34 # r) = Some (s, r)"
proof (induction s rule: json_body.induct)
  case 1
  show ?case by (subst json_chars.simps) simp
next
  case (2 c)
  have "json_chars (34 # r) = Some ([], r)" by (subst json_chars.simps) simp
  then show ?case by (simp add: json_chars_escape)
next
  case (3 c d cs)
  show ?case
  proof (cases "high_surrogate c \<and> low_surrogate d")
    case True
    have plain: "hd (x # y) \<noteq> (34 :: cu)" if "high_surrogate x \<or> low_surrogate x" for x y
      using that by (auto simp: high_surrogate_def low_surrogate_def)
    have "json_chars (d # json_body cs @ 34 # r) = Some (d # cs, r)"
      by (rule json_chars_step [OF json_char_plain]) (use True plain 3(1) in auto)
    then have "json_chars (c # d # json_body cs @ 34 # r) = Some (c # d # cs, r)"
      by (rule json_chars_step [OF json_char_plain, rotated -1]) (use True plain in auto)
    with True show ?thesis by simp
  next
    case False
    with 3 show ?thesis by (auto intro: json_chars_escape)
  qed
qed

lemma dec_nat_hd: "dec_nat n \<noteq> [] \<and> is_digit (hd (dec_nat n)) \<and> (hd (dec_nat n) = 48 \<longrightarrow> tl (dec_nat n) = [])"
proof -
  have "hd (dec_nat n) = 48 \<Longrightarrow> n = 0" and ne: "dec_nat n \<noteq> []"
  proof (induction n rule: dec_nat.induct)
    case (1 n)
    { case 1
      show ?case
      proof (cases "n < 10")
        case True
        with 1 have "unat (of_nat (48 + n) :: cu) = 48" by (simp add: dec_nat.simps [of n])
        with unat_digit [OF True] show ?thesis by simp
      next
        case False
        with 1 \<open>\<not> n < 10 \<Longrightarrow> dec_nat (n div 10) \<noteq> []\<close> have "hd (dec_nat (n div 10)) = 48"
          by (simp add: dec_nat.simps [of n])
        with 1(1) False have "n div 10 = 0" using "1.IH" by blast
        with False show ?thesis by simp
      qed
    next
      case 2
      show ?case by (simp add: dec_nat.simps [of n])
    }
  qed
  moreover have "dec_nat 0 = [48]" by (simp add: dec_nat.simps [of 0])
  ultimately show ?thesis using dec_nat_digits [of "hd (dec_nat n)" n] by (metis hd_in_set list.sel(3))
qed

text \<open>What may follow a value: not a character that would continue a number.\<close>

definition ends_number :: "str \<Rightarrow> bool" where
  "ends_number r \<longleftrightarrow> (r = [] \<or> \<not> is_digit (hd r) \<and> hd r \<noteq> DOT \<and> hd r \<noteq> 101 \<and> hd r \<noteq> 69)"

lemma json_number_int:
  assumes "ends_number r" shows "json_number (dec_int n @ r) = Some (JNum n, r)"
proof -
  have run: "takeWhile is_digit (dec_nat k @ r) = dec_nat k" "dropWhile is_digit (dec_nat k @ r) = r" for k
  proof -
    have "\<forall>c \<in> set (dec_nat k). is_digit c" using dec_nat_digits by blast
    moreover have "takeWhile is_digit r = []" "dropWhile is_digit r = r"
      using assms by (cases r; simp add: ends_number_def)+
    ultimately show "takeWhile is_digit (dec_nat k @ r) = dec_nat k" "dropWhile is_digit (dec_nat k @ r) = r"
      by (simp_all add: takeWhile_append dropWhile_append)
  qed
  have d: "dec_nat k \<noteq> []" "\<not> (hd (dec_nat k) = 48 \<and> tl (dec_nat k) \<noteq> [])" "hd (dec_nat k) \<noteq> 45" for k
    using dec_nat_hd [of k] by (auto simp: is_digit_def)
  have ok: "\<not> (r \<noteq> [] \<and> (hd r = DOT \<or> hd r = 101 \<or> hd r = 69))" using assms by (auto simp: ends_number_def)
  show ?thesis
  proof (cases "n < 0")
    case True
    then have "dec_int n @ r = 45 # dec_nat (nat (- n)) @ r" by (simp add: dec_int_def js_def)
    with True d ok show ?thesis by (simp add: json_number_def Let_def run del: undec.simps)
  next
    case False
    then have "dec_int n @ r = dec_nat (nat n) @ r" by (simp add: dec_int_def)
    with False d ok show ?thesis by (simp add: json_number_def Let_def run hd_append del: undec.simps)
  qed
qed

lemma dec_int_hd: "\<exists>c t. dec_int n = c # t \<and> (is_digit c \<or> c = 45)"
  using dec_nat_hd [of "nat n"] by (cases "dec_nat (nat n)") (auto simp: dec_int_def js_def)

fun keys_distinct :: "json \<Rightarrow> bool" where
  "keys_distinct (JArr xs) = list_all keys_distinct xs"
| "keys_distinct (JObj kvs) = (distinct (map fst kvs) \<and> list_all (\<lambda>(k, v). keys_distinct v) kvs)"
| "keys_distinct _ = True"

fun sorted_json :: "json \<Rightarrow> json" where
  "sorted_json (JArr xs) = JArr (map sorted_json xs)"
| "sorted_json (JObj kvs) = JObj (sort_key fst (map (\<lambda>(k, v). (k, sorted_json v)) kvs))"
| "sorted_json v = v"

lemma skip_space_hd: "\<not> json_space c \<Longrightarrow> skip_space (c # t) = c # t"
  by simp

lemma insort_key_map: "insort_key fst (k, f v) (map (\<lambda>(k, v). (k, f v)) kvs) = map (\<lambda>(k, v). (k, f v)) (insort_key fst (k, v) kvs)"
  by (induction kvs) auto

lemma sort_key_map: "sort_key fst (map (\<lambda>(k, v). (k, f v)) kvs) = map (\<lambda>(k, v). (k, f v)) (sort_key fst kvs)"
  by (induction kvs) (auto simp: insort_key_map)

lemma distinct_sort_key: "distinct (map f xs) \<Longrightarrow> distinct (map f (sort_key g xs))"
proof -
  have "mset (map f (sort_key g xs)) = mset (map f xs)" unfolding mset_map mset_sort ..
  then show "distinct (map f xs) \<Longrightarrow> distinct (map f (sort_key g xs))" using mset_eq_imp_distinct_iff by blast
qed

lemma json_object_distinct: "distinct (map fst kvs) \<Longrightarrow> json_object kvs = JObj kvs"
proof -
  assume d: "distinct (map fst kvs)"
  have "foldl (\<lambda>m (k, v). AList.update k v m) [] kvs = kvs"
    using d
  proof (induction kvs rule: rev_induct)
    case (snoc kv kvs)
    then show ?case by (cases kv) (auto simp: map_snd_update_fresh)
  qed simp
  then show ?thesis by (simp add: json_object_def)
qed

text \<open>The text \<open>s\<close> is read as the value \<open>v\<close> wherever it stands. It starts a value and closes nothing.\<close>

definition reads_as :: "str \<Rightarrow> json \<Rightarrow> bool" where
  "reads_as s v \<longleftrightarrow> s \<noteq> [] \<and> \<not> json_space (hd s) \<and> hd s \<noteq> 93 \<and> hd s \<noteq> 125 \<and>
     (\<forall>n r. ends_number r \<longrightarrow> 2 * length s < n \<longrightarrow> json_value n (s @ r) = Some (v, r))"

lemma reads_asD:
  "reads_as s v \<Longrightarrow> ends_number r \<Longrightarrow> 2 * length s < n \<Longrightarrow> json_value n (s @ r) = Some (v, r)"
  by (simp add: reads_as_def)

lemma reads_as_hd: "reads_as s v \<Longrightarrow> \<exists>c t. s = c # t \<and> \<not> json_space c \<and> c \<noteq> 93 \<and> c \<noteq> 125"
  by (cases s) (auto simp: reads_as_def)

lemma ends_number_punct: "c = 44 \<or> c = 93 \<or> c = 125 \<Longrightarrow> ends_number (c # r)"
  by (auto simp: ends_number_def is_digit_def)

lemma json_elems_text:
  assumes "list_all2 reads_as ss vs" "ss \<noteq> []" "2 * length (join_with (js '','') ss) + 1 < n"
  shows "json_elems n (join_with (js '','') ss @ 93 # r) = Some (vs, r)"
  using assms
proof (induction ss vs arbitrary: n rule: list_all2_induct)
  case (Cons s ss v vs)
  then obtain n' where n: "n = Suc n'" by (cases n) auto
  show ?case
  proof (cases ss)
    case Nil
    have "json_value n' (s @ 93 # r) = Some (v, 93 # r)"
      by (rule reads_asD [OF Cons(1) ends_number_punct]) (use Cons(5) Nil n in simp_all)
    with Nil n Cons(2) show ?thesis by (simp add: json_space_def)
  next
    case (Cons t ts)
    let ?rest = "join_with (js '','') ss"
    have tx: "join_with (js '','') (s # ss) = s @ 44 # ?rest" using Cons by (simp add: js_def)
    have "json_value n' (s @ 44 # ?rest @ 93 # r) = Some (v, 44 # ?rest @ 93 # r)"
      by (rule reads_asD [OF Cons.hyps(1) ends_number_punct]) (use Cons.prems(2) tx n in simp_all)
    moreover have "json_elems n' (?rest @ 93 # r) = Some (vs, r)"
      by (rule Cons.IH) (use Cons Cons.prems(2) tx n in simp_all)
    ultimately show ?thesis unfolding n tx by (simp add: json_space_def)
  qed
qed simp

definition reads_member :: "str \<times> str \<Rightarrow> str \<times> json \<Rightarrow> bool" where
  "reads_member ks kv \<longleftrightarrow> fst ks = fst kv \<and> reads_as (snd ks) (snd kv)"

lemma json_members_text:
  assumes "list_all2 reads_member ss kvs" "ss \<noteq> []" "2 * length (join_with (js '','') (map member_text ss)) + 1 < n"
  shows "json_members n (join_with (js '','') (map member_text ss) @ 125 # r) = Some (kvs, r)"
  using assms
proof (induction ss kvs arbitrary: n rule: list_all2_induct)
  case (Cons ks ss kv kvs)
  then obtain n' where n: "n = Suc n'" by (cases n) auto
  obtain k s v where ks: "ks = (k, s)" and kv: "kv = (k, v)" and v: "reads_as s v"
    using Cons(1) by (cases ks; cases kv) (auto simp: reads_member_def)
  have m: "member_text (k, s) @ q = 34 # json_body k @ 34 # COLON # s @ q" for q
    by (simp add: member_text_def json_quote_def)
  have key: "json_chars (json_body k @ 34 # q) = Some (k, q)" for q by (rule json_chars_body)
  show ?case
  proof (cases ss)
    case Nil
    have "json_value n' (s @ 125 # r) = Some (v, 125 # r)"
      by (rule reads_asD [OF v ends_number_punct])
        (use Cons(5) Nil n ks in \<open>simp_all add: member_text_def json_quote_def\<close>)
    with Nil n ks kv Cons(2) show ?thesis by (simp add: json_space_def m key)
  next
    case (Cons t ts)
    let ?rest = "join_with (js '','') (map member_text ss)"
    have tx: "join_with (js '','') (map member_text (ks # ss)) = member_text (k, s) @ 44 # ?rest"
      using Cons ks by (simp add: js_def)
    have le: "2 * length (member_text (k, s) @ 44 # ?rest) + 1 < n" using Cons.prems(2) unfolding tx .
    have "json_value n' (s @ 44 # ?rest @ 125 # r) = Some (v, 44 # ?rest @ 125 # r)"
      by (rule reads_asD [OF v ends_number_punct]) (use le n in \<open>simp_all add: member_text_def json_quote_def\<close>)
    moreover have "json_members n' (?rest @ 125 # r) = Some (kvs, r)"
      by (rule Cons.IH) (use Cons le n in simp_all)
    ultimately show ?thesis unfolding n tx by (simp add: json_space_def m key kv)
  qed
qed simp

lemma reads_array:
  assumes "list_all2 reads_as ss vs"
  shows "reads_as (js ''['' @ join_with (js '','') ss @ js '']'') (JArr vs)"
proof -
  let ?s = "js ''['' @ join_with (js '','') ss @ js '']''"
  have "json_value n (?s @ r) = Some (JArr vs, r)" if n: "2 * length ?s < n" for n r
  proof (cases ss)
    case Nil
    with n obtain n' where "n = Suc n'" by (cases n) auto
    with Nil assms show ?thesis by (simp add: js_def json_space_def)
  next
    case (Cons s ts)
    from n obtain n' where n': "n = Suc n'" by (cases n) auto
    let ?body = "join_with (js '','') ss"
    obtain c t where c: "s = c # t" "\<not> json_space c" "c \<noteq> 93"
      using reads_as_hd assms Cons by (metis list_all2_Cons1)
    obtain t' where t': "?body = c # t'" using Cons c(1) by (cases ts) auto
    have "json_elems n' (?body @ 93 # r) = Some (vs, r)"
      by (rule json_elems_text [OF assms]) (use n n' Cons in \<open>auto simp: js_def\<close>)
    with n' c t' show ?thesis by (simp add: js_def json_space_def)
  qed
  then show ?thesis by (simp add: reads_as_def js_def json_space_def)
qed

lemma reads_object:
  assumes "list_all2 reads_member ss kvs" and "distinct (map fst ss)"
  shows "reads_as (js ''{'' @ join_with (js '','') (map member_text ss) @ js ''}'') (JObj kvs)"
proof -
  let ?body = "join_with (js '','') (map member_text ss)"
  let ?s = "js ''{'' @ ?body @ js ''}''"
  have keys: "map fst kvs = map fst ss"
    using assms(1) by (induction rule: list_all2_induct) (auto simp: reads_member_def)
  have "json_value n (?s @ r) = Some (JObj kvs, r)" if n: "2 * length ?s < n" for n r
  proof (cases ss)
    case Nil
    with n obtain n' where "n = Suc n'" by (cases n) auto
    with Nil assms(1) show ?thesis by (simp add: js_def json_space_def)
  next
    case (Cons m ms)
    from n obtain n' where n': "n = Suc n'" by (cases n) auto
    obtain t' where t': "?body = 34 # t'"
      using Cons by (cases ms; cases m) (auto simp: member_text_def json_quote_def)
    have "json_members n' (?body @ 125 # r) = Some (kvs, r)"
      by (rule json_members_text [OF assms(1)]) (use n n' Cons in \<open>auto simp: js_def\<close>)
    with n' t' assms(2) show ?thesis by (simp add: js_def json_space_def json_object_distinct keys)
  qed
  then show ?thesis by (simp add: reads_as_def js_def json_space_def)
qed

lemma reads_string: "reads_as (json_quote s) (JStr s)"
proof -
  have "json_value n (json_quote s @ r) = Some (JStr s, r)" if "0 < n" for n r
    using that by (cases n) (simp_all add: json_quote_def json_space_def json_chars_body)
  then show ?thesis by (simp add: reads_as_def json_quote_def json_space_def)
qed

lemma reads_int: "reads_as (dec_int i) (JNum i)"
proof -
  obtain c t where c: "dec_int i = c # t" "is_digit c \<or> c = 45" using dec_int_hd [of i] by blast
  have "json_value n (dec_int i @ r) = Some (JNum i, r)" if r: "ends_number r" "0 < n" for n r
  proof -
    obtain n' where "n = Suc n'" using r(2) by (cases n) auto
    moreover have "\<not> startsWith (c # q) (js ''null'')" "\<not> startsWith (c # q) (js ''true'')" "\<not> startsWith (c # q) (js ''false'')" for q
      using c(2) by (auto simp: startsWith_def js_def is_digit_def)
    ultimately show ?thesis using json_number_int [OF r(1), of i] c
      by (auto simp: json_space_def json_literal_def is_digit_def)
  qed
  then show ?thesis using c by (auto simp: reads_as_def json_space_def is_digit_def)
qed

lemma reads_literal:
  "reads_as (js ''null'') JNull" "reads_as (js ''true'') (JBool True)" "reads_as (js ''false'') (JBool False)"
proof -
  have "json_value n (js ''null'' @ r) = Some (JNull, r)" "json_value n (js ''true'' @ r) = Some (JBool True, r)"
    "json_value n (js ''false'' @ r) = Some (JBool False, r)" if "0 < n" for n r
    using that by (cases n; simp add: json_space_def json_literal_def startsWith_def js_def)+
  then show "reads_as (js ''null'') JNull" "reads_as (js ''true'') (JBool True)" "reads_as (js ''false'') (JBool False)"
    by (simp_all add: reads_as_def json_space_def) (simp_all add: js_def)
qed

lemmas reads_basic = reads_string reads_int reads_literal

text \<open>Both printers: the canonical one sorts the keys, \<open>JSON.stringify\<close> does not.\<close>

lemma text_reads: "keys_distinct x \<Longrightarrow> reads_as (stableStringify x) (sorted_json x)"
proof (induction x rule: stableStringify.induct)
  case (5 xs)
  then show ?case by (auto intro!: reads_array simp: list.rel_map list_all2_same list_all_iff)
next
  case (6 kvs)
  let ?ms = "sort_key fst kvs"
  have ss: "sort_key fst (map (\<lambda>(k, v). (k, stableStringify v)) kvs) = map (\<lambda>(k, v). (k, stableStringify v)) ?ms"
    by (rule sort_key_map)
  have vs: "sort_key fst (map (\<lambda>(k, v). (k, sorted_json v)) kvs) = map (\<lambda>(k, v). (k, sorted_json v)) ?ms"
    by (rule sort_key_map)
  have "list_all2 reads_member (map (\<lambda>(k, v). (k, stableStringify v)) ?ms) (map (\<lambda>(k, v). (k, sorted_json v)) ?ms)"
    using 6 by (auto simp: list.rel_map list_all2_same list_all_iff reads_member_def)
  moreover have "distinct (map fst (map (\<lambda>(k, v). (k, stableStringify v)) ?ms))"
    using 6(2) by (simp add: comp_def case_prod_beta distinct_map)
  ultimately show ?case unfolding stableStringify.simps sorted_json.simps ss vs by (rule reads_object)
qed (simp_all add: reads_basic)

lemma plain_text_reads: "keys_distinct x \<Longrightarrow> reads_as (jsonStringify x) x"
proof (induction x rule: jsonStringify.induct)
  case (5 xs)
  then have "list_all2 reads_as (map jsonStringify xs) xs" by (auto simp: list.rel_map list_all2_same list_all_iff)
  then show ?case by (simp add: reads_array)
next
  case (6 kvs)
  have "list_all2 reads_member (map (\<lambda>(k, v). (k, jsonStringify v)) kvs) kvs"
    using 6 by (auto simp: list.rel_map list_all2_same list_all_iff reads_member_def)
  moreover have "distinct (map fst (map (\<lambda>(k, v). (k, jsonStringify v)) kvs))"
    using 6(2) by (simp add: comp_def case_prod_beta)
  ultimately show ?case unfolding jsonStringify.simps by (rule reads_object)
qed (simp_all add: reads_basic)

lemma reads_as_parse: "reads_as s v \<Longrightarrow> json_parse s = Some v"
  using reads_asD [of s v "[]" "json_fuel s"] by (simp add: json_parse_def json_fuel_def ends_number_def)

theorem plain_text_roundtrip: "keys_distinct x \<Longrightarrow> json_parse (jsonStringify x) = Some x"
  by (rule reads_as_parse [OF plain_text_reads])

text \<open>
  The canonical text is read back as the object it was printed from, with the keys of every object in
  code-unit order.
\<close>

theorem json_text_roundtrip:
  assumes "keys_distinct x"
  shows "json_parse (stableStringify x) = Some (sorted_json x)"
  by (rule reads_as_parse [OF text_reads [OF assms]])

lemma json_text_roundtrip_witness:
  "json_parse (stableStringify (JObj [(js ''b'', JArr [JNum (- 12), JStr (js ''x'')]), (js ''a'', JObj [])])) =
   Some (JObj [(js ''a'', JObj []), (js ''b'', JArr [JNum (- 12), JStr (js ''x'')])])"
proof -
  let ?x = "JObj [(js ''b'', JArr [JNum (- 12), JStr (js ''x'')]), (js ''a'', JObj [])]"
  have "keys_distinct ?x" by simp
  moreover have "sorted_json ?x = JObj [(js ''a'', JObj []), (js ''b'', JArr [JNum (- 12), JStr (js ''x'')])]"
    by code_simp
  ultimately show ?thesis using json_text_roundtrip [of ?x] by simp
qed

section \<open>What the canonical text determines\<close>

lemma same_object_values:
  "\<forall>(k, v) \<in> set kvs. same_object v (f v) \<Longrightarrow> same_object (JObj kvs) (JObj (map (\<lambda>(k, v). (k, f v)) kvs))"
  "\<forall>(k, v) \<in> set kvs. same_object (f v) v \<Longrightarrow> same_object (JObj (map (\<lambda>(k, v). (k, f v)) kvs)) (JObj kvs)"
  by (rule same_obj; auto simp: list.rel_map list_all2_same)+

lemma same_object_sorted: "keys_distinct x \<Longrightarrow> same_object x (sorted_json x) \<and> same_object (sorted_json x) x"
proof (induction x rule: sorted_json.induct)
  case (1 xs)
  then have "\<forall>x \<in> set xs. same_object x (sorted_json x) \<and> same_object (sorted_json x) x"
    by (simp add: list_all_iff)
  then show ?case by (auto intro!: same_arr simp: list_all2_conv_all_nth)
next
  case (2 kvs)
  let ?ms = "map (\<lambda>(k, v). (k, sorted_json v)) kvs"
  have vs: "\<forall>(k, v) \<in> set kvs. same_object v (sorted_json v)" "\<forall>(k, v) \<in> set kvs. same_object (sorted_json v) v"
    using 2 by (auto simp: list_all_iff)
  have keys: "map fst ?ms = map fst kvs" by auto
  have d: "distinct (map fst ?ms)" using 2(2) unfolding keys by simp
  then have d': "distinct (map fst (sort_key fst ?ms))" by (rule distinct_sort_key)
  have "same_object (JObj ?ms) (JObj (sort_key fst ?ms))" "same_object (JObj (sort_key fst ?ms)) (JObj ?ms)"
    by (rule same_perm [OF _ d], simp, rule same_perm [OF _ d'], simp)
  with same_object_values(1) [OF vs(1)] same_object_values(2) [OF vs(2)] show ?case
    unfolding sorted_json.simps by (blast intro: same_trans)
qed (auto intro: same_refl)

text \<open>
  The canonical text determines the object. Two objects without repeated keys have the same
  canonical text exactly when they differ only in the order of keys, so the hash of a kernel object
  binds all of its content.
\<close>

theorem canonical_text_binds:
  assumes "keys_distinct x" "keys_distinct y"
  shows "stableStringify x = stableStringify y \<longleftrightarrow> same_object x y"
proof
  assume "stableStringify x = stableStringify y"
  then have "sorted_json x = sorted_json y"
    using reads_as_parse [OF text_reads [OF assms(1)]] reads_as_parse [OF text_reads [OF assms(2)]] by simp
  then show "same_object x y"
    using same_object_sorted [OF assms(1)] same_object_sorted [OF assms(2)] by (metis same_trans)
qed (rule same_object_text)

lemma canonical_text_binds_witness:
  "stableStringify (JObj [(js ''a'', JStr (js ''1''))]) \<noteq> stableStringify (JObj [(js ''a'', JNum 1)]) \<and>
   \<not> same_object (JObj [(js ''a'', JStr (js ''1''))]) (JObj [(js ''a'', JNum 1)])"
proof -
  have "stableStringify (JObj [(js ''a'', JStr (js ''1''))]) \<noteq> stableStringify (JObj [(js ''a'', JNum 1)])"
    by code_simp
  then show ?thesis
    using canonical_text_binds [of "JObj [(js ''a'', JStr (js ''1''))]" "JObj [(js ''a'', JNum 1)]"] by simp
qed

section \<open>Kernel values\<close>

text \<open>
  What \<open>stableStringifyKernelObject\<close> is given is a JavaScript value, not JSON. Besides JSON there are
  \<open>undefined\<close>, functions and symbols, and the numbers without a JSON text; an object may have a
  member whose value is \<open>undefined\<close>. Numbers with a fraction are not modelled.
\<close>

datatype js_number = NaN | PlusInfinity | MinusInfinity | MinusZero | Whole int

datatype kernel_value =
    VUndefined
  | VNull
  | VBool bool
  | VNumber js_number
  | VString str
  | VFunction
  | VArray "kernel_value list"
  | VObject "(str \<times> kernel_value) list"

text \<open>\<open>JSON.stringify\<close> of a number.\<close>

definition number_text :: "js_number \<Rightarrow> str" where
  "number_text n = (case n of Whole i \<Rightarrow> dec_int i | MinusZero \<Rightarrow> js ''0'' | _ \<Rightarrow> js ''null'')"

fun stableStringifyKernelObject :: "kernel_value \<Rightarrow> str" where
  "stableStringifyKernelObject VUndefined = js ''null''"
| "stableStringifyKernelObject VNull = js ''null''"
| "stableStringifyKernelObject (VBool b) = (if b then js ''true'' else js ''false'')"
| "stableStringifyKernelObject (VNumber n) = number_text n"
| "stableStringifyKernelObject (VString s) = json_quote s"
| "stableStringifyKernelObject VFunction = js ''null''"
| "stableStringifyKernelObject (VArray xs) =
     js ''['' @ join_with (js '','') (map stableStringifyKernelObject xs) @ js '']''"
| "stableStringifyKernelObject (VObject kvs) =
     js ''{'' @ join_with (js '','') (map member_text (sort_key fst
       (map (\<lambda>(k, v). (k, stableStringifyKernelObject v)) (filter (\<lambda>(k, v). v \<noteq> VUndefined) kvs)))) @ js ''}''"

text \<open>
  The JSON a value stands for: no text for \<open>undefined\<close>, functions, \<open>NaN\<close> and infinities but \<open>null\<close>, no
  sign of zero, and no member that is \<open>undefined\<close>.
\<close>

fun number_json :: "js_number \<Rightarrow> json" where
  "number_json (Whole i) = JNum i" | "number_json MinusZero = JNum 0" | "number_json _ = JNull"

fun json_view :: "kernel_value \<Rightarrow> json" where
  "json_view (VBool b) = JBool b"
| "json_view (VNumber n) = number_json n"
| "json_view (VString s) = JStr s"
| "json_view (VArray xs) = JArr (map json_view xs)"
| "json_view (VObject kvs) = JObj (map (\<lambda>(k, v). (k, json_view v)) (filter (\<lambda>(k, v). v \<noteq> VUndefined) kvs))"
| "json_view _ = JNull"


lemma number_view: "number_text n = stableStringify (number_json n)"
  by (cases n) (simp_all add: number_text_def, code_simp)

lemma text_of_view: "stableStringifyKernelObject v = stableStringify (json_view v)"
proof (induction v rule: stableStringifyKernelObject.induct)
  case (8 kvs)
  have "map (\<lambda>(k, v). (k, stableStringifyKernelObject v)) (filter (\<lambda>(k, v). v \<noteq> VUndefined) kvs) =
    map (\<lambda>(k, v). (k, stableStringify v)) (map (\<lambda>(k, v). (k, json_view v)) (filter (\<lambda>(k, v). v \<noteq> VUndefined) kvs))"
    using 8 by (auto simp del: map_map simp: map_map [symmetric]) auto
  then show ?case by (simp only: stableStringifyKernelObject.simps json_view.simps stableStringify.simps)
qed (simp_all add: number_view cong: map_cong)

text \<open>On the values that are JSON this is \<open>stableStringify\<close>, the form the rest of the development uses.\<close>

fun of_json :: "json \<Rightarrow> kernel_value" where
  "of_json JNull = VNull" | "of_json (JBool b) = VBool b" | "of_json (JNum i) = VNumber (Whole i)"
| "of_json (JStr s) = VString s" | "of_json (JArr xs) = VArray (map of_json xs)"
| "of_json (JObj kvs) = VObject (map (\<lambda>(k, v). (k, of_json v)) kvs)"

lemma of_json_defined: "of_json x \<noteq> VUndefined"
  by (cases x) simp_all

lemma view_of_json: "json_view (of_json x) = x"
proof (induction x rule: of_json.induct)
  case (6 kvs)
  have "filter (\<lambda>(k, v). v \<noteq> VUndefined) (map (\<lambda>(k, v). (k, of_json v)) kvs) = map (\<lambda>(k, v). (k, of_json v)) kvs"
    by (auto simp: filter_id_conv of_json_defined)
  then show ?case using 6 by (auto intro!: map_idI)
qed (auto intro!: map_idI)

lemma kernel_text_of_json: "stableStringifyKernelObject (of_json x) = stableStringify x"
  by (simp add: text_of_view view_of_json)




end
