(* ===== verification/Utf8.thy ===== *)
theory Utf8
  imports JsonText
begin

text \<open>
  \<open>TextEncoder\<close> and \<open>TextDecoder("utf-8", { fatal: true })\<close> of the WHATWG encoding standard: a lone surrogate is
  encoded as the replacement character, a leading byte order mark is removed by decoding, and bytes
  that are not well-formed UTF-8 are an error.
\<close>

type_synonym byte = "8 word"

section \<open>Code points\<close>

definition surrogate :: "cu \<Rightarrow> bool" where
  "surrogate c \<longleftrightarrow> high_surrogate c \<or> low_surrogate c"

fun code_points :: "str \<Rightarrow> nat list" where
  "code_points [] = []"
| "code_points [c] = [if surrogate c then 0xFFFD else unat c]"
| "code_points (c # d # cs) =
     (if high_surrogate c \<and> low_surrogate d
      then (65536 + (unat c - 0xD800) * 1024 + (unat d - 0xDC00)) # code_points cs
      else (if surrogate c then 0xFFFD else unat c) # code_points (d # cs))"

fun well_formed :: "str \<Rightarrow> bool" where
  "well_formed [] = True"
| "well_formed [c] = (\<not> surrogate c)"
| "well_formed (c # d # cs) =
     (if high_surrogate c \<and> low_surrogate d then well_formed cs else \<not> surrogate c \<and> well_formed (d # cs))"

definition scalar_value :: "nat \<Rightarrow> bool" where
  "scalar_value n \<longleftrightarrow> n < 0x110000 \<and> \<not> (0xD800 \<le> n \<and> n \<le> 0xDFFF)"

definition code_units :: "nat \<Rightarrow> str" where
  "code_units n = (if n < 65536 then [of_nat n]
     else [of_nat (0xD800 + (n - 65536) div 1024), of_nat (0xDC00 + (n - 65536) mod 1024)])"

lemma unat_cu: "n < 65536 \<Longrightarrow> unat (of_nat n :: cu) = n"
  by (simp add: unat_of_nat)

lemma surrogate_unat:
  "high_surrogate c \<longleftrightarrow> 0xD800 \<le> unat c \<and> unat c \<le> 0xDBFF"
  "low_surrogate c \<longleftrightarrow> 0xDC00 \<le> unat c \<and> unat c \<le> 0xDFFF"
  by (simp_all add: high_surrogate_def low_surrogate_def word_le_nat_alt)

lemma code_points_plain: "\<not> surrogate c \<Longrightarrow> code_points (c # cs) = unat c # code_points cs"
  by (cases cs) (simp_all add: surrogate_def)

lemma code_points_units: "\<forall>n \<in> set ns. scalar_value n \<Longrightarrow> code_points (concat (map code_units ns)) = ns"
proof (induction ns)
  case (Cons n ns)
  then have IH: "code_points (concat (map code_units ns)) = ns" and n: "scalar_value n" by simp_all
  show ?case
  proof (cases "n < 65536")
    case True
    then have "\<not> surrogate (of_nat n)" using n by (auto simp: surrogate_def surrogate_unat unat_cu scalar_value_def)
    moreover have "code_units n = [of_nat n]" using True by (simp add: code_units_def)
    ultimately show ?thesis using True IH by (simp add: code_points_plain unat_cu)
  next
    case False
    let ?k = "n - 65536"
    have "?k < 1024 * 1024" using n False unfolding scalar_value_def by linarith
    then have k: "?k div 1024 < 1024" by (rule less_mult_imp_div_less)
    then have "high_surrogate (of_nat (0xD800 + ?k div 1024))" "low_surrogate (of_nat (0xDC00 + ?k mod 1024))"
      by (simp_all add: surrogate_unat unat_cu del: of_nat_add)
    moreover have "65536 + ?k div 1024 * 1024 + ?k mod 1024 = n" using False by simp
    moreover have "code_units n = [of_nat (0xD800 + ?k div 1024), of_nat (0xDC00 + ?k mod 1024)]"
      using False by (simp add: code_units_def)
    ultimately show ?thesis using IH k by (simp add: unat_cu del: of_nat_add)
  qed
qed simp

lemma high_offset: "high_surrogate c \<Longrightarrow> \<exists>a. unat c = 0xD800 + a \<and> a < 1024"
  unfolding surrogate_unat by (rule exI [of _ "unat c - 0xD800"]) linarith

lemma low_offset: "low_surrogate c \<Longrightarrow> \<exists>a. unat c = 0xDC00 + a \<and> a < 1024"
  unfolding surrogate_unat by (rule exI [of _ "unat c - 0xDC00"]) linarith

lemma plain_units: "\<not> surrogate c \<Longrightarrow> code_units (unat c) = [c] \<and> scalar_value (unat c)"
  using unsigned_less [of c, where 'a = nat]
  by (auto simp: code_units_def scalar_value_def surrogate_def surrogate_unat)

lemma units_code_points: "well_formed s \<Longrightarrow> concat (map code_units (code_points s)) = s \<and> (\<forall>n \<in> set (code_points s). scalar_value n)"
proof (induction s rule: well_formed.induct)
  case (2 c)
  with plain_units [of c] show ?case by simp
next
  case (3 c d cs)
  show ?case
  proof (cases "high_surrogate c \<and> low_surrogate d")
    case True
    obtain a where a: "unat c = 0xD800 + a" "a < 1024" using True high_offset by blast
    obtain b where b: "unat d = 0xDC00 + b" "b < 1024" using True low_offset by blast
    have "(a * 1024 + b) div 1024 = a" "(a * 1024 + b) mod 1024 = b" using b(2) by simp_all
    moreover have "of_nat (0xD800 + a) = c" "of_nat (0xDC00 + b) = d" unfolding a(1) [symmetric] b(1) [symmetric] by simp_all
    ultimately have "code_units (65536 + a * 1024 + b) = [c, d]" by (simp add: code_units_def del: of_nat_add)
    moreover have "code_points (c # d # cs) = (65536 + a * 1024 + b) # code_points cs" using True a b by simp
    moreover have "scalar_value (65536 + a * 1024 + b)" using a b by (simp add: scalar_value_def)
    ultimately show ?thesis using 3(1) [OF True] 3(3) True by (simp del: code_points.simps)
  next
    case False
    with 3(3) have c: "\<not> surrogate c" "well_formed (d # cs)" by auto
    from 3(2) [OF False c(2)] plain_units [OF c(1)] show ?thesis
      unfolding code_points_plain [OF c(1)] by (simp del: code_points.simps)
  qed
qed simp

section \<open>Bytes\<close>

definition utf8_bytes :: "nat \<Rightarrow> byte list" where
  "utf8_bytes n = map of_nat
     (if n < 128 then [n]
      else if n < 2048 then [192 + n div 64, 128 + n mod 64]
      else if n < 65536 then [224 + n div 4096, 128 + n div 64 mod 64, 128 + n mod 64]
      else [240 + n div 262144, 128 + n div 4096 mod 64, 128 + n div 64 mod 64, 128 + n mod 64])"

definition utf8_encode :: "str \<Rightarrow> byte list" where
  "utf8_encode s = concat (map utf8_bytes (code_points s))"

definition in_bytes :: "nat \<Rightarrow> nat \<Rightarrow> byte \<Rightarrow> bool" where
  "in_bytes lo hi b \<longleftrightarrow> lo \<le> unat b \<and> unat b \<le> hi"

text \<open>One code point from the front of the bytes.\<close>

definition utf8_next :: "byte list \<Rightarrow> (nat \<times> byte list) option" where
  "utf8_next bs = (case bs of [] \<Rightarrow> None | a # r \<Rightarrow>
     let n = unat a in
     if n < 128 then Some (n, r)
     else if in_bytes 0xC2 0xDF a then (case r of
         b # q \<Rightarrow> if in_bytes 128 191 b then Some ((n - 192) * 64 + (unat b - 128), q) else None
       | _ \<Rightarrow> None)
     else if in_bytes 0xE0 0xEF a then (case r of
         b # c # q \<Rightarrow>
           if in_bytes (if n = 0xE0 then 0xA0 else 128) (if n = 0xED then 0x9F else 191) b \<and> in_bytes 128 191 c
           then Some ((n - 224) * 4096 + (unat b - 128) * 64 + (unat c - 128), q) else None
       | _ \<Rightarrow> None)
     else if in_bytes 0xF0 0xF4 a then (case r of
         b # c # d # q \<Rightarrow>
           if in_bytes (if n = 0xF0 then 0x90 else 128) (if n = 0xF4 then 0x8F else 191) b \<and>
              in_bytes 128 191 c \<and> in_bytes 128 191 d
           then Some ((n - 240) * 262144 + (unat b - 128) * 4096 + (unat c - 128) * 64 + (unat d - 128), q) else None
       | _ \<Rightarrow> None)
     else None)"

lemma utf8_next_length: "utf8_next bs = Some (n, r) \<Longrightarrow> length r < length bs"
  by (auto simp: utf8_next_def Let_def split: list.splits if_splits)

function utf8_points :: "byte list \<Rightarrow> nat list option" where
  "utf8_points bs = (if bs = [] then Some [] else (case utf8_next bs of None \<Rightarrow> None
     | Some (n, r) \<Rightarrow> (case utf8_points r of None \<Rightarrow> None | Some ns \<Rightarrow> Some (n # ns))))"
  by pat_completeness auto
termination by (relation "measure length") (auto dest: utf8_next_length)

declare utf8_points.simps [simp del]

definition BOM :: "byte list" where
  "BOM = [0xEF, 0xBB, 0xBF]"

definition has_bom :: "byte list \<Rightarrow> bool" where
  "has_bom bs \<longleftrightarrow> prefix BOM bs"

definition utf8_decode :: "byte list \<Rightarrow> str option" where
  "utf8_decode bs = (case utf8_points (if has_bom bs then drop 3 bs else bs) of None \<Rightarrow> None
     | Some ns \<Rightarrow> Some (concat (map code_units ns)))"

section \<open>Decoding what was encoded\<close>

lemma unat_byte: "n < 256 \<Longrightarrow> unat (of_nat n :: byte) = n"
  by (simp add: unat_of_nat)

lemma split64:
  fixes n :: nat
  shows "n div 64 * 64 + n mod 64 = n" "n div 4096 * 4096 + n div 64 mod 64 * 64 + n mod 64 = n"
    "n div 262144 * 262144 + n div 4096 mod 64 * 4096 + n div 64 mod 64 * 64 + n mod 64 = n"
proof -
  have q: "n div 4096 = n div 64 div 64" "n div 262144 = n div 64 div 64 div 64" by (simp_all add: div_mult2_eq [symmetric])
  have "n div 64 = n div 64 div 64 * 64 + n div 64 mod 64" "n div 64 div 64 = n div 64 div 64 div 64 * 64 + n div 64 div 64 mod 64"
    by (simp_all only: div_mult_mod_eq)
  then show "n div 64 * 64 + n mod 64 = n" "n div 4096 * 4096 + n div 64 mod 64 * 64 + n mod 64 = n"
    "n div 262144 * 262144 + n div 4096 mod 64 * 4096 + n div 64 mod 64 * 64 + n mod 64 = n"
    unfolding q using div_mult_mod_eq [of n 64] by linarith+
qed

lemma mod64: "(k :: nat) mod 64 \<le> 63"
  using mod_less_divisor [of 64 k] by linarith

lemma utf8_next_bytes:
  assumes "scalar_value n" shows "utf8_next (utf8_bytes n @ r) = Some (n, r)"
proof -
  have n: "n < 0x110000" "\<not> (0xD800 \<le> n \<and> n \<le> 0xDFFF)" using assms by (auto simp: scalar_value_def)
  consider "n < 128" | "128 \<le> n" "n < 2048" | "2048 \<le> n" "n < 65536" | "65536 \<le> n" by linarith
  then show ?thesis
  proof cases
    case 1
    then show ?thesis by (simp add: utf8_next_def utf8_bytes_def unat_byte)
  next
    case 2
    then have "n div 64 < 32" "2 \<le> n div 64" by auto
    with 2 split64(1) [of n] show ?thesis
      by (simp add: utf8_next_def utf8_bytes_def in_bytes_def unat_byte mod64 Let_def del: of_nat_add)
  next
    case 3
    then have "n div 4096 < 16" by auto
    moreover have "n div 4096 = 0 \<Longrightarrow> 32 \<le> n div 64 mod 64" using 3 by auto
    moreover have "n div 4096 = 13 \<Longrightarrow> n div 64 mod 64 \<le> 31"
    proof -
      assume "n div 4096 = 13"
      then have "n < 0xD800" using n(2) by auto
      with split64(2) [of n] \<open>n div 4096 = 13\<close> show ?thesis by simp
    qed
    ultimately show ?thesis using 3 split64(2) [of n]
      by (simp add: utf8_next_def utf8_bytes_def in_bytes_def unat_byte mod64 Let_def del: of_nat_add)
  next
    case 4
    then have "n div 262144 < 5" using n(1) by auto
    moreover have "n div 262144 = 0 \<Longrightarrow> 16 \<le> n div 4096 mod 64" using 4 by auto
    moreover have "n div 262144 = 4 \<Longrightarrow> n div 4096 mod 64 \<le> 15" using n(1) split64(3) [of n] by simp
    ultimately show ?thesis using 4 split64(3) [of n]
      by (simp add: utf8_next_def utf8_bytes_def in_bytes_def unat_byte mod64 Let_def del: of_nat_add)
  qed
qed

lemma utf8_bytes_nonempty: "utf8_bytes n \<noteq> []"
  by (simp add: utf8_bytes_def)

lemma utf8_points_bytes:
  "\<forall>n \<in> set ns. scalar_value n \<Longrightarrow> utf8_points (concat (map utf8_bytes ns)) = Some ns"
proof (induction ns)
  case Nil
  show ?case by (simp add: utf8_points.simps)
next
  case (Cons n ns)
  then show ?case
    by (subst utf8_points.simps) (simp add: utf8_next_bytes utf8_bytes_nonempty)
qed

section \<open>Encoding what was decoded\<close>

lemma div64: "k < 64 \<Longrightarrow> (p * 64 + k) div 64 = p" "k < 64 \<Longrightarrow> (p * 64 + k) mod 64 = (k :: nat)"
  by simp_all

lemma byte_add: "lo \<le> unat (b :: byte) \<Longrightarrow> \<exists>k. unat b = lo + k \<and> (of_nat (lo + k) :: byte) = b"
proof -
  assume "lo \<le> unat b"
  then have "unat b = lo + (unat b - lo)" by simp
  moreover have "(of_nat (lo + (unat b - lo)) :: byte) = b" using \<open>lo \<le> unat b\<close> by simp
  ultimately show ?thesis by blast
qed

lemma utf8_next_exact:
  assumes "utf8_next bs = Some (n, r)"
  shows "scalar_value n \<and> bs = utf8_bytes n @ r"
proof -
  obtain a q where bs: "bs = a # q" using assms by (cases bs) (auto simp: utf8_next_def)
  have small: "unat a < 256" using unsigned_less [of a, where 'a = nat] by simp
  consider "unat a < 128" | "in_bytes 0xC2 0xDF a" "128 \<le> unat a" | "in_bytes 0xE0 0xEF a" "128 \<le> unat a" "\<not> in_bytes 0xC2 0xDF a"
    | "in_bytes 0xF0 0xF4 a" "128 \<le> unat a" "\<not> in_bytes 0xC2 0xDF a" "\<not> in_bytes 0xE0 0xEF a"
    using assms bs by (fastforce simp: utf8_next_def Let_def split: if_splits)
  then show ?thesis
  proof cases
    case 1
    with assms bs have "n = unat a" "r = q" by (simp_all add: utf8_next_def)
    with 1 bs show ?thesis by (simp add: utf8_bytes_def scalar_value_def)
  next
    case 2
    with assms bs obtain b where q: "q = b # r" "in_bytes 128 191 b" and n: "n = (unat a - 192) * 64 + (unat b - 128)"
      by (auto simp: utf8_next_def Let_def split: list.splits if_splits)
    obtain i where i: "unat a = 192 + i" "of_nat (192 + i) = a" using byte_add [of 192 a] 2(1) by (auto simp: in_bytes_def)
    obtain j where j: "unat b = 128 + j" "of_nat (128 + j) = b" using byte_add [of 128 b] q(2) by (auto simp: in_bytes_def)
    have ij: "2 \<le> i" "i < 32" "j < 64" using 2(1) q(2) i(1) j(1) by (auto simp: in_bytes_def)
    have n: "n = i * 64 + j" using n i(1) j(1) by simp
    have "n div 64 = i" "n mod 64 = j" "128 \<le> n" "n < 2048" using ij by (simp_all add: n)
    then show ?thesis using bs q(1) i(2) j(2) by (simp add: utf8_bytes_def scalar_value_def del: of_nat_add)
  next
    case 3
    with assms bs obtain b c where q: "q = b # c # r" "in_bytes 128 191 c"
      and b: "in_bytes (if unat a = 0xE0 then 0xA0 else 128) (if unat a = 0xED then 0x9F else 191) b"
      and n: "n = (unat a - 224) * 4096 + (unat b - 128) * 64 + (unat c - 128)"
      by (auto simp: utf8_next_def Let_def split: list.splits if_splits)
    have b': "128 \<le> unat b" "unat b \<le> 191" using b by (auto simp: in_bytes_def split: if_splits)
    obtain i where i: "unat a = 224 + i" "of_nat (224 + i) = a" using byte_add [of 224 a] 3(1) by (auto simp: in_bytes_def)
    obtain j where j: "unat b = 128 + j" "of_nat (128 + j) = b" using byte_add [of 128 b] b' by auto
    obtain k where k: "unat c = 128 + k" "of_nat (128 + k) = c" using byte_add [of 128 c] q(2) by (auto simp: in_bytes_def)
    have ijk: "i < 16" "j < 64" "k < 64" "i = 0 \<longrightarrow> 32 \<le> j" "i = 13 \<longrightarrow> j < 32"
      using 3(1) q(2) b i(1) j(1) k(1) by (auto simp: in_bytes_def split: if_splits)
    have n: "n = (i * 64 + j) * 64 + k" using n i(1) j(1) k(1) by simp
    have d: "n div 64 = i * 64 + j" "n mod 64 = k" unfolding n by (rule div64, fact)+
    have "n div 4096 = n div 64 div 64" by (simp add: div_mult2_eq [symmetric])
    with d ijk have e: "n div 4096 = i" "n div 64 mod 64 = j" by simp_all
    have n': "n = 4096 * i + 64 * j + k" using n by simp
    have "n < 65536" "2048 \<le> n" using ijk n' by (cases "i = 0"; linarith)+
    moreover have "\<not> (0xD800 \<le> n \<and> n \<le> 0xDFFF)"
      using ijk n' by (cases "i = 13"; cases "i < 13"; linarith)
    ultimately have "2048 \<le> n" "n < 65536" "scalar_value n" by (simp_all add: scalar_value_def)
    then show ?thesis using bs q(1) i(2) j(2) k(2) d(2) e by (simp add: utf8_bytes_def del: of_nat_add)
  next
    case 4
    with assms bs obtain b c d where q: "q = b # c # d # r" "in_bytes 128 191 c" "in_bytes 128 191 d"
      and b: "in_bytes (if unat a = 0xF0 then 0x90 else 128) (if unat a = 0xF4 then 0x8F else 191) b"
      and n: "n = (unat a - 240) * 262144 + (unat b - 128) * 4096 + (unat c - 128) * 64 + (unat d - 128)"
      by (auto simp: utf8_next_def Let_def split: list.splits if_splits)
    have b': "128 \<le> unat b" "unat b \<le> 191" using b by (auto simp: in_bytes_def split: if_splits)
    obtain i where i: "unat a = 240 + i" "of_nat (240 + i) = a" using byte_add [of 240 a] 4(1) by (auto simp: in_bytes_def)
    obtain j where j: "unat b = 128 + j" "of_nat (128 + j) = b" using byte_add [of 128 b] b' by auto
    obtain k where k: "unat c = 128 + k" "of_nat (128 + k) = c" using byte_add [of 128 c] q(2) by (auto simp: in_bytes_def)
    obtain l where l: "unat d = 128 + l" "of_nat (128 + l) = d" using byte_add [of 128 d] q(3) by (auto simp: in_bytes_def)
    have ijk: "i < 5" "j < 64" "k < 64" "l < 64" "i = 0 \<longrightarrow> 16 \<le> j" "i = 4 \<longrightarrow> j < 16"
      using 4(1) q(2,3) b i(1) j(1) k(1) l(1) by (auto simp: in_bytes_def split: if_splits)
    have n: "n = ((i * 64 + j) * 64 + k) * 64 + l" using n i(1) j(1) k(1) l(1) by simp
    have d: "n div 64 = (i * 64 + j) * 64 + k" "n mod 64 = l" unfolding n by (rule div64, fact)+
    have e: "n div 64 div 64 = i * 64 + j" "n div 64 mod 64 = k" unfolding d(1) by (rule div64, fact)+
    have "n div 4096 = n div 64 div 64" "n div 262144 = n div 64 div 64 div 64" by (simp_all add: div_mult2_eq [symmetric])
    with e ijk have f: "n div 262144 = i" "n div 4096 mod 64 = j" by simp_all
    have n': "n = 262144 * i + 4096 * j + 64 * k + l" using n by simp
    have "65536 \<le> n" using ijk n' by (cases "i = 0"; linarith)
    moreover have "n < 0x110000" using ijk n' by (cases "i = 4"; linarith)
    ultimately have "65536 \<le> n" "scalar_value n" by (simp_all add: scalar_value_def)
    then show ?thesis using bs q(1) i(2) j(2) k(2) l(2) d(2) e(2) f by (simp add: utf8_bytes_def del: of_nat_add)
  qed
qed

lemma utf8_points_exact:
  "utf8_points bs = Some ns \<Longrightarrow> (\<forall>n \<in> set ns. scalar_value n) \<and> concat (map utf8_bytes ns) = bs"
proof (induction bs arbitrary: ns rule: utf8_points.induct)
  case (1 bs)
  show ?case
  proof (cases "bs = []")
    case True
    with 1(2) show ?thesis by (simp add: utf8_points.simps)
  next
    case False
    with 1(2) obtain n r ms where n: "utf8_next bs = Some (n, r)" "utf8_points r = Some ms" "ns = n # ms"
      by (subst (asm) utf8_points.simps) (auto split: option.splits)
    with 1(1) [OF False n(1) refl, of ms] utf8_next_exact [OF n(1)] show ?thesis by simp
  qed
qed

section \<open>Round trips\<close>

text \<open>Decoding is exact, except that it forgets a byte order mark.\<close>

theorem utf8_decode_exact:
  "utf8_decode bs = Some s \<Longrightarrow> utf8_encode s = (if has_bom bs then drop 3 bs else bs)"
  using utf8_points_exact code_points_units by (fastforce simp: utf8_decode_def utf8_encode_def split: option.splits)

lemma utf8_points_encode: "well_formed s \<Longrightarrow> utf8_points (utf8_encode s) = Some (code_points s)"
  using units_code_points utf8_points_bytes unfolding utf8_encode_def by blast

lemma utf8_decode_encode:
  "well_formed s \<Longrightarrow> \<not> has_bom (utf8_encode s) \<Longrightarrow> utf8_decode (utf8_encode s) = Some s"
  using units_code_points [of s] by (simp add: utf8_decode_def utf8_points_encode)

lemma no_bom_ascii: "unat c < 128 \<Longrightarrow> \<not> has_bom (utf8_encode (c # s))"
proof -
  assume c: "unat c < 128"
  then have "\<not> surrogate c" by (auto simp: surrogate_def surrogate_unat)
  then have "utf8_encode (c # s) = of_nat (unat c) # utf8_encode s"
    using c by (simp add: utf8_encode_def code_points_plain utf8_bytes_def)
  moreover have "(of_nat (unat c) :: byte) \<noteq> 0xEF"
  proof
    assume "(of_nat (unat c) :: byte) = 0xEF"
    then have "unat (of_nat (unat c) :: byte) = unat (0xEF :: byte)" by (rule arg_cong)
    with c show False by (simp add: unat_byte del: of_nat_unat)
  qed
  ultimately show ?thesis by (simp add: has_bom_def BOM_def)
qed

end
