(* ===== verification/JsRegex.thy ===== *)
theory JsRegex
  imports JsText
begin

text \<open>
  Regular expressions as \<open>RegExp.prototype.test\<close> uses them, without captures and back references. A matcher takes
  a position, the character before it and the rest of the text, and returns every position at
  which a match that starts there may end; \<open>regex_test\<close> tries every position.
\<close>

type_synonym place = "cu option \<times> str"
type_synonym matcher = "place \<Rightarrow> place list"

definition rx_char :: "(cu \<Rightarrow> bool) \<Rightarrow> matcher" where
  "rx_char P s = (case snd s of c # cs \<Rightarrow> if P c then [(Some c, cs)] else [] | [] \<Rightarrow> [])"

definition rx_seq :: "matcher \<Rightarrow> matcher \<Rightarrow> matcher" where
  "rx_seq a b s = concat (map b (a s))"

definition rx_alt :: "matcher \<Rightarrow> matcher \<Rightarrow> matcher" where
  "rx_alt a b s = a s @ b s"

definition rx_opt :: "matcher \<Rightarrow> matcher" where
  "rx_opt a s = a s @ [s]"

text \<open>The literal text \<open>t\<close>, up to \<open>eq\<close>.\<close>

fun rx_text :: "(cu \<Rightarrow> cu \<Rightarrow> bool) \<Rightarrow> str \<Rightarrow> matcher" where
  "rx_text eq [] s = [s]"
| "rx_text eq (t # ts) s = rx_seq (rx_char (eq t)) (rx_text eq ts) s"

fun rx_star :: "(cu \<Rightarrow> bool) \<Rightarrow> cu option \<Rightarrow> str \<Rightarrow> place list" where
  "rx_star P p [] = [(p, [])]"
| "rx_star P p (c # cs) = (if P c then rx_star P (Some c) cs else []) @ [(p, c # cs)]"

text \<open>A class repeated at least \<open>n\<close> times.\<close>

fun rx_min :: "nat \<Rightarrow> (cu \<Rightarrow> bool) \<Rightarrow> matcher" where
  "rx_min 0 P s = rx_star P (fst s) (snd s)"
| "rx_min (Suc n) P s = rx_seq (rx_char P) (rx_min n P) s"

definition rx_boundary :: "(cu \<Rightarrow> bool) \<Rightarrow> matcher" where
  "rx_boundary word s =
     (if (case fst s of None \<Rightarrow> False | Some c \<Rightarrow> word c) \<noteq> (case snd s of [] \<Rightarrow> False | c # _ \<Rightarrow> word c) then [s] else [])"

definition rx_start :: matcher where
  "rx_start s = (if fst s = None then [s] else [])"

definition rx_end :: matcher where
  "rx_end s = (if snd s = [] then [s] else [])"

fun rx_search :: "matcher \<Rightarrow> cu option \<Rightarrow> str \<Rightarrow> bool" where
  "rx_search m p [] = (m (p, []) \<noteq> [])"
| "rx_search m p (c # cs) = (m (p, c # cs) \<noteq> [] \<or> rx_search m (Some c) cs)"

definition regex_test :: "matcher \<Rightarrow> str \<Rightarrow> bool" where
  "regex_test m s = rx_search m None s"

text \<open>
  Comparison under the flags \<open>iu\<close>: simple case folding, by which \<open>U+017F\<close> counts as an \<open>s\<close> and \<open>U+212A\<close> as a \<open>k\<close>.
  Both then also count as word characters.
\<close>

definition fold_case :: "cu \<Rightarrow> cu" where
  "fold_case c = (if is_upper c then c + 32 else if c = 0x17F then 115 else if c = 0x212A then 107 else c)"

definition same_char :: "cu \<Rightarrow> cu \<Rightarrow> bool" where
  "same_char a b \<longleftrightarrow> a = b"

definition same_fold :: "cu \<Rightarrow> cu \<Rightarrow> bool" where
  "same_fold a b \<longleftrightarrow> fold_case a = fold_case b"

definition word_char :: "cu \<Rightarrow> bool" where
  "word_char c \<longleftrightarrow> is_lower c \<or> is_upper c \<or> is_digit c \<or> c = 95"

definition word_char_iu :: "cu \<Rightarrow> bool" where
  "word_char_iu c \<longleftrightarrow> word_char c \<or> c = 0x17F \<or> c = 0x212A"

text \<open>A match uses up a piece of the text at a position that can be reached from the start.\<close>

lemma rx_search_infix:
  "rx_search m p s \<longleftrightarrow> (\<exists>u v. s = u @ v \<and> m (if u = [] then p else Some (last u), v) \<noteq> [])"
proof (induction s arbitrary: p)
  case (Cons c cs)
  have "(\<exists>u v. c # cs = u @ v \<and> m (if u = [] then p else Some (last u), v) \<noteq> []) \<longleftrightarrow>
      m (p, c # cs) \<noteq> [] \<or> (\<exists>u v. cs = u @ v \<and> m (if u = [] then Some c else Some (last u), v) \<noteq> [])"
    (is "?l \<longleftrightarrow> ?a \<or> ?b")
  proof
    assume ?l
    then obtain u v where u: "c # cs = u @ v" "m (if u = [] then p else Some (last u), v) \<noteq> []" by blast
    show "?a \<or> ?b"
    proof (cases u)
      case (Cons d u')
      with u have "cs = u' @ v" "m (if u' = [] then Some c else Some (last u'), v) \<noteq> []" by (auto split: if_splits)
      then show ?thesis by blast
    qed (use u in simp)
  next
    assume "?a \<or> ?b"
    then show ?l
    proof
      assume ?a
      then show ?l by - (rule exI [of _ "[]"], rule exI [of _ "c # cs"], simp)
    next
      assume ?b
      then obtain u v where u: "cs = u @ v" "m (if u = [] then Some c else Some (last u), v) \<noteq> []" by blast
      then show ?l by - (rule exI [of _ "c # u"], rule exI [of _ v], cases "u = []", simp_all)
    qed
  qed
  with Cons show ?case by simp
qed simp

end
