(* ===== verification/CapsuleContracts.thy ===== *)
theory CapsuleContracts
  imports Authorization Utf8 JsRegex
begin

text \<open>
  The contracts of an offline execution capsule, \<open>packages/execution-capsule/src/contracts.ts\<close>, and the checks for
  credentials of \<open>input-safety.ts\<close>. Content is addressed by the SHA-256 digest of its bytes; the digest of an
  object is that of its canonical JSON in UTF-8. \<open>schemaVersion\<close> and the other constant fields of the
  schemas are in the JSON of a record and not in the record.
\<close>

record capsule_host =
  ch_host :: host
  ch_sha256 :: "byte list \<Rightarrow> str"
  ch_date :: "str \<Rightarrow> int option"
  ch_datetime :: "str \<Rightarrow> bool"

section \<open>Digests\<close>

record digest =
  dg_hash :: str
  dg_size :: int

definition ContentDigestSchema :: "digest \<Rightarrow> bool" where
  "ContentDigestSchema d \<longleftrightarrow> sha256_hex (dg_hash d) \<and> 0 \<le> dg_size d \<and> dg_size d \<le> 9007199254740991"

definition digest_json :: "digest \<Rightarrow> json" where
  "digest_json d = JObj [(js ''algorithm'', JStr (js ''sha256'')), (js ''hash'', JStr (dg_hash d)), (js ''size'', JNum (dg_size d))]"

definition digestBytes :: "capsule_host \<Rightarrow> byte list \<Rightarrow> digest" where
  "digestBytes H bytes = \<lparr>dg_hash = ch_sha256 H bytes, dg_size = int (length bytes)\<rparr>"

definition canonicalJsonBytes :: "json \<Rightarrow> byte list" where
  "canonicalJsonBytes x = utf8_encode (stableStringify x)"

definition digestCanonicalJson :: "capsule_host \<Rightarrow> json \<Rightarrow> digest" where
  "digestCanonicalJson H x = digestBytes H (canonicalJsonBytes x)"

definition hashCanonicalJson :: "capsule_host \<Rightarrow> json \<Rightarrow> str" where
  "hashCanonicalJson H x = dg_hash (digestCanonicalJson H x)"

definition sameCanonicalJson :: "json \<Rightarrow> json \<Rightarrow> bool" where
  "sameCanonicalJson left right \<longleftrightarrow> stableStringify left = stableStringify right"

section \<open>Paths\<close>

definition isCanonicalCapsulePath :: "host \<Rightarrow> str \<Rightarrow> bool" where
  "isCanonicalCapsulePath h input =
     (if h_nfc h input \<noteq> input \<or> hasUnpairedUtf16Surrogate input then False
      else let slashPath = slashes input;
               normalized = posix_normalize slashPath;
               parts = split_on SLASH normalized
           in \<not> (input = [] \<or> normalized = js ''.'' \<or> normalized = js ''..'' \<or>
                 startsWith normalized (js ''../'') \<or> posix_isAbsolute normalized \<or>
                 h_isAbsolute h input \<or> drive_prefix input \<or> startsWith slashPath (js ''//'') \<or>
                 input \<noteq> slashPath \<or> normalized \<noteq> slashPath \<or>
                 list_ex (\<lambda>part. part = [] \<or> part = js ''.'' \<or> part = js ''..'') parts \<or>
                 list_ex (\<lambda>part. h_lower h part = js ''.git'') parts \<or>
                 list_ex (\<lambda>part. list_ex unsafe_char part) parts \<or>
                 list_ex (\<lambda>part. endsWith part (js ''.'') \<or> endsWith part (js '' '')) parts \<or>
                 list_ex windows_reserved parts))"

definition canonicalPathAlias :: "host \<Rightarrow> str \<Rightarrow> str" where
  "canonicalPathAlias h path = h_lower h (h_nfc h path)"

text \<open>\<open>addCanonicalPathSetIssues\<close> adds no issue: code-unit sorted, without repetitions or aliases.\<close>

fun path_set_ok :: "host \<Rightarrow> str set \<Rightarrow> str option \<Rightarrow> str list \<Rightarrow> bool" where
  "path_set_ok h aliases previous [] = True"
| "path_set_ok h aliases previous (path # paths) =
     (opt_all (\<lambda>q. q < path) previous \<and> canonicalPathAlias h path \<notin> aliases \<and>
      path_set_ok h (insert (canonicalPathAlias h path) aliases) (Some path) paths)"

definition CapsulePathSchema :: "host \<Rightarrow> str \<Rightarrow> bool" where
  "CapsulePathSchema h path \<longleftrightarrow> str_min1 path \<and> isCanonicalCapsulePath h path"

definition CanonicalTargetPathsSchema :: "host \<Rightarrow> str list \<Rightarrow> bool" where
  "CanonicalTargetPathsSchema h paths \<longleftrightarrow> paths \<noteq> [] \<and> list_all (CapsulePathSchema h) paths \<and> path_set_ok h {} None paths"

lemma join_with_mem: "c \<in> set (join_with d ws) \<Longrightarrow> c \<in> set d \<or> (\<exists>w \<in> set ws. c \<in> set w)"
  by (induction d ws rule: join_with.induct) auto

lemma capsule_path_plain:
  assumes "isCanonicalCapsulePath h p" "c = 0 \<or> c = 10 \<or> c = 13"
  shows "c \<notin> set p"
proof
  let ?parts = "split_on SLASH (posix_normalize (slashes p))"
  have parts: "\<forall>part \<in> set ?parts. \<not> list_ex unsafe_char part" and p: "p = posix_normalize (slashes p)"
    using assms(1) by (auto simp: isCanonicalCapsulePath_def Let_def list_ex_iff split: if_splits)
  assume "c \<in> set p"
  then have "c \<in> set (join_with [SLASH] ?parts)" using p by simp
  then have "c \<in> set [SLASH] \<or> (\<exists>w \<in> set ?parts. c \<in> set w)" by (rule join_with_mem)
  with assms(2) obtain w where "w \<in> set ?parts" "c \<in> set w" by auto
  with parts have "\<not> c \<le> 31" by (fastforce simp: list_ex_iff unsafe_char_def)
  with assms(2) show False by auto
qed

text \<open>A canonical capsule path is a safe governed path of the authorization kernel.\<close>

lemma capsule_path_safe: "isCanonicalCapsulePath h p \<Longrightarrow> isSafeGovernedPath h p"
proof -
  assume *: "isCanonicalCapsulePath h p"
  have no: "\<not> (0 \<in> set p \<or> 10 \<in> set p \<or> 13 \<in> set p)" using capsule_path_plain [OF *] by blast
  have valid: "\<not> (h_nfc h p \<noteq> p \<or> hasUnpairedUtf16Surrogate p)"
    using * unfolding isCanonicalCapsulePath_def by (rule contrapos_pn) (simp only: if_True not_False_eq_True)
  show ?thesis
    using * no unfolding isCanonicalCapsulePath_def isSafeGovernedPath_def Let_def if_not_P [OF valid] by blast
qed

section \<open>Tasks\<close>

record capsule_task =
  ct_taskId :: str
  ct_instruction :: str
  ct_successCriteria :: "str list"
  ct_outOfScope :: "str list"
  ct_targetPaths :: "str list"

definition str_within :: "nat \<Rightarrow> str \<Rightarrow> bool" where
  "str_within n s \<longleftrightarrow> str_min1 s \<and> length s \<le> n"

definition CapsuleTaskContractSchema :: "capsule_host \<Rightarrow> capsule_task \<Rightarrow> bool" where
  "CapsuleTaskContractSchema H t \<longleftrightarrow> str_within 256 (ct_taskId t) \<and> str_within 32768 (ct_instruction t) \<and>
     list_all (str_within 4096) (ct_successCriteria t) \<and> ct_successCriteria t \<noteq> [] \<and> length (ct_successCriteria t) \<le> 128 \<and>
     list_all (str_within 4096) (ct_outOfScope t) \<and> length (ct_outOfScope t) \<le> 128 \<and>
     CanonicalTargetPathsSchema (ch_host H) (ct_targetPaths t)"

definition task_json :: "capsule_task \<Rightarrow> json" where
  "task_json t = JObj [(js ''schemaVersion'', JStr (js ''offline-capsule-task.v1'')),
     (js ''dataClassification'', JStr (js ''synthetic_non_sensitive'')),
     (js ''taskId'', JStr (ct_taskId t)), (js ''instruction'', JStr (ct_instruction t)),
     (js ''successCriteria'', str_array (ct_successCriteria t)), (js ''outOfScope'', str_array (ct_outOfScope t)),
     (js ''targetPaths'', str_array (ct_targetPaths t))]"

section \<open>Content trees\<close>

datatype file_mode = Mode644 | Mode755

definition mode_name :: "file_mode \<Rightarrow> str" where
  "mode_name m = (case m of Mode644 \<Rightarrow> js ''100644'' | Mode755 \<Rightarrow> js ''100755'')"

record tree_entry =
  en_path :: str
  en_mode :: file_mode
  en_blob :: digest

record tree_manifest =
  tm_entries :: "tree_entry list"
  tm_rootDigest :: digest

definition entry_json :: "tree_entry \<Rightarrow> json" where
  "entry_json e = JObj [(js ''path'', JStr (en_path e)), (js ''nodeType'', JStr (js ''regular_file'')),
     (js ''mode'', JStr (mode_name (en_mode e))), (js ''blob'', digest_json (en_blob e))]"

definition tree_root_digest :: "capsule_host \<Rightarrow> tree_entry list \<Rightarrow> digest" where
  "tree_root_digest H entries = digestCanonicalJson H (JObj
     [(js ''schemaVersion'', JStr (js ''content-tree-root.v1'')), (js ''entries'', JArr (map entry_json entries))])"

definition tree_json :: "tree_manifest \<Rightarrow> json" where
  "tree_json m = JObj [(js ''schemaVersion'', JStr (js ''content-tree-manifest.v1'')),
     (js ''entries'', JArr (map entry_json (tm_entries m))), (js ''rootDigest'', digest_json (tm_rootDigest m))]"

definition ContentTreeEntrySchema :: "capsule_host \<Rightarrow> tree_entry \<Rightarrow> bool" where
  "ContentTreeEntrySchema H e \<longleftrightarrow> CapsulePathSchema (ch_host H) (en_path e) \<and> ContentDigestSchema (en_blob e)"

definition ContentTreeManifestSchema :: "capsule_host \<Rightarrow> tree_manifest \<Rightarrow> bool" where
  "ContentTreeManifestSchema H m \<longleftrightarrow> list_all (ContentTreeEntrySchema H) (tm_entries m) \<and>
     ContentDigestSchema (tm_rootDigest m) \<and> path_set_ok (ch_host H) {} None (map en_path (tm_entries m)) \<and>
     tm_rootDigest m = tree_root_digest H (tm_entries m)"

definition createContentTreeManifest :: "capsule_host \<Rightarrow> tree_entry list \<Rightarrow> err + tree_manifest" where
  "createContentTreeManifest H entriesInput =
     bind_res (map_res (zod_parse (ContentTreeEntrySchema H)) entriesInput) (\<lambda>parsed.
     let entries = sort_key en_path parsed
     in zod_parse (ContentTreeManifestSchema H) \<lparr>tm_entries = entries, tm_rootDigest = tree_root_digest H entries\<rparr>)"

section \<open>Reading the objects of a store from JSON\<close>

text \<open>The members of a strict object: all keys are known.\<close>

definition strict_members :: "string list \<Rightarrow> json option \<Rightarrow> (str \<times> json) list option" where
  "strict_members keys v = (case v of
       Some (JObj kvs) \<Rightarrow> if list_all (\<lambda>(k, _). k \<in> set (map js keys)) kvs then Some kvs else None
     | _ \<Rightarrow> None)"

definition is_literal :: "string \<Rightarrow> json option \<Rightarrow> bool" where
  "is_literal s v \<longleftrightarrow> v = Some (JStr (js s))"

definition read_str :: "json option \<Rightarrow> str option" where
  "read_str v = (case v of Some (JStr s) \<Rightarrow> Some s | _ \<Rightarrow> None)"

definition read_int :: "json option \<Rightarrow> int option" where
  "read_int v = (case v of Some (JNum n) \<Rightarrow> Some n | _ \<Rightarrow> None)"

fun read_all :: "(json option \<Rightarrow> 'a option) \<Rightarrow> json list \<Rightarrow> 'a list option" where
  "read_all f [] = Some []"
| "read_all f (x # xs) = (case (f (Some x), read_all f xs) of (Some y, Some ys) \<Rightarrow> Some (y # ys) | _ \<Rightarrow> None)"

definition read_list :: "(json option \<Rightarrow> 'a option) \<Rightarrow> json option \<Rightarrow> 'a list option" where
  "read_list f v = (case v of Some (JArr xs) \<Rightarrow> read_all f xs | _ \<Rightarrow> None)"

definition read_digest :: "json option \<Rightarrow> digest option" where
  "read_digest v = (case strict_members [''algorithm'', ''hash'', ''size''] v of None \<Rightarrow> None | Some kvs \<Rightarrow>
     if \<not> is_literal ''sha256'' (jprop kvs (js ''algorithm'')) then None
     else (case (read_str (jprop kvs (js ''hash'')), read_int (jprop kvs (js ''size''))) of
         (Some h, Some n) \<Rightarrow> Some \<lparr>dg_hash = h, dg_size = n\<rparr>
       | _ \<Rightarrow> None))"

definition read_mode :: "json option \<Rightarrow> file_mode option" where
  "read_mode v = (if is_literal ''100644'' v then Some Mode644 else if is_literal ''100755'' v then Some Mode755 else None)"

definition read_entry :: "json option \<Rightarrow> tree_entry option" where
  "read_entry v = (case strict_members [''path'', ''nodeType'', ''mode'', ''blob''] v of None \<Rightarrow> None | Some kvs \<Rightarrow>
     if \<not> is_literal ''regular_file'' (jprop kvs (js ''nodeType'')) then None
     else (case (read_str (jprop kvs (js ''path'')), read_mode (jprop kvs (js ''mode'')), read_digest (jprop kvs (js ''blob''))) of
         (Some p, Some m, Some b) \<Rightarrow> Some \<lparr>en_path = p, en_mode = m, en_blob = b\<rparr>
       | _ \<Rightarrow> None))"

definition read_tree :: "json option \<Rightarrow> tree_manifest option" where
  "read_tree v = (case strict_members [''schemaVersion'', ''entries'', ''rootDigest''] v of None \<Rightarrow> None | Some kvs \<Rightarrow>
     if \<not> is_literal ''content-tree-manifest.v1'' (jprop kvs (js ''schemaVersion'')) then None
     else (case (read_list read_entry (jprop kvs (js ''entries'')), read_digest (jprop kvs (js ''rootDigest''))) of
         (Some es, Some d) \<Rightarrow> Some \<lparr>tm_entries = es, tm_rootDigest = d\<rparr>
       | _ \<Rightarrow> None))"

definition read_task :: "json option \<Rightarrow> capsule_task option" where
  "read_task v = (case strict_members [''schemaVersion'', ''dataClassification'', ''taskId'', ''instruction'',
       ''successCriteria'', ''outOfScope'', ''targetPaths''] v of None \<Rightarrow> None | Some kvs \<Rightarrow>
     if \<not> is_literal ''offline-capsule-task.v1'' (jprop kvs (js ''schemaVersion'')) \<or>
        \<not> is_literal ''synthetic_non_sensitive'' (jprop kvs (js ''dataClassification'')) then None
     else (case (read_str (jprop kvs (js ''taskId'')), read_str (jprop kvs (js ''instruction'')),
           read_list read_str (jprop kvs (js ''successCriteria'')), read_list read_str (jprop kvs (js ''outOfScope'')),
           read_list read_str (jprop kvs (js ''targetPaths''))) of
         (Some i, Some t, Some s, Some o', Some p) \<Rightarrow> Some \<lparr>ct_taskId = i, ct_instruction = t, ct_successCriteria = s,
           ct_outOfScope = o', ct_targetPaths = p\<rparr>
       | _ \<Rightarrow> None))"

section \<open>An object is read back from its canonical bytes\<close>

lemma well_formed_Cons: "\<not> surrogate c \<Longrightarrow> well_formed (c # s) = well_formed s"
  by (cases s) (simp_all add: surrogate_def)

lemma well_formed_plain: "\<forall>c \<in> set s. \<not> surrogate c \<Longrightarrow> well_formed s"
  by (induction s) (simp_all add: well_formed_Cons)

lemma well_formed_append: "well_formed s \<Longrightarrow> well_formed t \<Longrightarrow> well_formed (s @ t)"
proof (induction s rule: well_formed.induct)
  case (3 c d cs)
  then show ?case by (cases "high_surrogate c \<and> low_surrogate d") auto
qed (simp_all add: well_formed_Cons)

lemma ascii_plain: "unat c < 128 \<Longrightarrow> \<not> surrogate c"
  by (auto simp: surrogate_def surrogate_unat)

lemma js_plain: "c \<in> set (js s) \<Longrightarrow> \<not> surrogate c"
proof -
  assume "c \<in> set (js s)"
  then obtain ch where "c = of_nat (of_char ch)" by (auto simp: js_def)
  moreover have small: "of_char ch < (256 :: nat)" by (rule nat_of_char_less_256)
  then have "unat (of_nat (of_char ch) :: cu) = of_char ch" by (intro unat_cu) linarith
  ultimately have "unat c < 256" using small by simp
  then show ?thesis by (auto simp: surrogate_def surrogate_unat)
qed

lemma hex_digit_plain: "n < 16 \<Longrightarrow> \<not> surrogate (hex_digit n)"
proof -
  assume "n < 16"
  then have "unat (hex_digit n) < 128" unfolding hex_digit_def by (simp add: unat_cu del: of_nat_add)
  then show ?thesis by (rule ascii_plain)
qed

lemma hex4_plain: "c \<in> set (hex4 d) \<Longrightarrow> \<not> surrogate c"
proof -
  have "unat d div 4096 < 16" using unsigned_less [of d, where 'a = nat] by simp
  then show "c \<in> set (hex4 d) \<Longrightarrow> \<not> surrogate c" by (auto simp: hex4_def Let_def hex_digit_plain)
qed

lemma well_formed_hex4: "well_formed (hex4 c)"
  by (rule well_formed_plain) (use hex4_plain in blast)

lemma well_formed_escape: "well_formed (json_escape c)"
proof (cases "surrogate c")
  case True
  then have "c \<noteq> 34" "c \<noteq> 92" "c \<noteq> 8" "c \<noteq> 12" "c \<noteq> 10" "c \<noteq> 13" "c \<noteq> 9"
    by (auto simp: surrogate_def surrogate_unat)
  with True have "json_escape c = BACKSLASH # 117 # hex4 c" by (simp add: json_escape_def surrogate_def)
  then show ?thesis by (simp add: well_formed_Cons ascii_plain well_formed_hex4)
next
  case False
  then show ?thesis
    by (simp add: json_escape_def well_formed_Cons ascii_plain well_formed_hex4 del: well_formed.simps(2,3))
qed

lemma well_formed_body: "well_formed (json_body s)"
  by (induction s rule: json_body.induct) (auto intro: well_formed_append well_formed_escape)

lemma well_formed_quote: "well_formed (json_quote s)"
  using well_formed_append [OF well_formed_body, of "[34]" s] by (simp add: json_quote_def well_formed_Cons ascii_plain)

lemma well_formed_js: "well_formed (js s)"
  using js_plain by (blast intro: well_formed_plain)

lemma well_formed_join: "\<forall>w \<in> set ws. well_formed w \<Longrightarrow> well_formed (join_with (js d) ws)"
  by (induction "js d" ws rule: join_with.induct) (auto intro!: well_formed_append well_formed_js)

lemma digit_plain: "is_digit c \<Longrightarrow> \<not> surrogate c"
  by (rule ascii_plain) (auto simp: is_digit_def word_le_nat_alt)

lemma well_formed_dec: "well_formed (dec_int n)"
proof -
  have "well_formed (dec_nat k)" for k
    by (rule well_formed_plain) (use dec_nat_digits digit_plain in blast)
  then show ?thesis unfolding dec_int_def by (simp add: well_formed_append well_formed_js)
qed

lemma well_formed_text: "well_formed (stableStringify x)"
proof (induction x rule: stableStringify.induct)
  case (5 xs)
  then show ?case by (auto intro!: well_formed_append well_formed_js well_formed_join)
next
  case (6 kvs)
  have "well_formed (member_text (k, stableStringify v))" if "(k, v) \<in> set kvs" for k v
    using 6 [OF that refl]
    by (auto simp: member_text_def well_formed_Cons ascii_plain intro!: well_formed_append well_formed_quote)
  then show ?case by (auto intro!: well_formed_append well_formed_js well_formed_join)
qed (simp_all add: well_formed_js well_formed_dec well_formed_quote)

lemma text_hd_ascii: "\<exists>c t. stableStringify x = c # t \<and> unat c < 128"
proof (cases x)
  case (JNum n)
  then show ?thesis using dec_int_hd [of n] by (auto simp: is_digit_def word_le_nat_alt)
qed (auto simp: js_def json_quote_def)

lemma canonical_bytes_text: "utf8_decode (canonicalJsonBytes x) = Some (stableStringify x)"
  unfolding canonicalJsonBytes_def
  by (rule utf8_decode_encode [OF well_formed_text]) (metis text_hd_ascii no_bom_ascii)

text \<open>Readers look at members by name, so the order of the keys does not matter to them.\<close>

lemma jprop_sorted:
  assumes "distinct (map fst kvs)"
  shows "jprop (sort_key fst (map (\<lambda>(k, v). (k, sorted_json v)) kvs)) k = map_option sorted_json (jprop kvs k)"
proof -
  let ?ms = "map (\<lambda>(k, v). (k, sorted_json v)) kvs"
  have keys: "map fst ?ms = map fst kvs" by auto
  have d: "distinct (map fst ?ms)" using assms unfolding keys .
  have "map_of (sort_key fst ?ms) = map_of ?ms"
    using d distinct_sort_key [OF d] by (subst map_of_inject_set) simp_all
  then show ?thesis by (simp add: map_of_map)
qed

lemma strict_sorted:
  assumes "distinct (map fst kvs)" "list_all (\<lambda>(k, _). k \<in> set (map js keys)) kvs"
  shows "\<exists>ms. strict_members keys (Some (sorted_json (JObj kvs))) = Some ms \<and>
    (\<forall>k. jprop ms k = map_option sorted_json (jprop kvs k))"
proof -
  have "list_all (\<lambda>(k, _). k \<in> set (map js keys)) (sort_key fst (map (\<lambda>(k, v). (k, sorted_json v)) kvs))"
    using assms(2) by (auto simp: list_all_iff)
  then show ?thesis using jprop_sorted [OF assms(1)] by (simp add: strict_members_def)
qed

lemma read_all_map: "(\<And>x. x \<in> set xs \<Longrightarrow> f (Some (sorted_json (g x))) = Some x) \<Longrightarrow>
    read_list f (Some (sorted_json (JArr (map g xs)))) = Some xs"
  unfolding read_list_def by (induction xs) auto

lemma read_strs: "read_list read_str (Some (sorted_json (str_array ss))) = Some ss"
  unfolding str_array_def by (rule read_all_map) (simp add: read_str_def)

lemma read_digest_sorted: "read_digest (Some (sorted_json (digest_json d))) = Some d"
proof -
  let ?kvs = "[(js ''algorithm'', JStr (js ''sha256'')), (js ''hash'', JStr (dg_hash d)), (js ''size'', JNum (dg_size d))]"
  obtain ms where "strict_members [''algorithm'', ''hash'', ''size''] (Some (sorted_json (JObj ?kvs))) = Some ms"
    "\<forall>k. jprop ms k = map_option sorted_json (jprop ?kvs k)"
    using strict_sorted [of ?kvs "[''algorithm'', ''hash'', ''size'']"] by auto
  then show ?thesis by (simp add: read_digest_def digest_json_def is_literal_def read_str_def read_int_def)
qed

lemma read_mode_name [simp]: "read_mode (Some (JStr (mode_name m))) = Some m"
  by (cases m) (simp_all add: read_mode_def mode_name_def is_literal_def)

lemma read_entry_sorted: "read_entry (Some (sorted_json (entry_json e))) = Some e"
proof -
  let ?kvs = "[(js ''path'', JStr (en_path e)), (js ''nodeType'', JStr (js ''regular_file'')),
     (js ''mode'', JStr (mode_name (en_mode e))), (js ''blob'', digest_json (en_blob e))]"
  obtain ms where "strict_members [''path'', ''nodeType'', ''mode'', ''blob''] (Some (sorted_json (JObj ?kvs))) = Some ms"
    "\<forall>k. jprop ms k = map_option sorted_json (jprop ?kvs k)"
    using strict_sorted [of ?kvs "[''path'', ''nodeType'', ''mode'', ''blob'']"] by auto
  then show ?thesis
    by (simp add: read_entry_def entry_json_def is_literal_def read_str_def read_digest_sorted)
qed

lemma read_tree_sorted: "read_tree (Some (sorted_json (tree_json m))) = Some m"
proof -
  let ?kvs = "[(js ''schemaVersion'', JStr (js ''content-tree-manifest.v1'')),
     (js ''entries'', JArr (map entry_json (tm_entries m))), (js ''rootDigest'', digest_json (tm_rootDigest m))]"
  obtain ms where "strict_members [''schemaVersion'', ''entries'', ''rootDigest''] (Some (sorted_json (JObj ?kvs))) = Some ms"
    "\<forall>k. jprop ms k = map_option sorted_json (jprop ?kvs k)"
    using strict_sorted [of ?kvs "[''schemaVersion'', ''entries'', ''rootDigest'']"] by auto
  then have ms: "strict_members [''schemaVersion'', ''entries'', ''rootDigest''] (Some (sorted_json (tree_json m))) = Some ms"
    and p: "jprop ms (js ''schemaVersion'') = Some (JStr (js ''content-tree-manifest.v1''))"
      "jprop ms (js ''entries'') = Some (sorted_json (JArr (map entry_json (tm_entries m))))"
      "jprop ms (js ''rootDigest'') = Some (sorted_json (digest_json (tm_rootDigest m)))"
    by (simp_all only: tree_json_def, simp_all)
  have "read_list read_entry (Some (sorted_json (JArr (map entry_json (tm_entries m))))) = Some (tm_entries m)"
    by (rule read_all_map) (rule read_entry_sorted)
  with ms p show ?thesis
    by (simp add: read_tree_def is_literal_def read_digest_sorted del: sorted_json.simps)
qed

lemma read_task_sorted: "read_task (Some (sorted_json (task_json t))) = Some t"
proof -
  let ?keys = "[''schemaVersion'', ''dataClassification'', ''taskId'', ''instruction'', ''successCriteria'', ''outOfScope'', ''targetPaths'']"
  let ?kvs = "[(js ''schemaVersion'', JStr (js ''offline-capsule-task.v1'')),
     (js ''dataClassification'', JStr (js ''synthetic_non_sensitive'')),
     (js ''taskId'', JStr (ct_taskId t)), (js ''instruction'', JStr (ct_instruction t)),
     (js ''successCriteria'', str_array (ct_successCriteria t)), (js ''outOfScope'', str_array (ct_outOfScope t)),
     (js ''targetPaths'', str_array (ct_targetPaths t))]"
  have "distinct (map fst ?kvs)" "list_all (\<lambda>(k, _). k \<in> set (map js ?keys)) ?kvs" by simp_all
  from strict_sorted [OF this] obtain ms where ms: "strict_members ?keys (Some (sorted_json (JObj ?kvs))) = Some ms"
    and all: "\<forall>k. jprop ms k = map_option sorted_json (jprop ?kvs k)" by blast
  have p: "jprop ms (js ''schemaVersion'') = Some (JStr (js ''offline-capsule-task.v1''))"
      "jprop ms (js ''dataClassification'') = Some (JStr (js ''synthetic_non_sensitive''))"
      "jprop ms (js ''taskId'') = Some (JStr (ct_taskId t))" "jprop ms (js ''instruction'') = Some (JStr (ct_instruction t))"
      "jprop ms (js ''successCriteria'') = Some (sorted_json (str_array (ct_successCriteria t)))"
      "jprop ms (js ''outOfScope'') = Some (sorted_json (str_array (ct_outOfScope t)))"
      "jprop ms (js ''targetPaths'') = Some (sorted_json (str_array (ct_targetPaths t)))"
    by (simp_all add: all)
  show ?thesis
    unfolding task_json_def read_task_def by (simp add: ms p is_literal_def read_str_def read_strs del: sorted_json.simps)
qed

lemma keys_distinct_digest: "keys_distinct (digest_json d)"
  by (simp add: digest_json_def)

lemma keys_distinct_tree: "keys_distinct (tree_json m)"
  by (simp add: tree_json_def keys_distinct_digest list_all_iff entry_json_def)

lemma keys_distinct_strs: "keys_distinct (str_array ss)"
  by (simp add: str_array_def list_all_iff)

lemma keys_distinct_task: "keys_distinct (task_json t)"
  by (simp add: task_json_def keys_distinct_strs)

text \<open>The steps of reading canonical bytes back: decoding, parsing and the schema's reader.\<close>

lemma canonical_bytes_parse: "keys_distinct x \<Longrightarrow> json_parse (stableStringify x) = Some (sorted_json x)"
  using reads_as_parse [OF text_reads, of x]
  by (simp add: json_parse_def json_fuel_def ends_number_def)

section \<open>Credentials in content\<close>

definition binary_control :: "cu \<Rightarrow> bool" where
  "binary_control c \<longleftrightarrow> c \<le> 8 \<or> c = 0x0B \<or> c = 0x0C \<or> (0x0E \<le> c \<and> c \<le> 0x1F) \<or> c = 0x7F"

text \<open>
  The decoder labelled \<open>latin1\<close> is windows-1252, which reads the bytes 80 to 9F as other characters.
\<close>

definition windows_1252 :: "cu list" where
  "windows_1252 = [0x20AC, 0x81, 0x201A, 0x0192, 0x201E, 0x2026, 0x2020, 0x2021, 0x02C6, 0x2030, 0x0160, 0x2039, 0x0152,
     0x8D, 0x017D, 0x8F, 0x90, 0x2018, 0x2019, 0x201C, 0x201D, 0x2022, 0x2013, 0x2014, 0x02DC, 0x2122, 0x0161,
     0x203A, 0x0153, 0x9D, 0x017E, 0x0178]"

definition latin1_decode :: "byte list \<Rightarrow> str" where
  "latin1_decode bs = map (\<lambda>b. if 128 \<le> unat b \<and> unat b < 160 then windows_1252 ! (unat b - 128) else of_nat (unat b)) bs"

definition class_iu :: "string \<Rightarrow> cu \<Rightarrow> bool" where
  "class_iu extra c \<longleftrightarrow> is_lower (fold_case c) \<or> is_digit c \<or> c \<in> set (js extra)"

definition class_upper :: "cu \<Rightarrow> bool" where
  "class_upper c \<longleftrightarrow> is_upper c \<or> is_digit c"

text \<open>\<open>RAW_CREDENTIAL_MATERIAL_PATTERNS\<close>, in order.\<close>

definition RAW_CREDENTIAL_MATERIAL_PATTERNS :: "matcher list" where
  "RAW_CREDENTIAL_MATERIAL_PATTERNS =
    [rx_seq (rx_boundary word_char_iu) (rx_seq (rx_text same_fold (js ''sk-'')) (rx_seq (rx_opt (rx_text same_fold (js ''proj-'')))
       (rx_seq (rx_min 8 (class_iu ''_-'')) (rx_boundary word_char_iu)))),
     rx_seq (rx_boundary word_char_iu) (rx_seq (rx_text same_fold (js ''gh'')) (rx_seq (rx_char (\<lambda>c. fold_case c \<in> set (js ''pousr'')))
       (rx_seq (rx_text same_fold (js ''_'')) (rx_seq (rx_min 8 (class_iu ''_'')) (rx_boundary word_char_iu))))),
     rx_seq (rx_boundary word_char) (rx_seq (rx_text same_char (js ''AKIA'')) (rx_seq (rx_min 8 class_upper) (rx_boundary word_char))),
     rx_seq (rx_boundary word_char_iu) (rx_seq (rx_text same_fold (js ''xox'')) (rx_seq (rx_char (\<lambda>c. fold_case c \<in> set (js ''baprs'')))
       (rx_seq (rx_text same_fold (js ''-'')) (rx_seq (rx_min 8 (class_iu ''-'')) (rx_boundary word_char_iu))))),
     rx_seq (rx_boundary word_char_iu) (rx_seq (rx_text same_fold (js ''npm_'')) (rx_seq (rx_min 8 (class_iu [])) (rx_boundary word_char_iu))),
     rx_seq (rx_boundary word_char_iu) (rx_seq (rx_text same_fold (js ''Bearer'')) (rx_seq (rx_min 1 is_white) (rx_min 1 (\<lambda>c. \<not> is_white c)))),
     rx_seq (rx_text same_char (js ''-----BEGIN'')) (rx_seq (rx_opt (rx_seq (rx_text same_char (js '' '')) (rx_min 1 class_upper)))
       (rx_text same_char (js '' PRIVATE KEY-----'')))]"

definition containsRawCredentialMaterial :: "str \<Rightarrow> bool" where
  "containsRawCredentialMaterial t = list_ex (\<lambda>m. regex_test m t) RAW_CREDENTIAL_MATERIAL_PATTERNS"

definition containsCredentialLikeText :: "host \<Rightarrow> str \<Rightarrow> bool" where
  "containsCredentialLikeText h t \<longleftrightarrow> containsCredentialLikeDiffContent h t \<or> containsRawCredentialMaterial t"

text \<open>The content of one file of \<open>containsCredentialLikeTreeContent\<close>.\<close>

definition credential_like_bytes :: "host \<Rightarrow> byte list \<Rightarrow> bool" where
  "credential_like_bytes h content =
     (let bytePreservingText = latin1_decode content;
          nullStrippedText = filter (\<lambda>c. c \<noteq> 0) bytePreservingText
      in if containsCredentialLikeText h bytePreservingText then True
         else if nullStrippedText \<noteq> bytePreservingText \<and> containsCredentialLikeText h nullStrippedText then True
         else (case utf8_decode content of None \<Rightarrow> False | Some t \<Rightarrow>
           if list_ex binary_control t then False else containsCredentialLikeText h t))"

definition SENSITIVE_OFFLINE_FILE_TOKEN :: matcher where
  "SENSITIVE_OFFLINE_FILE_TOKEN =
     (let sep = rx_char (\<lambda>c. c \<in> set (js ''._-'')); word = (\<lambda>w. rx_text same_char (js w))
      in rx_seq (rx_alt rx_start sep) (rx_seq (rx_alt (word ''credential'') (rx_alt (word ''credentials'')
           (rx_alt (word ''secret'') (word ''secrets'')))) (rx_alt sep rx_end)))"

definition isSensitiveOfflineTreePath :: "host \<Rightarrow> str \<Rightarrow> bool" where
  "isSensitiveOfflineTreePath h path \<longleftrightarrow> isSensitiveGovernedPath h path \<or>
     list_ex (regex_test SENSITIVE_OFFLINE_FILE_TOKEN) (split_on SLASH (h_lower h (h_nfkc h path)))"

definition containsCredentialLikeTaskContent :: "host \<Rightarrow> capsule_task \<Rightarrow> bool" where
  "containsCredentialLikeTaskContent h t = list_ex (containsCredentialLikeText h)
     ([ct_taskId t, ct_instruction t] @ ct_successCriteria t @ ct_outOfScope t @ ct_targetPaths t)"

fun containsCredentialLikeStringValue :: "host \<Rightarrow> json \<Rightarrow> bool" where
  "containsCredentialLikeStringValue h (JStr s) = containsCredentialLikeText h s"
| "containsCredentialLikeStringValue h (JArr xs) = list_ex (containsCredentialLikeStringValue h) xs"
| "containsCredentialLikeStringValue h (JObj kvs) = list_ex (\<lambda>(k, v). containsCredentialLikeStringValue h v) kvs"
| "containsCredentialLikeStringValue h _ = False"

end
