(* ===== verification/ContentStore.thy ===== *)
theory ContentStore
  imports CapsuleContracts AuthorizationProofs
begin

text \<open>
  The content-addressed store of \<open>packages/execution-capsule/src/content-addressed-store.ts\<close>: the interface with
  its in-memory implementation, verified reads, and the functions that store and load tasks and
  trees. The callers work on any store, one that lies included: \<open>'s cas\<close> is the interface on a state \<open>'s\<close>.
  The checks for accessors and proxies on the values handed in have no counterpart: the model's values
  are plain data. A number with a fraction in a stored object is an invalid JSON text for the
  model and an invalid schema for the code.
\<close>

section \<open>The interface and the in-memory store\<close>

text \<open>A read may return something other than a plain byte array: \<open>None\<close>.\<close>

record 's cas =
  cas_put :: "byte list \<Rightarrow> digest option \<Rightarrow> ('s, err, digest) sx"
  cas_read :: "digest \<Rightarrow> ('s, err, byte list option) sx"

abbreviation fail :: "string \<Rightarrow> ('s, err, 'a) sx" where
  "fail m \<equiv> sx_throw (Err (js m))"

definition sameBytes :: "byte list \<Rightarrow> byte list \<Rightarrow> bool" where
  "sameBytes left right = (if length left \<noteq> length right then False
     else list_all (\<lambda>i. left ! i = right ! i) [0..<length left])"

lemma sameBytes_iff [simp]: "sameBytes left right \<longleftrightarrow> left = right"
proof -
  have "list_all (\<lambda>i. left ! i = right ! i) [0..<length left] \<longleftrightarrow> (\<forall>i < length left. left ! i = right ! i)"
    by (simp add: list_all_iff Ball_def)
  then show ?thesis using list_eq_iff_nth_eq [of left right] unfolding sameBytes_def by metis
qed

type_synonym blobs = "(str \<times> byte list) list"

definition mem_put :: "capsule_host \<Rightarrow> byte list \<Rightarrow> digest option \<Rightarrow> (blobs, err, digest) sx" where
  "mem_put H bytes expectedDigest =
     (let digest = digestBytes H bytes in
      sx_bind (sx_lift (case expectedDigest of None \<Rightarrow> Inr () | Some d \<Rightarrow>
        bind_res (zod_parse ContentDigestSchema d) (\<lambda>d.
        if d \<noteq> digest then Inl (Err (js ''offline_cas_expected_digest_mismatch'')) else Inr ()))) (\<lambda>_.
      sx_bind (sx_gets (\<lambda>blobs. map_of blobs (dg_hash digest))) (\<lambda>existing.
      case existing of
        Some old \<Rightarrow>
          if \<not> sameBytes old bytes then fail ''offline_cas_digest_conflict''
          else if digestBytes H old \<noteq> digest then fail ''offline_cas_existing_content_corrupt''
          else sx_return digest
      | None \<Rightarrow> sx_bind (sx_modify (AList.update (dg_hash digest) bytes)) (\<lambda>_. sx_return digest))))"

definition mem_read :: "capsule_host \<Rightarrow> digest \<Rightarrow> (blobs, err, byte list option) sx" where
  "mem_read H digestInput =
     sx_bind (sx_lift (zod_parse ContentDigestSchema digestInput)) (\<lambda>digest.
     sx_bind (sx_gets (\<lambda>blobs. map_of blobs (dg_hash digest))) (\<lambda>stored.
     case stored of
       None \<Rightarrow> fail ''offline_cas_content_missing''
     | Some bytes \<Rightarrow> if digestBytes H bytes \<noteq> digest then fail ''offline_cas_content_corrupt''
         else sx_return (Some bytes)))"

definition createInMemoryContentAddressedStore :: "capsule_host \<Rightarrow> blobs cas" where
  "createInMemoryContentAddressedStore H = \<lparr>cas_put = mem_put H, cas_read = mem_read H\<rparr>"

section \<open>Verified reads\<close>

definition readVerifiedBytes :: "capsule_host \<Rightarrow> 's cas \<Rightarrow> digest \<Rightarrow> str \<Rightarrow> ('s, err, byte list) sx" where
  "readVerifiedBytes H C digestInput ctx =
     sx_bind (sx_lift (zod_parse ContentDigestSchema digestInput)) (\<lambda>expected.
     sx_bind (sx_catch (cas_read C expected) (\<lambda>e.
       sx_throw (Err (ctx @ (if e = Err (js ''offline_cas_content_missing'') then js ''_missing'' else js ''_read_failed''))))) (\<lambda>got.
     case got of
       None \<Rightarrow> sx_throw (Err (ctx @ js ''_non_bytes''))
     | Some bytes \<Rightarrow>
         if int (length bytes) \<noteq> dg_size expected then sx_throw (Err (ctx @ js ''_digest_mismatch''))
         else if digestBytes H bytes \<noteq> expected then sx_throw (Err (ctx @ js ''_digest_mismatch''))
         else sx_return bytes))"

text \<open>A schema is a reader of the static type with the conditions on it, and the JSON of the parsed value.\<close>

definition readCanonicalObject ::
  "capsule_host \<Rightarrow> 's cas \<Rightarrow> digest \<Rightarrow> (json option \<Rightarrow> 'a option) \<Rightarrow> ('a \<Rightarrow> bool) \<Rightarrow> ('a \<Rightarrow> json) \<Rightarrow> str \<Rightarrow> ('s, err, 'a) sx" where
  "readCanonicalObject H C digest reader ok to_json ctx =
     sx_bind (readVerifiedBytes H C digest ctx) (\<lambda>bytes.
     case utf8_decode bytes of
       None \<Rightarrow> sx_throw (Err (ctx @ js ''_utf8_invalid''))
     | Some t \<Rightarrow> (case json_parse t of
         None \<Rightarrow> sx_throw (Err (ctx @ js ''_json_invalid''))
       | Some raw \<Rightarrow> (case reader (Some raw) of
           None \<Rightarrow> sx_throw (Err (ctx @ js ''_schema_invalid''))
         | Some x \<Rightarrow>
             if \<not> ok x then sx_throw (Err (ctx @ js ''_schema_invalid''))
             else if \<not> sameBytes bytes (canonicalJsonBytes (to_json x)) then sx_throw (Err (ctx @ js ''_noncanonical_bytes''))
             else sx_return x)))"

section \<open>Tasks\<close>

definition storeCapsuleTask :: "capsule_host \<Rightarrow> 's cas \<Rightarrow> capsule_task \<Rightarrow> ('s, err, digest) sx" where
  "storeCapsuleTask H C taskInput =
     sx_bind (sx_lift (zod_parse (CapsuleTaskContractSchema H) taskInput)) (\<lambda>task.
     cas_put C (canonicalJsonBytes (task_json task)) None)"

definition loadCapsuleTask :: "capsule_host \<Rightarrow> 's cas \<Rightarrow> digest \<Rightarrow> str \<Rightarrow> ('s, err, capsule_task) sx" where
  "loadCapsuleTask H C digest ctx =
     readCanonicalObject H C digest read_task (CapsuleTaskContractSchema H) task_json (js ''offline_capsule_'' @ ctx)"

section \<open>Trees\<close>

record tree_file =
  tf_path :: str
  tf_mode :: file_mode
  tf_content :: "byte list"

record loaded_file = tree_file +
  lf_digest :: digest

record stored_tree =
  sd_manifest :: tree_manifest
  sd_digest :: digest

record loaded_tree = stored_tree +
  lt_files :: "loaded_file list"

fun snapshotPassiveFileArray :: "host \<Rightarrow> str set \<Rightarrow> tree_file list \<Rightarrow> err + tree_file list" where
  "snapshotPassiveFileArray h aliases [] = Inr []"
| "snapshotPassiveFileArray h aliases (f # fs) =
     (let alias = canonicalPathAlias h (tf_path f)
      in if alias \<in> aliases then Inl (Err (js ''offline_capsule_tree_path_alias_collision''))
         else bind_res (snapshotPassiveFileArray h (insert alias aliases) fs) (\<lambda>snapshots. Inr (f # snapshots)))"

definition snapshotPassiveReuseFiles :: "loaded_tree option \<Rightarrow> err + loaded_file list" where
  "snapshotPassiveReuseFiles reuse = (case reuse of None \<Rightarrow> Inr [] | Some tr \<Rightarrow>
     map_res (\<lambda>f. if ContentDigestSchema (lf_digest f) then Inr f
       else Inl (Err (js ''offline_capsule_reuse_file_invalid''))) (lt_files tr))"

definition placeholderBlob :: digest where
  "placeholderBlob = \<lparr>dg_hash = replicate 64 48, dg_size = 0\<rparr>"

definition validateContentTreeFilesBeforeStore :: "capsule_host \<Rightarrow> tree_file list \<Rightarrow> err + unit" where
  "validateContentTreeFilesBeforeStore H files =
     bind_res (createContentTreeManifest H
       (map (\<lambda>f. \<lparr>en_path = tf_path f, en_mode = tf_mode f, en_blob = placeholderBlob\<rparr>) files)) (\<lambda>_. Inr ())"

definition store_file :: "'s cas \<Rightarrow> loaded_file list \<Rightarrow> tree_file \<Rightarrow> ('s, err, tree_entry) sx" where
  "store_file C reuseFiles f =
     sx_bind (case map_of (rev (map (\<lambda>r. (tf_path r, r)) reuseFiles)) (tf_path f) of
         Some reusable \<Rightarrow>
           if tf_mode reusable = tf_mode f \<and> sameBytes (tf_content reusable) (tf_content f)
           then cas_put C (tf_content f) (Some (lf_digest reusable)) else cas_put C (tf_content f) None
       | None \<Rightarrow> cas_put C (tf_content f) None)
     (\<lambda>blob. sx_return \<lparr>en_path = tf_path f, en_mode = tf_mode f, en_blob = blob\<rparr>)"

definition storeContentTree ::
  "capsule_host \<Rightarrow> 's cas \<Rightarrow> tree_file list \<Rightarrow> loaded_tree option \<Rightarrow> ('s, err, stored_tree) sx" where
  "storeContentTree H C filesInput reuseFrom =
     sx_bind (sx_lift (snapshotPassiveFileArray (ch_host H) {} filesInput)) (\<lambda>files.
     sx_bind (sx_lift (validateContentTreeFilesBeforeStore H files)) (\<lambda>_.
     sx_bind (sx_lift (snapshotPassiveReuseFiles reuseFrom)) (\<lambda>reuseFiles.
     sx_bind (sx_maps (store_file C reuseFiles) files) (\<lambda>entries.
     sx_bind (sx_lift (createContentTreeManifest H entries)) (\<lambda>manifest.
     sx_bind (cas_put C (canonicalJsonBytes (tree_json manifest)) None) (\<lambda>digest.
     sx_return \<lparr>sd_manifest = manifest, sd_digest = digest\<rparr>))))))"

definition loadContentTreeManifest ::
  "capsule_host \<Rightarrow> 's cas \<Rightarrow> digest \<Rightarrow> str \<Rightarrow> ('s, err, stored_tree) sx" where
  "loadContentTreeManifest H C digest ctx =
     sx_bind (readCanonicalObject H C digest read_tree (ContentTreeManifestSchema H) tree_json
       (js ''offline_capsule_'' @ ctx @ js ''_manifest'')) (\<lambda>manifest.
     sx_bind (sx_lift (zod_parse ContentDigestSchema digest)) (\<lambda>d.
     sx_return \<lparr>sd_manifest = manifest, sd_digest = d\<rparr>))"

definition load_file :: "capsule_host \<Rightarrow> 's cas \<Rightarrow> str \<Rightarrow> tree_entry \<Rightarrow> ('s, err, loaded_file) sx" where
  "load_file H C ctx e =
     sx_bind (readVerifiedBytes H C (en_blob e) (js ''offline_capsule_'' @ ctx @ js ''_blob'')) (\<lambda>content.
     sx_return \<lparr>tf_path = en_path e, tf_mode = en_mode e, tf_content = content, lf_digest = en_blob e\<rparr>)"

definition loadContentTree ::
  "capsule_host \<Rightarrow> 's cas \<Rightarrow> digest \<Rightarrow> str \<Rightarrow> ('s, err, loaded_tree) sx" where
  "loadContentTree H C digest ctx =
     sx_bind (loadContentTreeManifest H C digest ctx) (\<lambda>st.
     sx_bind (sx_maps (load_file H C ctx) (tm_entries (sd_manifest st))) (\<lambda>files.
     sx_return \<lparr>sd_manifest = sd_manifest st, sd_digest = sd_digest st, lt_files = files\<rparr>))"


section \<open>What a load proves, whatever the store\<close>

lemma sx_catch_Inr: "sx_catch m f s = (Inr x, t) \<longleftrightarrow> m s = (Inr x, t) \<or> (\<exists>e u. m s = (Inl e, u) \<and> f e u = (Inr x, t))"
  by (auto simp: sx_catch_def split: prod.splits sum.splits)

lemma readVerifiedBytes_sound:
  "readVerifiedBytes H C d ctx s = (Inr bytes, t) \<Longrightarrow> digestBytes H bytes = d \<and> ContentDigestSchema d"
  by (auto simp: readVerifiedBytes_def sx_bind_Inr split: option.splits if_splits)

lemma readCanonicalObject_sound:
  "readCanonicalObject H C d reader ok to_json ctx s = (Inr x, t) \<Longrightarrow>
   ok x \<and> digestCanonicalJson H (to_json x) = d \<and> ContentDigestSchema d"
  by (auto simp: readCanonicalObject_def sx_bind_Inr digestCanonicalJson_def
      dest!: readVerifiedBytes_sound split: option.splits if_splits)

lemma sx_maps_all:
  "sx_maps f xs s = (Inr ys, t) \<Longrightarrow> (\<And>x s y t. x \<in> set xs \<Longrightarrow> f x s = (Inr y, t) \<Longrightarrow> P x y) \<Longrightarrow> list_all2 P xs ys"
proof (induction xs arbitrary: s ys)
  case (Cons x xs)
  then obtain y u zs where "f x s = (Inr y, u)" "sx_maps f xs u = (Inr zs, t)" "ys = y # zs" by (auto simp: sx_bind_Inr)
  with Cons.prems(2) Cons.IH show ?case by simp
qed simp

definition file_of_entry :: "capsule_host \<Rightarrow> tree_entry \<Rightarrow> loaded_file \<Rightarrow> bool" where
  "file_of_entry H e f \<longleftrightarrow> tf_path f = en_path e \<and> tf_mode f = en_mode e \<and> lf_digest f = en_blob e \<and>
     digestBytes H (tf_content f) = en_blob e"

lemma loadContentTreeManifest_sound:
  "loadContentTreeManifest H C d ctx s = (Inr st, t) \<Longrightarrow>
   sd_digest st = d \<and> digestCanonicalJson H (tree_json (sd_manifest st)) = d \<and> ContentTreeManifestSchema H (sd_manifest st)"
  by (auto simp: loadContentTreeManifest_def sx_bind_Inr dest!: readCanonicalObject_sound)

lemma loadContentTree_sound:
  assumes "loadContentTree H C d ctx s = (Inr tr, t)"
  shows "sd_digest tr = d \<and> digestCanonicalJson H (tree_json (sd_manifest tr)) = d \<and> ContentTreeManifestSchema H (sd_manifest tr) \<and>
    list_all2 (file_of_entry H) (tm_entries (sd_manifest tr)) (lt_files tr)"
proof -
  from assms obtain st u files where st: "loadContentTreeManifest H C d ctx s = (Inr st, u)"
    and files: "sx_maps (load_file H C ctx) (tm_entries (sd_manifest st)) u = (Inr files, t)"
    and tr: "tr = \<lparr>sd_manifest = sd_manifest st, sd_digest = sd_digest st, lt_files = files\<rparr>"
    by (auto simp: loadContentTree_def sx_bind_Inr)
  have "list_all2 (file_of_entry H) (tm_entries (sd_manifest st)) files"
    by (rule sx_maps_all [OF files])
       (auto simp: load_file_def sx_bind_Inr file_of_entry_def dest!: readVerifiedBytes_sound)
  with loadContentTreeManifest_sound [OF st] tr show ?thesis by simp
qed

text \<open>The entry and the loaded file of a file of a stored tree.\<close>

definition entry_of :: "capsule_host \<Rightarrow> tree_file \<Rightarrow> tree_entry" where
  "entry_of H f = \<lparr>en_path = tf_path f, en_mode = tf_mode f, en_blob = digestBytes H (tf_content f)\<rparr>"

definition loaded :: "capsule_host \<Rightarrow> tree_file \<Rightarrow> loaded_file" where
  "loaded H f = \<lparr>tf_path = tf_path f, tf_mode = tf_mode f, tf_content = tf_content f, lf_digest = digestBytes H (tf_content f)\<rparr>"

lemma insort_entries: "insort_key en_path (entry_of H f) (map (entry_of H) fs) = map (entry_of H) (insort_key tf_path f fs)"
  by (induction fs) (auto simp: entry_of_def)

lemma sort_entries: "sort_key en_path (map (entry_of H) fs) = map (entry_of H) (sort_key tf_path fs)"
  by (induction fs) (simp_all add: insort_entries)

lemma sx_maps_map: "sx_maps f (map g xs) = sx_maps (\<lambda>x. f (g x)) xs"
  by (induction xs) simp_all

lemma sx_maps_run: "(\<And>x. x \<in> set xs \<Longrightarrow> f x s = (Inr (g x), s)) \<Longrightarrow> sx_maps f xs s = (Inr (map g xs), s)"
  by (induction xs) (simp_all add: sx_bind_def sx_return_def)

lemma snapshot_same: "snapshotPassiveFileArray h aliases files = Inr snapshots \<Longrightarrow> snapshots = files"
  by (induction files arbitrary: aliases snapshots) (auto simp: Let_def bind_res_Inr split: if_splits)

lemma createContentTreeManifest_ok:
  assumes "createContentTreeManifest H entries = Inr m"
  shows "tm_entries m = sort_key en_path entries \<and> ContentTreeManifestSchema H m \<and> (\<forall>e \<in> set entries. ContentDigestSchema (en_blob e))"
proof -
  from assms obtain parsed where parsed: "map_res (zod_parse (ContentTreeEntrySchema H)) entries = Inr parsed"
    and m: "tm_entries m = sort_key en_path parsed" "ContentTreeManifestSchema H m"
    by (auto simp: createContentTreeManifest_def bind_res_Inr Let_def)
  have "parsed = entries \<and> (\<forall>e \<in> set entries. ContentTreeEntrySchema H e)"
    using parsed by (induction entries arbitrary: parsed) (auto simp: bind_res_Inr)
  with m show ?thesis by (simp add: ContentTreeEntrySchema_def)
qed

section \<open>The contract of a store\<close>

text \<open>What a store holds: a read of the digest of the bytes returns them and changes nothing.\<close>

definition holds :: "capsule_host \<Rightarrow> 's cas \<Rightarrow> 's \<Rightarrow> byte list \<Rightarrow> bool" where
  "holds H C s bytes \<longleftrightarrow> cas_read C (digestBytes H bytes) s = (Inr (Some bytes), s)"

lemma verified_read_run:
  assumes "cas_read C (digestBytes H bytes) s = (Inr (Some bytes), t)" "ContentDigestSchema (digestBytes H bytes)"
  shows "readVerifiedBytes H C (digestBytes H bytes) ctx s = (Inr bytes, t)"
proof -
  have "int (length bytes) = dg_size (digestBytes H bytes)" by (simp add: digestBytes_def)
  with assms show ?thesis
    by (simp add: readVerifiedBytes_def zod_parse_ok sx_catch_def sx_bind_def sx_return_def sx_lift_def)
qed

lemma canonical_read_run:
  assumes "cas_read C (digestCanonicalJson H (to_json x)) s = (Inr (Some (canonicalJsonBytes (to_json x))), t)"
    and "ContentDigestSchema (digestCanonicalJson H (to_json x))" "keys_distinct (to_json x)"
    and "reader (Some (sorted_json (to_json x))) = Some x" "ok x"
  shows "readCanonicalObject H C (digestCanonicalJson H (to_json x)) reader ok to_json ctx s = (Inr x, t)"
  using verified_read_run [of C H "canonicalJsonBytes (to_json x)" s t] canonical_bytes_parse [OF assms(3)] assms
  by (simp add: readCanonicalObject_def digestCanonicalJson_def sx_bind_def canonical_bytes_text sx_return_def)

locale content_store =
  fixes H :: capsule_host and C :: "'s cas"
  assumes put_holds: "cas_put C bytes expected s = (Inr d, t) \<Longrightarrow> ContentDigestSchema d \<Longrightarrow> d = digestBytes H bytes \<and> holds H C t bytes"
    and put_keeps: "cas_put C bytes expected s = (r, t) \<Longrightarrow> holds H C s old \<Longrightarrow> holds H C t old"
begin

lemma verified_read:
  assumes "holds H C s bytes" "ContentDigestSchema (digestBytes H bytes)"
  shows "readVerifiedBytes H C (digestBytes H bytes) ctx s = (Inr bytes, s)"
  using assms by (simp add: verified_read_run holds_def)

lemma canonical_read:
  assumes "holds H C s (canonicalJsonBytes (to_json x))" "ContentDigestSchema (digestCanonicalJson H (to_json x))"
    and "keys_distinct (to_json x)" "reader (Some (sorted_json (to_json x))) = Some x" "ok x"
  shows "readCanonicalObject H C (digestCanonicalJson H (to_json x)) reader ok to_json ctx s = (Inr x, s)"
  using assms by (intro canonical_read_run) (simp_all add: holds_def digestCanonicalJson_def)

lemma task_stored:
  assumes "storeCapsuleTask H C task s = (Inr d, t)" "ContentDigestSchema d"
  shows "loadCapsuleTask H C d ctx t = (Inr task, t)"
proof -
  from assms have ok: "CapsuleTaskContractSchema H task"
    and put: "cas_put C (canonicalJsonBytes (task_json task)) None s = (Inr d, t)"
    by (auto simp: storeCapsuleTask_def sx_bind_Inr)
  from put_holds [OF put assms(2)] have d: "d = digestCanonicalJson H (task_json task)"
    and held: "holds H C t (canonicalJsonBytes (task_json task))" by (simp_all add: digestCanonicalJson_def)
  have "ContentDigestSchema (digestCanonicalJson H (task_json task))" using assms(2) d by simp
  then show ?thesis
    unfolding loadCapsuleTask_def d
    by (intro canonical_read held keys_distinct_task read_task_sorted ok)
qed

lemma files_stored:
  "sx_maps (store_file C reuseFiles) files s = (Inr entries, t) \<Longrightarrow> \<forall>e \<in> set entries. ContentDigestSchema (en_blob e) \<Longrightarrow>
   entries = map (entry_of H) files \<and> (\<forall>f \<in> set files. holds H C t (tf_content f)) \<and>
   (\<forall>old. holds H C s old \<longrightarrow> holds H C t old)"
proof (induction files arbitrary: s entries)
  case (Cons f fs)
  from Cons.prems(1) obtain e u es where e: "store_file C reuseFiles f s = (Inr e, u)"
    and es: "sx_maps (store_file C reuseFiles) fs u = (Inr es, t)" and entries: "entries = e # es"
    by (auto simp: sx_bind_Inr)
  from e obtain expected where put: "cas_put C (tf_content f) expected s = (Inr (en_blob e), u)"
    and fields: "en_path e = tf_path f" "en_mode e = tf_mode f"
    by (auto simp: store_file_def sx_bind_Inr split: option.splits if_splits)
  have "ContentDigestSchema (en_blob e)" and rest: "\<forall>e \<in> set es. ContentDigestSchema (en_blob e)"
    using Cons.prems(2) entries by simp_all
  with put_holds [OF put] have blob: "en_blob e = digestBytes H (tf_content f)" and held: "holds H C u (tf_content f)" by simp_all
  from blob fields have "e = entry_of H f" by (simp add: entry_of_def)
  moreover from Cons.IH [OF es rest] have "es = map (entry_of H) fs" "\<forall>f \<in> set fs. holds H C t (tf_content f)"
    and keeps: "holds H C u old \<Longrightarrow> holds H C t old" for old by blast+
  moreover have "holds H C t (tf_content f)" by (rule keeps [OF held])
  moreover have "holds H C t old" if "holds H C s old" for old by (rule keeps [OF put_keeps [OF put that]])
  ultimately show ?case using entries by simp
qed simp

lemma tree_stored:
  assumes stored: "storeContentTree H C files reuse s = (Inr sd, t)" and small: "ContentDigestSchema (sd_digest sd)"
  shows "loadContentTree H C (sd_digest sd) ctx t =
    (Inr \<lparr>sd_manifest = sd_manifest sd, sd_digest = sd_digest sd, lt_files = map (loaded H) (sort_key tf_path files)\<rparr>, t)"
proof -
  from stored obtain reuseFiles u entries v where entries: "sx_maps (store_file C reuseFiles) files s = (Inr entries, v)"
    and manifest: "createContentTreeManifest H entries = Inr (sd_manifest sd)"
    and put: "cas_put C (canonicalJsonBytes (tree_json (sd_manifest sd))) None v = (Inr (sd_digest sd), t)"
    by (auto simp: storeContentTree_def sx_bind_Inr dest!: snapshot_same)
  have m: "tm_entries (sd_manifest sd) = sort_key en_path entries" "ContentTreeManifestSchema H (sd_manifest sd)"
    "\<forall>e \<in> set entries. ContentDigestSchema (en_blob e)"
    using createContentTreeManifest_ok [OF manifest] by simp_all
  from files_stored [OF entries m(3)] have es: "entries = map (entry_of H) files"
    and held: "\<forall>f \<in> set files. holds H C v (tf_content f)" by blast+
  from put_holds [OF put small] have d: "sd_digest sd = digestCanonicalJson H (tree_json (sd_manifest sd))"
    and tree: "holds H C t (canonicalJsonBytes (tree_json (sd_manifest sd)))" by (simp_all add: digestCanonicalJson_def)
  have "readCanonicalObject H C (digestCanonicalJson H (tree_json (sd_manifest sd))) read_tree (ContentTreeManifestSchema H)
      tree_json c t = (Inr (sd_manifest sd), t)" for c
    using small d by (intro canonical_read tree keys_distinct_tree read_tree_sorted m(2)) simp
  then have load: "loadContentTreeManifest H C (sd_digest sd) ctx t = (Inr \<lparr>sd_manifest = sd_manifest sd, sd_digest = sd_digest sd\<rparr>, t)"
    using small unfolding loadContentTreeManifest_def d by (simp add: sx_bind_def sx_return_def sx_lift_def zod_parse_ok)
  have "load_file H C ctx (entry_of H f) t = (Inr (loaded H f), t)" if f: "f \<in> set (sort_key tf_path files)" for f
  proof -
    have "holds H C t (tf_content f)" using f held put_keeps [OF put] by simp
    moreover have "ContentDigestSchema (digestBytes H (tf_content f))" using m(3) es f by (simp add: entry_of_def)
    ultimately show ?thesis
      by (simp add: load_file_def entry_of_def sx_bind_def verified_read sx_return_def loaded_def)
  qed
  from sx_maps_run [of _ "\<lambda>f. load_file H C ctx (entry_of H f)", OF this]
  have "sx_maps (load_file H C ctx) (tm_entries (sd_manifest sd)) t = (Inr (map (loaded H) (sort_key tf_path files)), t)"
    unfolding m(1) es sort_entries sx_maps_map .
  with load show ?thesis by (simp add: loadContentTree_def sx_bind_def sx_return_def)
qed

end


section \<open>The in-memory store keeps the contract\<close>

lemma mem_put_Inr:
  "mem_put H bytes expected s = (Inr d, t) \<longleftrightarrow> d = digestBytes H bytes \<and>
     (case expected of None \<Rightarrow> True | Some x \<Rightarrow> ContentDigestSchema x \<and> x = d) \<and>
     (case map_of s (dg_hash d) of None \<Rightarrow> t = AList.update (dg_hash d) bytes s | Some old \<Rightarrow> old = bytes \<and> t = s)"
  by (auto simp: mem_put_def Let_def sx_bind_Inr bind_res_Inr sx_gets_def sx_modify_def split: option.splits if_splits)

lemma mem_read_Inr:
  "mem_read H d s = (Inr got, t) \<longleftrightarrow> ContentDigestSchema d \<and>
     (\<exists>bytes. map_of s (dg_hash d) = Some bytes \<and> digestBytes H bytes = d \<and> got = Some bytes) \<and> t = s"
  by (auto simp: mem_read_def sx_bind_Inr sx_gets_def split: option.splits if_splits)

lemma mem_put_state:
  assumes "mem_put H bytes expected s = (r, t)"
  shows "t = s \<or> map_of s (dg_hash (digestBytes H bytes)) = None \<and> t = AList.update (dg_hash (digestBytes H bytes)) bytes s"
  using assms
  by (auto simp: mem_put_def Let_def sx_defs split: option.splits if_splits sum.splits)

lemma holds_mem:
  "holds H (createInMemoryContentAddressedStore H) s bytes \<longleftrightarrow>
     ContentDigestSchema (digestBytes H bytes) \<and> map_of s (dg_hash (digestBytes H bytes)) = Some bytes"
  by (auto simp: holds_def createInMemoryContentAddressedStore_def mem_read_Inr)

interpretation mem: content_store H "createInMemoryContentAddressedStore H" for H
proof
  fix bytes expected s d t
  assume put: "cas_put (createInMemoryContentAddressedStore H) bytes expected s = (Inr d, t)" and d: "ContentDigestSchema d"
  then show "d = digestBytes H bytes \<and> holds H (createInMemoryContentAddressedStore H) t bytes"
    by (auto simp: createInMemoryContentAddressedStore_def mem_put_Inr holds_mem [unfolded createInMemoryContentAddressedStore_def]
        map_of_update split: option.splits)
next
  fix bytes expected s t old and r :: "err + digest"
  assume "cas_put (createInMemoryContentAddressedStore H) bytes expected s = (r, t)"
    "holds H (createInMemoryContentAddressedStore H) s old"
  then show "holds H (createInMemoryContentAddressedStore H) t old"
    by (auto simp: createInMemoryContentAddressedStore_def holds_mem [unfolded createInMemoryContentAddressedStore_def]
        map_of_update dest!: mem_put_state)
qed

text \<open>The in-memory store only ever holds content under its own digest.\<close>

definition blobs_ok :: "capsule_host \<Rightarrow> blobs \<Rightarrow> bool" where
  "blobs_ok H s \<longleftrightarrow> distinct (map fst s) \<and> list_all (\<lambda>(k, bytes). k = ch_sha256 H bytes) s"

lemma mem_put_blobs_ok:
  assumes "blobs_ok H s" "mem_put H bytes expected s = (r, t)"
  shows "blobs_ok H t"
proof -
  have "t = s \<or> ch_sha256 H bytes \<notin> set (map fst s) \<and> t = s @ [(ch_sha256 H bytes, bytes)]"
    using mem_put_state [OF assms(2)] by (auto simp: digestBytes_def map_of_is_None map_snd_update_fresh simp del: set_map)
  then show ?thesis using assms(1) by (auto simp: blobs_ok_def)
qed

text \<open>
  A content tree stored in the in-memory store is loaded back by the digest that storing returned: the same
  manifest, and the files sorted by path, each with its mode, its bytes and their digest.
\<close>

theorem stored_tree_loads:
  assumes "storeContentTree H (createInMemoryContentAddressedStore H) files reuse s = (Inr sd, t)"
    and "ContentDigestSchema (sd_digest sd)"
  shows "loadContentTree H (createInMemoryContentAddressedStore H) (sd_digest sd) ctx t =
    (Inr \<lparr>sd_manifest = sd_manifest sd, sd_digest = sd_digest sd, lt_files = map (loaded H) (sort_key tf_path files)\<rparr>, t)"
  using assms by (rule mem.tree_stored)

text \<open>
  C18: Whatever the store returns, a loaded tree is the one its digest names: the canonical bytes of its manifest have
  that digest, the manifest satisfies its schema, and each file has the path, mode and digest of its entry
  and content with that digest.
\<close>

theorem loaded_tree_authentic:
  assumes "loadContentTree H C d ctx s = (Inr tr, t)"
  shows "sd_digest tr = d \<and> digestCanonicalJson H (tree_json (sd_manifest tr)) = d \<and> ContentTreeManifestSchema H (sd_manifest tr) \<and>
    list_all2 (\<lambda>e f. tf_path f = en_path e \<and> tf_mode f = en_mode e \<and> lf_digest f = en_blob e \<and>
      digestBytes H (tf_content f) = en_blob e) (tm_entries (sd_manifest tr)) (lt_files tr)"
  using loadContentTree_sound [OF assms] by (simp add: file_of_entry_def cong: list.rel_cong)


section \<open>The size of canonical bytes\<close>

fun json_size :: "json \<Rightarrow> nat" where
  "json_size JNull = 4"
| "json_size (JBool b) = 5"
| "json_size (JNum n) = nat \<bar>n\<bar> + 2"
| "json_size (JStr s) = 6 * length s + 2"
| "json_size (JArr xs) = 2 + sum_list (map (\<lambda>x. json_size x + 1) xs)"
| "json_size (JObj kvs) = 2 + sum_list (map (\<lambda>(k, v). 6 * length k + json_size v + 4) kvs)"

lemma utf8_encode_length: "length (utf8_encode s) \<le> 3 * length s"
proof -
  have "length (utf8_bytes n) \<le> (if n < 65536 then 3 else 4)" for n by (simp add: utf8_bytes_def)
  note b = this
  have "length (concat (map utf8_bytes (code_points s))) \<le> 3 * length s"
  proof (induction s rule: code_points.induct)
    case (2 c)
    show ?case using b [of "if surrogate c then 65533 else unat c"] unsigned_less [of c, where 'a = nat] by (simp split: if_splits)
  next
    case (3 c d cs)
    show ?case
    proof (cases "high_surrogate c \<and> low_surrogate d")
      case True
      with 3(1) b [of "65536 + (unat c - 55296) * 1024 + (unat d - 56320)"] show ?thesis by simp
    next
      case False
      then have "code_points (c # d # cs) = (if surrogate c then 65533 else unat c) # code_points (d # cs)" by (simp only: code_points.simps if_False)
      then show ?thesis using 3(2) [OF False] b [of "if surrogate c then 65533 else unat c"] unsigned_less [of c, where 'a = nat]
        by (simp del: code_points.simps split: if_splits)
    qed
  qed simp
  then show ?thesis by (simp add: utf8_encode_def)
qed

lemma json_escape_length: "length (json_escape c) \<le> 6"
  by (simp add: json_escape_def hex4_def Let_def)

lemma json_body_length: "length (json_body s) \<le> 6 * length s"
proof (induction s rule: json_body.induct)
  case (2 c)
  then show ?case using json_escape_length [of c] by simp
next
  case (3 c d cs)
  then show ?case using json_escape_length [of c] by auto
qed simp

lemma json_quote_length: "length (json_quote s) \<le> 6 * length s + 2"
  using json_body_length [of s] by (simp add: json_quote_def)

lemma dec_nat_length: "length (dec_nat n) \<le> n + 1"
proof (induction n rule: dec_nat.induct)
  case (1 n)
  show ?case
  proof (cases "n < 10")
    case False
    then have "length (dec_nat n) \<le> n div 10 + 2" using 1 by (subst dec_nat.simps) simp
    also have "n div 10 + 2 \<le> n + 1" using False by linarith
    finally show ?thesis .
  qed (subst dec_nat.simps, simp)
qed

lemma join_length: "length (join_with (js '','') ws) \<le> sum_list (map (\<lambda>w. length w + 1) ws)"
  by (induction "js '',''" ws rule: join_with.induct) (simp_all add: js_def)

lemma member_length: "length (member_text kv) \<le> 6 * length (fst kv) + length (snd kv) + 3"
  using json_quote_length [of "fst kv"] by (simp add: member_text_def)

lemma sum_list_sort: "sum_list (map f (sort_key g xs)) = sum_list (map (f :: 'a \<Rightarrow> nat) xs)"
  by (metis mset_map mset_sort sum_mset_sum_list)

lemma stableStringify_length: "length (stableStringify x) \<le> json_size x"
proof (induction x rule: stableStringify.induct)
  case (3 n)
  show ?case using dec_nat_length [of "nat n"] dec_nat_length [of "nat (- n)"] by (simp add: dec_int_def js_def)
next
  case (4 s)
  show ?case using json_quote_length by simp
next
  case (5 xs)
  have "length (join_with (js '','') (map stableStringify xs)) \<le> sum_list (map (\<lambda>x. length (stableStringify x) + 1) xs)"
    using join_length [of "map stableStringify xs"] by (simp add: comp_def)
  also have "\<dots> \<le> sum_list (map (\<lambda>x. json_size x + 1) xs)" using 5 by (intro sum_list_mono) simp
  finally show ?case by (simp add: js_def)
next
  case (6 kvs)
  let ?ms = "map (\<lambda>(k, v). (k, stableStringify v)) kvs"
  have "length (join_with (js '','') (map member_text (sort_key fst ?ms))) \<le> sum_list (map (\<lambda>m. length (member_text m) + 1) (sort_key fst ?ms))"
    using join_length [of "map member_text (sort_key fst ?ms)"] by (simp add: comp_def)
  also have "\<dots> = sum_list (map (\<lambda>m. length (member_text m) + 1) ?ms)" by (rule sum_list_sort)
  also have "\<dots> = sum_list (map (\<lambda>kv. length (member_text (fst kv, stableStringify (snd kv))) + 1) kvs)"
    by (simp add: comp_def case_prod_beta)
  also have "\<dots> \<le> sum_list (map (\<lambda>(k, v). 6 * length k + json_size v + 4) kvs)"
  proof (rule sum_list_mono, clarify)
    fix k v assume "(k, v) \<in> set kvs"
    with 6 have "length (stableStringify v) \<le> json_size v" by blast
    then show "length (member_text (fst (k, v), stableStringify (snd (k, v)))) + 1 \<le> 6 * length k + json_size v + 4"
      using member_length [of "(k, stableStringify v)"] by simp
  qed
  finally show ?case by (simp add: js_def)
qed (simp_all add: js_def)

lemma canonical_bytes_length: "length (canonicalJsonBytes x) \<le> 3 * json_size x"
  unfolding canonicalJsonBytes_def using utf8_encode_length [of "stableStringify x"] stableStringify_length [of x] by linarith

lemma canonical_bytes_object: "\<exists>bs. canonicalJsonBytes (JObj kvs) = 123 # bs"
proof -
  have "\<exists>bs. utf8_encode (123 # s) = 123 # bs" for s
    by (cases s) (simp_all add: utf8_encode_def utf8_bytes_def surrogate_def surrogate_unat)
  moreover have "js ''{'' = [123]" by code_simp
  ultimately show ?thesis by (simp add: canonicalJsonBytes_def)
qed

section \<open>A small store\<close>

definition demo_capsule_host :: capsule_host where
  "demo_capsule_host = \<lparr>ch_host = plain_host, ch_sha256 = (\<lambda>bytes. replicate 64 (if take 1 bytes = [123] then 97 else 48)),
     ch_date = (\<lambda>_. None), ch_datetime = (\<lambda>_. True)\<rparr>"

definition demo_tree :: "tree_file list" where
  "demo_tree = [\<lparr>tf_path = js ''a.ts'', tf_mode = Mode644, tf_content = [104, 105]\<rparr>]"

lemma demo_hash: "sha256_hex (ch_sha256 demo_capsule_host bytes)"
  by (simp add: demo_capsule_host_def sha256_hex_def list_all_iff is_digit_def)

lemma demo_digest: "length bytes \<le> 1000000 \<Longrightarrow> ContentDigestSchema (digestBytes demo_capsule_host bytes)"
  by (simp add: digestBytes_def ContentDigestSchema_def demo_hash)

lemma demo_path: "CapsulePathSchema plain_host (js ''a.ts'')"
  by code_simp


text \<open>An unpaired high surrogate at the end of a path is not noticed.\<close>

lemma trailing_surrogate_in_capsule_path: "CapsulePathSchema plain_host (js ''a'' @ [0xD800])"
  by code_simp

abbreviation demo_cas :: "blobs cas" where
  "demo_cas \<equiv> createInMemoryContentAddressedStore demo_capsule_host"

definition demo_manifest :: "digest \<Rightarrow> tree_manifest" where
  "demo_manifest b = (let entries = [\<lparr>en_path = js ''a.ts'', en_mode = Mode644, en_blob = b\<rparr>]
     in \<lparr>tm_entries = entries, tm_rootDigest = tree_root_digest demo_capsule_host entries\<rparr>)"

definition small_digest :: "digest \<Rightarrow> bool" where
  "small_digest b \<longleftrightarrow> sha256_hex (dg_hash b) \<and> 0 \<le> dg_size b \<and> dg_size b \<le> 2"

lemma demo_blob: "small_digest placeholderBlob" "digestBytes demo_capsule_host [104, 105] = \<lparr>dg_hash = replicate 64 48, dg_size = 2\<rparr>"
  "small_digest \<lparr>dg_hash = replicate 64 48, dg_size = 2\<rparr>"
  by (simp_all add: digestBytes_def demo_capsule_host_def small_digest_def placeholderBlob_def sha256_hex_def list_all_iff is_digit_def)

lemma small_digest_nat: "small_digest b \<Longrightarrow> nat (dg_size b) \<le> 2"
  by (auto simp: small_digest_def nat_le_iff)

lemma demo_root_size:
  assumes "small_digest b"
  shows "length (canonicalJsonBytes (JObj [(js ''schemaVersion'', JStr (js ''content-tree-root.v1'')),
    (js ''entries'', JArr (map entry_json (tm_entries (demo_manifest b))))])) \<le> 20000"
  by (rule order_trans [OF canonical_bytes_length])
    (use assms small_digest_nat [OF assms] in \<open>simp add: demo_manifest_def Let_def small_digest_def entry_json_def digest_json_def mode_name_def js_def sha256_hex_def\<close>)

lemma demo_root_digest: "tm_rootDigest (demo_manifest b) = tree_root_digest demo_capsule_host (tm_entries (demo_manifest b))"
  by (simp add: demo_manifest_def Let_def)

lemma demo_create:
  assumes "small_digest b"
  shows "createContentTreeManifest demo_capsule_host (tm_entries (demo_manifest b)) = Inr (demo_manifest b)"
proof -
  have h: "ch_host demo_capsule_host = plain_host" by (simp add: demo_capsule_host_def)
  have "ContentDigestSchema b" using assms by (simp add: small_digest_def ContentDigestSchema_def)
  then have entries: "list_all (ContentTreeEntrySchema demo_capsule_host) (tm_entries (demo_manifest b))"
    using demo_path by (simp add: demo_manifest_def Let_def ContentTreeEntrySchema_def h)
  have "ContentDigestSchema (tree_root_digest demo_capsule_host (tm_entries (demo_manifest b)))"
    unfolding tree_root_digest_def digestCanonicalJson_def by (rule demo_digest) (use demo_root_size [OF assms] in linarith)
  then have "ContentTreeManifestSchema demo_capsule_host (demo_manifest b)"
    using entries by (simp add: ContentTreeManifestSchema_def demo_root_digest) (simp add: demo_manifest_def Let_def)
  moreover have "map_res (zod_parse (ContentTreeEntrySchema demo_capsule_host)) (tm_entries (demo_manifest b)) = Inr (tm_entries (demo_manifest b))"
    using entries by (intro map_res_id) (auto simp: list_all_iff zod_parse_ok)
  moreover have "sort_key en_path (tm_entries (demo_manifest b)) = tm_entries (demo_manifest b)" by (simp add: demo_manifest_def Let_def)
  ultimately show ?thesis
    using demo_root_digest [of b] unfolding createContentTreeManifest_def by (cases "demo_manifest b") simp
qed

lemma demo_tree_digest:
  assumes "small_digest b"
  shows "ContentDigestSchema (digestCanonicalJson demo_capsule_host (tree_json (demo_manifest b)))"
  unfolding digestCanonicalJson_def
proof (rule demo_digest, rule order_trans [OF canonical_bytes_length])
  have "length (dg_hash (tm_rootDigest (demo_manifest b))) = 64" "nat (dg_size (tm_rootDigest (demo_manifest b))) \<le> 20000"
    "0 \<le> dg_size (tm_rootDigest (demo_manifest b))"
    using demo_root_size [OF assms] demo_hash [unfolded sha256_hex_def]
    by (simp_all add: demo_root_digest tree_root_digest_def digestCanonicalJson_def digestBytes_def)
  then show "3 * json_size (tree_json (demo_manifest b)) \<le> 1000000"
    using assms small_digest_nat [OF assms] by (simp add: tree_json_def demo_manifest_def Let_def small_digest_def entry_json_def digest_json_def mode_name_def js_def sha256_hex_def)
qed

lemma demo_stored:
  "\<exists>sd t. storeContentTree demo_capsule_host demo_cas demo_tree None [] = (Inr sd, t) \<and> ContentDigestSchema (sd_digest sd)"
proof -
  let ?m = "demo_manifest \<lparr>dg_hash = replicate 64 48, dg_size = 2\<rparr>"
  let ?d = "digestCanonicalJson demo_capsule_host (tree_json ?m)"
  let ?t = "[(replicate 64 48, [104, 105]), (replicate 64 97, canonicalJsonBytes (tree_json ?m))]"
  have h: "ch_host demo_capsule_host = plain_host" by (simp add: demo_capsule_host_def)
  have "snapshotPassiveFileArray plain_host {} demo_tree = Inr demo_tree" by (simp add: demo_tree_def)
  moreover have "validateContentTreeFilesBeforeStore demo_capsule_host demo_tree = Inr ()"
    using demo_create [OF demo_blob(1)]
    by (simp add: validateContentTreeFilesBeforeStore_def demo_tree_def demo_manifest_def Let_def)
  moreover have "sx_maps (store_file demo_cas []) demo_tree [] = (Inr (tm_entries ?m), [(replicate 64 48, [104, 105])])"
    by (simp add: demo_tree_def demo_manifest_def store_file_def createInMemoryContentAddressedStore_def mem_put_def
        demo_blob sx_defs Let_def)
  moreover have "dg_hash ?d = replicate 64 97"
  proof -
    obtain bs where "canonicalJsonBytes (tree_json ?m) = 123 # bs" using canonical_bytes_object unfolding tree_json_def by blast
    then show ?thesis by (simp add: digestCanonicalJson_def digestBytes_def demo_capsule_host_def)
  qed
  then have "cas_put demo_cas (canonicalJsonBytes (tree_json ?m)) None [(replicate 64 48, [104, 105])] = (Inr ?d, ?t)"
    by (simp add: createInMemoryContentAddressedStore_def mem_put_def sx_defs Let_def digestCanonicalJson_def)
  ultimately have run: "storeContentTree demo_capsule_host demo_cas demo_tree None [] = (Inr \<lparr>sd_manifest = ?m, sd_digest = ?d\<rparr>, ?t)"
    using demo_create [OF demo_blob(3)]
    by (simp add: storeContentTree_def snapshotPassiveReuseFiles_def sx_bind_run sx_return_def h)
  with demo_tree_digest [OF demo_blob(3)] show ?thesis by simp
qed

lemma stored_tree_loads_witness:
  "\<exists>sd t. storeContentTree demo_capsule_host demo_cas demo_tree None [] = (Inr sd, t) \<and>
     loadContentTree demo_capsule_host demo_cas (sd_digest sd) (js ''tree'') t =
       (Inr \<lparr>sd_manifest = sd_manifest sd, sd_digest = sd_digest sd, lt_files = map (loaded demo_capsule_host) demo_tree\<rparr>, t)"
proof -
  obtain sd t where run: "storeContentTree demo_capsule_host demo_cas demo_tree None [] = (Inr sd, t)" "ContentDigestSchema (sd_digest sd)"
    using demo_stored by blast
  from stored_tree_loads [OF run] run(1) show ?thesis by (auto simp: demo_tree_def)
qed

lemma loaded_tree_authentic_witness:
  "\<exists>d t tr. loadContentTree demo_capsule_host demo_cas d (js ''tree'') t = (Inr tr, t) \<and> lt_files tr \<noteq> [] \<and>
     digestCanonicalJson demo_capsule_host (tree_json (sd_manifest tr)) = d \<and> ContentTreeManifestSchema demo_capsule_host (sd_manifest tr)"
proof -
  obtain sd t where run: "storeContentTree demo_capsule_host demo_cas demo_tree None [] = (Inr sd, t)" "ContentDigestSchema (sd_digest sd)"
    using demo_stored by blast
  from mem.tree_stored [OF run, of "js ''tree''"] obtain tr
    where tr: "loadContentTree demo_capsule_host demo_cas (sd_digest sd) (js ''tree'') t = (Inr tr, t)" "lt_files tr \<noteq> []"
    by (auto simp: demo_tree_def)
  from loaded_tree_authentic [OF tr(1)] tr show ?thesis by blast
qed

end
