(* ===== verification/CapsuleDiff.thy ===== *)
theory CapsuleDiff
  imports CapsuleContracts
begin

text \<open>
  The unified diff of \<open>packages/execution-capsule/src/verifier.ts\<close>: a change replaces the whole file by one hunk. A patch
  reader of the format is defined beside it, and reading the diff on the old text gives
  the new one.
\<close>

abbreviation LF :: cu where "LF \<equiv> 10"

definition decodeChangedText :: "byte list \<Rightarrow> err + str" where
  "decodeChangedText bytes = (case utf8_decode bytes of
       None \<Rightarrow> Inl (Err (js ''offline_capsule_changed_binary_forbidden''))
     | Some t \<Rightarrow> if list_ex binary_control t then Inl (Err (js ''offline_capsule_changed_binary_forbidden'')) else Inr t)"

definition splitTextLines :: "str \<Rightarrow> str list \<times> bool" where
  "splitTextLines t = (if t = [] then ([], False)
     else let finalNewline = endsWith t [LF]; lines = split_on LF t
          in (if finalNewline then butlast lines else lines, finalNewline))"

definition formatUnifiedRange :: "nat \<Rightarrow> str" where
  "formatUnifiedRange n = (if n = 0 then js ''0,0'' else if n = 1 then js ''1'' else js ''1,'' @ dec_nat n)"

definition NO_NEWLINE :: str where
  "NO_NEWLINE = BACKSLASH # js '' No newline at end of file''"

definition createCanonicalUnifiedDiff :: "str \<Rightarrow> str option \<Rightarrow> str \<Rightarrow> str" where
  "createCanonicalUnifiedDiff path before after =
     (let beforeParts = (case before of None \<Rightarrow> ([], True) | Some t \<Rightarrow> splitTextLines t);
          afterParts = splitTextLines after;
          create = (before = None)
      in if create \<and> fst afterParts = [] then
           join_with [LF] [js ''diff --git a/'' @ path @ js '' b/'' @ path, js ''new file mode 100644'', js ''index e69de29..e69de29'', []]
         else join_with [LF]
           ([js ''diff --git a/'' @ path @ js '' b/'' @ path] @
            (if create then [js ''new file mode 100644''] else []) @
            [if create then js ''--- /dev/null'' else js ''--- a/'' @ path, js ''+++ b/'' @ path,
             js ''@@ -'' @ (if create then js ''0,0'' else formatUnifiedRange (length (fst beforeParts))) @ js '' +'' @
               formatUnifiedRange (length (fst afterParts)) @ js '' @@''] @
            map ((#) 45) (fst beforeParts) @
            (if \<not> create \<and> fst beforeParts \<noteq> [] \<and> \<not> snd beforeParts then [NO_NEWLINE] else []) @
            map ((#) 43) (fst afterParts) @
            (if fst afterParts \<noteq> [] \<and> \<not> snd afterParts then [NO_NEWLINE] else [])) @ [LF])"


section \<open>Reading a patch\<close>

text \<open>
  A reader of one-hunk patches without context lines. A line of the body is removed or added; it ends with a newline
  unless the next line says that there is none. The counts of the hunk header must be those of the body, and
  the removed lines must be the whole old text.
\<close>

fun hunk_body :: "str list \<Rightarrow> (cu \<times> str \<times> bool) list option" where
  "hunk_body [] = Some []"
| "hunk_body ([] # r) = None"
| "hunk_body ((c # w) # r) = (if c \<noteq> 43 \<and> c \<noteq> 45 then None
     else if r \<noteq> [] \<and> hd r = NO_NEWLINE then map_option ((#) (c, w, False)) (hunk_body (tl r))
     else map_option ((#) (c, w, True)) (hunk_body r))"

definition side_lines :: "cu \<Rightarrow> (cu \<times> str \<times> bool) list \<Rightarrow> (cu \<times> str \<times> bool) list" where
  "side_lines c b = filter (\<lambda>l. fst l = c) b"

definition side_text :: "cu \<Rightarrow> (cu \<times> str \<times> bool) list \<Rightarrow> str" where
  "side_text c b = concat (map (\<lambda>(_, w, ended). w @ (if ended then [LF] else [])) (side_lines c b))"

definition hunk_header :: "(cu \<times> str \<times> bool) list \<Rightarrow> str" where
  "hunk_header b = js ''@@ -'' @ formatUnifiedRange (length (side_lines 45 b)) @ js '' +'' @
     formatUnifiedRange (length (side_lines 43 b)) @ js '' @@''"

definition read_hunk :: "str list \<Rightarrow> str \<Rightarrow> str option" where
  "read_hunk ls before = (case ls of
       a # b # h # r \<Rightarrow>
         if startsWith a (js ''--- '') \<and> startsWith b (js ''+++ '') then
           (case hunk_body r of None \<Rightarrow> None | Some body \<Rightarrow>
             if h = hunk_header body \<and> side_text 45 body = before then Some (side_text 43 body) else None)
         else None
     | _ \<Rightarrow> None)"

definition apply_patch :: "str \<Rightarrow> str option \<Rightarrow> str option" where
  "apply_patch diff before =
     (let ls = split_on LF diff in
      if last ls \<noteq> [] \<or> \<not> startsWith (hd ls) (js ''diff --git '') then None
      else (let r = tl (butlast ls); create = (r \<noteq> [] \<and> hd r = js ''new file mode 100644'') in
        if create \<noteq> (before = None) then None
        else if create \<and> tl r = [js ''index e69de29..e69de29''] then Some []
        else read_hunk (if create then tl r else r) (case before of None \<Rightarrow> [] | Some t \<Rightarrow> t)))"

section \<open>The diff reads back as the change\<close>

definition part_lines :: "cu \<Rightarrow> str list \<times> bool \<Rightarrow> str list" where
  "part_lines c parts = map ((#) c) (fst parts) @ (if fst parts \<noteq> [] \<and> \<not> snd parts then [NO_NEWLINE] else [])"

definition part_body :: "cu \<Rightarrow> str list \<times> bool \<Rightarrow> (cu \<times> str \<times> bool) list" where
  "part_body c parts = (if fst parts = [] then []
     else map (\<lambda>w. (c, w, True)) (butlast (fst parts)) @ [(c, last (fst parts), snd parts)])"

lemma hunk_body_plain:
  assumes "c = 43 \<or> c = 45"
  shows "\<not> (r \<noteq> [] \<and> hd r = NO_NEWLINE) \<Longrightarrow>
    hunk_body (map ((#) c) ws @ r) = map_option ((@) (map (\<lambda>w. (c, w, True)) ws)) (hunk_body r)"
proof (induction ws)
  case Nil
  then show ?case by (cases "hunk_body r") simp_all
next
  case (Cons w ws)
  have "\<not> (map ((#) c) ws @ r \<noteq> [] \<and> hd (map ((#) c) ws @ r) = NO_NEWLINE)"
    using Cons.prems assms by (cases ws) (auto simp: NO_NEWLINE_def)
  with Cons assms show ?case by (cases "hunk_body r") auto
qed

lemma map_butlast_last: "xs \<noteq> [] \<Longrightarrow> map f (butlast xs) @ [f (last xs)] = map f xs"
  by (induction xs) auto

lemma hunk_body_part:
  assumes c: "c = 43 \<or> c = 45" and r: "\<not> (r \<noteq> [] \<and> hd r = NO_NEWLINE)"
  shows "hunk_body (part_lines c parts @ r) = map_option ((@) (part_body c parts)) (hunk_body r)"
proof (cases "fst parts = [] \<or> snd parts")
  case True
  then have "part_lines c parts = map ((#) c) (fst parts)"
    "part_body c parts = map (\<lambda>w. (c, w, True)) (fst parts)"
    using map_butlast_last [of "fst parts" "\<lambda>w. (c, w, True)"] by (auto simp: part_lines_def part_body_def)
  then show ?thesis using hunk_body_plain [OF c r] by simp
next
  case False
  then obtain us u where ls: "fst parts = us @ [u]" by (metis rev_exhaust)
  have "hunk_body (map ((#) c) us @ (c # u) # NO_NEWLINE # r) =
      map_option ((@) (map (\<lambda>w. (c, w, True)) us)) (hunk_body ((c # u) # NO_NEWLINE # r))"
    by (rule hunk_body_plain [OF c]) (use c in \<open>auto simp: NO_NEWLINE_def\<close>)
  then show ?thesis using False ls c
    by (cases "hunk_body r") (auto simp: part_lines_def part_body_def)
qed

lemma join_lines: "ls \<noteq> [] \<Longrightarrow> concat (map (\<lambda>w. w @ [LF]) (butlast ls)) @ last ls = join_with [LF] ls"
  by (induction "[LF]" ls rule: join_with.induct) auto

lemma side_same: "side_lines c (part_body c parts) = part_body c parts"
  by (auto simp: side_lines_def part_body_def intro!: filter_True)

lemma side_other: "c \<noteq> d \<Longrightarrow> side_lines c (part_body d parts) = []"
  by (auto simp: side_lines_def part_body_def intro!: filter_False)

lemma part_length: "length (part_body c parts) = length (fst parts)"
  by (simp add: part_body_def)

lemma part_text_join:
  assumes "ls \<noteq> []"
  shows "side_text c (part_body c (ls, fin)) = join_with [LF] ls @ (if fin then [LF] else [])"
proof -
  show ?thesis
    unfolding side_text_def side_same using join_lines [OF assms] assms by (simp add: part_body_def comp_def flip: append_assoc)
qed

lemma part_text: "side_text c (part_body c (splitTextLines t)) = t"
proof (cases "t = []")
  case False
  show ?thesis
  proof (cases "endsWith t [LF]")
    case True
    then obtain u where u: "t = u @ [LF]" by (auto simp: endsWith_def suffix_def)
    then have "splitTextLines t = (split_on LF u, True)" using True by (simp add: splitTextLines_def split_on_snoc_sep)
    then show ?thesis using u by (simp add: part_text_join)
  next
    case no: False
    then have "splitTextLines t = (split_on LF t, False)" using False by (simp add: splitTextLines_def)
    then show ?thesis by (simp add: part_text_join)
  qed
qed (simp add: splitTextLines_def part_body_def side_text_def side_lines_def)

lemma range_no_lf: "LF \<notin> set (formatUnifiedRange n)"
proof -
  have "LF \<notin> set (dec_nat n)" using dec_nat_digits [of LF n] by (auto simp: is_digit_def)
  then show ?thesis by (simp add: formatUnifiedRange_def js_def)
qed

lemma part_no_lf: "c \<noteq> LF \<Longrightarrow> w \<in> set (part_lines c (splitTextLines t)) \<Longrightarrow> LF \<notin> set w"
proof -
  have "v \<in> set (fst (splitTextLines t)) \<Longrightarrow> v \<in> set (split_on LF t)" for v
    by (auto simp: splitTextLines_def Let_def split: if_splits dest: in_set_butlastD)
  then have "v \<in> set (fst (splitTextLines t)) \<Longrightarrow> LF \<notin> set v" for v using split_on_no_sep by blast
  moreover have "LF \<notin> set NO_NEWLINE" by (simp add: NO_NEWLINE_def js_def)
  ultimately show "c \<noteq> LF \<Longrightarrow> w \<in> set (part_lines c (splitTextLines t)) \<Longrightarrow> LF \<notin> set w"
    by (auto simp: part_lines_def split: if_splits)
qed


lemma startsWith_diff: "startsWith (js ''diff --git a/'' @ s) (js ''diff --git '')"
  by (simp add: startsWith_def js_def)

lemma not_created: "js ''--- a/'' @ s \<noteq> js ''new file mode 100644''"
  by (simp add: js_def)

lemma apply_patch_lines:
  assumes "ls \<noteq> []" "\<forall>w \<in> set ls. LF \<notin> set w" "startsWith (hd ls) (js ''diff --git '')"
  shows "apply_patch (join_with [LF] ls @ [LF]) before =
    (let r = tl ls; create = (r \<noteq> [] \<and> hd r = js ''new file mode 100644'') in
        if create \<noteq> (before = None) then None
        else if create \<and> tl r = [js ''index e69de29..e69de29''] then Some []
        else read_hunk (if create then tl r else r) (case before of None \<Rightarrow> [] | Some t \<Rightarrow> t))"
proof -
  have "split_on LF (join_with [LF] ls @ [LF]) = ls @ [[]]"
    using assms by (simp add: split_on_snoc_sep split_join)
  then show ?thesis using assms(1,3) by (simp add: apply_patch_def)
qed

lemma read_hunk_parts:
  assumes "startsWith a (js ''--- '')" "startsWith b (js ''+++ '')"
    and "h = js ''@@ -'' @ formatUnifiedRange (length (fst p)) @ js '' +'' @ formatUnifiedRange (length (fst q)) @ js '' @@''"
    and "side_text 45 (part_body 45 p) = before" "side_text 43 (part_body 43 q) = after"
  shows "read_hunk (a # b # h # part_lines 45 p @ part_lines 43 q) before = Some after"
proof -
  have plus: "hunk_body (part_lines 43 q) = Some (part_body 43 q)" using hunk_body_part [of 43 "[]" q] by simp
  have "\<not> (part_lines 43 q \<noteq> [] \<and> hd (part_lines 43 q) = NO_NEWLINE)"
    by (cases "fst q") (auto simp: part_lines_def NO_NEWLINE_def)
  with plus have "hunk_body (part_lines 45 p @ part_lines 43 q) = Some (part_body 45 p @ part_body 43 q)"
    using hunk_body_part [of 45 "part_lines 43 q" p] by simp
  moreover have "side_lines 45 (part_body 45 p @ part_body 43 q) = part_body 45 p" "side_lines 43 (part_body 45 p @ part_body 43 q) = part_body 43 q"
    using side_same side_other [of 45 43 q] side_other [of 43 45 p] by (simp_all add: side_lines_def)
  ultimately show ?thesis using assms by (simp add: read_hunk_def hunk_header_def part_length side_text_def side_same)
qed

lemma diff_roundtrip:
  assumes "LF \<notin> set path"
  shows "apply_patch (createCanonicalUnifiedDiff path before after) before = Some after"
proof (cases before)
  case None
  show ?thesis
  proof (cases "after = []")
    case True
    have "createCanonicalUnifiedDiff path None [] = join_with [LF] [js ''diff --git a/'' @ path @ js '' b/'' @ path,
        js ''new file mode 100644'', js ''index e69de29..e69de29''] @ [LF]"
      by (simp add: createCanonicalUnifiedDiff_def splitTextLines_def)
    moreover have "apply_patch \<dots> None = Some []"
      using assms by (subst apply_patch_lines) (simp_all add: js_def startsWith_def)
    ultimately show ?thesis using None True by simp
  next
    case False
    then have ne: "fst (splitTextLines after) \<noteq> []"
      by (auto simp: splitTextLines_def Let_def endsWith_def suffix_def split_on_snoc_sep)
    let ?ls = "[js ''diff --git a/'' @ path @ js '' b/'' @ path, js ''new file mode 100644'', js ''--- /dev/null'', js ''+++ b/'' @ path,
        js ''@@ -'' @ formatUnifiedRange 0 @ js '' +'' @ formatUnifiedRange (length (fst (splitTextLines after))) @ js '' @@''] @
        part_lines 43 (splitTextLines after)"
    have "createCanonicalUnifiedDiff path None after = join_with [LF] ?ls @ [LF]"
      using ne by (simp add: createCanonicalUnifiedDiff_def Let_def part_lines_def formatUnifiedRange_def)
    moreover have plain: "\<forall>w \<in> set ?ls. LF \<notin> set w"
      using assms part_no_lf [of 43 _ after] range_no_lf by (auto simp: js_def)
    have none45: "side_text 45 (part_body 45 ([], True)) = []" by (simp add: side_text_def part_body_def side_lines_def)
    have rd: "read_hunk (js ''--- /dev/null'' # (js ''+++ b/'' @ path) # (js ''@@ -'' @ formatUnifiedRange 0 @ js '' +'' @
        formatUnifiedRange (length (fst (splitTextLines after))) @ js '' @@'') # part_lines 45 ([], True) @ part_lines 43 (splitTextLines after)) [] = Some after"
      by (rule read_hunk_parts, simp add: startsWith_def js_def, simp add: startsWith_def js_def, simp, rule none45, rule part_text)
    have "apply_patch (join_with [LF] ?ls @ [LF]) None = Some after"
      using apply_patch_lines [OF _ plain, of None] rd by (simp add: startsWith_diff part_lines_def)
    ultimately show ?thesis using None by simp
  qed
next
  case (Some t)
  let ?ls = "[js ''diff --git a/'' @ path @ js '' b/'' @ path, js ''--- a/'' @ path, js ''+++ b/'' @ path,
      js ''@@ -'' @ formatUnifiedRange (length (fst (splitTextLines t))) @ js '' +'' @ formatUnifiedRange (length (fst (splitTextLines after))) @ js '' @@''] @
      part_lines 45 (splitTextLines t) @ part_lines 43 (splitTextLines after)"
  have "createCanonicalUnifiedDiff path (Some t) after = join_with [LF] ?ls @ [LF]"
    by (simp add: createCanonicalUnifiedDiff_def Let_def part_lines_def)
  moreover have plain: "\<forall>w \<in> set ?ls. LF \<notin> set w"
    using assms part_no_lf [of 43 _ after] part_no_lf [of 45 _ t] range_no_lf by (auto simp: js_def)
  moreover have rd: "read_hunk (tl ?ls) t = Some after"
    unfolding append_Cons append_Nil list.sel by (rule read_hunk_parts) (simp_all only: part_text, simp_all add: startsWith_def js_def)
  have "apply_patch (join_with [LF] ?ls @ [LF]) (Some t) = Some after"
    using apply_patch_lines [OF _ plain, of "Some t"] rd by (simp add: startsWith_diff not_created)
  ultimately show ?thesis using Some by simp
qed

text \<open>
  Decoding drops a byte order mark, so the text that a diff is made of does not determine the bytes: adding or removing the mark
  is a change whose diff, applied as a patch, gives other bytes than those whose hash the change names.
\<close>

lemma byte_order_mark_lost: "\<not> has_bom bytes \<Longrightarrow> decodeChangedText (BOM @ bytes) = decodeChangedText bytes"
  by (simp add: decodeChangedText_def utf8_decode_def has_bom_def BOM_def)

end
