(* ===== verification/CapsuleManifest.thy ===== *)
theory CapsuleManifest
  imports CapsuleContracts
begin

text \<open>
  The manifest of an offline execution capsule and the receipt of its worker,
  \<open>packages/execution-capsule/src/contracts.ts\<close>: their schemas, their JSON, the readers behind the strict schemas
  and the functions that create them. Both carry the hash of their other members. The restrictions, the
  execution mode, the policy version and the worker identity are constants of the schemas.
\<close>

section \<open>Parts\<close>

record capsule_repository =
  rep_repositoryId :: str
  rep_fullName :: str

record correlation =
  co_threadId :: str
  co_turnId :: str
  co_itemId :: str

record limits =
  li_maxTaskBytes :: int
  li_maxTreeManifestBytes :: int
  li_maxTotalTreeFiles :: int
  li_maxTotalTreeBytes :: int
  li_maxChangedFiles :: int
  li_maxChangedBytes :: int
  li_maxDiffBytes :: int

text \<open>The pattern \<open>/^[^/\s]+\/[^/\s]+$/\<close>.\<close>

definition full_name :: "str \<Rightarrow> bool" where
  "full_name s \<longleftrightarrow> (case split_on SLASH s of [a, b] \<Rightarrow> a \<noteq> [] \<and> b \<noteq> [] | _ \<Rightarrow> False) \<and> \<not> list_ex is_white s"

definition OfflineCapsuleRepositoryIdentitySchema :: "capsule_repository \<Rightarrow> bool" where
  "OfflineCapsuleRepositoryIdentitySchema r \<longleftrightarrow> str_within 256 (rep_repositoryId r) \<and>
     3 \<le> length (rep_fullName r) \<and> length (rep_fullName r) \<le> 512 \<and> full_name (rep_fullName r)"

definition OfflineCapsuleCorrelationSchema :: "correlation \<Rightarrow> bool" where
  "OfflineCapsuleCorrelationSchema c \<longleftrightarrow>
     str_within 512 (co_threadId c) \<and> str_within 512 (co_turnId c) \<and> str_within 512 (co_itemId c)"

definition limit_ok :: "int \<Rightarrow> int \<Rightarrow> bool" where
  "limit_ok most n \<longleftrightarrow> 0 < n \<and> n \<le> most"

definition OfflineCapsuleLimitsSchema :: "limits \<Rightarrow> bool" where
  "OfflineCapsuleLimitsSchema l \<longleftrightarrow>
     limit_ok (2 * 1024 * 1024) (li_maxTaskBytes l) \<and> limit_ok (10 * 1024 * 1024) (li_maxTreeManifestBytes l) \<and>
     limit_ok 20000 (li_maxTotalTreeFiles l) \<and> limit_ok (200 * 1024 * 1024) (li_maxTotalTreeBytes l) \<and>
     limit_ok 10000 (li_maxChangedFiles l) \<and> limit_ok (100 * 1024 * 1024) (li_maxChangedBytes l) \<and>
     limit_ok (100 * 1024 * 1024) (li_maxDiffBytes l)"

definition NONCE_PATTERN :: "str \<Rightarrow> bool" where
  "NONCE_PATTERN s \<longleftrightarrow> 32 \<le> length s \<and> length s \<le> 128 \<and>
     list_all (\<lambda>c. is_lower c \<or> is_upper c \<or> is_digit c \<or> c = 95 \<or> c = 45) s"

definition repository_json :: "capsule_repository \<Rightarrow> json" where
  "repository_json r = JObj [(js ''repositoryId'', JStr (rep_repositoryId r)), (js ''fullName'', JStr (rep_fullName r))]"

definition correlation_json :: "correlation \<Rightarrow> json" where
  "correlation_json c = JObj [(js ''threadId'', JStr (co_threadId c)), (js ''turnId'', JStr (co_turnId c)), (js ''itemId'', JStr (co_itemId c))]"

definition limits_json :: "limits \<Rightarrow> json" where
  "limits_json l = JObj [(js ''maxTaskBytes'', JNum (li_maxTaskBytes l)), (js ''maxTreeManifestBytes'', JNum (li_maxTreeManifestBytes l)),
     (js ''maxTotalTreeFiles'', JNum (li_maxTotalTreeFiles l)), (js ''maxTotalTreeBytes'', JNum (li_maxTotalTreeBytes l)),
     (js ''maxChangedFiles'', JNum (li_maxChangedFiles l)), (js ''maxChangedBytes'', JNum (li_maxChangedBytes l)),
     (js ''maxDiffBytes'', JNum (li_maxDiffBytes l))]"

definition restrictions_json :: json where
  "restrictions_json = JObj [(js ''networkAccess'', JStr (js ''none'')), (js ''credentialAccess'', JStr (js ''none'')),
     (js ''inheritEnvironment'', JBool False), (js ''hostSocketAccess'', JBool False),
     (js ''sourceWorkspaceMounted'', JBool False), (js ''gitMetadataMounted'', JBool False),
     (js ''inputTreeAccess'', JStr (js ''immutable_content_tree_only'')), (js ''outputForm'', JStr (js ''complete_content_tree''))]"

definition worker_json :: json where
  "worker_json = JObj [(js ''workerId'', JStr (js ''offline-test-only-fake-worker'')), (js ''workerVersion'', JStr (js ''1'')),
     (js ''scope'', JStr (js ''test_only''))]"

section \<open>Manifests\<close>

record capsule_manifest =
  cm_capsuleId :: str
  cm_taskDigest :: digest
  cm_inputRoot :: digest
  cm_repository :: capsule_repository
  cm_baseHead :: str
  cm_correlation :: correlation
  cm_allowedTargets :: "str list"
  cm_limits :: limits
  cm_nonce :: str
  cm_issuedAt :: str
  cm_expiresAt :: str
  cm_manifestHash :: str

definition manifest_members :: "capsule_manifest \<Rightarrow> (str \<times> json) list" where
  "manifest_members m = [(js ''schemaVersion'', JStr (js ''offline-execution-capsule.v1'')), (js ''capsuleId'', JStr (cm_capsuleId m)),
     (js ''executionMode'', JStr (js ''test_only_simulated'')), (js ''taskDigest'', digest_json (cm_taskDigest m)),
     (js ''inputRoot'', digest_json (cm_inputRoot m)), (js ''repository'', repository_json (cm_repository m)),
     (js ''baseHead'', JStr (cm_baseHead m)), (js ''correlation'', correlation_json (cm_correlation m)),
     (js ''allowedTargets'', str_array (cm_allowedTargets m)), (js ''restrictions'', restrictions_json),
     (js ''limits'', limits_json (cm_limits m)), (js ''nonce'', JStr (cm_nonce m)), (js ''issuedAt'', JStr (cm_issuedAt m)),
     (js ''expiresAt'', JStr (cm_expiresAt m)), (js ''policyVersion'', JStr (js ''offline-execution-capsule-policy.v1''))]"

definition manifest_json :: "capsule_manifest \<Rightarrow> json" where
  "manifest_json m = JObj (manifest_members m @ [(js ''manifestHash'', JStr (cm_manifestHash m))])"

definition OfflineExecutionCapsuleManifestContentSchema :: "capsule_host \<Rightarrow> capsule_manifest \<Rightarrow> bool" where
  "OfflineExecutionCapsuleManifestContentSchema H m \<longleftrightarrow> str_within 256 (cm_capsuleId m) \<and>
     ContentDigestSchema (cm_taskDigest m) \<and> ContentDigestSchema (cm_inputRoot m) \<and>
     OfflineCapsuleRepositoryIdentitySchema (cm_repository m) \<and> str_within 512 (cm_baseHead m) \<and>
     OfflineCapsuleCorrelationSchema (cm_correlation m) \<and> CanonicalTargetPathsSchema (ch_host H) (cm_allowedTargets m) \<and>
     OfflineCapsuleLimitsSchema (cm_limits m) \<and> NONCE_PATTERN (cm_nonce m) \<and>
     ch_datetime H (cm_issuedAt m) \<and> ch_datetime H (cm_expiresAt m)"

definition OfflineExecutionCapsuleManifestSchema :: "capsule_host \<Rightarrow> capsule_manifest \<Rightarrow> bool" where
  "OfflineExecutionCapsuleManifestSchema H m \<longleftrightarrow> OfflineExecutionCapsuleManifestContentSchema H m \<and>
     sha256_hex (cm_manifestHash m) \<and> cm_manifestHash m = hashCanonicalJson H (JObj (manifest_members m))"

definition createOfflineExecutionCapsuleManifest :: "capsule_host \<Rightarrow> capsule_manifest \<Rightarrow> err + capsule_manifest" where
  "createOfflineExecutionCapsuleManifest H input =
     bind_res (zod_parse (OfflineExecutionCapsuleManifestContentSchema H) input) (\<lambda>content.
     zod_parse (OfflineExecutionCapsuleManifestSchema H)
       (content\<lparr>cm_manifestHash := hashCanonicalJson H (JObj (manifest_members content))\<rparr>))"

section \<open>Receipts\<close>

record check_result =
  ck_checkId :: str
  ck_summary :: str

record receipt =
  rc_receiptId :: str
  rc_capsuleId :: str
  rc_manifestHash :: str
  rc_taskDigest :: digest
  rc_inputRoot :: digest
  rc_outputRoot :: digest
  rc_repository :: capsule_repository
  rc_baseHead :: str
  rc_correlation :: correlation
  rc_nonce :: str
  rc_startedAt :: str
  rc_completedAt :: str
  rc_checks :: "check_result list"
  rc_cleanupSucceeded :: bool
  rc_receiptHash :: str

definition OfflineSimulatedCheckResultSchema :: "check_result \<Rightarrow> bool" where
  "OfflineSimulatedCheckResultSchema c \<longleftrightarrow> str_within 256 (ck_checkId c) \<and> str_within 4096 (ck_summary c)"

definition check_json :: "check_result \<Rightarrow> json" where
  "check_json c = JObj [(js ''checkId'', JStr (ck_checkId c)), (js ''status'', JStr (js ''simulated'')), (js ''summary'', JStr (ck_summary c))]"

definition cleanup_json :: "bool \<Rightarrow> json" where
  "cleanup_json succeeded = JObj [(js ''attempted'', JBool True),
     (js ''status'', JStr (if succeeded then js ''succeeded'' else js ''failed''))]"

definition receipt_members :: "receipt \<Rightarrow> (str \<times> json) list" where
  "receipt_members r = [(js ''schemaVersion'', JStr (js ''offline-output-tree-receipt.v1'')), (js ''receiptId'', JStr (rc_receiptId r)),
     (js ''capsuleId'', JStr (rc_capsuleId r)), (js ''executionMode'', JStr (js ''test_only_simulated'')),
     (js ''manifestHash'', JStr (rc_manifestHash r)), (js ''taskDigest'', digest_json (rc_taskDigest r)),
     (js ''inputRoot'', digest_json (rc_inputRoot r)), (js ''outputRoot'', digest_json (rc_outputRoot r)),
     (js ''repository'', repository_json (rc_repository r)), (js ''baseHead'', JStr (rc_baseHead r)),
     (js ''correlation'', correlation_json (rc_correlation r)), (js ''worker'', worker_json), (js ''nonce'', JStr (rc_nonce r)),
     (js ''startedAt'', JStr (rc_startedAt r)), (js ''completedAt'', JStr (rc_completedAt r)),
     (js ''checks'', JArr (map check_json (rc_checks r))), (js ''cleanup'', cleanup_json (rc_cleanupSucceeded r))]"

definition receipt_json :: "receipt \<Rightarrow> json" where
  "receipt_json r = JObj (receipt_members r @ [(js ''receiptHash'', JStr (rc_receiptHash r))])"

definition OfflineOutputTreeReceiptContentSchema :: "capsule_host \<Rightarrow> receipt \<Rightarrow> bool" where
  "OfflineOutputTreeReceiptContentSchema H r \<longleftrightarrow> str_within 512 (rc_receiptId r) \<and> str_within 256 (rc_capsuleId r) \<and>
     sha256_hex (rc_manifestHash r) \<and> ContentDigestSchema (rc_taskDigest r) \<and> ContentDigestSchema (rc_inputRoot r) \<and>
     ContentDigestSchema (rc_outputRoot r) \<and> OfflineCapsuleRepositoryIdentitySchema (rc_repository r) \<and>
     str_within 512 (rc_baseHead r) \<and> OfflineCapsuleCorrelationSchema (rc_correlation r) \<and> NONCE_PATTERN (rc_nonce r) \<and>
     ch_datetime H (rc_startedAt r) \<and> ch_datetime H (rc_completedAt r) \<and>
     list_all OfflineSimulatedCheckResultSchema (rc_checks r) \<and> rc_checks r \<noteq> [] \<and> length (rc_checks r) \<le> 128"

definition OfflineOutputTreeReceiptSchema :: "capsule_host \<Rightarrow> receipt \<Rightarrow> bool" where
  "OfflineOutputTreeReceiptSchema H r \<longleftrightarrow> OfflineOutputTreeReceiptContentSchema H r \<and>
     sha256_hex (rc_receiptHash r) \<and> rc_receiptHash r = hashCanonicalJson H (JObj (receipt_members r))"

definition createOfflineOutputTreeReceipt :: "capsule_host \<Rightarrow> receipt \<Rightarrow> err + receipt" where
  "createOfflineOutputTreeReceipt H input =
     bind_res (zod_parse (OfflineOutputTreeReceiptContentSchema H) input) (\<lambda>content.
     zod_parse (OfflineOutputTreeReceiptSchema H)
       (content\<lparr>rc_receiptHash := hashCanonicalJson H (JObj (receipt_members content))\<rparr>))"


section \<open>Reading them from untyped input\<close>

text \<open>
  \<open>assertPassiveJsonValue\<close> rejects what is not plain JSON data; such an input is \<open>None\<close> here, and the rest is its JSON.
  A strict schema takes an object with no unknown key.
\<close>

definition read_repository :: "json option \<Rightarrow> capsule_repository option" where
  "read_repository v =
     Option.bind (strict_members [''repositoryId'', ''fullName''] v) (\<lambda>r.
     Option.bind (read_str (jprop r (js ''repositoryId''))) (\<lambda>repositoryId.
     Option.bind (read_str (jprop r (js ''fullName''))) (\<lambda>fullName.
     Some \<lparr>rep_repositoryId = repositoryId, rep_fullName = fullName\<rparr>)))"

definition read_correlation :: "json option \<Rightarrow> correlation option" where
  "read_correlation v =
     Option.bind (strict_members [''threadId'', ''turnId'', ''itemId''] v) (\<lambda>r.
     Option.bind (read_str (jprop r (js ''threadId''))) (\<lambda>threadId.
     Option.bind (read_str (jprop r (js ''turnId''))) (\<lambda>turnId.
     Option.bind (read_str (jprop r (js ''itemId''))) (\<lambda>itemId.
     Some \<lparr>co_threadId = threadId, co_turnId = turnId, co_itemId = itemId\<rparr>))))"

definition read_limits :: "json option \<Rightarrow> limits option" where
  "read_limits v =
     Option.bind (strict_members [''maxTaskBytes'', ''maxTreeManifestBytes'', ''maxTotalTreeFiles'', ''maxTotalTreeBytes'',
       ''maxChangedFiles'', ''maxChangedBytes'', ''maxDiffBytes''] v) (\<lambda>r.
     Option.bind (read_int (jprop r (js ''maxTaskBytes''))) (\<lambda>task.
     Option.bind (read_int (jprop r (js ''maxTreeManifestBytes''))) (\<lambda>manifest.
     Option.bind (read_int (jprop r (js ''maxTotalTreeFiles''))) (\<lambda>files.
     Option.bind (read_int (jprop r (js ''maxTotalTreeBytes''))) (\<lambda>bytes.
     Option.bind (read_int (jprop r (js ''maxChangedFiles''))) (\<lambda>changedFiles.
     Option.bind (read_int (jprop r (js ''maxChangedBytes''))) (\<lambda>changedBytes.
     Option.bind (read_int (jprop r (js ''maxDiffBytes''))) (\<lambda>diffBytes.
     Some \<lparr>li_maxTaskBytes = task, li_maxTreeManifestBytes = manifest, li_maxTotalTreeFiles = files, li_maxTotalTreeBytes = bytes,
       li_maxChangedFiles = changedFiles, li_maxChangedBytes = changedBytes, li_maxDiffBytes = diffBytes\<rparr>))))))))"

text \<open>An object all of whose members are literals.\<close>

definition is_constants :: "(string \<times> json) list \<Rightarrow> json option \<Rightarrow> bool" where
  "is_constants cs v \<longleftrightarrow> (case strict_members (map fst cs) v of
       None \<Rightarrow> False
     | Some r \<Rightarrow> list_all (\<lambda>(k, x). jprop r (js k) = Some x) cs)"

definition read_restrictions :: "json option \<Rightarrow> bool" where
  "read_restrictions = is_constants [(''networkAccess'', JStr (js ''none'')), (''credentialAccess'', JStr (js ''none'')),
     (''inheritEnvironment'', JBool False), (''hostSocketAccess'', JBool False), (''sourceWorkspaceMounted'', JBool False),
     (''gitMetadataMounted'', JBool False), (''inputTreeAccess'', JStr (js ''immutable_content_tree_only'')),
     (''outputForm'', JStr (js ''complete_content_tree''))]"

definition read_worker :: "json option \<Rightarrow> bool" where
  "read_worker = is_constants [(''workerId'', JStr (js ''offline-test-only-fake-worker'')), (''workerVersion'', JStr (js ''1'')),
     (''scope'', JStr (js ''test_only''))]"

definition MANIFEST_KEYS :: "string list" where
  "MANIFEST_KEYS = [''schemaVersion'', ''capsuleId'', ''executionMode'', ''taskDigest'', ''inputRoot'', ''repository'', ''baseHead'',
     ''correlation'', ''allowedTargets'', ''restrictions'', ''limits'', ''nonce'', ''issuedAt'', ''expiresAt'', ''policyVersion'', ''manifestHash'']"

definition read_manifest :: "json option \<Rightarrow> capsule_manifest option" where
  "read_manifest v =
     Option.bind (strict_members MANIFEST_KEYS v) (\<lambda>r. let p = (\<lambda>k. jprop r (js k)) in
     if \<not> is_literal ''offline-execution-capsule.v1'' (p ''schemaVersion'') \<or>
        \<not> is_literal ''test_only_simulated'' (p ''executionMode'') \<or>
        \<not> is_literal ''offline-execution-capsule-policy.v1'' (p ''policyVersion'') \<or>
        \<not> read_restrictions (p ''restrictions'') then None
     else
     Option.bind (read_str (p ''capsuleId'')) (\<lambda>capsuleId.
     Option.bind (read_digest (p ''taskDigest'')) (\<lambda>taskDigest.
     Option.bind (read_digest (p ''inputRoot'')) (\<lambda>inputRoot.
     Option.bind (read_repository (p ''repository'')) (\<lambda>repository.
     Option.bind (read_str (p ''baseHead'')) (\<lambda>baseHead.
     Option.bind (read_correlation (p ''correlation'')) (\<lambda>correlation.
     Option.bind (read_list read_str (p ''allowedTargets'')) (\<lambda>allowedTargets.
     Option.bind (read_limits (p ''limits'')) (\<lambda>limits.
     Option.bind (read_str (p ''nonce'')) (\<lambda>nonce.
     Option.bind (read_str (p ''issuedAt'')) (\<lambda>issuedAt.
     Option.bind (read_str (p ''expiresAt'')) (\<lambda>expiresAt.
     Option.bind (read_str (p ''manifestHash'')) (\<lambda>manifestHash.
     Some \<lparr>cm_capsuleId = capsuleId, cm_taskDigest = taskDigest, cm_inputRoot = inputRoot, cm_repository = repository,
       cm_baseHead = baseHead, cm_correlation = correlation, cm_allowedTargets = allowedTargets, cm_limits = limits,
       cm_nonce = nonce, cm_issuedAt = issuedAt, cm_expiresAt = expiresAt, cm_manifestHash = manifestHash\<rparr>)))))))))))))"

definition read_check :: "json option \<Rightarrow> check_result option" where
  "read_check v =
     Option.bind (strict_members [''checkId'', ''status'', ''summary''] v) (\<lambda>r.
     if \<not> is_literal ''simulated'' (jprop r (js ''status'')) then None else
     Option.bind (read_str (jprop r (js ''checkId''))) (\<lambda>checkId.
     Option.bind (read_str (jprop r (js ''summary''))) (\<lambda>summary.
     Some \<lparr>ck_checkId = checkId, ck_summary = summary\<rparr>)))"

definition read_cleanup :: "json option \<Rightarrow> bool option" where
  "read_cleanup v =
     Option.bind (strict_members [''attempted'', ''status''] v) (\<lambda>r.
     if jprop r (js ''attempted'') \<noteq> Some (JBool True) then None
     else if is_literal ''succeeded'' (jprop r (js ''status'')) then Some True
     else if is_literal ''failed'' (jprop r (js ''status'')) then Some False else None)"

definition RECEIPT_KEYS :: "string list" where
  "RECEIPT_KEYS = [''schemaVersion'', ''receiptId'', ''capsuleId'', ''executionMode'', ''manifestHash'', ''taskDigest'', ''inputRoot'',
     ''outputRoot'', ''repository'', ''baseHead'', ''correlation'', ''worker'', ''nonce'', ''startedAt'', ''completedAt'', ''checks'',
     ''cleanup'', ''receiptHash'']"

definition read_receipt :: "json option \<Rightarrow> receipt option" where
  "read_receipt v =
     Option.bind (strict_members RECEIPT_KEYS v) (\<lambda>r. let p = (\<lambda>k. jprop r (js k)) in
     if \<not> is_literal ''offline-output-tree-receipt.v1'' (p ''schemaVersion'') \<or>
        \<not> is_literal ''test_only_simulated'' (p ''executionMode'') \<or> \<not> read_worker (p ''worker'') then None
     else
     Option.bind (read_str (p ''receiptId'')) (\<lambda>receiptId.
     Option.bind (read_str (p ''capsuleId'')) (\<lambda>capsuleId.
     Option.bind (read_str (p ''manifestHash'')) (\<lambda>manifestHash.
     Option.bind (read_digest (p ''taskDigest'')) (\<lambda>taskDigest.
     Option.bind (read_digest (p ''inputRoot'')) (\<lambda>inputRoot.
     Option.bind (read_digest (p ''outputRoot'')) (\<lambda>outputRoot.
     Option.bind (read_repository (p ''repository'')) (\<lambda>repository.
     Option.bind (read_str (p ''baseHead'')) (\<lambda>baseHead.
     Option.bind (read_correlation (p ''correlation'')) (\<lambda>correlation.
     Option.bind (read_str (p ''nonce'')) (\<lambda>nonce.
     Option.bind (read_str (p ''startedAt'')) (\<lambda>startedAt.
     Option.bind (read_str (p ''completedAt'')) (\<lambda>completedAt.
     Option.bind (read_list read_check (p ''checks'')) (\<lambda>checks.
     Option.bind (read_cleanup (p ''cleanup'')) (\<lambda>cleanup.
     Option.bind (read_str (p ''receiptHash'')) (\<lambda>receiptHash.
     Some \<lparr>rc_receiptId = receiptId, rc_capsuleId = capsuleId, rc_manifestHash = manifestHash, rc_taskDigest = taskDigest,
       rc_inputRoot = inputRoot, rc_outputRoot = outputRoot, rc_repository = repository, rc_baseHead = baseHead,
       rc_correlation = correlation, rc_nonce = nonce, rc_startedAt = startedAt, rc_completedAt = completedAt, rc_checks = checks,
       rc_cleanupSucceeded = cleanup, rc_receiptHash = receiptHash\<rparr>))))))))))))))))"

definition parsePassiveManifest :: "capsule_host \<Rightarrow> json option \<Rightarrow> capsule_manifest option" where
  "parsePassiveManifest H input = (case read_manifest input of
       Some m \<Rightarrow> if OfflineExecutionCapsuleManifestSchema H m then Some m else None
     | None \<Rightarrow> None)"

definition parsePassiveReceipt :: "capsule_host \<Rightarrow> json option \<Rightarrow> receipt option" where
  "parsePassiveReceipt H input = (case read_receipt input of
       Some r \<Rightarrow> if OfflineOutputTreeReceiptSchema H r then Some r else None
     | None \<Rightarrow> None)"

section \<open>What was created is read back\<close>

lemma strict_self: "list_all (\<lambda>(k, _). k \<in> set (map js keys)) kvs \<Longrightarrow> strict_members keys (Some (JObj kvs)) = Some kvs"
  by (simp add: strict_members_def)

lemma read_repository_json [simp]: "read_repository (Some (repository_json r)) = Some r"
  by (simp add: read_repository_def repository_json_def strict_self read_str_def)

lemma read_correlation_json [simp]: "read_correlation (Some (correlation_json c)) = Some c"
  by (simp add: read_correlation_def correlation_json_def strict_self read_str_def)

lemma read_limits_json [simp]: "read_limits (Some (limits_json l)) = Some l"
  by (simp add: read_limits_def limits_json_def strict_self read_int_def)

lemma read_digest_json [simp]: "read_digest (Some (digest_json d)) = Some d"
  by (simp add: read_digest_def digest_json_def strict_self is_literal_def read_str_def read_int_def)

lemma read_restrictions_json [simp]: "read_restrictions (Some restrictions_json)"
  by (simp add: read_restrictions_def restrictions_json_def is_constants_def strict_self)

lemma read_worker_json [simp]: "read_worker (Some worker_json)"
  by (simp add: read_worker_def worker_json_def is_constants_def strict_self)

lemma read_all_json: "(\<And>x. x \<in> set xs \<Longrightarrow> f (Some (g x)) = Some x) \<Longrightarrow> read_list f (Some (JArr (map g xs))) = Some xs"
  unfolding read_list_def by (induction xs) auto

lemma read_strs_json [simp]: "read_list read_str (Some (str_array ss)) = Some ss"
  unfolding str_array_def by (rule read_all_json) (simp add: read_str_def)

lemma read_checks_json [simp]: "read_list read_check (Some (JArr (map check_json cs))) = Some cs"
  by (rule read_all_json) (simp add: read_check_def check_json_def strict_self is_literal_def read_str_def)

lemma read_cleanup_json [simp]: "read_cleanup (Some (cleanup_json b)) = Some b"
  by (simp add: read_cleanup_def cleanup_json_def strict_self is_literal_def)

lemma read_str_json [simp]: "read_str (Some (JStr s)) = Some s"
  by (simp add: read_str_def)

lemma read_manifest_json: "read_manifest (Some (manifest_json m)) = Some m"
proof -
  have "strict_members MANIFEST_KEYS (Some (manifest_json m)) = Some (manifest_members m @ [(js ''manifestHash'', JStr (cm_manifestHash m))])"
    unfolding manifest_json_def by (rule strict_self) (simp add: manifest_members_def MANIFEST_KEYS_def)
  then show ?thesis
    by (simp add: read_manifest_def Let_def) (simp add: manifest_members_def is_literal_def)
qed

lemma read_receipt_json: "read_receipt (Some (receipt_json r)) = Some r"
proof -
  have "strict_members RECEIPT_KEYS (Some (receipt_json r)) = Some (receipt_members r @ [(js ''receiptHash'', JStr (rc_receiptHash r))])"
    unfolding receipt_json_def by (rule strict_self) (simp add: receipt_members_def RECEIPT_KEYS_def)
  then show ?thesis
    by (simp add: read_receipt_def Let_def) (simp add: receipt_members_def is_literal_def)
qed

lemma created_manifest_parses:
  "createOfflineExecutionCapsuleManifest H input = Inr m \<Longrightarrow> parsePassiveManifest H (Some (manifest_json m)) = Some m"
  by (simp add: createOfflineExecutionCapsuleManifest_def bind_res_Inr parsePassiveManifest_def read_manifest_json)

lemma created_receipt_parses:
  "createOfflineOutputTreeReceipt H input = Inr r \<Longrightarrow> parsePassiveReceipt H (Some (receipt_json r)) = Some r"
  by (simp add: createOfflineOutputTreeReceipt_def bind_res_Inr parsePassiveReceipt_def read_receipt_json)

end
