(* ===== verification/CapsuleVerifier.thy ===== *)
theory CapsuleVerifier
  imports ContentStore CapsuleDiff CapsuleManifest JsDate
begin

text \<open>
  The verifier of an offline capsule, \<open>packages/execution-capsule/src/verifier.ts\<close>. The content store, the replay store
  and the clock are parameters that act on one state; nothing is assumed of them. The twelve fields of an
  assessment that are always false are not in its record.
\<close>

section \<open>Assessments\<close>

datatype assessment_status = VerifiedOffline | BlockedOffline

record assessment =
  as_status :: assessment_status
  as_contractSatisfied :: bool
  as_reasons :: "str list"
  as_manifestHash :: "str option"
  as_outputRoot :: "digest option"
  as_changeSet :: "change_set option"

text \<open>\<open>createHash("sha256").update(text)\<close> hashes the UTF-8 of a string.\<close>

definition text_sha256 :: "capsule_host \<Rightarrow> str \<Rightarrow> str" where
  "text_sha256 H s = ch_sha256 H (utf8_encode s)"

definition OfflineCapsuleAssessmentSchema :: "capsule_host \<Rightarrow> assessment \<Rightarrow> bool" where
  "OfflineCapsuleAssessmentSchema H a \<longleftrightarrow> list_all str_min1 (as_reasons a) \<and> opt_all sha256_hex (as_manifestHash a) \<and>
     opt_all ContentDigestSchema (as_outputRoot a) \<and> opt_all (GovernedFileChangeSetSchema (text_sha256 H)) (as_changeSet a) \<and>
     (if as_status a = VerifiedOffline
      then \<not> (\<not> as_contractSatisfied a \<or> as_manifestHash a = None \<or> as_outputRoot a = None \<or> as_changeSet a = None)
      else \<not> (as_contractSatisfied a \<or> as_changeSet a \<noteq> None))"

definition blockedAssessment :: "capsule_host \<Rightarrow> str list \<Rightarrow> capsule_manifest option \<Rightarrow> digest option \<Rightarrow> err + assessment" where
  "blockedAssessment H reasons manifest outputRoot = zod_parse (OfflineCapsuleAssessmentSchema H)
     \<lparr>as_status = BlockedOffline, as_contractSatisfied = False, as_reasons = uniq reasons,
      as_manifestHash = map_option cm_manifestHash manifest, as_outputRoot = outputRoot, as_changeSet = None\<rparr>"

text \<open>The pattern \<open>/^offline_[a-z0-9_:.-]+$/\<close>.\<close>

definition offline_reason :: "str \<Rightarrow> bool" where
  "offline_reason m \<longleftrightarrow> startsWith m (js ''offline_'') \<and> 8 < length m \<and>
     list_all (\<lambda>c. is_lower c \<or> is_digit c \<or> c \<in> set (js ''_:.-'')) (drop 8 m)"

definition normalizeVerificationFailure :: "err \<Rightarrow> str" where
  "normalizeVerificationFailure e = (case e of
       Err m \<Rightarrow> if offline_reason m then m else js ''offline_capsule_verification_failed''
     | _ \<Rightarrow> js ''offline_capsule_verification_failed'')"

section \<open>The replay store\<close>

record 's replay =
  rs_consume :: "str \<Rightarrow> str \<Rightarrow> ('s, err, bool) sx"

record consumed =
  used_nonces :: "str set"
  used_receiptHashes :: "str set"

definition mem_consume :: "str \<Rightarrow> str \<Rightarrow> (consumed, err, bool) sx" where
  "mem_consume nonce receiptHash =
     sx_bind (sx_gets (\<lambda>r. nonce \<in> used_nonces r \<or> receiptHash \<in> used_receiptHashes r)) (\<lambda>seen.
     if seen then sx_return False
     else sx_bind (sx_modify (\<lambda>r. r\<lparr>used_nonces := insert nonce (used_nonces r), used_receiptHashes := insert receiptHash (used_receiptHashes r)\<rparr>))
       (\<lambda>_. sx_return True))"

definition createInMemoryOfflineCapsuleReplayStore :: "consumed replay" where
  "createInMemoryOfflineCapsuleReplayStore = \<lparr>rs_consume = mem_consume\<rparr>"

section \<open>Bindings\<close>

definition pick :: "bool \<Rightarrow> string \<Rightarrow> str list" where
  "pick b m = (if b then [js m] else [])"

definition times_invalid :: "int option \<Rightarrow> int option \<Rightarrow> int option \<Rightarrow> int option \<Rightarrow> int option \<Rightarrow> bool" where
  "times_invalid issued expires started completed verified = (case (issued, expires, started, completed, verified) of
       (Some i, Some e, Some s, Some c, Some v) \<Rightarrow> i \<ge> e \<or> s < i \<or> c < s \<or> c > e \<or> v < c
     | _ \<Rightarrow> True)"

definition collectBindingReasons :: "capsule_host \<Rightarrow> capsule_manifest \<Rightarrow> receipt \<Rightarrow> str \<Rightarrow> str list" where
  "collectBindingReasons H manifest receipt now =
     (let issuedAt = Date_parse (ch_date H) (cm_issuedAt manifest);
          expiresAt = Date_parse (ch_date H) (cm_expiresAt manifest);
          startedAt = Date_parse (ch_date H) (rc_startedAt receipt);
          completedAt = Date_parse (ch_date H) (rc_completedAt receipt);
          verifiedAt = Date_parse (ch_date H) now
      in uniq (
        pick (rc_capsuleId receipt \<noteq> cm_capsuleId manifest) ''offline_capsule_identity_mismatch'' @
        pick (rc_manifestHash receipt \<noteq> cm_manifestHash manifest) ''offline_capsule_manifest_binding_mismatch'' @
        pick (rc_taskDigest receipt \<noteq> cm_taskDigest manifest) ''offline_capsule_task_digest_mismatch'' @
        pick (rc_inputRoot receipt \<noteq> cm_inputRoot manifest) ''offline_capsule_input_root_mismatch'' @
        pick (\<not> sameCanonicalJson (repository_json (rc_repository receipt)) (repository_json (cm_repository manifest)))
          ''offline_capsule_repository_identity_mismatch'' @
        pick (rc_baseHead receipt \<noteq> cm_baseHead manifest) ''offline_capsule_base_head_mismatch'' @
        pick (\<not> sameCanonicalJson (correlation_json (rc_correlation receipt)) (correlation_json (cm_correlation manifest)))
          ''offline_capsule_correlation_mismatch'' @
        pick (rc_nonce receipt \<noteq> cm_nonce manifest) ''offline_capsule_nonce_mismatch'' @
        pick (\<not> rc_cleanupSucceeded receipt) ''offline_capsule_cleanup_failed'' @
        (if times_invalid issuedAt expiresAt startedAt completedAt verifiedAt
         then [js ''offline_capsule_timestamp_binding_invalid'']
         else pick (the verifiedAt > the expiresAt \<or> the verifiedAt < the issuedAt)
           ''offline_capsule_manifest_expired_or_not_yet_valid'')))"

definition containsCredentialLikeMetadataContent :: "capsule_host \<Rightarrow> capsule_manifest \<Rightarrow> receipt \<Rightarrow> bool" where
  "containsCredentialLikeMetadataContent H manifest receipt \<longleftrightarrow>
     containsCredentialLikeStringValue (ch_host H) (manifest_json manifest) \<or>
     containsCredentialLikeStringValue (ch_host H) (receipt_json receipt)"

section \<open>Trees\<close>

text \<open>\<open>None\<close> when an entry is larger than what remains of the budget.\<close>

fun spend_bytes :: "int \<Rightarrow> tree_entry list \<Rightarrow> int option" where
  "spend_bytes remaining [] = Some remaining"
| "spend_bytes remaining (e # es) =
     (if dg_size (en_blob e) > remaining then None else spend_bytes (remaining - dg_size (en_blob e)) es)"

definition collectCompleteTreeLimitReasons :: "tree_manifest \<Rightarrow> tree_manifest \<Rightarrow> capsule_manifest \<Rightarrow> str list" where
  "collectCompleteTreeLimitReasons inputManifest outputManifest manifest =
     (if int (length (tm_entries inputManifest) + length (tm_entries outputManifest)) > li_maxTotalTreeFiles (cm_limits manifest)
      then [js ''offline_capsule_total_tree_file_limit_exceeded'']
      else if spend_bytes (li_maxTotalTreeBytes (cm_limits manifest)) (tm_entries inputManifest @ tm_entries outputManifest) = None
      then [js ''offline_capsule_total_tree_byte_limit_exceeded''] else [])"

definition containsCredentialLikeTreeContent :: "host \<Rightarrow> loaded_file list \<Rightarrow> bool" where
  "containsCredentialLikeTreeContent h files = list_ex (\<lambda>f. credential_like_bytes h (tf_content f)) files"

record candidate_change =
  cc_before :: "loaded_file option"
  cc_after :: loaded_file

text \<open>\<open>new Map(files.map((file) => [file.path, file]))\<close>: the last of a path.\<close>

definition by_path :: "loaded_file list \<Rightarrow> str \<Rightarrow> loaded_file option" where
  "by_path files = map_of (rev (map (\<lambda>f. (tf_path f, f)) files))"

definition deleted_reason :: "loaded_file list \<Rightarrow> loaded_file \<Rightarrow> str" where
  "deleted_reason createdFiles f =
     (case find (\<lambda>g. tf_mode g = tf_mode f \<and> lf_digest g = lf_digest f) createdFiles of
        None \<Rightarrow> js ''offline_capsule_delete_forbidden:'' @ tf_path f
      | Some g \<Rightarrow> js ''offline_capsule_rename_forbidden:'' @ tf_path f @ js '':'' @ tf_path g)"

definition pick_path :: "bool \<Rightarrow> string \<Rightarrow> str \<Rightarrow> str list" where
  "pick_path b m path = (if b then [js m @ path] else [])"

definition output_reasons :: "(str \<Rightarrow> loaded_file option) \<Rightarrow> str list \<Rightarrow> loaded_file \<Rightarrow> str list" where
  "output_reasons inputByPath allowed f = (case inputByPath (tf_path f) of
       None \<Rightarrow> pick_path (tf_path f \<notin> set allowed) ''offline_capsule_target_outside_allowlist:'' (tf_path f) @
               pick_path (tf_mode f \<noteq> Mode644) ''offline_capsule_create_mode_forbidden:'' (tf_path f)
     | Some g \<Rightarrow> pick_path (tf_mode g \<noteq> tf_mode f) ''offline_capsule_mode_drift_forbidden:'' (tf_path f) @
               pick_path (lf_digest g \<noteq> lf_digest f \<and> tf_path f \<notin> set allowed) ''offline_capsule_target_outside_allowlist:'' (tf_path f))"

definition output_changes :: "(str \<Rightarrow> loaded_file option) \<Rightarrow> loaded_file \<Rightarrow> candidate_change list" where
  "output_changes inputByPath f = (case inputByPath (tf_path f) of
       None \<Rightarrow> [\<lparr>cc_before = None, cc_after = f\<rparr>]
     | Some g \<Rightarrow> if lf_digest g \<noteq> lf_digest f then [\<lparr>cc_before = Some g, cc_after = f\<rparr>] else [])"

definition compareCompleteTrees ::
  "loaded_file list \<Rightarrow> loaded_file list \<Rightarrow> str list \<Rightarrow> candidate_change list \<times> str list" where
  "compareCompleteTrees inputFiles outputFiles allowedTargets =
     (let deletedFiles = filter (\<lambda>f. by_path outputFiles (tf_path f) = None) inputFiles;
          createdFiles = filter (\<lambda>f. by_path inputFiles (tf_path f) = None) outputFiles
      in (concat (map (output_changes (by_path inputFiles)) outputFiles),
          uniq (map (deleted_reason createdFiles) deletedFiles @
            concat (map (output_reasons (by_path inputFiles) allowedTargets) outputFiles))))"

definition toGovernedChange :: "loaded_file option \<Rightarrow> loaded_file \<Rightarrow> str option \<Rightarrow> str \<Rightarrow> governed_change" where
  "toGovernedChange before after beforeText afterText =
     \<lparr>fc_path = tf_path after, fc_kind = (if before = None then CreateChange else UpdateChange), fc_oldPath = None,
      fc_beforeHash = Some (map_option (\<lambda>f. dg_hash (lf_digest f)) before), fc_afterHash = Some (Some (dg_hash (lf_digest after))),
      fc_addedLines = int (length (fst (splitTextLines afterText))),
      fc_deletedLines = int (length (case beforeText of None \<Rightarrow> [] | Some t \<Rightarrow> fst (splitTextLines t))),
      fc_unifiedDiff = createCanonicalUnifiedDiff (tf_path after) beforeText afterText\<rparr>"

text \<open>The body of the loop over the changes.\<close>

definition governed_change_of :: "candidate_change \<Rightarrow> err + governed_change" where
  "governed_change_of c =
     bind_res (decodeChangedText (tf_content (cc_after c))) (\<lambda>afterText.
     bind_res (case cc_before c of None \<Rightarrow> Inr None
       | Some f \<Rightarrow> bind_res (decodeChangedText (tf_content f)) (\<lambda>t. Inr (Some t))) (\<lambda>beforeText.
     Inr (toGovernedChange (cc_before c) (cc_after c) beforeText afterText)))"

definition changed_bytes :: "candidate_change list \<Rightarrow> int" where
  "changed_bytes changes = int (sum_list (map (\<lambda>c.
     (case cc_before c of None \<Rightarrow> 0 | Some f \<Rightarrow> length (tf_content f)) + length (tf_content (cc_after c))) changes))"

definition diff_bytes :: "governed_change list \<Rightarrow> int" where
  "diff_bytes changes = int (sum_list (map (\<lambda>c. length (utf8_encode (fc_unifiedDiff c))) changes))"

section \<open>Verification\<close>

record 's verify_input =
  vi_store :: "'s cas"
  vi_manifest :: "json option"
  vi_receipt :: "json option"
  vi_replayStore :: "'s replay"
  vi_now :: "('s, err, str) sx"

definition capsule_change_set :: "capsule_host \<Rightarrow> capsule_manifest \<Rightarrow> receipt \<Rightarrow> governed_change list \<Rightarrow> change_set" where
  "capsule_change_set H manifest receipt changes =
     \<lparr>cs_changeSetId = cm_capsuleId manifest, cs_threadId = co_threadId (cm_correlation manifest),
      cs_turnId = co_turnId (cm_correlation manifest), cs_itemId = co_itemId (cm_correlation manifest),
      cs_baseHead = cm_baseHead manifest, cs_changes = changes,
      cs_canonicalHash = hashGovernedFileChangeSetContent (text_sha256 H) (cm_baseHead manifest) changes,
      cs_proposedAt = rc_completedAt receipt, cs_sourceSchemaProfile = js ''offline-execution-capsule.v1''\<rparr>"

definition verified_assessment :: "capsule_manifest \<Rightarrow> receipt \<Rightarrow> change_set \<Rightarrow> assessment" where
  "verified_assessment manifest receipt changeSet =
     \<lparr>as_status = VerifiedOffline, as_contractSatisfied = True,
      as_reasons = [js ''offline_capsule_contract_verified'', js ''fake_worker_receipt_is_simulated_contract_evidence_only'',
        js ''content_identity_does_not_prove_worker_fidelity'', js ''live_promotion_remains_unauthorized''],
      as_manifestHash = Some (cm_manifestHash manifest), as_outputRoot = Some (rc_outputRoot receipt),
      as_changeSet = Some changeSet\<rparr>"

text \<open>The end of the \<open>try\<close> block: from the two loaded trees to the assessment.\<close>

definition verify_trees ::
  "capsule_host \<Rightarrow> 's replay \<Rightarrow> capsule_manifest \<Rightarrow> receipt \<Rightarrow> loaded_tree \<Rightarrow> loaded_tree \<Rightarrow> ('s, err, assessment) sx" where
  "verify_trees H R manifest receipt inputTree outputTree =
     (let blocked = (\<lambda>reasons. sx_lift (blockedAssessment H reasons (Some manifest) (Some (rc_outputRoot receipt))));
          limits = cm_limits manifest;
          comparison = compareCompleteTrees (lt_files inputTree) (lt_files outputTree) (cm_allowedTargets manifest)
      in
      if containsCredentialLikeTreeContent (ch_host H) (lt_files inputTree) \<or>
         containsCredentialLikeTreeContent (ch_host H) (lt_files outputTree)
      then blocked [js ''offline_capsule_credential_like_content_forbidden'']
      else if snd comparison \<noteq> [] then blocked (snd comparison)
      else if fst comparison = [] then blocked [js ''offline_capsule_no_change'']
      else if int (length (fst comparison)) > li_maxChangedFiles limits
      then blocked [js ''offline_capsule_changed_file_limit_exceeded'']
      else if changed_bytes (fst comparison) > li_maxChangedBytes limits
      then blocked [js ''offline_capsule_changed_byte_limit_exceeded'']
      else
      sx_bind (sx_lift (map_res governed_change_of (fst comparison))) (\<lambda>governedChanges.
      if diff_bytes governedChanges > li_maxDiffBytes limits then blocked [js ''offline_capsule_diff_limit_exceeded'']
      else
      sx_bind (sx_lift (zod_parse (GovernedFileChangeSetSchema (text_sha256 H))
        (capsule_change_set H manifest receipt (sort_key fc_path governedChanges)))) (\<lambda>changeSet.
      sx_bind (sx_catch (sx_bind (rs_consume R (cm_nonce manifest) (rc_receiptHash receipt)) (\<lambda>b. sx_return (Some b)))
        (\<lambda>_. sx_return None)) (\<lambda>consumed.
      case consumed of
        None \<Rightarrow> blocked [js ''offline_capsule_replay_store_failed'']
      | Some ok \<Rightarrow>
          if \<not> ok then blocked [js ''offline_capsule_receipt_or_nonce_replay'']
          else sx_lift (zod_parse (OfflineCapsuleAssessmentSchema H) (verified_assessment manifest receipt changeSet))))))"

text \<open>The whole \<open>try\<close> block.\<close>

definition verify_content ::
  "capsule_host \<Rightarrow> 's cas \<Rightarrow> 's replay \<Rightarrow> capsule_manifest \<Rightarrow> receipt \<Rightarrow> ('s, err, assessment) sx" where
  "verify_content H C R manifest receipt =
     (let blocked = (\<lambda>reasons. sx_lift (blockedAssessment H reasons (Some manifest) (Some (rc_outputRoot receipt)))) in
      sx_bind (loadCapsuleTask H C (cm_taskDigest manifest) (js ''verification_task'')) (\<lambda>task.
      if ct_taskId task \<noteq> cm_capsuleId manifest \<or>
         \<not> sameCanonicalJson (str_array (ct_targetPaths task)) (str_array (cm_allowedTargets manifest))
      then blocked [js ''offline_capsule_task_binding_mismatch'']
      else if containsCredentialLikeTaskContent (ch_host H) task
      then blocked [js ''offline_capsule_credential_like_content_forbidden'']
      else
      sx_bind (loadContentTreeManifest H C (cm_inputRoot manifest) (js ''verification_input'')) (\<lambda>inputTreeManifest.
      sx_bind (loadContentTreeManifest H C (rc_outputRoot receipt) (js ''verification_output'')) (\<lambda>outputTreeManifest.
      let limitReasons = collectCompleteTreeLimitReasons (sd_manifest inputTreeManifest) (sd_manifest outputTreeManifest) manifest in
      if limitReasons \<noteq> [] then blocked limitReasons
      else if list_ex (\<lambda>e. isSensitiveOfflineTreePath (ch_host H) (en_path e)) (tm_entries (sd_manifest inputTreeManifest)) \<or>
         list_ex (\<lambda>e. isSensitiveOfflineTreePath (ch_host H) (en_path e)) (tm_entries (sd_manifest outputTreeManifest))
      then blocked [js ''offline_capsule_sensitive_path_forbidden'']
      else
      sx_bind (loadContentTree H C (cm_inputRoot manifest) (js ''verification_input'')) (\<lambda>inputTree.
      sx_bind (loadContentTree H C (rc_outputRoot receipt) (js ''verification_output'')) (\<lambda>outputTree.
      verify_trees H R manifest receipt inputTree outputTree))))))"

definition verifyOfflineCapsuleCandidate :: "capsule_host \<Rightarrow> 's verify_input \<Rightarrow> ('s, err, assessment) sx" where
  "verifyOfflineCapsuleCandidate H input =
     (case parsePassiveManifest H (vi_manifest input) of
        None \<Rightarrow> sx_lift (blockedAssessment H [js ''offline_capsule_manifest_invalid''] None None)
      | Some manifest \<Rightarrow>
     (case parsePassiveReceipt H (vi_receipt input) of
        None \<Rightarrow> sx_lift (blockedAssessment H [js ''offline_capsule_receipt_invalid''] (Some manifest) None)
      | Some receipt \<Rightarrow>
     (let blocked = (\<lambda>reasons. sx_lift (blockedAssessment H reasons (Some manifest) (Some (rc_outputRoot receipt))));
          limits = cm_limits manifest in
      sx_bind (sx_catch (sx_bind (vi_now input) (\<lambda>t. sx_return (Some t))) (\<lambda>_. sx_return None)) (\<lambda>verifiedAt.
      case verifiedAt of
        None \<Rightarrow> blocked [js ''offline_capsule_verification_clock_failed'']
      | Some now \<Rightarrow>
          let bindingReasons = collectBindingReasons H manifest receipt now in
          if bindingReasons \<noteq> [] then blocked bindingReasons
          else if containsCredentialLikeMetadataContent H manifest receipt
          then blocked [js ''offline_capsule_credential_like_content_forbidden'']
          else if dg_size (cm_taskDigest manifest) > li_maxTaskBytes limits
          then blocked [js ''offline_capsule_task_byte_limit_exceeded'']
          else if dg_size (cm_inputRoot manifest) > li_maxTreeManifestBytes limits \<or>
             dg_size (rc_outputRoot receipt) > li_maxTreeManifestBytes limits
          then blocked [js ''offline_capsule_tree_manifest_byte_limit_exceeded'']
          else sx_catch (verify_content H (vi_store input) (vi_replayStore input) manifest receipt)
            (\<lambda>e. blocked [normalizeVerificationFailure e])))))"

end
