(* ===== verification/CapsuleVerifierProofs.thy ===== *)
theory CapsuleVerifierProofs
  imports CapsuleVerifier
begin

text \<open>
  What a verified capsule means. The verification always returns an assessment that satisfies its schema; a verified
  one binds the receipt to the manifest, is inside the time window, and its change set is exactly the
  difference of the two trees that the digests name, confined to the allowed targets.
\<close>

section \<open>The verification always returns\<close>

lemma parsed_manifest: "parsePassiveManifest H v = Some m \<Longrightarrow> OfflineExecutionCapsuleManifestSchema H m"
  by (auto simp: parsePassiveManifest_def split: option.splits if_splits)

lemma parsed_receipt: "parsePassiveReceipt H v = Some r \<Longrightarrow> OfflineOutputTreeReceiptSchema H r"
  by (auto simp: parsePassiveReceipt_def split: option.splits if_splits)

lemma parsed_facts:
  "OfflineExecutionCapsuleManifestSchema H m \<Longrightarrow> sha256_hex (cm_manifestHash m)"
  "OfflineOutputTreeReceiptSchema H r \<Longrightarrow> ContentDigestSchema (rc_outputRoot r)"
  unfolding OfflineExecutionCapsuleManifestSchema_def OfflineOutputTreeReceiptSchema_def OfflineOutputTreeReceiptContentSchema_def by blast+

lemma blocked_ok:
  assumes "\<forall>x \<in> set reasons. x \<noteq> []" "opt_all (OfflineExecutionCapsuleManifestSchema H) m" "opt_all ContentDigestSchema root"
  shows "\<exists>a. blockedAssessment H reasons m root = Inr a"
  using assms parsed_facts(1)
  by (cases m) (auto simp: blockedAssessment_def OfflineCapsuleAssessmentSchema_def zod_parse_def list_all_iff)

lemma blocked_status: "blockedAssessment H reasons m root = Inr a \<Longrightarrow> as_status a \<noteq> VerifiedOffline \<and> OfflineCapsuleAssessmentSchema H a"
  by (auto simp: blockedAssessment_def)

lemma binding_reasons_plain: "x \<in> set (collectBindingReasons H m r now) \<Longrightarrow> x \<noteq> []"
  by (auto simp: collectBindingReasons_def Let_def pick_def split: if_splits)

lemma failure_plain: "normalizeVerificationFailure e \<noteq> []"
  by (auto simp: normalizeVerificationFailure_def offline_reason_def split: err.splits)

text \<open>What the block inside the \<open>try\<close> returns satisfies the schema.\<close>

lemma verify_trees_schema:
  "verify_trees H R m r inT outT s = (Inr a, t) \<Longrightarrow> OfflineCapsuleAssessmentSchema H a"
  unfolding verify_trees_def Let_def
  by (auto simp: sx_bind_Inr dest: blocked_status split: if_splits option.splits bool.splits)

lemma verify_content_schema:
  "verify_content H C R m r s = (Inr a, t) \<Longrightarrow> OfflineCapsuleAssessmentSchema H a"
  unfolding verify_content_def Let_def
  by (auto simp: sx_bind_Inr dest: blocked_status verify_trees_schema split: if_splits)

lemma if_elim: "(b \<Longrightarrow> P x) \<Longrightarrow> (\<not> b \<Longrightarrow> P y) \<Longrightarrow> P (if b then x else y)"
  by simp

lemma verification_total:
  "\<exists>a t. verifyOfflineCapsuleCandidate H input s = (Inr a, t) \<and> OfflineCapsuleAssessmentSchema H a"
proof -
  have lift: "\<exists>a t. sx_lift (blockedAssessment H reasons m root) u = (Inr a, t) \<and> OfflineCapsuleAssessmentSchema H a"
    if "\<forall>x \<in> set reasons. x \<noteq> []" "opt_all (OfflineExecutionCapsuleManifestSchema H) m" "opt_all ContentDigestSchema root"
    for reasons m root and u :: 'a
    using blocked_ok [OF that] blocked_status by (fastforce simp: sx_lift_def)
  show ?thesis
  proof (cases "parsePassiveManifest H (vi_manifest input)")
    case None
    with lift [of "[js ''offline_capsule_manifest_invalid'']" None None s] show ?thesis by (simp add: verifyOfflineCapsuleCandidate_def)
  next
    case (Some m)
    note m = this and mok = parsed_manifest [OF this]
    show ?thesis
    proof (cases "parsePassiveReceipt H (vi_receipt input)")
      case None
      with m mok lift [of "[js ''offline_capsule_receipt_invalid'']" "Some m" None s] show ?thesis
        by (simp add: verifyOfflineCapsuleCandidate_def)
    next
      case (Some r)
      note rok = parsed_facts(2) [OF parsed_receipt [OF this]]
      have blocked: "\<exists>a t. sx_lift (blockedAssessment H reasons (Some m) (Some (rc_outputRoot r))) u = (Inr a, t) \<and> OfflineCapsuleAssessmentSchema H a"
        if "\<forall>x \<in> set reasons. x \<noteq> []" for reasons and u :: 'a
        using that mok rok by (intro lift) simp_all
      have content: "\<exists>a t. sx_catch (verify_content H (vi_store input) (vi_replayStore input) m r)
          (\<lambda>e. sx_lift (blockedAssessment H [normalizeVerificationFailure e] (Some m) (Some (rc_outputRoot r)))) u = (Inr a, t) \<and>
          OfflineCapsuleAssessmentSchema H a" for u :: 'a
      proof (cases "verify_content H (vi_store input) (vi_replayStore input) m r u")
        case (Pair res u')
        then show ?thesis
          using blocked [of "[normalizeVerificationFailure (projl res)]" u'] failure_plain
          by (cases res) (auto simp: sx_catch_def dest: verify_content_schema)
      qed
      obtain now u where "sx_catch (sx_bind (vi_now input) (\<lambda>t. sx_return (Some t))) (\<lambda>_. sx_return None) s = (Inr now, u)"
        by (cases "vi_now input s"; cases "fst (vi_now input s)") (auto simp: sx_catch_def sx_bind_def sx_return_def)
      then have run: "verifyOfflineCapsuleCandidate H input s = (case now of
          None \<Rightarrow> sx_lift (blockedAssessment H [js ''offline_capsule_verification_clock_failed''] (Some m) (Some (rc_outputRoot r)))
        | Some tm \<Rightarrow> (let bindingReasons = collectBindingReasons H m r tm; blocked = (\<lambda>reasons. sx_lift (blockedAssessment H reasons (Some m) (Some (rc_outputRoot r)))) in
          if bindingReasons \<noteq> [] then blocked bindingReasons
          else if containsCredentialLikeMetadataContent H m r then blocked [js ''offline_capsule_credential_like_content_forbidden'']
          else if dg_size (cm_taskDigest m) > li_maxTaskBytes (cm_limits m) then blocked [js ''offline_capsule_task_byte_limit_exceeded'']
          else if dg_size (cm_inputRoot m) > li_maxTreeManifestBytes (cm_limits m) \<or> dg_size (rc_outputRoot r) > li_maxTreeManifestBytes (cm_limits m)
          then blocked [js ''offline_capsule_tree_manifest_byte_limit_exceeded'']
          else sx_catch (verify_content H (vi_store input) (vi_replayStore input) m r) (\<lambda>e. blocked [normalizeVerificationFailure e]))) u"
        using m Some by (simp add: verifyOfflineCapsuleCandidate_def Let_def sx_bind_run split: option.split)
      show ?thesis
      proof (cases now)
        case None
        then show ?thesis unfolding run using blocked [of "[js ''offline_capsule_verification_clock_failed'']" u] by simp
      next
        case (Some tm)
        show ?thesis
          unfolding run Some option.case Let_def
          by (intro if_elim [where P = "\<lambda>x. \<exists>a t. x u = (Inr a, t) \<and> OfflineCapsuleAssessmentSchema H a"] blocked content)
            (auto dest: binding_reasons_plain)
      qed
    qed
  qed
qed


text \<open>
  C17: The verification never throws, whatever the stores, the clock and the untyped input do, and the assessment it
  returns satisfies its schema: a verified one carries the manifest hash, the output root and a change set, a
  blocked one carries no change set.
\<close>

theorem verification_returns:
  "\<exists>a t. verifyOfflineCapsuleCandidate H input s = (Inr a, t) \<and> OfflineCapsuleAssessmentSchema H a"
  by (rule verification_total)

section \<open>The path to a verified assessment\<close>

text \<open>The facts that \<open>verify_trees\<close> establishes before it consumes the receipt.\<close>

definition trees_accepted ::
  "capsule_host \<Rightarrow> capsule_manifest \<Rightarrow> receipt \<Rightarrow> loaded_tree \<Rightarrow> loaded_tree \<Rightarrow> change_set \<Rightarrow> bool" where
  "trees_accepted H m r inT outT cs \<longleftrightarrow>
     (let comparison = compareCompleteTrees (lt_files inT) (lt_files outT) (cm_allowedTargets m) in
      \<not> containsCredentialLikeTreeContent (ch_host H) (lt_files inT) \<and>
      \<not> containsCredentialLikeTreeContent (ch_host H) (lt_files outT) \<and>
      snd comparison = [] \<and> fst comparison \<noteq> [] \<and>
      int (length (fst comparison)) \<le> li_maxChangedFiles (cm_limits m) \<and>
      changed_bytes (fst comparison) \<le> li_maxChangedBytes (cm_limits m) \<and>
      (\<exists>gcs. map_res governed_change_of (fst comparison) = Inr gcs \<and> diff_bytes gcs \<le> li_maxDiffBytes (cm_limits m) \<and>
         cs = capsule_change_set H m r (sort_key fc_path gcs)) \<and>
      GovernedFileChangeSetSchema (text_sha256 H) cs)"

lemma verify_trees_verified:
  assumes run: "verify_trees H R m r inT outT s = (Inr a, t)" and "as_status a = VerifiedOffline"
  shows "\<exists>cs. trees_accepted H m r inT outT cs \<and> rs_consume R (cm_nonce m) (rc_receiptHash r) s = (Inr True, t) \<and>
    as_manifestHash a = Some (cm_manifestHash m) \<and> as_outputRoot a = Some (rc_outputRoot r) \<and> as_changeSet a = Some cs"
proof -
  have no: "blockedAssessment H reasons x y \<noteq> Inr a" for reasons x y
    using assms(2) blocked_status by blast
  obtain changes reasons where C: "compareCompleteTrees (lt_files inT) (lt_files outT) (cm_allowedTargets m) = (changes, reasons)"
    by fastforce
  let ?cred = "containsCredentialLikeTreeContent (ch_host H) (lt_files inT) \<or> containsCredentialLikeTreeContent (ch_host H) (lt_files outT)"
  note body = run [unfolded verify_trees_def Let_def C fst_conv snd_conv]
  have ok: "\<not> ?cred" "reasons = []" "changes \<noteq> []" "int (length changes) \<le> li_maxChangedFiles (cm_limits m)"
    "changed_bytes changes \<le> li_maxChangedBytes (cm_limits m)"
    using body no by (simp_all add: not_less split: if_split_asm)
  let ?cs = "\<lambda>gcs. capsule_change_set H m r (sort_key fc_path gcs)"
  let ?consume = "sx_catch (sx_bind (rs_consume R (cm_nonce m) (rc_receiptHash r)) (\<lambda>b. sx_return (Some b))) (\<lambda>_. sx_return None)"
  from body ok obtain gcs where gcs: "map_res governed_change_of changes = Inr gcs" "diff_bytes gcs \<le> li_maxDiffBytes (cm_limits m)"
      "GovernedFileChangeSetSchema (text_sha256 H) (?cs gcs)"
    and rest: "sx_bind ?consume (case_option (sx_lift (blockedAssessment H [js ''offline_capsule_replay_store_failed''] (Some m) (Some (rc_outputRoot r))))
        (\<lambda>b. if \<not> b then sx_lift (blockedAssessment H [js ''offline_capsule_receipt_or_nonce_replay''] (Some m) (Some (rc_outputRoot r))) else sx_lift (zod_parse (OfflineCapsuleAssessmentSchema H) (verified_assessment m r (?cs gcs))))) s = (Inr a, t)"
    using body ok no by (auto simp: sx_bind_Inr not_less split: if_split_asm)
  from rest no obtain u where consumed: "?consume s = (Inr (Some True), u)"
    and final: "zod_parse (OfflineCapsuleAssessmentSchema H) (verified_assessment m r (?cs gcs)) = Inr a" "t = u"
    by (auto simp: sx_bind_Inr split: option.splits if_splits)
  from consumed have "rs_consume R (cm_nonce m) (rc_receiptHash r) s = (Inr True, u)"
    by (auto simp: sx_catch_Inr sx_bind_Inr)
  with final gcs ok C show ?thesis unfolding trees_accepted_def by (auto simp: verified_assessment_def)
qed

definition content_accepted ::
  "capsule_host \<Rightarrow> capsule_manifest \<Rightarrow> receipt \<Rightarrow> capsule_task \<Rightarrow> stored_tree \<Rightarrow> stored_tree \<Rightarrow> bool" where
  "content_accepted H m r task inM outM \<longleftrightarrow> ct_taskId task = cm_capsuleId m \<and>
     sameCanonicalJson (str_array (ct_targetPaths task)) (str_array (cm_allowedTargets m)) \<and>
     \<not> containsCredentialLikeTaskContent (ch_host H) task \<and>
     collectCompleteTreeLimitReasons (sd_manifest inM) (sd_manifest outM) m = [] \<and>
     \<not> list_ex (\<lambda>e. isSensitiveOfflineTreePath (ch_host H) (en_path e)) (tm_entries (sd_manifest inM)) \<and>
     \<not> list_ex (\<lambda>e. isSensitiveOfflineTreePath (ch_host H) (en_path e)) (tm_entries (sd_manifest outM))"

lemma verify_content_verified:
  assumes run: "verify_content H C R m r s = (Inr a, t)" and "as_status a = VerifiedOffline"
  shows "\<exists>task s1 inM s2 outM s3 inT s4 outT s5. loadCapsuleTask H C (cm_taskDigest m) (js ''verification_task'') s = (Inr task, s1) \<and>
    loadContentTreeManifest H C (cm_inputRoot m) (js ''verification_input'') s1 = (Inr inM, s2) \<and>
    loadContentTreeManifest H C (rc_outputRoot r) (js ''verification_output'') s2 = (Inr outM, s3) \<and>
    content_accepted H m r task inM outM \<and>
    loadContentTree H C (cm_inputRoot m) (js ''verification_input'') s3 = (Inr inT, s4) \<and>
    loadContentTree H C (rc_outputRoot r) (js ''verification_output'') s4 = (Inr outT, s5) \<and>
    verify_trees H R m r inT outT s5 = (Inr a, t)"
proof -
  have no: "blockedAssessment H reasons x y \<noteq> Inr a" for reasons x y
    using assms(2) blocked_status by blast
  show ?thesis
    using run unfolding verify_content_def Let_def content_accepted_def
    by (fastforce simp: sx_bind_Inr no split: if_splits)
qed

definition candidate_accepted :: "capsule_host \<Rightarrow> 's verify_input \<Rightarrow> capsule_manifest \<Rightarrow> receipt \<Rightarrow> str \<Rightarrow> bool" where
  "candidate_accepted H input m r now \<longleftrightarrow> parsePassiveManifest H (vi_manifest input) = Some m \<and>
     parsePassiveReceipt H (vi_receipt input) = Some r \<and> collectBindingReasons H m r now = [] \<and>
     \<not> containsCredentialLikeMetadataContent H m r \<and> dg_size (cm_taskDigest m) \<le> li_maxTaskBytes (cm_limits m) \<and>
     dg_size (cm_inputRoot m) \<le> li_maxTreeManifestBytes (cm_limits m) \<and>
     dg_size (rc_outputRoot r) \<le> li_maxTreeManifestBytes (cm_limits m)"

lemma verify_verified:
  assumes run: "verifyOfflineCapsuleCandidate H input s = (Inr a, t)" and v: "as_status a = VerifiedOffline"
  shows "\<exists>m r now u. candidate_accepted H input m r now \<and> vi_now input s = (Inr now, u) \<and>
    verify_content H (vi_store input) (vi_replayStore input) m r u = (Inr a, t)"
proof -
  have no: "blockedAssessment H reasons x y \<noteq> Inr a" for reasons x y
    using v blocked_status by blast
  show ?thesis
    using run unfolding verifyOfflineCapsuleCandidate_def Let_def candidate_accepted_def
    by (fastforce simp: sx_bind_Inr sx_catch_Inr no not_less split: if_splits option.splits)
qed


section \<open>Bindings\<close>

lemma same_sorted: "keys_distinct x \<Longrightarrow> keys_distinct y \<Longrightarrow> sameCanonicalJson x y \<Longrightarrow> sorted_json x = sorted_json y"
  using canonical_bytes_parse unfolding sameCanonicalJson_def by (metis option.inject)

lemma sorted_members:
  assumes "distinct (map fst kvs)" "list_all (\<lambda>(k, _). k \<in> set (map js keys)) kvs"
  obtains ms where "strict_members keys (Some (sorted_json (JObj kvs))) = Some ms"
    "\<And>k v. jprop kvs k = Some v \<Longrightarrow> jprop ms k = Some (sorted_json v)"
  using strict_sorted [OF assms] by auto

lemma read_repository_sorted: "read_repository (Some (sorted_json (repository_json r))) = Some r"
proof -
  let ?kvs = "[(js ''repositoryId'', JStr (rep_repositoryId r)), (js ''fullName'', JStr (rep_fullName r))]"
  obtain ms where ms: "strict_members [''repositoryId'', ''fullName''] (Some (sorted_json (JObj ?kvs))) = Some ms"
    "\<And>k v. jprop ?kvs k = Some v \<Longrightarrow> jprop ms k = Some (sorted_json v)"
    by (rule sorted_members [of ?kvs "[''repositoryId'', ''fullName'']"]) simp_all
  from ms(1) ms(2) [of "js ''repositoryId''"] ms(2) [of "js ''fullName''"]
  show ?thesis unfolding repository_json_def read_repository_def by simp
qed

lemma read_correlation_sorted: "read_correlation (Some (sorted_json (correlation_json c))) = Some c"
proof -
  let ?kvs = "[(js ''threadId'', JStr (co_threadId c)), (js ''turnId'', JStr (co_turnId c)), (js ''itemId'', JStr (co_itemId c))]"
  obtain ms where ms: "strict_members [''threadId'', ''turnId'', ''itemId''] (Some (sorted_json (JObj ?kvs))) = Some ms"
    "\<And>k v. jprop ?kvs k = Some v \<Longrightarrow> jprop ms k = Some (sorted_json v)"
    by (rule sorted_members [of ?kvs "[''threadId'', ''turnId'', ''itemId'']"]) simp_all
  from ms(1) ms(2) [of "js ''threadId''"] ms(2) [of "js ''turnId''"] ms(2) [of "js ''itemId''"]
  show ?thesis unfolding correlation_json_def read_correlation_def by simp
qed

lemma same_repository: "sameCanonicalJson (repository_json a) (repository_json b) \<longleftrightarrow> a = b"
proof
  have k: "keys_distinct (repository_json r)" for r by (simp add: repository_json_def)
  assume "sameCanonicalJson (repository_json a) (repository_json b)"
  from same_sorted [OF k k this] read_repository_sorted show "a = b" by (metis option.inject)
qed (simp add: sameCanonicalJson_def)

lemma same_correlation: "sameCanonicalJson (correlation_json a) (correlation_json b) \<longleftrightarrow> a = b"
proof
  have k: "keys_distinct (correlation_json c)" for c by (simp add: correlation_json_def)
  assume "sameCanonicalJson (correlation_json a) (correlation_json b)"
  from same_sorted [OF k k this] read_correlation_sorted show "a = b" by (metis option.inject)
qed (simp add: sameCanonicalJson_def)

lemma same_strings: "sameCanonicalJson (str_array ss) (str_array ts) \<longleftrightarrow> ss = ts"
proof
  assume "sameCanonicalJson (str_array ss) (str_array ts)"
  from same_sorted [OF keys_distinct_strs keys_distinct_strs this] read_strs show "ss = ts" by (metis option.inject)
qed (simp add: sameCanonicalJson_def)

lemma times_valid:
  "\<not> times_invalid i e s c v \<longleftrightarrow> (\<exists>i' e' s' c' v'. i = Some i' \<and> e = Some e' \<and> s = Some s' \<and> c = Some c' \<and> v = Some v' \<and>
     i' < e' \<and> i' \<le> s' \<and> s' \<le> c' \<and> c' \<le> e' \<and> c' \<le> v')"
  by (auto simp: times_invalid_def not_less split: option.splits)

definition bound_to :: "capsule_manifest \<Rightarrow> receipt \<Rightarrow> bool" where
  "bound_to m r \<longleftrightarrow> rc_capsuleId r = cm_capsuleId m \<and> rc_manifestHash r = cm_manifestHash m \<and> rc_taskDigest r = cm_taskDigest m \<and>
     rc_inputRoot r = cm_inputRoot m \<and> rc_repository r = cm_repository m \<and> rc_baseHead r = cm_baseHead m \<and>
     rc_correlation r = cm_correlation m \<and> rc_nonce r = cm_nonce m \<and> rc_cleanupSucceeded r"

lemma no_binding_reasons:
  "collectBindingReasons H m r now = [] \<longleftrightarrow> bound_to m r \<and>
     (\<exists>issued expires started completed verified.
        Date_parse (ch_date H) (cm_issuedAt m) = Some issued \<and> Date_parse (ch_date H) (cm_expiresAt m) = Some expires \<and>
        Date_parse (ch_date H) (rc_startedAt r) = Some started \<and> Date_parse (ch_date H) (rc_completedAt r) = Some completed \<and>
        Date_parse (ch_date H) now = Some verified \<and>
        issued < expires \<and> issued \<le> started \<and> started \<le> completed \<and> completed \<le> verified \<and> verified \<le> expires)"
  (is "_ \<longleftrightarrow> _ \<and> ?times")
proof -
  let ?i = "Date_parse (ch_date H) (cm_issuedAt m)" and ?e = "Date_parse (ch_date H) (cm_expiresAt m)"
  let ?s = "Date_parse (ch_date H) (rc_startedAt r)" and ?c = "Date_parse (ch_date H) (rc_completedAt r)"
  let ?v = "Date_parse (ch_date H) now"
  have "collectBindingReasons H m r now = [] \<longleftrightarrow> bound_to m r \<and> \<not> times_invalid ?i ?e ?s ?c ?v \<and>
      \<not> (the ?v > the ?e \<or> the ?v < the ?i)"
    by (auto simp: collectBindingReasons_def Let_def pick_def bound_to_def same_repository same_correlation)
  also have "\<not> times_invalid ?i ?e ?s ?c ?v \<and> \<not> (the ?v > the ?e \<or> the ?v < the ?i) \<longleftrightarrow> ?times"
    unfolding times_valid by fastforce
  finally show ?thesis by blast
qed

text \<open>
  C14: A verified receipt is bound to the manifest in every field and was produced and verified inside the manifest's
  time window: issued, started, completed, verified, expired, in this order.
\<close>

theorem verified_receipt_bound:
  assumes "verifyOfflineCapsuleCandidate H input s = (Inr a, t)" "as_status a = VerifiedOffline"
  shows "\<exists>m r now u issued expires started completed verified.
    parsePassiveManifest H (vi_manifest input) = Some m \<and> parsePassiveReceipt H (vi_receipt input) = Some r \<and>
    vi_now input s = (Inr now, u) \<and> bound_to m r \<and>
    as_manifestHash a = Some (cm_manifestHash m) \<and> as_outputRoot a = Some (rc_outputRoot r) \<and>
    Date_parse (ch_date H) (cm_issuedAt m) = Some issued \<and> Date_parse (ch_date H) (cm_expiresAt m) = Some expires \<and>
    Date_parse (ch_date H) (rc_startedAt r) = Some started \<and> Date_parse (ch_date H) (rc_completedAt r) = Some completed \<and>
    Date_parse (ch_date H) now = Some verified \<and>
    issued \<le> started \<and> started \<le> completed \<and> completed \<le> verified \<and> verified \<le> expires"
proof -
  from verify_verified [OF assms] obtain m r now u where c: "candidate_accepted H input m r now" "vi_now input s = (Inr now, u)"
    and v: "verify_content H (vi_store input) (vi_replayStore input) m r u = (Inr a, t)" by blast
  from verify_content_verified [OF v assms(2)] obtain inT outT s5
    where "verify_trees H (vi_replayStore input) m r inT outT s5 = (Inr a, t)" by blast
  from verify_trees_verified [OF this assms(2)]
  have roots: "as_manifestHash a = Some (cm_manifestHash m)" "as_outputRoot a = Some (rc_outputRoot r)" by blast+
  from c(1) have "collectBindingReasons H m r now = []" and p: "parsePassiveManifest H (vi_manifest input) = Some m"
    "parsePassiveReceipt H (vi_receipt input) = Some r" by (simp_all add: candidate_accepted_def)
  then show ?thesis unfolding no_binding_reasons using c(2) roots p by blast
qed


section \<open>The change set is the difference of the trees\<close>

definition tree_at :: "tree_manifest \<Rightarrow> str \<Rightarrow> tree_entry option" where
  "tree_at m p = find (\<lambda>e. en_path e = p) (tm_entries m)"

definition entry_of_file :: "loaded_file \<Rightarrow> tree_entry" where
  "entry_of_file f = \<lparr>en_path = tf_path f, en_mode = tf_mode f, en_blob = lf_digest f\<rparr>"

lemma path_set_sorted:
  "path_set_ok h A q ps \<Longrightarrow> sorted_wrt (<) ps \<and> (\<forall>p \<in> set ps. opt_all (\<lambda>q. q < p) q)"
proof (induction h A q ps rule: path_set_ok.induct)
  case (2 h A q p ps)
  then have "sorted_wrt (<) ps" "\<forall>x \<in> set ps. p < x" "opt_all (\<lambda>q. q < p) q" by simp_all
  then show ?case by (cases q) auto
qed simp

lemma authentic_files:
  "list_all2 (file_of_entry H) es fs \<Longrightarrow> es = map entry_of_file fs \<and> (\<forall>f \<in> set fs. digestBytes H (tf_content f) = lf_digest f)"
  by (induction rule: list_all2_induct) (auto simp: file_of_entry_def entry_of_file_def)

lemma by_path_find: "distinct (map tf_path fs) \<Longrightarrow> by_path fs p = find (\<lambda>f. tf_path f = p) fs"
proof -
  assume d: "distinct (map tf_path fs)"
  then have "map_of (rev (map (\<lambda>f. (tf_path f, f)) fs)) = map_of (map (\<lambda>f. (tf_path f, f)) fs)"
    by (subst map_of_inject_set) (simp_all add: comp_def rev_map [symmetric])
  moreover have "map_of (map (\<lambda>f. (tf_path f, f)) fs) p = find (\<lambda>f. tf_path f = p) fs" by (induction fs) auto
  ultimately show ?thesis by (simp add: by_path_def)
qed

lemma by_path_self: "distinct (map tf_path fs) \<Longrightarrow> f \<in> set fs \<Longrightarrow> by_path fs (tf_path f) = Some f"
  by (simp add: by_path_find) (induction fs, auto)

lemma tree_at_files:
  assumes "tm_entries m = map entry_of_file fs" "distinct (map tf_path fs)"
  shows "tree_at m p = map_option entry_of_file (by_path fs p)"
  unfolding tree_at_def by_path_find [OF assms(2)] assms(1) by (induction fs) (auto simp: entry_of_file_def)

text \<open>Two trees of files without repetition that pass the comparison.\<close>

definition compared :: "loaded_file list \<Rightarrow> loaded_file list \<Rightarrow> str list \<Rightarrow> bool" where
  "compared inF outF allowed \<longleftrightarrow> distinct (map tf_path inF) \<and> distinct (map tf_path outF) \<and>
     snd (compareCompleteTrees inF outF allowed) = []"

definition changed :: "loaded_file list \<Rightarrow> loaded_file list \<Rightarrow> str \<Rightarrow> bool" where
  "changed inF outF p \<longleftrightarrow> map_option entry_of_file (by_path inF p) \<noteq> map_option entry_of_file (by_path outF p)"

lemma compared_distinct: "compared inF outF allowed \<Longrightarrow> distinct (map tf_path inF)" "compared inF outF allowed \<Longrightarrow> distinct (map tf_path outF)"
  by (simp_all add: compared_def)

lemma file_found: "distinct (map tf_path fs) \<Longrightarrow> by_path fs p = Some f \<Longrightarrow> f \<in> set fs \<and> tf_path f = p"
  using lookup_Some by (fastforce simp: by_path_find)

lemma nothing_deleted: "compared inF outF allowed \<Longrightarrow> by_path inF p = Some f \<Longrightarrow> by_path outF p \<noteq> None"
proof -
  assume c: "compared inF outF allowed" and "by_path inF p = Some f"
  from file_found [OF compared_distinct(1) [OF c] this(2)] have "f \<in> set inF" "tf_path f = p" by simp_all
  moreover have "filter (\<lambda>f. by_path outF (tf_path f) = None) inF = []" using c by (simp add: compared_def compareCompleteTrees_def Let_def)
  ultimately show ?thesis by (auto simp: filter_empty_conv)
qed

lemma output_accepted: "compared inF outF allowed \<Longrightarrow> f \<in> set outF \<Longrightarrow> output_reasons (by_path inF) allowed f = []"
  by (simp add: compared_def compareCompleteTrees_def Let_def)

lemma same_mode:
  assumes "compared inF outF allowed" "by_path inF p = Some g" "by_path outF p = Some f"
  shows "tf_mode g = tf_mode f"
  using output_accepted [of inF outF allowed f] file_found [OF compared_distinct(2)] assms
  by (fastforce simp: output_reasons_def pick_path_def split: if_splits)

lemma created_mode:
  assumes "compared inF outF allowed" "by_path inF p = None" "by_path outF p = Some f"
  shows "tf_mode f = Mode644"
  using output_accepted [of inF outF allowed f] file_found [OF compared_distinct(2)] assms
  by (fastforce simp: output_reasons_def pick_path_def split: if_splits)

lemma changed_allowed:
  assumes c: "compared inF outF allowed" and ch: "changed inF outF p"
  shows "p \<in> set allowed"
proof (cases "by_path outF p")
  case None
  with ch nothing_deleted [OF c, of p] show ?thesis by (cases "by_path inF p") (simp_all add: changed_def)
next
  case (Some f)
  note f = file_found [OF compared_distinct(2) [OF c] Some] and reasons = output_accepted [OF c, of f]
  show ?thesis
  proof (cases "by_path inF p")
    case None
    with f reasons show ?thesis by (auto simp: output_reasons_def pick_path_def split: if_splits)
  next
    case g: (Some g)
    with ch Some same_mode [OF c g Some] f file_found [OF compared_distinct(1) [OF c] g] have "lf_digest g \<noteq> lf_digest f"
      by (auto simp: changed_def entry_of_file_def)
    with g f reasons show ?thesis by (auto simp: output_reasons_def pick_path_def split: if_splits)
  qed
qed

lemma output_changed:
  assumes c: "compared inF outF allowed" and f: "f \<in> set outF"
  shows "output_changes (by_path inF) f =
    (if changed inF outF (tf_path f) then [\<lparr>cc_before = by_path inF (tf_path f), cc_after = f\<rparr>] else [])"
proof -
  note out = by_path_self [OF compared_distinct(2) [OF c] f]
  show ?thesis
  proof (cases "by_path inF (tf_path f)")
    case None
    then show ?thesis by (simp add: output_changes_def changed_def out)
  next
    case (Some g)
    with same_mode [OF c Some out] file_found [OF compared_distinct(1) [OF c] Some]
    show ?thesis by (simp add: output_changes_def changed_def out entry_of_file_def)
  qed
qed

lemma concat_filter: "(\<And>x. x \<in> set xs \<Longrightarrow> f x = (if P x then [g x] else [])) \<Longrightarrow> concat (map f xs) = map g (filter P xs)"
  by (induction xs) auto

lemma changes_exact:
  "compared inF outF allowed \<Longrightarrow> fst (compareCompleteTrees inF outF allowed) =
     map (\<lambda>f. \<lparr>cc_before = by_path inF (tf_path f), cc_after = f\<rparr>) (filter (\<lambda>f. changed inF outF (tf_path f)) outF)"
  by (simp add: compareCompleteTrees_def Let_def concat_filter [OF output_changed])


text \<open>Everything a verified assessment rests on, in one step.\<close>

definition tree_with_files :: "capsule_host \<Rightarrow> digest \<Rightarrow> loaded_tree \<Rightarrow> bool" where
  "tree_with_files H d tr \<longleftrightarrow> digestCanonicalJson H (tree_json (sd_manifest tr)) = d \<and> ContentTreeManifestSchema H (sd_manifest tr) \<and>
     tm_entries (sd_manifest tr) = map entry_of_file (lt_files tr) \<and>
     (\<forall>f \<in> set (lt_files tr). digestBytes H (tf_content f) = lf_digest f) \<and> sorted_wrt (<) (map tf_path (lt_files tr))"

lemma loaded_tree_files: "loadContentTree H C d ctx s = (Inr tr, t) \<Longrightarrow> tree_with_files H d tr"
proof -
  assume "loadContentTree H C d ctx s = (Inr tr, t)"
  note tr = loadContentTree_sound [OF this]
  then have files: "tm_entries (sd_manifest tr) = map entry_of_file (lt_files tr)"
    "\<forall>f \<in> set (lt_files tr). digestBytes H (tf_content f) = lf_digest f" using authentic_files by blast+
  moreover have "sorted_wrt (<) (map en_path (tm_entries (sd_manifest tr)))"
    using tr path_set_sorted by (fastforce simp: ContentTreeManifestSchema_def)
  ultimately show ?thesis using tr by (simp add: tree_with_files_def entry_of_file_def comp_def)
qed

lemma sorted_distinct: "sorted_wrt (<) (xs :: str list) \<Longrightarrow> distinct xs"
  by (induction xs) auto

lemma verified_trees:
  assumes run: "verifyOfflineCapsuleCandidate H input s = (Inr a, t)" and v: "as_status a = VerifiedOffline"
  shows "\<exists>m r inT outT gcs. parsePassiveManifest H (vi_manifest input) = Some m \<and> parsePassiveReceipt H (vi_receipt input) = Some r \<and>
    tree_with_files H (cm_inputRoot m) inT \<and> tree_with_files H (rc_outputRoot r) outT \<and>
    compared (lt_files inT) (lt_files outT) (cm_allowedTargets m) \<and>
    map_res governed_change_of (fst (compareCompleteTrees (lt_files inT) (lt_files outT) (cm_allowedTargets m))) = Inr gcs \<and>
    trees_accepted H m r inT outT (capsule_change_set H m r (sort_key fc_path gcs)) \<and>
    as_changeSet a = Some (capsule_change_set H m r (sort_key fc_path gcs))"
proof -
  from verify_verified [OF assms] obtain m r now u where c: "candidate_accepted H input m r now"
    and vc: "verify_content H (vi_store input) (vi_replayStore input) m r u = (Inr a, t)" by blast
  from verify_content_verified [OF vc v] obtain s3 inT s4 outT s5
    where inT: "loadContentTree H (vi_store input) (cm_inputRoot m) (js ''verification_input'') s3 = (Inr inT, s4)"
    and outT: "loadContentTree H (vi_store input) (rc_outputRoot r) (js ''verification_output'') s4 = (Inr outT, s5)"
    and vt: "verify_trees H (vi_replayStore input) m r inT outT s5 = (Inr a, t)" by blast
  note files = loaded_tree_files [OF inT] loaded_tree_files [OF outT]
  from verify_trees_verified [OF vt v] obtain cs where cs: "trees_accepted H m r inT outT cs" "as_changeSet a = Some cs" by blast
  then obtain gcs where gcs: "map_res governed_change_of (fst (compareCompleteTrees (lt_files inT) (lt_files outT) (cm_allowedTargets m))) = Inr gcs"
    "cs = capsule_change_set H m r (sort_key fc_path gcs)" by (auto simp: trees_accepted_def Let_def)
  have cmp: "compared (lt_files inT) (lt_files outT) (cm_allowedTargets m)"
    using cs(1) files sorted_distinct by (auto simp: compared_def trees_accepted_def tree_with_files_def Let_def)
  from c have p: "parsePassiveManifest H (vi_manifest input) = Some m" "parsePassiveReceipt H (vi_receipt input) = Some r"
    by (simp_all add: candidate_accepted_def)
  with p files cmp gcs cs show ?thesis by blast
qed

lemma governed_change_of_Inr:
  "governed_change_of c = Inr g \<Longrightarrow> \<exists>beforeText afterText. decodeChangedText (tf_content (cc_after c)) = Inr afterText \<and>
     (case cc_before c of None \<Rightarrow> beforeText = None | Some f \<Rightarrow> \<exists>t. decodeChangedText (tf_content f) = Inr t \<and> beforeText = Some t) \<and>
     g = toGovernedChange (cc_before c) (cc_after c) beforeText afterText"
  by (auto simp: governed_change_of_def bind_res_Inr split: option.splits)

lemma toGovernedChange_fields [simp]:
  "fc_path (toGovernedChange b f x y) = tf_path f" "fc_kind (toGovernedChange b f x y) = (if b = None then CreateChange else UpdateChange)"
  "fc_beforeHash (toGovernedChange b f x y) = Some (map_option (\<lambda>f. dg_hash (lf_digest f)) b)"
  "fc_afterHash (toGovernedChange b f x y) = Some (Some (dg_hash (lf_digest f)))"
  "fc_unifiedDiff (toGovernedChange b f x y) = createCanonicalUnifiedDiff (tf_path f) x y" "fc_oldPath (toGovernedChange b f x y) = None"
  by (simp_all add: toGovernedChange_def)

lemma map_res_list: "map_res f xs = Inr ys \<Longrightarrow> (\<And>x y. f x = Inr y \<Longrightarrow> g y = h x) \<Longrightarrow> map g ys = map h xs"
  by (induction xs arbitrary: ys) (auto simp: bind_res_Inr)

lemma governed_sorted:
  assumes cmp: "compared inF outF allowed" and sorted: "sorted_wrt (<) (map tf_path outF)"
    and gcs: "map_res governed_change_of (fst (compareCompleteTrees inF outF allowed)) = Inr gcs"
  shows "map fc_path gcs = filter (changed inF outF) (map tf_path outF) \<and> sort_key fc_path gcs = gcs"
proof -
  have "map fc_path gcs = map (\<lambda>c. tf_path (cc_after c)) (fst (compareCompleteTrees inF outF allowed))"
    by (rule map_res_list [OF gcs]) (auto dest: governed_change_of_Inr)
  then have paths: "map fc_path gcs = filter (changed inF outF) (map tf_path outF)"
    by (simp add: changes_exact [OF cmp] comp_def filter_map)
  have "sorted_wrt (<) (map fc_path gcs)" unfolding paths by (rule sorted_wrt_filter [OF sorted])
  then have "sorted (map fc_path gcs)" by (rule strict_sorted_imp_sorted)
  with paths show ?thesis by (simp add: sort_key_id_if_sorted)
qed

text \<open>
  C13: The change set of a verified assessment is exactly the difference of the input tree that the manifest names and the
  output tree that the receipt names: its paths are the paths of the output tree whose entry differs, in order.
  Every changed path is an allowed target, no path of the input is missing from the output, no mode
  changes, and a created file is not executable.
\<close>

theorem verified_changes_exact:
  assumes "verifyOfflineCapsuleCandidate H input s = (Inr a, t)" "as_status a = VerifiedOffline"
  shows "\<exists>m r inM outM cs. parsePassiveManifest H (vi_manifest input) = Some m \<and> parsePassiveReceipt H (vi_receipt input) = Some r \<and>
    digestCanonicalJson H (tree_json inM) = cm_inputRoot m \<and> digestCanonicalJson H (tree_json outM) = rc_outputRoot r \<and>
    as_changeSet a = Some cs \<and> cs_changes cs \<noteq> [] \<and>
    map fc_path (cs_changes cs) = filter (\<lambda>p. tree_at inM p \<noteq> tree_at outM p) (map en_path (tm_entries outM)) \<and>
    (\<forall>p. tree_at inM p \<noteq> tree_at outM p \<longrightarrow> p \<in> set (cm_allowedTargets m) \<and>
       (case (tree_at inM p, tree_at outM p) of
          (_, None) \<Rightarrow> False
        | (None, Some e) \<Rightarrow> en_mode e = Mode644
        | (Some d, Some e) \<Rightarrow> en_mode d = en_mode e))"
proof -
  from verified_trees [OF assms] obtain m r inT outT gcs
    where p: "parsePassiveManifest H (vi_manifest input) = Some m" "parsePassiveReceipt H (vi_receipt input) = Some r"
    and inT: "tree_with_files H (cm_inputRoot m) inT" and outT: "tree_with_files H (rc_outputRoot r) outT"
    and cmp: "compared (lt_files inT) (lt_files outT) (cm_allowedTargets m)"
    and gcs: "map_res governed_change_of (fst (compareCompleteTrees (lt_files inT) (lt_files outT) (cm_allowedTargets m))) = Inr gcs"
    and acc: "trees_accepted H m r inT outT (capsule_change_set H m r (sort_key fc_path gcs))"
    and a: "as_changeSet a = Some (capsule_change_set H m r (sort_key fc_path gcs))" by blast
  let ?in = "sd_manifest inT" and ?out = "sd_manifest outT" and ?cs = "capsule_change_set H m r (sort_key fc_path gcs)"
  have at: "tree_at ?in p = map_option entry_of_file (by_path (lt_files inT) p)" "tree_at ?out p = map_option entry_of_file (by_path (lt_files outT) p)" for p
    using inT outT cmp by (simp_all add: tree_with_files_def compared_def tree_at_files)
  have changed_at: "changed (lt_files inT) (lt_files outT) p \<longleftrightarrow> tree_at ?in p \<noteq> tree_at ?out p" for p
    by (simp add: changed_def at)
  then have changed_fun: "changed (lt_files inT) (lt_files outT) = (\<lambda>p. tree_at ?in p \<noteq> tree_at ?out p)" by blast
  have "sorted_wrt (<) (map tf_path (lt_files outT))" using outT by (simp add: tree_with_files_def)
  note gs = governed_sorted [OF cmp this gcs]
  have paths: "map fc_path (cs_changes ?cs) = filter (\<lambda>p. tree_at ?in p \<noteq> tree_at ?out p) (map en_path (tm_entries ?out))"
    using gs outT by (simp add: capsule_change_set_def changed_fun tree_with_files_def entry_of_file_def comp_def)
  have "cs_changes ?cs \<noteq> []" using acc by (auto simp: trees_accepted_def GovernedFileChangeSetSchema_def Let_def)
  moreover have "p \<in> set (cm_allowedTargets m) \<and> (case (tree_at ?in p, tree_at ?out p) of (_, None) \<Rightarrow> False
        | (None, Some e) \<Rightarrow> en_mode e = Mode644 | (Some d, Some e) \<Rightarrow> en_mode d = en_mode e)"
    if diff: "tree_at ?in p \<noteq> tree_at ?out p" for p
  proof -
    have "p \<in> set (cm_allowedTargets m)" by (rule changed_allowed [OF cmp]) (use diff in \<open>simp add: changed_at\<close>)
    moreover have "by_path (lt_files outT) p \<noteq> None"
      using nothing_deleted [OF cmp, of p] diff at by (cases "by_path (lt_files inT) p") auto
    then obtain f where f: "by_path (lt_files outT) p = Some f" by blast
    ultimately show ?thesis
      using at [of p] same_mode [OF cmp _ f] created_mode [OF cmp _ f]
      by (cases "by_path (lt_files inT) p") (simp_all add: entry_of_file_def)
  qed
  moreover have "digestCanonicalJson H (tree_json ?in) = cm_inputRoot m" "digestCanonicalJson H (tree_json ?out) = rc_outputRoot r"
    using inT outT by (simp_all add: tree_with_files_def)
  ultimately show ?thesis using p a paths
    by - (rule exI [of _ m], rule exI [of _ r], rule exI [of _ ?in], rule exI [of _ ?out], rule exI [of _ ?cs], blast)
qed


section \<open>The changes themselves\<close>

lemma verified_change_cases:
  assumes run: "verifyOfflineCapsuleCandidate H input s = (Inr a, t)" and v: "as_status a = VerifiedOffline"
  shows "\<exists>cs. as_changeSet a = Some cs \<and> GovernedFileChangeSetSchema (text_sha256 H) cs \<and> (\<forall>c \<in> set (cs_changes cs). \<exists>f before beforeText afterText.
    c = toGovernedChange before f beforeText afterText \<and> isCanonicalCapsulePath (ch_host H) (tf_path f) \<and>
    digestBytes H (tf_content f) = lf_digest f \<and> decodeChangedText (tf_content f) = Inr afterText \<and>
    (case before of None \<Rightarrow> beforeText = None
      | Some g \<Rightarrow> digestBytes H (tf_content g) = lf_digest g \<and> (\<exists>x. decodeChangedText (tf_content g) = Inr x \<and> beforeText = Some x)))"
proof -
  from verified_trees [OF assms] obtain m r inT outT gcs
    where inT: "tree_with_files H (cm_inputRoot m) inT" and outT: "tree_with_files H (rc_outputRoot r) outT"
    and cmp: "compared (lt_files inT) (lt_files outT) (cm_allowedTargets m)"
    and gcs: "map_res governed_change_of (fst (compareCompleteTrees (lt_files inT) (lt_files outT) (cm_allowedTargets m))) = Inr gcs"
    and acc: "trees_accepted H m r inT outT (capsule_change_set H m r (sort_key fc_path gcs))"
    and a: "as_changeSet a = Some (capsule_change_set H m r (sort_key fc_path gcs))" by blast
  let ?cs = "capsule_change_set H m r (sort_key fc_path gcs)"
  have ok: "GovernedFileChangeSetSchema (text_sha256 H) ?cs" using acc by (simp add: trees_accepted_def Let_def)
  have entries: "\<forall>f \<in> set (lt_files outT). isCanonicalCapsulePath (ch_host H) (tf_path f)"
    using outT by (auto simp: tree_with_files_def ContentTreeManifestSchema_def ContentTreeEntrySchema_def CapsulePathSchema_def list_all_iff entry_of_file_def)
  have "\<exists>f before beforeText afterText.
    c = toGovernedChange before f beforeText afterText \<and> isCanonicalCapsulePath (ch_host H) (tf_path f) \<and>
    digestBytes H (tf_content f) = lf_digest f \<and> decodeChangedText (tf_content f) = Inr afterText \<and>
    (case before of None \<Rightarrow> beforeText = None
      | Some g \<Rightarrow> digestBytes H (tf_content g) = lf_digest g \<and> (\<exists>x. decodeChangedText (tf_content g) = Inr x \<and> beforeText = Some x))"
    if c: "c \<in> set (cs_changes ?cs)" for c
  proof -
    have "c \<in> set gcs" using c by (simp add: capsule_change_set_def)
    then obtain cc where cc: "cc \<in> set (fst (compareCompleteTrees (lt_files inT) (lt_files outT) (cm_allowedTargets m)))" "governed_change_of cc = Inr c"
      using gcs list_all2_mem_right [of _ _ gcs c] unfolding map_res_Inr by blast
    then obtain f where f: "f \<in> set (lt_files outT)" "cc = \<lparr>cc_before = by_path (lt_files inT) (tf_path f), cc_after = f\<rparr>"
      by (auto simp: changes_exact [OF cmp])
    have before: "digestBytes H (tf_content g) = lf_digest g" if "cc_before cc = Some g" for g
      using that f file_found [OF compared_distinct(1) [OF cmp]] inT by (auto simp: tree_with_files_def)
    from governed_change_of_Inr [OF cc(2)] f(2) obtain beforeText afterText
      where "decodeChangedText (tf_content f) = Inr afterText" "c = toGovernedChange (cc_before cc) f beforeText afterText"
      "case cc_before cc of None \<Rightarrow> beforeText = None | Some f \<Rightarrow> \<exists>t. decodeChangedText (tf_content f) = Inr t \<and> beforeText = Some t" by auto
    moreover have "digestBytes H (tf_content f) = lf_digest f" using f(1) outT by (simp add: tree_with_files_def)
    ultimately show ?thesis using entries f(1) before
      by - (rule exI [of _ f], rule exI [of _ "cc_before cc"], rule exI [of _ beforeText], rule exI [of _ afterText], auto split: option.splits)
  qed
  with a ok show ?thesis by blast
qed

lemma decoded: "decodeChangedText bytes = Inr t \<Longrightarrow> utf8_decode bytes = Some t"
  by (auto simp: decodeChangedText_def split: option.splits if_splits)

text \<open>
  C16: Each change of a verified change set creates or updates a file at a path that the authorization kernel holds for safe,
  and its diff, applied as a patch to the text whose hash it names as the old one, gives the text whose hash it
  names as the new one.
\<close>

theorem verified_diffs_apply:
  assumes "verifyOfflineCapsuleCandidate H input s = (Inr a, t)" "as_status a = VerifiedOffline"
  shows "\<exists>cs. as_changeSet a = Some cs \<and> GovernedFileChangeSetSchema (text_sha256 H) cs \<and> (\<forall>c \<in> set (cs_changes cs).
    \<not> hasUnsafeGovernedPath (ch_host H) c \<and>
    (\<exists>new newText oldText. fc_afterHash c = Some (Some (ch_sha256 H new)) \<and> utf8_decode new = Some newText \<and>
       apply_patch (fc_unifiedDiff c) oldText = Some newText \<and>
       (case fc_kind c of
          CreateChange \<Rightarrow> fc_beforeHash c = Some None \<and> oldText = None
        | UpdateChange \<Rightarrow> (\<exists>old. fc_beforeHash c = Some (Some (ch_sha256 H old)) \<and> utf8_decode old = oldText \<and> oldText \<noteq> None)
        | _ \<Rightarrow> False)))"
proof -
  from verified_change_cases [OF assms] obtain cs where cs: "as_changeSet a = Some cs" "GovernedFileChangeSetSchema (text_sha256 H) cs"
    and changes: "\<forall>c \<in> set (cs_changes cs). \<exists>f before beforeText afterText.
    c = toGovernedChange before f beforeText afterText \<and> isCanonicalCapsulePath (ch_host H) (tf_path f) \<and>
    digestBytes H (tf_content f) = lf_digest f \<and> decodeChangedText (tf_content f) = Inr afterText \<and>
    (case before of None \<Rightarrow> beforeText = None
      | Some g \<Rightarrow> digestBytes H (tf_content g) = lf_digest g \<and> (\<exists>x. decodeChangedText (tf_content g) = Inr x \<and> beforeText = Some x))" by blast
  have "\<not> hasUnsafeGovernedPath (ch_host H) c \<and>
    (\<exists>new newText oldText. fc_afterHash c = Some (Some (ch_sha256 H new)) \<and> utf8_decode new = Some newText \<and>
       apply_patch (fc_unifiedDiff c) oldText = Some newText \<and>
       (case fc_kind c of
          CreateChange \<Rightarrow> fc_beforeHash c = Some None \<and> oldText = None
        | UpdateChange \<Rightarrow> (\<exists>old. fc_beforeHash c = Some (Some (ch_sha256 H old)) \<and> utf8_decode old = oldText \<and> oldText \<noteq> None)
        | _ \<Rightarrow> False))" if "c \<in> set (cs_changes cs)" for c
  proof -
    from that changes obtain f before beforeText afterText where c: "c = toGovernedChange before f beforeText afterText"
      and path: "isCanonicalCapsulePath (ch_host H) (tf_path f)" and new: "digestBytes H (tf_content f) = lf_digest f"
      "decodeChangedText (tf_content f) = Inr afterText"
      and old: "case before of None \<Rightarrow> beforeText = None
      | Some g \<Rightarrow> digestBytes H (tf_content g) = lf_digest g \<and> (\<exists>x. decodeChangedText (tf_content g) = Inr x \<and> beforeText = Some x)" by blast
    have safe: "\<not> hasUnsafeGovernedPath (ch_host H) c"
      using capsule_path_safe [OF path] by (simp add: hasUnsafeGovernedPath_def c)
    have patch: "apply_patch (fc_unifiedDiff c) beforeText = Some afterText"
      using diff_roundtrip capsule_path_plain [OF path, of LF] by (simp add: c)
    have hash: "lf_digest g = digestBytes H (tf_content g) \<Longrightarrow> dg_hash (lf_digest g) = ch_sha256 H (tf_content g)" for g
      by (simp add: digestBytes_def)
    show ?thesis
    proof (cases before)
      case None
      with c old new hash [of f] decoded [OF new(2)] patch safe show ?thesis
        by - (rule conjI, assumption, rule exI [of _ "tf_content f"], rule exI [of _ afterText], rule exI [of _ None], simp)
    next
      case (Some g)
      with old obtain x where x: "digestBytes H (tf_content g) = lf_digest g" "decodeChangedText (tf_content g) = Inr x" "beforeText = Some x" by auto
      with Some c new hash [of f] hash [of g] decoded [OF new(2)] decoded [OF x(2)] patch safe show ?thesis
        by - (rule conjI, assumption, rule exI [of _ "tf_content f"], rule exI [of _ afterText], rule exI [of _ "Some x"], auto)
    qed
  qed
  with cs show ?thesis by blast
qed

end
