(* ===== verification/CapsuleReplay.thy ===== *)
theory CapsuleReplay
  imports CapsuleVerifierProofs
begin

text \<open>
  Replay protection. A replay store is used through two laws: a consumption succeeds exactly when neither the nonce nor the
  receipt hash was used before and then records both, and nothing is ever forgotten. The in-memory store keeps
  them beside any content store and clock, and then a nonce or a receipt is verified at most once.
\<close>

definition used_le :: "consumed \<Rightarrow> consumed \<Rightarrow> bool" where
  "used_le u v \<longleftrightarrow> used_nonces u \<subseteq> used_nonces v \<and> used_receiptHashes u \<subseteq> used_receiptHashes v"

lemma used_le_refl [simp]: "used_le u u"
  by (simp add: used_le_def)

lemma used_le_trans [trans]: "used_le u v \<Longrightarrow> used_le v w \<Longrightarrow> used_le u w"
  by (auto simp: used_le_def)

text \<open>A step that forgets nothing.\<close>

definition grows :: "('s \<Rightarrow> consumed) \<Rightarrow> ('s, 'e, 'a) sx \<Rightarrow> bool" where
  "grows used m \<longleftrightarrow> (\<forall>s r t. m s = (r, t) \<longrightarrow> used_le (used s) (used t))"

named_theorems growing

lemma grows_basic [growing]: "grows used (sx_return x)" "grows used (sx_throw e)" "grows used (sx_lift r)"
  by (simp_all add: grows_def sx_defs)

lemma grows_bind [growing]: "grows used m \<Longrightarrow> (\<And>x. grows used (f x)) \<Longrightarrow> grows used (sx_bind m f)"
  unfolding grows_def sx_bind_def by (fastforce split: prod.splits sum.splits intro: used_le_trans)

lemma grows_catch [growing]: "grows used m \<Longrightarrow> (\<And>e. grows used (f e)) \<Longrightarrow> grows used (sx_catch m f)"
  unfolding grows_def sx_catch_def by (fastforce split: prod.splits sum.splits intro: used_le_trans)

lemma grows_maps [growing]: "(\<And>x. grows used (f x)) \<Longrightarrow> grows used (sx_maps f xs)"
  by (induction xs) (simp_all add: growing)

lemma grows_if [growing]: "grows used m \<Longrightarrow> grows used n \<Longrightarrow> grows used (if b then m else n)"
  by simp

lemma grows_option [growing]: "grows used m \<Longrightarrow> (\<And>x. grows used (f x)) \<Longrightarrow> grows used (case v of None \<Rightarrow> m | Some x \<Rightarrow> f x)"
  by (cases v) simp_all

text \<open>The other parameters of a verification leave the replay store alone.\<close>

definition quiet :: "'s replay \<Rightarrow> ('s \<Rightarrow> consumed) \<Rightarrow> 's verify_input \<Rightarrow> bool" where
  "quiet R used input \<longleftrightarrow> vi_replayStore input = R \<and> grows used (vi_now input) \<and> (\<forall>d. grows used (cas_read (vi_store input) d))"

text \<open>The states that further verifications can reach.\<close>

inductive later :: "'s replay \<Rightarrow> ('s \<Rightarrow> consumed) \<Rightarrow> 's \<Rightarrow> 's \<Rightarrow> bool" for R :: "'s replay" and used :: "'s \<Rightarrow> consumed" where
  later_refl: "later R used s s"
| later_step: "later R used s t \<Longrightarrow> quiet R used input \<Longrightarrow> verifyOfflineCapsuleCandidate H input t = (a, u) \<Longrightarrow> later R used s u"

locale replay_store =
  fixes R :: "'s replay" and used :: "'s \<Rightarrow> consumed"
  assumes consume_fresh: "rs_consume R n h s = (Inr True, t) \<Longrightarrow> n \<notin> used_nonces (used s) \<and> h \<notin> used_receiptHashes (used s)"
    and consume_records: "rs_consume R n h s = (Inr True, t) \<Longrightarrow> n \<in> used_nonces (used t) \<and> h \<in> used_receiptHashes (used t)"
    and consume_grows: "grows used (rs_consume R n h)"
begin

lemma quiet_content: "(\<forall>d. grows used (cas_read C d)) \<Longrightarrow> grows used (verify_content H C R m r)"
  unfolding verify_content_def verify_trees_def loadCapsuleTask_def loadContentTree_def loadContentTreeManifest_def load_file_def
    readCanonicalObject_def readVerifiedBytes_def Let_def
  by (intro growing consume_grows allI impI) auto

lemma quiet_verify: "quiet R used input \<Longrightarrow> grows used (verifyOfflineCapsuleCandidate H input)"
proof -
  assume q: "quiet R used input"
  then have R: "vi_replayStore input = R" and rest: "grows used (vi_now input)" "\<forall>d. grows used (cas_read (vi_store input) d)"
    by (simp_all add: quiet_def)
  show ?thesis
    unfolding verifyOfflineCapsuleCandidate_def Let_def R by (intro growing rest quiet_content)
qed

text \<open>What a verified assessment does to the replay store, from the state after the reads to the end.\<close>

lemma verified_consumes:
  assumes q: "quiet R used input" and run: "verifyOfflineCapsuleCandidate H input s = (Inr a, t)" and v: "as_status a = VerifiedOffline"
  shows "\<exists>m r u. parsePassiveManifest H (vi_manifest input) = Some m \<and> parsePassiveReceipt H (vi_receipt input) = Some r \<and>
    used_le (used s) (used u) \<and> rs_consume R (cm_nonce m) (rc_receiptHash r) u = (Inr True, t)"
proof -
  let ?C = "vi_store input"
  have R: "vi_replayStore input = R" and quietC: "\<forall>d. grows used (cas_read ?C d)" and clock: "grows used (vi_now input)"
    using q by (simp_all add: quiet_def)
  have loads: "grows used (loadCapsuleTask H ?C d ctx)" "grows used (loadContentTreeManifest H ?C d ctx)" "grows used (loadContentTree H ?C d ctx)" for d ctx
    unfolding loadCapsuleTask_def loadContentTree_def loadContentTreeManifest_def load_file_def readCanonicalObject_def readVerifiedBytes_def
    by (intro growing quietC [rule_format])+
  from verify_verified [OF run v] obtain m r now s0 where c: "candidate_accepted H input m r now"
    and now: "vi_now input s = (Inr now, s0)" and vc: "verify_content H ?C R m r s0 = (Inr a, t)" unfolding R by blast
  from verify_content_verified [OF vc v] obtain task s1 inM s2 outM s3 inT s4 outT s5
    where l: "loadCapsuleTask H ?C (cm_taskDigest m) (js ''verification_task'') s0 = (Inr task, s1)"
    "loadContentTreeManifest H ?C (cm_inputRoot m) (js ''verification_input'') s1 = (Inr inM, s2)"
    "loadContentTreeManifest H ?C (rc_outputRoot r) (js ''verification_output'') s2 = (Inr outM, s3)"
    "loadContentTree H ?C (cm_inputRoot m) (js ''verification_input'') s3 = (Inr inT, s4)"
    "loadContentTree H ?C (rc_outputRoot r) (js ''verification_output'') s4 = (Inr outT, s5)"
    and vt: "verify_trees H R m r inT outT s5 = (Inr a, t)" by blast
  have "used_le (used s) (used s0)" using clock now by (auto simp: grows_def)
  also have "used_le (used s0) (used s1)" using loads(1) l(1) unfolding grows_def by blast
  also have "used_le (used s1) (used s2)" using loads(2) l(2) unfolding grows_def by blast
  also have "used_le (used s2) (used s3)" using loads(2) l(3) unfolding grows_def by blast
  also have "used_le (used s3) (used s4)" using loads(3) l(4) unfolding grows_def by blast
  also have "used_le (used s4) (used s5)" using loads(3) l(5) unfolding grows_def by blast
  finally have "used_le (used s) (used s5)" .
  with verify_trees_verified [OF vt v] c show ?thesis by (auto simp: candidate_accepted_def)
qed

lemma later_grows: "later R used s t \<Longrightarrow> used_le (used s) (used t)"
proof (induction rule: later.induct)
  case (later_step s t input H a u)
  then show ?case using quiet_verify [of input H] by (auto simp: grows_def intro: used_le_trans)
qed simp

lemma no_replay:
  assumes q: "quiet R used input" "quiet R used input'" and first: "verifyOfflineCapsuleCandidate H input s = (Inr a, t)" "as_status a = VerifiedOffline"
    and l: "later R used t t'" and second: "verifyOfflineCapsuleCandidate H input' t' = (Inr b, u)" "as_status b = VerifiedOffline"
    and m: "parsePassiveManifest H (vi_manifest input) = Some m" "parsePassiveManifest H (vi_manifest input') = Some m'"
    and r: "parsePassiveReceipt H (vi_receipt input) = Some r" "parsePassiveReceipt H (vi_receipt input') = Some r'"
  shows "cm_nonce m \<noteq> cm_nonce m' \<and> rc_receiptHash r \<noteq> rc_receiptHash r'"
proof -
  from verified_consumes [OF q(1) first] m r obtain u1 where "rs_consume R (cm_nonce m) (rc_receiptHash r) u1 = (Inr True, t)" by auto
  from consume_records [OF this] later_grows [OF l]
  have used: "cm_nonce m \<in> used_nonces (used t')" "rc_receiptHash r \<in> used_receiptHashes (used t')" by (auto simp: used_le_def)
  from verified_consumes [OF q(2) second] m r obtain u2 where "used_le (used t') (used u2)"
    "rs_consume R (cm_nonce m') (rc_receiptHash r') u2 = (Inr True, u)" by auto
  with consume_fresh used show ?thesis by (fastforce simp: used_le_def)
qed

end

section \<open>The in-memory replay store beside a content store and a clock\<close>

definition lift_fst :: "('a, 'e, 'x) sx \<Rightarrow> ('a \<times> 'b, 'e, 'x) sx" where
  "lift_fst m = (\<lambda>s. case m (fst s) of (r, t) \<Rightarrow> (r, (t, snd s)))"

definition lift_snd :: "('b, 'e, 'x) sx \<Rightarrow> ('a \<times> 'b, 'e, 'x) sx" where
  "lift_snd m = (\<lambda>s. case m (snd s) of (r, t) \<Rightarrow> (r, (fst s, t)))"

definition memory_replay :: "('a \<times> consumed) replay" where
  "memory_replay = \<lparr>rs_consume = (\<lambda>n h. lift_snd (rs_consume createInMemoryOfflineCapsuleReplayStore n h))\<rparr>"

definition memory_input :: "'a cas \<Rightarrow> ('a, err, str) sx \<Rightarrow> json option \<Rightarrow> json option \<Rightarrow> ('a \<times> consumed) verify_input" where
  "memory_input C clock manifest receipt =
     \<lparr>vi_store = \<lparr>cas_put = (\<lambda>bytes d. lift_fst (cas_put C bytes d)), cas_read = (\<lambda>d. lift_fst (cas_read C d))\<rparr>,
      vi_manifest = manifest, vi_receipt = receipt, vi_replayStore = memory_replay, vi_now = lift_fst clock\<rparr>"

lemma mem_consume_runs:
  "mem_consume n h u = (if n \<in> used_nonces u \<or> h \<in> used_receiptHashes u then (Inr False, u)
     else (Inr True, u\<lparr>used_nonces := insert n (used_nonces u), used_receiptHashes := insert h (used_receiptHashes u)\<rparr>))"
  by (simp add: mem_consume_def sx_defs)

lemma lift_fst_grows: "grows snd (lift_fst m)"
  by (auto simp: grows_def lift_fst_def split: prod.splits)

interpretation memory: replay_store memory_replay snd
proof
  fix n h and s t :: "'a \<times> consumed"
  show "rs_consume memory_replay n h s = (Inr True, t) \<Longrightarrow> n \<notin> used_nonces (snd s) \<and> h \<notin> used_receiptHashes (snd s)"
    "rs_consume memory_replay n h s = (Inr True, t) \<Longrightarrow> n \<in> used_nonces (snd t) \<and> h \<in> used_receiptHashes (snd t)"
    by (auto simp: memory_replay_def createInMemoryOfflineCapsuleReplayStore_def lift_snd_def mem_consume_runs split: if_splits)
  show "grows snd (rs_consume memory_replay n h :: ('a \<times> consumed, err, bool) sx)"
    by (auto simp: grows_def memory_replay_def createInMemoryOfflineCapsuleReplayStore_def lift_snd_def mem_consume_runs used_le_def split: if_splits)
qed

lemma memory_input_quiet: "quiet memory_replay snd (memory_input C clock manifest receipt)"
  by (simp add: quiet_def memory_input_def lift_fst_grows)


text \<open>
  C15: With the in-memory replay store, whatever the content store and the clock, a nonce or a receipt is verified at most
  once: after a verification that succeeded, and any number of further ones, every verification of a manifest
  with the same nonce or of a receipt with the same hash is blocked.
\<close>

theorem capsule_verified_once:
  assumes "verifyOfflineCapsuleCandidate H (memory_input C clock manifest receipt) s = (Inr a, t)" "as_status a = VerifiedOffline"
    and "later memory_replay snd t t'"
    and "parsePassiveManifest H manifest = Some m" "parsePassiveManifest H manifest' = Some m'"
    and "parsePassiveReceipt H receipt = Some r" "parsePassiveReceipt H receipt' = Some r'"
    and "cm_nonce m' = cm_nonce m \<or> rc_receiptHash r' = rc_receiptHash r"
    and "verifyOfflineCapsuleCandidate H (memory_input C' clock' manifest' receipt') t' = (Inr b, u)"
  shows "as_status b = BlockedOffline"
proof (rule ccontr)
  assume "as_status b \<noteq> BlockedOffline"
  then have "as_status b = VerifiedOffline" by (cases "as_status b") simp_all
  from memory.no_replay [OF memory_input_quiet memory_input_quiet assms(1-3,9) this, of m m' r r'] assms(4-8)
  show False by (auto simp: memory_input_def)
qed

end
