(* ===== verification/CapsuleDemo.thy ===== *)
theory CapsuleDemo
  imports CapsuleReplay
begin

text \<open>
  A verified run, for the witnesses: a scripted content store that answers the reads of a verification in their
  order, a hash that tells contents apart by their sizes, and a change of one file.
\<close>

section \<open>A screen for credential patterns\<close>

text \<open>Every pattern has two neighbouring characters that a text must contain to match it.\<close>

definition pairs :: "str \<Rightarrow> (cu \<times> cu) list" where
  "pairs s = zip s (tl s)"

definition fold_pair :: "cu \<times> cu \<Rightarrow> bool" where
  "fold_pair p \<longleftrightarrow> (fold_case (fst p), fold_case (snd p)) \<in> {(115, 107), (103, 104), (120, 111), (110, 112), (98, 101)}"

definition raw_pair :: "cu \<times> cu \<Rightarrow> bool" where
  "raw_pair p \<longleftrightarrow> fold_pair p \<or> p \<in> {(65, 75), (45, 45)}"

lemma fold_pair_same: "fold_case c = fold_case c' \<Longrightarrow> fold_case d = fold_case d' \<Longrightarrow> fold_pair (c, d) = fold_pair (c', d')"
  by (simp only: fold_pair_def fst_conv snd_conv)

definition compact_pair :: "cu \<times> cu \<Rightarrow> bool" where
  "compact_pair p \<longleftrightarrow> p \<in> {(105, 107), (115, 115), (111, 107), (99, 114), (105, 118), (105, 122)}"

lemma pairs_Cons: "set (pairs v) \<subseteq> set (pairs (a # v))"
  by (cases v) (auto simp: pairs_def)

lemma pairs_infix: "set (pairs v) \<subseteq> set (pairs (u @ v))"
proof (induction u)
  case (Cons a u)
  then show ?case using pairs_Cons [of "u @ v" a] by auto
qed simp

lemma pairs_prefix: "set (pairs v) \<subseteq> set (pairs (v @ w))"
proof (induction v)
  case (Cons a v)
  then show ?case by (cases v) (auto simp: pairs_def)
qed (simp add: pairs_def)

lemma rx_seq_ne: "rx_seq a b s \<noteq> [] \<Longrightarrow> a s \<noteq> []"
  by (auto simp: rx_seq_def)

lemma rx_boundary_ne: "rx_seq (rx_boundary w) b s \<noteq> [] \<Longrightarrow> b s \<noteq> []"
  by (auto simp: rx_seq_def rx_boundary_def split: if_splits)

lemma rx_text_pair:
  "rx_seq (rx_text eq (c # d # ts)) b (p, v) \<noteq> [] \<Longrightarrow> \<exists>c' d' w. v = c' # d' # w \<and> eq c c' \<and> eq d d'"
  by (auto simp: rx_seq_def rx_char_def split: list.splits if_splits)


definition starts_raw :: "str \<Rightarrow> bool" where
  "starts_raw v \<longleftrightarrow> (case v of c # d # _ \<Rightarrow> raw_pair (c, d) | _ \<Rightarrow> False)"

lemma regex_pair:
  assumes "regex_test m t" and pat: "\<And>p v. m (p, v) \<noteq> [] \<Longrightarrow> starts_raw v"
  shows "\<exists>q \<in> set (pairs t). raw_pair q"
proof -
  from assms(1) obtain u v p where t: "t = u @ v" and "m (p, v) \<noteq> []"
    unfolding regex_test_def rx_search_infix by blast
  with pat have "starts_raw v" by blast
  then obtain c d w where v: "v = c # d # w" "raw_pair (c, d)" by (auto simp: starts_raw_def split: list.splits)
  then have "(c, d) \<in> set (pairs v)" by (simp add: pairs_def)
  with t v pairs_infix show ?thesis by blast
qed

lemma raw_pair_text:
  assumes "rx_seq (rx_text eq (c # d # ts)) b (p, v) \<noteq> []" "eq = same_fold \<and> fold_pair (c, d) \<or> eq = same_char \<and> raw_pair (c, d)"
  shows "starts_raw v"
proof -
  from rx_text_pair [OF assms(1)] obtain c' d' w where v: "v = c' # d' # w" "eq c c'" "eq d d'" by blast
  moreover have "raw_pair (c', d')"
    using assms(2)
  proof
    assume "eq = same_fold \<and> fold_pair (c, d)"
    then show ?thesis using v(2,3) fold_pair_same [of c c' d d'] by (simp add: same_fold_def raw_pair_def)
  next
    assume "eq = same_char \<and> raw_pair (c, d)"
    then show ?thesis using v(2,3) by (simp add: same_char_def)
  qed
  ultimately show ?thesis by (simp add: starts_raw_def)
qed

lemma raw_screen: "list_all (\<lambda>q. \<not> raw_pair q) (pairs t) \<Longrightarrow> \<not> containsRawCredentialMaterial t"
proof
  assume ok: "list_all (\<lambda>q. \<not> raw_pair q) (pairs t)" and "containsRawCredentialMaterial t"
  then obtain m where m: "m \<in> set RAW_CREDENTIAL_MATERIAL_PATTERNS" "regex_test m t" by (auto simp: containsRawCredentialMaterial_def list_ex_iff)
  have raw: "fold_pair (115, 107)" "fold_pair (103, 104)" "fold_pair (120, 111)" "fold_pair (110, 112)" "fold_pair (66, 101)"
    "raw_pair (65, 75)" "raw_pair (45, 45)" by (simp_all add: raw_pair_def fold_pair_def fold_case_def is_upper_def)
  have lits: "js ''sk-'' = [115, 107, 45]" "js ''gh'' = [103, 104]" "js ''AKIA'' = [65, 75, 73, 65]" "js ''xox'' = [120, 111, 120]"
    "js ''npm_'' = [110, 112, 109, 95]" "js ''Bearer'' = [66, 101, 97, 114, 101, 114]"
    "js ''-----BEGIN'' = [45, 45, 45, 45, 45, 66, 69, 71, 73, 78]" by (simp_all add: js_def)
  have "list_all (\<lambda>m. m (p, v) \<noteq> [] \<longrightarrow> starts_raw v) RAW_CREDENTIAL_MATERIAL_PATTERNS" for p v
    unfolding RAW_CREDENTIAL_MATERIAL_PATTERNS_def lits list.pred_inject
    by (intro conjI impI list.pred_inject(1); ((drule rx_boundary_ne)?, erule raw_pair_text, (rule disjI1, rule conjI, rule refl, rule raw | rule disjI2, rule conjI, rule refl, rule raw)))
  then have "starts_raw v" if "m (p, v) \<noteq> []" for p v using m(1) that unfolding list_all_iff by blast
  with m(2) have "\<exists>q \<in> set (pairs t). raw_pair q" by (rule regex_pair)
  with ok show False unfolding list_all_iff by blast
qed

lemma str_includes_pairs: "str_includes t f \<Longrightarrow> set (pairs f) \<subseteq> set (pairs t)"
proof -
  assume "str_includes t f"
  then obtain u w where "t = u @ f @ w" by (auto simp: str_includes_def sublist_def)
  then show ?thesis using pairs_infix [of "f @ w" u] pairs_prefix [of f w] by blast
qed

definition compact_text :: "str \<Rightarrow> str" where
  "compact_text t = filter (\<lambda>c. is_lower c \<or> is_digit c) (ascii_lower t)"

lemma compact_screen:
  assumes "list_all (\<lambda>q. \<not> compact_pair q) (pairs (compact_text t))"
  shows "\<not> containsCredentialLikeDiffContent plain_host t"
proof -
  have "list_all (\<lambda>f. list_ex compact_pair (pairs f)) CREDENTIAL_LIKE_COMPACT_FRAGMENTS"
    by (simp add: CREDENTIAL_LIKE_COMPACT_FRAGMENTS_def pairs_def js_def compact_pair_def)
  then have "\<not> str_includes (compact_text t) f" if "f \<in> set CREDENTIAL_LIKE_COMPACT_FRAGMENTS" for f
    using that assms str_includes_pairs unfolding list_all_iff list_ex_iff by blast
  then show ?thesis
    unfolding containsCredentialLikeDiffContent_def Let_def by (simp add: plain_host_def list_ex_iff flip: compact_text_def)
qed

definition screened :: "str \<Rightarrow> bool" where
  "screened t \<longleftrightarrow> list_all (\<lambda>q. \<not> raw_pair q) (pairs t) \<and> list_all (\<lambda>q. \<not> compact_pair q) (pairs (compact_text t))"

lemma screened_clean: "screened t \<Longrightarrow> \<not> containsCredentialLikeText plain_host t"
  using raw_screen compact_screen by (simp add: screened_def containsCredentialLikeText_def)

lemmas screen_simps = screened_def compact_text_def pairs_def js_def raw_pair_def fold_pair_def compact_pair_def fold_case_def
  is_upper_def is_lower_def is_digit_def ascii_lower_def

section \<open>The capsule\<close>

definition zeros :: str where
  "zeros = replicate 64 48"

definition offline_host :: capsule_host where
  "offline_host = \<lparr>ch_host = plain_host, ch_sha256 = (\<lambda>_. zeros), ch_date = (\<lambda>s. Some (int (length s))), ch_datetime = (\<lambda>_. True)\<rparr>"

definition sized :: "int \<Rightarrow> digest" where
  "sized n = \<lparr>dg_hash = zeros, dg_size = n\<rparr>"

lemma sized_digest: "digestBytes offline_host bytes = sized (int (length bytes))"
  by (simp add: digestBytes_def offline_host_def sized_def)

lemma sized_ok: "0 \<le> n \<Longrightarrow> n \<le> 1000000 \<Longrightarrow> ContentDigestSchema (sized n)"
  by (simp add: sized_def ContentDigestSchema_def sha256_hex_def zeros_def list_all_iff is_digit_def)

lemma sized_fields [simp]: "dg_hash (sized n) = zeros" "dg_size (sized n) = n"
  by (simp_all add: sized_def)

lemma zeros_ok [simp]: "sha256_hex zeros" "length zeros = 64"
  by (simp_all add: sha256_hex_def zeros_def list_all_iff is_digit_def)

text \<open>An object whose canonical bytes take at most \<open>k\<close> bytes.\<close>

definition fits :: "nat \<Rightarrow> json \<Rightarrow> bool" where
  "fits k x \<longleftrightarrow> 3 * json_size x \<le> k"

lemma fits_digest:
  assumes "fits k x" "k \<le> 500000"
  shows "ContentDigestSchema (digestCanonicalJson offline_host x)" "dg_size (digestCanonicalJson offline_host x) \<le> int k"
    "0 \<le> dg_size (digestCanonicalJson offline_host x)"
proof -
  have "length (canonicalJsonBytes x) \<le> k" using canonical_bytes_length [of x] assms by (simp add: fits_def)
  with assms(2) show "ContentDigestSchema (digestCanonicalJson offline_host x)" "dg_size (digestCanonicalJson offline_host x) \<le> int k"
    "0 \<le> dg_size (digestCanonicalJson offline_host x)"
    by (simp_all add: digestCanonicalJson_def sized_digest sized_ok)
qed

lemma canonical_digest_hash [simp]: "dg_hash (digestCanonicalJson offline_host x) = zeros"
  by (simp add: digestCanonicalJson_def sized_digest)

definition offline_task :: capsule_task where
  "offline_task = \<lparr>ct_taskId = js ''c'', ct_instruction = js ''i'', ct_successCriteria = [js ''d''], ct_outOfScope = [], ct_targetPaths = [js ''a.ts'']\<rparr>"

definition offline_tree :: "nat \<Rightarrow> tree_manifest" where
  "offline_tree n = (let entries = [\<lparr>en_path = js ''a.ts'', en_mode = Mode644, en_blob = sized (int n)\<rparr>]
     in \<lparr>tm_entries = entries, tm_rootDigest = tree_root_digest offline_host entries\<rparr>)"

definition offline_root :: "nat \<Rightarrow> digest" where
  "offline_root n = digestCanonicalJson offline_host (tree_json (offline_tree n))"

definition offline_manifest :: capsule_manifest where
  "offline_manifest = \<lparr>cm_capsuleId = js ''c'', cm_taskDigest = digestCanonicalJson offline_host (task_json offline_task),
     cm_inputRoot = offline_root 2, cm_repository = \<lparr>rep_repositoryId = js ''r'', rep_fullName = js ''o/r''\<rparr>, cm_baseHead = js ''h'',
     cm_correlation = \<lparr>co_threadId = js ''t'', co_turnId = js ''u'', co_itemId = js ''i''\<rparr>, cm_allowedTargets = [js ''a.ts''],
     cm_limits = \<lparr>li_maxTaskBytes = 500000, li_maxTreeManifestBytes = 500000, li_maxTotalTreeFiles = 2, li_maxTotalTreeBytes = 3,
       li_maxChangedFiles = 1, li_maxChangedBytes = 3, li_maxDiffBytes = 500\<rparr>,
     cm_nonce = replicate 32 48, cm_issuedAt = js ''1'', cm_expiresAt = js ''11111'', cm_manifestHash = zeros\<rparr>"

definition offline_receipt :: receipt where
  "offline_receipt = \<lparr>rc_receiptId = js ''r'', rc_capsuleId = js ''c'', rc_manifestHash = zeros,
     rc_taskDigest = digestCanonicalJson offline_host (task_json offline_task), rc_inputRoot = offline_root 2, rc_outputRoot = offline_root 1,
     rc_repository = \<lparr>rep_repositoryId = js ''r'', rep_fullName = js ''o/r''\<rparr>, rc_baseHead = js ''h'',
     rc_correlation = \<lparr>co_threadId = js ''t'', co_turnId = js ''u'', co_itemId = js ''i''\<rparr>, rc_nonce = replicate 32 48,
     rc_startedAt = js ''11'', rc_completedAt = js ''111'', rc_checks = [\<lparr>ck_checkId = js ''k'', ck_summary = js ''s''\<rparr>],
     rc_cleanupSucceeded = True, rc_receiptHash = zeros\<rparr>"

text \<open>The store answers the reads from a list.\<close>

definition script_cas :: "byte list list cas" where
  "script_cas = \<lparr>cas_put = (\<lambda>_ _. fail ''offline_cas_read_only''),
     cas_read = (\<lambda>_ s. case s of [] \<Rightarrow> (Inl (Err (js ''offline_cas_content_missing'')), []) | bytes # rest \<Rightarrow> (Inr (Some bytes), rest))\<rparr>"

definition old_bytes :: "byte list" where "old_bytes = [104, 105]"
definition new_bytes :: "byte list" where "new_bytes = [104]"

definition offline_script :: "byte list list" where
  "offline_script = [canonicalJsonBytes (task_json offline_task), canonicalJsonBytes (tree_json (offline_tree 2)),
     canonicalJsonBytes (tree_json (offline_tree 1)), canonicalJsonBytes (tree_json (offline_tree 2)), old_bytes,
     canonicalJsonBytes (tree_json (offline_tree 1)), new_bytes]"

definition offline_input :: "(byte list list \<times> consumed) verify_input" where
  "offline_input = memory_input script_cas (sx_return (js ''1111'')) (Some (manifest_json offline_manifest)) (Some (receipt_json offline_receipt))"

section \<open>The parts are valid\<close>

lemma host_offline [simp]: "ch_host offline_host = plain_host" "ch_sha256 offline_host bytes = zeros" "ch_datetime offline_host t"
  by (simp_all add: offline_host_def)

lemma a_ts: "CanonicalTargetPathsSchema plain_host [js ''a.ts'']"
  using demo_path by (simp add: CanonicalTargetPathsSchema_def)

lemma fits_task: "fits 20000 (task_json offline_task)"
  by (simp add: fits_def task_json_def offline_task_def str_array_def js_def)

lemma task_valid: "CapsuleTaskContractSchema offline_host offline_task"
  using a_ts by (simp add: CapsuleTaskContractSchema_def offline_task_def str_within_def js_def)

lemma fits_root:
  assumes "n \<le> 2"
  shows "fits 20000 (JObj [(js ''schemaVersion'', JStr (js ''content-tree-root.v1'')), (js ''entries'', JArr (map entry_json (tm_entries (offline_tree n))))])"
  using assms by (simp add: fits_def offline_tree_def Let_def entry_json_def digest_json_def mode_name_def js_def)

lemma tree_root_offline: "tm_rootDigest (offline_tree n) = tree_root_digest offline_host (tm_entries (offline_tree n))"
  by (simp add: offline_tree_def Let_def)

lemma root_small:
  assumes "n \<le> 2"
  shows "ContentDigestSchema (tm_rootDigest (offline_tree n))" "nat \<bar>dg_size (tm_rootDigest (offline_tree n))\<bar> \<le> 20000"
  using fits_digest [OF fits_root [OF assms]] unfolding tree_root_offline tree_root_digest_def by simp_all

lemma tree_valid:
  assumes "n \<le> 2" shows "ContentTreeManifestSchema offline_host (offline_tree n)"
proof -
  have "ContentDigestSchema (sized (int n))" using assms by (intro sized_ok) simp_all
  then have "list_all (ContentTreeEntrySchema offline_host) (tm_entries (offline_tree n))" "path_set_ok plain_host {} None (map en_path (tm_entries (offline_tree n)))"
    using demo_path by (simp_all add: offline_tree_def Let_def ContentTreeEntrySchema_def)
  with root_small(1) [OF assms] show ?thesis by (simp add: ContentTreeManifestSchema_def tree_root_offline)
qed

lemma fits_tree:
  assumes "n \<le> 2" shows "fits 100000 (tree_json (offline_tree n))"
proof -
  have "length (dg_hash (tm_rootDigest (offline_tree n))) = 64" by (simp add: tree_root_offline tree_root_digest_def)
  then show ?thesis using root_small(2) [OF assms] assms
    by (simp add: fits_def tree_json_def offline_tree_def Let_def digest_json_def entry_json_def mode_name_def js_def)
qed

lemma root_digest:
  assumes "n \<le> 2" shows "ContentDigestSchema (offline_root n)" "dg_size (offline_root n) \<le> 100000" "0 \<le> dg_size (offline_root n)" "dg_hash (offline_root n) = zeros"
  using fits_digest [OF fits_tree [OF assms]] by (simp_all add: offline_root_def)

lemma task_digest:
  "ContentDigestSchema (digestCanonicalJson offline_host (task_json offline_task))" "dg_size (digestCanonicalJson offline_host (task_json offline_task)) \<le> 20000"
  using fits_digest [OF fits_task] by simp_all

lemma offline_names: "full_name (js ''o/r'')"
  by (simp add: full_name_def js_def is_white_def)

lemma manifest_valid: "OfflineExecutionCapsuleManifestSchema offline_host offline_manifest"
  using root_digest(1) [of 2] task_digest(1) a_ts offline_names
  by (simp add: OfflineExecutionCapsuleManifestSchema_def OfflineExecutionCapsuleManifestContentSchema_def offline_manifest_def
      hashCanonicalJson_def OfflineCapsuleRepositoryIdentitySchema_def OfflineCapsuleCorrelationSchema_def OfflineCapsuleLimitsSchema_def
      limit_ok_def NONCE_PATTERN_def str_within_def js_def list_all_iff is_digit_def)

lemma receipt_valid: "OfflineOutputTreeReceiptSchema offline_host offline_receipt"
  using root_digest(1) [of 1] root_digest(1) [of 2] task_digest(1) offline_names
  by (simp add: OfflineOutputTreeReceiptSchema_def OfflineOutputTreeReceiptContentSchema_def offline_receipt_def
      hashCanonicalJson_def OfflineCapsuleRepositoryIdentitySchema_def OfflineCapsuleCorrelationSchema_def
      OfflineSimulatedCheckResultSchema_def NONCE_PATTERN_def str_within_def js_def list_all_iff is_digit_def)

lemma offline_parse:
  "parsePassiveManifest offline_host (Some (manifest_json offline_manifest)) = Some offline_manifest"
  "parsePassiveReceipt offline_host (Some (receipt_json offline_receipt)) = Some offline_receipt"
  using manifest_valid receipt_valid by (simp_all add: parsePassiveManifest_def parsePassiveReceipt_def read_manifest_json read_receipt_json)

lemma other_times: "84 \<notin> set s \<Longrightarrow> Date_parse (ch_date offline_host) s = Some (int (length s))"
proof -
  assume "84 \<notin> set s"
  then have "toISOString (read_iso s) \<noteq> Inr s" by (auto simp: toISOString_def split: if_splits) (metis in_set_conv_decomp)
  then show ?thesis by (simp add: Date_parse_def offline_host_def)
qed

lemma offline_bindings: "collectBindingReasons offline_host offline_manifest offline_receipt (js ''1111'') = []"
  unfolding no_binding_reasons
  by (simp add: bound_to_def offline_manifest_def offline_receipt_def other_times js_def)

lemma screened_clean_iff: "screened t \<Longrightarrow> containsCredentialLikeText plain_host t = False"
  using screened_clean by simp

lemma screened_zeros: "screened (replicate n 48)"
proof -
  have "x = 48 \<and> y = 48" if "(x, y) \<in> set (pairs (replicate n 48))" for x y :: cu
    using set_zip_leftD [OF that [unfolded pairs_def]] set_zip_rightD [OF that [unfolded pairs_def]] by (cases n) auto
  then have ok: "list_all (\<lambda>q. \<not> P q) (pairs (replicate n 48))" if "\<not> P (48, 48)" for P
    using that unfolding list_all_iff by fastforce
  have compact: "compact_text (replicate n 48) = replicate n 48"
    by (simp add: compact_text_def ascii_lower_def is_digit_def is_upper_def)
  have "\<not> raw_pair (48, 48)" "\<not> compact_pair (48, 48)"
    by (simp_all add: raw_pair_def fold_pair_def fold_case_def is_upper_def compact_pair_def)
  then show ?thesis unfolding screened_def compact by (intro conjI ok)
qed

lemma screened_constants:
  "screened (js ''sha256'')" "screened (js ''none'')" "screened (js ''immutable_content_tree_only'')" "screened (js ''complete_content_tree'')"
  "screened (js ''offline-test-only-fake-worker'')" "screened (js ''1'')" "screened (js ''test_only'')" "screened (js ''offline-execution-capsule.v1'')"
  "screened (js ''test_only_simulated'')" "screened (js ''offline-execution-capsule-policy.v1'')" "screened (js ''offline-output-tree-receipt.v1'')"
  "screened (js ''simulated'')" "screened (js ''succeeded'')"
  by (simp_all add: screen_simps)

lemma screened_values:
  "screened (js ''c'')" "screened (js ''r'')" "screened (js ''o/r'')" "screened (js ''h'')" "screened (js ''t'')" "screened (js ''u'')"
  "screened (js ''i'')" "screened (js ''k'')" "screened (js ''s'')" "screened (js ''d'')" "screened (js ''a.ts'')"
  "screened (js ''11'')" "screened (js ''111'')" "screened (js ''11111'')"
  by (simp_all add: screen_simps)

lemmas clean_values = screened_constants [THEN screened_clean_iff] screened_values [THEN screened_clean_iff]
  screened_zeros [THEN screened_clean_iff]

lemma clean_digest: "dg_hash d = zeros \<Longrightarrow> \<not> containsCredentialLikeStringValue plain_host (digest_json d)"
  by (simp add: digest_json_def clean_values zeros_def)

lemma clean_metadata: "\<not> containsCredentialLikeMetadataContent offline_host offline_manifest offline_receipt"
  by (simp add: containsCredentialLikeMetadataContent_def manifest_json_def manifest_members_def receipt_json_def receipt_members_def
      offline_manifest_def offline_receipt_def clean_digest root_digest repository_json_def correlation_json_def limits_json_def
      restrictions_json_def worker_json_def check_json_def cleanup_json_def str_array_def clean_values zeros_def)

lemma clean_task: "\<not> containsCredentialLikeTaskContent plain_host offline_task"
  by (simp add: containsCredentialLikeTaskContent_def offline_task_def clean_values)


section \<open>The run\<close>

abbreviation offline_store :: "(byte list list \<times> consumed) cas" where
  "offline_store \<equiv> vi_store offline_input"

lemma script_read [simp]: "cas_read offline_store d (bytes # rest, u) = (Inr (Some bytes), (rest, u))"
  by (simp add: offline_input_def memory_input_def lift_fst_def script_cas_def)

lemma run_task:
  "loadCapsuleTask offline_host offline_store (cm_taskDigest offline_manifest) ctx (canonicalJsonBytes (task_json offline_task) # rest, u) =
     (Inr offline_task, (rest, u))"
  unfolding loadCapsuleTask_def using task_digest(1)
  by (simp add: offline_manifest_def canonical_read_run keys_distinct_task read_task_sorted task_valid)

lemma run_tree_manifest:
  assumes "n \<le> 2"
  shows "loadContentTreeManifest offline_host offline_store (offline_root n) ctx (canonicalJsonBytes (tree_json (offline_tree n)) # rest, u) =
     (Inr \<lparr>sd_manifest = offline_tree n, sd_digest = offline_root n\<rparr>, (rest, u))"
proof -
  have "readCanonicalObject offline_host offline_store (offline_root n) read_tree (ContentTreeManifestSchema offline_host) tree_json c
      (canonicalJsonBytes (tree_json (offline_tree n)) # rest, u) = (Inr (offline_tree n), (rest, u))" for c
    using root_digest(1) [OF assms] unfolding offline_root_def
    by (intro canonical_read_run) (simp_all add: keys_distinct_tree read_tree_sorted tree_valid [OF assms])
  with root_digest(1) [OF assms] show ?thesis
    by (simp add: loadContentTreeManifest_def sx_bind_def sx_return_def sx_lift_def zod_parse_ok)
qed

definition offline_file :: "byte list \<Rightarrow> loaded_file" where
  "offline_file bytes = \<lparr>tf_path = js ''a.ts'', tf_mode = Mode644, tf_content = bytes, lf_digest = sized (int (length bytes))\<rparr>"

definition offline_loaded :: "byte list \<Rightarrow> loaded_tree" where
  "offline_loaded bytes = \<lparr>sd_manifest = offline_tree (length bytes), sd_digest = offline_root (length bytes), lt_files = [offline_file bytes]\<rparr>"

lemma run_tree:
  assumes "length bytes \<le> 2"
  shows "loadContentTree offline_host offline_store (offline_root (length bytes)) ctx
     (canonicalJsonBytes (tree_json (offline_tree (length bytes))) # bytes # rest, u) = (Inr (offline_loaded bytes), (rest, u))"
proof -
  have "readVerifiedBytes offline_host offline_store (sized (int (length bytes))) c (bytes # rest, u) = (Inr bytes, (rest, u))" for c
    using verified_read_run [of offline_store offline_host bytes "(bytes # rest, u)" "(rest, u)"] assms by (simp add: sized_digest sized_ok)
  then have "sx_maps (load_file offline_host offline_store ctx) (tm_entries (offline_tree (length bytes))) (bytes # rest, u) =
      (Inr [offline_file bytes], (rest, u))"
    by (simp add: offline_tree_def Let_def load_file_def sx_bind_def sx_return_def offline_file_def)
  then show ?thesis
    by (simp add: loadContentTree_def run_tree_manifest [OF assms] sx_bind_def sx_return_def offline_loaded_def)
qed

lemma decode_plain: "utf8_decode [104, 105] = Some [104, 105]" "utf8_decode [104] = Some [104]"
proof -
  have "utf8_encode [104, 105] = [104, 105]" "utf8_encode [104] = [104]"
    by (simp_all add: utf8_encode_def utf8_bytes_def surrogate_def surrogate_unat)
  moreover have "well_formed [104, 105]" "well_formed [104]" "\<not> has_bom [104, 105]" "\<not> has_bom [104]"
    by (simp_all add: surrogate_def surrogate_unat has_bom_def BOM_def)
  ultimately show "utf8_decode [104, 105] = Some [104, 105]" "utf8_decode [104] = Some [104]"
    using utf8_decode_encode [of "[104, 105]"] utf8_decode_encode [of "[104]"] by simp_all
qed

lemma clean_content: "\<not> containsCredentialLikeTreeContent plain_host [offline_file old_bytes]"
  "\<not> containsCredentialLikeTreeContent plain_host [offline_file new_bytes]"
proof -
  have text_clean: "containsCredentialLikeText plain_host [104, 105] = False" "containsCredentialLikeText plain_host [104] = False"
    by (rule screened_clean_iff, simp add: screen_simps)+
  have "latin1_decode [104, 105] = [104, 105]" "latin1_decode [104] = [104]" by (simp_all add: latin1_decode_def)
  with text_clean decode_plain show "\<not> containsCredentialLikeTreeContent plain_host [offline_file old_bytes]"
    "\<not> containsCredentialLikeTreeContent plain_host [offline_file new_bytes]"
    by (simp_all add: containsCredentialLikeTreeContent_def offline_file_def credential_like_bytes_def old_bytes_def new_bytes_def)
qed

lemma offline_comparison:
  "compareCompleteTrees [offline_file old_bytes] [offline_file new_bytes] [js ''a.ts''] =
     ([\<lparr>cc_before = Some (offline_file old_bytes), cc_after = offline_file new_bytes\<rparr>], [])"
  by (simp add: compareCompleteTrees_def Let_def by_path_def output_changes_def output_reasons_def pick_path_def offline_file_def
      sized_def old_bytes_def new_bytes_def)

definition offline_change :: governed_change where
  "offline_change = toGovernedChange (Some (offline_file old_bytes)) (offline_file new_bytes) (Some [104, 105]) [104]"

lemma offline_governed: "governed_change_of \<lparr>cc_before = Some (offline_file old_bytes), cc_after = offline_file new_bytes\<rparr> = Inr offline_change"
proof -
  have "decodeChangedText [104, 105] = Inr [104, 105]" "decodeChangedText [104] = Inr [104]"
    by (simp_all add: decodeChangedText_def decode_plain binary_control_def)
  then show ?thesis by (simp add: governed_change_of_def offline_file_def old_bytes_def new_bytes_def offline_change_def)
qed

lemma offline_diff: "diff_bytes [offline_change] \<le> 500" "fc_unifiedDiff offline_change \<noteq> []"
proof -
  have "length (fc_unifiedDiff offline_change) \<le> 150"
    by (simp add: offline_change_def offline_file_def createCanonicalUnifiedDiff_def Let_def splitTextLines_def formatUnifiedRange_def
        endsWith_def suffix_def NO_NEWLINE_def js_def)
  then show "diff_bytes [offline_change] \<le> 500" using utf8_encode_length [of "fc_unifiedDiff offline_change"] by (simp add: diff_bytes_def)
  show "fc_unifiedDiff offline_change \<noteq> []" by (simp add: offline_change_def offline_file_def createCanonicalUnifiedDiff_def Let_def)
qed


lemma offline_change_set_ok:
  "GovernedFileChangeSetSchema (text_sha256 offline_host) (capsule_change_set offline_host offline_manifest offline_receipt [offline_change])"
proof -
  have "sha256_hex (hashGovernedFileChangeSetContent (text_sha256 offline_host) x y)" for x y
    by (simp add: hashGovernedFileChangeSetContent_def hashKernelObject_def text_sha256_def)
  moreover have "GovernedFileChangeSchema offline_change"
    using offline_diff(2)
    by (simp add: GovernedFileChangeSchema_def change_fields_ok_def refineGovernedFileChangeSemantics_def hash_ok_def offline_change_def)
      (simp add: toGovernedChange_def offline_file_def js_def)
  ultimately show ?thesis
    by (simp add: GovernedFileChangeSetSchema_def capsule_change_set_def offline_manifest_def offline_receipt_def js_def)
qed

definition offline_assessment :: assessment where
  "offline_assessment = verified_assessment offline_manifest offline_receipt
     (capsule_change_set offline_host offline_manifest offline_receipt [offline_change])"

definition offline_used :: consumed where
  "offline_used = \<lparr>used_nonces = {replicate 32 48}, used_receiptHashes = {zeros}\<rparr>"

lemma run_trees:
  "verify_trees offline_host memory_replay offline_manifest offline_receipt (offline_loaded old_bytes) (offline_loaded new_bytes)
     (rest, \<lparr>used_nonces = {}, used_receiptHashes = {}\<rparr>) = (Inr offline_assessment, (rest, offline_used))"
proof -
  have limits: "cm_allowedTargets offline_manifest = [js ''a.ts'']" "li_maxChangedFiles (cm_limits offline_manifest) = 1"
    "li_maxChangedBytes (cm_limits offline_manifest) = 3" "li_maxDiffBytes (cm_limits offline_manifest) = 500"
    "cm_nonce offline_manifest = replicate 32 48" "rc_receiptHash offline_receipt = zeros" by (simp_all add: offline_manifest_def offline_receipt_def)
  have files: "lt_files (offline_loaded old_bytes) = [offline_file old_bytes]" "lt_files (offline_loaded new_bytes) = [offline_file new_bytes]"
    by (simp_all add: offline_loaded_def)
  have bytes: "changed_bytes [\<lparr>cc_before = Some (offline_file old_bytes), cc_after = offline_file new_bytes\<rparr>] = 3"
    by (simp add: changed_bytes_def offline_file_def old_bytes_def new_bytes_def)
  have consume: "rs_consume memory_replay (replicate 32 48) zeros (rest, \<lparr>used_nonces = {}, used_receiptHashes = {}\<rparr>) = (Inr True, (rest, offline_used))"
    by (simp add: memory_replay_def createInMemoryOfflineCapsuleReplayStore_def lift_snd_def mem_consume_runs offline_used_def)
  have final: "OfflineCapsuleAssessmentSchema offline_host offline_assessment"
    using offline_change_set_ok parsed_facts(1) [OF manifest_valid] parsed_facts(2) [OF receipt_valid]
    by (simp add: OfflineCapsuleAssessmentSchema_def offline_assessment_def verified_assessment_def)
  show ?thesis
    unfolding verify_trees_def Let_def files limits offline_comparison
    using clean_content offline_governed offline_diff(1) offline_change_set_ok final
    by (simp add: bytes sx_bind_run sx_catch_def sx_bind_def sx_lift_def sx_return_def consume zod_parse_ok offline_assessment_def)
qed

lemma run_verification:
  "verifyOfflineCapsuleCandidate offline_host offline_input (offline_script @ rest, \<lparr>used_nonces = {}, used_receiptHashes = {}\<rparr>) =
     (Inr offline_assessment, (rest, offline_used))"
proof -
  let ?u = "\<lparr>used_nonces = {}, used_receiptHashes = {}\<rparr>"
  have len: "length old_bytes = 2" "length new_bytes = 1" by (simp_all add: old_bytes_def new_bytes_def)
  have roots: "cm_inputRoot offline_manifest = offline_root 2" "rc_outputRoot offline_receipt = offline_root 1"
    "vi_replayStore offline_input = memory_replay" by (simp_all add: offline_manifest_def offline_receipt_def offline_input_def memory_input_def)
  have task: "ct_taskId offline_task = cm_capsuleId offline_manifest"
    "sameCanonicalJson (str_array (ct_targetPaths offline_task)) (str_array (cm_allowedTargets offline_manifest))"
    by (simp_all add: offline_task_def offline_manifest_def sameCanonicalJson_def)
  have limits: "collectCompleteTreeLimitReasons (offline_tree 2) (offline_tree 1) offline_manifest = []"
    by (simp add: collectCompleteTreeLimitReasons_def offline_tree_def offline_manifest_def Let_def)
  have paths: "\<not> list_ex (\<lambda>e. isSensitiveOfflineTreePath plain_host (en_path e)) (tm_entries (offline_tree n))" for n
  proof -
    have "\<not> isSensitiveOfflineTreePath plain_host (js ''a.ts'')" by code_simp
    then show ?thesis by (simp add: offline_tree_def Let_def)
  qed
  have content: "verify_content offline_host offline_store memory_replay offline_manifest offline_receipt (offline_script @ rest, ?u) =
      (Inr offline_assessment, (rest, offline_used))"
    unfolding verify_content_def Let_def offline_script_def roots append_Cons append_Nil
    using task clean_task limits paths len
    by (simp add: sx_bind_def run_task run_tree_manifest run_tree [of old_bytes, unfolded len] run_tree [of new_bytes, unfolded len] run_trees del: One_nat_def)
  have sizes: "dg_size (cm_taskDigest offline_manifest) \<le> li_maxTaskBytes (cm_limits offline_manifest)"
    "dg_size (cm_inputRoot offline_manifest) \<le> li_maxTreeManifestBytes (cm_limits offline_manifest)"
    "dg_size (rc_outputRoot offline_receipt) \<le> li_maxTreeManifestBytes (cm_limits offline_manifest)"
    using task_digest(2) root_digest(2) [of 1] root_digest(2) [of 2] by (simp_all add: offline_manifest_def offline_receipt_def)
  have now: "sx_catch (sx_bind (vi_now offline_input) (\<lambda>t. sx_return (Some t))) (\<lambda>_. sx_return None) (offline_script @ rest, ?u) =
      (Inr (Some (js ''1111'')), (offline_script @ rest, ?u))"
    by (simp add: offline_input_def memory_input_def lift_fst_def sx_catch_def sx_bind_def sx_return_def)
  have inputs: "vi_manifest offline_input = Some (manifest_json offline_manifest)" "vi_receipt offline_input = Some (receipt_json offline_receipt)"
    by (simp_all add: offline_input_def memory_input_def)
  show ?thesis
    unfolding verifyOfflineCapsuleCandidate_def Let_def inputs offline_parse option.case
      sx_bind_run [where m = "sx_catch (sx_bind (vi_now offline_input) (\<lambda>t. sx_return (Some t))) (\<lambda>_. sx_return None)"
        and s = "(offline_script @ rest, ?u)", OF now]
    using offline_bindings clean_metadata sizes content roots(3) by (simp add: sx_catch_def)
qed

lemma offline_verified: "as_status offline_assessment = VerifiedOffline"
  by (simp add: offline_assessment_def verified_assessment_def)


section \<open>The witnesses\<close>

lemma verified_receipt_bound_witness:
  "bound_to offline_manifest offline_receipt \<and> as_outputRoot offline_assessment = Some (offline_root 1)"
proof -
  have p: "vi_manifest offline_input = Some (manifest_json offline_manifest)" "vi_receipt offline_input = Some (receipt_json offline_receipt)"
    by (simp_all add: offline_input_def memory_input_def)
  from verified_receipt_bound [OF run_verification offline_verified] have "bound_to offline_manifest offline_receipt"
    unfolding p offline_parse by blast
  then show ?thesis by (simp add: offline_assessment_def verified_assessment_def offline_receipt_def)
qed

lemma verified_changes_exact_witness:
  "\<exists>inM outM. digestCanonicalJson offline_host (tree_json inM) = offline_root 2 \<and>
     digestCanonicalJson offline_host (tree_json outM) = offline_root 1 \<and>
     filter (\<lambda>p. tree_at inM p \<noteq> tree_at outM p) (map en_path (tm_entries outM)) = [js ''a.ts'']"
proof -
  have c: "as_changeSet offline_assessment = Some (capsule_change_set offline_host offline_manifest offline_receipt [offline_change])"
    "fc_path offline_change = js ''a.ts''" "cm_inputRoot offline_manifest = offline_root 2" "rc_outputRoot offline_receipt = offline_root 1"
    by (simp_all add: offline_assessment_def verified_assessment_def offline_change_def offline_file_def offline_manifest_def offline_receipt_def)
  have p: "vi_manifest offline_input = Some (manifest_json offline_manifest)" "vi_receipt offline_input = Some (receipt_json offline_receipt)"
    by (simp_all add: offline_input_def memory_input_def)
  from verified_changes_exact [OF run_verification offline_verified] obtain inM outM cs
    where "digestCanonicalJson offline_host (tree_json inM) = cm_inputRoot offline_manifest"
    "digestCanonicalJson offline_host (tree_json outM) = rc_outputRoot offline_receipt" "as_changeSet offline_assessment = Some cs"
    "map fc_path (cs_changes cs) = filter (\<lambda>p. tree_at inM p \<noteq> tree_at outM p) (map en_path (tm_entries outM))"
    unfolding p offline_parse by blast
  moreover from this have "cs_changes cs = [offline_change]" using c by (auto simp: capsule_change_set_def)
  ultimately show ?thesis using c by - (rule exI [of _ inM], rule exI [of _ outM], simp)
qed

lemma verified_diffs_apply_witness:
  "\<exists>cs. as_changeSet offline_assessment = Some cs \<and> cs_changes cs = [offline_change] \<and>
     (\<exists>newText oldText. apply_patch (fc_unifiedDiff offline_change) oldText = Some newText)"
proof -
  from verified_diffs_apply [OF run_verification offline_verified] obtain cs where cs: "as_changeSet offline_assessment = Some cs"
    "\<forall>c \<in> set (cs_changes cs). \<exists>newText oldText. apply_patch (fc_unifiedDiff c) oldText = Some newText" by blast
  then have "cs_changes cs = [offline_change]"
    by (simp add: offline_assessment_def verified_assessment_def) (auto simp: capsule_change_set_def)
  with cs show ?thesis by simp
qed

lemma capsule_verified_once_witness:
  "\<exists>b u. verifyOfflineCapsuleCandidate offline_host offline_input (offline_script, offline_used) = (Inr b, u) \<and> as_status b = BlockedOffline"
proof -
  obtain b u where second: "verifyOfflineCapsuleCandidate offline_host offline_input (offline_script, offline_used) = (Inr b, u)"
    using verification_total [of offline_host offline_input "(offline_script, offline_used)"] by blast
  have "as_status b = BlockedOffline"
  proof (rule capsule_verified_once)
    show "verifyOfflineCapsuleCandidate offline_host (memory_input script_cas (sx_return (js ''1111'')) (Some (manifest_json offline_manifest))
        (Some (receipt_json offline_receipt))) (offline_script @ offline_script, \<lparr>used_nonces = {}, used_receiptHashes = {}\<rparr>) =
        (Inr offline_assessment, (offline_script, offline_used))"
      using run_verification unfolding offline_input_def .
    show "later memory_replay snd (offline_script, offline_used) (offline_script, offline_used)" by (rule later_refl)
    show "verifyOfflineCapsuleCandidate offline_host (memory_input script_cas (sx_return (js ''1111'')) (Some (manifest_json offline_manifest))
        (Some (receipt_json offline_receipt))) (offline_script, offline_used) = (Inr b, u)"
      using second unfolding offline_input_def .
    show "cm_nonce offline_manifest = cm_nonce offline_manifest \<or> rc_receiptHash offline_receipt = rc_receiptHash offline_receipt" by simp
  qed (rule offline_verified offline_parse)+
  with second show ?thesis by blast
qed

end
