(* ===== verification/ToolRegistry.thy ===== *)
theory ToolRegistry
  imports Capability
begin

text \<open>
  The tool registry, \<open>packages/tool-registry/src/index.ts\<close>: manifests of tools and the in-memory
  registry that keeps one valid manifest per tool id. A manifest is parsed on every way in and out;
  \<open>manifest_input\<close> is \<open>z.input\<close> of the schema (fields with a default may be absent), \<open>tool_manifest\<close> is
  \<open>z.infer\<close> of it. The interface \<open>ToolRegistry\<close> is the locale \<open>tool_registry\<close>, interpreted on the
  class \<open>InMemoryToolRegistry\<close>.
\<close>

section \<open>Manifests\<close>

datatype tool_provider = BuiltinTool | LocalTool | McpTool | RemoteTool

datatype side_effect_class =
  SideNone | SideRead | SideLocalWrite | SideExternalWrite | SideDestructive | SideSecretAccess | SideUnknown

datatype retention = RetainNone | RetainEphemeral | RetainRun | RetainWorkspace

record audit_policy =
  au_recordInvocation :: bool
  au_recordInput :: bool
  au_recordOutput :: bool
  au_retention :: retention

record redaction_policy =
  rp_redactInput :: bool
  rp_redactOutput :: bool
  rp_secretKeys :: "str list"

record tool_manifest =
  tm_toolId :: str
  tm_provider :: tool_provider
  tm_inputSchema :: "(str \<times> json) list"
  tm_outputSchema :: "(str \<times> json) list"
  tm_sideEffectClass :: side_effect_class
  tm_requiredCapabilities :: "str list"
  tm_defaultTimeoutMs :: int
  tm_auditPolicy :: audit_policy
  tm_redactionPolicy :: redaction_policy
  tm_serverRef :: "str option"
  tm_endpointRef :: "str option"
  tm_metadata :: "(str \<times> json) list"

definition isDangerousSideEffectClass :: "side_effect_class \<Rightarrow> bool" where
  "isDangerousSideEffectClass c \<longleftrightarrow>
     c \<in> {SideLocalWrite, SideExternalWrite, SideDestructive, SideSecretAccess, SideUnknown}"

definition hasRecord :: "json option \<Rightarrow> bool" where
  "hasRecord v = (case v of Some (JObj _) \<Rightarrow> True | _ \<Rightarrow> False)"

text \<open>The three issues \<open>superRefine\<close> may add.\<close>

definition manifest_refinement :: "tool_manifest \<Rightarrow> bool" where
  "manifest_refinement m \<longleftrightarrow>
     \<not> (isDangerousSideEffectClass (tm_sideEffectClass m) \<and> tm_requiredCapabilities m = []) \<and>
     \<not> (tm_provider m = McpTool \<and> truthy (tm_serverRef m) = None \<and>
        \<not> hasRecord (jprop (tm_metadata m) (js ''mcp''))) \<and>
     \<not> (tm_provider m = RemoteTool \<and> truthy (tm_endpointRef m) = None \<and>
        \<not> hasRecord (jprop (tm_metadata m) (js ''remote'')))"

definition RegisteredToolManifestSchema :: "tool_manifest \<Rightarrow> bool" where
  "RegisteredToolManifestSchema m \<longleftrightarrow> str_min1 (tm_toolId m) \<and>
     list_all str_min1 (tm_requiredCapabilities m) \<and> 0 < tm_defaultTimeoutMs m \<and>
     list_all str_min1 (rp_secretKeys (tm_redactionPolicy m)) \<and>
     opt_min1 (tm_serverRef m) \<and> opt_min1 (tm_endpointRef m) \<and> manifest_refinement m"

section \<open>Inputs and their defaults\<close>

record audit_input =
  ua_recordInvocation :: "bool option"
  ua_recordInput :: "bool option"
  ua_recordOutput :: "bool option"
  ua_retention :: "retention option"

record redaction_input =
  ur_redactInput :: "bool option"
  ur_redactOutput :: "bool option"
  ur_secretKeys :: "str list option"

record manifest_input =
  mi_toolId :: str
  mi_provider :: tool_provider
  mi_inputSchema :: "(str \<times> json) list"
  mi_outputSchema :: "(str \<times> json) list"
  mi_sideEffectClass :: side_effect_class
  mi_requiredCapabilities :: "str list option"
  mi_defaultTimeoutMs :: int
  mi_auditPolicy :: audit_input
  mi_redactionPolicy :: redaction_input
  mi_serverRef :: "str option"
  mi_endpointRef :: "str option"
  mi_metadata :: "(str \<times> json) list option"

definition or_default :: "'a option \<Rightarrow> 'a \<Rightarrow> 'a" where
  "or_default v d = (case v of None \<Rightarrow> d | Some x \<Rightarrow> x)"

lemma or_default_simps [simp]: "or_default None d = d" "or_default (Some x) d = x"
  by (simp_all add: or_default_def)

definition ToolAuditPolicySchema :: "audit_input \<Rightarrow> audit_policy" where
  "ToolAuditPolicySchema a =
     \<lparr>au_recordInvocation = or_default (ua_recordInvocation a) True,
      au_recordInput = or_default (ua_recordInput a) False,
      au_recordOutput = or_default (ua_recordOutput a) False,
      au_retention = or_default (ua_retention a) RetainRun\<rparr>"

definition ToolRedactionPolicySchema :: "redaction_input \<Rightarrow> redaction_policy" where
  "ToolRedactionPolicySchema r =
     \<lparr>rp_redactInput = or_default (ur_redactInput r) True,
      rp_redactOutput = or_default (ur_redactOutput r) True,
      rp_secretKeys = or_default (ur_secretKeys r) []\<rparr>"

definition manifest_with_defaults :: "manifest_input \<Rightarrow> tool_manifest" where
  "manifest_with_defaults i =
     \<lparr>tm_toolId = mi_toolId i, tm_provider = mi_provider i, tm_inputSchema = mi_inputSchema i,
      tm_outputSchema = mi_outputSchema i, tm_sideEffectClass = mi_sideEffectClass i,
      tm_requiredCapabilities = or_default (mi_requiredCapabilities i) [],
      tm_defaultTimeoutMs = mi_defaultTimeoutMs i,
      tm_auditPolicy = ToolAuditPolicySchema (mi_auditPolicy i),
      tm_redactionPolicy = ToolRedactionPolicySchema (mi_redactionPolicy i),
      tm_serverRef = mi_serverRef i, tm_endpointRef = mi_endpointRef i,
      tm_metadata = or_default (mi_metadata i) []\<rparr>"

definition parseToolManifest :: "manifest_input \<Rightarrow> err + tool_manifest" where
  "parseToolManifest i = zod_parse RegisteredToolManifestSchema (manifest_with_defaults i)"

text \<open>A structured clone of a JSON value is that value, so a clone is one more parse.\<close>

definition cloneManifest :: "tool_manifest \<Rightarrow> err + tool_manifest" where
  "cloneManifest m = zod_parse RegisteredToolManifestSchema m"

section \<open>The in-memory registry\<close>

type_synonym tools = "(str \<times> tool_manifest) list"

definition registerTool :: "manifest_input \<Rightarrow> (tools, err, tool_manifest) sx" where
  "registerTool manifest =
     sx_bind (sx_lift (parseToolManifest manifest)) (\<lambda>parsed.
     sx_bind (sx_gets (\<lambda>m. map_of m (tm_toolId parsed))) (\<lambda>old.
     if old \<noteq> None then sx_throw (Err (js ''duplicate_tool_id:'' @ tm_toolId parsed))
     else
     sx_bind (sx_lift (cloneManifest parsed)) (\<lambda>copy.
     sx_bind (sx_modify (AList.update (tm_toolId parsed) copy)) (\<lambda>_.
     sx_lift (cloneManifest parsed)))))"

definition clone_found :: "tool_manifest option \<Rightarrow> (tools, err, tool_manifest option) sx" where
  "clone_found found = (case found of None \<Rightarrow> sx_return None
     | Some manifest \<Rightarrow> sx_bind (sx_lift (cloneManifest manifest)) (\<lambda>m. sx_return (Some m)))"

definition getTool :: "str \<Rightarrow> (tools, err, tool_manifest option) sx" where
  "getTool toolId = sx_bind (sx_gets (\<lambda>m. map_of m toolId)) clone_found"

record tool_filter =
  tf_provider :: "tool_provider option"
  tf_sideEffectClass :: "side_effect_class option"
  tf_requiredCapability :: "str option"

definition tool_matchesOptional :: "'a option \<Rightarrow> 'a \<Rightarrow> bool" where
  "tool_matchesOptional expected actual \<longleftrightarrow> expected = None \<or> expected = Some actual"

definition matchesToolFilter :: "tool_manifest \<Rightarrow> tool_filter \<Rightarrow> bool" where
  "matchesToolFilter m f \<longleftrightarrow> tool_matchesOptional (tf_provider f) (tm_provider m) \<and>
     tool_matchesOptional (tf_sideEffectClass f) (tm_sideEffectClass m) \<and>
     opt_all (\<lambda>c. c \<in> set (tm_requiredCapabilities m)) (tf_requiredCapability f)"

definition listTools :: "tool_filter \<Rightarrow> (tools, err, tool_manifest list) sx" where
  "listTools f =
     sx_bind (sx_gets (\<lambda>m. filter (\<lambda>t. matchesToolFilter t f) (map snd m))) (\<lambda>ts.
     sx_lift (map_res cloneManifest ts))"

definition unregisterTool :: "str \<Rightarrow> (tools, err, tool_manifest option) sx" where
  "unregisterTool toolId =
     sx_bind (sx_gets (\<lambda>m. map_of m toolId)) (\<lambda>found. case found of
       None \<Rightarrow> sx_return None
     | Some manifest \<Rightarrow>
         sx_bind (sx_modify (AList.delete toolId)) (\<lambda>_. clone_found (Some manifest)))"

definition createDefaultToolRegistry :: "manifest_input list \<Rightarrow> err + tools" where
  "createDefaultToolRegistry manifests =
     (case sx_each (\<lambda>i. sx_bind (registerTool i) (\<lambda>_. sx_return ())) manifests [] of
        (Inl e, _) \<Rightarrow> Inl e | (Inr _, m) \<Rightarrow> Inr m)"

section \<open>The manifests that ship with it\<close>

definition type_of :: "string \<Rightarrow> json" where
  "type_of t = JObj [(js ''type'', JStr (js t))]"

definition object_schema :: "string list \<Rightarrow> (string \<times> string) list \<Rightarrow> (str \<times> json) list" where
  "object_schema req props = (js ''type'', JStr (js ''object'')) #
     (if req = [] then [] else [(js ''required'', JArr (map (\<lambda>r. JStr (js r)) req))]) @
     [(js ''properties'', JObj (map (\<lambda>(k, t). (js k, type_of t)) props))]"

definition recorded :: "bool \<Rightarrow> bool \<Rightarrow> retention \<Rightarrow> audit_input" where
  "recorded i out r = \<lparr>ua_recordInvocation = Some True, ua_recordInput = Some i, ua_recordOutput = Some out,
     ua_retention = Some r\<rparr>"

definition redacted :: "string list \<Rightarrow> redaction_input" where
  "redacted keys = \<lparr>ur_redactInput = Some True, ur_redactOutput = Some True, ur_secretKeys = Some (map js keys)\<rparr>"

definition builtinReadFileToolManifest :: manifest_input where
  "builtinReadFileToolManifest =
     \<lparr>mi_toolId = js ''builtin.read_file'', mi_provider = BuiltinTool,
      mi_inputSchema = object_schema [''path''] [(''path'', ''string'')],
      mi_outputSchema = object_schema [] [(''content'', ''string'')],
      mi_sideEffectClass = SideRead, mi_requiredCapabilities = Some [js ''fs.read:/repo/**''],
      mi_defaultTimeoutMs = 10000, mi_auditPolicy = recorded False False RetainRun,
      mi_redactionPolicy = redacted [''token'', ''password'', ''secret'', ''apiKey''],
      mi_serverRef = None, mi_endpointRef = None,
      mi_metadata = Some [(js ''fixture'', JBool True)]\<rparr>"

definition builtinApplyPatchToolManifest :: manifest_input where
  "builtinApplyPatchToolManifest =
     \<lparr>mi_toolId = js ''builtin.apply_patch'', mi_provider = BuiltinTool,
      mi_inputSchema = object_schema [''patch''] [(''patch'', ''string'')],
      mi_outputSchema = object_schema [] [(''applied'', ''boolean'')],
      mi_sideEffectClass = SideLocalWrite, mi_requiredCapabilities = Some [js ''fs.write:/repo/**''],
      mi_defaultTimeoutMs = 10000, mi_auditPolicy = recorded False True RetainRun,
      mi_redactionPolicy = redacted [''token'', ''password'', ''secret'', ''apiKey''],
      mi_serverRef = None, mi_endpointRef = None,
      mi_metadata = Some [(js ''fixture'', JBool True)]\<rparr>"

definition mcpGithubCreatePullRequestToolManifest :: manifest_input where
  "mcpGithubCreatePullRequestToolManifest =
     \<lparr>mi_toolId = js ''mcp.github.create_pull_request'', mi_provider = McpTool,
      mi_inputSchema = object_schema [''title'', ''head'', ''base'']
        [(''title'', ''string''), (''head'', ''string''), (''base'', ''string'')],
      mi_outputSchema = object_schema [] [(''pullRequestRef'', ''string'')],
      mi_sideEffectClass = SideExternalWrite,
      mi_requiredCapabilities = Some [js ''mcp.call:github.create_pull_request''],
      mi_defaultTimeoutMs = 30000, mi_auditPolicy = recorded True True RetainWorkspace,
      mi_redactionPolicy = redacted [''token'', ''authorization'', ''secret''],
      mi_serverRef = Some (js ''github''), mi_endpointRef = None,
      mi_metadata = Some [(js ''mcp'', JObj [(js ''server'', JStr (js ''github'')),
        (js ''method'', JStr (js ''create_pull_request''))]), (js ''fixture'', JBool True)]\<rparr>"

definition remoteAgentInvokeToolManifest :: manifest_input where
  "remoteAgentInvokeToolManifest =
     \<lparr>mi_toolId = js ''remote.agent.invoke'', mi_provider = RemoteTool,
      mi_inputSchema = object_schema [''agentRef'', ''task''] [(''agentRef'', ''string''), (''task'', ''object'')],
      mi_outputSchema = object_schema [] [(''runRef'', ''string'')],
      mi_sideEffectClass = SideExternalWrite,
      mi_requiredCapabilities = Some [js ''network.egress:agent-runtime'', js ''mcp.call:remote.agent.invoke''],
      mi_defaultTimeoutMs = 60000, mi_auditPolicy = recorded True True RetainWorkspace,
      mi_redactionPolicy = redacted [''token'', ''authorization'', ''secret''],
      mi_serverRef = None, mi_endpointRef = Some (js ''agent-runtime''),
      mi_metadata = Some [(js ''remote'', JObj [(js ''endpointRef'', JStr (js ''agent-runtime''))]),
        (js ''fixture'', JBool True)]\<rparr>"

definition defaultToolManifests :: "manifest_input list" where
  "defaultToolManifests = [builtinReadFileToolManifest, builtinApplyPatchToolManifest,
     mcpGithubCreatePullRequestToolManifest, remoteAgentInvokeToolManifest]"

section \<open>The interface\<close>

text \<open>
  What a client may rely on: \<open>view\<close> reads the manifest of each tool id. A registration adds one valid
  manifest under a fresh id or throws and changes nothing.
\<close>

locale tool_registry =
  fixes reg :: "manifest_input \<Rightarrow> ('s, err, tool_manifest) sx"
    and get :: "str \<Rightarrow> ('s, err, tool_manifest option) sx"
    and unreg :: "str \<Rightarrow> ('s, err, tool_manifest option) sx"
    and view :: "'s \<Rightarrow> str \<Rightarrow> tool_manifest option"
    and ok :: "'s \<Rightarrow> bool"
  assumes reg_ok: "ok s \<Longrightarrow> reg i s = (Inr m, t) \<Longrightarrow>
      ok t \<and> parseToolManifest i = Inr m \<and> view s (tm_toolId m) = None \<and> view t = (view s)(tm_toolId m \<mapsto> m)"
    and reg_err: "ok s \<Longrightarrow> reg i s = (Inl e, t) \<Longrightarrow> t = s \<and>
      (parseToolManifest i = Inl e \<or> (\<exists>m. parseToolManifest i = Inr m \<and> view s (tm_toolId m) \<noteq> None))"
    and get: "ok s \<Longrightarrow> get k s = (Inr (view s k), s)"
    and unreg: "ok s \<Longrightarrow> \<exists>t. unreg k s = (Inr (view s k), t) \<and> ok t \<and> view t = (view s)(k := None)"
begin

definition regs :: "manifest_input list \<Rightarrow> ('s, err, unit) sx" where
  "regs = sx_each (\<lambda>i. sx_bind (reg i) (\<lambda>_. sx_return ()))"

lemma regs_view:
  assumes "ok s" and "regs is s = (Inr (), t)"
  shows "ok t \<and> (\<exists>ms. map_res parseToolManifest is = Inr ms \<and> distinct (map tm_toolId ms) \<and>
    (\<forall>m \<in> set ms. view s (tm_toolId m) = None) \<and>
    (\<forall>k. view t k = (case view s k of Some m \<Rightarrow> Some m | None \<Rightarrow> lookup tm_toolId ms k)))"
  using assms
proof (induction "is" arbitrary: s)
  case Nil
  then show ?case by (auto simp: regs_def sx_defs split: option.splits)
next
  case (Cons i "is")
  from Cons.prems(2) obtain m u where r: "reg i s = (Inr m, u)" "regs is u = (Inr (), t)"
    by (auto simp: regs_def sx_bind_Inr)
  note m = reg_ok [OF Cons.prems(1) r(1)]
  from Cons.IH [OF _ r(2)] m obtain ms where ms: "ok t" "map_res parseToolManifest is = Inr ms"
    "distinct (map tm_toolId ms)" "\<forall>x \<in> set ms. view u (tm_toolId x) = None"
    "\<forall>k. view t k = (case view u k of Some m \<Rightarrow> Some m | None \<Rightarrow> lookup tm_toolId ms k)" by blast
  have "tm_toolId m \<notin> tm_toolId ` set ms" using ms(4) m by auto
  moreover have "\<forall>x \<in> set ms. view s (tm_toolId x) = None" using ms(4) m by (auto split: if_splits)
  moreover have "view t k = (case view s k of Some m \<Rightarrow> Some m | None \<Rightarrow> lookup tm_toolId (m # ms) k)" for k
    using ms(5) m by (auto split: option.splits)
  ultimately show ?case using ms(1-3) m by (intro conjI exI [of _ "m # ms"]) (auto simp: bind_res_Inr)
qed

lemma regs_runs:
  assumes "ok s" and "map_res parseToolManifest is = Inr ms" and "distinct (map tm_toolId ms)"
    and "\<forall>m \<in> set ms. view s (tm_toolId m) = None"
  shows "\<exists>t. regs is s = (Inr (), t)"
  using assms
proof (induction "is" arbitrary: s ms)
  case Nil
  then show ?case by (simp add: regs_def sx_defs)
next
  case (Cons i "is")
  from Cons.prems(2) obtain m ms' where ms: "ms = m # ms'" "parseToolManifest i = Inr m"
    "map_res parseToolManifest is = Inr ms'" by (auto simp: bind_res_Inr)
  have "view s (tm_toolId m) = None" using Cons.prems(4) ms(1) by simp
  then obtain n u where r: "reg i s = (Inr n, u)"
    using reg_err [OF Cons.prems(1), of i] ms(2) by (cases "reg i s"; cases "fst (reg i s)") force+
  note m = reg_ok [OF Cons.prems(1) r]
  have "\<forall>x \<in> set ms'. view u (tm_toolId x) = None"
    using m ms(1,2) Cons.prems(3,4) by (force simp: image_iff)
  with Cons.IH [OF _ ms(3), of u] m Cons.prems(3) ms(1) obtain t where "regs is u = (Inr (), t)" by auto
  with r show ?case by (auto simp: regs_def sx_defs)
qed

end

section \<open>The class implements it\<close>

definition tools_ok :: "tools \<Rightarrow> bool" where
  "tools_ok m \<longleftrightarrow> distinct (map fst m) \<and>
     (\<forall>(k, t) \<in> set m. tm_toolId t = k \<and> RegisteredToolManifestSchema t)"

lemma tools_ok_lookup: "tools_ok m \<Longrightarrow> map_of m k = Some t \<Longrightarrow> tm_toolId t = k \<and> RegisteredToolManifestSchema t"
  by (auto simp: tools_ok_def dest: map_of_SomeD)

lemma tools_ok_push:
  "tools_ok m \<Longrightarrow> map_of m (tm_toolId t) = None \<Longrightarrow> RegisteredToolManifestSchema t \<Longrightarrow>
   tools_ok (AList.update (tm_toolId t) t m)"
  by (auto simp: tools_ok_def map_of_is_None map_snd_update_fresh)

lemma tools_ok_delete: "tools_ok m \<Longrightarrow> tools_ok (AList.delete k m)"
  by (auto simp: tools_ok_def AList.delete_eq distinct_map inj_on_def)

lemma registerTool_run:
  "registerTool i m = (case parseToolManifest i of Inl e \<Rightarrow> (Inl e, m)
     | Inr t \<Rightarrow> if map_of m (tm_toolId t) \<noteq> None then (Inl (Err (js ''duplicate_tool_id:'' @ tm_toolId t)), m)
         else (Inr t, AList.update (tm_toolId t) t m))"
  by (auto simp: registerTool_def parseToolManifest_def cloneManifest_def sx_defs zod_parse_def)

lemma clone_found_run:
  "opt_all RegisteredToolManifestSchema v \<Longrightarrow> clone_found v m = (Inr v, m)"
  by (cases v) (auto simp: clone_found_def cloneManifest_def sx_defs zod_parse_ok)

lemma tools_ok_opt: "tools_ok m \<Longrightarrow> opt_all RegisteredToolManifestSchema (map_of m k)"
  using tools_ok_lookup by (cases "map_of m k") auto

lemma getTool_run: "tools_ok m \<Longrightarrow> getTool k m = (Inr (map_of m k), m)"
  by (simp add: getTool_def sx_bind_def sx_gets_def clone_found_run tools_ok_opt)

lemma delete_absent: "map_of m k = None \<Longrightarrow> AList.delete k m = m"
  by (induction m) (auto split: if_splits)

lemma unregisterTool_run:
  assumes "tools_ok m"
  shows "unregisterTool k m = (Inr (map_of m k), AList.delete k m)"
proof (cases "map_of m k")
  case None
  then show ?thesis by (simp add: unregisterTool_def sx_defs delete_absent)
next
  case (Some t)
  then show ?thesis using tools_ok_lookup [OF assms Some]
    by (simp add: unregisterTool_def sx_bind_def sx_gets_def sx_modify_def clone_found_run)
qed

interpretation tool_memory: tool_registry registerTool getTool unregisterTool map_of tools_ok
proof unfold_locales
  fix s i m t
  assume "tools_ok s" and "registerTool i s = (Inr m, t)"
  then show "tools_ok t \<and> parseToolManifest i = Inr m \<and> map_of s (tm_toolId m) = None \<and>
      map_of t = (map_of s)(tm_toolId m \<mapsto> m)"
    using tools_ok_push [of s m]
    by (auto simp: registerTool_run map_of_update parseToolManifest_def split: sum.splits if_splits)
next
  fix s i e t
  assume "tools_ok s" and "registerTool i s = (Inl e, t)"
  then show "t = s \<and> (parseToolManifest i = Inl e \<or>
      (\<exists>m. parseToolManifest i = Inr m \<and> map_of s (tm_toolId m) \<noteq> None))"
    by (auto simp: registerTool_run split: sum.splits if_splits)
next
  fix s k
  assume s: "tools_ok s"
  then show "getTool k s = (Inr (map_of s k), s)" by (rule getTool_run)
  show "\<exists>t. unregisterTool k s = (Inr (map_of s k), t) \<and> tools_ok t \<and> map_of t = (map_of s)(k := None)"
    using unregisterTool_run [OF s, of k] tools_ok_delete [OF s, of k] by (simp add: delete_conv')
qed

lemma listTools_run:
  assumes "tools_ok m"
  shows "listTools f m = (Inr (filter (\<lambda>t. matchesToolFilter t f) (map snd m)), m)"
proof -
  have "map_res cloneManifest (filter (\<lambda>t. matchesToolFilter t f) (map snd m)) =
      Inr (filter (\<lambda>t. matchesToolFilter t f) (map snd m))"
    using assms by (intro map_res_id) (auto simp: cloneManifest_def zod_parse_ok tools_ok_def)
  then show ?thesis by (simp add: listTools_def sx_defs)
qed

section \<open>Every history of the registry\<close>

datatype tool_call = CallRegister manifest_input | CallUnregister str

definition tool_step :: "tool_call \<Rightarrow> tools \<Rightarrow> tools" where
  "tool_step c m = (case c of CallRegister i \<Rightarrow> snd (registerTool i m) | CallUnregister k \<Rightarrow> snd (unregisterTool k m))"

definition tools_after :: "tool_call list \<Rightarrow> tools" where
  "tools_after cs = fold tool_step cs []"

lemma tool_step_ok: "tools_ok m \<Longrightarrow> tools_ok (tool_step c m)"
  using tool_memory.reg_ok [of m] tool_memory.reg_err [of m] tool_memory.unreg [of m]
  by (cases c; simp add: tool_step_def)
    (metis (no_types, opaque_lifting) prod.collapse sum.exhaust snd_conv)+

lemma tools_after_ok: "tools_ok (tools_after cs)"
proof -
  have "tools_ok (fold tool_step cs m)" if "tools_ok m" for m
    using that by (induction cs arbitrary: m) (simp_all add: tool_step_ok)
  moreover have "tools_ok []" by (simp add: tools_ok_def)
  ultimately show ?thesis by (simp add: tools_after_def)
qed

text \<open>
  C33: After any sequence of registrations and removals, successful or not, a tool that \<open>getTool\<close> returns
  has the id asked for and a valid manifest: if its side effects are dangerous it declares the
  capabilities it needs, and a remote one names its endpoint. Both reads leave the registry as it is,
  and \<open>listTools\<close> returns one entry per id, the ones that match its filter.
\<close>

theorem registered_tools_valid:
  assumes "getTool k (tools_after cs) = (Inr (Some t), m)"
  shows "m = tools_after cs \<and> tm_toolId t = k \<and> RegisteredToolManifestSchema t \<and>
    (isDangerousSideEffectClass (tm_sideEffectClass t) \<longrightarrow> tm_requiredCapabilities t \<noteq> []) \<and>
    (tm_provider t = RemoteTool \<longrightarrow> tm_endpointRef t \<noteq> None \<or> hasRecord (jprop (tm_metadata t) (js ''remote''))) \<and>
    (\<exists>ts. listTools f (tools_after cs) = (Inr ts, tools_after cs) \<and> distinct (map tm_toolId ts) \<and>
      (t \<in> set ts \<longleftrightarrow> matchesToolFilter t f))"
proof -
  note ok = tools_after_ok [of cs]
  from assms have t: "map_of (tools_after cs) k = Some t" "m = tools_after cs"
    by (auto simp: tool_memory.get [OF ok])
  note v = tools_ok_lookup [OF ok t(1)]
  let ?ts = "filter (\<lambda>t. matchesToolFilter t f) (map snd (tools_after cs))"
  have ids: "map tm_toolId (map snd (tools_after cs)) = map fst (tools_after cs)"
    using ok by (auto simp: tools_ok_def)
  have "distinct (map tm_toolId ?ts)"
    using ok by (intro distinct_map_filter) (simp only: ids tools_ok_def)
  moreover have "t \<in> set ?ts \<longleftrightarrow> matchesToolFilter t f" using map_of_SomeD [OF t(1)] by force
  moreover have "tm_requiredCapabilities t \<noteq> []" if "isDangerousSideEffectClass (tm_sideEffectClass t)"
    using v that by (simp add: RegisteredToolManifestSchema_def manifest_refinement_def)
  moreover have "tm_endpointRef t \<noteq> None \<or> hasRecord (jprop (tm_metadata t) (js ''remote''))" if "tm_provider t = RemoteTool"
    using v that by (cases "tm_endpointRef t") (auto simp: RegisteredToolManifestSchema_def manifest_refinement_def truthy_def)
  ultimately show ?thesis using t v listTools_run [OF ok, of f] by blast
qed

lemma default_ids:
  "map tm_toolId (map manifest_with_defaults defaultToolManifests) = map js [''builtin.read_file'', ''builtin.apply_patch'',
     ''mcp.github.create_pull_request'', ''remote.agent.invoke'']"
  by (simp add: defaultToolManifests_def manifest_with_defaults_def builtinReadFileToolManifest_def
      builtinApplyPatchToolManifest_def mcpGithubCreatePullRequestToolManifest_def remoteAgentInvokeToolManifest_def)

lemma default_valid: "list_all (\<lambda>i. RegisteredToolManifestSchema (manifest_with_defaults i)) defaultToolManifests"
  by (simp add: defaultToolManifests_def manifest_with_defaults_def builtinReadFileToolManifest_def
      builtinApplyPatchToolManifest_def mcpGithubCreatePullRequestToolManifest_def remoteAgentInvokeToolManifest_def
      RegisteredToolManifestSchema_def manifest_refinement_def isDangerousSideEffectClass_def redacted_def
      ToolRedactionPolicySchema_def truthy_def js_def)

lemma default_parse:
  "map_res parseToolManifest defaultToolManifests = Inr (map manifest_with_defaults defaultToolManifests)"
proof -
  have "map_res parseToolManifest xs = Inr (map manifest_with_defaults xs)"
    if "list_all (\<lambda>i. RegisteredToolManifestSchema (manifest_with_defaults i)) xs" for xs
    using that by (induction xs) (simp_all add: parseToolManifest_def zod_parse_ok)
  then show ?thesis using default_valid by blast
qed

text \<open>
  Building a registry from a list of manifests succeeds exactly when every manifest parses and no
  id occurs twice; then a lookup finds precisely the manifests of the list, and the four manifests
  that ship with the package are such a list.
\<close>

theorem default_registry_spec:
  "(isOk (createDefaultToolRegistry is) \<longleftrightarrow>
      (\<exists>ms. map_res parseToolManifest is = Inr ms \<and> distinct (map tm_toolId ms))) \<and>
   (\<forall>m. createDefaultToolRegistry is = Inr m \<longrightarrow> (\<exists>ms. map_res parseToolManifest is = Inr ms \<and>
      (\<forall>k. getTool k m = (Inr (lookup tm_toolId ms k), m)))) \<and>
   isOk (createDefaultToolRegistry defaultToolManifests)"
proof -
  have empty: "tools_ok []" by (simp add: tools_ok_def)
  have regs: "createDefaultToolRegistry is =
      (case tool_memory.regs is [] of (Inl e, _) \<Rightarrow> Inl e | (Inr _, m) \<Rightarrow> Inr m)" for "is"
    by (simp add: createDefaultToolRegistry_def tool_memory.regs_def)
  have runs: "isOk (createDefaultToolRegistry is)"
    if "map_res parseToolManifest is = Inr ms" "distinct (map tm_toolId ms)" for "is" ms
    using tool_memory.regs_runs [OF empty that] by (auto simp: regs)
  have found: "\<exists>ms. map_res parseToolManifest is = Inr ms \<and> distinct (map tm_toolId ms) \<and>
      (\<forall>k. getTool k m = (Inr (lookup tm_toolId ms k), m))" if "createDefaultToolRegistry is = Inr m" for m
  proof -
    from that have "tool_memory.regs is [] = (Inr (), m)"
      by (auto simp: regs split: prod.splits sum.splits)
    from tool_memory.regs_view [OF empty this] show ?thesis by (auto simp: getTool_run)
  qed
  have "distinct (map tm_toolId (map manifest_with_defaults defaultToolManifests))"
    unfolding default_ids by simp
  then have "isOk (createDefaultToolRegistry defaultToolManifests)" using runs [OF default_parse] by blast
  moreover have "isOk (createDefaultToolRegistry is) \<longleftrightarrow>
      (\<exists>ms. map_res parseToolManifest is = Inr ms \<and> distinct (map tm_toolId ms))"
    using found runs by (metis isOk_simps(1) sum.exhaust)
  ultimately show ?thesis using found by blast
qed

theorem default_registry_spec_witness:
  "\<exists>m. createDefaultToolRegistry defaultToolManifests = Inr m \<and>
     getTool (js ''remote.agent.invoke'') m = (Inr (Some (manifest_with_defaults remoteAgentInvokeToolManifest)), m)"
proof -
  obtain m where m: "createDefaultToolRegistry defaultToolManifests = Inr m"
    using default_registry_spec [of defaultToolManifests] by (auto simp: isOk_def split: sum.splits)
  with default_registry_spec [of defaultToolManifests] default_parse
  have "getTool (js ''remote.agent.invoke'') m = (Inr (lookup tm_toolId (map manifest_with_defaults defaultToolManifests)
      (js ''remote.agent.invoke'')), m)" by auto
  moreover have "lookup tm_toolId (map manifest_with_defaults defaultToolManifests) (js ''remote.agent.invoke'') =
      Some (manifest_with_defaults remoteAgentInvokeToolManifest)"
    by (simp add: defaultToolManifests_def manifest_with_defaults_def builtinReadFileToolManifest_def
      builtinApplyPatchToolManifest_def mcpGithubCreatePullRequestToolManifest_def remoteAgentInvokeToolManifest_def)
  ultimately show ?thesis using m by auto
qed

theorem registered_tools_valid_witness:
  "\<exists>t. getTool (js ''remote.agent.invoke'') (tools_after [CallRegister remoteAgentInvokeToolManifest]) =
       (Inr (Some t), tools_after [CallRegister remoteAgentInvokeToolManifest]) \<and>
     isDangerousSideEffectClass (tm_sideEffectClass t) \<and> tm_requiredCapabilities t \<noteq> []"
proof -
  let ?t = "manifest_with_defaults remoteAgentInvokeToolManifest"
  have "RegisteredToolManifestSchema ?t" using default_valid by (simp add: defaultToolManifests_def)
  then have "tools_after [CallRegister remoteAgentInvokeToolManifest] = [(js ''remote.agent.invoke'', ?t)]"
    by (simp add: tools_after_def tool_step_def registerTool_run parseToolManifest_def zod_parse_ok)
      (simp add: manifest_with_defaults_def remoteAgentInvokeToolManifest_def)
  then have "getTool (js ''remote.agent.invoke'') (tools_after [CallRegister remoteAgentInvokeToolManifest]) =
      (Inr (Some ?t), tools_after [CallRegister remoteAgentInvokeToolManifest])"
    using tool_memory.get [OF tools_after_ok, of _ "[CallRegister remoteAgentInvokeToolManifest]"] by simp
  moreover have "isDangerousSideEffectClass (tm_sideEffectClass ?t)"
    by (simp add: manifest_with_defaults_def remoteAgentInvokeToolManifest_def isDangerousSideEffectClass_def)
  ultimately show ?thesis using registered_tools_valid by blast
qed

end
