(* ===== verification/Redaction.thy ===== *)
theory Redaction
  imports Canonical JsRegex
begin

text \<open>
  Redaction of secrets in structured values, \<open>packages/governance-internal-redaction/src/index.ts\<close>:
  the walk over JSON values, command line arguments, caps on the size of a record. The replacements
  in free text (\<open>redactSecretLikeTextWithSet\<close>, eleven regular expressions with back references) are
  the argument \<open>rt\<close>, given the extra keys and a text; \<open>toLowerCase\<close> is the argument \<open>lower\<close>. Nothing
  below depends on what \<open>rt\<close> does to a text.
\<close>

section \<open>Secret keys\<close>

definition REDACTED_SECRET :: str where
  "REDACTED_SECRET = js ''<REDACTED_SECRET>''"

text \<open>Comparison under the flag \<open>i\<close> without \<open>u\<close>: only ASCII letters fold onto ASCII letters.\<close>

definition same_ascii :: "cu \<Rightarrow> cu \<Rightarrow> bool" where
  "same_ascii a b \<longleftrightarrow> (if is_upper a then a + 32 else a) = (if is_upper b then b + 32 else b)"

definition key_class :: "cu \<Rightarrow> bool" where
  "key_class c \<longleftrightarrow> is_lower c \<or> is_upper c \<or> is_digit c \<or> c = 95 \<or> c = DOT \<or> c = 45"

definition dash_or_underscore :: "matcher" where
  "dash_or_underscore = rx_opt (rx_char (\<lambda>c. c = 45 \<or> c = 95))"

definition two_words :: "(cu \<Rightarrow> cu \<Rightarrow> bool) \<Rightarrow> string \<Rightarrow> string \<Rightarrow> matcher" where
  "two_words eq a b = rx_seq (rx_text eq (js a)) (rx_seq dash_or_underscore (rx_text eq (js b)))"

definition one_of :: "(cu \<Rightarrow> cu \<Rightarrow> bool) \<Rightarrow> string list \<Rightarrow> matcher" where
  "one_of eq ws s = concat (map (\<lambda>w. rx_text eq (js w) s) ws)"

definition secret_words :: "string list" where
  "secret_words = [''authorization'', ''credential'', ''password'', ''secret'', ''token'']"

definition DEFAULT_SECRET_KEY_PATTERN :: "matcher" where
  "DEFAULT_SECRET_KEY_PATTERN = rx_seq (rx_min 0 key_class) (rx_seq
     (rx_alt (two_words same_ascii ''api'' ''key'') (one_of same_ascii secret_words)) (rx_min 0 key_class))"

definition DEFAULT_CANONICAL_SECRET_OPTION_PATTERN :: "matcher" where
  "DEFAULT_CANONICAL_SECRET_OPTION_PATTERN =
     rx_alt (two_words same_char ''api'' ''key'') (rx_alt (one_of same_char secret_words)
     (rx_alt (two_words same_char ''access'' ''token'') (rx_alt (two_words same_char ''client'' ''secret'')
     (rx_alt (two_words same_char ''github'' ''token'') (two_words same_char ''refresh'' ''token'')))))"

definition createSecretKeySet :: "(str \<Rightarrow> str) \<Rightarrow> str list \<Rightarrow> str list" where
  "createSecretKeySet lower keys = uniq (map lower keys)"

definition isSecretLikeKeyFromSet :: "(str \<Rightarrow> str) \<Rightarrow> str list \<Rightarrow> str \<Rightarrow> bool" where
  "isSecretLikeKeyFromSet lower secretKeys key \<longleftrightarrow>
     key \<noteq> [] \<and> (lower key \<in> set secretKeys \<or> regex_test DEFAULT_SECRET_KEY_PATTERN key)"

definition isSecretLikeKey :: "(str \<Rightarrow> str) \<Rightarrow> str list \<Rightarrow> str \<Rightarrow> bool" where
  "isSecretLikeKey lower additional key \<longleftrightarrow>
     lower key \<in> set (map lower additional) \<or> regex_test DEFAULT_SECRET_KEY_PATTERN key"

section \<open>Command lines\<close>

definition isSplitSecretArgvFlag :: "(str \<Rightarrow> str) \<Rightarrow> str list \<Rightarrow> str \<Rightarrow> bool" where
  "isSplitSecretArgvFlag lower secretKeys arg \<longleftrightarrow>
     startsWith arg (js ''-'') \<and> \<not> str_includes arg (js ''='') \<and> \<not> str_includes arg (js '':'') \<and>
     isSecretLikeKeyFromSet lower secretKeys (dropWhile (\<lambda>c. c = 45) arg)"

definition isCanonicalSecretOptionKey :: "str list \<Rightarrow> str \<Rightarrow> bool" where
  "isCanonicalSecretOptionKey secretKeys key \<longleftrightarrow>
     key \<in> set secretKeys \<or> regex_test (rx_seq rx_start (rx_seq DEFAULT_CANONICAL_SECRET_OPTION_PATTERN rx_end)) key"

definition isCanonicalSplitSecretArgvFlag :: "(str \<Rightarrow> str) \<Rightarrow> str list \<Rightarrow> str \<Rightarrow> bool" where
  "isCanonicalSplitSecretArgvFlag lower secretKeys arg \<longleftrightarrow>
     isSplitSecretArgvFlag lower secretKeys arg \<and> startsWith arg (js ''--'') \<and>
     isCanonicalSecretOptionKey secretKeys (lower (dropWhile (\<lambda>c. c = 45) arg))"

text \<open>\<open>isSplitSecretArgvBoundaryAt(args, index, ...)\<close>: \<open>arg\<close> is the element at the index, \<open>rest\<close> what follows.\<close>

definition isSplitSecretArgvBoundaryAt :: "(str \<Rightarrow> str) \<Rightarrow> str list \<Rightarrow> str \<Rightarrow> str list \<Rightarrow> bool" where
  "isSplitSecretArgvBoundaryAt lower secretKeys arg rest \<longleftrightarrow>
     isSplitSecretArgvFlag lower secretKeys arg \<and> startsWith arg (js ''--'') \<and>
     isCanonicalSplitSecretArgvFlag lower secretKeys arg \<and>
     (case rest of [] \<Rightarrow> False
      | nextArg # following \<Rightarrow> \<not> startsWith nextArg (js ''--'') \<or> isSplitSecretArgvFlag lower secretKeys nextArg \<or>
          (case following of [] \<Rightarrow> True | followingArg # _ \<Rightarrow> startsWith followingArg (js ''--'')))"

definition line_terminator :: "cu \<Rightarrow> bool" where
  "line_terminator c \<longleftrightarrow> c = 10 \<or> c = 13 \<or> c = 0x2028 \<or> c = 0x2029"

text \<open>The groups of \<open>/^(-+)([^=:]+)([=:])(.*)$/\<close>: dashes, key and separator, when it matches.\<close>

definition inline_parts :: "str \<Rightarrow> (str \<times> str \<times> cu) option" where
  "inline_parts arg =
     (let dashes = takeWhile (\<lambda>c. c = 45) arg; rest = dropWhile (\<lambda>c. c = 45) arg;
          key = takeWhile (\<lambda>c. c \<noteq> 61 \<and> c \<noteq> 58) rest
      in case dropWhile (\<lambda>c. c \<noteq> 61 \<and> c \<noteq> 58) rest of
           [] \<Rightarrow> None
         | sep # value \<Rightarrow>
             if list_ex line_terminator value then None
             else if dashes \<noteq> [] \<and> key \<noteq> [] then Some (dashes, key, sep)
             else if 2 \<le> length dashes then Some (butlast dashes, [45], sep)
             else None)"

definition redactInlineSecretArgvValue :: "(str \<Rightarrow> str) \<Rightarrow> str list \<Rightarrow> str \<Rightarrow> str" where
  "redactInlineSecretArgvValue lower secretKeys arg =
     (if \<not> startsWith arg (js ''-'') then arg
      else case inline_parts arg of None \<Rightarrow> arg
        | Some (dashes, key, sep) \<Rightarrow>
            if isSecretLikeKeyFromSet lower secretKeys key then dashes @ key @ [sep] @ REDACTED_SECRET else arg)"

type_synonym text_redactor = "str list \<Rightarrow> str \<Rightarrow> str"

fun argv_loop :: "(str \<Rightarrow> str) \<Rightarrow> text_redactor \<Rightarrow> str list \<Rightarrow> bool \<Rightarrow> str list \<Rightarrow> str list" where
  "argv_loop lower rt secretKeys redactNext [] = []"
| "argv_loop lower rt secretKeys redactNext (arg # args) =
     (if redactNext \<and> \<not> isSplitSecretArgvBoundaryAt lower secretKeys arg args
      then REDACTED_SECRET # argv_loop lower rt secretKeys False args
      else redactInlineSecretArgvValue lower secretKeys (rt secretKeys arg) #
        argv_loop lower rt secretKeys (isSplitSecretArgvFlag lower secretKeys arg) args)"

definition redactSecretLikeArgv :: "(str \<Rightarrow> str) \<Rightarrow> text_redactor \<Rightarrow> str list \<Rightarrow> str list \<Rightarrow> str list" where
  "redactSecretLikeArgv lower rt additional args =
     argv_loop lower rt (createSecretKeySet lower additional) False args"

section \<open>Structured values\<close>

record redact_options =
  ro_secretKeys :: "str list"
  ro_redactArgvSecrets :: bool
  ro_redactStrings :: bool

definition str_of :: "json \<Rightarrow> str option" where
  "str_of v = (case v of JStr s \<Rightarrow> Some s | _ \<Rightarrow> None)"

text \<open>
  An assignment to \<open>output["__proto__"]\<close> sets the prototype and leaves no own property, so such a
  member is dropped. JSON has no \<open>undefined\<close>, so \<open>stripUndefined\<close> has nothing to strip.
\<close>

definition PROTO :: str where "PROTO = js ''__proto__''"

definition redact_items :: "(str \<Rightarrow> str) \<Rightarrow> text_redactor \<Rightarrow> redact_options \<Rightarrow> json list \<Rightarrow> json" where
  "redact_items lower rt opts items =
     (if ro_redactArgvSecrets opts \<and> list_all (\<lambda>v. str_of v \<noteq> None) items
      then JArr (map JStr (redactSecretLikeArgv lower rt (ro_secretKeys opts) (map (the \<circ> str_of) items)))
      else JArr items)"

fun redactSecretLikeValue :: "(str \<Rightarrow> str) \<Rightarrow> text_redactor \<Rightarrow> redact_options \<Rightarrow> json \<Rightarrow> str \<Rightarrow> json" where
  "redactSecretLikeValue lower rt opts (JArr xs) key =
     (if isSecretLikeKeyFromSet lower (ro_secretKeys opts) key then JStr REDACTED_SECRET
      else redact_items lower rt opts (map (\<lambda>x. redactSecretLikeValue lower rt opts x []) xs))"
| "redactSecretLikeValue lower rt opts (JObj kvs) key =
     (if isSecretLikeKeyFromSet lower (ro_secretKeys opts) key then JStr REDACTED_SECRET
      else JObj (filter (\<lambda>(k, v). k \<noteq> PROTO) (map (\<lambda>(k, v). (k, redactSecretLikeValue lower rt opts v k)) kvs)))"
| "redactSecretLikeValue lower rt opts (JStr s) key =
     (if isSecretLikeKeyFromSet lower (ro_secretKeys opts) key then JStr REDACTED_SECRET
      else if ro_redactStrings opts then JStr (rt (ro_secretKeys opts) s) else JStr s)"
| "redactSecretLikeValue lower rt opts v key =
     (if isSecretLikeKeyFromSet lower (ro_secretKeys opts) key then JStr REDACTED_SECRET else v)"

definition redactSecretLikeFields ::
  "(str \<Rightarrow> str) \<Rightarrow> text_redactor \<Rightarrow> str list \<Rightarrow> bool \<Rightarrow> bool \<Rightarrow> json \<Rightarrow> json" where
  "redactSecretLikeFields lower rt additionalSecretKeys redactArgvSecrets redactStrings input =
     redactSecretLikeValue lower rt
       \<lparr>ro_secretKeys = createSecretKeySet lower additionalSecretKeys, ro_redactArgvSecrets = redactArgvSecrets,
        ro_redactStrings = redactStrings\<rparr> input []"

section \<open>Caps\<close>

definition createOmittedMarker :: "nat \<Rightarrow> str" where
  "createOmittedMarker n = js ''<omitted:'' @ dec_nat n @ js ''>''"

definition capString :: "str \<Rightarrow> int \<Rightarrow> str" where
  "capString input maxChars =
     (if input = REDACTED_SECRET then input
      else if maxChars < 1 \<or> int (length input) \<le> maxChars then input
      else createOmittedMarker (length input))"

fun capValue :: "int \<Rightarrow> json \<Rightarrow> json" where
  "capValue maxFieldChars (JStr s) = JStr (capString s maxFieldChars)"
| "capValue maxFieldChars (JArr xs) = JArr (map (capValue maxFieldChars) xs)"
| "capValue maxFieldChars (JObj kvs) =
     JObj (filter (\<lambda>(k, v). k \<noteq> PROTO) (map (\<lambda>(k, v). (k, capValue maxFieldChars v)) kvs))"
| "capValue maxFieldChars v = v"

record safe_options =
  so_additionalSecretKeys :: "str list option"
  so_redactArgvSecrets :: "bool option"
  so_redactStrings :: "bool option"
  so_maxFieldChars :: "int option"
  so_maxRecordChars :: "int option"

definition DEFAULT_SAFE_FIELD_MAX_CHARS :: int where "DEFAULT_SAFE_FIELD_MAX_CHARS = 4096"
definition DEFAULT_SAFE_RECORD_MAX_CHARS :: int where "DEFAULT_SAFE_RECORD_MAX_CHARS = 32768"

definition opt_or :: "'a option \<Rightarrow> 'a \<Rightarrow> 'a" where
  "opt_or v d = (case v of None \<Rightarrow> d | Some x \<Rightarrow> x)"

definition redactText :: "(str \<Rightarrow> str) \<Rightarrow> text_redactor \<Rightarrow> safe_options \<Rightarrow> str \<Rightarrow> str" where
  "redactText lower rt opts input =
     capString (rt (createSecretKeySet lower (opt_or (so_additionalSecretKeys opts) [])) input)
       (opt_or (so_maxFieldChars opts) DEFAULT_SAFE_FIELD_MAX_CHARS)"

definition redactValue :: "(str \<Rightarrow> str) \<Rightarrow> text_redactor \<Rightarrow> safe_options \<Rightarrow> json \<Rightarrow> json" where
  "redactValue lower rt opts input =
     capValue (opt_or (so_maxFieldChars opts) DEFAULT_SAFE_FIELD_MAX_CHARS)
       (redactSecretLikeFields lower rt (opt_or (so_additionalSecretKeys opts) [])
          (opt_or (so_redactArgvSecrets opts) True) (opt_or (so_redactStrings opts) True) input)"

definition redactRecord :: "(str \<Rightarrow> str) \<Rightarrow> text_redactor \<Rightarrow> safe_options \<Rightarrow> (str \<times> json) list \<Rightarrow> (str \<times> json) list" where
  "redactRecord lower rt opts input =
     (case redactValue lower rt opts (JObj input) of JObj kvs \<Rightarrow> kvs | _ \<Rightarrow> [])"

definition createSafeAuditDetails ::
  "(str \<Rightarrow> str) \<Rightarrow> text_redactor \<Rightarrow> safe_options \<Rightarrow> (str \<times> json) list \<Rightarrow> (str \<times> json) list" where
  "createSafeAuditDetails lower rt opts input =
     (let r = redactRecord lower rt opts input; serialized = jsonStringify (JObj r)
      in if int (length serialized) \<le> opt_or (so_maxRecordChars opts) DEFAULT_SAFE_RECORD_MAX_CHARS then r
         else [(js ''omitted'', JStr (createOmittedMarker (length serialized)))])"

section \<open>What redaction guarantees\<close>

text \<open>Every member with a secret-like key, at any depth, holds the redaction marker.\<close>

fun secrets_hidden :: "(str \<Rightarrow> str) \<Rightarrow> str list \<Rightarrow> json \<Rightarrow> bool" where
  "secrets_hidden lower ks (JArr xs) \<longleftrightarrow> (\<forall>x \<in> set xs. secrets_hidden lower ks x)"
| "secrets_hidden lower ks (JObj kvs) \<longleftrightarrow> (\<forall>(k, v) \<in> set kvs.
     (isSecretLikeKeyFromSet lower ks k \<longrightarrow> v = JStr REDACTED_SECRET) \<and> secrets_hidden lower ks v)"
| "secrets_hidden lower ks v = True"

lemma redact_items_hidden:
  "(\<And>v. v \<in> set items \<Longrightarrow> secrets_hidden lower ks v) \<Longrightarrow> secrets_hidden lower ks (redact_items lower rt opts items)"
  by (auto simp: redact_items_def)

lemma redact_secret_key:
  "isSecretLikeKeyFromSet lower (ro_secretKeys opts) k \<Longrightarrow>
   redactSecretLikeValue lower rt opts v k = JStr REDACTED_SECRET"
  by (cases v) simp_all

lemma redact_value_hidden: "secrets_hidden lower (ro_secretKeys opts) (redactSecretLikeValue lower rt opts v key)"
proof (induction lower rt opts v key rule: redactSecretLikeValue.induct)
  case (1 lower rt opts xs key)
  then show ?case by (auto intro!: redact_items_hidden)
next
  case (2 lower rt opts kvs key)
  then show ?case by (fastforce simp: redact_secret_key)
qed simp_all

lemma cap_hidden: "secrets_hidden lower ks v \<Longrightarrow> secrets_hidden lower ks (capValue n v)"
  by (induction n v rule: capValue.induct) (fastforce simp: capString_def)+

lemma cap_record: "capValue n (JObj kvs) = JObj ms \<Longrightarrow> secrets_hidden lower ks (JObj kvs) \<Longrightarrow> secrets_hidden lower ks (JObj ms)"
  using cap_hidden by metis

lemma redact_record_value:
  "JObj (redactRecord lower rt opts input) = redactValue lower rt opts (JObj input)"
proof -
  have "\<not> isSecretLikeKeyFromSet lower ks []" for ks by (simp add: isSecretLikeKeyFromSet_def)
  then show ?thesis
    by (simp add: redactRecord_def redactValue_def redactSecretLikeFields_def)
qed

lemma redact_fields_hidden:
  "secrets_hidden lower (createSecretKeySet lower extra) (redactSecretLikeFields lower rt extra argv strings v)"
  unfolding redactSecretLikeFields_def
  using redact_value_hidden [of lower "\<lparr>ro_secretKeys = createSecretKeySet lower extra, ro_redactArgvSecrets = argv,
    ro_redactStrings = strings\<rparr>" rt v "[]"] by simp

lemma redact_record_hidden:
  "secrets_hidden lower (createSecretKeySet lower (opt_or (so_additionalSecretKeys opts) []))
     (JObj (redactRecord lower rt opts input))"
  unfolding redact_record_value redactValue_def by (intro cap_hidden redact_fields_hidden)

definition short_or_marker :: "int \<Rightarrow> str \<Rightarrow> bool" where
  "short_or_marker n s \<longleftrightarrow> int (length s) \<le> n \<or> s = REDACTED_SECRET \<or> (\<exists>k. s = createOmittedMarker k)"

fun all_strings :: "(str \<Rightarrow> bool) \<Rightarrow> json \<Rightarrow> bool" where
  "all_strings P (JStr s) \<longleftrightarrow> P s"
| "all_strings P (JArr xs) \<longleftrightarrow> (\<forall>x \<in> set xs. all_strings P x)"
| "all_strings P (JObj kvs) \<longleftrightarrow> (\<forall>(k, v) \<in> set kvs. all_strings P v)"
| "all_strings P v = True"

lemma cap_short: "1 \<le> n \<Longrightarrow> all_strings (short_or_marker n) (capValue n v)"
  by (induction n v rule: capValue.induct) (fastforce simp: capString_def short_or_marker_def)+

text \<open>
  C32: What goes into an audit record is redacted and bounded. Whatever the text patterns do, either
  every member with a secret-like key holds the redaction marker at every depth and the JSON text of
  the record is within \<open>maxRecordChars\<close>, or the record is nothing but a note of the omitted length,
  which exceeds that bound. In both cases no string of the record exceeds \<open>maxFieldChars\<close> characters,
  markers apart.
\<close>

theorem audit_details_safe:
  assumes "createSafeAuditDetails lower rt opts input = r"
    and "1 \<le> opt_or (so_maxFieldChars opts) DEFAULT_SAFE_FIELD_MAX_CHARS"
  shows "(secrets_hidden lower (createSecretKeySet lower (opt_or (so_additionalSecretKeys opts) [])) (JObj r) \<and>
      int (length (jsonStringify (JObj r))) \<le> opt_or (so_maxRecordChars opts) DEFAULT_SAFE_RECORD_MAX_CHARS \<or>
     (\<exists>n. r = [(js ''omitted'', JStr (createOmittedMarker n))] \<and>
        opt_or (so_maxRecordChars opts) DEFAULT_SAFE_RECORD_MAX_CHARS < int n)) \<and>
    all_strings (short_or_marker (opt_or (so_maxFieldChars opts) DEFAULT_SAFE_FIELD_MAX_CHARS)) (JObj r)"
proof (cases "int (length (jsonStringify (JObj (redactRecord lower rt opts input)))) \<le>
    opt_or (so_maxRecordChars opts) DEFAULT_SAFE_RECORD_MAX_CHARS")
  case True
  then have "r = redactRecord lower rt opts input" using assms(1) by (simp add: createSafeAuditDetails_def Let_def)
  moreover have "all_strings (short_or_marker (opt_or (so_maxFieldChars opts) DEFAULT_SAFE_FIELD_MAX_CHARS))
      (JObj (redactRecord lower rt opts input))"
    unfolding redact_record_value redactValue_def by (rule cap_short) (rule assms(2))
  ultimately show ?thesis using True redact_record_hidden by blast
next
  case False
  then have "r = [(js ''omitted'', JStr (createOmittedMarker
      (length (jsonStringify (JObj (redactRecord lower rt opts input))))))]"
    using assms(1) by (simp add: createSafeAuditDetails_def Let_def)
  moreover from this have "all_strings (short_or_marker (opt_or (so_maxFieldChars opts) DEFAULT_SAFE_FIELD_MAX_CHARS)) (JObj r)"
    by (auto simp: short_or_marker_def)
  ultimately show ?thesis using False by (intro conjI disjI2) auto
qed

section \<open>Arguments after a secret flag\<close>

lemma argv_loop_append:
  "\<exists>nxt pre. argv_loop lower rt ks b (xs @ ys) = pre @ argv_loop lower rt ks nxt ys \<and> length pre = length xs \<and>
     (xs \<noteq> [] \<longrightarrow> nxt \<longrightarrow> isSplitSecretArgvFlag lower ks (last xs)) \<and> (xs = [] \<longrightarrow> nxt = b)"
proof (induction xs arbitrary: b)
  case (Cons x xs)
  let ?skip = "b \<and> \<not> isSplitSecretArgvBoundaryAt lower ks x (xs @ ys)"
  let ?next = "if ?skip then False else isSplitSecretArgvFlag lower ks x"
  from Cons [of ?next] obtain nxt pre where p: "argv_loop lower rt ks ?next (xs @ ys) = pre @ argv_loop lower rt ks nxt ys"
    "length pre = length xs" "xs \<noteq> [] \<longrightarrow> nxt \<longrightarrow> isSplitSecretArgvFlag lower ks (last xs)" "xs = [] \<longrightarrow> nxt = ?next" by blast
  let ?h = "if ?skip then REDACTED_SECRET else redactInlineSecretArgvValue lower ks (rt ks x)"
  have "argv_loop lower rt ks b ((x # xs) @ ys) = (?h # pre) @ argv_loop lower rt ks nxt ys"
    using p(1) by (cases ?skip) auto
  moreover have "nxt \<longrightarrow> isSplitSecretArgvFlag lower ks (last (x # xs))"
    using p(3,4) by (cases "xs = []") (auto split: if_splits)
  ultimately show ?case using p(2) by (intro exI [of _ nxt] exI [of _ "?h # pre"]) simp
qed simp

text \<open>
  On a command line, the argument after a secret flag is replaced. When an argument is a secret flag
  without a value of its own and the one before it is not, the following argument becomes the marker,
  unless it is itself a known secret option followed by its own value; the number of arguments stays
  the same.
\<close>

theorem argv_values_redacted:
  assumes "isSplitSecretArgvFlag lower (createSecretKeySet lower extra) flag"
    and "xs \<noteq> [] \<Longrightarrow> \<not> isSplitSecretArgvFlag lower (createSecretKeySet lower extra) (last xs)"
    and "\<not> isSplitSecretArgvBoundaryAt lower (createSecretKeySet lower extra) v ys"
  shows "length (redactSecretLikeArgv lower rt extra (xs @ flag # v # ys)) = length xs + 2 + length ys \<and>
    redactSecretLikeArgv lower rt extra (xs @ flag # v # ys) ! (length xs + 1) = REDACTED_SECRET"
proof -
  let ?ks = "createSecretKeySet lower extra"
  from argv_loop_append [of lower rt ?ks False xs "flag # v # ys"] obtain nxt pre where
    p: "argv_loop lower rt ?ks False (xs @ flag # v # ys) = pre @ argv_loop lower rt ?ks nxt (flag # v # ys)"
      "length pre = length xs" "xs \<noteq> [] \<longrightarrow> nxt \<longrightarrow> isSplitSecretArgvFlag lower ?ks (last xs)" "xs = [] \<longrightarrow> \<not> nxt"
    by auto
  then have "\<not> nxt" using assms(2) by blast
  have len: "length (argv_loop lower rt ks b zs) = length zs" for ks b zs
    by (induction lower rt ks b zs rule: argv_loop.induct) auto
  show ?thesis
    using p(1,2) \<open>\<not> nxt\<close> assms(1,3) len by (simp add: redactSecretLikeArgv_def nth_append)
qed

text \<open>A value that follows \<open>=\<close> and contains a line break is left to the text patterns.\<close>

lemma inline_line_break_not_redacted:
  "redactInlineSecretArgvValue ascii_lower [] (js ''--token=a'' @ [10] @ js ''b'') = js ''--token=a'' @ [10] @ js ''b''"
  "redactInlineSecretArgvValue ascii_lower [] (js ''--token=ab'') = js ''--token='' @ REDACTED_SECRET"
  by code_simp+

definition no_safe_options :: safe_options where
  "no_safe_options = \<lparr>so_additionalSecretKeys = None, so_redactArgvSecrets = None, so_redactStrings = None,
     so_maxFieldChars = None, so_maxRecordChars = None\<rparr>"

definition demo_details :: "(str \<times> json) list" where
  "demo_details = [(js ''env'', JObj [(js ''apiToken'', JStr (js ''abc''))]), (js ''n'', JNum 2)]"

theorem audit_details_safe_witness:
  "createSafeAuditDetails ascii_lower (\<lambda>ks s. s) no_safe_options demo_details =
     [(js ''env'', JObj [(js ''apiToken'', JStr REDACTED_SECRET)]), (js ''n'', JNum 2)] \<and>
   all_strings (short_or_marker DEFAULT_SAFE_FIELD_MAX_CHARS)
     (JObj [(js ''env'', JObj [(js ''apiToken'', JStr REDACTED_SECRET)]), (js ''n'', JNum 2)])"
proof -
  have "createSafeAuditDetails ascii_lower (\<lambda>ks s. s) no_safe_options demo_details =
     [(js ''env'', JObj [(js ''apiToken'', JStr REDACTED_SECRET)]), (js ''n'', JNum 2)]" by code_simp
  with audit_details_safe [OF this] show ?thesis
    by (simp add: no_safe_options_def opt_or_def DEFAULT_SAFE_FIELD_MAX_CHARS_def)
qed

theorem argv_values_redacted_witness:
  "redactSecretLikeArgv ascii_lower (\<lambda>ks s. s) [] [js ''run'', js ''--token'', js ''abc'', js ''-v''] ! 2 = REDACTED_SECRET"
proof -
  have "isSplitSecretArgvFlag ascii_lower (createSecretKeySet ascii_lower []) (js ''--token'')" by code_simp
  moreover have "\<not> isSplitSecretArgvFlag ascii_lower (createSecretKeySet ascii_lower []) (js ''run'')" by code_simp
  moreover have "\<not> isSplitSecretArgvBoundaryAt ascii_lower (createSecretKeySet ascii_lower []) (js ''abc'') [js ''-v'']"
    by code_simp
  ultimately show ?thesis
    using argv_values_redacted [of ascii_lower "[]" "js ''--token''" "[js ''run'']" "js ''abc''" "[js ''-v'']"
        "\<lambda>ks s. s"] by (simp add: numeral_2_eq_2)
qed

end
