(* ===== verification/ToolPlanner.thy ===== *)
theory ToolPlanner
  imports ToolRegistry Redaction Eligibility
begin

text \<open>
  The tool invocation planner, \<open>packages/tool-invocation-planner/src/index.ts\<close>: before a tool runs, its
  run and step must be live and belong together, the sandbox its side effects ask for must lie within
  the sandbox of the policy, no grant may deny a capability it needs, and what is missing or dangerous
  needs an approval permit.
\<close>

section \<open>Sandbox profiles (\<open>kernel-contracts/src/core.ts\<close>)\<close>

datatype sandbox_mode = ReadOnly | WorkspaceWrite | DangerFullAccess
datatype network_mode = NetworkNone | NetworkRestricted | NetworkFull

record env_policy =
  en_inheritProcessEnv :: bool
  en_allowlist :: "str list"

record sandbox_profile =
  sb_sandboxId :: str
  sb_mode :: sandbox_mode
  sb_networkAccess :: network_mode
  sb_writableRoots :: "str list"
  sb_envPolicy :: env_policy

definition SandboxProfileSchema :: "sandbox_profile \<Rightarrow> bool" where
  "SandboxProfileSchema p \<longleftrightarrow> str_min1 (sb_sandboxId p) \<and> list_all str_min1 (sb_writableRoots p) \<and>
     list_all str_min1 (en_allowlist (sb_envPolicy p)) \<and>
     \<not> (sb_mode p = ReadOnly \<and> sb_writableRoots p \<noteq> [])"

section \<open>Inputs and plans\<close>

text \<open>The fields of the policy decision the planner reads; \<open>pd_json\<close> is the whole object, which is hashed.\<close>

record tool_policy = policy_decision +
  tp_decisionId :: str
  tp_taskId :: str
  tp_approvalReasons :: "str list"
  tp_sandbox :: sandbox_profile

record tool_request =
  tq_run :: run
  tq_step :: kstep
  tq_toolManifest :: tool_manifest
  tq_proposedInput :: json
  tq_principal :: principal
  tq_capabilityGrants :: "grant_like list"
  tq_approvalPermits :: "approval_permit list"
  tq_policyDecision :: tool_policy
  tq_planHash :: str
  tq_now :: str

datatype plan_status = Planned | PlanBlocked | PlanWaiting

record tool_plan =
  tl_invocationId :: str
  tl_runId :: str
  tl_stepId :: str
  tl_toolId :: str
  tl_provider :: tool_provider
  tl_inputHash :: str
  tl_inputPreview :: json
  tl_requiredCapabilities :: "str list"
  tl_sideEffectClass :: side_effect_class
  tl_sandboxProfile :: sandbox_profile
  tl_approvalRequired :: bool
  tl_status :: plan_status
  tl_reasons :: "str list"

definition plan_run_status_name :: "run_status \<Rightarrow> str" where
  "plan_run_status_name s = (case s of RunQueued \<Rightarrow> js ''queued'' | RunRunning \<Rightarrow> js ''running''
     | RunBlocked \<Rightarrow> js ''blocked'' | RunSucceeded \<Rightarrow> js ''succeeded'' | RunFailed \<Rightarrow> js ''failed''
     | RunCancelled \<Rightarrow> js ''cancelled'')"

definition plan_step_status_name :: "step_status \<Rightarrow> str" where
  "plan_step_status_name s = (case s of StepPending \<Rightarrow> js ''pending'' | StepRunning \<Rightarrow> js ''running''
     | StepBlocked \<Rightarrow> js ''blocked'' | StepSucceeded \<Rightarrow> js ''succeeded'' | StepFailed \<Rightarrow> js ''failed''
     | StepSkipped \<Rightarrow> js ''skipped'' | StepCancelled \<Rightarrow> js ''cancelled'')"

definition side_effect_name :: "side_effect_class \<Rightarrow> str" where
  "side_effect_name c = (case c of SideNone \<Rightarrow> js ''none'' | SideRead \<Rightarrow> js ''read''
     | SideLocalWrite \<Rightarrow> js ''local_write'' | SideExternalWrite \<Rightarrow> js ''external_write''
     | SideDestructive \<Rightarrow> js ''destructive'' | SideSecretAccess \<Rightarrow> js ''secret_access'' | SideUnknown \<Rightarrow> js ''unknown'')"

definition plan_terminalRunStatuses :: "run_status list" where
  "plan_terminalRunStatuses = [RunSucceeded, RunFailed, RunCancelled]"

definition plan_terminalStepStatuses :: "step_status list" where
  "plan_terminalStepStatuses = [StepSucceeded, StepFailed, StepSkipped, StepCancelled]"

section \<open>Sandboxes\<close>

definition deriveSandboxProfile :: "side_effect_class \<Rightarrow> sandbox_profile" where
  "deriveSandboxProfile c =
     (let base = \<lparr>sb_sandboxId = js ''sandbox_tool_'' @ side_effect_name c, sb_mode = ReadOnly,
            sb_networkAccess = NetworkNone, sb_writableRoots = [],
            sb_envPolicy = \<lparr>en_inheritProcessEnv = False, en_allowlist = []\<rparr>\<rparr>
      in if c = SideLocalWrite
         then base\<lparr>sb_mode := WorkspaceWrite, sb_writableRoots := [js ''workspace'']\<rparr>
         else if c = SideExternalWrite then base\<lparr>sb_networkAccess := NetworkRestricted\<rparr>
         else base)"

definition sandboxModeImplies :: "sandbox_mode \<Rightarrow> sandbox_mode \<Rightarrow> bool" where
  "sandboxModeImplies policyMode requestedMode \<longleftrightarrow> policyMode = requestedMode \<or> policyMode = DangerFullAccess \<or>
     (policyMode = WorkspaceWrite \<and> requestedMode = ReadOnly)"

definition networkAccessImplies :: "network_mode \<Rightarrow> network_mode \<Rightarrow> bool" where
  "networkAccessImplies given requested \<longleftrightarrow>
     given = requested \<or> given = NetworkFull \<or> (given = NetworkRestricted \<and> requested = NetworkNone)"

definition writableRootImplies :: "str \<Rightarrow> str \<Rightarrow> bool" where
  "writableRootImplies grantedRoot requestedRoot \<longleftrightarrow>
     grantedRoot = requestedRoot \<or> grantedRoot = js ''*'' \<or>
     (endsWith grantedRoot (js ''/**'') \<and>
       (let pre = take (length grantedRoot - 3) grantedRoot
        in requestedRoot = pre \<or> startsWith requestedRoot (pre @ [SLASH])))"

definition writableRootsImply :: "str list \<Rightarrow> str list \<Rightarrow> bool" where
  "writableRootsImply given requested \<longleftrightarrow>
     requested = [] \<or> list_all (\<lambda>root. list_ex (\<lambda>g. writableRootImplies g root) given) requested"

definition envPolicyImplies :: "env_policy \<Rightarrow> env_policy \<Rightarrow> bool" where
  "envPolicyImplies given requested \<longleftrightarrow>
     (if \<not> en_inheritProcessEnv given \<and> en_inheritProcessEnv requested then False
      else if en_inheritProcessEnv given then True
      else list_all (\<lambda>k. k \<in> set (en_allowlist given)) (en_allowlist requested))"

definition explainToolSandboxPolicyMismatch :: "sandbox_profile \<Rightarrow> sandbox_profile \<Rightarrow> err + str option" where
  "explainToolSandboxPolicyMismatch requested policySandboxInput =
     bind_res (zod_parse SandboxProfileSchema policySandboxInput) (\<lambda>policySandbox. Inr
       (if \<not> sandboxModeImplies (sb_mode policySandbox) (sb_mode requested) then Some (js ''mode'')
        else if \<not> networkAccessImplies (sb_networkAccess policySandbox) (sb_networkAccess requested)
        then Some (js ''networkAccess'')
        else if \<not> writableRootsImply (sb_writableRoots policySandbox) (sb_writableRoots requested)
        then Some (js ''writableRoots'')
        else if \<not> envPolicyImplies (sb_envPolicy policySandbox) (sb_envPolicy requested)
        then Some (js ''envPolicy'')
        else None))"

section \<open>Planning\<close>

definition hashToolInvocationInput :: "(str \<Rightarrow> str) \<Rightarrow> json \<Rightarrow> str" where
  "hashToolInvocationInput sha256 input = sha256 (stableStringify input)"

definition redactToolInvocationInput :: "(str \<Rightarrow> str) \<Rightarrow> text_redactor \<Rightarrow> json \<Rightarrow> str list \<Rightarrow> json" where
  "redactToolInvocationInput lower rt input additionalSecretKeys =
     redactSecretLikeFields lower rt additionalSecretKeys True True input"

definition createInvocationId :: "(str \<Rightarrow> str) \<Rightarrow> str \<Rightarrow> str \<Rightarrow> str \<Rightarrow> str \<Rightarrow> str" where
  "createInvocationId sha256 runId stepId toolId inputHash =
     js ''invocation_'' @ take 24 (sha256 (stableStringify
       (JObj [(js ''runId'', JStr runId), (js ''stepId'', JStr stepId), (js ''toolId'', JStr toolId),
         (js ''inputHash'', JStr inputHash)])))"

definition createBasePlan :: "kernel_env \<Rightarrow> tool_request \<Rightarrow> tool_manifest \<Rightarrow> str \<Rightarrow> json \<Rightarrow> tool_plan" where
  "createBasePlan env q m inputHash inputPreview =
     \<lparr>tl_invocationId = createInvocationId (ke_sha256 env) (r_runId (tq_run q)) (s_stepId (tq_step q))
        (tm_toolId m) inputHash,
      tl_runId = r_runId (tq_run q), tl_stepId = s_stepId (tq_step q), tl_toolId = tm_toolId m,
      tl_provider = tm_provider m, tl_inputHash = inputHash, tl_inputPreview = inputPreview,
      tl_requiredCapabilities = tm_requiredCapabilities m, tl_sideEffectClass = tm_sideEffectClass m,
      tl_sandboxProfile = deriveSandboxProfile (tm_sideEffectClass m),
      tl_approvalRequired = (pd_approvalRequired (tq_policyDecision q) \<or>
        isDangerousSideEffectClass (tm_sideEffectClass m)),
      tl_status = PlanBlocked, tl_reasons = []\<rparr>"

definition mismatch_reason :: "string \<Rightarrow> str \<Rightarrow> str \<Rightarrow> str list" where
  "mismatch_reason name a b = (if a \<noteq> b then [js ''tool_invocation_'' @ js name @ js '':'' @ a @ js '':'' @ b] else [])"

definition collectKernelIntegrityReasons :: "tool_request \<Rightarrow> str list" where
  "collectKernelIntegrityReasons q =
     (let run = tq_run q; st = tq_step q; pd = tq_policyDecision q
      in (if r_status run \<in> set plan_terminalRunStatuses
          then [js ''tool_invocation_run_terminal:'' @ plan_run_status_name (r_status run)] else []) @
         (if s_status st \<in> set plan_terminalStepStatuses
          then [js ''tool_invocation_step_terminal:'' @ plan_step_status_name (s_status st)] else []) @
         mismatch_reason ''step_run_mismatch'' (s_runId st) (r_runId run) @
         mismatch_reason ''step_task_mismatch'' (s_taskId st) (r_taskId run) @
         mismatch_reason ''policy_task_mismatch'' (tp_taskId pd) (r_taskId run) @
         (case r_policyDecisionId run of None \<Rightarrow> []
            | Some d \<Rightarrow> mismatch_reason ''run_policy_decision_mismatch'' d (tp_decisionId pd)))"

definition tool_permit_context :: "kernel_env \<Rightarrow> tool_request \<Rightarrow> str list \<Rightarrow> permit_context" where
  "tool_permit_context env q requiredCapabilities =
     \<lparr>pc_taskId = r_taskId (tq_run q), pc_runId = r_runId (tq_run q),
      pc_principalId = pr_principalId (tq_principal q),
      pc_policyDecisionHash = hashApprovalScope (ke_sha256 env) (pd_json (tq_policyDecision q)),
      pc_planHash = tq_planHash q, pc_requestedCapabilityScopes = requiredCapabilities, pc_now = tq_now q\<rparr>"

fun sort_permits ::
  "(str \<Rightarrow> int option) \<Rightarrow> permit_context \<Rightarrow> approval_permit list \<Rightarrow> err + (str list \<times> str list)" where
  "sort_permits dp ctx [] = Inr ([], [])"
| "sort_permits dp ctx (permit # rest) =
     bind_res (validateApprovalPermit dp permit ctx) (\<lambda>v.
     bind_res (sort_permits dp ctx rest) (\<lambda>(accepted, rejected).
       if pv_valid v then Inr (ap_permitId permit # accepted, rejected)
       else Inr (accepted, (js ''permit_rejected:'' @ ap_permitId permit @ js '':'' @
         join_with (js '','') (pv_reasons v)) # rejected)))"

definition evaluateApprovalPermits ::
  "kernel_env \<Rightarrow> tool_request \<Rightarrow> str list \<Rightarrow> err + (str list \<times> str list)" where
  "evaluateApprovalPermits env q requiredCapabilities =
     sort_permits (ke_date env) (tool_permit_context env q requiredCapabilities) (tq_approvalPermits q)"

definition tool_check_options :: "tool_request \<Rightarrow> check_options" where
  "tool_check_options q = \<lparr>o_principalId = Some (pr_principalId (tq_principal q)),
     o_taskId = Some (r_taskId (tq_run q)), o_runId = Some (r_runId (tq_run q)), o_now = Some (tq_now q)\<rparr>"

text \<open>The part after the permits are sorted.\<close>

definition permit_outcome ::
  "tool_request \<Rightarrow> tool_plan \<Rightarrow> check_result list \<Rightarrow> str list \<Rightarrow> str list \<Rightarrow> tool_plan" where
  "permit_outcome q base results accepted rejected =
     (let failed = filter (\<lambda>r. \<not> cr_allowed r) results
      in if failed \<noteq> [] \<and> accepted = []
         then base\<lparr>tl_status := PlanWaiting, tl_approvalRequired := True,
           tl_reasons := uniq (js ''missing_capability'' # concat (map capabilityFailureReasons failed) @ rejected)\<rparr>
         else if tl_approvalRequired base \<and> accepted = []
         then base\<lparr>tl_status := PlanWaiting,
           tl_reasons := uniq (js ''approval_required'' # tp_approvalReasons (tq_policyDecision q) @ rejected)\<rparr>
         else if accepted \<noteq> []
         then base\<lparr>tl_status := Planned,
           tl_reasons := uniq (js ''valid_approval_permit'' # map (\<lambda>p. js ''permit:'' @ p) accepted)\<rparr>
         else base\<lparr>tl_status := Planned, tl_reasons := [js ''capability_grants_satisfied'']\<rparr>)"

definition planToolInvocation :: "kernel_env \<Rightarrow> text_redactor \<Rightarrow> tool_request \<Rightarrow> err + tool_plan" where
  "planToolInvocation env rt q =
     bind_res (zod_parse RegisteredToolManifestSchema (tq_toolManifest q)) (\<lambda>m.
     let inputHash = hashToolInvocationInput (ke_sha256 env) (tq_proposedInput q);
         inputPreview = redactToolInvocationInput (ke_lower env) rt (tq_proposedInput q)
           (rp_secretKeys (tm_redactionPolicy m));
         base = createBasePlan env q m inputHash inputPreview;
         integrityReasons = collectKernelIntegrityReasons q
     in if integrityReasons \<noteq> []
        then Inr (base\<lparr>tl_status := PlanBlocked, tl_reasons := uniq integrityReasons\<rparr>)
        else
        bind_res (map_res (\<lambda>scope. explainCapabilityDecision (ke_date env) (ke_dateNow env)
          (tq_capabilityGrants q) scope (tool_check_options q)) (tm_requiredCapabilities m)) (\<lambda>results.
        bind_res (explainToolSandboxPolicyMismatch (tl_sandboxProfile base)
          (tp_sandbox (tq_policyDecision q))) (\<lambda>mismatch. case mismatch of
          Some part \<Rightarrow> Inr (base\<lparr>tl_status := PlanBlocked,
            tl_reasons := [js ''tool_invocation_sandbox_exceeds_policy:'' @ part @ js '':'' @
              sb_sandboxId (tl_sandboxProfile base) @ js '':'' @ sb_sandboxId (tp_sandbox (tq_policyDecision q))]\<rparr>)
        | None \<Rightarrow>
          (let denied = filter (\<lambda>r. js ''matched_deny_scope'' \<in> set (cr_reasons r)) results
           in if denied \<noteq> []
              then Inr (base\<lparr>tl_status := PlanBlocked,
                tl_reasons := uniq (js ''capability_deny'' # concat (map cr_reasons denied))\<rparr>)
              else bind_res (evaluateApprovalPermits env q (tm_requiredCapabilities m)) (\<lambda>(accepted, rejected).
                Inr (permit_outcome q base results accepted rejected))))))"

section \<open>The sandbox check, read off\<close>

lemma root_covers_workspace:
  "writableRootImplies g (js ''workspace'') \<longleftrightarrow> g \<in> {js ''workspace'', js ''*'', js ''workspace/**''}"
proof -
  have "g = js ''workspace/**''" if e: "endsWith g (js ''/**'')" and
    w: "js ''workspace'' = take (length g - 3) g \<or> startsWith (js ''workspace'') (take (length g - 3) g @ [SLASH])"
  proof -
    from e obtain u where u: "g = u @ js ''/**''" by (auto simp: endsWith_def suffix_def)
    have "SLASH \<notin> set (js ''workspace'')" by (simp add: js_def)
    then have "\<not> startsWith (js ''workspace'') (u @ [SLASH])"
      by (auto simp: startsWith_def prefix_def)
    then show ?thesis using w u by (auto simp: js_def)
  qed
  moreover have "endsWith (js ''workspace/**'') (js ''/**'') \<and>
      take (length (js ''workspace/**'') - 3) (js ''workspace/**'') = js ''workspace''" by code_simp
  ultimately show ?thesis unfolding writableRootImplies_def Let_def by auto
qed

text \<open>
  C34: The sandbox check decides what it should. For a valid policy sandbox, a tool fits exactly when a
  tool that writes locally finds a writable policy sandbox with a root that covers \<open>workspace\<close>, and a
  tool that writes to the outside finds network access; every other tool runs read-only without
  network and always fits.
\<close>

theorem tool_sandbox_decision:
  assumes "SandboxProfileSchema p"
  shows "explainToolSandboxPolicyMismatch (deriveSandboxProfile c) p = Inr None \<longleftrightarrow>
    (c = SideLocalWrite \<longrightarrow> sb_mode p \<noteq> ReadOnly \<and>
       (\<exists>g \<in> set (sb_writableRoots p). g \<in> {js ''workspace'', js ''*'', js ''workspace/**''})) \<and>
    (c = SideExternalWrite \<longrightarrow> sb_networkAccess p \<noteq> NetworkNone)"
proof -
  have env: "envPolicyImplies e \<lparr>en_inheritProcessEnv = False, en_allowlist = []\<rparr>" for e
    by (simp add: envPolicyImplies_def)
  have read: "sandboxModeImplies m ReadOnly" for m by (cases m) (simp_all add: sandboxModeImplies_def)
  have wr: "sandboxModeImplies m WorkspaceWrite \<longleftrightarrow> m \<noteq> ReadOnly" for m
    by (cases m) (simp_all add: sandboxModeImplies_def)
  have offline: "networkAccessImplies n NetworkNone" for n by (cases n) (simp_all add: networkAccessImplies_def)
  have online: "networkAccessImplies n NetworkRestricted \<longleftrightarrow> n \<noteq> NetworkNone" for n
    by (cases n) (simp_all add: networkAccessImplies_def)
  have none: "writableRootsImply gs []" for gs by (simp add: writableRootsImply_def)
  have one: "writableRootsImply gs [js ''workspace''] \<longleftrightarrow>
      (\<exists>g \<in> set gs. g \<in> {js ''workspace'', js ''*'', js ''workspace/**''})" for gs
    by (simp add: writableRootsImply_def root_covers_workspace list_ex_iff)
  show ?thesis
    using assms by (cases c) (simp_all add: explainToolSandboxPolicyMismatch_def zod_parse_ok deriveSandboxProfile_def
        env read wr offline online none one del: insert_iff)
qed

definition wide_sandbox :: sandbox_profile where
  "wide_sandbox = \<lparr>sb_sandboxId = js ''sandbox_policy'', sb_mode = WorkspaceWrite, sb_networkAccess = NetworkNone,
     sb_writableRoots = [js ''workspace/**''], sb_envPolicy = \<lparr>en_inheritProcessEnv = False, en_allowlist = []\<rparr>\<rparr>"

lemma wide_sandbox_valid: "SandboxProfileSchema wide_sandbox"
  by (simp add: SandboxProfileSchema_def wide_sandbox_def)

theorem tool_sandbox_decision_witness:
  "explainToolSandboxPolicyMismatch (deriveSandboxProfile SideLocalWrite) wide_sandbox = Inr None \<and>
   explainToolSandboxPolicyMismatch (deriveSandboxProfile SideExternalWrite) wide_sandbox \<noteq> Inr None"
  using tool_sandbox_decision [OF wide_sandbox_valid] by (simp add: wide_sandbox_def)

section \<open>What a planned invocation has\<close>

lemma sort_permits_spec:
  "sort_permits dp ctx ps = Inr (accepted, rejected) \<Longrightarrow> i \<in> set accepted \<Longrightarrow>
   \<exists>p \<in> set ps. ap_permitId p = i \<and> permit_in_force dp p ctx \<and> (\<exists>scopes. getCapabilityScopes p = Inr scopes \<and>
     (\<forall>q \<in> set (pc_requestedCapabilityScopes ctx). \<exists>s \<in> set scopes. capabilityImplies s q = Inr True))"
proof (induction ps arbitrary: accepted rejected)
  case (Cons p ps)
  from Cons.prems(1) obtain v a b where v: "validateApprovalPermit dp p ctx = Inr v"
    and rest: "sort_permits dp ctx ps = Inr (a, b)"
    and acc: "accepted = (if pv_valid v then ap_permitId p # a else a)"
    by (auto simp: bind_res_Inr split: if_splits)
  from acc Cons.prems(2) consider "pv_valid v" "i = ap_permitId p" | "i \<in> set a" by (auto split: if_splits)
  then show ?case
  proof cases
    case 1
    with validate_iff [OF v] show ?thesis by auto
  next
    case 2
    with Cons.IH [OF rest] show ?thesis by auto
  qed
qed simp

abbreviation tool_grants :: "kernel_env \<Rightarrow> tool_request \<Rightarrow> str set" where
  "tool_grants env q \<equiv> usable_scopes (ke_date env) (ke_dateNow env) (tool_check_options q) (tq_capabilityGrants q)"

text \<open>A capability some usable grant allows; one that some usable grant denies; a permit for all of them.\<close>

definition tool_granted :: "kernel_env \<Rightarrow> tool_request \<Rightarrow> str \<Rightarrow> bool" where
  "tool_granted env q c \<longleftrightarrow> (\<exists>r. parseCapabilityScope c = Inr r \<and> (\<exists>s \<in> tool_grants env q. scope_allows r s))"

definition tool_denied :: "kernel_env \<Rightarrow> tool_request \<Rightarrow> str \<Rightarrow> bool" where
  "tool_denied env q c \<longleftrightarrow> (\<exists>r. parseCapabilityScope c = Inr r \<and> (\<exists>s \<in> tool_grants env q. scope_denies r s))"

definition tool_permitted :: "kernel_env \<Rightarrow> tool_request \<Rightarrow> str list \<Rightarrow> bool" where
  "tool_permitted env q cs \<longleftrightarrow> (\<exists>p \<in> set (tq_approvalPermits q). permit_in_force (ke_date env) p (tool_permit_context env q cs) \<and>
     (\<exists>scopes. getCapabilityScopes p = Inr scopes \<and> (\<forall>c \<in> set cs. \<exists>s \<in> set scopes. capabilityImplies s c = Inr True)))"

lemma planned_parts:
  assumes "planToolInvocation env rt q = Inr p" and "tl_status p = Planned"
  obtains results accepted rejected where
    "RegisteredToolManifestSchema (tq_toolManifest q)" "collectKernelIntegrityReasons q = []"
    "map_res (\<lambda>scope. explainCapabilityDecision (ke_date env) (ke_dateNow env) (tq_capabilityGrants q) scope
       (tool_check_options q)) (tm_requiredCapabilities (tq_toolManifest q)) = Inr results"
    "explainToolSandboxPolicyMismatch (deriveSandboxProfile (tm_sideEffectClass (tq_toolManifest q)))
       (tp_sandbox (tq_policyDecision q)) = Inr None"
    "\<forall>r \<in> set results. js ''matched_deny_scope'' \<notin> set (cr_reasons r)"
    "evaluateApprovalPermits env q (tm_requiredCapabilities (tq_toolManifest q)) = Inr (accepted, rejected)"
    "p = permit_outcome q (createBasePlan env q (tq_toolManifest q) (hashToolInvocationInput (ke_sha256 env) (tq_proposedInput q))
       (redactToolInvocationInput (ke_lower env) rt (tq_proposedInput q)
         (rp_secretKeys (tm_redactionPolicy (tq_toolManifest q))))) results accepted rejected"
proof -
  let ?m = "tq_toolManifest q"
  let ?base = "createBasePlan env q ?m (hashToolInvocationInput (ke_sha256 env) (tq_proposedInput q))
    (redactToolInvocationInput (ke_lower env) rt (tq_proposedInput q) (rp_secretKeys (tm_redactionPolicy ?m)))"
  let ?caps = "map_res (\<lambda>scope. explainCapabilityDecision (ke_date env) (ke_dateNow env) (tq_capabilityGrants q) scope
       (tool_check_options q)) (tm_requiredCapabilities ?m)"
  have base: "tl_sandboxProfile ?base = deriveSandboxProfile (tm_sideEffectClass ?m)" by (simp add: createBasePlan_def)
  have v: "RegisteredToolManifestSchema ?m" using assms(1) by (auto simp: planToolInvocation_def bind_res_Inr)
  have i: "collectKernelIntegrityReasons q = []"
    using assms v by (auto simp: planToolInvocation_def zod_parse_ok Let_def split: if_splits)
  from assms(1) v i obtain results mm where r: "?caps = Inr results"
    and mm: "explainToolSandboxPolicyMismatch (deriveSandboxProfile (tm_sideEffectClass ?m))
       (tp_sandbox (tq_policyDecision q)) = Inr mm"
    by (simp add: planToolInvocation_def zod_parse_ok Let_def bind_res_Inr base) blast
  note run = assms(1) [unfolded planToolInvocation_def zod_parse_ok [of RegisteredToolManifestSchema, OF v] Let_def
      bind_res_simps i base r mm]
  have none: "mm = None" using run assms(2) by (cases mm) auto
  have d: "\<forall>r \<in> set results. js ''matched_deny_scope'' \<notin> set (cr_reasons r)"
    using run none assms(2) by (auto simp: filter_empty_conv split: if_splits)
  then have "filter (\<lambda>r. js ''matched_deny_scope'' \<in> set (cr_reasons r)) results = []"
    by (simp add: filter_empty_conv)
  with run none obtain accepted rejected where
    "evaluateApprovalPermits env q (tm_requiredCapabilities ?m) = Inr (accepted, rejected)"
    "p = permit_outcome q ?base results accepted rejected"
    by (auto simp: bind_res_Inr)
  with v i r mm none d show thesis using that by blast
qed

lemma outcome_planned:
  assumes "tl_status (permit_outcome q base results accepted rejected) = Planned"
  shows "(\<forall>r \<in> set results. cr_allowed r) \<or> accepted \<noteq> []" "tl_approvalRequired base \<Longrightarrow> accepted \<noteq> []"
  using assms by (auto simp: permit_outcome_def Let_def filter_empty_conv split: if_splits)

lemma outcome_fields:
  "tl_sandboxProfile (permit_outcome q base results accepted rejected) = tl_sandboxProfile base"
  "tl_inputPreview (permit_outcome q base results accepted rejected) = tl_inputPreview base"
  "tl_requiredCapabilities (permit_outcome q base results accepted rejected) = tl_requiredCapabilities base"
  "tl_inputHash (permit_outcome q base results accepted rejected) = tl_inputHash base"
  by (auto simp: permit_outcome_def Let_def)

lemma integrity_Nil:
  "collectKernelIntegrityReasons q = [] \<longleftrightarrow>
     r_status (tq_run q) \<notin> {RunSucceeded, RunFailed, RunCancelled} \<and>
     s_status (tq_step q) \<notin> {StepSucceeded, StepFailed, StepSkipped, StepCancelled} \<and>
     s_runId (tq_step q) = r_runId (tq_run q) \<and> s_taskId (tq_step q) = r_taskId (tq_run q) \<and>
     tp_taskId (tq_policyDecision q) = r_taskId (tq_run q) \<and>
     r_policyDecisionId (tq_run q) \<in> {None, Some (tp_decisionId (tq_policyDecision q))}"
  by (auto simp: collectKernelIntegrityReasons_def Let_def mismatch_reason_def plan_terminalRunStatuses_def
      plan_terminalStepStatuses_def split: option.splits)

lemma tool_results:
  assumes "map_res (\<lambda>scope. explainCapabilityDecision (ke_date env) (ke_dateNow env) (tq_capabilityGrants q) scope
       (tool_check_options q)) cs = Inr results" and "c \<in> set cs"
  obtains r where "r \<in> set results" "js ''matched_deny_scope'' \<notin> set (cr_reasons r) \<Longrightarrow> \<not> tool_denied env q c"
    "cr_allowed r \<Longrightarrow> tool_granted env q c"
proof -
  from map_res_mem [OF assms] obtain r where r: "r \<in> set results" "explainCapabilityDecision (ke_date env) (ke_dateNow env)
       (tq_capabilityGrants q) c (tool_check_options q) = Inr r" by blast
  show thesis
  proof (cases "parseCapabilityScope c")
    case (Inl e)
    with explain_unparsed(1) [OF Inl r(2)] that r(1) show thesis by (auto simp: tool_denied_def)
  next
    case (Inr g)
    with explain_parsed(1,2) [OF Inr r(2)] that r(1) show thesis
      by (auto simp: tool_denied_def tool_granted_def)
  qed
qed

text \<open>
  C22: A planned tool invocation is safe. Run and step are live, belong together and to the task of the
  policy decision the run was made for; the manifest is valid and the sandbox lies within the sandbox
  of the policy; no usable grant denies a required capability; every required capability is granted or
  a permit in force for exactly this task, run, principal, plan and decision covers all of them; and
  such a permit exists whenever the policy asks for approval or the tool is dangerous. The preview of
  the input hides what is under secret-like keys.
\<close>

theorem planned_invocation_safe:
  assumes "planToolInvocation env rt q = Inr p" and "tl_status p = Planned"
  shows "r_status (tq_run q) \<notin> {RunSucceeded, RunFailed, RunCancelled} \<and>
    s_status (tq_step q) \<notin> {StepSucceeded, StepFailed, StepSkipped, StepCancelled} \<and>
    s_runId (tq_step q) = r_runId (tq_run q) \<and> s_taskId (tq_step q) = r_taskId (tq_run q) \<and>
    tp_taskId (tq_policyDecision q) = r_taskId (tq_run q) \<and>
    r_policyDecisionId (tq_run q) \<in> {None, Some (tp_decisionId (tq_policyDecision q))} \<and>
    RegisteredToolManifestSchema (tq_toolManifest q) \<and>
    tl_requiredCapabilities p = tm_requiredCapabilities (tq_toolManifest q) \<and>
    explainToolSandboxPolicyMismatch (tl_sandboxProfile p) (tp_sandbox (tq_policyDecision q)) = Inr None \<and>
    (\<forall>c \<in> set (tl_requiredCapabilities p). \<not> tool_denied env q c) \<and>
    ((\<forall>c \<in> set (tl_requiredCapabilities p). tool_granted env q c) \<or> tool_permitted env q (tl_requiredCapabilities p)) \<and>
    (pd_approvalRequired (tq_policyDecision q) \<or> isDangerousSideEffectClass (tm_sideEffectClass (tq_toolManifest q)) \<longrightarrow>
       tool_permitted env q (tl_requiredCapabilities p)) \<and>
    secrets_hidden (ke_lower env) (createSecretKeySet (ke_lower env)
      (rp_secretKeys (tm_redactionPolicy (tq_toolManifest q)))) (tl_inputPreview p)"
proof -
  let ?m = "tq_toolManifest q"
  let ?cs = "tm_requiredCapabilities ?m"
  let ?base = "createBasePlan env q ?m (hashToolInvocationInput (ke_sha256 env) (tq_proposedInput q))
    (redactToolInvocationInput (ke_lower env) rt (tq_proposedInput q) (rp_secretKeys (tm_redactionPolicy ?m)))"
  from planned_parts [OF assms] obtain results accepted rejected where
    parts: "RegisteredToolManifestSchema ?m" "collectKernelIntegrityReasons q = []"
      "map_res (\<lambda>scope. explainCapabilityDecision (ke_date env) (ke_dateNow env) (tq_capabilityGrants q) scope
         (tool_check_options q)) ?cs = Inr results"
      "explainToolSandboxPolicyMismatch (deriveSandboxProfile (tm_sideEffectClass ?m)) (tp_sandbox (tq_policyDecision q)) = Inr None"
      "\<forall>r \<in> set results. js ''matched_deny_scope'' \<notin> set (cr_reasons r)"
      "evaluateApprovalPermits env q ?cs = Inr (accepted, rejected)"
      "p = permit_outcome q ?base results accepted rejected" by metis
  have f: "tl_requiredCapabilities p = ?cs" "tl_sandboxProfile p = deriveSandboxProfile (tm_sideEffectClass ?m)"
    "tl_inputPreview p = redactToolInvocationInput (ke_lower env) rt (tq_proposedInput q) (rp_secretKeys (tm_redactionPolicy ?m))"
    "tl_approvalRequired ?base \<longleftrightarrow> pd_approvalRequired (tq_policyDecision q) \<or> isDangerousSideEffectClass (tm_sideEffectClass ?m)"
    by (simp_all add: parts(7) outcome_fields createBasePlan_def)
  note o = outcome_planned [OF assms(2) [unfolded parts(7)]]
  have permitted: "tool_permitted env q ?cs" if ne: "accepted \<noteq> []"
  proof -
    from ne obtain i where "i \<in> set accepted" by (cases accepted) auto
    from sort_permits_spec [OF parts(6) [unfolded evaluateApprovalPermits_def] this] show ?thesis
      unfolding tool_permitted_def by (auto simp: tool_permit_context_def)
  qed
  have "\<not> tool_denied env q c" if "c \<in> set ?cs" for c
    using tool_results [OF parts(3) that] parts(5) by metis
  moreover have "tool_granted env q c" if "c \<in> set ?cs" "\<forall>r \<in> set results. cr_allowed r" for c
    using tool_results [OF parts(3) that(1)] that(2) by metis
  moreover have "secrets_hidden (ke_lower env) (createSecretKeySet (ke_lower env) (rp_secretKeys (tm_redactionPolicy ?m)))
      (tl_inputPreview p)"
    unfolding f(3) redactToolInvocationInput_def by (rule redact_fields_hidden)
  ultimately show ?thesis
    using parts(1,4) parts(2) [unfolded integrity_Nil] f(1,2,4) o permitted by metis
qed

section \<open>A permit stands in for a missing grant\<close>

definition demo_tool :: tool_manifest where
  "demo_tool = (manifest_with_defaults builtinApplyPatchToolManifest)
     \<lparr>tm_requiredCapabilities := [js ''fs.write:src/**'']\<rparr>"

definition demo_request :: tool_request where
  "demo_request = \<lparr>tq_run = ev_run demo_eligibility,
     tq_step = \<lparr>s_stepId = js ''s'', s_runId = js ''r'', s_taskId = js ''t'', s_kind = ToolStep,
       s_status = StepRunning, s_dependsOn = [], s_createdAt = js ''a'', s_updatedAt = js ''a'',
       s_input = [], s_output = None\<rparr>,
     tq_toolManifest = demo_tool, tq_proposedInput = JObj [(js ''patch'', JStr (js ''p''))],
     tq_principal = ev_principal demo_eligibility, tq_capabilityGrants = [],
     tq_approvalPermits = [demo_permit],
     tq_policyDecision = policy_decision.extend (ev_policyDecision demo_eligibility)
       (tool_policy.fields (js ''d1'') (js ''t'') [] wide_sandbox),
     tq_planHash = js ''h'', tq_now = js ''a''\<rparr>"

lemma demo_tool_valid: "RegisteredToolManifestSchema demo_tool"
  using default_valid by (simp add: demo_tool_def defaultToolManifests_def RegisteredToolManifestSchema_def
      manifest_refinement_def manifest_with_defaults_def builtinApplyPatchToolManifest_def)

lemma demo_request_permit:
  "evaluateApprovalPermits demo_env demo_request [js ''fs.write:src/**''] = Inr ([js ''p1''], [])"
proof -
  let ?ctx = "tool_permit_context demo_env demo_request [js ''fs.write:src/**'']"
  note p = created_fields [OF demo_permit_created]
  have scopes: "getCapabilityScopes demo_permit = Inr [js ''fs.write:src/**'']"
    by (simp add: getCapabilityScopes_def p demo_input_def)
  then obtain v where v: "validateApprovalPermit demo_clock demo_permit ?ctx = Inr v"
    by (simp add: validateApprovalPermit_def Let_def)
  have "permit_in_force demo_clock demo_permit ?ctx"
    by (simp add: permit_in_force_def tool_permit_context_def p demo_input_def demo_request_def demo_eligibility_def
        demo_env_def demo_clock_def getPolicyDecisionHash_def truthy_def hashApprovalScope_def)
  moreover have "capabilityImplies (js ''fs.write:src/**'') (js ''fs.write:src/**'') = Inr True" by code_simp
  ultimately have "pv_valid v" using validate_iff [OF v] scopes by (simp add: tool_permit_context_def)
  with v p show ?thesis by (simp add: evaluateApprovalPermits_def demo_request_def demo_env_def demo_input_def)
qed

lemma demo_request_fields:
  "tm_requiredCapabilities demo_tool = [js ''fs.write:src/**'']" "tm_sideEffectClass demo_tool = SideLocalWrite"
  "tp_sandbox (tq_policyDecision demo_request) = wide_sandbox" "tq_capabilityGrants demo_request = []"
  "tq_toolManifest demo_request = demo_tool" "collectKernelIntegrityReasons demo_request = []"
  unfolding integrity_Nil
  by (simp_all add: demo_tool_def demo_request_def demo_eligibility_def manifest_with_defaults_def
      builtinApplyPatchToolManifest_def policy_decision.defs tool_policy.defs)

text \<open>
  There is no grant at all, and the invocation of a tool that writes files is planned: the planner
  takes a permit for the capability, where \<open>execution-eligibility\<close> answers
  \<open>approval_permit_cannot_expand_capability\<close>.
\<close>

lemma permit_replaces_missing_capability:
  "\<exists>p. planToolInvocation demo_env (\<lambda>ks s. s) demo_request = Inr p \<and> tl_status p = Planned \<and>
     tl_requiredCapabilities p = [js ''fs.write:src/**''] \<and>
     \<not> tool_granted demo_env demo_request (js ''fs.write:src/**'')"
proof -
  have none: "tool_grants demo_env demo_request = {}" by (simp add: demo_request_fields usable_scopes_def)
  have "parseCapabilityScope (js ''fs.write:src/**'') \<noteq> Inl e" for e
    using kernel_scope_spec by (metis demo_checks(3) explain_unparsed(1))
  then obtain g where g: "parseCapabilityScope (js ''fs.write:src/**'') = Inr g"
    by (cases "parseCapabilityScope (js ''fs.write:src/**'')") auto
  then obtain r where r: "explainCapabilityDecision (ke_date demo_env) (ke_dateNow demo_env) []
      (js ''fs.write:src/**'') (tool_check_options demo_request) = Inr r"
    by (auto simp: explainCapabilityDecision_def)
  have d: "js ''matched_deny_scope'' \<notin> set (cr_reasons r)"
    using explain_parsed(1) [OF g r] none by (simp add: demo_request_fields)
  have sandbox: "explainToolSandboxPolicyMismatch (deriveSandboxProfile SideLocalWrite) wide_sandbox = Inr None"
    by code_simp
  have dangerous: "isDangerousSideEffectClass SideLocalWrite" by (simp add: isDangerousSideEffectClass_def)
  have "\<exists>p. planToolInvocation demo_env (\<lambda>ks s. s) demo_request = Inr p \<and> tl_status p = Planned \<and>
      tl_requiredCapabilities p = [js ''fs.write:src/**'']"
    unfolding planToolInvocation_def Let_def demo_request_fields zod_parse_ok [of RegisteredToolManifestSchema, OF demo_tool_valid]
      bind_res_simps
    using r d sandbox demo_request_permit
    by (simp add: createBasePlan_def demo_request_fields permit_outcome_def Let_def)
  then show ?thesis using none by (auto simp: tool_granted_def)
qed

theorem planned_invocation_safe_witness:
  "\<exists>p. planToolInvocation demo_env (\<lambda>ks s. s) demo_request = Inr p \<and>
     tool_permitted demo_env demo_request (tl_requiredCapabilities p)"
proof -
  from permit_replaces_missing_capability obtain p where
    p: "planToolInvocation demo_env (\<lambda>ks s. s) demo_request = Inr p" "tl_status p = Planned" by blast
  have "isDangerousSideEffectClass (tm_sideEffectClass (tq_toolManifest demo_request))"
    by (simp add: demo_request_fields isDangerousSideEffectClass_def)
  with planned_invocation_safe [OF p] p(1) show ?thesis by blast
qed

end
