(* ===== verification/RoutingContracts.thy ===== *)
theory RoutingContracts
  imports Complex_Main JsText JsRegex
begin

text \<open>
  The vocabulary of the router: \<open>packages/contracts/src/index.ts\<close> (task envelopes, intent
  classifications, routing and approval decisions, runtime signals), the policy snapshot of
  \<open>packages/policy-config/src/index.ts\<close> and the execution profiles of
  \<open>packages/execution-profiles/src/index.ts\<close>. Scores between 0 and 1 are the rational values of the
  doubles in the code: the router compares them and never computes with them beyond what is exact.
\<close>

section \<open>Enumerations\<close>

datatype task_class = TcReadOnly | TcSmallEdit | TcEngineering | TcHighRisk | TcRelease
datatype risk_level = LevelLow | LevelMedium | LevelHigh
datatype model_id = Gpt54Mini | Gpt54 | Gpt53Spark | Gpt53Codex | Gpt51Max
datatype tool_access = AccessReadOnly | AccessLocalWrite | AccessEngineeringWrite | AccessProtectedRemote
datatype profile_name = ReconOnly | ClarifyThenPlan | EngineeringProfile | HighRiskChange | ReleaseGovernance
datatype approval_status = ApprovalNotRequired | ApprovalPending | ApprovalApproved | ApprovalRejected | ApprovalExpired
datatype reasoning_effort = EffortLow | EffortMedium | EffortHigh
datatype event_type = AttemptFailed | AttemptSucceeded | ScopeExpanded | ContextPressure | ValidationFailed
  | ValidationPassed | RiskDetected
datatype agent_role = Analyst | Architect | Worker | Reviewer
datatype envelope_source = FromDesktopThread | FromDesktopAutomation | FromCli | FromApi
datatype host_route = DesktopRoute | CodexCliRoute
datatype parallelism_mode = ParallelDisabled | ParallelReadOnly | ParallelOwnedWrite
datatype rollout_mode = DesktopFirst | Shadow | EnforcedLocal | ProtectedRemoteRollout
datatype envelope_hint_field = FieldTaskClassHint | FieldRiskHints | FieldTags
datatype envelope_hint_source = SrcUser | SrcAgent | SrcSystem | SrcPolicy | SrcOperator | SrcMemory | SrcLegacy | SrcUnknown
datatype provider_side_effect = PseNone | PseRead | PseReadOnly | PseLocalWrite | PseWorkspaceWrite | PseLocalCommand
  | PseExternalWrite | PseExternalSideEffects | PseProtectedRemote | PseDestructive | PseSecretAccess | PseUnknown
datatype grant_sandbox = GrantReadOnly | GrantWorkspaceWrite
datatype grant_provider_kind = GpkModel | GpkExecutor | GpkTool | GpkRemoteAgent | GpkUnknown

definition task_class_name :: "task_class \<Rightarrow> str" where
  "task_class_name c = (case c of TcReadOnly \<Rightarrow> js ''read_only'' | TcSmallEdit \<Rightarrow> js ''small_edit''
     | TcEngineering \<Rightarrow> js ''engineering'' | TcHighRisk \<Rightarrow> js ''high_risk''
     | TcRelease \<Rightarrow> js ''release_external_action'')"

definition tool_access_name :: "tool_access \<Rightarrow> str" where
  "tool_access_name a = (case a of AccessReadOnly \<Rightarrow> js ''read_only'' | AccessLocalWrite \<Rightarrow> js ''local_write''
     | AccessEngineeringWrite \<Rightarrow> js ''engineering_write'' | AccessProtectedRemote \<Rightarrow> js ''protected_remote'')"

definition hint_source_name :: "envelope_hint_source \<Rightarrow> str" where
  "hint_source_name s = (case s of SrcUser \<Rightarrow> js ''user'' | SrcAgent \<Rightarrow> js ''agent'' | SrcSystem \<Rightarrow> js ''system''
     | SrcPolicy \<Rightarrow> js ''policy'' | SrcOperator \<Rightarrow> js ''operator'' | SrcMemory \<Rightarrow> js ''memory''
     | SrcLegacy \<Rightarrow> js ''legacy'' | SrcUnknown \<Rightarrow> js ''unknown'')"

definition host_route_name :: "host_route \<Rightarrow> str" where
  "host_route_name r = (case r of DesktopRoute \<Rightarrow> js ''desktop'' | CodexCliRoute \<Rightarrow> js ''codex-cli'')"

section \<open>Task envelopes\<close>

record envelope_intent =
  tn_summary :: str
  tn_requestedAction :: str
  tn_successCriteria :: "str list"
  tn_outOfScope :: "str list"

record repo_context =
  rc_repoRoot :: "str option"
  rc_branch :: "str option"
  rc_worktreeClean :: "bool option"
  rc_protectedBranch :: "bool option"

record envelope_target =
  tt_branches :: "str list"
  tt_files :: "str list"
  tt_modules :: "str list"

record envelope_constraints =
  tc_requiresNetwork :: "bool option"
  tc_explicitOwnership :: "bool option"
  tc_allowBackgroundAutomation :: "bool option"

record envelope_provenance =
  hp_field :: envelope_hint_field
  hp_value :: str
  hp_source :: envelope_hint_source
  hp_reason :: "str option"
  hp_createdAt :: "str option"

record envelope_hints =
  eh_taskClassHint :: "task_class option"
  eh_riskHints :: "str list"
  eh_tags :: "str list"
  eh_provenance :: "envelope_provenance list"

record task_envelope =
  te_taskId :: str
  te_source :: envelope_source
  te_intent :: envelope_intent
  te_repoContext :: repo_context
  te_target :: envelope_target
  te_constraints :: envelope_constraints
  te_hints :: envelope_hints

definition TaskEnvelopeSchema :: "task_envelope \<Rightarrow> bool" where
  "TaskEnvelopeSchema t \<longleftrightarrow> te_taskId t \<noteq> [] \<and> tn_summary (te_intent t) \<noteq> [] \<and> tn_requestedAction (te_intent t) \<noteq> [] \<and>
     opt_all (\<lambda>s. s \<noteq> []) (rc_repoRoot (te_repoContext t)) \<and> opt_all (\<lambda>s. s \<noteq> []) (rc_branch (te_repoContext t)) \<and>
     list_all (\<lambda>p. hp_value p \<noteq> [] \<and> opt_all (\<lambda>s. s \<noteq> []) (hp_reason p) \<and> opt_all (\<lambda>s. s \<noteq> []) (hp_createdAt p))
       (eh_provenance (te_hints t))"

definition parseTaskEnvelope :: "task_envelope \<Rightarrow> err + task_envelope" where
  "parseTaskEnvelope t = zod_parse TaskEnvelopeSchema t"

text \<open>\<open>`${task.intent.summary} ${task.intent.requestedAction}`.toLowerCase()\<close>.\<close>

definition task_haystack :: "(str \<Rightarrow> str) \<Rightarrow> task_envelope \<Rightarrow> str" where
  "task_haystack lower t = lower (tn_summary (te_intent t) @ js '' '' @ tn_requestedAction (te_intent t))"

section \<open>Decisions\<close>

record intent_classification =
  ic_taskClass :: task_class
  ic_ambiguityScore :: rat
  ic_clarificationRequired :: bool
  ic_ambiguityReasons :: "str list"
  ic_recommendedProfile :: profile_name

record provider_grant =
  pg_grantId :: str
  pg_providerId :: str
  pg_providerKind :: grant_provider_kind
  pg_manifestHash :: "str option"
  pg_sideEffectClass :: provider_side_effect
  pg_toolAccess :: tool_access
  pg_sandboxMode :: grant_sandbox
  pg_approvalRequired :: bool
  pg_requiredApprovals :: "str list"
  pg_reasons :: "str list"

record routing_classification =
  rcl_taskClass :: task_class
  rcl_riskLevel :: risk_level
  rcl_ambiguityScore :: rat
  rcl_clarificationRequired :: bool
  rcl_riskFactors :: "str list"

record routing_execution =
  rex_selectedModel :: model_id
  rex_toolAccess :: tool_access
  rex_executionProfile :: profile_name
  rex_reasoningEffort :: reasoning_effort

record routing_approval =
  rap_required :: bool
  rap_reasons :: "str list"

record routing_parallelism =
  rpa_allowed :: bool
  rpa_maxAgents :: int
  rpa_mode :: parallelism_mode

record routing_decision =
  rd_decisionId :: str
  rd_taskId :: str
  rd_policyVersion :: str
  rd_classification :: routing_classification
  rd_execution :: routing_execution
  rd_approval :: routing_approval
  rd_parallelism :: routing_parallelism
  rd_hostRoute :: host_route
  rd_providerGrant :: "provider_grant option"

record approval_decision =
  av_status :: approval_status
  av_reasons :: "str list"
  av_gateId :: "str option"

record runtime_signal =
  rs_taskId :: str
  rs_eventType :: event_type
  rs_failureCount :: int
  rs_contextPressure :: "rat option"
  rs_details :: "str list"

definition RuntimeSignalSchema :: "runtime_signal \<Rightarrow> bool" where
  "RuntimeSignalSchema s \<longleftrightarrow> rs_taskId s \<noteq> [] \<and> 0 \<le> rs_failureCount s \<and>
     opt_all (\<lambda>x. 0 \<le> x \<and> x \<le> 1) (rs_contextPressure s)"

section \<open>Policies and profiles\<close>

record approval_rules =
  ar_protectedBranches :: "str list"
  ar_protectedKeywords :: "str list"
  ar_protectedToolAccess :: "tool_access list"

record escalation_rules =
  er_failureThreshold :: int
  er_contextPressureThreshold :: rat
  er_highRiskSticky :: bool

text \<open>The tables map task classes; a missing entry is \<open>undefined\<close>.\<close>

record policy_snapshot =
  ps_policyVersion :: str
  ps_rolloutMode :: rollout_mode
  ps_models :: "(task_class \<times> model_id) list"
  ps_toolPolicies :: "(task_class \<times> tool_access) list"
  ps_executionProfiles :: "(task_class \<times> profile_name) list"
  ps_hostRoutes :: "(task_class \<times> host_route) list"
  ps_approvalRules :: approval_rules
  ps_escalationRules :: escalation_rules

definition REQUIRED_TASK_CLASSES :: "task_class list" where
  "REQUIRED_TASK_CLASSES = [TcReadOnly, TcSmallEdit, TcEngineering, TcHighRisk, TcRelease]"

definition PolicySnapshotSchema :: "policy_snapshot \<Rightarrow> bool" where
  "PolicySnapshotSchema p \<longleftrightarrow> ps_policyVersion p \<noteq> [] \<and>
     list_all (\<lambda>s. s \<noteq> []) (ar_protectedBranches (ps_approvalRules p)) \<and>
     list_all (\<lambda>s. s \<noteq> []) (ar_protectedKeywords (ps_approvalRules p)) \<and>
     0 < er_failureThreshold (ps_escalationRules p) \<and>
     0 \<le> er_contextPressureThreshold (ps_escalationRules p) \<and> er_contextPressureThreshold (ps_escalationRules p) \<le> 1 \<and>
     list_all (\<lambda>c. map_of (ps_hostRoutes p) c \<noteq> None) REQUIRED_TASK_CLASSES"

record execution_profile =
  ep_name :: profile_name
  ep_stages :: "str list"
  ep_defaultRole :: agent_role
  ep_defaultToolAccess :: tool_access
  ep_allowParallel :: bool
  ep_maxParallelAgents :: int

definition profile_of ::
  "profile_name \<Rightarrow> string list \<Rightarrow> agent_role \<Rightarrow> tool_access \<Rightarrow> bool \<Rightarrow> int \<Rightarrow> execution_profile" where
  "profile_of n stages role access par maxAgents =
     \<lparr>ep_name = n, ep_stages = map js stages, ep_defaultRole = role, ep_defaultToolAccess = access,
      ep_allowParallel = par, ep_maxParallelAgents = maxAgents\<rparr>"

definition getExecutionProfile :: "profile_name \<Rightarrow> execution_profile" where
  "getExecutionProfile n = (case n of
     ReconOnly \<Rightarrow> profile_of n [''recon'', ''summarize''] Analyst AccessReadOnly True 3
   | ClarifyThenPlan \<Rightarrow> profile_of n [''clarify'', ''plan''] Architect AccessReadOnly False 1
   | EngineeringProfile \<Rightarrow>
       profile_of n [''recon'', ''plan'', ''build'', ''validate''] Worker AccessEngineeringWrite True 2
   | HighRiskChange \<Rightarrow>
       profile_of n [''recon'', ''impact-review'', ''approval'', ''build'', ''validate''] Reviewer
         AccessEngineeringWrite False 1
   | ReleaseGovernance \<Rightarrow>
       profile_of n [''recon'', ''impact-review'', ''approval'', ''verify'', ''handoff''] Reviewer
         AccessProtectedRemote False 1)"

end
