(* ===== verification/IntentGate.thy ===== *)
theory IntentGate
  imports RoutingContracts
begin

text \<open>
  The intent gate, \<open>packages/intent-gate/src/index.ts\<close>: the class of a task is read off the words of its
  summary and requested action; a hint may raise it, lower it only when a trusted source gave it and no
  word decided, and ambiguity asks for clarification. \<open>toLowerCase\<close> is the argument \<open>lower\<close>. The Chinese
  keywords are given by their code units.
\<close>

section \<open>Keywords\<close>

definition HIGH_RISK_KEYWORDS :: "str list" where
  "HIGH_RISK_KEYWORDS = map js [''auth'', ''authentication'', ''authorization'', ''permission'', ''billing'',
     ''payment'', ''secret'', ''env'', ''production'', ''database'', ''migration'', ''delete''] @
   [[0x5220, 0x9664], [0x79FB, 0x9664], [0x91CD, 0x547D, 0x540D], [0x6743, 0x9650], [0x51ED, 0x8BC1],
    [0x5BC6, 0x94A5], [0x79C1, 0x94A5], [0x73AF, 0x5883, 0x53D8, 0x91CF], [0x751F, 0x4EA7],
    [0x7F51, 0x7EDC], [0x5916, 0x90E8]]"

definition RELEASE_KEYWORDS :: "str list" where
  "RELEASE_KEYWORDS = map js [''release'', ''merge'', ''push'', ''prod/stable'', ''main''] @
   [[0x53D1, 0x5E03], [0x90E8, 0x7F72], [0x4E0A, 0x7EBF], [0x63A8, 0x9001], [0x5408, 0x5E76]]"

definition ENGINEERING_KEYWORDS :: "str list" where
  "ENGINEERING_KEYWORDS = map js [''implement'', ''multi-file'', ''refactor''] @
   [[0x5B9E, 0x73B0], [0x91CD, 0x6784], [0x591A, 0x6587, 0x4EF6]]"

definition SMALL_EDIT_KEYWORDS :: "str list" where
  "SMALL_EDIT_KEYWORDS = map js [''rename'', ''typo'', ''copy'', ''comment'', ''single file'', ''small fix''] @
   [[0x5355, 0x6587, 0x4EF6], [0x5C0F, 0x4FEE, 0x6539], [0x9519, 0x522B, 0x5B57]]"

definition READ_ONLY_KEYWORDS :: "str list" where
  "READ_ONLY_KEYWORDS = map js [''explain'', ''review'', ''summarize'', ''inspect'', ''analyze'', ''read''] @
   [[0x89E3, 0x91CA], [0x5BA1, 0x67E5], [0x603B, 0x7ED3], [0x68C0, 0x67E5], [0x5206, 0x6790],
    [0x8BFB, 0x53D6], [0x53EA, 0x8BFB]]"

definition AMBIGUOUS_SHORTCUTS :: "str list" where
  "AMBIGUOUS_SHORTCUTS = map js [''continue'', ''do it'', ''fix it'', ''that one'', ''same as before''] @
   [[0x7EE7, 0x7EED], [0x7167, 0x505A], [0x5C31, 0x8FD9, 0x6837], [0x4FEE, 0x4E00, 0x4E0B]]"

text \<open>\<open>/^[a-z0-9_]+$/i\<close>, and a word of the text that is the keyword.\<close>

definition ascii_fold_eq :: "cu \<Rightarrow> cu \<Rightarrow> bool" where
  "ascii_fold_eq a b \<longleftrightarrow> (if is_upper a then a + 32 else a) = (if is_upper b then b + 32 else b)"

definition plain_word :: "str \<Rightarrow> bool" where
  "plain_word w \<longleftrightarrow> w \<noteq> [] \<and> list_all word_char w"

definition word_pattern :: "str \<Rightarrow> matcher" where
  "word_pattern keyword = rx_seq (rx_alt rx_start (rx_char (\<lambda>c. \<not> word_char c)))
     (rx_seq (rx_text ascii_fold_eq keyword) (rx_alt rx_end (rx_char (\<lambda>c. \<not> word_char c))))"

definition containsKeyword :: "str \<Rightarrow> str \<Rightarrow> bool" where
  "containsKeyword haystack keyword =
     (if \<not> plain_word keyword then str_includes haystack keyword
      else regex_test (word_pattern keyword) haystack)"

definition any_keyword :: "str \<Rightarrow> str list \<Rightarrow> bool" where
  "any_keyword haystack keywords = list_ex (containsKeyword haystack) keywords"

section \<open>Classification\<close>

definition TASK_CLASS_RANK :: "task_class \<Rightarrow> nat" where
  "TASK_CLASS_RANK c = (case c of TcReadOnly \<Rightarrow> 0 | TcSmallEdit \<Rightarrow> 1 | TcEngineering \<Rightarrow> 2
     | TcHighRisk \<Rightarrow> 3 | TcRelease \<Rightarrow> 4)"

definition TRUSTED_HINT_SOURCES :: "str list" where
  "TRUSTED_HINT_SOURCES = map js [''system'', ''policy'', ''operator'']"

text \<open>\<open>matchedTaskClass\<close>.\<close>

definition matched_class :: "str \<Rightarrow> task_class option" where
  "matched_class haystack =
     (if any_keyword haystack RELEASE_KEYWORDS then Some TcRelease
      else if any_keyword haystack HIGH_RISK_KEYWORDS then Some TcHighRisk
      else if any_keyword haystack ENGINEERING_KEYWORDS then Some TcEngineering
      else if any_keyword haystack SMALL_EDIT_KEYWORDS then Some TcSmallEdit
      else if any_keyword haystack READ_ONLY_KEYWORDS then Some TcReadOnly
      else None)"

record hint_trust =
  ht_canSetNeutralClass :: bool
  ht_sources :: "str list"

definition classifyTaskClassHintTrust :: "task_envelope \<Rightarrow> task_class \<Rightarrow> hint_trust" where
  "classifyTaskClassHintTrust task hint =
     (let provenance = filter (\<lambda>e. hp_field e = FieldTaskClassHint \<and> hp_value e = task_class_name hint)
            (eh_provenance (te_hints task));
          sources = sort (uniq (map (hint_source_name \<circ> hp_source) provenance))
      in if provenance = [] then \<lparr>ht_canSetNeutralClass = False, ht_sources = [js ''unspecified'']\<rparr>
         else \<lparr>ht_canSetNeutralClass = list_ex (\<lambda>s. s \<in> set TRUSTED_HINT_SOURCES) sources, ht_sources = sources\<rparr>)"

text \<open>What a hint that differs from the class so far does to the class and to the reasons.\<close>

definition apply_hint :: "task_envelope \<Rightarrow> task_class option \<Rightarrow> task_class \<Rightarrow> task_class \<times> str list" where
  "apply_hint task matched taskClass =
     (case eh_taskClassHint (te_hints task) of None \<Rightarrow> (taskClass, [])
      | Some hint \<Rightarrow>
        (if hint = taskClass then (taskClass, [])
         else let trust = classifyTaskClassHintTrust task hint;
                  higher = TASK_CLASS_RANK taskClass < TASK_CLASS_RANK hint
           in if matched = None
              then (if ht_canSetNeutralClass trust \<or> higher then (hint, [])
                    else (taskClass, [js ''task_class_hint_untrusted:'' @ join_with (js ''+'') (ht_sources trust) @
                           js '':'' @ task_class_name hint]))
              else (if higher then hint else taskClass,
                    [js ''task_class_hint_conflict:'' @ task_class_name hint @ js '':'' @ task_class_name taskClass])))"

definition taskClassToProfile :: "task_class \<Rightarrow> bool \<Rightarrow> profile_name" where
  "taskClassToProfile c clarificationRequired =
     (if clarificationRequired then ClarifyThenPlan
      else case c of TcReadOnly \<Rightarrow> ReconOnly | TcHighRisk \<Rightarrow> HighRiskChange | TcRelease \<Rightarrow> ReleaseGovernance
        | TcEngineering \<Rightarrow> EngineeringProfile | TcSmallEdit \<Rightarrow> EngineeringProfile)"

text \<open>
  The double \<open>0.35\<close>. Up to two reasons the product is exact, from three on it exceeds 1, so the score
  is the rational minimum below.
\<close>

definition D035 :: rat where "D035 = 6305039478318694 / 2 ^ 54"

definition ambiguity_score :: "nat \<Rightarrow> rat" where
  "ambiguity_score n = min 1 (of_nat n * D035)"

definition buildClassification :: "task_class \<Rightarrow> rat \<Rightarrow> str list \<Rightarrow> bool \<Rightarrow> intent_classification" where
  "buildClassification c score reasons clarificationRequired =
     \<lparr>ic_taskClass = c, ic_ambiguityScore = score, ic_clarificationRequired = clarificationRequired,
      ic_ambiguityReasons = reasons, ic_recommendedProfile = taskClassToProfile c clarificationRequired\<rparr>"

definition classify_envelope :: "(str \<Rightarrow> str) \<Rightarrow> task_envelope \<Rightarrow> intent_classification" where
  "classify_envelope lower task =
     (let haystack = task_haystack lower task;
          matched = matched_class haystack;
          neutral = (case matched of None \<Rightarrow> TcEngineering | Some c \<Rightarrow> c);
          (taskClass, hint_reasons) = apply_hint task matched neutral;
          reasons =
            (if length (trim (tn_summary (te_intent task))) < 12 then [js ''summary_too_short''] else []) @
            (if any_keyword haystack AMBIGUOUS_SHORTCUTS then [js ''context_dependent_shortcut''] else []) @
            hint_reasons @
            (if taskClass \<noteq> TcReadOnly \<and> tt_files (te_target task) = [] \<and> rc_repoRoot (te_repoContext task) = None
             then [js ''missing_target_surface''] else []);
          score = ambiguity_score (length reasons)
      in buildClassification taskClass score reasons (1 / 2 \<le> score))"

definition classifyIntent :: "(str \<Rightarrow> str) \<Rightarrow> task_envelope \<Rightarrow> err + intent_classification" where
  "classifyIntent lower taskInput =
     bind_res (parseTaskEnvelope taskInput) (\<lambda>task. Inr (classify_envelope lower task))"

section \<open>What the class rests on\<close>

lemma ambiguity_half: "1 / 2 \<le> ambiguity_score n \<longleftrightarrow> 2 \<le> n"
proof -
  have "ambiguity_score n = (if n = 0 then 0 else if n = 1 then D035 else min 1 (of_nat n * D035))"
    by (auto simp: ambiguity_score_def D035_def)
  moreover have "1 / 2 \<le> min 1 (of_nat n * D035)" if "2 \<le> n"
  proof -
    have "2 * D035 \<le> of_nat n * D035" using that by (intro mult_right_mono) (auto simp: D035_def)
    then show ?thesis by (auto simp: D035_def min_def)
  qed
  ultimately show ?thesis by (auto simp: D035_def)
qed

lemma ambiguity_score_range: "0 \<le> ambiguity_score n \<and> ambiguity_score n \<le> 1"
  by (auto simp: ambiguity_score_def D035_def)

lemma trusted_source:
  "hint_source_name s \<in> set TRUSTED_HINT_SOURCES \<longleftrightarrow> s \<in> {SrcSystem, SrcPolicy, SrcOperator}"
  by (cases s) (simp_all add: hint_source_name_def TRUSTED_HINT_SOURCES_def)

lemma hint_trusted:
  "ht_canSetNeutralClass (classifyTaskClassHintTrust task hint) \<longleftrightarrow>
     (\<exists>e \<in> set (eh_provenance (te_hints task)). hp_field e = FieldTaskClassHint \<and>
        hp_value e = task_class_name hint \<and> hp_source e \<in> {SrcSystem, SrcPolicy, SrcOperator})"
  by (auto simp: classifyTaskClassHintTrust_def Let_def list_ex_iff trusted_source filter_empty_conv
      simp del: insert_iff)

definition hint_vouched :: "task_envelope \<Rightarrow> task_class \<Rightarrow> bool" where
  "hint_vouched task c \<longleftrightarrow> eh_taskClassHint (te_hints task) = Some c \<and>
     (\<exists>e \<in> set (eh_provenance (te_hints task)). hp_field e = FieldTaskClassHint \<and>
        hp_value e = task_class_name c \<and> hp_source e \<in> {SrcSystem, SrcPolicy, SrcOperator})"

lemma apply_hint_class:
  "fst (apply_hint task matched c) = c \<or>
     (eh_taskClassHint (te_hints task) = Some (fst (apply_hint task matched c)) \<and>
       (TASK_CLASS_RANK c < TASK_CLASS_RANK (fst (apply_hint task matched c)) \<or>
        matched = None \<and> hint_vouched task (fst (apply_hint task matched c))))"
  by (auto simp: apply_hint_def Let_def hint_trusted hint_vouched_def split: option.splits)

lemma class_facts:
  assumes "classifyIntent lower task = Inr d"
  shows "any_keyword (task_haystack lower task) RELEASE_KEYWORDS \<Longrightarrow> ic_taskClass d = TcRelease"
    "any_keyword (task_haystack lower task) HIGH_RISK_KEYWORDS \<Longrightarrow> ic_taskClass d \<in> {TcHighRisk, TcRelease}"
    "matched_class (task_haystack lower task) = Some c \<Longrightarrow> TASK_CLASS_RANK c \<le> TASK_CLASS_RANK (ic_taskClass d)"
    "ic_taskClass d \<in> {TcReadOnly, TcSmallEdit} \<Longrightarrow>
      matched_class (task_haystack lower task) \<noteq> None \<or> hint_vouched task (ic_taskClass d)"
    "ic_clarificationRequired d \<longleftrightarrow> 2 \<le> length (ic_ambiguityReasons d)"
    "ic_recommendedProfile d = ClarifyThenPlan \<longleftrightarrow> ic_clarificationRequired d"
    "0 \<le> ic_ambiguityScore d \<and> ic_ambiguityScore d \<le> 1"
proof -
  let ?h = "task_haystack lower task"
  let ?m = "matched_class ?h"
  let ?n = "case ?m of None \<Rightarrow> TcEngineering | Some c \<Rightarrow> c"
  let ?c = "fst (apply_hint task ?m ?n)"
  from assms have d: "d = classify_envelope lower task" by (auto simp: classifyIntent_def bind_res_Inr parseTaskEnvelope_def)
  have "\<exists>reasons. d = buildClassification ?c (ambiguity_score (length reasons)) reasons
      (1 / 2 \<le> ambiguity_score (length reasons))"
    unfolding d classify_envelope_def Let_def case_prod_beta by (rule exI, rule refl)
  then obtain reasons where e: "d = buildClassification ?c (ambiguity_score (length reasons)) reasons
      (1 / 2 \<le> ambiguity_score (length reasons))" by blast
  note f = arg_cong [OF e, of ic_taskClass] arg_cong [OF e, of ic_clarificationRequired]
    arg_cong [OF e, of ic_ambiguityReasons] arg_cong [OF e, of ic_recommendedProfile] arg_cong [OF e, of ic_ambiguityScore]
  note a = apply_hint_class [of task ?m ?n]
  have rank: "TASK_CLASS_RANK x \<le> TASK_CLASS_RANK ?c" if "?m = Some x" for x
    using a that by auto
  have release: "?c = TcRelease" if "?m = Some TcRelease"
    using rank [OF that] by (cases ?c) (simp_all add: TASK_CLASS_RANK_def)
  have high: "?c \<in> {TcHighRisk, TcRelease}" if "?m \<in> {Some TcHighRisk, Some TcRelease}"
    using that rank [of TcHighRisk] rank [of TcRelease] by (cases ?c) (auto simp: TASK_CLASS_RANK_def)
  have low: "hint_vouched task ?c" if "?m = None" "?c \<in> {TcReadOnly, TcSmallEdit}"
    using a that by (auto simp: TASK_CLASS_RANK_def)
  have prof: "taskClassToProfile x b = ClarifyThenPlan \<longleftrightarrow> b" for x b
    by (cases x) (simp_all add: taskClassToProfile_def)
  have words: "any_keyword ?h RELEASE_KEYWORDS \<Longrightarrow> ?m = Some TcRelease"
    "any_keyword ?h HIGH_RISK_KEYWORDS \<Longrightarrow> ?m \<in> {Some TcHighRisk, Some TcRelease}"
    by (simp_all add: matched_class_def)
  have fields: "ic_taskClass d = ?c" "ic_clarificationRequired d \<longleftrightarrow> 2 \<le> length (ic_ambiguityReasons d)"
    "ic_recommendedProfile d = ClarifyThenPlan \<longleftrightarrow> ic_clarificationRequired d"
    "0 \<le> ic_ambiguityScore d \<and> ic_ambiguityScore d \<le> 1"
    unfolding f buildClassification_def intent_classification.simps ambiguity_half prof
    using ambiguity_score_range [of "length reasons"] by blast+
  show "any_keyword ?h RELEASE_KEYWORDS \<Longrightarrow> ic_taskClass d = TcRelease"
    "any_keyword ?h HIGH_RISK_KEYWORDS \<Longrightarrow> ic_taskClass d \<in> {TcHighRisk, TcRelease}"
    "?m = Some c \<Longrightarrow> TASK_CLASS_RANK c \<le> TASK_CLASS_RANK (ic_taskClass d)"
    "ic_taskClass d \<in> {TcReadOnly, TcSmallEdit} \<Longrightarrow> ?m \<noteq> None \<or> hint_vouched task (ic_taskClass d)"
    unfolding fields(1) using words rank release high low by blast+
  show "ic_clarificationRequired d \<longleftrightarrow> 2 \<le> length (ic_ambiguityReasons d)"
    "ic_recommendedProfile d = ClarifyThenPlan \<longleftrightarrow> ic_clarificationRequired d"
    "0 \<le> ic_ambiguityScore d \<and> ic_ambiguityScore d \<le> 1" using fields by blast+
qed

text \<open>
  C23: Untrusted words cannot make a task look safer. The class is at least the one its words ask for,
  so a text with a release word is always a release, and one with a high-risk word at least high-risk;
  a class below engineering comes from a matching word or from a hint a system, policy or operator
  entry vouches for; two reasons of ambiguity ask for clarification, and only clarification leads to
  the plan-only profile.
\<close>

theorem class_not_understated:
  assumes "classifyIntent lower task = Inr d"
  shows "(\<forall>c. matched_class (task_haystack lower task) = Some c \<longrightarrow> TASK_CLASS_RANK c \<le> TASK_CLASS_RANK (ic_taskClass d)) \<and>
    (any_keyword (task_haystack lower task) RELEASE_KEYWORDS \<longrightarrow> ic_taskClass d = TcRelease) \<and>
    (any_keyword (task_haystack lower task) HIGH_RISK_KEYWORDS \<longrightarrow> ic_taskClass d \<in> {TcHighRisk, TcRelease}) \<and>
    (ic_taskClass d \<in> {TcReadOnly, TcSmallEdit} \<longrightarrow>
      matched_class (task_haystack lower task) \<noteq> None \<or> hint_vouched task (ic_taskClass d)) \<and>
    (ic_clarificationRequired d \<longleftrightarrow> 2 \<le> length (ic_ambiguityReasons d)) \<and>
    (ic_recommendedProfile d = ClarifyThenPlan \<longleftrightarrow> ic_clarificationRequired d) \<and>
    0 \<le> ic_ambiguityScore d \<and> ic_ambiguityScore d \<le> 1"
  using class_facts [OF assms] by blast

definition sly_task :: task_envelope where
  "sly_task = \<lparr>te_taskId = js ''t'', te_source = FromCli,
     te_intent = \<lparr>tn_summary = js ''Delete the old table'', tn_requestedAction = js ''go'',
       tn_successCriteria = [], tn_outOfScope = []\<rparr>,
     te_repoContext = \<lparr>rc_repoRoot = Some (js ''/r''), rc_branch = None, rc_worktreeClean = None, rc_protectedBranch = None\<rparr>,
     te_target = \<lparr>tt_branches = [], tt_files = [], tt_modules = []\<rparr>,
     te_constraints = \<lparr>tc_requiresNetwork = None, tc_explicitOwnership = None, tc_allowBackgroundAutomation = None\<rparr>,
     te_hints = \<lparr>eh_taskClassHint = Some TcReadOnly, eh_riskHints = [], eh_tags = [],
       eh_provenance = [\<lparr>hp_field = FieldTaskClassHint, hp_value = js ''read_only'', hp_source = SrcAgent,
         hp_reason = None, hp_createdAt = None\<rparr>]\<rparr>\<rparr>"

lemma sly_task_class:
  "any_keyword (task_haystack ascii_lower sly_task) HIGH_RISK_KEYWORDS"
proof -
  have "containsKeyword (task_haystack ascii_lower sly_task) (js ''delete'')" by code_simp
  moreover have "js ''delete'' \<in> set HIGH_RISK_KEYWORDS" by (simp add: HIGH_RISK_KEYWORDS_def)
  ultimately show ?thesis by (auto simp: any_keyword_def list_ex_iff)
qed

theorem class_not_understated_witness:
  "\<exists>d. classifyIntent ascii_lower sly_task = Inr d \<and> ic_taskClass d \<in> {TcHighRisk, TcRelease}"
proof -
  obtain d where d: "classifyIntent ascii_lower sly_task = Inr d"
    by (simp add: classifyIntent_def parseTaskEnvelope_def zod_parse_ok TaskEnvelopeSchema_def sly_task_def)
  with class_not_understated [OF d] sly_task_class show ?thesis by blast
qed

end
