(* ===== verification/Routing.thy ===== *)
theory Routing
  imports IntentGate
begin

text \<open>
  The router, \<open>packages/routing-engine/src/index.ts\<close>, the approval gate behind it,
  \<open>packages/governance-internal-approval-gate/src/index.ts\<close>, and the reconnaissance commands of
  \<open>packages/recon-policy/src/index.ts\<close>: from a classified task and a policy to model, tools, profile,
  host and approvals. The hash of the codex-cli manifest, a constant of another package, is the
  argument \<open>cli_hash\<close>.
\<close>

section \<open>Routing\<close>

definition missing_entry :: "string \<Rightarrow> task_class \<Rightarrow> err" where
  "missing_entry label c = Err (js ''Missing '' @ js label @ js '' for task class: '' @ task_class_name c)"

definition getTaskValue :: "(task_class \<times> 'a) list \<Rightarrow> task_class \<Rightarrow> string \<Rightarrow> err + 'a" where
  "getTaskValue source c label =
     (case map_of source c of None \<Rightarrow> Inl (missing_entry label c) | Some v \<Rightarrow> Inr v)"

definition resolveHostRoute :: "task_class \<Rightarrow> policy_snapshot \<Rightarrow> err + host_route" where
  "resolveHostRoute c policy = getTaskValue (ps_hostRoutes policy) c ''host route''"

definition scoreRisk :: "(str \<Rightarrow> str) \<Rightarrow> task_envelope \<Rightarrow> task_class \<Rightarrow> risk_level \<times> str list" where
  "scoreRisk lower task c =
     (let haystack = task_haystack lower task; factors = [js ''task_class:'' @ task_class_name c]
      in if c = TcRelease \<or> c = TcHighRisk then (LevelHigh, factors)
         else if c = TcEngineering
         then (let fs = factors @
                 (if str_includes haystack (js ''production'') then [js ''keyword:production''] else []) @
                 (if str_includes haystack (js ''migration'') then [js ''keyword:migration''] else [])
               in (if 1 < length fs then LevelHigh else LevelMedium, fs))
         else (LevelLow, factors))"

definition chooseReasoningEffort :: "risk_level \<Rightarrow> task_class \<Rightarrow> reasoning_effort" where
  "chooseReasoningEffort l c =
     (if l = LevelHigh \<or> c = TcRelease then EffortHigh
      else if c = TcEngineering \<or> c = TcSmallEdit then EffortMedium
      else EffortLow)"

text \<open>Reasons both the router and the gate derive: protected branches and protected keywords.\<close>

definition branch_reasons :: "task_envelope \<Rightarrow> policy_snapshot \<Rightarrow> str list" where
  "branch_reasons task policy =
     (let protected = ar_protectedBranches (ps_approvalRules policy)
      in map (\<lambda>b. js ''protected_branch:'' @ b) (filter (\<lambda>b. b \<in> set protected) (tt_branches (te_target task))) @
         (case rc_branch (te_repoContext task) of None \<Rightarrow> []
          | Some b \<Rightarrow> if b \<noteq> [] \<and> b \<in> set protected then [js ''active_branch:'' @ b] else []))"

definition keyword_reasons :: "(str \<Rightarrow> str) \<Rightarrow> task_envelope \<Rightarrow> policy_snapshot \<Rightarrow> str list" where
  "keyword_reasons lower task policy =
     map (\<lambda>k. js ''keyword:'' @ k) (filter (\<lambda>k. str_includes (task_haystack lower task) (lower k))
       (ar_protectedKeywords (ps_approvalRules policy)))"

definition risky_class :: "task_class \<Rightarrow> bool" where
  "risky_class c \<longleftrightarrow> c = TcHighRisk \<or> c = TcRelease"

definition collectApprovalSignals ::
  "(str \<Rightarrow> str) \<Rightarrow> task_envelope \<Rightarrow> tool_access \<Rightarrow> policy_snapshot \<Rightarrow> intent_classification \<Rightarrow> str list" where
  "collectApprovalSignals lower task access policy intent = uniq (
     (if access \<in> set (ar_protectedToolAccess (ps_approvalRules policy))
      then [js ''tool_access:'' @ tool_access_name access] else []) @
     (if risky_class (ic_taskClass intent) then [js ''risk:'' @ task_class_name (ic_taskClass intent)] else []) @
     (if ic_clarificationRequired intent then [js ''clarification_required''] else []) @
     branch_reasons task policy @ keyword_reasons lower task policy)"

definition resolveProviderSideEffectClass :: "tool_access \<Rightarrow> provider_side_effect" where
  "resolveProviderSideEffectClass a = (case a of AccessReadOnly \<Rightarrow> PseReadOnly | AccessLocalWrite \<Rightarrow> PseWorkspaceWrite
     | AccessEngineeringWrite \<Rightarrow> PseLocalCommand | AccessProtectedRemote \<Rightarrow> PseProtectedRemote)"

definition createProviderGrant ::
  "str \<Rightarrow> task_envelope \<Rightarrow> str \<Rightarrow> host_route \<Rightarrow> tool_access \<Rightarrow> str list \<Rightarrow> provider_grant" where
  "createProviderGrant cli_hash task policyVersion route access approvalReasons =
     (let providerId = (if route = CodexCliRoute then js ''codex-cli'' else js ''codex-desktop'')
      in \<lparr>pg_grantId = te_taskId task @ js '':'' @ policyVersion @ js '':'' @ providerId @ js '':'' @ tool_access_name access,
          pg_providerId = providerId, pg_providerKind = GpkExecutor,
          pg_manifestHash = (if route = CodexCliRoute then Some cli_hash else None),
          pg_sideEffectClass = resolveProviderSideEffectClass access, pg_toolAccess = access,
          pg_sandboxMode = (if access = AccessReadOnly then GrantReadOnly else GrantWorkspaceWrite),
          pg_approvalRequired = (approvalReasons \<noteq> []), pg_requiredApprovals = approvalReasons,
          pg_reasons = [js ''host_route:'' @ host_route_name route, js ''tool_access:'' @ tool_access_name access]\<rparr>)"

text \<open>The object \<open>routeTask\<close> returns, once model, access, profile and host are known.\<close>

definition routing_result ::
  "(str \<Rightarrow> str) \<Rightarrow> str \<Rightarrow> task_envelope \<Rightarrow> intent_classification \<Rightarrow> policy_snapshot \<Rightarrow>
   model_id \<Rightarrow> tool_access \<Rightarrow> profile_name \<Rightarrow> host_route \<Rightarrow> routing_decision" where
  "routing_result lower cli_hash task intent policy selectedModel access executionProfile route =
     (let c = ic_taskClass intent; level = fst (scoreRisk lower task c); profile = getExecutionProfile executionProfile;
          approvalReasons = collectApprovalSignals lower task access policy intent
      in \<lparr>rd_decisionId = te_taskId task @ js '':'' @ ps_policyVersion policy, rd_taskId = te_taskId task,
          rd_policyVersion = ps_policyVersion policy,
          rd_classification = \<lparr>rcl_taskClass = c, rcl_riskLevel = level, rcl_ambiguityScore = ic_ambiguityScore intent,
            rcl_clarificationRequired = ic_clarificationRequired intent,
            rcl_riskFactors = snd (scoreRisk lower task c)\<rparr>,
          rd_execution = \<lparr>rex_selectedModel = selectedModel, rex_toolAccess = access,
            rex_executionProfile = executionProfile, rex_reasoningEffort = chooseReasoningEffort level c\<rparr>,
          rd_approval = \<lparr>rap_required = (approvalReasons \<noteq> []), rap_reasons = approvalReasons\<rparr>,
          rd_parallelism = \<lparr>rpa_allowed = ep_allowParallel profile, rpa_maxAgents = ep_maxParallelAgents profile,
            rpa_mode = (if \<not> ep_allowParallel profile then ParallelDisabled
              else if access = AccessReadOnly then ParallelReadOnly else ParallelOwnedWrite)\<rparr>,
          rd_hostRoute = route,
          rd_providerGrant = Some (createProviderGrant cli_hash task (ps_policyVersion policy) route access
            approvalReasons)\<rparr>)"

definition routeTask ::
  "(str \<Rightarrow> str) \<Rightarrow> str \<Rightarrow> task_envelope \<Rightarrow> intent_classification \<Rightarrow> policy_snapshot \<Rightarrow> err + routing_decision" where
  "routeTask lower cli_hash taskInput intent policy =
     bind_res (parseTaskEnvelope taskInput) (\<lambda>task.
     let c = ic_taskClass intent
     in bind_res (getTaskValue (ps_models policy) c ''model'') (\<lambda>selectedModel.
        bind_res (getTaskValue (ps_toolPolicies policy) c ''tool policy'') (\<lambda>configuredToolAccess.
        let access = (if ic_clarificationRequired intent then AccessReadOnly else configuredToolAccess)
        in bind_res (if ic_clarificationRequired intent then Inr ClarifyThenPlan
                     else getTaskValue (ps_executionProfiles policy) c ''execution profile'') (\<lambda>executionProfile.
           bind_res (resolveHostRoute c policy) (\<lambda>route.
             Inr (routing_result lower cli_hash task intent policy selectedModel access executionProfile route))))))"

section \<open>The approval gate\<close>

definition collectPolicyApprovalSignals ::
  "(str \<Rightarrow> str) \<Rightarrow> task_envelope \<Rightarrow> routing_decision \<Rightarrow> policy_snapshot \<Rightarrow> str list" where
  "collectPolicyApprovalSignals lower task decision policy = uniq (
     (case map_of (ps_toolPolicies policy) (rcl_taskClass (rd_classification decision)) of
        None \<Rightarrow> [js ''missing_tool_policy:'' @ task_class_name (rcl_taskClass (rd_classification decision))]
      | Some access \<Rightarrow> if access \<in> set (ar_protectedToolAccess (ps_approvalRules policy))
                        then [js ''tool_access:'' @ tool_access_name access] else []) @
     branch_reasons task policy @ keyword_reasons lower task policy)"

definition evaluateApprovalRequirement ::
  "(str \<Rightarrow> str) \<Rightarrow> task_envelope \<Rightarrow> routing_decision \<Rightarrow> policy_snapshot \<Rightarrow> err + approval_decision" where
  "evaluateApprovalRequirement lower taskInput decision policy =
     bind_res (parseTaskEnvelope taskInput) (\<lambda>task.
     let isWriteCapable = (rex_toolAccess (rd_execution decision) \<noteq> AccessReadOnly);
         c = rcl_taskClass (rd_classification decision);
         reasons = rap_reasons (rd_approval decision) @ collectPolicyApprovalSignals lower task decision policy @
           (if risky_class c then [js ''risk:'' @ task_class_name c] else []) @
           (if rcl_clarificationRequired (rd_classification decision) then [js ''clarification_required''] else []) @
           (if isWriteCapable \<and> rc_protectedBranch (te_repoContext task) = Some True
            then [js ''repo_context:protected_branch''] else []) @
           (if isWriteCapable \<and> rc_worktreeClean (te_repoContext task) = Some False then [js ''workspace:dirty''] else []);
         deduped = uniq reasons
     in Inr \<lparr>av_status = (if deduped \<noteq> [] then ApprovalPending else ApprovalNotRequired), av_reasons = deduped,
             av_gateId = (if deduped \<noteq> [] then Some (js ''gate-'' @ te_taskId task) else None)\<rparr>)"

definition approval_status_name :: "approval_status \<Rightarrow> str" where
  "approval_status_name s = (case s of ApprovalNotRequired \<Rightarrow> js ''not_required'' | ApprovalPending \<Rightarrow> js ''pending''
     | ApprovalApproved \<Rightarrow> js ''approved'' | ApprovalRejected \<Rightarrow> js ''rejected'' | ApprovalExpired \<Rightarrow> js ''expired'')"

definition assertApprovalResolved :: "approval_decision \<Rightarrow> err + unit" where
  "assertApprovalResolved a =
     (if av_status a \<in> {ApprovalPending, ApprovalRejected, ApprovalExpired}
      then Inl (Err (js ''Approval gate unresolved: '' @ approval_status_name (av_status a))) else Inr ())"

section \<open>Reconnaissance\<close>

definition ALLOWED_RECON_PREFIXES :: "str list" where
  "ALLOWED_RECON_PREFIXES = map js [''git status'', ''git diff --stat'', ''git log --oneline'', ''rg '',
     ''Get-ChildItem'', ''Select-String'', ''Get-Content'', ''cat '', ''ls '']"

definition isReconCommandAllowed :: "str \<Rightarrow> bool" where
  "isReconCommandAllowed command = list_ex (startsWith command) ALLOWED_RECON_PREFIXES"

section \<open>What a routing decision guarantees\<close>

lemma getTaskValue_Inr: "getTaskValue s c l = Inr v \<longleftrightarrow> map_of s c = Some v"
  by (auto simp: getTaskValue_def split: option.splits)

lemma getTaskValue_ok: "isOk (getTaskValue s c l) \<longleftrightarrow> map_of s c \<noteq> None"
  by (auto simp: getTaskValue_def split: option.splits)

lemma routed:
  assumes "routeTask lower cli t i p = Inr d"
  obtains model access profile route where "TaskEnvelopeSchema t"
    "d = routing_result lower cli t i p model access profile route"
    "ic_clarificationRequired i \<Longrightarrow> access = AccessReadOnly \<and> profile = ClarifyThenPlan"
    "\<not> ic_clarificationRequired i \<Longrightarrow> map_of (ps_toolPolicies p) (ic_taskClass i) = Some access"
  using assms
  by (cases "ic_clarificationRequired i")
    (auto simp: routeTask_def bind_res_Inr parseTaskEnvelope_def Let_def getTaskValue_Inr)

lemma score_risky: "risky_class c \<Longrightarrow> fst (scoreRisk lower t c) = LevelHigh"
  by (auto simp: scoreRisk_def risky_class_def Let_def)

lemma signals_mem:
  "access \<in> set (ar_protectedToolAccess (ps_approvalRules p)) \<Longrightarrow>
     js ''tool_access:'' @ tool_access_name access \<in> set (collectApprovalSignals lower t access p i)"
  "risky_class (ic_taskClass i) \<Longrightarrow>
     js ''risk:'' @ task_class_name (ic_taskClass i) \<in> set (collectApprovalSignals lower t access p i)"
  "ic_clarificationRequired i \<Longrightarrow> js ''clarification_required'' \<in> set (collectApprovalSignals lower t access p i)"
  "x \<in> set (branch_reasons t p) \<Longrightarrow> x \<in> set (collectApprovalSignals lower t access p i)"
  "x \<in> set (keyword_reasons lower t p) \<Longrightarrow> x \<in> set (collectApprovalSignals lower t access p i)"
  by (simp_all add: collectApprovalSignals_def)

text \<open>
  C24: A routing decision stays within its policy. A task that needs clarification is planned read-only,
  alone, and with approval; any other task gets exactly the tool access the policy gives its class; a
  high-risk or release task is rated high and needs approval, and so does access the policy protects;
  the provider grant repeats the access and the approvals and allows workspace writes only with
  write access.
\<close>

theorem routing_within_policy:
  assumes "routeTask lower cli t i p = Inr d"
  shows "(ic_clarificationRequired i \<longrightarrow> rex_toolAccess (rd_execution d) = AccessReadOnly \<and>
       rex_executionProfile (rd_execution d) = ClarifyThenPlan \<and> rpa_mode (rd_parallelism d) = ParallelDisabled \<and>
       rap_required (rd_approval d)) \<and>
    (\<not> ic_clarificationRequired i \<longrightarrow>
       map_of (ps_toolPolicies p) (ic_taskClass i) = Some (rex_toolAccess (rd_execution d))) \<and>
    (ic_taskClass i \<in> {TcHighRisk, TcRelease} \<longrightarrow> rcl_riskLevel (rd_classification d) = LevelHigh \<and>
       rex_reasoningEffort (rd_execution d) = EffortHigh \<and> rap_required (rd_approval d)) \<and>
    (rex_toolAccess (rd_execution d) \<in> set (ar_protectedToolAccess (ps_approvalRules p)) \<longrightarrow> rap_required (rd_approval d)) \<and>
    (rpa_mode (rd_parallelism d) = ParallelOwnedWrite \<longrightarrow> rex_toolAccess (rd_execution d) \<noteq> AccessReadOnly) \<and>
    1 \<le> rpa_maxAgents (rd_parallelism d) \<and> rpa_maxAgents (rd_parallelism d) \<le> 3 \<and>
    (\<exists>g. rd_providerGrant d = Some g \<and> pg_toolAccess g = rex_toolAccess (rd_execution d) \<and>
       pg_approvalRequired g = rap_required (rd_approval d) \<and> pg_requiredApprovals g = rap_reasons (rd_approval d) \<and>
       (pg_sandboxMode g = GrantWorkspaceWrite \<longleftrightarrow> rex_toolAccess (rd_execution d) \<noteq> AccessReadOnly))"
proof -
  obtain model access profile route where
    e: "d = routing_result lower cli t i p model access profile route"
    and r: "ic_clarificationRequired i \<Longrightarrow> access = AccessReadOnly \<and> profile = ClarifyThenPlan"
    "\<not> ic_clarificationRequired i \<Longrightarrow> map_of (ps_toolPolicies p) (ic_taskClass i) = Some access"
    by (rule routed [OF assms]) blast
  let ?signals = "collectApprovalSignals lower t access p i"
  have f: "rex_toolAccess (rd_execution d) = access" "rex_executionProfile (rd_execution d) = profile"
    "rcl_riskLevel (rd_classification d) = fst (scoreRisk lower t (ic_taskClass i))"
    "rex_reasoningEffort (rd_execution d) = chooseReasoningEffort (fst (scoreRisk lower t (ic_taskClass i))) (ic_taskClass i)"
    "rap_required (rd_approval d) \<longleftrightarrow> ?signals \<noteq> []" "rap_reasons (rd_approval d) = ?signals"
    "rpa_mode (rd_parallelism d) = (if \<not> ep_allowParallel (getExecutionProfile profile) then ParallelDisabled
         else if access = AccessReadOnly then ParallelReadOnly else ParallelOwnedWrite)"
    "rpa_maxAgents (rd_parallelism d) = ep_maxParallelAgents (getExecutionProfile profile)"
    "rd_providerGrant d = Some (createProviderGrant cli t (ps_policyVersion p) route access ?signals)"
    by (simp_all add: e routing_result_def Let_def)
  have agents: "1 \<le> ep_maxParallelAgents (getExecutionProfile n) \<and> ep_maxParallelAgents (getExecutionProfile n) \<le> 3" for n
    by (cases n) (simp_all add: getExecutionProfile_def profile_of_def)
  have solo: "\<not> ep_allowParallel (getExecutionProfile ClarifyThenPlan)" by (simp add: getExecutionProfile_def profile_of_def)
  have ne: "xs \<noteq> []" if "y \<in> set xs" for xs and y :: str using that by auto
  have grant: "pg_toolAccess (createProviderGrant cli t v h access rs) = access"
    "pg_approvalRequired (createProviderGrant cli t v h access rs) \<longleftrightarrow> rs \<noteq> []"
    "pg_requiredApprovals (createProviderGrant cli t v h access rs) = rs"
    "pg_sandboxMode (createProviderGrant cli t v h access rs) = GrantWorkspaceWrite \<longleftrightarrow> access \<noteq> AccessReadOnly" for v h rs
    by (simp_all add: createProviderGrant_def Let_def)
  have risky: "fst (scoreRisk lower t (ic_taskClass i)) = LevelHigh \<and> ?signals \<noteq> []"
    if "ic_taskClass i \<in> {TcHighRisk, TcRelease}"
    using that score_risky [of "ic_taskClass i" lower t] ne [OF signals_mem(2) [of i lower t access p]]
    by (auto simp: risky_class_def)
  note clar = ne [OF signals_mem(3) [of i lower t access p]]
  note protected = ne [OF signals_mem(1) [of access p lower t i]]
  show ?thesis
    unfolding f using r risky agents [of profile] solo grant clar protected
    by (intro conjI impI) (auto simp: chooseReasoningEffort_def split: if_splits)
qed

text \<open>
  C35: Routing answers whenever the policy covers the class. For a valid envelope it returns a decision
  exactly when the tables hold a model, a tool policy, a host route and, without clarification, a
  profile for the class; a parsed policy always has the host route.
\<close>

theorem routing_total:
  assumes "TaskEnvelopeSchema t"
  shows "(isOk (routeTask lower cli t i p) \<longleftrightarrow> map_of (ps_models p) (ic_taskClass i) \<noteq> None \<and>
      map_of (ps_toolPolicies p) (ic_taskClass i) \<noteq> None \<and> map_of (ps_hostRoutes p) (ic_taskClass i) \<noteq> None \<and>
      (ic_clarificationRequired i \<or> map_of (ps_executionProfiles p) (ic_taskClass i) \<noteq> None)) \<and>
    (PolicySnapshotSchema p \<longrightarrow> map_of (ps_hostRoutes p) (ic_taskClass i) \<noteq> None)"
proof (rule conjI)
  show "isOk (routeTask lower cli t i p) \<longleftrightarrow> map_of (ps_models p) (ic_taskClass i) \<noteq> None \<and>
      map_of (ps_toolPolicies p) (ic_taskClass i) \<noteq> None \<and> map_of (ps_hostRoutes p) (ic_taskClass i) \<noteq> None \<and>
      (ic_clarificationRequired i \<or> map_of (ps_executionProfiles p) (ic_taskClass i) \<noteq> None)"
    using assms by (auto simp: routeTask_def parseTaskEnvelope_def zod_parse_ok Let_def getTaskValue_def
        resolveHostRoute_def split: option.splits)
  show "PolicySnapshotSchema p \<longrightarrow> map_of (ps_hostRoutes p) (ic_taskClass i) \<noteq> None"
    by (cases "ic_taskClass i") (simp_all add: PolicySnapshotSchema_def REQUIRED_TASK_CLASSES_def)
qed

section \<open>The pipeline up to the gate\<close>

lemma gate_spec:
  assumes "evaluateApprovalRequirement lower t d p = Inr g"
  shows "set (rap_reasons (rd_approval d)) \<subseteq> set (av_reasons g)"
    "av_status g = (if av_reasons g = [] then ApprovalNotRequired else ApprovalPending)"
    "risky_class (rcl_taskClass (rd_classification d)) \<Longrightarrow> av_reasons g \<noteq> []"
    "rcl_clarificationRequired (rd_classification d) \<Longrightarrow> av_reasons g \<noteq> []"
    "rex_toolAccess (rd_execution d) \<noteq> AccessReadOnly \<Longrightarrow>
       rc_protectedBranch (te_repoContext t) = Some True \<or> rc_worktreeClean (te_repoContext t) = Some False \<Longrightarrow> av_reasons g \<noteq> []"
    "b \<in> set (tt_branches (te_target t)) \<Longrightarrow> b \<in> set (ar_protectedBranches (ps_approvalRules p)) \<Longrightarrow> av_reasons g \<noteq> []"
    "k \<in> set (ar_protectedKeywords (ps_approvalRules p)) \<Longrightarrow> str_includes (task_haystack lower t) (lower k) \<Longrightarrow>
       av_reasons g \<noteq> []"
    "map_of (ps_toolPolicies p) (rcl_taskClass (rd_classification d)) = Some a \<Longrightarrow>
       a \<in> set (ar_protectedToolAccess (ps_approvalRules p)) \<Longrightarrow> av_reasons g \<noteq> []"
  using assms
  by (auto simp: evaluateApprovalRequirement_def bind_res_Inr parseTaskEnvelope_def Let_def
      collectPolicyApprovalSignals_def branch_reasons_def keyword_reasons_def filter_empty_conv)

definition resolved :: "approval_decision \<Rightarrow> bool" where
  "resolved g \<longleftrightarrow> assertApprovalResolved g = Inr ()"

text \<open>
  C21: Nothing risky passes the gate unseen. When a task is classified, routed and put before the gate,
  the gate repeats every reason of the router, and it stays unresolved whenever the text has a release
  or a high-risk word, the task is ambiguous, a target branch or a word of the text is protected, the
  policy protects the access of its class, or a write would meet a protected branch or a dirty
  worktree.
\<close>

theorem approval_gate_covers:
  assumes "classifyIntent lower t = Inr i" and "routeTask lower cli t i p = Inr d"
    and "evaluateApprovalRequirement lower t d p = Inr g"
  shows "set (rap_reasons (rd_approval d)) \<subseteq> set (av_reasons g) \<and>
    (resolved g \<longleftrightarrow> av_reasons g = []) \<and>
    (any_keyword (task_haystack lower t) (RELEASE_KEYWORDS @ HIGH_RISK_KEYWORDS) \<longrightarrow> \<not> resolved g) \<and>
    (ic_clarificationRequired i \<longrightarrow> \<not> resolved g) \<and>
    (\<forall>b \<in> set (tt_branches (te_target t)). b \<in> set (ar_protectedBranches (ps_approvalRules p)) \<longrightarrow> \<not> resolved g) \<and>
    (\<forall>k \<in> set (ar_protectedKeywords (ps_approvalRules p)). str_includes (task_haystack lower t) (lower k) \<longrightarrow> \<not> resolved g) \<and>
    (\<forall>a \<in> set (ar_protectedToolAccess (ps_approvalRules p)).
       map_of (ps_toolPolicies p) (ic_taskClass i) = Some a \<longrightarrow> \<not> resolved g) \<and>
    (rex_toolAccess (rd_execution d) \<noteq> AccessReadOnly \<and>
       (rc_protectedBranch (te_repoContext t) = Some True \<or> rc_worktreeClean (te_repoContext t) = Some False) \<longrightarrow> \<not> resolved g)"
proof -
  obtain model access profile route where e: "d = routing_result lower cli t i p model access profile route"
    by (rule routed [OF assms(2)]) blast
  have f: "rcl_taskClass (rd_classification d) = ic_taskClass i"
    "rcl_clarificationRequired (rd_classification d) = ic_clarificationRequired i"
    by (simp_all add: e routing_result_def Let_def)
  note g = gate_spec [OF assms(3)]
  have r: "resolved g \<longleftrightarrow> av_reasons g = []"
    using g(2) by (auto simp: resolved_def assertApprovalResolved_def)
  have "risky_class (ic_taskClass i)" if "any_keyword (task_haystack lower t) (RELEASE_KEYWORDS @ HIGH_RISK_KEYWORDS)"
    using that class_facts(1,2) [OF assms(1)] by (auto simp: any_keyword_def risky_class_def)
  with r g(1,3-8) show ?thesis unfolding f by blast
qed

text \<open>A command is taken for reconnaissance by its first word alone; anything may follow it.\<close>

lemma recon_command_chains: "isReconCommandAllowed (js ''ls '' @ s)" "isReconCommandAllowed (js ''git status'' @ s)"
  by (simp_all add: isReconCommandAllowed_def ALLOWED_RECON_PREFIXES_def startsWith_def)

section \<open>Witnesses\<close>

definition demo_policy :: policy_snapshot where
  "demo_policy = \<lparr>ps_policyVersion = js ''v1'', ps_rolloutMode = DesktopFirst,
     ps_models = map (\<lambda>c. (c, Gpt54)) REQUIRED_TASK_CLASSES,
     ps_toolPolicies = map (\<lambda>c. (c, AccessEngineeringWrite)) REQUIRED_TASK_CLASSES,
     ps_executionProfiles = map (\<lambda>c. (c, HighRiskChange)) REQUIRED_TASK_CLASSES,
     ps_hostRoutes = map (\<lambda>c. (c, DesktopRoute)) REQUIRED_TASK_CLASSES,
     ps_approvalRules = \<lparr>ar_protectedBranches = [js ''main''], ar_protectedKeywords = [], ar_protectedToolAccess = []\<rparr>,
     ps_escalationRules = \<lparr>er_failureThreshold = 2, er_contextPressureThreshold = 1, er_highRiskSticky = True\<rparr>\<rparr>"

lemma demo_policy_total: "map_of (map (\<lambda>c. (c, v)) REQUIRED_TASK_CLASSES) c = Some v"
  by (cases c) (simp_all add: REQUIRED_TASK_CLASSES_def)

lemma sly_task_valid: "TaskEnvelopeSchema sly_task"
  by (simp add: TaskEnvelopeSchema_def sly_task_def)

lemma demo_routes: "isOk (routeTask lower cli sly_task i demo_policy)"
  by (simp add: routeTask_def parseTaskEnvelope_def zod_parse_ok sly_task_valid Let_def getTaskValue_def
      resolveHostRoute_def demo_policy_def demo_policy_total)

theorem routing_total_witness:
  "isOk (routeTask ascii_lower [] sly_task (classify_envelope ascii_lower sly_task) demo_policy) \<and>
   map_of (ps_models demo_policy) (ic_taskClass (classify_envelope ascii_lower sly_task)) \<noteq> None"
  using routing_total [OF sly_task_valid] demo_routes by blast

lemma sly_run:
  obtains i d g where "classifyIntent ascii_lower sly_task = Inr i" "ic_taskClass i \<in> {TcHighRisk, TcRelease}"
    "routeTask ascii_lower (js ''h'') sly_task i demo_policy = Inr d"
    "evaluateApprovalRequirement ascii_lower sly_task d demo_policy = Inr g"
proof -
  obtain i where i: "classifyIntent ascii_lower sly_task = Inr i"
    by (simp add: classifyIntent_def parseTaskEnvelope_def zod_parse_ok sly_task_valid)
  moreover obtain d where "routeTask ascii_lower (js ''h'') sly_task i demo_policy = Inr d"
    using demo_routes [of ascii_lower "js ''h''" i] by (auto simp: isOk_def split: sum.splits)
  moreover obtain g where "evaluateApprovalRequirement ascii_lower sly_task d demo_policy = Inr g"
    by (simp add: evaluateApprovalRequirement_def parseTaskEnvelope_def zod_parse_ok sly_task_valid Let_def)
  ultimately show thesis using that class_facts(2) [OF i sly_task_class] by blast
qed

theorem routing_within_policy_witness:
  "\<exists>i d. routeTask ascii_lower (js ''h'') sly_task i demo_policy = Inr d \<and> rap_required (rd_approval d)"
proof (rule sly_run)
  fix i d g
  assume "ic_taskClass i \<in> {TcHighRisk, TcRelease}" and d: "routeTask ascii_lower (js ''h'') sly_task i demo_policy = Inr d"
  with routing_within_policy [OF d] show ?thesis by blast
qed

theorem approval_gate_covers_witness:
  "\<exists>i d g. classifyIntent ascii_lower sly_task = Inr i \<and> routeTask ascii_lower (js ''h'') sly_task i demo_policy = Inr d \<and>
     evaluateApprovalRequirement ascii_lower sly_task d demo_policy = Inr g \<and> \<not> resolved g"
proof (rule sly_run)
  fix i d g
  assume r: "classifyIntent ascii_lower sly_task = Inr i" "routeTask ascii_lower (js ''h'') sly_task i demo_policy = Inr d"
    "evaluateApprovalRequirement ascii_lower sly_task d demo_policy = Inr g"
  moreover have "any_keyword (task_haystack ascii_lower sly_task) (RELEASE_KEYWORDS @ HIGH_RISK_KEYWORDS)"
    using sly_task_class by (simp add: any_keyword_def)
  ultimately show ?thesis using approval_gate_covers [OF r] by blast
qed

end
