(* ===== verification/JsNumber.thy ===== *)
theory JsNumber
  imports Complex_Main
begin

text \<open>
  The arithmetic of JavaScript numbers on the values the code computes with: finite doubles in the
  normal range. A double is the rational it denotes; an operation rounds the exact result to the
  nearest double, ties to even. Overflow and subnormal results do not occur here (every value lies
  between 0 and a few units, with at most three decimal digits before rounding).
\<close>

definition round_even :: "rat \<Rightarrow> int" where
  "round_even x = (let f = \<lfloor>x\<rfloor>; r = x - of_int f
     in if r < 1 / 2 then f else if 1 / 2 < r then f + 1 else if even f then f else f + 1)"

text \<open>\<open>exponent x = e\<close> with \<open>2 ^ e \<le> x < 2 ^ (e + 1)\<close> for a positive \<open>x\<close>.\<close>

definition pow2 :: "int \<Rightarrow> rat" where
  "pow2 e = (if 0 \<le> e then 2 ^ nat e else 1 / 2 ^ nat (- e))"

fun bits :: "int \<Rightarrow> nat" where
  "bits n = (if n \<le> 0 then 0 else Suc (bits (n div 2)))"

declare bits.simps [simp del]

definition exponent :: "rat \<Rightarrow> int" where
  "exponent x = (let (p, q) = quotient_of x; k = int (bits p) - int (bits q)
     in if x < pow2 k then k - 1 else k)"

definition round_pos :: "rat \<Rightarrow> rat" where
  "round_pos x = (let u = pow2 (exponent x - 52) in of_int (round_even (x / u)) * u)"

definition dround :: "rat \<Rightarrow> rat" where
  "dround x = (if x = 0 then 0 else if 0 < x then round_pos x else - round_pos (- x))"

definition jadd :: "rat \<Rightarrow> rat \<Rightarrow> rat" where "jadd a b = dround (a + b)"
definition jsub :: "rat \<Rightarrow> rat \<Rightarrow> rat" where "jsub a b = dround (a - b)"
definition jmul :: "rat \<Rightarrow> rat \<Rightarrow> rat" where "jmul a b = dround (a * b)"

text \<open>\<open>Number(x.toFixed(3))\<close> for a number that is not negative; of two nearest decimals the larger.\<close>

definition fixed3 :: "rat \<Rightarrow> rat" where
  "fixed3 x = dround (of_int \<lfloor>x * 1000 + 1 / 2\<rfloor> / 1000)"

lemma pow2_pos [simp]: "0 < pow2 e"
  by (simp add: pow2_def)

lemma pow2_add: "pow2 (a + int n) = pow2 a * 2 ^ n"
proof (cases "0 \<le> a")
  case True
  then show ?thesis by (simp add: pow2_def nat_add_distrib power_add)
next
  case neg: False
  define m where "m = nat (- a)"
  have a: "a = - int m" using neg by (simp add: m_def)
  show ?thesis
  proof (cases "m \<le> n")
    case True
    then obtain d where "n = m + d" by (auto simp: le_iff_add)
    then show ?thesis by (simp add: pow2_def a power_add)
  next
    case False
    then obtain d where "m = n + d" "0 < d" by (auto simp: not_le less_iff_Suc_add)
    moreover from this have "nat (int d + int n) = d + n" by simp
    ultimately show ?thesis by (simp add: pow2_def a power_add)
  qed
qed

lemma round_even_mono_int: "x \<le> of_int n \<Longrightarrow> round_even x \<le> n"
proof -
  assume x: "x \<le> of_int n"
  show "round_even x \<le> n"
  proof (cases "x = of_int n")
    case True
    then show ?thesis by (simp add: round_even_def)
  next
    case False
    with x have "\<lfloor>x\<rfloor> < n" by (simp add: floor_less_iff)
    then show ?thesis by (auto simp: round_even_def Let_def)
  qed
qed

lemma bits_mono: "m \<le> n \<Longrightarrow> bits m \<le> bits n"
proof (induction m arbitrary: n rule: bits.induct)
  case (1 m)
  show ?case
  proof (cases "m \<le> 0")
    case True
    then show ?thesis by (simp add: bits.simps [of m])
  next
    case False
    with 1 have "bits (m div 2) \<le> bits (n div 2)" by (simp add: zdiv_mono1)
    with False 1(2) show ?thesis by (simp add: bits.simps [of m] bits.simps [of n])
  qed
qed

lemma exponent_unit: "0 < x \<Longrightarrow> x \<le> 1 \<Longrightarrow> exponent x \<le> 0"
proof -
  assume x: "0 < x" "x \<le> 1"
  obtain p q where pq: "quotient_of x = (p, q)" by (cases "quotient_of x")
  have q: "0 < q" using quotient_of_denom_pos [OF pq] .
  moreover have "x = of_int p / of_int q" using quotient_of_div [OF pq] .
  ultimately have "p \<le> q" using x(2) by (simp add: divide_le_eq)
  then have "bits p \<le> bits q" by (rule bits_mono)
  with pq show ?thesis by (auto simp: exponent_def Let_def)
qed

lemma round_even_nonneg: "0 \<le> x \<Longrightarrow> 0 \<le> round_even x"
  by (auto simp: round_even_def Let_def)

text \<open>Rounding keeps a number between 0 and 1.\<close>

lemma dround_unit: "0 \<le> x \<Longrightarrow> x \<le> 1 \<Longrightarrow> 0 \<le> dround x \<and> dround x \<le> 1"
proof (cases "x = 0")
  case False
  assume "0 \<le> x" "x \<le> 1"
  with False have x: "0 < x" "x \<le> 1" by auto
  let ?e = "exponent x"
  define n where "n = nat (52 - ?e)"
  let ?u = "pow2 (?e - 52)"
  have e: "?e \<le> 0" by (rule exponent_unit [OF x])
  then have "pow2 ((?e - 52) + int n) = 1" by (simp add: n_def pow2_def)
  then have u: "?u * 2 ^ n = 1" by (simp add: pow2_add)
  have up: "0 < ?u" by (rule pow2_pos)
  have "x / ?u \<le> 2 ^ n" using x(2) u up by (simp add: divide_le_eq mult.commute)
  then have "round_even (x / ?u) \<le> 2 ^ n" by (intro round_even_mono_int) simp
  then have "of_int (round_even (x / ?u)) \<le> (2 :: rat) ^ n"
    by (metis of_int_le_iff of_int_numeral of_int_power)
  then have "of_int (round_even (x / ?u)) * ?u \<le> 2 ^ n * ?u" by (rule mult_right_mono [OF _ less_imp_le [OF up]])
  moreover have "0 \<le> of_int (round_even (x / ?u)) * ?u"
    using round_even_nonneg [of "x / ?u"] x up by (intro mult_nonneg_nonneg) (auto intro: less_imp_le)
  moreover have "2 ^ n * ?u = 1" using u by (simp add: mult.commute)
  ultimately have "0 \<le> round_pos x \<and> round_pos x \<le> 1" by (simp only: round_pos_def Let_def)
  then show ?thesis using x by (simp add: dround_def)
qed (simp add: dround_def)

text \<open>\<open>Math.max(0, Math.min(1, Number(value.toFixed(3))))\<close>.\<close>

definition clamp01 :: "rat \<Rightarrow> rat" where
  "clamp01 value = max 0 (min 1 (fixed3 value))"

text \<open>A literal \<open>p / q\<close> of the source.\<close>

definition num :: "nat \<Rightarrow> nat \<Rightarrow> rat" where
  "num p q = dround (of_nat p / of_nat q)"

lemma clamp01_unit: "0 \<le> clamp01 x \<and> clamp01 x \<le> 1"
  by (simp add: clamp01_def)

text \<open>Two numbers that are doubles already.\<close>

lemma quotient_half: "quotient_of (1/2) = (1,2)" by code_simp

lemma round_even_int: "round_even (of_int n) = n" by (simp add: round_even_def Let_def)

lemma bits_small: "bits 1 = 1" "bits 2 = 2" by (simp_all add: bits.simps)

lemma dround_1: "dround 1 = 1" 
proof -
  have e: "exponent 1 = 0" by (simp add: exponent_def bits_small pow2_def bits.simps)
  have "1 / pow2 (- 52) = of_int (2 ^ 52)" by (simp add: pow2_def)
  then have "round_even (1 / pow2 (-52)) = 2 ^ 52" using round_even_int [of "2^52"] by (simp only:)
  then show ?thesis by (simp add: dround_def round_pos_def e Let_def) (simp add: pow2_def)
qed

lemma dround_half: "dround (1/2) = 1/2" 
proof -
  have e: "exponent (1/2) = -1" by (simp add: exponent_def quotient_half bits_small pow2_def bits.simps)
  have "(1/2) / pow2 (- 53) = of_int (2 ^ 52)" by (simp add: pow2_def)
  then have "round_even ((1/2) / pow2 (-53)) = 2 ^ 52" using round_even_int [of "2^52"] by (simp only:)
  then show ?thesis by (simp add: dround_def round_pos_def e Let_def) (simp add: pow2_def)
qed

end
