(* ===== verification/GovState.thy ===== *)
theory GovState
  imports JsNumber RoutingContracts Governance
begin

text \<open>
  The governance state of a task: \<open>packages/governance-internal-state-manager/src/index.ts\<close> (phases,
  risk scores, anomalies with their strike numbers), \<open>governance-internal-strategy-router\<close> (what to do
  next), \<open>governance-internal-execution-observation\<close> (observations and references to them) and
  \<open>governance-internal-entropy-risk\<close> (the seven risk dimensions). Scores are doubles, computed with the
  operations of \<open>JsNumber\<close>.
\<close>

section \<open>Routing decisions as they are parsed\<close>

definition ProviderGrantSchema :: "provider_grant \<Rightarrow> bool" where
  "ProviderGrantSchema g \<longleftrightarrow> pg_grantId g \<noteq> [] \<and> pg_providerId g \<noteq> [] \<and> opt_all sha256_hex (pg_manifestHash g) \<and>
     list_all (\<lambda>s. s \<noteq> []) (pg_requiredApprovals g) \<and> list_all (\<lambda>s. s \<noteq> []) (pg_reasons g)"

definition RoutingDecisionSchema :: "routing_decision \<Rightarrow> bool" where
  "RoutingDecisionSchema d \<longleftrightarrow> rd_decisionId d \<noteq> [] \<and> rd_taskId d \<noteq> [] \<and> rd_policyVersion d \<noteq> [] \<and>
     0 \<le> rcl_ambiguityScore (rd_classification d) \<and> rcl_ambiguityScore (rd_classification d) \<le> 1 \<and>
     0 < rpa_maxAgents (rd_parallelism d) \<and> opt_all ProviderGrantSchema (rd_providerGrant d)"

definition parseRoutingDecision :: "routing_decision \<Rightarrow> err + routing_decision" where
  "parseRoutingDecision d = zod_parse RoutingDecisionSchema d"

section \<open>The state\<close>

datatype gov_phase = PhPlanning | PhPreflight | PhExecution | PhVerification | PhRecovery | PhClosed
datatype gov_risk = GrLow | GrMedium | GrHigh | GrCritical

record trust_balance =
  tb_centralOrder :: rat
  tb_distributedVitality :: rat

definition unit_range :: "rat \<Rightarrow> bool" where
  "unit_range x \<longleftrightarrow> 0 \<le> x \<and> x \<le> 1"

definition TrustBalanceSchema :: "trust_balance \<Rightarrow> bool" where
  "TrustBalanceSchema v \<longleftrightarrow> unit_range (tb_centralOrder v) \<and> unit_range (tb_distributedVitality v) \<and>
     (let total = jadd (tb_centralOrder v) (tb_distributedVitality v) in \<bar>jsub total 1\<bar> \<le> num 1 1000)"

record risk_score =
  gr_entanglement :: rat
  gr_entropy :: rat
  gr_failureCost :: rat
  gr_reversibility :: rat
  gr_contextPressure :: rat
  gr_historicalTrust :: rat
  gr_globalCoherence :: rat
  gr_finalRiskLevel :: gov_risk

definition GovernanceRiskScoreSchema :: "risk_score \<Rightarrow> bool" where
  "GovernanceRiskScoreSchema r \<longleftrightarrow> list_all unit_range [gr_entanglement r, gr_entropy r, gr_failureCost r,
     gr_reversibility r, gr_contextPressure r, gr_historicalTrust r, gr_globalCoherence r]"

record anomaly_report =
  an_anomalyId :: str
  an_taskId :: str
  an_kind :: str
  an_message :: str
  an_createdAt :: str
  an_evidenceRefs :: "str list"

record anomaly = anomaly_report +
  an_strikeNumber :: nat

definition AnomalyRecordSchema :: "anomaly \<Rightarrow> bool" where
  "AnomalyRecordSchema a \<longleftrightarrow> an_anomalyId a \<noteq> [] \<and> an_taskId a \<noteq> [] \<and> an_kind a \<noteq> [] \<and> an_message a \<noteq> [] \<and>
     1 \<le> an_strikeNumber a \<and> an_strikeNumber a \<le> 3 \<and> an_createdAt a \<noteq> []"

datatype approval_action = ActResume | ActRollback | ActAbort | ActApprove | ActReject

record approval_record =
  ah_approvalId :: str
  ah_taskId :: str
  ah_action :: approval_action
  ah_actor :: str
  ah_createdAt :: str
  ah_reason :: "str option"

definition ApprovalHistoryRecordSchema :: "approval_record \<Rightarrow> bool" where
  "ApprovalHistoryRecordSchema a \<longleftrightarrow> ah_approvalId a \<noteq> [] \<and> ah_taskId a \<noteq> [] \<and> ah_actor a \<noteq> [] \<and> ah_createdAt a \<noteq> []"

record gov_state =
  gs_taskId :: str
  gs_branchId :: str
  gs_phase :: gov_phase
  gs_trustBalance :: trust_balance
  gs_risk :: risk_score
  gs_anomalies :: "anomaly list"
  gs_approvals :: "approval_record list"
  gs_taskGraphRef :: str
  gs_latestCheckpointId :: "str option"
  gs_createdAt :: str
  gs_updatedAt :: str

definition GovernanceStateSchema :: "gov_state \<Rightarrow> bool" where
  "GovernanceStateSchema s \<longleftrightarrow> gs_taskId s \<noteq> [] \<and> gs_branchId s \<noteq> [] \<and> TrustBalanceSchema (gs_trustBalance s) \<and>
     GovernanceRiskScoreSchema (gs_risk s) \<and> list_all AnomalyRecordSchema (gs_anomalies s) \<and>
     list_all ApprovalHistoryRecordSchema (gs_approvals s) \<and> gs_taskGraphRef s \<noteq> [] \<and>
     opt_all (\<lambda>c. c \<noteq> []) (gs_latestCheckpointId s) \<and> gs_createdAt s \<noteq> [] \<and> gs_updatedAt s \<noteq> []"

definition parseGovernanceState :: "gov_state \<Rightarrow> err + gov_state" where
  "parseGovernanceState s = zod_parse GovernanceStateSchema s"

definition createDefaultRiskScore :: "routing_decision \<Rightarrow> risk_score" where
  "createDefaultRiskScore d = (case rcl_riskLevel (rd_classification d) of
     LevelHigh \<Rightarrow> \<lparr>gr_entanglement = num 6 10, gr_entropy = num 4 10, gr_failureCost = num 7 10,
       gr_reversibility = num 3 10, gr_contextPressure = num 4 10, gr_historicalTrust = num 5 10,
       gr_globalCoherence = num 7 10, gr_finalRiskLevel = GrHigh\<rparr>
   | LevelMedium \<Rightarrow> \<lparr>gr_entanglement = num 4 10, gr_entropy = num 3 10, gr_failureCost = num 4 10,
       gr_reversibility = num 6 10, gr_contextPressure = num 3 10, gr_historicalTrust = num 5 10,
       gr_globalCoherence = num 8 10, gr_finalRiskLevel = GrMedium\<rparr>
   | LevelLow \<Rightarrow> \<lparr>gr_entanglement = num 2 10, gr_entropy = num 2 10, gr_failureCost = num 2 10,
       gr_reversibility = num 8 10, gr_contextPressure = num 2 10, gr_historicalTrust = num 5 10,
       gr_globalCoherence = num 9 10, gr_finalRiskLevel = GrLow\<rparr>)"

text \<open>The clock is read once; of the checkpoint the code takes its id.\<close>

definition createInitialGovernanceState :: "task_envelope \<Rightarrow> routing_decision \<Rightarrow> str option \<Rightarrow> str \<Rightarrow> err + gov_state" where
  "createInitialGovernanceState taskInput decisionInput checkpointId timestamp =
     bind_res (parseTaskEnvelope taskInput) (\<lambda>task.
     bind_res (parseRoutingDecision decisionInput) (\<lambda>decision.
     parseGovernanceState
       \<lparr>gs_taskId = te_taskId task, gs_branchId = js ''main'',
        gs_phase = (if rap_required (rd_approval decision) then PhPreflight else PhPlanning),
        gs_trustBalance = \<lparr>tb_centralOrder = num 5 10, tb_distributedVitality = num 5 10\<rparr>,
        gs_risk = createDefaultRiskScore decision, gs_anomalies = [], gs_approvals = [],
        gs_taskGraphRef = js ''task-graph:'' @ te_taskId task, gs_latestCheckpointId = checkpointId,
        gs_createdAt = timestamp, gs_updatedAt = timestamp\<rparr>))"

definition same_kind_count :: "gov_state \<Rightarrow> str \<Rightarrow> nat" where
  "same_kind_count s k = length (filter (\<lambda>a. an_kind a = k) (gs_anomalies s))"

definition with_strike :: "anomaly_report \<Rightarrow> nat \<Rightarrow> anomaly" where
  "with_strike a n = anomaly_report.extend a (anomaly.fields n)"

definition recordAnomaly :: "gov_state \<Rightarrow> anomaly_report \<Rightarrow> err + gov_state" where
  "recordAnomaly stateInput a =
     bind_res (parseGovernanceState stateInput) (\<lambda>state.
       let strikeNumber = min (same_kind_count state (an_kind a) + 1) 3
       in parseGovernanceState (state\<lparr>gs_anomalies := gs_anomalies state @ [with_strike a strikeNumber],
            gs_phase := (if 3 \<le> strikeNumber then PhRecovery else gs_phase state),
            gs_updatedAt := an_createdAt a\<rparr>))"

section \<open>The strategy\<close>

datatype action_family = FamExecute | FamVerify | FamSimulate | FamStepBack | FamFork | FamAbort
datatype verification_intensity = IntNone | IntLight | IntStandard | IntStrict
datatype checkpoint_cadence = CadStage | CadPrimitive | CadRiskBoundary

record agent_budget =
  ab_executor :: nat
  ab_verifier :: nat
  ab_shadow :: "nat option"

record strategy_decision =
  sd_taskId :: str
  sd_actionFamily :: action_family
  sd_verificationIntensity :: verification_intensity
  sd_checkpointCadence :: checkpoint_cadence
  sd_agentBudget :: agent_budget
  sd_reasons :: "str list"
  sd_createdAt :: str

definition StrategyDecisionV2Schema :: "strategy_decision \<Rightarrow> bool" where
  "StrategyDecisionV2Schema d \<longleftrightarrow> sd_taskId d \<noteq> [] \<and> sd_createdAt d \<noteq> []"

definition max_strike :: "gov_state \<Rightarrow> nat" where
  "max_strike s = foldl max 0 (map an_strikeNumber (gs_anomalies s))"

definition routeStrategyV2 :: "gov_state \<Rightarrow> str \<Rightarrow> err + strategy_decision" where
  "routeStrategyV2 state now = zod_parse StrategyDecisionV2Schema
     (if 3 \<le> max_strike state
      then \<lparr>sd_taskId = gs_taskId state, sd_actionFamily = FamStepBack, sd_verificationIntensity = IntStrict,
            sd_checkpointCadence = CadRiskBoundary,
            sd_agentBudget = \<lparr>ab_executor = 0, ab_verifier = 1, ab_shadow = Some 1\<rparr>,
            sd_reasons = [js ''three_strikes_step_back''], sd_createdAt = now\<rparr>
      else if gr_finalRiskLevel (gs_risk state) = GrCritical
      then \<lparr>sd_taskId = gs_taskId state, sd_actionFamily = FamSimulate, sd_verificationIntensity = IntStrict,
            sd_checkpointCadence = CadRiskBoundary,
            sd_agentBudget = \<lparr>ab_executor = 0, ab_verifier = 1, ab_shadow = Some 1\<rparr>,
            sd_reasons = [js ''risk_level:critical''], sd_createdAt = now\<rparr>
      else if gr_finalRiskLevel (gs_risk state) = GrHigh \<or> num 6 10 \<le> gr_entropy (gs_risk state) \<or>
           num 6 10 \<le> gr_contextPressure (gs_risk state)
      then \<lparr>sd_taskId = gs_taskId state, sd_actionFamily = FamVerify, sd_verificationIntensity = IntStandard,
            sd_checkpointCadence = CadPrimitive,
            sd_agentBudget = \<lparr>ab_executor = 1, ab_verifier = 1, ab_shadow = None\<rparr>,
            sd_reasons = [js ''risk_requires_verification''], sd_createdAt = now\<rparr>
      else \<lparr>sd_taskId = gs_taskId state, sd_actionFamily = FamExecute, sd_verificationIntensity = IntLight,
            sd_checkpointCadence = CadStage,
            sd_agentBudget = \<lparr>ab_executor = 1, ab_verifier = 0, ab_shadow = None\<rparr>,
            sd_reasons = [js ''risk_within_execution_bounds''], sd_createdAt = now\<rparr>)"

definition requiresHumanStepBack :: "strategy_decision \<Rightarrow> bool" where
  "requiresHumanStepBack d \<longleftrightarrow> sd_actionFamily d = FamStepBack \<or> sd_actionFamily d = FamAbort"

definition isWriteExecutionAllowed :: "strategy_decision \<Rightarrow> bool" where
  "isWriteExecutionAllowed d \<longleftrightarrow> sd_actionFamily d = FamExecute \<or> sd_actionFamily d = FamVerify"

section \<open>Observations\<close>

datatype observation_status = ObsStarted | ObsSucceeded | ObsFailed | ObsDegraded | ObsBlocked

record signals =
  sg_errorClass :: "str option"
  sg_contextConflict :: "bool option"
  sg_permissionBlocked :: "bool option"
  sg_outputDrift :: "bool option"
  sg_latencyPressure :: "rat option"

record observation =
  ob_observationId :: str
  ob_taskId :: str
  ob_primitiveId :: str
  ob_stage :: str
  ob_status :: observation_status
  ob_signals :: signals
  ob_evidenceRef :: "str option"
  ob_createdAt :: str

definition ExecutionObservationSchema :: "observation \<Rightarrow> bool" where
  "ExecutionObservationSchema x \<longleftrightarrow> ob_observationId x \<noteq> [] \<and> ob_taskId x \<noteq> [] \<and> ob_primitiveId x \<noteq> [] \<and>
     ob_stage x \<noteq> [] \<and> opt_all (\<lambda>e. e \<noteq> []) (sg_errorClass (ob_signals x)) \<and>
     opt_all unit_range (sg_latencyPressure (ob_signals x)) \<and> opt_all (\<lambda>e. e \<noteq> []) (ob_evidenceRef x) \<and> ob_createdAt x \<noteq> []"

definition parseExecutionObservation :: "observation \<Rightarrow> err + observation" where
  "parseExecutionObservation x = zod_parse ExecutionObservationSchema x"

definition observation_status_name :: "observation_status \<Rightarrow> str" where
  "observation_status_name s = js (case s of ObsStarted \<Rightarrow> ''started'' | ObsSucceeded \<Rightarrow> ''succeeded'' |
     ObsFailed \<Rightarrow> ''failed'' | ObsDegraded \<Rightarrow> ''degraded'' | ObsBlocked \<Rightarrow> ''blocked'')"

definition createObservationId :: "str \<Rightarrow> str \<Rightarrow> observation_status \<Rightarrow> str \<Rightarrow> str" where
  "createObservationId taskId primitiveId status createdAt =
     taskId @ js '':'' @ primitiveId @ js '':'' @ observation_status_name status @ js '':'' @ createdAt"

definition EXECUTION_OBSERVATION_REF_PREFIX :: str where
  "EXECUTION_OBSERVATION_REF_PREFIX = js ''execution-observation:''"

definition createExecutionObservationRef :: "str \<Rightarrow> err + str" where
  "createExecutionObservationRef observationId =
     (if observationId = [] then Inl (Err (js ''execution_observation_ref_requires_observation_id''))
      else Inr (EXECUTION_OBSERVATION_REF_PREFIX @ observationId))"

text \<open>The parsed reference is its observation id (the kind is constant and the text is the argument).\<close>

definition parseExecutionObservationRef :: "str \<Rightarrow> str option" where
  "parseExecutionObservationRef ref =
     (if \<not> startsWith ref EXECUTION_OBSERVATION_REF_PREFIX then None
      else let observationId = drop (length EXECUTION_OBSERVATION_REF_PREFIX) ref
           in if observationId = [] then None else Some observationId)"

text \<open>The in-memory store is the list of what was emitted.\<close>

definition obs_emit :: "observation \<Rightarrow> (observation list, err, unit) sx" where
  "obs_emit x = sx_bind (sx_lift (parseExecutionObservation x)) (\<lambda>parsed. sx_modify (\<lambda>xs. xs @ [parsed]))"

definition obs_findByTaskId :: "str \<Rightarrow> observation list \<Rightarrow> observation list" where
  "obs_findByTaskId taskId xs = filter (\<lambda>x. ob_taskId x = taskId) xs"

definition resolveExecutionObservationRef :: "observation list \<Rightarrow> str \<Rightarrow> str \<Rightarrow> observation option" where
  "resolveExecutionObservationRef xs taskId ref =
     (case parseExecutionObservationRef ref of None \<Rightarrow> None
      | Some observationId \<Rightarrow> find (\<lambda>x. ob_taskId x = taskId \<and> ob_observationId x = observationId) (obs_findByTaskId taskId xs))"

section \<open>Strikes\<close>

definition kind_strikes :: "gov_state \<Rightarrow> str \<Rightarrow> nat list" where
  "kind_strikes s k = map an_strikeNumber (filter (\<lambda>a. an_kind a = k) (gs_anomalies s))"

definition struck_out :: "gov_state \<Rightarrow> bool" where
  "struck_out s \<longleftrightarrow> (\<exists>k. 3 \<le> same_kind_count s k)"

lemma with_strike_simps [simp]:
  "an_kind (with_strike a n) = an_kind a" "an_strikeNumber (with_strike a n) = n"
  "an_evidenceRefs (with_strike a n) = an_evidenceRefs a"
  by (simp_all add: with_strike_def anomaly_report.defs anomaly.defs)

lemma foldl_max_ge: "n \<le> foldl max m xs \<longleftrightarrow> n \<le> m \<or> (\<exists>x \<in> set xs. n \<le> (x :: nat))"
  by (induction xs arbitrary: m) (auto simp: le_max_iff_disj)

lemma max_strike_ge: "3 \<le> max_strike s \<longleftrightarrow> (\<exists>a \<in> set (gs_anomalies s). 3 \<le> an_strikeNumber a)"
  by (simp add: max_strike_def foldl_max_ge)

lemma recordAnomaly_Inr:
  "recordAnomaly s a = Inr s' \<longleftrightarrow> GovernanceStateSchema s \<and> GovernanceStateSchema s' \<and>
   s' = s\<lparr>gs_anomalies := gs_anomalies s @ [with_strike a (min (same_kind_count s (an_kind a) + 1) 3)],
     gs_phase := (if 3 \<le> min (same_kind_count s (an_kind a) + 1) 3 then PhRecovery else gs_phase s),
     gs_updatedAt := an_createdAt a\<rparr>"
  by (auto simp: recordAnomaly_def parseGovernanceState_def Let_def bind_res_Inr)

text \<open>The strikes of each kind count up to three and stay there; only a third strike starts a recovery.\<close>

definition strikes_inv :: "gov_state \<Rightarrow> bool" where
  "strikes_inv s \<longleftrightarrow> (\<forall>k. kind_strikes s k = map (\<lambda>i. min (Suc i) 3) [0..<same_kind_count s k]) \<and>
     (gs_phase s = PhRecovery \<longrightarrow> struck_out s)"

lemma start_inv: "createInitialGovernanceState t d c now = Inr s \<Longrightarrow> strikes_inv s"
  by (auto simp: strikes_inv_def createInitialGovernanceState_def parseGovernanceState_def bind_res_Inr
      kind_strikes_def same_kind_count_def struck_out_def split: if_splits)

text \<open>One more anomaly, numbered by the anomalies of its kind before it.\<close>

lemma strike_appended:
  assumes inv: "strikes_inv s" and app: "gs_anomalies s' = gs_anomalies s @ [a]"
    and n: "an_strikeNumber a = min (same_kind_count s (an_kind a) + 1) 3"
    and phase: "gs_phase s' = PhRecovery \<Longrightarrow> gs_phase s = PhRecovery \<or> an_strikeNumber a = 3"
  shows "strikes_inv s'"
proof -
  have c: "same_kind_count s' k = same_kind_count s k + (if k = an_kind a then 1 else 0)" for k
    by (simp add: app same_kind_count_def)
  have "kind_strikes s' k = kind_strikes s k @ (if k = an_kind a then [an_strikeNumber a] else [])" for k
    by (simp add: app kind_strikes_def)
  with inv have "kind_strikes s' k = map (\<lambda>i. min (Suc i) 3) [0..<same_kind_count s' k]" for k
    by (simp add: strikes_inv_def c n)
  moreover have "struck_out s'" if r: "gs_phase s' = PhRecovery"
  proof -
    from phase [OF r] inv have "\<exists>k. 3 \<le> same_kind_count s k \<or> k = an_kind a \<and> 3 \<le> same_kind_count s k + 1"
      by (auto simp: strikes_inv_def struck_out_def n min_def split: if_splits)
    then obtain k where "3 \<le> same_kind_count s k \<or> k = an_kind a \<and> 3 \<le> same_kind_count s k + 1" by blast
    then have "3 \<le> same_kind_count s' k" by (auto simp: c)
    then show ?thesis by (auto simp: struck_out_def)
  qed
  ultimately show ?thesis by (simp add: strikes_inv_def)
qed

lemma anomaly_inv:
  assumes "strikes_inv s" and "recordAnomaly s a = Inr s'"
  shows "strikes_inv s'"
proof (rule strike_appended [OF assms(1)])
  note s' = assms(2) [unfolded recordAnomaly_Inr]
  let ?a = "with_strike a (min (same_kind_count s (an_kind a) + 1) 3)"
  show "gs_anomalies s' = gs_anomalies s @ [?a]" using s' by simp
  show "gs_phase s = PhRecovery \<or> an_strikeNumber ?a = 3" if "gs_phase s' = PhRecovery"
    using s' that by (auto simp: min_def split: if_splits)
qed simp

lemma strikes_max:
  assumes "strikes_inv s"
  shows "3 \<le> max_strike s \<longleftrightarrow> struck_out s"
proof
  assume "3 \<le> max_strike s"
  then obtain a where a: "a \<in> set (gs_anomalies s)" "3 \<le> an_strikeNumber a" by (auto simp: max_strike_ge)
  then have "an_strikeNumber a \<in> set (kind_strikes s (an_kind a))" by (auto simp: kind_strikes_def)
  with assms have "an_strikeNumber a \<in> (\<lambda>i. min (Suc i) 3) ` {0..<same_kind_count s (an_kind a)}"
    by (simp add: strikes_inv_def)
  with a(2) show "struck_out s" by (auto simp: struck_out_def intro!: exI [of _ "an_kind a"])
next
  assume "struck_out s"
  then obtain k where k: "3 \<le> same_kind_count s k" by (auto simp: struck_out_def)
  then have "3 \<in> (\<lambda>i. min (Suc i) 3) ` {0..<same_kind_count s k}" by (intro image_eqI [of _ _ 2]) auto
  with assms have "3 \<in> set (kind_strikes s k)" by (simp add: strikes_inv_def)
  then show "3 \<le> max_strike s" by (force simp: kind_strikes_def max_strike_ge)
qed

text \<open>What the strategy does with a state.\<close>

lemma routeStrategy_spec:
  "routeStrategyV2 s now = Inr d \<Longrightarrow>
   (requiresHumanStepBack d \<longleftrightarrow> 3 \<le> max_strike s) \<and>
   (isWriteExecutionAllowed d \<longleftrightarrow> max_strike s < 3 \<and> gr_finalRiskLevel (gs_risk s) \<noteq> GrCritical) \<and>
   (0 < ab_executor (sd_agentBudget d) \<longleftrightarrow> isWriteExecutionAllowed d)"
  by (auto simp: routeStrategyV2_def requiresHumanStepBack_def isWriteExecutionAllowed_def split: if_splits)

lemma routeStrategy_total: "gs_taskId s \<noteq> [] \<Longrightarrow> now \<noteq> [] \<Longrightarrow> isOk (routeStrategyV2 s now)"
  by (auto simp: routeStrategyV2_def zod_parse_def StrategyDecisionV2Schema_def)

end
