(* ===== verification/Delegation.thy ===== *)
theory Delegation
  imports GovState
begin

text \<open>
  How far a task may act on its own: \<open>packages/delegation-policy/src/index.ts\<close>. Histories of resumes,
  approvals and rejections, the level they earn, what still needs an approval at a level, proposals
  to raise the level, and the two stores of histories.
\<close>

datatype delegation_level = FullControl | Supervised | Trusted | Autonomous | FullDelegation

text \<open>Recovery actions are strings in this package; it only ever passes these four around.\<close>

datatype recovery_action = ReResume | ReRollback | ReAbort | ReFork

record resume_report =
  rr_taskId :: str
  rr_reason :: str
  rr_actor :: str
  rr_createdAt :: str
  rr_context :: "json option"

record resume_record = resume_report +
  rr_resumeId :: str

record delegation_history =
  dh_taskId :: str
  dh_operationClass :: str
  dh_resumeCount :: nat
  dh_approvalCount :: nat
  dh_rejectionCount :: nat
  dh_lastResumeAt :: "str option"
  dh_firstCreatedAt :: str

definition DelegationHistorySchema :: "delegation_history \<Rightarrow> bool" where
  "DelegationHistorySchema h \<longleftrightarrow> dh_taskId h \<noteq> [] \<and> dh_operationClass h \<noteq> [] \<and>
     opt_all (\<lambda>t. t \<noteq> []) (dh_lastResumeAt h) \<and> dh_firstCreatedAt h \<noteq> []"

definition parseDelegationHistory :: "delegation_history \<Rightarrow> err + delegation_history" where
  "parseDelegationHistory h = zod_parse DelegationHistorySchema h"

datatype proposal_status = PropDraft | PropPending | PropApproved | PropRejected

record proposal =
  pp_proposalId :: str
  pp_taskId :: str
  pp_operationClass :: str
  pp_currentLevel :: delegation_level
  pp_proposedLevel :: delegation_level
  pp_resumeCount :: nat
  pp_auditTrailRefs :: "str list"
  pp_requiredApprovers :: "str list"
  pp_status :: proposal_status
  pp_createdAt :: str

definition createDelegationHistory :: "str \<Rightarrow> str \<Rightarrow> str \<Rightarrow> delegation_history" where
  "createDelegationHistory taskId operationClass now =
     \<lparr>dh_taskId = taskId, dh_operationClass = operationClass, dh_resumeCount = 0, dh_approvalCount = 0,
      dh_rejectionCount = 0, dh_lastResumeAt = None, dh_firstCreatedAt = now\<rparr>"

definition recordResume :: "delegation_history \<Rightarrow> resume_report \<Rightarrow> delegation_history \<times> resume_record" where
  "recordResume history resume =
     (let record = resume_report.extend resume (resume_record.fields
            (rr_taskId resume @ js '':resume:'' @ dec_nat (dh_resumeCount history + 1)))
      in (history\<lparr>dh_resumeCount := dh_resumeCount history + 1, dh_lastResumeAt := Some (rr_createdAt record)\<rparr>, record))"

definition recordApproval :: "delegation_history \<Rightarrow> delegation_history" where
  "recordApproval history = history\<lparr>dh_approvalCount := dh_approvalCount history + 1\<rparr>"

definition recordRejection :: "delegation_history \<Rightarrow> delegation_history" where
  "recordRejection history = history\<lparr>dh_rejectionCount := dh_rejectionCount history + 1\<rparr>"

definition calculateDelegationLevel :: "delegation_history \<Rightarrow> delegation_level" where
  "calculateDelegationLevel history =
     (if 0 < dh_rejectionCount history then FullControl
      else if 5 \<le> dh_resumeCount history then FullDelegation
      else if 3 \<le> dh_resumeCount history then Autonomous
      else if 2 \<le> dh_resumeCount history then Trusted
      else if 1 \<le> dh_resumeCount history then Supervised
      else FullControl)"

definition proposed_level :: "delegation_level \<Rightarrow> delegation_level" where
  "proposed_level currentLevel = (if currentLevel = FullDelegation then FullDelegation
     else if currentLevel = FullControl then Supervised
     else if currentLevel = Supervised then Trusted
     else if currentLevel = Trusted then Autonomous
     else FullDelegation)"

definition or_else :: "'a option \<Rightarrow> 'a \<Rightarrow> 'a" where
  "or_else v d = (case v of None \<Rightarrow> d | Some x \<Rightarrow> x)"

text \<open>The clock is read twice; \<open>now1\<close> and \<open>now2\<close> are what it returned.\<close>

definition generateAdjustmentProposal ::
    "str \<Rightarrow> str \<Rightarrow> delegation_history \<Rightarrow> str list option \<Rightarrow> str list option \<Rightarrow> str \<Rightarrow> str \<Rightarrow> proposal" where
  "generateAdjustmentProposal taskId operationClass history auditTrailRefs requiredApprovers now1 now2 =
     (let currentLevel = calculateDelegationLevel history
      in \<lparr>pp_proposalId = taskId @ js '':proposal:'' @ now1, pp_taskId = taskId, pp_operationClass = operationClass,
          pp_currentLevel = currentLevel, pp_proposedLevel = proposed_level currentLevel,
          pp_resumeCount = dh_resumeCount history, pp_auditTrailRefs = or_else auditTrailRefs [],
          pp_requiredApprovers = or_else requiredApprovers [js ''human''], pp_status = PropPending,
          pp_createdAt = now2\<rparr>)"

definition delegationRequiresApproval :: "delegation_level \<Rightarrow> risk_score \<Rightarrow> bool \<Rightarrow> bool \<Rightarrow> bool" where
  "delegationRequiresApproval level riskLevel isIrreversible isHighRiskOperation \<longleftrightarrow>
     (if isIrreversible then True
      else if isHighRiskOperation \<and> (level = FullControl \<or> level = Supervised) then True
      else if isHighRiskOperation \<and> gr_finalRiskLevel riskLevel = GrCritical then True
      else if level = FullDelegation then False
      else if level = Autonomous then gr_finalRiskLevel riskLevel = GrHigh \<or> gr_finalRiskLevel riskLevel = GrCritical
      else if level = Trusted then gr_finalRiskLevel riskLevel \<noteq> GrLow
      else if level = Supervised then gr_finalRiskLevel riskLevel \<noteq> GrLow
      else True)"

definition getRequiredApprovers :: "delegation_level \<Rightarrow> str \<Rightarrow> str list" where
  "getRequiredApprovers level operationClass =
     (if level = FullDelegation then []
      else if level = Autonomous \<or> level = Trusted then [js ''supervisor'']
      else [js ''human''])"

fun count_approval :: "delegation_history \<Rightarrow> approval_record \<Rightarrow> delegation_history" where
  "count_approval h r = (case ah_action r of
     ActResume \<Rightarrow> h\<lparr>dh_resumeCount := dh_resumeCount h + 1, dh_lastResumeAt := Some (ah_createdAt r)\<rparr>
   | ActApprove \<Rightarrow> h\<lparr>dh_approvalCount := dh_approvalCount h + 1\<rparr>
   | ActReject \<Rightarrow> h\<lparr>dh_rejectionCount := dh_rejectionCount h + 1\<rparr>
   | _ \<Rightarrow> h)"

definition deriveDelegationFromApprovals :: "approval_record list \<Rightarrow> str \<Rightarrow> str \<Rightarrow> str \<Rightarrow> delegation_history" where
  "deriveDelegationFromApprovals approvals taskId operationClass now =
     foldl count_approval (createDelegationHistory taskId operationClass
       (case approvals of [] \<Rightarrow> now | r # _ \<Rightarrow> ah_createdAt r)) approvals"

definition delegationLevelToHistoricalTrust :: "delegation_level \<Rightarrow> rat" where
  "delegationLevelToHistoricalTrust level = (case level of FullDelegation \<Rightarrow> num 95 100 | Autonomous \<Rightarrow> num 85 100 |
     Trusted \<Rightarrow> num 70 100 | Supervised \<Rightarrow> num 50 100 | FullControl \<Rightarrow> num 30 100)"

definition approveProposal :: "proposal \<Rightarrow> proposal" where "approveProposal p = p\<lparr>pp_status := PropApproved\<rparr>"
definition rejectProposal :: "proposal \<Rightarrow> proposal" where "rejectProposal p = p\<lparr>pp_status := PropRejected\<rparr>"

definition applyApprovedProposal :: "proposal \<Rightarrow> delegation_level" where
  "applyApprovedProposal p = (if pp_status p \<noteq> PropApproved then pp_currentLevel p else pp_proposedLevel p)"

definition allRecoveryActions :: "recovery_action list" where
  "allRecoveryActions = [ReResume, ReRollback, ReAbort, ReFork]"

definition filterRecoveryActions :: "delegation_level \<Rightarrow> recovery_action list \<Rightarrow> recovery_action list" where
  "filterRecoveryActions level allActions = (case level of
     FullControl \<Rightarrow> [ReResume, ReAbort]
   | Supervised \<Rightarrow> [ReResume, ReRollback, ReAbort]
   | _ \<Rightarrow> allActions)"

section \<open>The stores\<close>

text \<open>
  In memory a map by task id. On disk one file per task, named after the task with every other
  character replaced; the file's text is its history, and what does not parse is not there.
\<close>

type_synonym histories = "(str \<times> delegation_history) list"

definition rec_save :: "delegation_history \<Rightarrow> histories \<Rightarrow> histories" where
  "rec_save h m = AList.update (dh_taskId h) h m"

definition rec_load :: "str \<Rightarrow> histories \<Rightarrow> delegation_history option" where
  "rec_load taskId m = map_of m taskId"

definition history_file :: "str \<Rightarrow> str" where
  "history_file taskId = sanitizeIdPart taskId @ js ''.json''"

definition filed_save :: "delegation_history \<Rightarrow> histories \<Rightarrow> histories" where
  "filed_save h disk = AList.update (history_file (dh_taskId h)) h disk"

definition filed_load :: "str \<Rightarrow> histories \<Rightarrow> delegation_history option" where
  "filed_load taskId disk = (case map_of disk (history_file taskId) of None \<Rightarrow> None
     | Some h \<Rightarrow> (if DelegationHistorySchema h then Some h else None))"

text \<open>The contract of \<open>DelegationHistoryStore\<close> on the histories it is used for.\<close>

locale delegation_store =
  fixes save :: "delegation_history \<Rightarrow> 's \<Rightarrow> 's"
    and load :: "str \<Rightarrow> 's \<Rightarrow> delegation_history option"
    and new :: 's
    and usable :: "delegation_history \<Rightarrow> bool"
    and known :: "str \<Rightarrow> bool"
  assumes load_new: "load t new = None"
    and load_saved: "usable h \<Longrightarrow> load (dh_taskId h) (save h s) = Some h"
    and load_other: "usable h \<Longrightarrow> known t \<Longrightarrow> t \<noteq> dh_taskId h \<Longrightarrow> load t (save h s) = load t s"
begin

definition saved :: "delegation_history list \<Rightarrow> 's" where
  "saved hs = foldl (\<lambda>s h. save h s) new hs"

lemma load_latest:
  assumes "list_all usable hs" and "known t"
  shows "load t (saved hs) = find (\<lambda>h. dh_taskId h = t) (rev hs)"
  using assms(1)
proof (induction hs rule: rev_induct)
  case Nil
  then show ?case by (simp add: saved_def load_new)
next
  case (snoc h hs)
  then show ?case using assms(2) by (cases "dh_taskId h = t") (auto simp: saved_def load_saved load_other)
qed

end

text \<open>A task id whose file belongs to it alone.\<close>

definition plain_task_id :: "str \<Rightarrow> bool" where
  "plain_task_id t \<longleftrightarrow> list_all is_id_char t"

definition storable :: "delegation_history \<Rightarrow> bool" where
  "storable h \<longleftrightarrow> DelegationHistorySchema h \<and> plain_task_id (dh_taskId h)"

lemma plain_file: "plain_task_id t \<Longrightarrow> history_file t = t @ js ''.json''"
  by (induction t) (auto simp: plain_task_id_def history_file_def sanitizeIdPart_def)

interpretation recorded_histories: delegation_store rec_save rec_load "[]" "\<lambda>_. True" "\<lambda>_. True"
  by unfold_locales (auto simp: rec_save_def rec_load_def map_of_update)

interpretation filed_histories: delegation_store filed_save filed_load "[]" storable plain_task_id
  by unfold_locales (auto simp: filed_save_def filed_load_def map_of_update storable_def plain_file)

definition rec_histories :: "delegation_history list \<Rightarrow> histories" where
  "rec_histories hs = foldl (\<lambda>s h. rec_save h s) [] hs"

definition file_histories :: "delegation_history list \<Rightarrow> histories" where
  "file_histories hs = foldl (\<lambda>s h. filed_save h s) [] hs"

text \<open>
  The two stores of delegation histories agree. After any saves of valid histories whose task ids
  are made of letters, digits, dashes and underscores, both answer a load with the last history
  saved for that task.
\<close>

theorem delegation_stores_agree:
  assumes "list_all storable hs" and "plain_task_id t"
  shows "filed_load t (file_histories hs) = rec_load t (rec_histories hs) \<and>
    rec_load t (rec_histories hs) = find (\<lambda>h. dh_taskId h = t) (rev hs)"
  using filed_histories.load_latest [OF assms] recorded_histories.load_latest [of hs t]
  by (simp add: rec_histories_def file_histories_def recorded_histories.saved_def filed_histories.saved_def list_all_iff)

definition demo_delegation :: "string \<Rightarrow> delegation_history" where
  "demo_delegation t = createDelegationHistory (js t) (js ''edit'') (js ''2024-01-01T00:00:00.000Z'')"

theorem delegation_stores_agree_witness:
  "filed_load (js ''t1'') (file_histories [demo_delegation ''t1'', recordRejection (demo_delegation ''t1'')]) =
     Some (recordRejection (demo_delegation ''t1''))"
proof -
  let ?hs = "[demo_delegation ''t1'', recordRejection (demo_delegation ''t1'')]"
  have 1: "list_all storable ?hs" by code_simp
  have 2: "plain_task_id (js ''t1'')" by code_simp
  from delegation_stores_agree [OF 1 2] show ?thesis
    by (simp add: demo_delegation_def createDelegationHistory_def recordRejection_def)
qed

text \<open>For other ids the files collide: one task is answered with the history of another.\<close>

lemma history_files_collide:
  "filed_load (js ''a_b'') (file_histories [demo_delegation ''a/b'']) = Some (demo_delegation ''a/b'') \<and>
   dh_taskId (demo_delegation ''a/b'') \<noteq> js ''a_b''"
  by code_simp

section \<open>Levels\<close>

fun level_rank :: "delegation_level \<Rightarrow> nat" where
  "level_rank FullControl = 0" | "level_rank Supervised = 1" | "level_rank Trusted = 2"
| "level_rank Autonomous = 3" | "level_rank FullDelegation = 4"

fun gov_risk_rank :: "gov_risk \<Rightarrow> nat" where
  "gov_risk_rank GrLow = 0" | "gov_risk_rank GrMedium = 1" | "gov_risk_rank GrHigh = 2" | "gov_risk_rank GrCritical = 3"

lemma requires_iff: "delegationRequiresApproval l r irr high \<longleftrightarrow> irr \<or> level_rank l = 0 \<or>
   high \<and> (level_rank l \<le> 1 \<or> gov_risk_rank (gr_finalRiskLevel r) = 3) \<or>
   level_rank l \<le> 2 \<and> 1 \<le> gov_risk_rank (gr_finalRiskLevel r) \<or>
   level_rank l \<le> 3 \<and> 2 \<le> gov_risk_rank (gr_finalRiskLevel r)"
  by (cases l; cases "gr_finalRiskLevel r"; simp add: delegationRequiresApproval_def)

lemma gov_risk_le: "gov_risk_rank x \<le> 3"
  by (cases x) simp_all

text \<open>
  Trust and risk pull in the right directions: an approval that is needed at some level is needed
  at every lower level, at every higher risk, and for every more dangerous operation.
\<close>

lemma approvals_antitone:
  assumes "level_rank l' \<le> level_rank l" and "gov_risk_rank (gr_finalRiskLevel r) \<le> gov_risk_rank (gr_finalRiskLevel r')"
    and "irr \<longrightarrow> irr'" and "high \<longrightarrow> high'" and "delegationRequiresApproval l r irr high"
  shows "delegationRequiresApproval l' r' irr' high'"
  using assms gov_risk_le [of "gr_finalRiskLevel r'"] unfolding requires_iff by auto

text \<open>The resumes a history needs before an operation of a risk is free of approval; None if never.\<close>

fun resumes_needed :: "gov_risk \<Rightarrow> bool \<Rightarrow> nat option" where
  "resumes_needed GrLow high = Some (if high then 2 else 1)"
| "resumes_needed GrMedium high = Some 3"
| "resumes_needed GrHigh high = Some 5"
| "resumes_needed GrCritical high = (if high then None else Some 5)"

lemma level_rank_earned:
  "level_rank (calculateDelegationLevel h) =
     (if 0 < dh_rejectionCount h \<or> dh_resumeCount h = 0 then 0 else if dh_resumeCount h = 1 then 1
      else if dh_resumeCount h = 2 then 2 else if dh_resumeCount h \<le> 4 then 3 else 4)"
  by (simp add: calculateDelegationLevel_def)

text \<open>
  C31: Exactly what a task must have earned to act without an approval. At the level its history
  earns, an operation is free of approval exactly when it is reversible, no operator ever rejected
  the task, and the task has been resumed often enough for the risk: once at low risk (twice for a
  high-risk operation), three times at medium risk, five times at high and at critical risk, and never
  for a high-risk operation at critical risk. So an irreversible action needs an approval at every level.
\<close>

theorem approval_waived_iff:
  "\<not> delegationRequiresApproval (calculateDelegationLevel h) r irr high \<longleftrightarrow>
     \<not> irr \<and> dh_rejectionCount h = 0 \<and>
     (\<exists>n. resumes_needed (gr_finalRiskLevel r) high = Some n \<and> n \<le> dh_resumeCount h)"
  by (cases "gr_finalRiskLevel r") (auto simp: requires_iff level_rank_earned)

text \<open>What earns a level: no rejection ever, and resumes, whatever came between them.\<close>

lemma counted:
  "dh_resumeCount (foldl count_approval h rs) = dh_resumeCount h + length (filter (\<lambda>r. ah_action r = ActResume) rs) \<and>
   dh_rejectionCount (foldl count_approval h rs) = dh_rejectionCount h + length (filter (\<lambda>r. ah_action r = ActReject) rs)"
  by (induction rs arbitrary: h) (auto split: approval_action.splits)

lemma level_steps: "(if 5 \<le> n then FullDelegation else if 3 \<le> n then Autonomous else if 2 \<le> n then Trusted
     else if 1 \<le> n then Supervised else FullControl) =
   (if n = 0 then FullControl else if n = 1 then Supervised else if n = 2 then Trusted
     else if n \<le> (4 :: nat) then Autonomous else FullDelegation)"
  by simp

text \<open>
  The level a log of approvals earns. One rejection anywhere in the log, however old, leaves full
  control; otherwise only the number of resumes counts, so the level grows with the log and the
  aborts and rollbacks in it change nothing.
\<close>

theorem earned_level:
  "calculateDelegationLevel (deriveDelegationFromApprovals approvals t c now) =
     (let n = length (filter (\<lambda>r. ah_action r = ActResume) approvals) in
      if \<exists>r \<in> set approvals. ah_action r = ActReject then FullControl
      else if n = 0 then FullControl else if n = 1 then Supervised else if n = 2 then Trusted
      else if n \<le> 4 then Autonomous else FullDelegation)"
proof -
  let ?h = "createDelegationHistory t c (case approvals of [] \<Rightarrow> now | r # _ \<Rightarrow> ah_createdAt r)"
  have "0 < dh_rejectionCount (foldl count_approval ?h approvals) \<longleftrightarrow> (\<exists>r \<in> set approvals. ah_action r = ActReject)"
    by (simp add: counted createDelegationHistory_def filter_empty_conv)
  moreover have "dh_resumeCount (foldl count_approval ?h approvals) = length (filter (\<lambda>r. ah_action r = ActResume) approvals)"
    by (simp add: counted createDelegationHistory_def)
  ultimately show ?thesis
    unfolding deriveDelegationFromApprovals_def calculateDelegationLevel_def Let_def by (simp only: level_steps)
qed

text \<open>\<open>filterRecoveryActions\<close> returns actions that were not among those offered.\<close>

lemma filter_invents_actions:
  "ReResume \<in> set (filterRecoveryActions FullControl [ReFork])" "ReFork \<notin> set (filterRecoveryActions FullControl [ReFork])"
  by (simp_all add: filterRecoveryActions_def)

lemma level_actions: "set (filterRecoveryActions level allRecoveryActions) \<subseteq> set allRecoveryActions \<and>
   ReResume \<in> set (filterRecoveryActions level allRecoveryActions) \<and> ReAbort \<in> set (filterRecoveryActions level allRecoveryActions)"
  by (cases level) (auto simp: filterRecoveryActions_def allRecoveryActions_def)

end
