(* ===== verification/EntropyRisk.thy ===== *)
theory EntropyRisk
  imports Delegation
begin

text \<open>
  \<open>packages/governance-internal-entropy-risk/src/index.ts\<close>: the seven risk dimensions of a task, from
  its envelope, what was observed, and the level of delegation. Every sum and product is the rounded
  one of \<open>JsNumber\<close>, in the order of the source. \<open>toLowerCase\<close> is the argument \<open>lower\<close>.
\<close>

definition scoreEntanglement :: "task_envelope \<Rightarrow> rat" where
  "scoreEntanglement task =
     (let fileCount = of_nat (length (envelope_target.tt_files (te_target task)));
          moduleCount = of_nat (length (envelope_target.tt_modules (te_target task)));
          branchCount = of_nat (length (envelope_target.tt_branches (te_target task)))
      in clamp01 (jadd (jadd (jmul fileCount (num 8 100)) (jmul moduleCount (num 12 100))) (jmul branchCount (num 1 10))))"

definition obs_count :: "(observation \<Rightarrow> bool) \<Rightarrow> observation list \<Rightarrow> rat" where
  "obs_count P observations = of_nat (length (filter P observations))"

definition scoreEntropy :: "observation list \<Rightarrow> rat" where
  "scoreEntropy observations =
     (if observations = [] then num 1 10
      else let failed = obs_count (\<lambda>x. ob_status x = ObsFailed) observations;
               blocked = obs_count (\<lambda>x. ob_status x = ObsBlocked) observations;
               conflicted = obs_count (\<lambda>x. sg_contextConflict (ob_signals x) = Some True) observations;
               drifted = obs_count (\<lambda>x. sg_outputDrift (ob_signals x) = Some True) observations
           in clamp01 (jadd (jadd (jadd (jmul failed (num 18 100)) (jmul blocked (num 2 10)))
                (jmul conflicted (num 25 100))) (jmul drifted (num 2 10))))"

definition add_if :: "bool \<Rightarrow> rat \<Rightarrow> rat \<Rightarrow> rat" where
  "add_if b x score = (if b then jadd score x else score)"

definition scoreFailureCost :: "(str \<Rightarrow> str) \<Rightarrow> task_envelope \<Rightarrow> rat" where
  "scoreFailureCost lower task =
     (let haystack = task_haystack lower task;
          score1 = add_if (rc_protectedBranch (te_repoContext task) = Some True) (num 35 100) (num 1 10);
          score2 = add_if (tc_requiresNetwork (te_constraints task) = Some True) (num 2 10) score1;
          score3 = add_if (str_includes haystack (js ''delete'') \<or> str_includes haystack (js ''remove'')) (num 25 100) score2;
          score4 = add_if (str_includes haystack (js ''deploy'') \<or> str_includes haystack (js ''release'')) (num 35 100) score3;
          score5 = add_if (str_includes haystack (js ''migration'')) (num 25 100) score4
      in clamp01 score5)"

definition latency_of :: "observation \<Rightarrow> rat" where
  "latency_of x = or_else (sg_latencyPressure (ob_signals x)) 0"

definition scoreContextPressure :: "observation list \<Rightarrow> rat" where
  "scoreContextPressure observations = (case observations of [] \<Rightarrow> num 1 10
     | x # xs \<Rightarrow>
       (let maxLatencyPressure = foldl max (latency_of x) (map latency_of xs);
            blockedCount = obs_count (\<lambda>x. ob_status x = ObsBlocked) observations
        in clamp01 (jadd maxLatencyPressure (jmul blockedCount (num 15 100)))))"

definition toRiskLevel :: "rat \<Rightarrow> gov_risk" where
  "toRiskLevel score = (if num 75 100 \<le> score then GrCritical else if num 5 10 \<le> score then GrHigh
     else if num 3 10 \<le> score then GrMedium else GrLow)"

definition raw_risk :: "rat \<Rightarrow> rat \<Rightarrow> rat \<Rightarrow> rat \<Rightarrow> rat \<Rightarrow> rat" where
  "raw_risk entanglement entropy failureCost contextPressure globalCoherence =
     jadd (jadd (jadd (jadd (jmul entanglement (num 2 10)) (jmul entropy (num 25 100)))
       (jmul failureCost (num 25 100))) (jmul contextPressure (num 2 10)))
       (jmul (jsub 1 globalCoherence) (num 1 10))"

definition scoreGovernanceRisk ::
    "(str \<Rightarrow> str) \<Rightarrow> task_envelope \<Rightarrow> observation list \<Rightarrow> delegation_level option \<Rightarrow> risk_score" where
  "scoreGovernanceRisk lower task observations level =
     (let entanglement = scoreEntanglement task;
          entropy = scoreEntropy observations;
          failureCost = scoreFailureCost lower task;
          contextPressure = scoreContextPressure observations;
          globalCoherence = (if list_ex (\<lambda>x. sg_contextConflict (ob_signals x) = Some True) observations
            then num 4 10 else num 8 10)
      in \<lparr>gr_entanglement = entanglement, gr_entropy = entropy, gr_failureCost = failureCost,
          gr_reversibility = jsub 1 failureCost, gr_contextPressure = contextPressure,
          gr_historicalTrust = (case level of None \<Rightarrow> num 5 10 | Some l \<Rightarrow> delegationLevelToHistoricalTrust l),
          gr_globalCoherence = globalCoherence,
          gr_finalRiskLevel = toRiskLevel (raw_risk entanglement entropy failureCost contextPressure globalCoherence)\<rparr>)"

section \<open>The scores are scores\<close>

lemma unit_clamp: "unit_range (clamp01 x)"
  using clamp01_unit [of x] by (simp add: unit_range_def)

lemma unit_num: "p \<le> q \<Longrightarrow> 0 < q \<Longrightarrow> unit_range (num p q)"
  unfolding num_def unit_range_def by (rule dround_unit) (auto simp: divide_le_eq)

lemma unit_complement: "unit_range x \<Longrightarrow> unit_range (jsub 1 x)"
  unfolding jsub_def unit_range_def by (rule dround_unit) auto

text \<open>
  Whatever the task, the observations and the level, the risk score is one: every dimension lies
  between 0 and 1 after all roundings, so the score can be stored in a governance state. The
  dimension for historical trust has no influence on the resulting risk level.
\<close>

theorem risk_scores_in_range:
  "GovernanceRiskScoreSchema (scoreGovernanceRisk lower task observations level) \<and>
   gr_finalRiskLevel (scoreGovernanceRisk lower task observations level) =
     gr_finalRiskLevel (scoreGovernanceRisk lower task observations level')"
proof -
  have entropy: "unit_range (scoreEntropy observations)"
    by (simp add: scoreEntropy_def Let_def unit_clamp unit_num)
  have pressure: "unit_range (scoreContextPressure observations)"
    by (simp add: scoreContextPressure_def Let_def unit_clamp unit_num split: list.split)
  have cost: "unit_range (scoreFailureCost lower task)"
    by (simp add: scoreFailureCost_def Let_def unit_clamp)
  have trust: "unit_range (delegationLevelToHistoricalTrust l)" for l
    by (cases l) (simp_all add: delegationLevelToHistoricalTrust_def unit_num)
  show ?thesis
    by (auto simp: scoreGovernanceRisk_def GovernanceRiskScoreSchema_def Let_def entropy pressure cost trust
        unit_complement unit_num scoreEntanglement_def unit_clamp split: option.split)
qed

end
