(* ===== verification/Recovery.thy ===== *)
theory Recovery
  imports EntropyRisk
begin

text \<open>
  What happens after anomalies: the core of \<open>packages/governance-internal-recovery-control/src/index.ts\<close>
  (recommendations, arbitration packets, operator actions and their envelopes) and
  \<open>packages/governance-failure-reducer/src/index.ts\<close>, which turns one execution failure into a new
  governance state, strategy and packet.
\<close>

section \<open>Recommendations\<close>

datatype recovery_reason = FirstResume | SecondReview | ThirdRollback | ThirdFork | ThirdAbort | ManualReview
datatype evidence_status = EvReferenced | EvMissing
datatype arbitration_trigger = FirstAnomaly | SecondAnomaly | ThirdAnomaly | ManualTrigger

record recommendation =
  rm_action :: recovery_action
  rm_reasonCode :: recovery_reason
  rm_requiresHumanApproval :: bool
  rm_evidenceStatus :: evidence_status
  rm_evidenceRefs :: "str list"
  rm_checkpointRef :: "str option"
  rm_summary :: str

record expected_shape =
  xs_action :: recovery_action
  xs_requiresHumanApproval :: bool
  xs_checkpointRequired :: bool

definition expectedRecommendationShape :: "recovery_reason \<Rightarrow> expected_shape" where
  "expectedRecommendationShape reasonCode = (case reasonCode of
     FirstResume \<Rightarrow> \<lparr>xs_action = ReResume, xs_requiresHumanApproval = False, xs_checkpointRequired = False\<rparr>
   | SecondReview \<Rightarrow> \<lparr>xs_action = ReResume, xs_requiresHumanApproval = True, xs_checkpointRequired = False\<rparr>
   | ThirdRollback \<Rightarrow> \<lparr>xs_action = ReRollback, xs_requiresHumanApproval = True, xs_checkpointRequired = True\<rparr>
   | ThirdFork \<Rightarrow> \<lparr>xs_action = ReFork, xs_requiresHumanApproval = True, xs_checkpointRequired = False\<rparr>
   | ThirdAbort \<Rightarrow> \<lparr>xs_action = ReAbort, xs_requiresHumanApproval = True, xs_checkpointRequired = False\<rparr>
   | ManualReview \<Rightarrow> \<lparr>xs_action = ReResume, xs_requiresHumanApproval = True, xs_checkpointRequired = False\<rparr>)"

text \<open>\<open>addRecommendationShapeIssues\<close> adds no issue.\<close>

definition recommendation_shape_ok :: "recovery_reason \<Rightarrow> recovery_action \<Rightarrow> bool \<Rightarrow> str option \<Rightarrow> bool" where
  "recommendation_shape_ok reasonCode action requiresHumanApproval checkpointRef \<longleftrightarrow>
     (let expected = expectedRecommendationShape reasonCode in
      action = xs_action expected \<and>
      (xs_requiresHumanApproval expected \<longrightarrow> requiresHumanApproval) \<and>
      (if xs_checkpointRequired expected then checkpointRef \<noteq> None else checkpointRef = None))"

definition evidence_ok :: "evidence_status \<Rightarrow> str list \<Rightarrow> bool" where
  "evidence_ok status refs \<longleftrightarrow> (case status of EvMissing \<Rightarrow> refs = [] | EvReferenced \<Rightarrow> refs \<noteq> [])"

definition RecoveryRecommendationSchema :: "recommendation \<Rightarrow> bool" where
  "RecoveryRecommendationSchema r \<longleftrightarrow> opt_all (\<lambda>c. c \<noteq> []) (rm_checkpointRef r) \<and> rm_summary r \<noteq> [] \<and>
     evidence_ok (rm_evidenceStatus r) (rm_evidenceRefs r) \<and>
     recommendation_shape_ok (rm_reasonCode r) (rm_action r) (rm_requiresHumanApproval r) (rm_checkpointRef r)"

definition recommendationReasonMatchesTrigger :: "recovery_reason \<Rightarrow> arbitration_trigger \<Rightarrow> bool" where
  "recommendationReasonMatchesTrigger reasonCode trigger = (case trigger of
     FirstAnomaly \<Rightarrow> reasonCode = FirstResume
   | SecondAnomaly \<Rightarrow> reasonCode = SecondReview
   | ThirdAnomaly \<Rightarrow> reasonCode \<in> {ThirdRollback, ThirdFork, ThirdAbort}
   | ManualTrigger \<Rightarrow> reasonCode = ManualReview)"

definition createRecoveryRecommendation ::
    "gov_state \<Rightarrow> arbitration_trigger \<Rightarrow> str list \<Rightarrow> recovery_action list \<Rightarrow> delegation_level option \<Rightarrow> err + recommendation" where
  "createRecoveryRecommendation state trigger rawEvidenceRefs availableActions level =
     (let evidenceStatus = (if rawEvidenceRefs \<noteq> [] then EvReferenced else EvMissing);
          firstAnomalyRequiresHumanApproval = (level = Some FullControl);
          make = (\<lambda>action reason approval checkpoint summary. zod_parse RecoveryRecommendationSchema
            \<lparr>rm_action = action, rm_reasonCode = reason, rm_requiresHumanApproval = approval,
             rm_evidenceStatus = evidenceStatus, rm_evidenceRefs = rawEvidenceRefs, rm_checkpointRef = checkpoint,
             rm_summary = js summary\<rparr>)
      in case trigger of
        ThirdAnomaly \<Rightarrow>
          (if gs_latestCheckpointId state \<noteq> None \<and> ReRollback \<in> set availableActions
           then make ReRollback ThirdRollback True (gs_latestCheckpointId state)
             ''Rollback to the latest checkpoint before any resume attempt.''
           else if ReFork \<in> set availableActions
           then make ReFork ThirdFork True None
             ''Fork an isolated recovery context and require human arbitration before continuing.''
           else make (if ReAbort \<in> set availableActions then ReAbort else ReResume) ThirdAbort True None
             ''Stop execution because no reversible recovery action is available.'')
      | SecondAnomaly \<Rightarrow> make ReResume SecondReview True None
          ''Require human review before resuming after a repeated anomaly.''
      | FirstAnomaly \<Rightarrow> make ReResume FirstResume firstAnomalyRequiresHumanApproval None
          (if firstAnomalyRequiresHumanApproval
           then ''Require human approval before resuming after the first anomaly.''
           else ''Resume with monitoring after the first anomaly.'')
      | ManualTrigger \<Rightarrow> make ReResume ManualReview True None
          ''Wait for manual review before changing recovery state.'')"

section \<open>Arbitration\<close>

definition inferTrigger :: "gov_state \<Rightarrow> arbitration_trigger" where
  "inferTrigger state = (let maxStrike = max_strike state in
     if 3 \<le> maxStrike then ThirdAnomaly else if maxStrike = 2 then SecondAnomaly
     else if maxStrike = 1 then FirstAnomaly else ManualTrigger)"

definition collectEvidenceRefs :: "gov_state \<Rightarrow> str list" where
  "collectEvidenceRefs state = uniq (concat (map an_evidenceRefs (gs_anomalies state)))"

record arbitration_packet =
  pk_packetId :: str
  pk_taskId :: str
  pk_trigger :: arbitration_trigger
  pk_currentState :: gov_state
  pk_rawEvidenceRefs :: "str list"
  pk_conflictingSignals :: "str list"
  pk_availableActions :: "recovery_action list"
  pk_recoveryRecommendation :: "recommendation option"
  pk_recommendation :: "str option"
  pk_probabilityPredictionAllowed :: bool
  pk_createdAt :: str

definition ArbitrationPacketSchema :: "arbitration_packet \<Rightarrow> bool" where
  "ArbitrationPacketSchema p \<longleftrightarrow> pk_packetId p \<noteq> [] \<and> pk_taskId p \<noteq> [] \<and> \<not> pk_probabilityPredictionAllowed p \<and>
     pk_createdAt p \<noteq> [] \<and>
     opt_all (\<lambda>r. RecoveryRecommendationSchema r \<and> rm_action r \<in> set (pk_availableActions p) \<and>
        rm_evidenceRefs r = pk_rawEvidenceRefs p \<and>
        recommendationReasonMatchesTrigger (rm_reasonCode r) (pk_trigger p)) (pk_recoveryRecommendation p)"

record arbitration_request =
  ar_state :: gov_state
  ar_trigger :: "arbitration_trigger option"
  ar_rawEvidenceRefs :: "str list option"
  ar_conflictingSignals :: "str list option"
  ar_recommendation :: "str option"
  ar_delegationLevel :: "delegation_level option"

definition createArbitrationPacket :: "arbitration_request \<Rightarrow> str \<Rightarrow> err + arbitration_packet" where
  "createArbitrationPacket input createdAt =
     (let trigger = or_else (ar_trigger input) (inferTrigger (ar_state input));
          rawEvidenceRefs = or_else (ar_rawEvidenceRefs input) (collectEvidenceRefs (ar_state input));
          availableActions = (case ar_delegationLevel input of
            Some l \<Rightarrow> filterRecoveryActions l allRecoveryActions | None \<Rightarrow> allRecoveryActions)
      in bind_res (createRecoveryRecommendation (ar_state input) trigger rawEvidenceRefs availableActions
             (ar_delegationLevel input)) (\<lambda>recoveryRecommendation.
         zod_parse ArbitrationPacketSchema
           \<lparr>pk_packetId = gs_taskId (ar_state input) @ js '':arbitration:'' @ createdAt,
            pk_taskId = gs_taskId (ar_state input), pk_trigger = trigger, pk_currentState = ar_state input,
            pk_rawEvidenceRefs = rawEvidenceRefs, pk_conflictingSignals = or_else (ar_conflictingSignals input) [],
            pk_availableActions = availableActions, pk_recoveryRecommendation = Some recoveryRecommendation,
            pk_recommendation = ar_recommendation input, pk_probabilityPredictionAllowed = False,
            pk_createdAt = createdAt\<rparr>))"

definition shouldLockdown :: "arbitration_packet \<Rightarrow> bool" where
  "shouldLockdown packet \<longleftrightarrow> pk_trigger packet = ThirdAnomaly"

section \<open>Operator actions\<close>

record operator_action =
  oa_taskId :: str
  oa_trigger :: arbitration_trigger
  oa_recommendedAction :: recovery_action
  oa_reasonCode :: recovery_reason
  oa_summary :: str
  oa_requiresHumanApproval :: bool
  oa_lockdown :: bool
  oa_evidenceStatus :: evidence_status
  oa_evidenceRefs :: "str list"
  oa_checkpointRef :: "str option"
  oa_availableActions :: "recovery_action list"
  oa_blockingReasons :: "str list"

definition RecoveryOperatorActionSchema :: "operator_action \<Rightarrow> bool" where
  "RecoveryOperatorActionSchema v \<longleftrightarrow> oa_taskId v \<noteq> [] \<and> oa_summary v \<noteq> [] \<and> opt_all (\<lambda>c. c \<noteq> []) (oa_checkpointRef v) \<and>
     oa_recommendedAction v \<in> set (oa_availableActions v) \<and>
     evidence_ok (oa_evidenceStatus v) (oa_evidenceRefs v) \<and>
     recommendation_shape_ok (oa_reasonCode v) (oa_recommendedAction v) (oa_requiresHumanApproval v) (oa_checkpointRef v) \<and>
     recommendationReasonMatchesTrigger (oa_reasonCode v) (oa_trigger v) \<and>
     (oa_trigger v = ThirdAnomaly \<longrightarrow> oa_lockdown v)"

definition createRecoveryOperatorAction ::
    "arbitration_packet \<Rightarrow> recommendation \<Rightarrow> bool \<Rightarrow> str list option \<Rightarrow> err + operator_action" where
  "createRecoveryOperatorAction packet recommendation lockdown blockingReasons =
     zod_parse RecoveryOperatorActionSchema
       \<lparr>oa_taskId = pk_taskId packet, oa_trigger = pk_trigger packet, oa_recommendedAction = rm_action recommendation,
        oa_reasonCode = rm_reasonCode recommendation, oa_summary = rm_summary recommendation,
        oa_requiresHumanApproval = rm_requiresHumanApproval recommendation, oa_lockdown = lockdown,
        oa_evidenceStatus = rm_evidenceStatus recommendation, oa_evidenceRefs = rm_evidenceRefs recommendation,
        oa_checkpointRef = rm_checkpointRef recommendation, oa_availableActions = pk_availableActions packet,
        oa_blockingReasons = or_else blockingReasons []\<rparr>"

definition artifact_char :: "cu \<Rightarrow> bool" where
  "artifact_char c \<longleftrightarrow> is_lower c \<or> is_upper c \<or> is_digit c \<or> c = DOT \<or> c = 95 \<or> c = 45"

definition isSafeArtifactId :: "str \<Rightarrow> bool" where
  "isSafeArtifactId artifactId \<longleftrightarrow>
     (case artifactId of [] \<Rightarrow> False
      | c # cs \<Rightarrow> (is_lower c \<or> is_upper c \<or> is_digit c) \<and> list_all artifact_char cs) \<and>
     \<not> str_includes artifactId (js ''..'') \<and> \<not> str_includes artifactId (js ''/'') \<and> 92 \<notin> set artifactId"

definition isArtifactEvidenceRef :: "str \<Rightarrow> bool" where
  "isArtifactEvidenceRef ref \<longleftrightarrow> startsWith ref (js ''artifact:'') \<and> isSafeArtifactId (drop 9 ref)"

datatype envelope_source_kind = PreflightGovernance | ExecutionGovernance | DesktopLiveGovernance | HostDispatchGovernance

record action_envelope =
  ae_source :: envelope_source_kind
  ae_taskId :: str
  ae_trigger :: arbitration_trigger
  ae_recommendedAction :: recovery_action
  ae_requiresHumanApproval :: bool
  ae_lockdown :: bool
  ae_checkpointRef :: "str option"
  ae_blockingReasons :: "str list"
  ae_evidenceRefs :: "str list"
  ae_artifactRefs :: "str list"

definition GovernanceOperatorActionEnvelopeSchema :: "action_envelope \<Rightarrow> bool" where
  "GovernanceOperatorActionEnvelopeSchema v \<longleftrightarrow> ae_taskId v \<noteq> [] \<and> opt_all (\<lambda>c. c \<noteq> []) (ae_checkpointRef v) \<and>
     (ae_trigger v = ThirdAnomaly \<longrightarrow> ae_lockdown v) \<and>
     (ae_trigger v \<noteq> FirstAnomaly \<longrightarrow> ae_requiresHumanApproval v) \<and>
     list_all (\<lambda>ref. isArtifactEvidenceRef ref \<and> ref \<in> set (ae_evidenceRefs v)) (ae_artifactRefs v) \<and>
     (ae_recommendedAction v = ReRollback \<longleftrightarrow> ae_checkpointRef v \<noteq> None)"

definition createGovernanceOperatorActionEnvelope ::
    "envelope_source_kind \<Rightarrow> operator_action option \<Rightarrow> err + action_envelope option" where
  "createGovernanceOperatorActionEnvelope source operatorAction = (case operatorAction of None \<Rightarrow> Inr None
     | Some oa \<Rightarrow> bind_res (zod_parse GovernanceOperatorActionEnvelopeSchema
         \<lparr>ae_source = source, ae_taskId = oa_taskId oa, ae_trigger = oa_trigger oa,
          ae_recommendedAction = oa_recommendedAction oa, ae_requiresHumanApproval = oa_requiresHumanApproval oa,
          ae_lockdown = oa_lockdown oa, ae_checkpointRef = oa_checkpointRef oa,
          ae_blockingReasons = oa_blockingReasons oa, ae_evidenceRefs = oa_evidenceRefs oa,
          ae_artifactRefs = filter isArtifactEvidenceRef (oa_evidenceRefs oa)\<rparr>) (\<lambda>e. Inr (Some e)))"

section \<open>What the pipeline delivers\<close>

definition request_for :: "gov_state \<Rightarrow> delegation_level option \<Rightarrow> arbitration_request" where
  "request_for s level = \<lparr>ar_state = s, ar_trigger = None, ar_rawEvidenceRefs = None, ar_conflictingSignals = None,
     ar_recommendation = None, ar_delegationLevel = level\<rparr>"

definition actions_at :: "delegation_level option \<Rightarrow> recovery_action list" where
  "actions_at level = (case level of Some l \<Rightarrow> filterRecoveryActions l allRecoveryActions | None \<Rightarrow> allRecoveryActions)"

lemma actions_at_mem: "ReResume \<in> set (actions_at level)" "ReAbort \<in> set (actions_at level)"
  by (auto simp: actions_at_def allRecoveryActions_def filterRecoveryActions_def split: option.splits delegation_level.splits)

text \<open>The action, the reason and the approval a trigger leads to.\<close>

definition advice :: "gov_state \<Rightarrow> arbitration_trigger \<Rightarrow> delegation_level option \<Rightarrow> recovery_action \<times> recovery_reason \<times> bool \<times> str option" where
  "advice s trigger level = (case trigger of
     ThirdAnomaly \<Rightarrow> (if gs_latestCheckpointId s \<noteq> None \<and> ReRollback \<in> set (actions_at level)
       then (ReRollback, ThirdRollback, True, gs_latestCheckpointId s)
       else if ReFork \<in> set (actions_at level) then (ReFork, ThirdFork, True, None) else (ReAbort, ThirdAbort, True, None))
   | SecondAnomaly \<Rightarrow> (ReResume, SecondReview, True, None)
   | FirstAnomaly \<Rightarrow> (ReResume, FirstResume, level = Some FullControl, None)
   | ManualTrigger \<Rightarrow> (ReResume, ManualReview, True, None))"

lemma advice_fits:
  "advice s trigger level = (action, reason, approval, checkpoint) \<Longrightarrow>
   action \<in> set (actions_at level) \<and> recommendationReasonMatchesTrigger reason trigger \<and>
   recommendation_shape_ok reason action approval checkpoint \<and>
   (checkpoint = None \<or> checkpoint = gs_latestCheckpointId s)"
  using actions_at_mem [of level]
  by (auto simp: advice_def recommendationReasonMatchesTrigger_def recommendation_shape_ok_def
      expectedRecommendationShape_def simp del: not_None_eq split: arbitration_trigger.splits if_splits)

lemma recommendation_created:
  assumes "opt_all (\<lambda>c. c \<noteq> []) (gs_latestCheckpointId s)"
    and "advice s trigger level = (action, reason, approval, checkpoint)"
  shows "\<exists>text. text \<noteq> [] \<and> createRecoveryRecommendation s trigger refs (actions_at level) level = Inr
    \<lparr>rm_action = action, rm_reasonCode = reason, rm_requiresHumanApproval = approval,
     rm_evidenceStatus = (if refs \<noteq> [] then EvReferenced else EvMissing), rm_evidenceRefs = refs,
     rm_checkpointRef = checkpoint, rm_summary = text\<rparr>"
  using assms actions_at_mem [of level] advice_fits [OF assms(2)]
  by (cases trigger; cases "gs_latestCheckpointId s")
     (auto simp: createRecoveryRecommendation_def advice_def Let_def RecoveryRecommendationSchema_def evidence_ok_def
       split: if_splits)

lemma packet_created:
  assumes s: "gs_taskId s \<noteq> []" "opt_all (\<lambda>c. c \<noteq> []) (gs_latestCheckpointId s)" and now: "now \<noteq> []"
    and adv: "advice s (inferTrigger s) level = (action, reason, approval, checkpoint)"
  shows "\<exists>p r. createArbitrationPacket (request_for s level) now = Inr p \<and> pk_recoveryRecommendation p = Some r \<and>
    pk_taskId p = gs_taskId s \<and> pk_trigger p = inferTrigger s \<and> pk_availableActions p = actions_at level \<and>
    rm_action r = action \<and> rm_reasonCode r = reason \<and> rm_requiresHumanApproval r = approval \<and>
    rm_checkpointRef r = checkpoint \<and> RecoveryRecommendationSchema r"
proof -
  let ?refs = "collectEvidenceRefs s"
  from recommendation_created [OF s(2) adv, of ?refs] obtain r where
    r: "createRecoveryRecommendation s (inferTrigger s) ?refs (actions_at level) level = Inr r"
    and f: "rm_action r = action" "rm_reasonCode r = reason" "rm_requiresHumanApproval r = approval"
      "rm_checkpointRef r = checkpoint" "rm_evidenceRefs r = ?refs" "rm_summary r \<noteq> []"
      "evidence_ok (rm_evidenceStatus r) ?refs"
    by (auto simp: evidence_ok_def)
  from advice_fits [OF adv] s(2) f have v: "RecoveryRecommendationSchema r"
    by (auto simp: RecoveryRecommendationSchema_def)
  with s(1) now f advice_fits [OF adv] show ?thesis
    by (simp add: createArbitrationPacket_def request_for_def or_else_def Let_def r ArbitrationPacketSchema_def
        flip: actions_at_def)
qed

lemma infer_third: "inferTrigger s = ThirdAnomaly \<longleftrightarrow> 3 \<le> max_strike s"
  by (simp add: inferTrigger_def Let_def)

text \<open>
  C27: Arbitration always reaches the operator. For every valid state, level and clock the packet, the
  operator action and its envelope are created, never an exception. The action is one the level
  allows and belongs to the trigger; a human must approve it unless this is the first anomaly of a
  task above full control; from the third strike on the task is locked down and never simply
  resumed; a rollback names the latest checkpoint.
\<close>

theorem arbitration_reaches_operator:
  assumes valid: "GovernanceStateSchema s" and now: "now \<noteq> []"
  shows "\<exists>p r oa e. createArbitrationPacket (request_for s level) now = Inr p \<and>
    pk_recoveryRecommendation p = Some r \<and>
    createRecoveryOperatorAction p r (shouldLockdown p) reasons = Inr oa \<and>
    createGovernanceOperatorActionEnvelope source (Some oa) = Inr (Some e) \<and>
    ae_taskId e = gs_taskId s \<and> ae_recommendedAction e \<in> set (actions_at level) \<and>
    (ae_requiresHumanApproval e \<longleftrightarrow> inferTrigger s \<noteq> FirstAnomaly \<or> level = Some FullControl) \<and>
    (ae_lockdown e \<longleftrightarrow> 3 \<le> max_strike s) \<and>
    (ae_recommendedAction e = ReResume \<longleftrightarrow> max_strike s < 3) \<and>
    (ae_recommendedAction e = ReRollback \<longrightarrow> ae_checkpointRef e = gs_latestCheckpointId s)"
proof -
  have s: "gs_taskId s \<noteq> []" "opt_all (\<lambda>c. c \<noteq> []) (gs_latestCheckpointId s)"
    using valid by (simp_all add: GovernanceStateSchema_def)
  obtain action reason approval checkpoint where
    adv: "advice s (inferTrigger s) level = (action, reason, approval, checkpoint)" by (metis surj_pair)
  note fits = advice_fits [OF adv]
  from packet_created [OF s now adv] obtain p r where
    p: "createArbitrationPacket (request_for s level) now = Inr p" "pk_recoveryRecommendation p = Some r"
    and f: "pk_taskId p = gs_taskId s" "pk_trigger p = inferTrigger s" "pk_availableActions p = actions_at level"
      "rm_action r = action" "rm_reasonCode r = reason" "rm_requiresHumanApproval r = approval"
      "rm_checkpointRef r = checkpoint" "RecoveryRecommendationSchema r"
    by blast
  define oa where "oa = \<lparr>oa_taskId = pk_taskId p, oa_trigger = pk_trigger p, oa_recommendedAction = rm_action r,
    oa_reasonCode = rm_reasonCode r, oa_summary = rm_summary r, oa_requiresHumanApproval = rm_requiresHumanApproval r,
    oa_lockdown = shouldLockdown p, oa_evidenceStatus = rm_evidenceStatus r, oa_evidenceRefs = rm_evidenceRefs r,
    oa_checkpointRef = rm_checkpointRef r, oa_availableActions = pk_availableActions p,
    oa_blockingReasons = or_else reasons []\<rparr>"
  define e where "e = \<lparr>ae_source = source, ae_taskId = oa_taskId oa, ae_trigger = oa_trigger oa,
    ae_recommendedAction = oa_recommendedAction oa, ae_requiresHumanApproval = oa_requiresHumanApproval oa,
    ae_lockdown = oa_lockdown oa, ae_checkpointRef = oa_checkpointRef oa, ae_blockingReasons = oa_blockingReasons oa,
    ae_evidenceRefs = oa_evidenceRefs oa, ae_artifactRefs = filter isArtifactEvidenceRef (oa_evidenceRefs oa)\<rparr>"
  have oa: "createRecoveryOperatorAction p r (shouldLockdown p) reasons = Inr oa"
    using f s fits by (auto simp: createRecoveryOperatorAction_def oa_def RecoveryOperatorActionSchema_def
        RecoveryRecommendationSchema_def shouldLockdown_def)
  have roll: "action = ReRollback \<longleftrightarrow> checkpoint \<noteq> None" and human: "approval \<longleftrightarrow> inferTrigger s \<noteq> FirstAnomaly \<or> level = Some FullControl"
    and resume: "action = ReResume \<longleftrightarrow> inferTrigger s \<noteq> ThirdAnomaly"
    using adv by (auto simp: advice_def simp del: not_None_eq split: arbitration_trigger.splits if_splits)
  have e: "createGovernanceOperatorActionEnvelope source (Some oa) = Inr (Some e)"
    using f s fits roll human
    by (auto simp: createGovernanceOperatorActionEnvelope_def e_def oa_def zod_parse_def list_all_iff
        GovernanceOperatorActionEnvelopeSchema_def shouldLockdown_def)
  have "ae_taskId e = gs_taskId s \<and> ae_recommendedAction e \<in> set (actions_at level) \<and>
    (ae_requiresHumanApproval e \<longleftrightarrow> inferTrigger s \<noteq> FirstAnomaly \<or> level = Some FullControl) \<and>
    (ae_lockdown e \<longleftrightarrow> 3 \<le> max_strike s) \<and> (ae_recommendedAction e = ReResume \<longleftrightarrow> max_strike s < 3) \<and>
    (ae_recommendedAction e = ReRollback \<longrightarrow> ae_checkpointRef e = gs_latestCheckpointId s)"
    using f fits roll human resume infer_third [of s] by (auto simp: e_def oa_def shouldLockdown_def)
  with p oa e show ?thesis by blast
qed

section \<open>One execution failure\<close>

definition normalizeEvidenceRef :: "str \<Rightarrow> str option" where
  "normalizeEvidenceRef v = (if v = [] \<or> trim v = [] then None
     else if startsWith v EXECUTION_OBSERVATION_REF_PREFIX then Some v else Some (trim v))"

definition normalizeEvidenceRefs :: "str list option \<Rightarrow> str list" where
  "normalizeEvidenceRefs vs = (case vs of None \<Rightarrow> [] | Some xs \<Rightarrow> uniq (List.map_filter normalizeEvidenceRef xs))"

record failure_input =
  fi_state :: gov_state
  fi_task :: task_envelope
  fi_primitiveId :: str
  fi_errorClass :: str
  fi_evidenceRefs :: "str list option"
  fi_stepIndex :: nat

record failure_output =
  fo_state :: gov_state
  fo_risk :: risk_score
  fo_strategyDecision :: strategy_decision
  fo_anomaly :: anomaly
  fo_arbitrationPacket :: arbitration_packet

definition EXECUTION_FAILURE :: str where "EXECUTION_FAILURE = js ''execution_failure''"

definition failure_observation :: "failure_input \<Rightarrow> str \<Rightarrow> observation" where
  "failure_observation input timestamp =
     \<lparr>ob_observationId = createObservationId (te_taskId (fi_task input)) (fi_primitiveId input) ObsFailed timestamp,
      ob_taskId = te_taskId (fi_task input), ob_primitiveId = fi_primitiveId input, ob_stage = js ''execution'',
      ob_status = ObsFailed,
      ob_signals = \<lparr>sg_errorClass = Some (fi_errorClass input), sg_contextConflict = None, sg_permissionBlocked = None,
        sg_outputDrift = None, sg_latencyPressure = None\<rparr>,
      ob_evidenceRef = None, ob_createdAt = timestamp\<rparr>"

definition failure_anomaly :: "failure_input \<Rightarrow> str \<Rightarrow> anomaly" where
  "failure_anomaly input timestamp =
     \<lparr>an_anomalyId = js ''anomaly:'' @ te_taskId (fi_task input) @ js '':'' @ fi_primitiveId input @ js '':'' @ timestamp,
      an_taskId = te_taskId (fi_task input), an_kind = EXECUTION_FAILURE, an_message = fi_errorClass input,
      an_createdAt = timestamp, an_evidenceRefs = normalizeEvidenceRefs (fi_evidenceRefs input),
      an_strikeNumber = min (same_kind_count (fi_state input) EXECUTION_FAILURE + 1) 3\<rparr>"

text \<open>The list of anomalies is never empty after step 4, so the observation is always scored.\<close>

definition applyExecutionFailureToGovernanceState ::
    "(str \<Rightarrow> str) \<Rightarrow> failure_input \<Rightarrow> str \<Rightarrow> err + failure_output" where
  "applyExecutionFailureToGovernanceState lower input timestamp =
     bind_res (parseExecutionObservation (failure_observation input timestamp)) (\<lambda>observationForRisk.
     let anomaly = failure_anomaly input timestamp;
         state1 = (fi_state input)\<lparr>gs_anomalies := gs_anomalies (fi_state input) @ [anomaly], gs_updatedAt := timestamp\<rparr>;
         risk = scoreGovernanceRisk lower (fi_task input)
           (if gs_anomalies state1 \<noteq> [] then [observationForRisk] else []) None;
         state = state1\<lparr>gs_risk := risk\<rparr>
     in bind_res (routeStrategyV2 state timestamp) (\<lambda>strategyDecision.
        bind_res (createArbitrationPacket (request_for state None) timestamp) (\<lambda>arbitrationPacket.
        Inr \<lparr>fo_state = state, fo_risk = risk, fo_strategyDecision = strategyDecision, fo_anomaly = anomaly,
             fo_arbitrationPacket = arbitrationPacket\<rparr>)))"

lemma trimmed_nonempty: "trim v \<noteq> [] \<Longrightarrow> v \<noteq> []"
  by (auto simp: trim_def)

lemma evidence_refs_clean: "[] \<notin> set (normalizeEvidenceRefs refs) \<and> distinct (normalizeEvidenceRefs refs)"
  by (auto simp: normalizeEvidenceRefs_def normalizeEvidenceRef_def List.map_filter_def split: option.splits if_splits)

definition failure_ready :: "failure_input \<Rightarrow> str \<Rightarrow> bool" where
  "failure_ready input timestamp \<longleftrightarrow> GovernanceStateSchema (fi_state input) \<and> TaskEnvelopeSchema (fi_task input) \<and>
     fi_primitiveId input \<noteq> [] \<and> fi_errorClass input \<noteq> [] \<and> timestamp \<noteq> []"

definition after_failure :: "(str \<Rightarrow> str) \<Rightarrow> failure_input \<Rightarrow> str \<Rightarrow> gov_state" where
  "after_failure lower input timestamp = (fi_state input)
     \<lparr>gs_anomalies := gs_anomalies (fi_state input) @ [failure_anomaly input timestamp], gs_updatedAt := timestamp,
      gs_risk := scoreGovernanceRisk lower (fi_task input) [failure_observation input timestamp] None\<rparr>"

lemma failure_strike: "max_strike (after_failure lower input timestamp) =
    max (max_strike (fi_state input)) (min (same_kind_count (fi_state input) EXECUTION_FAILURE + 1) 3)"
  by (simp add: max_strike_def after_failure_def failure_anomaly_def)

lemma after_failure_valid:
  assumes "failure_ready input timestamp"
  shows "GovernanceStateSchema (after_failure lower input timestamp)"
  using assms risk_scores_in_range [of lower "fi_task input" "[failure_observation input timestamp]" None]
  by (auto simp: failure_ready_def after_failure_def GovernanceStateSchema_def AnomalyRecordSchema_def
      failure_anomaly_def EXECUTION_FAILURE_def TaskEnvelopeSchema_def)

lemma failure_returns:
  assumes ready: "failure_ready input timestamp"
  shows "\<exists>out. applyExecutionFailureToGovernanceState lower input timestamp = Inr out \<and>
    fo_state out = after_failure lower input timestamp \<and>
    routeStrategyV2 (fo_state out) timestamp = Inr (fo_strategyDecision out) \<and>
    createArbitrationPacket (request_for (fo_state out) None) timestamp = Inr (fo_arbitrationPacket out)"
proof -
  let ?s = "after_failure lower input timestamp"
  note valid = after_failure_valid [OF ready]
  have obs: "parseExecutionObservation (failure_observation input timestamp) = Inr (failure_observation input timestamp)"
    using ready by (simp add: parseExecutionObservation_def zod_parse_def ExecutionObservationSchema_def
        failure_observation_def failure_ready_def createObservationId_def TaskEnvelopeSchema_def)
  have t: "timestamp \<noteq> []" "gs_taskId ?s \<noteq> []" using ready valid by (simp_all add: failure_ready_def GovernanceStateSchema_def)
  from routeStrategy_total [OF t(2,1)] obtain d where d: "routeStrategyV2 ?s timestamp = Inr d"
    by (cases "routeStrategyV2 ?s timestamp") auto
  from arbitration_reaches_operator [OF valid t(1)] obtain p where
    p: "createArbitrationPacket (request_for ?s None) timestamp = Inr p" by blast
  have s: "(fi_state input)\<lparr>gs_anomalies := gs_anomalies (fi_state input) @ [failure_anomaly input timestamp],
      gs_updatedAt := timestamp\<rparr>\<lparr>gs_risk := scoreGovernanceRisk lower (fi_task input) [failure_observation input timestamp] None\<rparr> = ?s"
    by (simp add: after_failure_def)
  show ?thesis
    by (simp add: applyExecutionFailureToGovernanceState_def obs Let_def s d p)
qed

text \<open>
  C29: A failure is always accounted for. On valid inputs the reducer returns; the new state is valid and
  has exactly one more anomaly, with the next strike of its kind; the strategy it returns steps back
  exactly when its packet locks the task down, which is when some anomaly is a third strike, and
  then no executor may run.
\<close>

theorem failure_accounted:
  assumes ready: "failure_ready input timestamp"
  shows "\<exists>out. applyExecutionFailureToGovernanceState lower input timestamp = Inr out \<and>
    GovernanceStateSchema (fo_state out) \<and>
    gs_anomalies (fo_state out) = gs_anomalies (fi_state input) @ [failure_anomaly input timestamp] \<and>
    (let third = 3 \<le> max_strike (fi_state input) \<or> 2 \<le> same_kind_count (fi_state input) EXECUTION_FAILURE in
     (requiresHumanStepBack (fo_strategyDecision out) \<longleftrightarrow> third) \<and> (shouldLockdown (fo_arbitrationPacket out) \<longleftrightarrow> third) \<and>
     (third \<longrightarrow> ab_executor (sd_agentBudget (fo_strategyDecision out)) = 0))"
proof -
  from failure_returns [OF ready] obtain out where
    out: "applyExecutionFailureToGovernanceState lower input timestamp = Inr out"
      "fo_state out = after_failure lower input timestamp"
      "routeStrategyV2 (fo_state out) timestamp = Inr (fo_strategyDecision out)"
      "createArbitrationPacket (request_for (fo_state out) None) timestamp = Inr (fo_arbitrationPacket out)" by blast
  have "pk_trigger (fo_arbitrationPacket out) = inferTrigger (fo_state out)"
    using out(4) by (auto simp: createArbitrationPacket_def request_for_def or_else_def Let_def bind_res_Inr)
  then have lock: "shouldLockdown (fo_arbitrationPacket out) \<longleftrightarrow> 3 \<le> max_strike (fo_state out)"
    by (simp add: shouldLockdown_def infer_third)
  have third: "3 \<le> max_strike (fo_state out) \<longleftrightarrow>
      3 \<le> max_strike (fi_state input) \<or> 2 \<le> same_kind_count (fi_state input) EXECUTION_FAILURE"
    by (auto simp: out(2) failure_strike le_max_iff_disj)
  have "gs_anomalies (fo_state out) = gs_anomalies (fi_state input) @ [failure_anomaly input timestamp]"
    by (simp add: out(2) after_failure_def)
  moreover have "GovernanceStateSchema (fo_state out)" by (simp add: out(2) after_failure_valid [OF ready])
  ultimately show ?thesis
    using out(1) lock third routeStrategy_spec [OF out(3)] by (auto simp: Let_def)
qed

text \<open>The reducer leaves the phase alone, also on the third strike, where \<open>recordAnomaly\<close> starts the recovery.\<close>

lemma failure_keeps_phase:
  "applyExecutionFailureToGovernanceState lower input timestamp = Inr out \<Longrightarrow>
   gs_phase (fo_state out) = gs_phase (fi_state input)"
  by (auto simp: applyExecutionFailureToGovernanceState_def bind_res_Inr Let_def)

lemma record_starts_recovery:
  "recordAnomaly s a = Inr s' \<Longrightarrow> 2 \<le> same_kind_count s (an_kind a) \<Longrightarrow> gs_phase s' = PhRecovery"
  by (auto simp: recordAnomaly_Inr min_def)

section \<open>Strikes\<close>

text \<open>
  The states a task can be in: an initial state, then the two operations that add an anomaly, in any
  order. The packages themselves only use the reducer; \<open>recordAnomaly\<close> is exported next to it.
\<close>

inductive gov_reach :: "gov_state \<Rightarrow> bool" where
  start: "createInitialGovernanceState t d c now = Inr s \<Longrightarrow> gov_reach s"
| anomaly: "gov_reach s \<Longrightarrow> recordAnomaly s a = Inr s' \<Longrightarrow> gov_reach s'"
| failure: "gov_reach (fi_state input) \<Longrightarrow>
    applyExecutionFailureToGovernanceState lower input timestamp = Inr out \<Longrightarrow> gov_reach (fo_state out)"

lemma failure_state:
  "applyExecutionFailureToGovernanceState lower input timestamp = Inr out \<Longrightarrow>
   fo_state out = after_failure lower input timestamp"
  by (auto simp: applyExecutionFailureToGovernanceState_def bind_res_Inr Let_def after_failure_def
      parseExecutionObservation_def zod_parse_def split: if_splits)

lemma failure_inv:
  assumes "strikes_inv (fi_state input)"
  shows "strikes_inv (after_failure lower input timestamp)"
  by (rule strike_appended [OF assms, where a = "failure_anomaly input timestamp"])
     (simp_all add: after_failure_def failure_anomaly_def)

lemma gov_reach_inv: "gov_reach s \<Longrightarrow> strikes_inv s"
proof (induction rule: gov_reach.induct)
  case (failure input lower timestamp out)
  then show ?case using failure_inv failure_state [OF failure.hyps(2)] by simp
qed (auto intro: start_inv anomaly_inv)

text \<open>
  C26: Three strikes. Take any state reached from an initial one by recording anomalies and by
  execution failures, in any order. The strikes of each kind of anomaly are numbered 1, 2, 3, 3 and so
  on. The strategy steps back to a human exactly when some kind has occurred three times or more;
  exactly then the arbitration packet locks the task down. From then on no executor may run; before,
  writes are allowed unless the risk is critical. The phase is recovery only then (not always then: an
  execution failure leaves the phase alone, see \<open>failure_keeps_phase\<close>).
\<close>

theorem three_strikes:
  assumes reach: "gov_reach s" and d: "routeStrategyV2 s now = Inr d"
    and p: "createArbitrationPacket (request_for s level) now' = Inr p"
  shows "(\<forall>k. kind_strikes s k = map (\<lambda>i. min (Suc i) 3) [0..<same_kind_count s k]) \<and>
    (requiresHumanStepBack d \<longleftrightarrow> (\<exists>k. 3 \<le> same_kind_count s k)) \<and>
    (shouldLockdown p \<longleftrightarrow> (\<exists>k. 3 \<le> same_kind_count s k)) \<and>
    (0 < ab_executor (sd_agentBudget d) \<longleftrightarrow>
       (\<forall>k. same_kind_count s k < 3) \<and> gr_finalRiskLevel (gs_risk s) \<noteq> GrCritical) \<and>
    (isWriteExecutionAllowed d \<longleftrightarrow> 0 < ab_executor (sd_agentBudget d)) \<and>
    (gs_phase s = PhRecovery \<longrightarrow> requiresHumanStepBack d)"
proof -
  note inv = gov_reach_inv [OF reach]
  have "pk_trigger p = inferTrigger s"
    using p by (auto simp: createArbitrationPacket_def request_for_def or_else_def Let_def bind_res_Inr)
  then have "shouldLockdown p \<longleftrightarrow> struck_out s" by (simp add: shouldLockdown_def infer_third strikes_max [OF inv])
  moreover have "requiresHumanStepBack d \<longleftrightarrow> struck_out s"
    and "isWriteExecutionAllowed d \<longleftrightarrow> \<not> struck_out s \<and> gr_finalRiskLevel (gs_risk s) \<noteq> GrCritical"
    and "0 < ab_executor (sd_agentBudget d) \<longleftrightarrow> isWriteExecutionAllowed d"
    using routeStrategy_spec [OF d] strikes_max [OF inv] by auto
  moreover have "\<not> struck_out s \<longleftrightarrow> (\<forall>k. same_kind_count s k < 3)" by (auto simp: struck_out_def not_le)
  ultimately show ?thesis using inv unfolding strikes_inv_def struck_out_def by blast
qed

section \<open>Examples\<close>

definition demo_envelope :: task_envelope where
  "demo_envelope = \<lparr>te_taskId = js ''t1'', te_source = FromCli,
     te_intent = \<lparr>tn_summary = js ''fix'', tn_requestedAction = js ''fix'', tn_successCriteria = [], tn_outOfScope = []\<rparr>,
     te_repoContext = \<lparr>rc_repoRoot = None, rc_branch = None, rc_worktreeClean = None, rc_protectedBranch = None\<rparr>,
     te_target = envelope_target.make [] [] [],
     te_constraints = \<lparr>tc_requiresNetwork = None, tc_explicitOwnership = None, tc_allowBackgroundAutomation = None\<rparr>,
     te_hints = \<lparr>eh_taskClassHint = None, eh_riskHints = [], eh_tags = [], eh_provenance = []\<rparr>\<rparr>"

definition demo_instant :: str where "demo_instant = js ''2024-01-01T00:00:00.000Z''"

definition demo_routing :: routing_decision where
  "demo_routing = \<lparr>rd_decisionId = js ''d'', rd_taskId = js ''t1'', rd_policyVersion = js ''v1'',
     rd_classification = \<lparr>rcl_taskClass = TcSmallEdit, rcl_riskLevel = LevelLow, rcl_ambiguityScore = 0,
       rcl_clarificationRequired = False, rcl_riskFactors = []\<rparr>,
     rd_execution = \<lparr>rex_selectedModel = Gpt54, rex_toolAccess = AccessLocalWrite, rex_executionProfile = EngineeringProfile,
       rex_reasoningEffort = EffortLow\<rparr>,
     rd_approval = \<lparr>rap_required = False, rap_reasons = []\<rparr>,
     rd_parallelism = \<lparr>rpa_allowed = False, rpa_maxAgents = 1, rpa_mode = ParallelDisabled\<rparr>,
     rd_hostRoute = CodexCliRoute, rd_providerGrant = None\<rparr>"

definition demo_report :: anomaly_report where
  "demo_report = \<lparr>an_anomalyId = js ''a'', an_taskId = js ''t1'', an_kind = js ''drift'', an_message = js ''m'',
     an_createdAt = demo_instant, an_evidenceRefs = []\<rparr>"

definition demo_gov_state :: "nat \<Rightarrow> err + gov_state" where
  "demo_gov_state n = ((\<lambda>r. bind_res r (\<lambda>s. recordAnomaly s demo_report)) ^^ n)
     (createInitialGovernanceState demo_envelope demo_routing None demo_instant)"

lemma demo_reach: "demo_gov_state n = Inr s \<Longrightarrow> gov_reach s"
  by (induction n arbitrary: s) (auto simp: demo_gov_state_def bind_res_Inr intro: gov_reach.intros)

lemma demo_schema_parts:
  "TrustBalanceSchema \<lparr>tb_centralOrder = num 5 10, tb_distributedVitality = num 5 10\<rparr>"
  "GovernanceRiskScoreSchema (createDefaultRiskScore demo_routing)"
proof -
  have h: "num 5 10 = 1 / 2" by (simp add: num_def dround_half)
  have "0 \<le> num 1 1000" using unit_num [of 1 1000] by (simp add: unit_range_def)
  then show "TrustBalanceSchema \<lparr>tb_centralOrder = num 5 10, tb_distributedVitality = num 5 10\<rparr>"
    by (simp add: TrustBalanceSchema_def h unit_range_def jadd_def jsub_def dround_1) (simp add: dround_def)
  show "GovernanceRiskScoreSchema (createDefaultRiskScore demo_routing)"
    by (simp add: GovernanceRiskScoreSchema_def createDefaultRiskScore_def demo_routing_def unit_num)
qed

lemma demo_start: "\<exists>s. demo_gov_state 0 = Inr s \<and> gs_anomalies s = [] \<and> GovernanceStateSchema s"
  using demo_schema_parts
  by (simp add: demo_gov_state_def createInitialGovernanceState_def parseTaskEnvelope_def parseRoutingDecision_def
      parseGovernanceState_def zod_parse_def TaskEnvelopeSchema_def RoutingDecisionSchema_def GovernanceStateSchema_def)
     (simp add: demo_envelope_def demo_routing_def demo_instant_def)

lemma demo_step:
  "demo_gov_state n = Inr s \<Longrightarrow> GovernanceStateSchema s \<Longrightarrow>
   \<exists>s'. demo_gov_state (Suc n) = Inr s' \<and> GovernanceStateSchema s' \<and>
     same_kind_count s' (js ''drift'') = Suc (same_kind_count s (js ''drift''))"
  by (simp add: demo_gov_state_def recordAnomaly_def parseGovernanceState_def zod_parse_def Let_def same_kind_count_def)
     (auto simp: GovernanceStateSchema_def AnomalyRecordSchema_def with_strike_def anomaly_report.defs anomaly.defs
       demo_report_def demo_instant_def)

lemma demo_third: "\<exists>s. demo_gov_state 3 = Inr s \<and> GovernanceStateSchema s \<and> same_kind_count s (js ''drift'') = 3"
proof -
  from demo_start obtain s0 where 0: "demo_gov_state 0 = Inr s0" "GovernanceStateSchema s0" "same_kind_count s0 (js ''drift'') = 0"
    by (auto simp: same_kind_count_def)
  from demo_step [OF 0(1,2)] 0(3) obtain s1 where
    1: "demo_gov_state (Suc 0) = Inr s1" "GovernanceStateSchema s1" "same_kind_count s1 (js ''drift'') = 1" by auto
  from demo_step [OF 1(1,2)] 1(3) obtain s2 where
    2: "demo_gov_state (Suc (Suc 0)) = Inr s2" "GovernanceStateSchema s2" "same_kind_count s2 (js ''drift'') = 2" by auto
  from demo_step [OF 2(1,2)] 2(3) show ?thesis by (auto simp: numeral_3_eq_3)
qed

theorem arbitration_reaches_operator_witness:
  "\<exists>s p. demo_gov_state 3 = Inr s \<and> createArbitrationPacket (request_for s (Some Supervised)) demo_instant = Inr p"
proof -
  from demo_third obtain s where s: "demo_gov_state 3 = Inr s" "GovernanceStateSchema s" by blast
  have "demo_instant \<noteq> []" by (simp add: demo_instant_def)
  from arbitration_reaches_operator [OF s(2) this, of "Some Supervised" None ExecutionGovernance] s(1) show ?thesis by blast
qed

definition demo_failure :: "gov_state \<Rightarrow> failure_input" where
  "demo_failure s = \<lparr>fi_state = s, fi_task = demo_envelope, fi_primitiveId = js ''spawn_agent:0'',
     fi_errorClass = js ''missing_handler'', fi_evidenceRefs = None, fi_stepIndex = 0\<rparr>"

theorem failure_accounted_witness:
  "\<exists>s out. demo_gov_state 0 = Inr s \<and>
     applyExecutionFailureToGovernanceState ascii_lower (demo_failure s) demo_instant = Inr out \<and>
     length (gs_anomalies (fo_state out)) = 1"
proof -
  from demo_start obtain s where s: "demo_gov_state 0 = Inr s" "gs_anomalies s = []" "GovernanceStateSchema s" by blast
  have "failure_ready (demo_failure s) demo_instant" using s(3)
    by (simp add: failure_ready_def demo_failure_def demo_instant_def TaskEnvelopeSchema_def demo_envelope_def)
  from failure_accounted [OF this, of ascii_lower] s show ?thesis
    by (auto simp: demo_failure_def)
qed

definition demo_fails :: "gov_state \<Rightarrow> gov_state" where
  "demo_fails s = after_failure ascii_lower (demo_failure s) demo_instant"

lemma demo_fails_step:
  assumes "gov_reach s" and "GovernanceStateSchema s"
  shows "gov_reach (demo_fails s)" and "GovernanceStateSchema (demo_fails s)"
    and "gs_phase (demo_fails s) = gs_phase s"
    and "same_kind_count (demo_fails s) EXECUTION_FAILURE = Suc (same_kind_count s EXECUTION_FAILURE)"
proof -
  have ready: "failure_ready (demo_failure s) demo_instant" using assms(2)
    by (simp add: failure_ready_def demo_failure_def demo_instant_def TaskEnvelopeSchema_def demo_envelope_def)
  from failure_returns [OF ready] obtain out where
    out: "applyExecutionFailureToGovernanceState ascii_lower (demo_failure s) demo_instant = Inr out"
      "fo_state out = demo_fails s" by (auto simp: demo_fails_def)
  have "gov_reach (fi_state (demo_failure s))" using assms(1) by (simp add: demo_failure_def)
  from gov_reach.failure [OF this out(1)] show "gov_reach (demo_fails s)" by (simp add: out(2))
  show "GovernanceStateSchema (demo_fails s)" unfolding demo_fails_def by (rule after_failure_valid [OF ready])
  show "gs_phase (demo_fails s) = gs_phase s"
    "same_kind_count (demo_fails s) EXECUTION_FAILURE = Suc (same_kind_count s EXECUTION_FAILURE)"
    by (simp_all add: demo_fails_def after_failure_def demo_failure_def same_kind_count_def failure_anomaly_def)
qed

text \<open>Three failures in a row: locked down and stepped back, in the phase the task started in.\<close>

theorem three_strikes_witness:
  "\<exists>s d p. gov_reach s \<and> routeStrategyV2 s demo_instant = Inr d \<and>
     createArbitrationPacket (request_for s None) demo_instant = Inr p \<and>
     shouldLockdown p \<and> requiresHumanStepBack d \<and> gs_phase s = PhPlanning"
proof -
  from demo_start obtain s0 where 0: "demo_gov_state 0 = Inr s0" "gs_anomalies s0 = []" "GovernanceStateSchema s0" by blast
  have "\<not> rap_required (rd_approval demo_routing)" by (simp add: demo_routing_def)
  then have "gs_phase s0 = PhPlanning" using 0(1)
    by (auto simp: demo_gov_state_def createInitialGovernanceState_def parseGovernanceState_def parseRoutingDecision_def
        zod_parse_def bind_res_Inr split: if_splits)
  with 0(1) have g: "gov_reach s0" "gs_phase s0 = PhPlanning" by (simp_all add: demo_reach)
  note s1 = demo_fails_step [OF g(1) 0(3)]
  note s2 = demo_fails_step [OF s1(1,2)]
  note s3 = demo_fails_step [OF s2(1,2)]
  define s where "s = demo_fails (demo_fails (demo_fails s0))"
  have n: "same_kind_count s EXECUTION_FAILURE = 3" "gs_phase s = PhPlanning"
    using s1 s2 s3 0(2) g(2) by (simp_all add: s_def same_kind_count_def)
  have t: "demo_instant \<noteq> []" "gs_taskId s \<noteq> []" "opt_all (\<lambda>c. c \<noteq> []) (gs_latestCheckpointId s)"
    using s3(2) by (simp_all add: s_def demo_instant_def GovernanceStateSchema_def)
  obtain d where d: "routeStrategyV2 s demo_instant = Inr d"
    using routeStrategy_total [OF t(2,1)] by (cases "routeStrategyV2 s demo_instant") auto
  obtain p where p: "createArbitrationPacket (request_for s None) demo_instant = Inr p"
    using packet_created [OF t(2,3,1)] by (metis surj_pair)
  have "gov_reach s" using s3(1) by (simp add: s_def)
  with three_strikes [OF this d p] d p n show ?thesis by (metis order_refl)
qed

end
