(* ===== verification/OperatorReceipt.thy ===== *)
theory OperatorReceipt
  imports Recovery Canonical Authorization
begin

text \<open>
  Receipts for operator actions, in \<open>packages/governance-internal-recovery-control/src/index.ts\<close>: the
  reference and hash of an action envelope, the creation and validation of a receipt, the two receipt
  stores, and the consumption that validates a receipt and stores it once. SHA-256 and \<open>Date.parse\<close>
  are arguments. A clock given as a function is represented by the value it returned. Of a receipt
  that arrives as unknown JSON, \<open>None\<close> stands for one that does not have the shape of a receipt. The
  identity marks of consumption objects (a \<open>WeakMap\<close>) are not modelled.
\<close>

record receipt_env =
  re_sha :: "str \<Rightarrow> str"
  re_date :: "str \<Rightarrow> int option"

definition stableSha256 :: "receipt_env \<Rightarrow> json \<Rightarrow> str" where
  "stableSha256 h x = re_sha h (stableStringify x)"

section \<open>Envelopes\<close>

definition source_name :: "envelope_source_kind \<Rightarrow> str" where
  "source_name s = js (case s of PreflightGovernance \<Rightarrow> ''preflight_governance'' | ExecutionGovernance \<Rightarrow> ''execution_governance''
     | DesktopLiveGovernance \<Rightarrow> ''desktop_live_governance'' | HostDispatchGovernance \<Rightarrow> ''host_dispatch_governance'')"

definition trigger_name :: "arbitration_trigger \<Rightarrow> str" where
  "trigger_name t = js (case t of FirstAnomaly \<Rightarrow> ''first_anomaly'' | SecondAnomaly \<Rightarrow> ''second_anomaly''
     | ThirdAnomaly \<Rightarrow> ''third_anomaly'' | ManualTrigger \<Rightarrow> ''manual'')"

definition recovery_action_name :: "recovery_action \<Rightarrow> str" where
  "recovery_action_name a = js (case a of ReResume \<Rightarrow> ''resume'' | ReRollback \<Rightarrow> ''rollback'' | ReAbort \<Rightarrow> ''abort'' | ReFork \<Rightarrow> ''fork'')"

definition optional_member :: "string \<Rightarrow> str option \<Rightarrow> (str \<times> json) list" where
  "optional_member k v = (case v of None \<Rightarrow> [] | Some x \<Rightarrow> [(js k, JStr x)])"

definition envelope_json :: "action_envelope \<Rightarrow> json" where
  "envelope_json e = JObj (
     [(js ''schemaVersion'', JStr (js ''governance-operator-action-envelope.v1'')),
      (js ''source'', JStr (source_name (ae_source e))), (js ''taskId'', JStr (ae_taskId e)),
      (js ''status'', JStr (js ''requires_arbitration'')), (js ''trigger'', JStr (trigger_name (ae_trigger e))),
      (js ''recommendedAction'', JStr (recovery_action_name (ae_recommendedAction e))),
      (js ''requiresHumanApproval'', JBool (ae_requiresHumanApproval e)), (js ''lockdown'', JBool (ae_lockdown e))] @
     optional_member ''checkpointRef'' (ae_checkpointRef e) @
     [(js ''blockingReasons'', str_array (ae_blockingReasons e)), (js ''evidenceRefs'', str_array (ae_evidenceRefs e)),
      (js ''artifactRefs'', str_array (ae_artifactRefs e))])"

definition GOVERNANCE_OPERATOR_ACTION_REF_PREFIX :: str where
  "GOVERNANCE_OPERATOR_ACTION_REF_PREFIX = js ''governance-operator-action:''"

definition GOVERNANCE_OPERATOR_ACTION_RECEIPT_ID_PREFIX :: str where
  "GOVERNANCE_OPERATOR_ACTION_RECEIPT_ID_PREFIX = js ''governance-operator-action-receipt:''"

definition DEFAULT_OPERATOR_ACTION_MAX_AGE_MS :: int where
  "DEFAULT_OPERATOR_ACTION_MAX_AGE_MS = 15 * 60 * 1000"

definition hashGovernanceOperatorActionEnvelope :: "receipt_env \<Rightarrow> action_envelope \<Rightarrow> err + str" where
  "hashGovernanceOperatorActionEnvelope h envelope =
     bind_res (zod_parse GovernanceOperatorActionEnvelopeSchema envelope) (\<lambda>e. Inr (stableSha256 h (envelope_json e)))"

definition createGovernanceOperatorActionRef :: "receipt_env \<Rightarrow> action_envelope \<Rightarrow> str option \<Rightarrow> err + str" where
  "createGovernanceOperatorActionRef h envelope actionIssuedAt =
     bind_res (hashGovernanceOperatorActionEnvelope h envelope) (\<lambda>envelopeHash.
     Inr (GOVERNANCE_OPERATOR_ACTION_REF_PREFIX @ (case actionIssuedAt of None \<Rightarrow> envelopeHash
       | Some t \<Rightarrow> stableSha256 h (JObj [(js ''envelopeHash'', JStr envelopeHash), (js ''actionIssuedAt'', JStr t)]))))"

section \<open>Receipts\<close>

datatype receipt_decision = Acknowledged | RejectedByOperator | Deferred | ConsumedByOperator

definition receipt_decision_name :: "receipt_decision \<Rightarrow> str" where
  "receipt_decision_name d = js (case d of Acknowledged \<Rightarrow> ''acknowledged'' | RejectedByOperator \<Rightarrow> ''rejected''
     | Deferred \<Rightarrow> ''deferred'' | ConsumedByOperator \<Rightarrow> ''consumed'')"

record receipt_payload =
  or_taskId :: str
  or_actionRef :: str
  or_envelopeHash :: "str option"
  or_actionIssuedAt :: str
  or_decision :: receipt_decision
  or_operatorIdHash :: str
  or_createdAt :: str
  or_evidenceRefs :: "str list"

record action_receipt = receipt_payload +
  or_receiptId :: str

definition GovernanceOperatorActionReceiptIdPayloadSchema :: "'a receipt_payload_scheme \<Rightarrow> bool" where
  "GovernanceOperatorActionReceiptIdPayloadSchema p \<longleftrightarrow> or_taskId p \<noteq> [] \<and> or_actionRef p \<noteq> [] \<and>
     opt_all sha256_hex (or_envelopeHash p) \<and> or_actionIssuedAt p \<noteq> [] \<and> sha256_hex (or_operatorIdHash p) \<and> or_createdAt p \<noteq> []"

definition GovernanceOperatorActionReceiptSchema :: "action_receipt \<Rightarrow> bool" where
  "GovernanceOperatorActionReceiptSchema r \<longleftrightarrow> or_receiptId r \<noteq> [] \<and> GovernanceOperatorActionReceiptIdPayloadSchema r"

definition payload_members :: "'a receipt_payload_scheme \<Rightarrow> (str \<times> json) list" where
  "payload_members p = [(js ''taskId'', JStr (or_taskId p)), (js ''actionRef'', JStr (or_actionRef p))] @
     optional_member ''envelopeHash'' (or_envelopeHash p) @
     [(js ''actionIssuedAt'', JStr (or_actionIssuedAt p)), (js ''decision'', JStr (receipt_decision_name (or_decision p))),
      (js ''operatorIdHash'', JStr (or_operatorIdHash p)), (js ''createdAt'', JStr (or_createdAt p)),
      (js ''evidenceRefs'', str_array (or_evidenceRefs p))]"

definition action_receipt_json :: "action_receipt \<Rightarrow> json" where
  "action_receipt_json r = JObj ([(js ''schemaVersion'', JStr (js ''governance-operator-action-receipt.v1'')),
     (js ''receiptId'', JStr (or_receiptId r))] @ payload_members r)"

definition receipt_id_of :: "receipt_env \<Rightarrow> 'a receipt_payload_scheme \<Rightarrow> str" where
  "receipt_id_of h p = GOVERNANCE_OPERATOR_ACTION_RECEIPT_ID_PREFIX @ stableSha256 h (JObj (payload_members p))"

definition createGovernanceOperatorActionReceiptId :: "receipt_env \<Rightarrow> 'a receipt_payload_scheme \<Rightarrow> err + str" where
  "createGovernanceOperatorActionReceiptId h p =
     (if GovernanceOperatorActionReceiptIdPayloadSchema p then Inr (receipt_id_of h p) else Inl ZodError)"

definition createGovernanceOperatorActionReceipt ::
    "receipt_env \<Rightarrow> action_envelope \<Rightarrow> str \<Rightarrow> receipt_decision \<Rightarrow> str \<Rightarrow> str \<Rightarrow> str list option \<Rightarrow> err + action_receipt" where
  "createGovernanceOperatorActionReceipt h envelopeInput actionIssuedAt decision operatorIdHash createdAt evidenceRefs =
     bind_res (zod_parse GovernanceOperatorActionEnvelopeSchema envelopeInput) (\<lambda>envelope.
     bind_res (hashGovernanceOperatorActionEnvelope h envelope) (\<lambda>envelopeHash.
     bind_res (createGovernanceOperatorActionRef h envelope (Some actionIssuedAt)) (\<lambda>actionRef.
     let receiptWithoutId = \<lparr>or_taskId = ae_taskId envelope, or_actionRef = actionRef, or_envelopeHash = Some envelopeHash,
           or_actionIssuedAt = actionIssuedAt, or_decision = decision, or_operatorIdHash = operatorIdHash,
           or_createdAt = createdAt, or_evidenceRefs = or_else evidenceRefs (ae_evidenceRefs envelope)\<rparr>
     in bind_res (createGovernanceOperatorActionReceiptId h receiptWithoutId) (\<lambda>receiptId.
        zod_parse GovernanceOperatorActionReceiptSchema
          (receipt_payload.extend receiptWithoutId (action_receipt.fields receiptId))))))"

section \<open>Validation\<close>

datatype pass_status = StatusPassed | StatusBlocked

record receipt_validation =
  rv_status :: pass_status
  rv_reasons :: "str list"
  rv_taskId :: "str option"
  rv_actionRef :: "str option"
  rv_envelopeHash :: "str option"
  rv_receipt :: "action_receipt option"

definition status_fits :: "pass_status \<Rightarrow> str list \<Rightarrow> bool" where
  "status_fits status reasons \<longleftrightarrow> (status = StatusPassed \<longleftrightarrow> reasons = [])"

definition GovernanceOperatorActionReceiptValidationSchema :: "receipt_validation \<Rightarrow> bool" where
  "GovernanceOperatorActionReceiptValidationSchema v \<longleftrightarrow> opt_all (\<lambda>t. t \<noteq> []) (rv_taskId v) \<and>
     opt_all (\<lambda>t. t \<noteq> []) (rv_actionRef v) \<and> opt_all sha256_hex (rv_envelopeHash v) \<and>
     opt_all GovernanceOperatorActionReceiptSchema (rv_receipt v) \<and> status_fits (rv_status v) (rv_reasons v)"

record validation_input =
  vi_envelope :: action_envelope
  vi_receipt :: "action_receipt option"
  vi_actionIssuedAt :: "str option"
  vi_now :: str
  vi_maxActionAgeMs :: "int option"
  vi_consumedActionRefs :: "str list"
  vi_consumedReceiptIds :: "str list"

definition cond_reason :: "bool \<Rightarrow> string \<Rightarrow> str list" where
  "cond_reason b r = (if b then [js r] else [])"

text \<open>The reasons about time, from the parsed instants; \<open>None\<close> is \<open>NaN\<close>.\<close>

definition time_reasons :: "int option \<Rightarrow> bool \<Rightarrow> int option \<Rightarrow> int option \<Rightarrow> int \<Rightarrow> str list" where
  "time_reasons createdAtMs issued actionIssuedAtMs nowMs maxActionAgeMs =
     cond_reason (createdAtMs = None) ''operator_action_receipt_created_at_invalid'' @
     cond_reason (nowMs = None) ''operator_action_receipt_now_invalid'' @
     cond_reason (issued \<and> actionIssuedAtMs = None) ''operator_action_receipt_action_issued_at_invalid'' @
     (case (createdAtMs, nowMs) of
        (Some c, Some n) \<Rightarrow> cond_reason (n < c) ''operator_action_receipt_created_at_after_now'' | _ \<Rightarrow> []) @
     (case (createdAtMs, actionIssuedAtMs) of
        (Some c, Some i) \<Rightarrow> cond_reason (c < i) ''operator_action_receipt_created_at_before_action_issued_at'' | _ \<Rightarrow> []) @
     (case (actionIssuedAtMs, nowMs) of
        (Some i, Some n) \<Rightarrow> cond_reason (n < i) ''operator_action_receipt_action_issued_at_after_now'' @
          (if maxActionAgeMs < 0 then [js ''operator_action_receipt_max_action_age_invalid'']
           else cond_reason (maxActionAgeMs < n - i) ''operator_action_receipt_action_expired'')
      | _ \<Rightarrow> [])"

definition receipt_reasons :: "receipt_env \<Rightarrow> validation_input \<Rightarrow> action_envelope \<Rightarrow> str \<Rightarrow> str \<Rightarrow> action_receipt \<Rightarrow> str list" where
  "receipt_reasons h input envelope envelopeHash actionRef receipt =
     cond_reason (vi_actionIssuedAt input = None) ''operator_action_receipt_action_issued_at_required'' @
     cond_reason (or_taskId receipt \<noteq> ae_taskId envelope) ''operator_action_receipt_task_mismatch'' @
     cond_reason (or_actionRef receipt \<noteq> actionRef) ''operator_action_receipt_action_ref_mismatch'' @
     cond_reason (opt_ex (\<lambda>x. x \<noteq> envelopeHash) (or_envelopeHash receipt)) ''operator_action_receipt_envelope_hash_mismatch'' @
     cond_reason (opt_ex (\<lambda>x. or_actionIssuedAt receipt \<noteq> x) (vi_actionIssuedAt input))
       ''operator_action_receipt_action_issued_at_mismatch'' @
     cond_reason (or_receiptId receipt \<noteq> receipt_id_of h receipt) ''operator_action_receipt_id_mismatch'' @
     time_reasons (re_date h (or_createdAt receipt)) (vi_actionIssuedAt input \<noteq> None)
       (case vi_actionIssuedAt input of None \<Rightarrow> None | Some t \<Rightarrow> re_date h t) (re_date h (vi_now input))
       (or_else (vi_maxActionAgeMs input) DEFAULT_OPERATOR_ACTION_MAX_AGE_MS) @
     cond_reason (actionRef \<in> set (vi_consumedActionRefs input) \<or> or_actionRef receipt \<in> set (vi_consumedActionRefs input))
       ''operator_action_receipt_replay'' @
     cond_reason (or_receiptId receipt \<in> set (vi_consumedReceiptIds input)) ''operator_action_receipt_replay'' @
     cond_reason (ae_lockdown envelope \<and> or_decision receipt \<noteq> ConsumedByOperator \<and> or_decision receipt \<noteq> RejectedByOperator)
       ''operator_action_receipt_lockdown_requires_resolution''"

text \<open>After its parse a receipt's payload satisfies the schema, so the expected id always exists.\<close>

definition validateGovernanceOperatorActionReceipt :: "receipt_env \<Rightarrow> validation_input \<Rightarrow> err + receipt_validation" where
  "validateGovernanceOperatorActionReceipt h input =
     (let envelope = vi_envelope input in
      if \<not> GovernanceOperatorActionEnvelopeSchema envelope
      then zod_parse GovernanceOperatorActionReceiptValidationSchema
        \<lparr>rv_status = StatusBlocked, rv_reasons = [js ''operator_action_receipt_envelope_invalid''], rv_taskId = None,
         rv_actionRef = None, rv_envelopeHash = None, rv_receipt = None\<rparr>
      else bind_res (hashGovernanceOperatorActionEnvelope h envelope) (\<lambda>envelopeHash.
        bind_res (createGovernanceOperatorActionRef h envelope (vi_actionIssuedAt input)) (\<lambda>actionRef.
        case vi_receipt input of
          Some receipt \<Rightarrow>
            (if GovernanceOperatorActionReceiptSchema receipt
             then bind_res (createGovernanceOperatorActionReceiptId h receipt) (\<lambda>_.
               let reasons = receipt_reasons h input envelope envelopeHash actionRef receipt
               in zod_parse GovernanceOperatorActionReceiptValidationSchema
                    \<lparr>rv_status = (if reasons = [] then StatusPassed else StatusBlocked), rv_reasons = reasons,
                     rv_taskId = Some (ae_taskId envelope), rv_actionRef = Some actionRef,
                     rv_envelopeHash = Some envelopeHash, rv_receipt = Some receipt\<rparr>)
             else zod_parse GovernanceOperatorActionReceiptValidationSchema
               \<lparr>rv_status = StatusBlocked, rv_reasons = [js ''operator_action_receipt_invalid''],
                rv_taskId = Some (ae_taskId envelope), rv_actionRef = Some actionRef,
                rv_envelopeHash = Some envelopeHash, rv_receipt = None\<rparr>)
        | None \<Rightarrow> zod_parse GovernanceOperatorActionReceiptValidationSchema
               \<lparr>rv_status = StatusBlocked, rv_reasons = [js ''operator_action_receipt_invalid''],
                rv_taskId = Some (ae_taskId envelope), rv_actionRef = Some actionRef,
                rv_envelopeHash = Some envelopeHash, rv_receipt = None\<rparr>)))"

section \<open>A created receipt validates\<close>

lemma cond_reason_Nil [simp]: "cond_reason b r = [] \<longleftrightarrow> \<not> b"
  by (simp add: cond_reason_def)

lemma optional_members: "payload_members (receipt_payload.extend p x) = payload_members p"
  by (simp add: payload_members_def receipt_payload.defs)

lemma prefixes_nonempty [simp]:
  "GOVERNANCE_OPERATOR_ACTION_REF_PREFIX \<noteq> []" "GOVERNANCE_OPERATOR_ACTION_RECEIPT_ID_PREFIX \<noteq> []"
  by (simp_all add: GOVERNANCE_OPERATOR_ACTION_REF_PREFIX_def GOVERNANCE_OPERATOR_ACTION_RECEIPT_ID_PREFIX_def)

lemma time_reasons_Nil:
  "time_reasons c True i n m = [] \<longleftrightarrow> (\<exists>c' i' n'. c = Some c' \<and> i = Some i' \<and> n = Some n' \<and> i' \<le> c' \<and> c' \<le> n' \<and> 0 \<le> m \<and> n' - i' \<le> m)"
  by (auto simp: time_reasons_def split: option.splits if_splits)

definition ref_of :: "receipt_env \<Rightarrow> action_envelope \<Rightarrow> str option \<Rightarrow> str" where
  "ref_of h e issued = GOVERNANCE_OPERATOR_ACTION_REF_PREFIX @ (case issued of None \<Rightarrow> stableSha256 h (envelope_json e)
     | Some t \<Rightarrow> stableSha256 h (JObj [(js ''envelopeHash'', JStr (stableSha256 h (envelope_json e))), (js ''actionIssuedAt'', JStr t)]))"

lemma ref_created: "GovernanceOperatorActionEnvelopeSchema e \<Longrightarrow> createGovernanceOperatorActionRef h e issued = Inr (ref_of h e issued)"
  by (simp add: createGovernanceOperatorActionRef_def hashGovernanceOperatorActionEnvelope_def ref_of_def zod_parse_def)

lemma hash_created: "GovernanceOperatorActionEnvelopeSchema e \<Longrightarrow>
    hashGovernanceOperatorActionEnvelope h e = Inr (stableSha256 h (envelope_json e))"
  by (simp add: hashGovernanceOperatorActionEnvelope_def zod_parse_def)

lemma validate_checked:
  assumes e: "GovernanceOperatorActionEnvelopeSchema (vi_envelope input)" and sha: "\<And>t. sha256_hex (re_sha h t)"
    and r: "vi_receipt input = Some r" "GovernanceOperatorActionReceiptSchema r"
  shows "validateGovernanceOperatorActionReceipt h input = Inr
    (let e = vi_envelope input; actionRef = ref_of h e (vi_actionIssuedAt input);
         reasons = receipt_reasons h input e (stableSha256 h (envelope_json e)) actionRef r
     in \<lparr>rv_status = (if reasons = [] then StatusPassed else StatusBlocked), rv_reasons = reasons,
         rv_taskId = Some (ae_taskId e), rv_actionRef = Some actionRef,
         rv_envelopeHash = Some (stableSha256 h (envelope_json e)), rv_receipt = Some r\<rparr>)"
proof -
  have "ae_taskId (vi_envelope input) \<noteq> []" using e by (simp add: GovernanceOperatorActionEnvelopeSchema_def)
  moreover have "sha256_hex (stableSha256 h x)" for x using sha by (simp add: stableSha256_def)
  moreover have "GovernanceOperatorActionReceiptIdPayloadSchema r" using r(2) by (simp add: GovernanceOperatorActionReceiptSchema_def)
  ultimately show ?thesis using e r
    by (simp add: validateGovernanceOperatorActionReceipt_def ref_created hash_created Let_def zod_parse_def
        createGovernanceOperatorActionReceiptId_def GovernanceOperatorActionReceiptValidationSchema_def status_fits_def ref_of_def)
qed

definition payload_for ::
    "receipt_env \<Rightarrow> action_envelope \<Rightarrow> str \<Rightarrow> receipt_decision \<Rightarrow> str \<Rightarrow> str \<Rightarrow> str list option \<Rightarrow> receipt_payload" where
  "payload_for h e issuedAt decision operator createdAt refs =
    \<lparr>or_taskId = ae_taskId e, or_actionRef = ref_of h e (Some issuedAt), or_envelopeHash = Some (stableSha256 h (envelope_json e)),
     or_actionIssuedAt = issuedAt, or_decision = decision, or_operatorIdHash = operator, or_createdAt = createdAt,
     or_evidenceRefs = or_else refs (ae_evidenceRefs e)\<rparr>"

lemma receipt_created:
  fixes refs decision
  assumes e: "GovernanceOperatorActionEnvelopeSchema e" and sha: "\<And>t. sha256_hex (re_sha h t)"
    and op: "sha256_hex operator" and t: "issuedAt \<noteq> []" "createdAt \<noteq> []"
  defines "p \<equiv> payload_for h e issuedAt decision operator createdAt refs"
  shows "\<exists>r. createGovernanceOperatorActionReceipt h e issuedAt decision operator createdAt refs = Inr r \<and>
    GovernanceOperatorActionReceiptSchema r \<and> or_receiptId r = receipt_id_of h p \<and> payload_members r = payload_members p \<and>
    or_taskId r = ae_taskId e \<and> or_actionRef r = ref_of h e (Some issuedAt) \<and> or_actionIssuedAt r = issuedAt \<and>
    or_envelopeHash r = Some (stableSha256 h (envelope_json e)) \<and> or_decision r = decision \<and> or_createdAt r = createdAt"
proof -
  define r where "r = receipt_payload.extend p (action_receipt.fields (receipt_id_of h p))"
  have f: "or_taskId r = ae_taskId e" "or_actionRef r = ref_of h e (Some issuedAt)" "or_actionIssuedAt r = issuedAt"
    "or_envelopeHash r = Some (stableSha256 h (envelope_json e))" "or_decision r = decision" "or_createdAt r = createdAt"
    "or_receiptId r = receipt_id_of h p" "or_operatorIdHash r = operator"
    by (simp_all add: r_def p_def payload_for_def receipt_payload.defs action_receipt.defs)
  have pay: "payload_members r = payload_members p" unfolding r_def by (rule optional_members)
  have hex: "sha256_hex (stableSha256 h x)" for x using sha by (simp add: stableSha256_def)
  have "ae_taskId e \<noteq> []" "ref_of h e (Some issuedAt) \<noteq> []"
    using e by (simp_all add: GovernanceOperatorActionEnvelopeSchema_def ref_of_def)
  then have ok: "GovernanceOperatorActionReceiptIdPayloadSchema p" "GovernanceOperatorActionReceiptSchema r"
    using op t hex by (simp_all add: GovernanceOperatorActionReceiptIdPayloadSchema_def GovernanceOperatorActionReceiptSchema_def f
        receipt_id_of_def p_def payload_for_def)
  have "createGovernanceOperatorActionReceipt h e issuedAt decision operator createdAt refs = Inr r"
    using e ok by (simp add: createGovernanceOperatorActionReceipt_def ref_created hash_created zod_parse_def Let_def
        createGovernanceOperatorActionReceiptId_def r_def p_def payload_for_def)
  with ok f pay show ?thesis by blast
qed

text \<open>
  C30: A receipt that is created for an action validates for it. With a valid envelope and an operator hash
  the creation succeeds, and the validation of the result against the same envelope and issue time
  passes exactly when all three instants are dates, the action was issued before the receipt was
  created and the receipt before now, the action is not older than the limit, neither its
  reference nor the receipt's id has been consumed, and a lockdown is resolved.
\<close>

theorem created_receipt_validates:
  assumes e: "GovernanceOperatorActionEnvelopeSchema e" and sha: "\<And>t. sha256_hex (re_sha h t)"
    and op: "sha256_hex operator" and t: "issuedAt \<noteq> []" "createdAt \<noteq> []"
  shows "\<exists>r v. createGovernanceOperatorActionReceipt h e issuedAt decision operator createdAt refs = Inr r \<and>
    validateGovernanceOperatorActionReceipt h \<lparr>vi_envelope = e, vi_receipt = Some r, vi_actionIssuedAt = Some issuedAt,
      vi_now = now, vi_maxActionAgeMs = age, vi_consumedActionRefs = usedRefs, vi_consumedReceiptIds = usedIds\<rparr> = Inr v \<and>
    (rv_status v = StatusPassed \<longleftrightarrow>
      (\<exists>i c n. re_date h issuedAt = Some i \<and> re_date h createdAt = Some c \<and> re_date h now = Some n \<and> i \<le> c \<and> c \<le> n \<and>
         0 \<le> or_else age DEFAULT_OPERATOR_ACTION_MAX_AGE_MS \<and> n - i \<le> or_else age DEFAULT_OPERATOR_ACTION_MAX_AGE_MS) \<and>
      or_actionRef r \<notin> set usedRefs \<and> or_receiptId r \<notin> set usedIds \<and>
      (ae_lockdown e \<longrightarrow> decision = ConsumedByOperator \<or> decision = RejectedByOperator))"
proof -
  from receipt_created [OF assms, of decision refs] obtain r where
    r: "createGovernanceOperatorActionReceipt h e issuedAt decision operator createdAt refs = Inr r"
      "GovernanceOperatorActionReceiptSchema r"
    and id: "or_receiptId r = receipt_id_of h (payload_for h e issuedAt decision operator createdAt refs)"
      "payload_members r = payload_members (payload_for h e issuedAt decision operator createdAt refs)"
    and f: "or_taskId r = ae_taskId e" "or_actionRef r = ref_of h e (Some issuedAt)" "or_actionIssuedAt r = issuedAt"
      "or_envelopeHash r = Some (stableSha256 h (envelope_json e))" "or_decision r = decision" "or_createdAt r = createdAt"
    by blast
  have id': "or_receiptId r = receipt_id_of h r" by (simp add: id receipt_id_of_def)
  let ?in = "\<lparr>vi_envelope = e, vi_receipt = Some r, vi_actionIssuedAt = Some issuedAt, vi_now = now, vi_maxActionAgeMs = age,
    vi_consumedActionRefs = usedRefs, vi_consumedReceiptIds = usedIds\<rparr>"
  have v: "validateGovernanceOperatorActionReceipt h ?in = Inr
    \<lparr>rv_status = (if receipt_reasons h ?in e (stableSha256 h (envelope_json e)) (ref_of h e (Some issuedAt)) r = [] then StatusPassed
       else StatusBlocked), rv_reasons = receipt_reasons h ?in e (stableSha256 h (envelope_json e)) (ref_of h e (Some issuedAt)) r,
     rv_taskId = Some (ae_taskId e), rv_actionRef = Some (ref_of h e (Some issuedAt)),
     rv_envelopeHash = Some (stableSha256 h (envelope_json e)), rv_receipt = Some r\<rparr>"
    using validate_checked [of ?in h r] e sha r(2) by (simp add: Let_def)
  show ?thesis
    by (rule exI [of _ r], rule exI, intro conjI, rule r(1), rule v)
       (auto simp: receipt_reasons_def time_reasons_Nil f id' [symmetric])
qed

section \<open>The stores\<close>

definition parseReceiptForStore :: "receipt_env \<Rightarrow> action_receipt \<Rightarrow> err + action_receipt" where
  "parseReceiptForStore h receiptInput =
     bind_res (zod_parse GovernanceOperatorActionReceiptSchema receiptInput) (\<lambda>receipt.
     bind_res (createGovernanceOperatorActionReceiptId h receipt) (\<lambda>expectedReceiptId.
     if or_receiptId receipt \<noteq> expectedReceiptId
     then Inl (Err (js ''operator_action_receipt_store_receipt_id_mismatch'')) else Inr receipt))"

datatype store_status = Stored | Replayed

record consume_result =
  cs_status :: store_status
  cs_receipt :: action_receipt
  cs_existingReceiptIds :: "str list"
  cs_existingActionRefs :: "str list"

definition GovernanceOperatorActionReceiptStoreConsumeResultSchema :: "consume_result \<Rightarrow> bool" where
  "GovernanceOperatorActionReceiptStoreConsumeResultSchema v \<longleftrightarrow> GovernanceOperatorActionReceiptSchema (cs_receipt v) \<and>
     (cs_status v = Stored \<longrightarrow> cs_existingReceiptIds v = [] \<and> cs_existingActionRefs v = [])"

text \<open>The class with the map \<open>receiptsById\<close>.\<close>

type_synonym receipts_by_id = "(str \<times> action_receipt) list"

definition findReplay :: "action_receipt \<Rightarrow> receipts_by_id \<Rightarrow> str list \<times> str list" where
  "findReplay receipt m =
     ((case map_of m (or_receiptId receipt) of None \<Rightarrow> [] | Some x \<Rightarrow> [or_receiptId x]),
      uniqueStrings (map or_actionRef (filter (\<lambda>x. or_actionRef x = or_actionRef receipt) (map snd m))))"

definition mem_receipt_consume :: "receipt_env \<Rightarrow> action_receipt \<Rightarrow> (receipts_by_id, err, consume_result) sx" where
  "mem_receipt_consume h receiptInput =
     sx_bind (sx_lift (parseReceiptForStore h receiptInput)) (\<lambda>receipt.
     sx_bind (sx_gets (findReplay receipt)) (\<lambda>(ids, refs).
     if ids \<noteq> [] \<or> refs \<noteq> []
     then sx_lift (zod_parse GovernanceOperatorActionReceiptStoreConsumeResultSchema
       \<lparr>cs_status = Replayed, cs_receipt = receipt, cs_existingReceiptIds = ids, cs_existingActionRefs = refs\<rparr>)
     else sx_bind (sx_modify (AList.update (or_receiptId receipt) receipt)) (\<lambda>_.
       sx_lift (zod_parse GovernanceOperatorActionReceiptStoreConsumeResultSchema
         \<lparr>cs_status = Stored, cs_receipt = receipt, cs_existingReceiptIds = [], cs_existingActionRefs = []\<rparr>))))"

text \<open>
  The class with one file per task. A file is the list of its lines, and a line the receipt it
  parses to; \<open>loadAll\<close> reads the files in the order they were created and checks every line again.
  \<open>consume\<close> runs under the directory lock, so it is one step.
\<close>

type_synonym receipt_files = "(str \<times> action_receipt list) list"

definition taskPath :: "receipt_env \<Rightarrow> str \<Rightarrow> str" where
  "taskPath h taskId = js ''task-'' @ stableSha256 h (JStr taskId) @ js ''.jsonl''"

definition append_line :: "str \<Rightarrow> action_receipt \<Rightarrow> receipt_files \<Rightarrow> receipt_files" where
  "append_line file r disk = AList.update file ((case map_of disk file of None \<Rightarrow> [] | Some rs \<Rightarrow> rs) @ [r]) disk"

definition receipts_loadAll :: "receipt_env \<Rightarrow> (receipt_files, err, action_receipt list) sx" where
  "receipts_loadAll h = sx_bind (sx_gets (\<lambda>disk. map_res (parseReceiptForStore h) (concat (map snd disk)))) (\<lambda>res. case res of
     Inl e \<Rightarrow> sx_throw (Err (js ''operator_action_receipt_store_record_invalid'')) | Inr rs \<Rightarrow> sx_return rs)"

definition file_receipt_consume :: "receipt_env \<Rightarrow> action_receipt \<Rightarrow> (receipt_files, err, consume_result) sx" where
  "file_receipt_consume h receiptInput =
     sx_bind (sx_lift (parseReceiptForStore h receiptInput)) (\<lambda>receipt.
     sx_bind (receipts_loadAll h) (\<lambda>all1.
     sx_bind (receipts_loadAll h) (\<lambda>all2.
     let existingReceipt = find (\<lambda>x. or_receiptId x = or_receiptId receipt) all1;
         existingActionRefs = map or_actionRef (filter (\<lambda>x. or_actionRef x = or_actionRef receipt) all2)
     in if existingReceipt \<noteq> None \<or> existingActionRefs \<noteq> []
        then sx_lift (zod_parse GovernanceOperatorActionReceiptStoreConsumeResultSchema
          \<lparr>cs_status = Replayed, cs_receipt = receipt,
           cs_existingReceiptIds = (case existingReceipt of None \<Rightarrow> [] | Some x \<Rightarrow> [or_receiptId x]),
           cs_existingActionRefs = uniqueStrings existingActionRefs\<rparr>)
        else sx_bind (sx_modify (append_line (taskPath h (or_taskId receipt)) receipt)) (\<lambda>_.
          sx_lift (zod_parse GovernanceOperatorActionReceiptStoreConsumeResultSchema
            \<lparr>cs_status = Stored, cs_receipt = receipt, cs_existingReceiptIds = [], cs_existingActionRefs = []\<rparr>)))))"

section \<open>Consumption\<close>

record consumption =
  cn_status :: pass_status
  cn_durable :: bool
  cn_reasons :: "str list"
  cn_validation :: receipt_validation
  cn_taskId :: "str option"
  cn_actionRef :: "str option"
  cn_envelopeHash :: "str option"
  cn_receipt :: "action_receipt option"

definition GovernanceOperatorActionReceiptConsumptionSchema :: "consumption \<Rightarrow> bool" where
  "GovernanceOperatorActionReceiptConsumptionSchema c \<longleftrightarrow> GovernanceOperatorActionReceiptValidationSchema (cn_validation c) \<and>
     opt_all (\<lambda>t. t \<noteq> []) (cn_taskId c) \<and> opt_all (\<lambda>t. t \<noteq> []) (cn_actionRef c) \<and> opt_all sha256_hex (cn_envelopeHash c) \<and>
     opt_all GovernanceOperatorActionReceiptSchema (cn_receipt c) \<and> status_fits (cn_status c) (cn_reasons c)"

definition consumption_of :: "receipt_validation \<Rightarrow> pass_status \<Rightarrow> str list \<Rightarrow> receipt_validation \<Rightarrow> err + consumption" where
  "consumption_of v status reasons shown = zod_parse GovernanceOperatorActionReceiptConsumptionSchema
     \<lparr>cn_status = status, cn_durable = (status = StatusPassed), cn_reasons = reasons, cn_validation = shown,
      cn_taskId = rv_taskId v, cn_actionRef = rv_actionRef v, cn_envelopeHash = rv_envelopeHash v, cn_receipt = rv_receipt v\<rparr>"

definition store_failed :: "str list" where
  "store_failed = [js ''operator_action_receipt_store_failed'']"

definition same_receipt_text :: "action_receipt \<Rightarrow> action_receipt \<Rightarrow> bool" where
  "same_receipt_text a b \<longleftrightarrow> stableStringify (action_receipt_json a) = stableStringify (action_receipt_json b)"

text \<open>What becomes of the store's answer.\<close>

definition settle_consumption :: "receipt_env \<Rightarrow> receipt_validation \<Rightarrow> action_receipt \<Rightarrow> consume_result \<Rightarrow> err + consumption" where
  "settle_consumption h validation receipt result =
     (if \<not> GovernanceOperatorActionReceiptStoreConsumeResultSchema result
      then consumption_of validation StatusBlocked store_failed validation
      else case parseReceiptForStore h (cs_receipt result) of
        Inl e \<Rightarrow> consumption_of validation StatusBlocked store_failed validation
      | Inr storedReceipt \<Rightarrow>
         (if \<not> same_receipt_text storedReceipt receipt
          then consumption_of validation StatusBlocked store_failed validation
          else if cs_status result = Replayed
          then bind_res (zod_parse GovernanceOperatorActionReceiptValidationSchema
                 (validation\<lparr>rv_status := StatusBlocked, rv_reasons := [js ''operator_action_receipt_replay'']\<rparr>))
               (consumption_of validation StatusBlocked [js ''operator_action_receipt_replay''])
          else consumption_of validation StatusPassed [] validation))"

text \<open>
  \<open>consume\<close> is the store's method; what it throws is caught. The result of a validation that is
  blocked does not carry the receipt.
\<close>

definition validateAndConsume ::
    "receipt_env \<Rightarrow> (action_receipt \<Rightarrow> ('s, err, consume_result) sx) \<Rightarrow> validation_input \<Rightarrow> ('s, err, consumption) sx" where
  "validateAndConsume h consume input =
     sx_bind (sx_lift (validateGovernanceOperatorActionReceipt h input)) (\<lambda>validation.
     let blocked = sx_lift (consumption_of (validation\<lparr>rv_receipt := None\<rparr>) StatusBlocked (rv_reasons validation) validation)
     in case rv_receipt validation of
       None \<Rightarrow> blocked
     | Some receipt \<Rightarrow>
       (if rv_status validation = StatusBlocked then blocked
        else (\<lambda>s. case consume receipt s of
            (Inl e, s') \<Rightarrow> (consumption_of validation StatusBlocked store_failed validation, s')
          | (Inr result, s') \<Rightarrow> (settle_consumption h validation receipt result, s'))))"

section \<open>The contract of a receipt store\<close>

definition consume_answer :: "action_receipt set \<Rightarrow> action_receipt \<Rightarrow> consume_result" where
  "consume_answer H r =
     (let ids = (if or_receiptId r \<in> or_receiptId ` H then [or_receiptId r] else []);
          refs = (if or_actionRef r \<in> or_actionRef ` H then [or_actionRef r] else [])
      in \<lparr>cs_status = (if ids \<noteq> [] \<or> refs \<noteq> [] then Replayed else Stored), cs_receipt = r,
          cs_existingReceiptIds = ids, cs_existingActionRefs = refs\<rparr>)"

definition held_after :: "action_receipt set \<Rightarrow> action_receipt \<Rightarrow> action_receipt set" where
  "held_after H r = (if cs_status (consume_answer H r) = Stored then insert r H else H)"

definition storable_receipt :: "receipt_env \<Rightarrow> action_receipt \<Rightarrow> bool" where
  "storable_receipt h r \<longleftrightarrow> GovernanceOperatorActionReceiptSchema r \<and> or_receiptId r = receipt_id_of h r"

lemma parseReceiptForStore_Inr: "parseReceiptForStore h r = Inr r' \<longleftrightarrow> r' = r \<and> storable_receipt h r"
  by (auto simp: parseReceiptForStore_def bind_res_Inr storable_receipt_def createGovernanceOperatorActionReceiptId_def
      GovernanceOperatorActionReceiptSchema_def split: if_splits)

lemma parseReceiptForStore_ok: "storable_receipt h r \<Longrightarrow> parseReceiptForStore h r = Inr r"
  by (simp add: parseReceiptForStore_Inr)

lemma replayed_iff: "cs_status (consume_answer H r) = Replayed \<longleftrightarrow>
   or_receiptId r \<in> or_receiptId ` H \<or> or_actionRef r \<in> or_actionRef ` H"
  by (simp add: consume_answer_def Let_def)

lemma answer_valid: "GovernanceOperatorActionReceiptSchema r \<Longrightarrow>
    GovernanceOperatorActionReceiptStoreConsumeResultSchema (consume_answer H r)"
  by (simp add: GovernanceOperatorActionReceiptStoreConsumeResultSchema_def consume_answer_def Let_def)

locale receipt_store =
  fixes h :: receipt_env
    and consume :: "action_receipt \<Rightarrow> ('s, err, consume_result) sx"
    and new :: 's
    and sound :: "'s \<Rightarrow> bool"
    and held :: "'s \<Rightarrow> action_receipt set"
  assumes new_sound: "sound new" and new_held: "held new = {}"
    and consume_refuses: "\<not> storable_receipt h r \<Longrightarrow> \<exists>e. consume r s = (Inl e, s)"
    and consume_answers: "sound s \<Longrightarrow> storable_receipt h r \<Longrightarrow> \<exists>s'. consume r s = (Inr (consume_answer (held s) r), s') \<and>
      sound s' \<and> held s' = held_after (held s) r"

lemma map_res_parsed: "list_all (storable_receipt h) rs \<Longrightarrow> map_res (parseReceiptForStore h) rs = Inr rs"
  by (induction rs) (simp_all add: parseReceiptForStore_ok)

lemma unique_refs: "uniqueStrings (map or_actionRef (filter (\<lambda>x. or_actionRef x = a) rs)) = (if a \<in> or_actionRef ` set rs then [a] else [])"
proof -
  have "map or_actionRef (filter (\<lambda>x. or_actionRef x = a) rs) = replicate (length (filter (\<lambda>x. or_actionRef x = a) rs)) a"
    by (induction rs) auto
  moreover have "uniq (replicate n a) = (if n = 0 then [] else [a])" for n :: nat and a :: str
  proof (cases n)
    case (Suc m)
    have "distinct (uniq (replicate n a))" "set (uniq (replicate n a)) = {a}" using Suc by auto
    then show ?thesis using Suc by (cases "uniq (replicate n a)"; cases "tl (uniq (replicate n a))") auto
  qed simp
  moreover have "length (filter (\<lambda>x. or_actionRef x = a) rs) = 0 \<longleftrightarrow> a \<notin> or_actionRef ` set rs"
    by (auto simp: filter_empty_conv)
  ultimately show ?thesis by (simp add: uniqueStrings_def)
qed

definition sound_by_id :: "receipts_by_id \<Rightarrow> bool" where
  "sound_by_id m \<longleftrightarrow> (\<forall>(k, r) \<in> set m. k = or_receiptId r)"

lemma by_id_lookup:
  "sound_by_id m \<Longrightarrow> (case map_of m i of None \<Rightarrow> [] | Some x \<Rightarrow> [or_receiptId x]) = (if i \<in> or_receiptId ` set (map snd m) then [i] else [])"
  by (induction m) (auto simp: sound_by_id_def)

lemma answer_parts:
  fixes H r
  defines "ids \<equiv> cs_existingReceiptIds (consume_answer H r)" and "refs \<equiv> cs_existingActionRefs (consume_answer H r)"
  shows "if ids \<noteq> [] \<or> refs \<noteq> []
    then consume_answer H r = \<lparr>cs_status = Replayed, cs_receipt = r, cs_existingReceiptIds = ids, cs_existingActionRefs = refs\<rparr> \<and>
      held_after H r = H
    else consume_answer H r = \<lparr>cs_status = Stored, cs_receipt = r, cs_existingReceiptIds = [], cs_existingActionRefs = []\<rparr> \<and>
      held_after H r = insert r H \<and> or_receiptId r \<notin> or_receiptId ` H \<and> or_actionRef r \<notin> or_actionRef ` H"
  unfolding ids_def refs_def held_after_def consume_answer_def Let_def by simp

lemma zod_answer: "GovernanceOperatorActionReceiptSchema r \<Longrightarrow> consume_answer H r = x \<Longrightarrow>
    zod_parse GovernanceOperatorActionReceiptStoreConsumeResultSchema x = Inr (consume_answer H r)"
  using answer_valid [of r H] by (simp add: zod_parse_def)

lemma mem_receipt_consume_run:
  assumes "storable_receipt h r" and "findReplay r s = (ids, refs)"
  shows "mem_receipt_consume h r s =
    (if ids \<noteq> [] \<or> refs \<noteq> []
     then (zod_parse GovernanceOperatorActionReceiptStoreConsumeResultSchema
       \<lparr>cs_status = Replayed, cs_receipt = r, cs_existingReceiptIds = ids, cs_existingActionRefs = refs\<rparr>, s)
     else (zod_parse GovernanceOperatorActionReceiptStoreConsumeResultSchema
       \<lparr>cs_status = Stored, cs_receipt = r, cs_existingReceiptIds = [], cs_existingActionRefs = []\<rparr>, AList.update (or_receiptId r) r s))"
  by (simp add: mem_receipt_consume_def parseReceiptForStore_ok [OF assms(1)] assms(2) sx_defs)

interpretation mem_receipts: receipt_store h "mem_receipt_consume h" "[]" sound_by_id "\<lambda>m. set (map snd m)" for h
proof unfold_locales
  fix r s assume "\<not> storable_receipt h r"
  then obtain e where "parseReceiptForStore h r = Inl e"
    by (cases "parseReceiptForStore h r") (auto simp: parseReceiptForStore_Inr)
  then show "\<exists>e. mem_receipt_consume h r s = (Inl e, s)" by (simp add: mem_receipt_consume_def sx_defs)
next
  fix s r assume s: "sound_by_id s" and r: "storable_receipt h r"
  let ?H = "set (map snd s)"
  let ?ids = "cs_existingReceiptIds (consume_answer ?H r)" and ?refs = "cs_existingActionRefs (consume_answer ?H r)"
  have v: "GovernanceOperatorActionReceiptSchema r" using r by (simp add: storable_receipt_def)
  have f: "findReplay r s = (?ids, ?refs)"
    using by_id_lookup [OF s, of "or_receiptId r"] unique_refs [of "or_actionRef r" "map snd s"]
    by (simp add: findReplay_def consume_answer_def Let_def)
  note run = mem_receipt_consume_run [OF r f]
  show "\<exists>s'. mem_receipt_consume h r s = (Inr (consume_answer ?H r), s') \<and> sound_by_id s' \<and> set (map snd s') = held_after ?H r"
  proof (cases "?ids \<noteq> [] \<or> ?refs \<noteq> []")
    case True
    note parts = answer_parts [of ?H r, unfolded if_P [OF True]]
    then have p: "held_after ?H r = ?H" and
      "consume_answer ?H r = \<lparr>cs_status = Replayed, cs_receipt = r, cs_existingReceiptIds = ?ids, cs_existingActionRefs = ?refs\<rparr>"
      by blast+
    from zod_answer [OF v this(2)] have "mem_receipt_consume h r s = (Inr (consume_answer ?H r), s)"
      unfolding run if_P [OF True] by (simp only:)
    with p s show ?thesis by blast
  next
    case False
    note parts = answer_parts [of ?H r, unfolded if_not_P [OF False]]
    then have p: "held_after ?H r = insert r ?H" "or_receiptId r \<notin> or_receiptId ` ?H" and
      c: "consume_answer ?H r = \<lparr>cs_status = Stored, cs_receipt = r, cs_existingReceiptIds = [], cs_existingActionRefs = []\<rparr>"
      by blast+
    from zod_answer [OF v c] have m: "mem_receipt_consume h r s = (Inr (consume_answer ?H r), AList.update (or_receiptId r) r s)"
      unfolding run if_not_P [OF False] by (simp only:)
    have "or_receiptId r \<notin> fst ` set s" using s p(2) by (force simp: sound_by_id_def)
    then have "AList.update (or_receiptId r) r s = s @ [(or_receiptId r, r)]" by (induction s) auto
    then have "sound_by_id (AList.update (or_receiptId r) r s) \<and> set (map snd (AList.update (or_receiptId r) r s)) = held_after ?H r"
      unfolding p(1) using s by (auto simp: sound_by_id_def)
    with m show ?thesis by blast
  qed
qed (simp_all add: sound_by_id_def)

definition on_disk :: "receipt_files \<Rightarrow> action_receipt set" where
  "on_disk disk = set (concat (map snd disk))"

definition sound_files :: "receipt_env \<Rightarrow> receipt_files \<Rightarrow> bool" where
  "sound_files h disk \<longleftrightarrow> list_all (storable_receipt h) (concat (map snd disk)) \<and> distinct (map fst disk)"

lemma append_line_sound:
  assumes "sound_files h disk" and "storable_receipt h r"
  shows "sound_files h (append_line file r disk) \<and> on_disk (append_line file r disk) = insert r (on_disk disk)"
proof (cases "map_of disk file")
  case None
  then have fresh: "file \<notin> fst ` set disk" by (simp add: map_of_eq_None_iff)
  then have "AList.update file [r] disk = disk @ [(file, [r])]" by (induction disk) auto
  then have "append_line file r disk = disk @ [(file, [r])]" unfolding append_line_def None by simp
  then show ?thesis using assms fresh by (auto simp: sound_files_def on_disk_def list_all_iff)
next
  case (Some rs)
  then obtain a b where d: "disk = a @ (file, rs) # b" by (meson map_of_SomeD split_list)
  with assms(1) have n: "file \<notin> fst ` set a" by (auto simp: sound_files_def)
  then have "AList.update file (rs @ [r]) disk = a @ (file, rs @ [r]) # b" unfolding d by (induction a) auto
  then have "append_line file r disk = a @ (file, rs @ [r]) # b" unfolding append_line_def Some by simp
  then show ?thesis using assms by (auto simp: sound_files_def on_disk_def d list_all_iff)
qed

lemma file_receipt_consume_run:
  assumes "storable_receipt h r" and "sound_files h s"
  defines "all \<equiv> concat (map snd s)"
  defines "ids \<equiv> (case find (\<lambda>x. or_receiptId x = or_receiptId r) all of None \<Rightarrow> [] | Some x \<Rightarrow> [or_receiptId x])"
    and "refs \<equiv> uniqueStrings (map or_actionRef (filter (\<lambda>x. or_actionRef x = or_actionRef r) all))"
  shows "file_receipt_consume h r s =
    (if ids \<noteq> [] \<or> refs \<noteq> []
     then (zod_parse GovernanceOperatorActionReceiptStoreConsumeResultSchema
       \<lparr>cs_status = Replayed, cs_receipt = r, cs_existingReceiptIds = ids, cs_existingActionRefs = refs\<rparr>, s)
     else (zod_parse GovernanceOperatorActionReceiptStoreConsumeResultSchema
       \<lparr>cs_status = Stored, cs_receipt = r, cs_existingReceiptIds = [], cs_existingActionRefs = []\<rparr>,
       append_line (taskPath h (or_taskId r)) r s))"
proof -
  have l: "receipts_loadAll h s = (Inr all, s)"
    using map_res_parsed [of h all] assms(2) by (simp add: receipts_loadAll_def sx_defs all_def sound_files_def)
  show ?thesis
    by (cases "find (\<lambda>x. or_receiptId x = or_receiptId r) all")
       (simp_all add: file_receipt_consume_def parseReceiptForStore_ok [OF assms(1)] sx_defs l ids_def refs_def)
qed

lemma find_by_id: "(case find (\<lambda>x. or_receiptId x = i) rs of None \<Rightarrow> [] | Some x \<Rightarrow> [or_receiptId x]) =
    (if i \<in> or_receiptId ` set rs then [i] else [])"
  by (induction rs) auto

interpretation file_receipts: receipt_store h "file_receipt_consume h" "[]" "sound_files h" on_disk for h
proof unfold_locales
  fix r s assume "\<not> storable_receipt h r"
  then obtain e where "parseReceiptForStore h r = Inl e"
    by (cases "parseReceiptForStore h r") (auto simp: parseReceiptForStore_Inr)
  then show "\<exists>e. file_receipt_consume h r s = (Inl e, s)" by (simp add: file_receipt_consume_def sx_defs)
next
  fix s r assume s: "sound_files h s" and r: "storable_receipt h r"
  let ?H = "on_disk s"
  let ?ids = "cs_existingReceiptIds (consume_answer ?H r)" and ?refs = "cs_existingActionRefs (consume_answer ?H r)"
  have v: "GovernanceOperatorActionReceiptSchema r" using r by (simp add: storable_receipt_def)
  have i: "(case find (\<lambda>x. or_receiptId x = or_receiptId r) (concat (map snd s)) of None \<Rightarrow> [] | Some x \<Rightarrow> [or_receiptId x]) = ?ids"
    by (simp add: find_by_id consume_answer_def Let_def on_disk_def)
  have a: "uniqueStrings (map or_actionRef (filter (\<lambda>x. or_actionRef x = or_actionRef r) (concat (map snd s)))) = ?refs"
    unfolding unique_refs by (simp add: consume_answer_def Let_def on_disk_def)
  note run = file_receipt_consume_run [OF r s, unfolded i a]
  show "\<exists>s'. file_receipt_consume h r s = (Inr (consume_answer ?H r), s') \<and> sound_files h s' \<and> on_disk s' = held_after ?H r"
  proof (cases "?ids \<noteq> [] \<or> ?refs \<noteq> []")
    case True
    note parts = answer_parts [of ?H r, unfolded if_P [OF True]]
    then have p: "held_after ?H r = ?H" and
      "consume_answer ?H r = \<lparr>cs_status = Replayed, cs_receipt = r, cs_existingReceiptIds = ?ids, cs_existingActionRefs = ?refs\<rparr>"
      by blast+
    from zod_answer [OF v this(2)] have "file_receipt_consume h r s = (Inr (consume_answer ?H r), s)"
      unfolding run if_P [OF True] by (simp only:)
    with p s show ?thesis by blast
  next
    case False
    note parts = answer_parts [of ?H r, unfolded if_not_P [OF False]]
    then have p: "held_after ?H r = insert r ?H" and
      c: "consume_answer ?H r = \<lparr>cs_status = Stored, cs_receipt = r, cs_existingReceiptIds = [], cs_existingActionRefs = []\<rparr>"
      by blast+
    from zod_answer [OF v c] have m: "file_receipt_consume h r s =
        (Inr (consume_answer ?H r), append_line (taskPath h (or_taskId r)) r s)"
      unfolding run if_not_P [OF False] by (simp only:)
    with append_line_sound [OF s r, of "taskPath h (or_taskId r)"] show ?thesis unfolding p by blast
  qed
qed (simp_all add: sound_files_def on_disk_def)

section \<open>At most once\<close>

text \<open>The abstract store: a set of receipts.\<close>

definition set_consume :: "receipt_env \<Rightarrow> action_receipt \<Rightarrow> (action_receipt set, err, consume_result) sx" where
  "set_consume h r H = (if storable_receipt h r then (Inr (consume_answer H r), held_after H r)
     else (Inl (Err (js ''operator_action_receipt_store_receipt_id_mismatch'')), H))"

fun consume_calls ::
    "receipt_env \<Rightarrow> (action_receipt \<Rightarrow> ('s, err, consume_result) sx) \<Rightarrow> validation_input list \<Rightarrow> 's \<Rightarrow> (err + consumption) list" where
  "consume_calls h consume [] s = []"
| "consume_calls h consume (i # inputs) s =
     (let (res, s') = validateAndConsume h consume i s in res # consume_calls h consume inputs s')"

lemma consume_calls_length [simp]: "length (consume_calls h consume inputs s) = length inputs"
  by (induction inputs arbitrary: s) (auto simp: Let_def split: prod.split)

lemma validateAndConsume_valid:
  assumes "validateGovernanceOperatorActionReceipt h i = Inr v" and "rv_receipt v = Some r" and "rv_status v = StatusPassed"
  shows "validateAndConsume h consume i s = (case consume r s of
      (Inl e, s') \<Rightarrow> (consumption_of v StatusBlocked store_failed v, s')
    | (Inr result, s') \<Rightarrow> (settle_consumption h v r result, s'))"
  using assms by (simp add: validateAndConsume_def sx_bind_def sx_lift_def Let_def)

lemma validateAndConsume_blocked:
  assumes "\<not> (\<exists>v r. validateGovernanceOperatorActionReceipt h i = Inr v \<and> rv_receipt v = Some r \<and> rv_status v = StatusPassed)"
  shows "\<exists>res. (\<forall>s. validateAndConsume h consume i s = (res, s)) \<and> (\<forall>t. validateAndConsume h consume' i t = (res, t)) \<and>
    (\<forall>c. res = Inr c \<longrightarrow> cn_status c = StatusBlocked)"
proof (cases "validateGovernanceOperatorActionReceipt h i")
  case (Inl e)
  then show ?thesis by (simp add: validateAndConsume_def sx_bind_def sx_lift_def)
next
  case (Inr v)
  with assms show ?thesis
    by (cases "rv_receipt v"; cases "rv_status v") (auto simp: validateAndConsume_def sx_bind_def sx_lift_def Let_def consumption_of_def)
qed

context receipt_store
begin

lemma refines_set:
  assumes s: "sound s"
  shows "\<exists>res s'. validateAndConsume h consume i s = (res, s') \<and> sound s' \<and>
    validateAndConsume h (set_consume h) i (held s) = (res, held s')"
proof (cases "\<exists>v r. validateGovernanceOperatorActionReceipt h i = Inr v \<and> rv_receipt v = Some r \<and> rv_status v = StatusPassed")
  case False
  from validateAndConsume_blocked [OF False, where consume = consume and consume' = "set_consume h"] s show ?thesis by blast
next
  case True
  then obtain v r where v: "validateGovernanceOperatorActionReceipt h i = Inr v" "rv_receipt v = Some r" "rv_status v = StatusPassed"
    by blast
  show ?thesis
  proof (cases "storable_receipt h r")
    case ok: True
    from consume_answers [OF s ok] obtain s' where
      c: "consume r s = (Inr (consume_answer (held s) r), s')" "sound s'" "held s' = held_after (held s) r" by blast
    have "set_consume h r (held s) = (Inr (consume_answer (held s) r), held s')" using ok c(3) by (simp add: set_consume_def)
    then show ?thesis using c(1,2) by (simp add: validateAndConsume_valid [OF v])
  next
    case bad: False
    from consume_refuses [OF bad] obtain e where c: "consume r s = (Inl e, s)" by blast
    have "set_consume h r (held s) = (Inl (Err (js ''operator_action_receipt_store_receipt_id_mismatch'')), held s)"
      using bad by (simp add: set_consume_def)
    then show ?thesis using c s by (simp add: validateAndConsume_valid [OF v])
  qed
qed

lemma calls_as_set: "sound s \<Longrightarrow> consume_calls h consume inputs s = consume_calls h (set_consume h) inputs (held s)"
proof (induction inputs arbitrary: s)
  case (Cons i inputs)
  from refines_set [OF Cons.prems, of i] obtain res s' where
    "validateAndConsume h consume i s = (res, s')" "sound s'" "validateAndConsume h (set_consume h) i (held s) = (res, held s')"
    by blast
  with Cons.IH [of s'] show ?case by simp
qed simp

lemma calls_from_new: "consume_calls h consume inputs new = consume_calls h (set_consume h) inputs {}"
  using calls_as_set [OF new_sound] by (simp add: new_held)

end

text \<open>
  C28: The two receipt stores cannot be told apart. For any sequence of consumptions the in-memory store
  and the store of one file per task give the same results, those of a plain set of receipts.
\<close>

theorem receipt_stores_refine_set:
  "consume_calls h (mem_receipt_consume h) inputs [] = consume_calls h (set_consume h) inputs {} \<and>
   consume_calls h (file_receipt_consume h) inputs [] = consume_calls h (set_consume h) inputs {}"
  using mem_receipts.calls_from_new file_receipts.calls_from_new by blast

text \<open>What a passed consumption has consumed.\<close>

definition consumed_receipt :: "receipt_env \<Rightarrow> validation_input \<Rightarrow> err + consumption \<Rightarrow> action_receipt \<Rightarrow> bool" where
  "consumed_receipt h i res r \<longleftrightarrow> (\<exists>c v. res = Inr c \<and> cn_status c = StatusPassed \<and> cn_durable c \<and> cn_receipt c = Some r \<and>
     validateGovernanceOperatorActionReceipt h i = Inr v \<and> rv_status v = StatusPassed \<and> vi_receipt i = Some r \<and>
     or_actionRef r = ref_of h (vi_envelope i) (vi_actionIssuedAt i))"

definition passed_result :: "err + consumption \<Rightarrow> bool" where
  "passed_result res \<longleftrightarrow> (case res of Inl e \<Rightarrow> False | Inr c \<Rightarrow> cn_status c = StatusPassed)"

lemma validation_passed:
  assumes "validateGovernanceOperatorActionReceipt h i = Inr v" and "rv_status v = StatusPassed" and "rv_receipt v = Some r"
  shows "vi_receipt i = Some r \<and> or_actionRef r = ref_of h (vi_envelope i) (vi_actionIssuedAt i)"
  using assms
  by (auto simp: validateGovernanceOperatorActionReceipt_def Let_def bind_res_Inr ref_created hash_created receipt_reasons_def
      split: option.splits if_splits)

lemma set_consume_step:
  assumes run: "validateAndConsume h (set_consume h) i H = (res, H')"
  shows "H \<subseteq> H' \<and> (passed_result res \<longrightarrow> (\<exists>r. consumed_receipt h i res r \<and> r \<in> H' \<and>
    or_receiptId r \<notin> or_receiptId ` H \<and> or_actionRef r \<notin> or_actionRef ` H))"
proof (cases "\<exists>v r. validateGovernanceOperatorActionReceipt h i = Inr v \<and> rv_receipt v = Some r \<and> rv_status v = StatusPassed")
  case False
  from validateAndConsume_blocked [OF False, where consume = "set_consume h" and consume' = "set_consume h"] run show ?thesis
    by (auto simp: passed_result_def split: sum.split)
next
  case True
  then obtain v r where v: "validateGovernanceOperatorActionReceipt h i = Inr v" "rv_receipt v = Some r" "rv_status v = StatusPassed"
    by blast
  note bound = validation_passed [OF v(1,3,2)]
  show ?thesis
  proof (cases "storable_receipt h r \<and> cs_status (consume_answer H r) = Stored")
    case True
    then have "set_consume h r H = (Inr (consume_answer H r), insert r H)"
      by (simp add: set_consume_def held_after_def)
    moreover have "cs_receipt (consume_answer H r) = r" by (simp add: consume_answer_def Let_def)
    moreover have "or_receiptId r \<notin> or_receiptId ` H \<and> or_actionRef r \<notin> or_actionRef ` H"
      using True replayed_iff [of H r] by auto
    moreover have "GovernanceOperatorActionReceiptStoreConsumeResultSchema (consume_answer H r)"
      using True by (simp add: answer_valid storable_receipt_def)
    ultimately show ?thesis using run v bound True
      by (auto simp: validateAndConsume_valid [OF v] settle_consumption_def consumption_of_def parseReceiptForStore_ok
          passed_result_def consumed_receipt_def same_receipt_text_def zod_parse_def split: if_splits)
  next
    case False
    then have "(\<exists>e. set_consume h r H = (Inl e, H)) \<or>
        set_consume h r H = (Inr (consume_answer H r), H) \<and> cs_status (consume_answer H r) = Replayed"
      by (cases "cs_status (consume_answer H r)") (auto simp: set_consume_def held_after_def)
    then show ?thesis using run v
      by (auto simp: validateAndConsume_valid [OF v] settle_consumption_def consumption_of_def passed_result_def zod_parse_def
          split: if_splits sum.splits)
  qed
qed

lemma passed_fresh:
  "k < length inputs \<Longrightarrow> passed_result (consume_calls h (set_consume h) inputs H ! k) \<Longrightarrow>
   \<exists>r. consumed_receipt h (inputs ! k) (consume_calls h (set_consume h) inputs H ! k) r \<and>
     or_receiptId r \<notin> or_receiptId ` H \<and> or_actionRef r \<notin> or_actionRef ` H"
proof (induction inputs arbitrary: H k)
  case (Cons i inputs)
  obtain res H' where run: "validateAndConsume h (set_consume h) i H = (res, H')" by fastforce
  note step = set_consume_step [OF run]
  show ?case
  proof (cases k)
    case 0
    then show ?thesis using Cons.prems run step by auto
  next
    case (Suc m)
    with Cons.prems run have "m < length inputs" "passed_result (consume_calls h (set_consume h) inputs H' ! m)" by auto
    from Cons.IH [OF this] step obtain r where "consumed_receipt h (inputs ! m) (consume_calls h (set_consume h) inputs H' ! m) r"
      "or_receiptId r \<notin> or_receiptId ` H" "or_actionRef r \<notin> or_actionRef ` H" by blast
    then show ?thesis using Suc run by auto
  qed
qed simp

lemma passed_pair:
  "i < j \<Longrightarrow> j < length inputs \<Longrightarrow> passed_result (consume_calls h (set_consume h) inputs H ! i) \<Longrightarrow>
   passed_result (consume_calls h (set_consume h) inputs H ! j) \<Longrightarrow>
   \<exists>r q. consumed_receipt h (inputs ! i) (consume_calls h (set_consume h) inputs H ! i) r \<and>
     consumed_receipt h (inputs ! j) (consume_calls h (set_consume h) inputs H ! j) q \<and>
     or_receiptId r \<noteq> or_receiptId q \<and> or_actionRef r \<noteq> or_actionRef q"
proof (induction inputs arbitrary: H i j)
  case (Cons x inputs)
  obtain res H' where run: "validateAndConsume h (set_consume h) x H = (res, H')" by fastforce
  note step = set_consume_step [OF run]
  obtain m where j: "j = Suc m" using Cons.prems by (cases j) auto
  with Cons.prems run have m: "m < length inputs" "passed_result (consume_calls h (set_consume h) inputs H' ! m)" by auto
  show ?case
  proof (cases i)
    case 0
    with Cons.prems run step obtain r where r: "consumed_receipt h x res r" "r \<in> H'" by auto
    from passed_fresh [OF m] r(2) obtain q where
      "consumed_receipt h (inputs ! m) (consume_calls h (set_consume h) inputs H' ! m) q"
      "or_receiptId r \<noteq> or_receiptId q" "or_actionRef r \<noteq> or_actionRef q" by (metis imageI)
    then show ?thesis using r(1) 0 j run by auto
  next
    case (Suc n)
    with Cons.prems run j have "n < m" "passed_result (consume_calls h (set_consume h) inputs H' ! n)" by auto
    from Cons.IH [OF this(1) m(1) this(2) m(2)] show ?thesis using Suc j run by simp
  qed
qed simp

text \<open>
  C25: An operator action is consumed at most once. Take any sequence of validations and consumptions
  against the in-memory store. Two of them that pass concern different actions (a different envelope or
  issue time, and different references) and different receipts, and each is durable and passed its
  validation.
\<close>

theorem action_consumed_once:
  assumes "i < j" and "j < length inputs" and "results = consume_calls h (mem_receipt_consume h) inputs []"
    and "passed_result (results ! i)" and "passed_result (results ! j)"
  shows "(vi_envelope (inputs ! i), vi_actionIssuedAt (inputs ! i)) \<noteq> (vi_envelope (inputs ! j), vi_actionIssuedAt (inputs ! j)) \<and>
    (\<exists>r q. consumed_receipt h (inputs ! i) (results ! i) r \<and> consumed_receipt h (inputs ! j) (results ! j) q \<and>
       or_receiptId r \<noteq> or_receiptId q \<and> or_actionRef r \<noteq> or_actionRef q)"
proof -
  have res: "results = consume_calls h (set_consume h) inputs {}" using assms(3) mem_receipts.calls_from_new by simp
  from passed_pair [OF assms(1,2), of h "{}"] assms(4,5) obtain r q where
    rq: "consumed_receipt h (inputs ! i) (results ! i) r" "consumed_receipt h (inputs ! j) (results ! j) q"
      "or_receiptId r \<noteq> or_receiptId q" "or_actionRef r \<noteq> or_actionRef q" unfolding res by blast
  then have "or_actionRef r = ref_of h (vi_envelope (inputs ! i)) (vi_actionIssuedAt (inputs ! i))"
    "or_actionRef q = ref_of h (vi_envelope (inputs ! j)) (vi_actionIssuedAt (inputs ! j))" by (auto simp: consumed_receipt_def)
  then have "ref_of h (vi_envelope (inputs ! i)) (vi_actionIssuedAt (inputs ! i)) \<noteq>
    ref_of h (vi_envelope (inputs ! j)) (vi_actionIssuedAt (inputs ! j))" using rq(4) by simp
  then have "(vi_envelope (inputs ! i), vi_actionIssuedAt (inputs ! i)) \<noteq> (vi_envelope (inputs ! j), vi_actionIssuedAt (inputs ! j))"
    by auto
  moreover have "\<exists>r q. consumed_receipt h (inputs ! i) (results ! i) r \<and> consumed_receipt h (inputs ! j) (results ! j) q \<and>
       or_receiptId r \<noteq> or_receiptId q \<and> or_actionRef r \<noteq> or_actionRef q"
    using rq by (intro exI conjI)
  ultimately show ?thesis by (rule conjI)
qed

section \<open>Examples\<close>

text \<open>A hash that tells apart two objects whose first member, in the order of keys, is the issue time 9 or another.\<close>

definition demo_receipt_env :: receipt_env where
  "demo_receipt_env = \<lparr>re_sha = (\<lambda>t. if t ! 19 = 57 then replicate 64 57 else replicate 64 48), re_date = (\<lambda>_. Some 0)\<rparr>"

lemma demo_receipt_sha: "sha256_hex (re_sha demo_receipt_env t)"
  by (simp add: demo_receipt_env_def sha256_hex_def list_all_iff is_digit_def)

definition demo_action :: action_envelope where
  "demo_action = \<lparr>ae_source = ExecutionGovernance, ae_taskId = js ''t1'', ae_trigger = ThirdAnomaly,
     ae_recommendedAction = ReAbort, ae_requiresHumanApproval = True, ae_lockdown = True, ae_checkpointRef = None,
     ae_blockingReasons = [], ae_evidenceRefs = [], ae_artifactRefs = []\<rparr>"

lemma demo_action_ok: "GovernanceOperatorActionEnvelopeSchema demo_action"
  by (simp add: GovernanceOperatorActionEnvelopeSchema_def demo_action_def)

definition demo_validation :: "string \<Rightarrow> action_receipt \<Rightarrow> validation_input" where
  "demo_validation issued r = \<lparr>vi_envelope = demo_action, vi_receipt = Some r, vi_actionIssuedAt = Some (js issued), vi_now = js ''n'',
     vi_maxActionAgeMs = None, vi_consumedActionRefs = [], vi_consumedReceiptIds = []\<rparr>"

definition demo_operator :: str where "demo_operator = replicate 64 48"

lemma demo_operator_hex: "sha256_hex demo_operator"
  by (simp add: demo_operator_def sha256_hex_def list_all_iff is_digit_def)

theorem created_receipt_validates_witness:
  "\<exists>r v. createGovernanceOperatorActionReceipt demo_receipt_env demo_action (js ''8'') ConsumedByOperator
       demo_operator (js ''c'') None = Inr r \<and>
     validateGovernanceOperatorActionReceipt demo_receipt_env (demo_validation ''8'' r) = Inr v \<and> rv_status v = StatusPassed"
  using created_receipt_validates [OF demo_action_ok demo_receipt_sha demo_operator_hex, of "js ''8''" "js ''c''"
      ConsumedByOperator None "js ''n''" None "[]" "[]"]
  by (auto simp: demo_validation_def demo_receipt_env_def or_else_def DEFAULT_OPERATOR_ACTION_MAX_AGE_MS_def)

lemma first_member:
  assumes k: "(k, v) \<in> set kvs" "distinct (map fst kvs)" "\<forall>x \<in> set kvs. k \<le> fst x"
  shows "\<exists>rest. stableStringify (JObj kvs) = js ''{'' @ member_text (k, stableStringify v) @ rest"
proof -
  let ?L = "map (\<lambda>(k, v). (k, stableStringify v)) kvs"
  have m: "(k, stableStringify v) \<in> set ?L" using k(1) by force
  have fst_L: "map fst ?L = map fst kvs" by (induction kvs) auto
  obtain x xs where s: "sort_key fst ?L = x # xs" using m by (metis empty_iff list.exhaust list.set(1) set_sort)
  have "x \<in> set ?L" using s by (metis list.set_intros(1) set_sort)
  moreover have "fst x \<le> k"
  proof -
    have "sorted (map fst (x # xs))" using s sorted_sort_key [of fst ?L] by simp
    moreover have "(k, stableStringify v) \<in> set (x # xs)" using m s by (metis set_sort)
    ultimately show ?thesis by auto
  qed
  moreover have "k \<le> fst x" using k(3) \<open>x \<in> set ?L\<close> by auto
  ultimately have "fst x = k" by simp
  moreover have "distinct (map fst ?L)" using k(2) unfolding fst_L .
  ultimately have "x = (k, stableStringify v)" using m \<open>x \<in> set ?L\<close> by (metis eq_key_imp_eq_value prod.collapse)
  then show ?thesis using s by (cases xs) auto
qed

lemma issue_quoted:
  "json_quote (js ''actionIssuedAt'') @ [COLON] @ json_quote (js ''9'') = js ''\"actionIssuedAt\":\"9\"''"
  "json_quote (js ''actionIssuedAt'') @ [COLON] @ json_quote (js ''8'') = js ''\"actionIssuedAt\":\"8\"''"
  by code_simp+

lemma issue_char:
  assumes "(js ''actionIssuedAt'', JStr (js issued)) \<in> set kvs" "distinct (map fst kvs)"
    "\<forall>x \<in> set kvs. js ''actionIssuedAt'' \<le> fst x" and "issued = ''8'' \<or> issued = ''9''"
  shows "stableStringify (JObj kvs) ! 19 = (if issued = ''9'' then 57 else 56)"
proof -
  from first_member [OF assms(1-3)] obtain rest where
    "stableStringify (JObj kvs) = js ''{'' @ member_text (js ''actionIssuedAt'', json_quote (js issued)) @ rest" by auto
  moreover have "member_text (js ''actionIssuedAt'', json_quote (js issued)) = js (''\"actionIssuedAt\":\"'' @ issued @ ''\"'')"
    using assms(4) issue_quoted by (auto simp: member_text_def)
  ultimately show ?thesis using assms(4) by (auto simp: js_def nth_append)
qed

lemma key_order: "list_all (\<lambda>k. js ''actionIssuedAt'' \<le> js k)
    [''actionIssuedAt'', ''actionRef'', ''createdAt'', ''decision'', ''envelopeHash'', ''evidenceRefs'', ''operatorIdHash'', ''taskId'']"
  by code_simp

lemma demo_issue_hash:
  assumes "(js ''actionIssuedAt'', JStr (js issued)) \<in> set kvs" "distinct (map fst kvs)"
    "\<forall>x \<in> set kvs. js ''actionIssuedAt'' \<le> fst x" and "issued = ''8'' \<or> issued = ''9''"
  shows "stableSha256 demo_receipt_env (JObj kvs) = (if issued = ''9'' then replicate 64 57 else replicate 64 48)"
  using assms(4) issue_char [OF assms] by (auto simp: stableSha256_def demo_receipt_env_def)

lemma demo_ref: "issued = ''8'' \<or> issued = ''9'' \<Longrightarrow> ref_of demo_receipt_env demo_action (Some (js issued)) =
    GOVERNANCE_OPERATOR_ACTION_REF_PREFIX @ (if issued = ''9'' then replicate 64 57 else replicate 64 48)"
  unfolding ref_of_def option.case using key_order by (subst demo_issue_hash) (auto simp: js_eq_iff)

definition demo_payload :: "string \<Rightarrow> receipt_payload" where
  "demo_payload issued = payload_for demo_receipt_env demo_action (js issued) ConsumedByOperator demo_operator (js ''c'') None"

lemma demo_id: "issued = ''8'' \<or> issued = ''9'' \<Longrightarrow> receipt_id_of demo_receipt_env (demo_payload issued) =
    GOVERNANCE_OPERATOR_ACTION_RECEIPT_ID_PREFIX @ (if issued = ''9'' then replicate 64 57 else replicate 64 48)"
  unfolding receipt_id_of_def using key_order
  by (subst demo_issue_hash) (auto simp: js_eq_iff payload_members_def demo_payload_def payload_for_def optional_member_def)

lemma set_store_passes:
  assumes v: "validateGovernanceOperatorActionReceipt h i = Inr v" "rv_receipt v = Some r" "rv_status v = StatusPassed"
    and r: "storable_receipt h r" "or_receiptId r \<notin> or_receiptId ` H" "or_actionRef r \<notin> or_actionRef ` H"
  shows "\<exists>c. validateAndConsume h (set_consume h) i H = (Inr c, insert r H) \<and> cn_status c = StatusPassed"
proof -
  have "GovernanceOperatorActionReceiptValidationSchema v"
    using v(1) by (auto simp: validateGovernanceOperatorActionReceipt_def Let_def bind_res_Inr split: if_splits option.splits)
  moreover have a: "cs_status (consume_answer H r) = Stored" using r(2,3) by (simp add: consume_answer_def Let_def)
  moreover have "cs_receipt (consume_answer H r) = r" by (simp add: consume_answer_def Let_def)
  moreover have "GovernanceOperatorActionReceiptStoreConsumeResultSchema (consume_answer H r)"
    using r(1) by (simp add: answer_valid storable_receipt_def)
  ultimately show ?thesis using r(1)
    by (simp add: validateAndConsume_valid [OF v] set_consume_def held_after_def settle_consumption_def consumption_of_def
        parseReceiptForStore_ok same_receipt_text_def zod_parse_def GovernanceOperatorActionReceiptConsumptionSchema_def
        GovernanceOperatorActionReceiptValidationSchema_def status_fits_def)
qed

lemma demo_dates: "re_date demo_receipt_env t = Some 0"
  by (simp add: demo_receipt_env_def)

lemma demo_validates:
  assumes i: "issued = ''8'' \<or> issued = ''9''"
  shows "\<exists>r v. validateGovernanceOperatorActionReceipt demo_receipt_env (demo_validation issued r) = Inr v \<and>
    rv_receipt v = Some r \<and> rv_status v = StatusPassed \<and> storable_receipt demo_receipt_env r \<and>
    or_receiptId r = receipt_id_of demo_receipt_env (demo_payload issued) \<and>
    or_actionRef r = ref_of demo_receipt_env demo_action (Some (js issued))"
proof -
  have n: "js issued \<noteq> []" "js ''c'' \<noteq> []" using i by auto
  from receipt_created [OF demo_action_ok demo_receipt_sha demo_operator_hex n, of ConsumedByOperator None] obtain r where
    ok: "GovernanceOperatorActionReceiptSchema r" and id: "or_receiptId r = receipt_id_of demo_receipt_env (demo_payload issued)"
      "payload_members r = payload_members (demo_payload issued)"
    and f: "or_taskId r = ae_taskId demo_action" "or_actionRef r = ref_of demo_receipt_env demo_action (Some (js issued))"
      "or_actionIssuedAt r = js issued" "or_envelopeHash r = Some (stableSha256 demo_receipt_env (envelope_json demo_action))"
      "or_decision r = ConsumedByOperator" unfolding demo_payload_def by blast
  have id': "or_receiptId r = receipt_id_of demo_receipt_env r" by (simp add: id receipt_id_of_def)
  let ?in = "demo_validation issued r"
  have vi: "vi_envelope ?in = demo_action" "vi_receipt ?in = Some r" by (simp_all add: demo_validation_def)
  have "receipt_reasons demo_receipt_env ?in demo_action (stableSha256 demo_receipt_env (envelope_json demo_action))
      (ref_of demo_receipt_env demo_action (Some (js issued))) r = []"
    using id' by (auto simp: receipt_reasons_def time_reasons_Nil f demo_validation_def or_else_def demo_dates
        DEFAULT_OPERATOR_ACTION_MAX_AGE_MS_def)
  moreover have "vi_actionIssuedAt ?in = Some (js issued)" by (simp add: demo_validation_def)
  ultimately show ?thesis
    using validate_checked [of ?in demo_receipt_env r, unfolded vi, OF demo_action_ok demo_receipt_sha refl ok] ok id id' f
    by (intro exI [of _ r] exI) (auto simp: Let_def storable_receipt_def vi)
qed

theorem action_consumed_once_witness:
  "\<exists>r q results. results = consume_calls demo_receipt_env (mem_receipt_consume demo_receipt_env)
       [demo_validation ''8'' r, demo_validation ''9'' q] [] \<and>
     passed_result (results ! 0) \<and> passed_result (results ! 1) \<and> or_actionRef r \<noteq> or_actionRef q"
proof -
  let ?h = demo_receipt_env
  from demo_validates [of "''8''"] obtain r v where
    r: "validateGovernanceOperatorActionReceipt ?h (demo_validation ''8'' r) = Inr v" "rv_receipt v = Some r" "rv_status v = StatusPassed"
      "storable_receipt ?h r" "or_receiptId r = receipt_id_of ?h (demo_payload ''8'')" "or_actionRef r = ref_of ?h demo_action (Some (js ''8''))"
    by blast
  from demo_validates [of "''9''"] obtain q w where
    q: "validateGovernanceOperatorActionReceipt ?h (demo_validation ''9'' q) = Inr w" "rv_receipt w = Some q" "rv_status w = StatusPassed"
      "storable_receipt ?h q" "or_receiptId q = receipt_id_of ?h (demo_payload ''9'')" "or_actionRef q = ref_of ?h demo_action (Some (js ''9''))"
    by blast
  have ne: "or_receiptId q \<noteq> or_receiptId r" "or_actionRef q \<noteq> or_actionRef r" by (simp_all add: r q demo_ref demo_id)
  obtain c where c: "validateAndConsume ?h (set_consume ?h) (demo_validation ''8'' r) {} = (Inr c, {r})" "cn_status c = StatusPassed"
    using set_store_passes [OF r(1-4), of "{}"] by auto
  obtain d where d: "validateAndConsume ?h (set_consume ?h) (demo_validation ''9'' q) {r} = (Inr d, {q, r})" "cn_status d = StatusPassed"
    using set_store_passes [OF q(1-4), of "{r}"] ne by auto
  define results where "results = consume_calls ?h (mem_receipt_consume ?h) [demo_validation ''8'' r, demo_validation ''9'' q] []"
  have res: "results = [Inr c, Inr d]" unfolding results_def mem_receipts.calls_from_new by (simp add: c d)
  have "passed_result (results ! 0)" "passed_result (results ! 1)" by (simp_all add: res passed_result_def c d)
  with action_consumed_once [of 0 1 "[demo_validation ''8'' r, demo_validation ''9'' q]", OF _ _ results_def] ne show ?thesis
    by (metis results_def)
qed

end
