(* ===== verification/RuntimeControl.thy ===== *)
theory RuntimeControl
  imports EntropyRisk
begin

text \<open>
  What happens while a task runs: \<open>packages/governance-internal-runtime-control/src/index.ts\<close> (from a
  governance state to a runtime signal, from a signal to an escalation) and
  \<open>packages/governance-internal-validation-arbiter/src/index.ts\<close> (which agent's evidence wins).
\<close>

section \<open>Signals\<close>

definition countExecutionFailures :: "gov_state \<Rightarrow> nat" where
  "countExecutionFailures state = length (filter (\<lambda>a. an_kind a = js ''execution_failure'') (gs_anomalies state))"

definition high_or_critical :: "gov_risk \<Rightarrow> bool" where
  "high_or_critical r \<longleftrightarrow> r = GrHigh \<or> r = GrCritical"

definition inferRuntimeEventType :: "gov_state \<Rightarrow> nat \<Rightarrow> event_type" where
  "inferRuntimeEventType state failureCount =
     (if high_or_critical (gr_finalRiskLevel (gs_risk state)) then RiskDetected
      else if 0 < failureCount then AttemptFailed else AttemptSucceeded)"

definition gov_risk_name :: "gov_risk \<Rightarrow> str" where
  "gov_risk_name r = js (case r of GrLow \<Rightarrow> ''low'' | GrMedium \<Rightarrow> ''medium'' | GrHigh \<Rightarrow> ''high'' | GrCritical \<Rightarrow> ''critical'')"

definition createRuntimeSignalFromGovernanceState ::
    "gov_state \<Rightarrow> event_type option \<Rightarrow> str list option \<Rightarrow> err + runtime_signal" where
  "createRuntimeSignalFromGovernanceState state eventTypeInput detailsInput =
     (let failureCount = countExecutionFailures state;
          eventType = or_else eventTypeInput (inferRuntimeEventType state failureCount);
          level = gr_finalRiskLevel (gs_risk state);
          details = or_else detailsInput [] @
            (if 0 < failureCount then [js ''execution_failures:'' @ dec_nat failureCount] else []) @
            (if high_or_critical level then [js ''risk:'' @ gov_risk_name level] else [])
      in zod_parse RuntimeSignalSchema
           \<lparr>rs_taskId = gs_taskId state, rs_eventType = eventType, rs_failureCount = int failureCount,
            rs_contextPressure = Some (gr_contextPressure (gs_risk state)), rs_details = details\<rparr>)"

section \<open>Escalation\<close>

definition MODEL_LADDER :: "model_id list" where
  "MODEL_LADDER = [Gpt53Spark, Gpt54Mini, Gpt53Codex, Gpt54, Gpt51Max]"

fun index_of :: "'a \<Rightarrow> 'a list \<Rightarrow> nat option" where
  "index_of x [] = None"
| "index_of x (y # ys) = (if x = y then Some 0 else map_option Suc (index_of x ys))"

definition upgradeModel :: "model_id \<Rightarrow> model_id" where
  "upgradeModel current = (case index_of current MODEL_LADDER of
     None \<Rightarrow> current
   | Some i \<Rightarrow> (if i = length MODEL_LADDER - 1 then current
       else if i + 1 < length MODEL_LADDER then MODEL_LADDER ! (i + 1) else current))"

datatype escalation = NoEscalation | UpgradeModel model_id "str list" | OpenCircuit "str list"

definition escalation_reasons :: "runtime_signal \<Rightarrow> policy_snapshot \<Rightarrow> str list" where
  "escalation_reasons signal policy =
     (if er_failureThreshold (ps_escalationRules policy) \<le> rs_failureCount signal then [js ''failure_threshold_reached''] else []) @
     (if rs_eventType signal = ScopeExpanded then [js ''scope_expanded''] else []) @
     (if opt_ex (\<lambda>p. er_contextPressureThreshold (ps_escalationRules policy) \<le> p) (rs_contextPressure signal)
      then [js ''context_pressure''] else []) @
     (if rs_eventType signal = RiskDetected \<and> er_highRiskSticky (ps_escalationRules policy) then [js ''high_risk_signal''] else []) @
     (if rs_eventType signal = ValidationFailed then [js ''validation_failed''] else [])"

definition evaluateRuntimeSignals :: "routing_decision \<Rightarrow> runtime_signal \<Rightarrow> policy_snapshot \<Rightarrow> escalation" where
  "evaluateRuntimeSignals decision signal policy =
     (let reasons = escalation_reasons signal policy; current = rex_selectedModel (rd_execution decision);
          nextModel = upgradeModel current
      in if reasons = [] then NoEscalation
         else if nextModel = current \<and> js ''high_risk_signal'' \<in> set reasons then OpenCircuit reasons
         else if nextModel = current then OpenCircuit reasons
         else UpgradeModel nextModel reasons)"

text \<open>A task whose signals are answered: an upgrade is what the next attempt runs with.\<close>

definition with_model :: "routing_decision \<Rightarrow> model_id \<Rightarrow> routing_decision" where
  "with_model d m = d\<lparr>rd_execution := (rd_execution d)\<lparr>rex_selectedModel := m\<rparr>\<rparr>"

fun escalate :: "policy_snapshot \<Rightarrow> routing_decision \<Rightarrow> runtime_signal list \<Rightarrow> escalation list" where
  "escalate policy d [] = []"
| "escalate policy d (s # ss) = (let e = evaluateRuntimeSignals d s policy in
     e # escalate policy (case e of UpgradeModel m _ \<Rightarrow> with_model d m | _ \<Rightarrow> d) ss)"

definition is_upgrade :: "escalation \<Rightarrow> bool" where
  "is_upgrade e \<longleftrightarrow> (case e of UpgradeModel _ _ \<Rightarrow> True | _ \<Rightarrow> False)"

definition is_open :: "escalation \<Rightarrow> bool" where
  "is_open e \<longleftrightarrow> (case e of OpenCircuit _ \<Rightarrow> True | _ \<Rightarrow> False)"

lemma escalation_kinds [simp]:
  "\<not> is_upgrade NoEscalation" "is_upgrade (UpgradeModel m rs)" "\<not> is_upgrade (OpenCircuit rs)"
  "\<not> is_open NoEscalation" "\<not> is_open (UpgradeModel m rs)" "is_open (OpenCircuit rs)"
  by (simp_all add: is_upgrade_def is_open_def)

fun rung :: "model_id \<Rightarrow> nat" where
  "rung Gpt53Spark = 0" | "rung Gpt54Mini = 1" | "rung Gpt53Codex = 2" | "rung Gpt54 = 3" | "rung Gpt51Max = 4"

lemma upgrade_rung: "rung (upgradeModel m) = min (Suc (rung m)) 4"
  by (cases m) (simp_all add: upgradeModel_def MODEL_LADDER_def)

lemma upgrade_same: "upgradeModel m = m \<longleftrightarrow> rung m = 4"
  by (cases m) (simp_all add: upgradeModel_def MODEL_LADDER_def)

lemma evaluate_cases:
  "(evaluateRuntimeSignals d s p = NoEscalation \<longleftrightarrow> escalation_reasons s p = []) \<and>
   (is_upgrade (evaluateRuntimeSignals d s p) \<longleftrightarrow> escalation_reasons s p \<noteq> [] \<and> rung (rex_selectedModel (rd_execution d)) < 4) \<and>
   (is_open (evaluateRuntimeSignals d s p) \<longleftrightarrow> escalation_reasons s p \<noteq> [] \<and> rung (rex_selectedModel (rd_execution d)) = 4)"
  using upgrade_same [of "rex_selectedModel (rd_execution d)"]
  by (cases "rex_selectedModel (rd_execution d)")
     (auto simp: evaluateRuntimeSignals_def Let_def is_upgrade_def is_open_def)

lemma upgrade_to: "evaluateRuntimeSignals d s p = UpgradeModel m rs \<Longrightarrow> m = upgradeModel (rex_selectedModel (rd_execution d))"
  by (auto simp: evaluateRuntimeSignals_def Let_def split: if_splits)

lemma escalate_counts:
  "length (filter is_upgrade (escalate p d ss)) + rung (rex_selectedModel (rd_execution d)) =
   min 4 (rung (rex_selectedModel (rd_execution d)) + length (filter (\<lambda>s. escalation_reasons s p \<noteq> []) ss)) \<and>
   length (filter is_upgrade (escalate p d ss)) + length (filter is_open (escalate p d ss)) =
   length (filter (\<lambda>s. escalation_reasons s p \<noteq> []) ss)"
proof (induction ss arbitrary: d)
  case Nil
  then show ?case by (cases "rex_selectedModel (rd_execution d)") simp_all
next
  case (Cons s ss)
  let ?e = "evaluateRuntimeSignals d s p" and ?r = "rung (rex_selectedModel (rd_execution d))"
  have le: "?r \<le> 4" by (cases "rex_selectedModel (rd_execution d)") simp_all
  note c = evaluate_cases [of d s p]
  show ?case
  proof (cases ?e)
    case NoEscalation
    then show ?thesis using c Cons.IH [of d] by simp
  next
    case (UpgradeModel m rs)
    then have "rung m = Suc ?r" using upgrade_to [OF UpgradeModel] c by (simp add: upgrade_rung)
    then show ?thesis using UpgradeModel c Cons.IH [of "with_model d m"]
      by (simp add: with_model_def)
  next
    case (OpenCircuit rs)
    then show ?thesis using c le Cons.IH [of d] by auto
  qed
qed

text \<open>
  Escalation climbs and then stops. Of any sequence of signals each one that gives a reason is answered
  with an upgrade or with an open circuit, the others with nothing; there are as many upgrades as
  rungs above the first model, at most four, before every further reason opens the circuit.
\<close>

theorem escalation_bounded:
  "let reasons = length (filter (\<lambda>s. escalation_reasons s p \<noteq> []) ss);
       above_first = 4 - rung (rex_selectedModel (rd_execution d)) in
   length (filter is_upgrade (escalate p d ss)) = min above_first reasons \<and>
   length (filter is_open (escalate p d ss)) = reasons - above_first \<and>
   length (filter is_upgrade (escalate p d ss)) \<le> 4"
proof -
  have "rung (rex_selectedModel (rd_execution d)) \<le> 4" by (cases "rex_selectedModel (rd_execution d)") simp_all
  then show ?thesis using escalate_counts [of p d ss] unfolding Let_def by linarith
qed

text \<open>A signal can be drawn from every valid state, and as many failures as the threshold escalate.\<close>

lemma signal_created:
  assumes "GovernanceStateSchema s"
  shows "\<exists>sig. createRuntimeSignalFromGovernanceState s ev details = Inr sig \<and>
    rs_failureCount sig = int (countExecutionFailures s) \<and> rs_contextPressure sig = Some (gr_contextPressure (gs_risk s)) \<and>
    rs_eventType sig = or_else ev (inferRuntimeEventType s (countExecutionFailures s))"
  using assms
  by (simp add: createRuntimeSignalFromGovernanceState_def Let_def zod_parse_def RuntimeSignalSchema_def
      GovernanceStateSchema_def GovernanceRiskScoreSchema_def unit_range_def)

text \<open>
  Failures and risk are escalated. From a valid state in which the policy's number of execution
  failures has been reached, or whose risk is high while the policy holds on to high risks, or whose
  context pressure has reached the threshold, the derived signal always leads to an upgrade or an
  open circuit.
\<close>

theorem failures_escalate:
  assumes "GovernanceStateSchema s"
    and "er_failureThreshold (ps_escalationRules policy) \<le> int (countExecutionFailures s) \<or>
      high_or_critical (gr_finalRiskLevel (gs_risk s)) \<and> er_highRiskSticky (ps_escalationRules policy) \<or>
      er_contextPressureThreshold (ps_escalationRules policy) \<le> gr_contextPressure (gs_risk s)"
  shows "\<exists>sig. createRuntimeSignalFromGovernanceState s None details = Inr sig \<and>
    (is_upgrade (evaluateRuntimeSignals d sig policy) \<or> is_open (evaluateRuntimeSignals d sig policy))"
proof -
  from signal_created [OF assms(1), of None details] obtain sig where
    s: "createRuntimeSignalFromGovernanceState s None details = Inr sig" "rs_failureCount sig = int (countExecutionFailures s)"
      "rs_contextPressure sig = Some (gr_contextPressure (gs_risk s))"
      "rs_eventType sig = inferRuntimeEventType s (countExecutionFailures s)" by (auto simp: or_else_def)
  have "escalation_reasons sig policy \<noteq> []"
    using assms(2) by (auto simp: escalation_reasons_def s inferRuntimeEventType_def)
  moreover have "rung (rex_selectedModel (rd_execution d)) \<le> 4" by (cases "rex_selectedModel (rd_execution d)") simp_all
  ultimately show ?thesis using s(1) evaluate_cases [of d sig policy] by (intro exI [of _ sig]) auto
qed

section \<open>The arbiter\<close>

datatype evidence_role = RoleExecutor | RolePlanner | RoleVerifier | RoleConjugate | RoleContextKeeper | RoleArbiter

record evidence =
  ev_evidenceId :: str
  ev_taskId :: str
  ev_agentRole :: evidence_role
  ev_content :: str
  ev_confidence :: rat
  ev_createdAt :: str

definition EvidenceRecordSchema :: "evidence \<Rightarrow> bool" where
  "EvidenceRecordSchema e \<longleftrightarrow> ev_evidenceId e \<noteq> [] \<and> ev_taskId e \<noteq> [] \<and> ev_content e \<noteq> [] \<and> unit_range (ev_confidence e) \<and> ev_createdAt e \<noteq> []"

datatype conflict_level = ConflictNone | ConflictLow | ConflictMedium | ConflictHigh

record conflict_score =
  cf_score :: rat
  cf_level :: conflict_level
  cf_reasons :: "str list"

definition count_reason :: "string \<Rightarrow> nat \<Rightarrow> str list" where
  "count_reason r n = (if 0 < n then [js r @ dec_nat n] else [])"

definition scoreConflict :: "observation list \<Rightarrow> conflict_score" where
  "scoreConflict observations =
     (if observations = [] then \<lparr>cf_score = 0, cf_level = ConflictNone, cf_reasons = []\<rparr>
      else let failed = length (filter (\<lambda>x. ob_status x = ObsFailed) observations);
               blocked = length (filter (\<lambda>x. ob_status x = ObsBlocked) observations);
               conflicted = length (filter (\<lambda>x. sg_contextConflict (ob_signals x) = Some True) observations);
               drifted = length (filter (\<lambda>x. sg_outputDrift (ob_signals x) = Some True) observations);
               quarter = (\<lambda>n. jmul (of_nat n) (num 25 100));
               score = min 1 (jadd (jadd (jadd (quarter failed) (quarter blocked)) (quarter conflicted)) (quarter drifted))
           in \<lparr>cf_score = score,
               cf_level = (if num 75 100 < score then ConflictHigh else if num 5 10 < score then ConflictMedium
                 else if num 25 100 < score then ConflictLow else ConflictNone),
               cf_reasons = count_reason ''failed:'' failed @ count_reason ''blocked:'' blocked @
                 count_reason ''context_conflict:'' conflicted @ count_reason ''output_drift:'' drifted\<rparr>)"

datatype arbitration_action = AcceptExecutor | AcceptVerifier | AcceptConjugate | ManualReviewAction

record arbitration =
  ab_arbitrationId :: str
  ab_taskId :: str
  ab_winnerEvidenceId :: "str option"
  ab_action :: arbitration_action
  ab_confidence :: rat
  ab_reasons :: "str list"
  ab_createdAt :: str

text \<open>\<open>x.toFixed(2)\<close> for a number between 0 and 1.\<close>

definition toFixed2 :: "rat \<Rightarrow> str" where
  "toFixed2 x = (let n = nat \<lfloor>x * 100 + 1 / 2\<rfloor>
     in dec_nat (n div 100) @ js ''.'' @ padStart 2 48 (dec_nat (n mod 100)))"

definition max_confidence :: "evidence_role \<Rightarrow> evidence list \<Rightarrow> rat" where
  "max_confidence role es = foldl max 0 (map ev_confidence (filter (\<lambda>e. ev_agentRole e = role) es))"

definition winner_of :: "evidence_role \<Rightarrow> rat \<Rightarrow> evidence list \<Rightarrow> str option" where
  "winner_of role c es = map_option ev_evidenceId
     (find (\<lambda>e. ev_confidence e = c) (filter (\<lambda>e. ev_agentRole e = role) es))"

text \<open>The sort is stable and by descending confidence.\<close>

definition arbitrateConflict :: "str \<Rightarrow> evidence list \<Rightarrow> gov_state \<Rightarrow> str \<Rightarrow> arbitration" where
  "arbitrateConflict taskId es state createdAt =
     (let sortedEvidence = sort_key (\<lambda>e. - ev_confidence e) es;
          conjugate = max_confidence RoleConjugate es;
          verifier = max_confidence RoleVerifier es;
          executor = max_confidence RoleExecutor es;
          isHighRisk = high_or_critical (gr_finalRiskLevel (gs_risk state));
          (action, winner, confidence) =
            (if isHighRisk \<and> (num 7 10 < conjugate \<or> num 7 10 < verifier)
             then (if verifier \<le> conjugate then (AcceptConjugate, winner_of RoleConjugate conjugate es, conjugate)
                   else (AcceptVerifier, winner_of RoleVerifier verifier es, verifier))
             else if num 8 10 < conjugate \<and> executor < conjugate
             then (AcceptConjugate, winner_of RoleConjugate conjugate es, conjugate)
             else (case sortedEvidence of
                 e # _ \<Rightarrow> ((case ev_agentRole e of RoleConjugate \<Rightarrow> AcceptConjugate | RoleVerifier \<Rightarrow> AcceptVerifier
                     | _ \<Rightarrow> AcceptExecutor), Some (ev_evidenceId e), ev_confidence e)
               | [] \<Rightarrow> (AcceptExecutor, None, executor)));
          reasons = (if isHighRisk then [js ''high_risk_state''] else []) @
            (if num 7 10 < conjugate then [js ''conjugate_confidence:'' @ toFixed2 conjugate] else []) @
            (if num 7 10 < verifier then [js ''verifier_confidence:'' @ toFixed2 verifier] else [])
      in \<lparr>ab_arbitrationId = taskId @ js '':arbitration:'' @ createdAt, ab_taskId = taskId, ab_winnerEvidenceId = winner,
          ab_action = action, ab_confidence = confidence, ab_reasons = reasons, ab_createdAt = createdAt\<rparr>)"

definition shouldTriggerConjugateAgent :: "gov_state \<Rightarrow> observation list \<Rightarrow> bool" where
  "shouldTriggerConjugateAgent state observations \<longleftrightarrow>
     (if num 6 10 \<le> gr_entropy (gs_risk state) then True
      else if num 7 10 \<le> gr_failureCost (gs_risk state) then True
      else if list_ex (\<lambda>x. sg_contextConflict (ob_signals x) = Some True) observations then True
      else 2 \<le> length (filter (\<lambda>x. ob_status x = ObsFailed) observations))"

lemma thresholds: "0 < num 7 10" "0 < num 8 10"
  by code_simp+

lemma foldl_max_mem: "foldl max a xs \<in> insert a (set (xs :: rat list))"
  by (induction xs arbitrary: a) (auto simp: max_def split: if_splits)

lemma winner_found:
  assumes "0 < max_confidence role es"
  shows "\<exists>e \<in> set es. ev_agentRole e = role \<and> ev_confidence e = max_confidence role es \<and>
    winner_of role (max_confidence role es) es = Some (ev_evidenceId e)"
proof -
  let ?m = "max_confidence role es" and ?es = "filter (\<lambda>e. ev_agentRole e = role) es"
  have "?m \<in> ev_confidence ` set ?es"
    using foldl_max_mem [of 0 "map ev_confidence ?es"] assms by (auto simp: max_confidence_def)
  then have "find (\<lambda>e. ev_confidence e = ?m) ?es \<noteq> None" by (auto simp: find_None_iff)
  then obtain e where e: "find (\<lambda>e. ev_confidence e = ?m) ?es = Some e" by auto
  then have "e \<in> set ?es" "ev_confidence e = ?m" unfolding find_Some_iff by (metis nth_mem)+
  then show ?thesis using e by (auto simp: winner_of_def)
qed

text \<open>
  The arbitration names one of the records it was given, with that record's confidence. Where a
  verifier or a conjugate wins, the record is theirs, and at a high risk one of them wins as soon as
  one is more confident than 0.7.
\<close>

lemma arbitration_names_evidence:
  assumes "es \<noteq> []"
  shows "\<exists>e \<in> set es. ab_winnerEvidenceId (arbitrateConflict t es s now) = Some (ev_evidenceId e) \<and>
    ab_confidence (arbitrateConflict t es s now) = ev_confidence e \<and>
    (ab_action (arbitrateConflict t es s now) = AcceptConjugate \<longleftrightarrow> ev_agentRole e = RoleConjugate) \<and>
    (ab_action (arbitrateConflict t es s now) = AcceptVerifier \<longleftrightarrow> ev_agentRole e = RoleVerifier) \<and>
    (high_or_critical (gr_finalRiskLevel (gs_risk s)) \<and>
       (num 7 10 < max_confidence RoleConjugate es \<or> num 7 10 < max_confidence RoleVerifier es) \<longrightarrow>
       ev_agentRole e = RoleConjugate \<or> ev_agentRole e = RoleVerifier)"
proof -
  let ?c = "max_confidence RoleConjugate es" and ?v = "max_confidence RoleVerifier es" and ?x = "max_confidence RoleExecutor es"
  let ?risk = "high_or_critical (gr_finalRiskLevel (gs_risk s))"
  consider (conj) "?risk \<and> (num 7 10 < ?c \<or> num 7 10 < ?v)" "?v \<le> ?c" | (ver) "?risk \<and> (num 7 10 < ?c \<or> num 7 10 < ?v)" "?c < ?v"
    | (low) "\<not> (?risk \<and> (num 7 10 < ?c \<or> num 7 10 < ?v))" "num 8 10 < ?c \<and> ?x < ?c"
    | (top) "\<not> (?risk \<and> (num 7 10 < ?c \<or> num 7 10 < ?v))" "\<not> (num 8 10 < ?c \<and> ?x < ?c)" by linarith
  then show ?thesis
  proof cases
    case conj
    then have "0 < ?c" using thresholds by linarith
    from winner_found [OF this] obtain e where "e \<in> set es" "ev_agentRole e = RoleConjugate" "ev_confidence e = ?c"
      "winner_of RoleConjugate ?c es = Some (ev_evidenceId e)" by blast
    then show ?thesis using conj by (intro bexI [of _ e]) (auto simp: arbitrateConflict_def Let_def)
  next
    case ver
    then have "0 < ?v" using thresholds by linarith
    from winner_found [OF this] obtain e where "e \<in> set es" "ev_agentRole e = RoleVerifier" "ev_confidence e = ?v"
      "winner_of RoleVerifier ?v es = Some (ev_evidenceId e)" by blast
    then show ?thesis using ver by (intro bexI [of _ e]) (auto simp: arbitrateConflict_def Let_def)
  next
    case low
    then have "0 < ?c" using thresholds by linarith
    from winner_found [OF this] obtain e where "e \<in> set es" "ev_agentRole e = RoleConjugate" "ev_confidence e = ?c"
      "winner_of RoleConjugate ?c es = Some (ev_evidenceId e)" by blast
    then show ?thesis using low by (intro bexI [of _ e]) (auto simp: arbitrateConflict_def Let_def)
  next
    case top
    obtain e rest where e: "sort_key (\<lambda>e. - ev_confidence e) es = e # rest"
      using assms by (metis list.exhaust length_0_conv length_sort)
    then have "e \<in> set es" by (metis list.set_intros(1) set_sort)
    then show ?thesis using top e
      by (intro bexI [of _ e]) (auto simp: arbitrateConflict_def Let_def split: evidence_role.splits)
  qed
qed

lemma planner_wins_for_executor:
  "ab_action (arbitrateConflict t [e] s now) = AcceptExecutor" if "ev_agentRole e = RolePlanner"
  using that thresholds by (simp add: arbitrateConflict_def Let_def max_confidence_def)

text \<open>The executor is accepted when nobody has said anything, and manual review is never asked for.\<close>

lemma no_evidence_accepts_executor:
  "ab_action (arbitrateConflict t [] s now) = AcceptExecutor \<and> ab_winnerEvidenceId (arbitrateConflict t [] s now) = None"
  using thresholds by (simp add: arbitrateConflict_def Let_def max_confidence_def)

end
