(* ===== verification/TaskLogs.thy ===== *)
theory TaskLogs
  imports GovState
begin

text \<open>
  What is written down per task: the checkpoint ledger
  (\<open>packages/governance-internal-checkpoint-ledger-v2/src/index.ts\<close>), the observation stores
  (\<open>governance-internal-execution-observation/src/index.ts\<close>) and the checkpoint index
  (\<open>governance-internal-checkpoint-index/src/index.ts\<close>). A JSONL file is the list of its lines: a
  line is the value its text parses to, and a line whose text is no valid record is \<open>None\<close>. The
  order of strings that \<open>localeCompare\<close> gives is an argument.
\<close>

section \<open>Records\<close>

record action_ref =
  ax_actionId :: str
  ax_kind :: str
  ax_description :: str

definition ReversibleActionRefSchema :: "action_ref \<Rightarrow> bool" where
  "ReversibleActionRefSchema a \<longleftrightarrow> ax_actionId a \<noteq> [] \<and> ax_kind a \<noteq> [] \<and> ax_description a \<noteq> []"

text \<open>An irreversible action also carries \<open>requiresHumanReview: true\<close>.\<close>

record ledger_entry =
  le_checkpointId :: str
  le_taskId :: str
  le_parentCheckpointId :: "str option"
  le_branchId :: str
  le_stage :: str
  le_governanceStateRef :: str
  le_taskGraphDeltaRef :: "str option"
  le_memorySnapshotRef :: "str option"
  le_evidenceRefs :: "str list"
  le_reversibleActions :: "action_ref list"
  le_irreversibleActions :: "action_ref list"
  le_createdAt :: str

definition CheckpointLedgerEntrySchema :: "ledger_entry \<Rightarrow> bool" where
  "CheckpointLedgerEntrySchema e \<longleftrightarrow> le_checkpointId e \<noteq> [] \<and> le_taskId e \<noteq> [] \<and> opt_all (\<lambda>s. s \<noteq> []) (le_parentCheckpointId e) \<and>
     le_branchId e \<noteq> [] \<and> le_stage e \<noteq> [] \<and> le_governanceStateRef e \<noteq> [] \<and>
     opt_all (\<lambda>s. s \<noteq> []) (le_taskGraphDeltaRef e) \<and> opt_all (\<lambda>s. s \<noteq> []) (le_memorySnapshotRef e) \<and>
     list_all ReversibleActionRefSchema (le_reversibleActions e) \<and>
     list_all ReversibleActionRefSchema (le_irreversibleActions e) \<and> le_createdAt e \<noteq> []"

definition parseCheckpointLedgerEntry :: "ledger_entry \<Rightarrow> err + ledger_entry" where
  "parseCheckpointLedgerEntry e = zod_parse CheckpointLedgerEntrySchema e"

definition hasIrreversibleActions :: "ledger_entry \<Rightarrow> bool" where
  "hasIrreversibleActions e \<longleftrightarrow> le_irreversibleActions e \<noteq> []"

section \<open>The stores in memory\<close>

definition ledger_record :: "ledger_entry \<Rightarrow> (ledger_entry list, err, unit) sx" where
  "ledger_record e = sx_bind (sx_lift (parseCheckpointLedgerEntry e)) (\<lambda>parsed. sx_modify (\<lambda>xs. xs @ [parsed]))"

definition last_of :: "'a list \<Rightarrow> 'a option" where
  "last_of xs = (if xs = [] then None else Some (last xs))"

definition ledger_findLatestForTask :: "str \<Rightarrow> ledger_entry list \<Rightarrow> ledger_entry option" where
  "ledger_findLatestForTask taskId entries = last_of (filter (\<lambda>e. le_taskId e = taskId) entries)"

section \<open>The stores on disk\<close>

type_synonym 'a jsonl_files = "(str \<times> 'a option list) list"

definition task_file :: "str \<Rightarrow> str" where
  "task_file taskId = sanitizeIdPart taskId @ js ''.jsonl''"

definition lines_of :: "str \<Rightarrow> 'a jsonl_files \<Rightarrow> 'a option list" where
  "lines_of file disk = (case map_of disk file of None \<Rightarrow> [] | Some ls \<Rightarrow> ls)"

definition add_line :: "str \<Rightarrow> 'a \<Rightarrow> 'a jsonl_files \<Rightarrow> 'a jsonl_files" where
  "add_line file x disk = AList.update file (lines_of file disk @ [Some x]) disk"

definition file_ledger_record :: "ledger_entry \<Rightarrow> (ledger_entry jsonl_files, err, unit) sx" where
  "file_ledger_record e = sx_bind (sx_lift (parseCheckpointLedgerEntry e)) (\<lambda>parsed.
     sx_modify (add_line (task_file (le_taskId e)) parsed))"

text \<open>The last line, whatever task it is of.\<close>

definition file_ledger_findLatestForTask :: "str \<Rightarrow> ledger_entry jsonl_files \<Rightarrow> ledger_entry option" where
  "file_ledger_findLatestForTask taskId disk = (case last_of (lines_of (task_file taskId) disk) of
     Some (Some e) \<Rightarrow> (if CheckpointLedgerEntrySchema e then Some e else None) | _ \<Rightarrow> None)"

definition file_ledger_loadAll :: "ledger_entry jsonl_files \<Rightarrow> ledger_entry list" where
  "file_ledger_loadAll disk = filter CheckpointLedgerEntrySchema (List.map_filter id (concat (map snd disk)))"

definition file_obs_emit :: "observation \<Rightarrow> (observation jsonl_files, err, unit) sx" where
  "file_obs_emit x = sx_bind (sx_lift (parseExecutionObservation x)) (\<lambda>parsed.
     sx_modify (add_line (task_file (ob_taskId x)) parsed))"

definition file_obs_findByTaskId :: "str \<Rightarrow> observation jsonl_files \<Rightarrow> observation list" where
  "file_obs_findByTaskId taskId disk =
     filter ExecutionObservationSchema (List.map_filter id (lines_of (task_file taskId) disk))"

section \<open>A log per task\<close>

locale task_log =
  fixes push :: "'e \<Rightarrow> ('s, err, unit) sx"
    and read :: "str \<Rightarrow> 's \<Rightarrow> 'e list"
    and new :: 's
    and task_of :: "'e \<Rightarrow> str"
    and valid :: "'e \<Rightarrow> bool"
    and known :: "str \<Rightarrow> bool"
  assumes read_new: "read t new = []"
    and push_refuses: "\<not> valid e \<Longrightarrow> push e s = (Inl ZodError, s)"
    and push_reads: "valid e \<Longrightarrow> known (task_of e) \<Longrightarrow> known t \<Longrightarrow>
      \<exists>s'. push e s = (Inr (), s') \<and> read t s' = read t s @ (if task_of e = t then [e] else [])"
begin

definition pushed :: "'e list \<Rightarrow> 's" where
  "pushed es = foldl (\<lambda>s e. snd (push e s)) new es"

lemma read_pushed:
  assumes "list_all (\<lambda>e. known (task_of e)) es" and "known t"
  shows "read t (pushed es) = filter (\<lambda>e. valid e \<and> task_of e = t) es"
  using assms(1)
proof (induction es rule: rev_induct)
  case Nil
  then show ?case by (simp add: pushed_def read_new)
next
  case (snoc e es)
  then have IH: "read t (pushed es) = filter (\<lambda>e. valid e \<and> task_of e = t) es" by simp
  have step: "pushed (es @ [e]) = snd (push e (pushed es))" by (simp add: pushed_def)
  show ?case
  proof (cases "valid e")
    case True
    with push_reads [OF True _ assms(2), of "pushed es"] snoc.prems IH show ?thesis by (auto simp: step)
  next
    case False
    then show ?thesis by (simp add: step push_refuses IH)
  qed
qed

end

definition plain_id :: "str \<Rightarrow> bool" where
  "plain_id t \<longleftrightarrow> list_all is_id_char t"

lemma plain_task_file: "plain_id t \<Longrightarrow> task_file t = t @ js ''.jsonl''"
  by (induction t) (auto simp: plain_id_def task_file_def sanitizeIdPart_def)

lemma lines_add_line: "lines_of f (add_line g x disk) = lines_of f disk @ (if f = g then [Some x] else [])"
  by (simp add: lines_of_def add_line_def map_of_update)

lemma parsed_lines: "List.map_filter id (xs @ [Some x]) = List.map_filter id xs @ [x]"
  by (simp add: List.map_filter_def)

lemma no_lines: "lines_of f [] = []" "List.map_filter id [] = []"
  by (simp_all add: lines_of_def List.map_filter_def)

interpretation recorded_ledger: task_log ledger_record "\<lambda>t. filter (\<lambda>e. le_taskId e = t)" "[]" le_taskId
    CheckpointLedgerEntrySchema "\<lambda>_. True"
  by unfold_locales (auto simp: ledger_record_def parseCheckpointLedgerEntry_def zod_parse_def sx_defs)

interpretation filed_ledger: task_log file_ledger_record
    "\<lambda>t disk. filter CheckpointLedgerEntrySchema (List.map_filter id (lines_of (task_file t) disk))" "[]" le_taskId
    CheckpointLedgerEntrySchema plain_id
  by unfold_locales (auto simp: file_ledger_record_def parseCheckpointLedgerEntry_def zod_parse_def sx_defs
      lines_add_line parsed_lines no_lines plain_task_file)

interpretation recorded_observations: task_log obs_emit obs_findByTaskId "[]" ob_taskId ExecutionObservationSchema "\<lambda>_. True"
  by unfold_locales (auto simp: obs_emit_def obs_findByTaskId_def parseExecutionObservation_def zod_parse_def sx_defs)

interpretation filed_observations: task_log file_obs_emit file_obs_findByTaskId "[]" ob_taskId ExecutionObservationSchema plain_id
  by unfold_locales (auto simp: file_obs_emit_def file_obs_findByTaskId_def parseExecutionObservation_def zod_parse_def sx_defs
      lines_add_line parsed_lines no_lines plain_task_file)

definition recorded_by :: "('e \<Rightarrow> ('s, err, unit) sx) \<Rightarrow> 's \<Rightarrow> 'e list \<Rightarrow> 's" where
  "recorded_by push s es = foldl (\<lambda>s e. snd (push e s)) s es"

text \<open>
  The observation stores agree: after any emissions for plain task ids, valid or not, both find the
  valid observations of a task in the order they were emitted.
\<close>

theorem observation_stores_agree:
  assumes "list_all (\<lambda>x. plain_id (ob_taskId x)) xs" and "plain_id t"
  shows "file_obs_findByTaskId t (recorded_by file_obs_emit [] xs) = obs_findByTaskId t (recorded_by obs_emit [] xs) \<and>
    obs_findByTaskId t (recorded_by obs_emit [] xs) = filter (\<lambda>x. ExecutionObservationSchema x \<and> ob_taskId x = t) xs"
  using filed_observations.read_pushed [OF assms] recorded_observations.read_pushed [of xs t]
  by (simp add: recorded_by_def recorded_observations.pushed_def filed_observations.pushed_def list_all_iff)

text \<open>The last line of a file that was written by the store.\<close>

lemma ledger_lines:
  "lines_of f (recorded_by file_ledger_record [] es) =
   map Some (filter (\<lambda>e. CheckpointLedgerEntrySchema e \<and> task_file (le_taskId e) = f) es)"
  by (induction es rule: rev_induct)
     (auto simp: recorded_by_def no_lines file_ledger_record_def parseCheckpointLedgerEntry_def zod_parse_def
       sx_defs lines_add_line)

lemma plain_same_file: "plain_id t \<Longrightarrow> plain_id u \<Longrightarrow> task_file t = task_file u \<longleftrightarrow> t = u"
  by (simp add: plain_task_file)

text \<open>
  The checkpoint ledgers agree: after any records for plain task ids both answer with the last valid
  entry that was recorded_by for the task.
\<close>

theorem checkpoint_ledgers_agree:
  assumes plain: "list_all (\<lambda>e. plain_id (le_taskId e)) es" and t: "plain_id t"
  shows "file_ledger_findLatestForTask t (recorded_by file_ledger_record [] es) =
      ledger_findLatestForTask t (recorded_by ledger_record [] es) \<and>
    ledger_findLatestForTask t (recorded_by ledger_record [] es) =
      last_of (filter (\<lambda>e. CheckpointLedgerEntrySchema e \<and> le_taskId e = t) es)"
proof -
  let ?es = "filter (\<lambda>e. CheckpointLedgerEntrySchema e \<and> le_taskId e = t) es"
  have "filter (\<lambda>e. CheckpointLedgerEntrySchema e \<and> task_file (le_taskId e) = task_file t) es = ?es"
    using plain plain_same_file [OF _ t] by (induction es) auto
  then have lines: "lines_of (task_file t) (recorded_by file_ledger_record [] es) = map Some ?es" by (simp add: ledger_lines)
  have "?es \<noteq> [] \<Longrightarrow> last ?es \<in> set ?es" by (rule last_in_set)
  then have "file_ledger_findLatestForTask t (recorded_by file_ledger_record [] es) = last_of ?es"
    by (auto simp: file_ledger_findLatestForTask_def lines last_of_def last_map)
  moreover have "ledger_findLatestForTask t (recorded_by ledger_record [] es) = last_of ?es"
    using recorded_ledger.read_pushed [of es t] by (simp add: ledger_findLatestForTask_def recorded_by_def recorded_ledger.pushed_def list_all_iff)
  ultimately show ?thesis by simp
qed

definition demo_entry :: "string \<Rightarrow> ledger_entry" where
  "demo_entry t = \<lparr>le_checkpointId = js ''c'', le_taskId = js t, le_parentCheckpointId = None, le_branchId = js ''main'',
     le_stage = js ''s'', le_governanceStateRef = js ''g'', le_taskGraphDeltaRef = None, le_memorySnapshotRef = None,
     le_evidenceRefs = [], le_reversibleActions = [], le_irreversibleActions = [], le_createdAt = js ''d''\<rparr>"

theorem checkpoint_ledgers_agree_witness:
  "file_ledger_findLatestForTask (js ''t1'') (recorded_by file_ledger_record [] [demo_entry ''t1'', demo_entry ''t2'']) =
   Some (demo_entry ''t1'')"
proof -
  have "list_all (\<lambda>e. plain_id (le_taskId e)) [demo_entry ''t1'', demo_entry ''t2'']" "plain_id (js ''t1'')" by code_simp+
  from checkpoint_ledgers_agree [OF this] show ?thesis by (simp add: last_of_def demo_entry_def CheckpointLedgerEntrySchema_def)
qed

text \<open>For other ids the last checkpoint of a task may be that of another task.\<close>

lemma ledger_answers_other_task:
  "file_ledger_findLatestForTask (js ''a_b'') (recorded_by file_ledger_record [] [demo_entry ''a/b'']) = Some (demo_entry ''a/b'')"
  by (simp add: file_ledger_findLatestForTask_def ledger_lines last_of_def) (code_simp)

section \<open>The checkpoint index\<close>

record checkpoint_ref =
  cr_checkpointId :: str
  cr_taskId :: str
  cr_stage :: str
  cr_createdAt :: str
  cr_summary :: str

text \<open>
  The file holds the whole list; a missing file is the empty list. \<open>record\<close> reads it and then writes
  it back: between the two another \<open>record\<close> may run.
\<close>

definition index_load :: "checkpoint_ref list option \<Rightarrow> checkpoint_ref list" where
  "index_load file = (case file of None \<Rightarrow> [] | Some xs \<Rightarrow> xs)"

definition index_persist :: "checkpoint_ref list \<Rightarrow> checkpoint_ref list option \<Rightarrow> checkpoint_ref list option" where
  "index_persist xs file = Some xs"

definition index_record :: "checkpoint_ref \<Rightarrow> checkpoint_ref list option \<Rightarrow> checkpoint_ref list option" where
  "index_record c file = index_persist (index_load file @ [c]) file"

fun insert_by :: "('a \<Rightarrow> 'a \<Rightarrow> int) \<Rightarrow> 'a \<Rightarrow> 'a list \<Rightarrow> 'a list" where
  "insert_by c x [] = [x]"
| "insert_by c x (y # ys) = (if c x y \<le> 0 then x # y # ys else y # insert_by c x ys)"

definition sort_by :: "('a \<Rightarrow> 'a \<Rightarrow> int) \<Rightarrow> 'a list \<Rightarrow> 'a list" where
  "sort_by c xs = foldr (insert_by c) xs []"

definition index_findLatestForTask :: "(str \<Rightarrow> str \<Rightarrow> int) \<Rightarrow> str \<Rightarrow> checkpoint_ref list option \<Rightarrow> checkpoint_ref option" where
  "index_findLatestForTask localeCompare taskId file =
     (case sort_by (\<lambda>l r. localeCompare (cr_createdAt r) (cr_createdAt l)) (filter (\<lambda>c. cr_taskId c = taskId) (index_load file)) of
        [] \<Rightarrow> None | c # _ \<Rightarrow> Some c)"

lemma set_insert_by: "set (insert_by c x xs) = insert x (set xs)"
  by (induction xs) auto

lemma set_sort_by: "set (sort_by c xs) = set xs"
  by (induction xs) (simp_all add: sort_by_def set_insert_by)

lemma sort_by_head:
  assumes total: "\<And>x y. c x y \<le> 0 \<or> c y x \<le> 0" and trans: "\<And>x y z. c x y \<le> 0 \<Longrightarrow> c y z \<le> 0 \<Longrightarrow> c x z \<le> 0"
  shows "sort_by c xs = y # ys \<Longrightarrow> x \<in> set xs \<Longrightarrow> c y x \<le> 0"
proof (induction xs arbitrary: y ys)
  case (Cons z xs)
  have refl: "c u u \<le> 0" for u using total [of u u] by simp
  show ?case
  proof (cases "sort_by c xs")
    case Nil
    then have "xs = []" using set_sort_by [of c xs] by simp
    then show ?thesis using Cons.prems refl by (simp add: sort_by_def)
  next
    case (Cons w ws)
    then have s: "sort_by c (z # xs) = (if c z w \<le> 0 then z # w # ws else w # insert_by c z ws)"
      by (simp add: sort_by_def)
    show ?thesis
    proof (cases "x = z")
      case True
      then show ?thesis using Cons.prems s refl total by (auto split: if_splits)
    next
      case False
      then have "c w x \<le> 0" using Cons.IH [OF \<open>sort_by c xs = w # ws\<close>] Cons.prems(2) by simp
      then show ?thesis using Cons.prems(1) s trans by (auto split: if_splits)
    qed
  qed
qed simp

text \<open>With an order that is total and transitive the answer is a latest checkpoint of the task.\<close>

lemma index_latest:
  assumes "\<And>x y. cmp x y \<le> 0 \<or> cmp y x \<le> (0 :: int)" and "\<And>x y z. cmp x y \<le> 0 \<Longrightarrow> cmp y z \<le> 0 \<Longrightarrow> cmp x z \<le> 0"
    and "index_findLatestForTask cmp t file = Some c"
  shows "c \<in> set (index_load file) \<and> cr_taskId c = t \<and>
    (\<forall>d \<in> set (index_load file). cr_taskId d = t \<longrightarrow> cmp (cr_createdAt d) (cr_createdAt c) \<le> 0)"
proof -
  let ?c = "\<lambda>l r. cmp (cr_createdAt r) (cr_createdAt l)" and ?xs = "filter (\<lambda>c. cr_taskId c = t) (index_load file)"
  from assms(3) obtain ys where s: "sort_by ?c ?xs = c # ys"
    by (auto simp: index_findLatestForTask_def split: list.splits)
  then have "c \<in> set ?xs" by (metis list.set_intros(1) set_sort_by)
  moreover have "?c c d \<le> 0" if "d \<in> set ?xs" for d
    using sort_by_head [of ?c, OF _ _ s that] assms(1,2) by blast
  ultimately show ?thesis by auto
qed

text \<open>Two interleaved records: both read, then both write. One of them is lost.\<close>

lemma index_record_lost:
  "let xs = index_load file; ys = index_load file in
   index_persist (ys @ [d]) (index_persist (xs @ [c]) file) = index_record d file"
  by (simp add: index_record_def index_persist_def Let_def)

end
