(* ===== verification/ArtifactStore.thy ===== *)
theory ArtifactStore
  imports TaskLogs Redaction Utf8
begin

text \<open>
  The artifact store, \<open>packages/artifact-store/src/index.ts\<close>: an artifact is a payload with a record of its
  hash, size and redacted metadata, in memory or as a directory of two files. Both stores implement one
  abstract store. SHA-256 of bytes, \<open>toLowerCase\<close>, the redaction of free text and the order of strings
  are arguments; a clock reading is an argument of each put. A metadata file is the record its text
  parses to. Buffers and \<open>Uint8Array\<close>s are lists of bytes.
\<close>

section \<open>Inputs and records\<close>

record artifact_host =
  ah_lower :: "str \<Rightarrow> str"
  ah_redactText :: text_redactor
  ah_sha256 :: "byte list \<Rightarrow> str"

definition artifactStoreTypes :: "str list" where
  "artifactStoreTypes = map js [''text'', ''json'', ''patch'', ''file'', ''report'']"

datatype artifact_payload = BytesPayload "byte list" | TextPayload str | JsonPayload json

record put_input =
  pu_artifactId :: str
  pu_taskId :: str
  pu_runId :: "str option"
  pu_type :: str
  pu_payload :: artifact_payload
  pu_contentType :: "str option"
  pu_fileName :: "str option"
  pu_metadata :: "(str \<times> json) list option"
  pu_provenance :: "(str \<times> json) list option"
  pu_createdAt :: "str option"
  pu_alreadyRedacted :: "bool option"
  pu_allowOverwrite :: bool

record stored_artifact =
  sa_artifactId :: str
  sa_taskId :: str
  sa_runId :: "str option"
  sa_type :: str
  sa_uri :: str
  sa_sha256 :: str
  sa_sizeBytes :: int
  sa_createdAt :: str
  sa_contentType :: "str option"
  sa_fileName :: "str option"
  sa_metadata :: "(str \<times> json) list"
  sa_provenance :: "(str \<times> json) list"
  sa_alreadyRedacted :: bool

record artifact_store_filter =
  fi_taskId :: "str option"
  fi_runId :: "str option"
  fi_type :: "str option"

record artifact_verification =
  va_ok :: bool
  va_artifactId :: str
  va_expectedSha256 :: "str option"
  va_actualSha256 :: "str option"
  va_reason :: "str option"

section \<open>Normalisation\<close>

definition alnum :: "cu \<Rightarrow> bool" where
  "alnum c \<longleftrightarrow> is_lower c \<or> is_upper c \<or> is_digit c"

definition safe_artifact_id :: "str \<Rightarrow> bool" where
  "safe_artifact_id i \<longleftrightarrow>
     (case i of [] \<Rightarrow> False | c # cs \<Rightarrow> alnum c \<and> list_all (\<lambda>c. alnum c \<or> c = DOT \<or> c = 95 \<or> c = 45) cs) \<and>
     \<not> (str_includes i (js ''..'') \<or> str_includes i [SLASH] \<or> str_includes i [BACKSLASH])"

definition assertSafeArtifactId :: "str \<Rightarrow> err + unit" where
  "assertSafeArtifactId i = (if safe_artifact_id i then Inr () else Inl (Err (js ''unsafe_artifact_id:'' @ i)))"

definition assertArtifactType :: "str \<Rightarrow> err + unit" where
  "assertArtifactType t = (if t \<in> set artifactStoreTypes then Inr () else Inl (Err (js ''unknown_artifact_type:'' @ t)))"

text \<open>\<open>JSON.stringify(value, null, 2)\<close> at an indentation.\<close>

definition json_lines :: "str \<Rightarrow> string \<Rightarrow> str list \<Rightarrow> string \<Rightarrow> str" where
  "json_lines indent left items right =
     (if items = [] then js left @ js right
      else js left @ 10 # indent @ js ''  '' @ join_with (44 # 10 # indent @ js ''  '') items @ 10 # indent @ js right)"

fun jsonPretty :: "str \<Rightarrow> json \<Rightarrow> str" where
  "jsonPretty indent (JArr xs) = json_lines indent ''['' (map (jsonPretty (indent @ js ''  '')) xs) '']''"
| "jsonPretty indent (JObj kvs) =
     json_lines indent ''{'' (map (\<lambda>(k, v). json_quote k @ js '': '' @ jsonPretty (indent @ js ''  '') v) kvs) ''}''"
| "jsonPretty indent v = jsonStringify v"

definition normalizePayload :: "artifact_payload \<Rightarrow> str \<Rightarrow> err + byte list" where
  "normalizePayload payload type = (case payload of
     BytesPayload bs \<Rightarrow> Inr bs
   | TextPayload s \<Rightarrow> Inr (utf8_encode s)
   | JsonPayload v \<Rightarrow>
       (if type \<noteq> js ''json'' \<and> type \<noteq> js ''report''
        then Inl (Err (js ''artifact_payload_must_be_bytes_or_string:'' @ type))
        else Inr (utf8_encode (jsonPretty [] v @ [10]))))"

definition hashArtifactPayload :: "artifact_host \<Rightarrow> artifact_payload \<Rightarrow> str \<Rightarrow> err + str" where
  "hashArtifactPayload H payload type = bind_res (normalizePayload payload type) (\<lambda>bs. Inr (ah_sha256 H bs))"

definition redactArtifactMetadata :: "artifact_host \<Rightarrow> (str \<times> json) list \<Rightarrow> (str \<times> json) list" where
  "redactArtifactMetadata H m =
     (case redactSecretLikeFields (ah_lower H) (ah_redactText H) [] True True (JObj m) of JObj kvs \<Rightarrow> kvs | _ \<Rightarrow> [])"

text \<open>A spread \<open>...(s ? { f: s } : {})\<close> drops the empty string too.\<close>

definition nonempty :: "str option \<Rightarrow> str option" where
  "nonempty s = (case s of Some t \<Rightarrow> if t = [] then None else Some t | None \<Rightarrow> None)"

definition normalizeArtifactInput :: "artifact_host \<Rightarrow> str \<Rightarrow> put_input \<Rightarrow> err + stored_artifact \<times> byte list" where
  "normalizeArtifactInput H now i =
     bind_res (assertSafeArtifactId (pu_artifactId i)) (\<lambda>_.
     bind_res (assertArtifactType (pu_type i)) (\<lambda>_.
     if pu_taskId i = [] then Inl (Err (js ''artifact_task_id_required'')) else
     bind_res (normalizePayload (pu_payload i) (pu_type i)) (\<lambda>payload.
     Inr (\<lparr>sa_artifactId = pu_artifactId i, sa_taskId = pu_taskId i, sa_runId = nonempty (pu_runId i), sa_type = pu_type i,
       sa_uri = js ''artifact://'' @ pu_artifactId i @ js ''/payload'', sa_sha256 = ah_sha256 H payload,
       sa_sizeBytes = int (length payload), sa_createdAt = opt_or (pu_createdAt i) now,
       sa_contentType = nonempty (pu_contentType i), sa_fileName = nonempty (pu_fileName i),
       sa_metadata = redactArtifactMetadata H (opt_or (pu_metadata i) []),
       sa_provenance = redactArtifactMetadata H (opt_or (pu_provenance i) []),
       sa_alreadyRedacted = opt_or (pu_alreadyRedacted i) False\<rparr>, payload))))"

definition artifact_matchesOptional :: "'a option \<Rightarrow> 'a option \<Rightarrow> bool" where
  "artifact_matchesOptional expected actual \<longleftrightarrow> expected = None \<or> expected = actual"

definition matchesArtifactFilter :: "stored_artifact \<Rightarrow> artifact_store_filter \<Rightarrow> bool" where
  "matchesArtifactFilter a f \<longleftrightarrow> artifact_matchesOptional (fi_taskId f) (Some (sa_taskId a)) \<and>
     artifact_matchesOptional (fi_runId f) (sa_runId a) \<and> artifact_matchesOptional (fi_type f) (Some (sa_type a))"

definition not_found_result :: "str \<Rightarrow> artifact_verification" where
  "not_found_result i = \<lparr>va_ok = False, va_artifactId = i, va_expectedSha256 = None, va_actualSha256 = None,
     va_reason = Some (js ''artifact_not_found'')\<rparr>"

definition createVerificationResult :: "str \<Rightarrow> str \<Rightarrow> str \<Rightarrow> artifact_verification" where
  "createVerificationResult i expected actual = \<lparr>va_ok = (actual = expected), va_artifactId = i,
     va_expectedSha256 = Some expected, va_actualSha256 = Some actual,
     va_reason = (if actual = expected then None else Some (js ''sha256_mismatch''))\<rparr>"

text \<open>What an existing record does to a put: refuse it, answer it, or let it pass.\<close>

definition put_outcome :: "stored_artifact option \<Rightarrow> stored_artifact \<Rightarrow> put_input \<Rightarrow> err + stored_artifact option" where
  "put_outcome existing artifact i = (case existing of
     Some old \<Rightarrow>
       if sa_sha256 old \<noteq> sa_sha256 artifact \<and> \<not> pu_allowOverwrite i
       then Inl (Err (js ''artifact_hash_mismatch:'' @ pu_artifactId i))
       else if sa_sha256 old = sa_sha256 artifact \<and> \<not> pu_allowOverwrite i then Inr (Some old)
       else Inr None
   | None \<Rightarrow> Inr None)"

section \<open>In memory\<close>

record art_mem =
  am_artifacts :: "(str \<times> stored_artifact) list"
  am_payloads :: "(str \<times> byte list) list"

definition empty_art_mem :: art_mem where
  "empty_art_mem = \<lparr>am_artifacts = [], am_payloads = []\<rparr>"

definition memory_putArtifact :: "artifact_host \<Rightarrow> str \<Rightarrow> put_input \<Rightarrow> (art_mem, err, stored_artifact) sx" where
  "memory_putArtifact H now i =
     sx_bind (sx_lift (normalizeArtifactInput H now i)) (\<lambda>(artifact, payload).
     sx_bind (sx_gets (\<lambda>s. map_of (am_artifacts s) (sa_artifactId artifact))) (\<lambda>existing.
     sx_bind (sx_lift (put_outcome existing artifact i)) (\<lambda>answer. case answer of
       Some old \<Rightarrow> sx_return old
     | None \<Rightarrow> sx_bind (sx_modify (\<lambda>s. \<lparr>am_artifacts = AList.update (sa_artifactId artifact) artifact (am_artifacts s),
           am_payloads = AList.update (sa_artifactId artifact) payload (am_payloads s)\<rparr>)) (\<lambda>_. sx_return artifact))))"

definition memory_getArtifact :: "str \<Rightarrow> art_mem \<Rightarrow> stored_artifact option" where
  "memory_getArtifact i s = map_of (am_artifacts s) i"

definition memory_listArtifacts :: "artifact_store_filter \<Rightarrow> art_mem \<Rightarrow> stored_artifact list" where
  "memory_listArtifacts f s = filter (\<lambda>a. matchesArtifactFilter a f) (map snd (am_artifacts s))"

definition memory_verifyArtifact :: "artifact_host \<Rightarrow> str \<Rightarrow> art_mem \<Rightarrow> artifact_verification" where
  "memory_verifyArtifact H i s = (case (map_of (am_artifacts s) i, map_of (am_payloads s) i) of
     (Some artifact, Some payload) \<Rightarrow> createVerificationResult i (sa_sha256 artifact) (ah_sha256 H payload)
   | _ \<Rightarrow> not_found_result i)"

section \<open>On disk\<close>

definition resolve_absolute :: "str \<Rightarrow> str" where
  "resolve_absolute p = SLASH # join_with [SLASH] (norm_segs False (split_on SLASH p) [])"

text \<open>\<open>resolve(base, p)\<close> for an absolute \<open>base\<close>.\<close>

definition posix_resolve :: "str \<Rightarrow> str \<Rightarrow> str" where
  "posix_resolve base p = resolve_absolute (if posix_isAbsolute p then p else base @ SLASH # p)"

definition with_sep :: "str \<Rightarrow> str" where
  "with_sep base = (if endsWith base [SLASH] then base else base @ [SLASH])"

definition assertInsideBaseDir :: "str \<Rightarrow> str \<Rightarrow> err + unit" where
  "assertInsideBaseDir base candidate =
     (if candidate \<noteq> base \<and> \<not> startsWith candidate (with_sep base)
      then Inl (Err (js ''artifact_path_traversal_rejected'')) else Inr ())"

definition getArtifactDir :: "str \<Rightarrow> str \<Rightarrow> err + str" where
  "getArtifactDir base i = bind_res (assertSafeArtifactId i) (\<lambda>_.
     let dir = posix_resolve base i in bind_res (assertInsideBaseDir base dir) (\<lambda>_. Inr dir))"

text \<open>A directory of the store with its files \<open>metadata.json\<close> and \<open>payload\<close>, by its path.\<close>

record art_dir =
  ad_metadata :: "stored_artifact option"
  ad_payload :: "byte list option"

type_synonym art_disk = "(str \<times> art_dir) list"

definition empty_dir :: art_dir where
  "empty_dir = \<lparr>ad_metadata = None, ad_payload = None\<rparr>"

definition dir_at :: "str \<Rightarrow> art_disk \<Rightarrow> art_dir" where
  "dir_at d disk = opt_or (map_of disk d) empty_dir"

definition mkdir :: "str \<Rightarrow> art_disk \<Rightarrow> art_disk" where
  "mkdir d disk = AList.update d (dir_at d disk) disk"

definition write_payload :: "str \<Rightarrow> byte list \<Rightarrow> art_disk \<Rightarrow> art_disk" where
  "write_payload d bs disk = AList.update d ((dir_at d disk)\<lparr>ad_payload := Some bs\<rparr>) disk"

definition write_metadata :: "str \<Rightarrow> stored_artifact \<Rightarrow> art_disk \<Rightarrow> art_disk" where
  "write_metadata d a disk = AList.update d ((dir_at d disk)\<lparr>ad_metadata := Some a\<rparr>) disk"

definition readArtifactMetadata :: "str \<Rightarrow> art_disk \<Rightarrow> stored_artifact option" where
  "readArtifactMetadata d disk = ad_metadata (dir_at d disk)"

definition disk_putArtifact :: "artifact_host \<Rightarrow> str \<Rightarrow> str \<Rightarrow> put_input \<Rightarrow> (art_disk, err, stored_artifact) sx" where
  "disk_putArtifact H base now i =
     sx_bind (sx_lift (normalizeArtifactInput H now i)) (\<lambda>(artifact, payload).
     sx_bind (sx_lift (getArtifactDir base (sa_artifactId artifact))) (\<lambda>dir.
     sx_bind (sx_gets (readArtifactMetadata dir)) (\<lambda>existing.
     sx_bind (sx_lift (put_outcome existing artifact i)) (\<lambda>answer. case answer of
       Some old \<Rightarrow> sx_return old
     | None \<Rightarrow> sx_bind (sx_modify (mkdir dir)) (\<lambda>_.
         sx_bind (sx_modify (write_payload dir payload)) (\<lambda>_.
         sx_bind (sx_modify (write_metadata dir artifact)) (\<lambda>_. sx_return artifact)))))))"

definition disk_getArtifact :: "str \<Rightarrow> str \<Rightarrow> art_disk \<Rightarrow> err + stored_artifact option" where
  "disk_getArtifact base i disk = bind_res (getArtifactDir base i) (\<lambda>dir. Inr (readArtifactMetadata dir disk))"

text \<open>\<open>readdir(baseDir)\<close>: the directories directly below.\<close>

definition entry_name :: "str \<Rightarrow> str \<Rightarrow> str option" where
  "entry_name base d = (let name = drop (length (with_sep base)) d
     in if startsWith d (with_sep base) \<and> name \<noteq> [] \<and> SLASH \<notin> set name then Some name else None)"

definition disk_listArtifacts ::
    "(str \<Rightarrow> str \<Rightarrow> int) \<Rightarrow> str \<Rightarrow> artifact_store_filter \<Rightarrow> art_disk \<Rightarrow> err + stored_artifact list" where
  "disk_listArtifacts localeCompare base f disk =
     bind_res (map_res (\<lambda>name. disk_getArtifact base name disk) (List.map_filter (\<lambda>(d, _). entry_name base d) disk)) (\<lambda>found.
     Inr (sort_by (\<lambda>a b. localeCompare (sa_createdAt a) (sa_createdAt b))
       (filter (\<lambda>a. matchesArtifactFilter a f) (List.map_filter id found))))"

definition disk_verifyArtifact :: "artifact_host \<Rightarrow> str \<Rightarrow> str \<Rightarrow> art_disk \<Rightarrow> err + artifact_verification" where
  "disk_verifyArtifact H base i disk =
     bind_res (disk_getArtifact base i disk) (\<lambda>artifact. case artifact of
       None \<Rightarrow> Inr (not_found_result i)
     | Some a \<Rightarrow> bind_res (getArtifactDir base i) (\<lambda>dir. case ad_payload (dir_at dir disk) of
         None \<Rightarrow> Inr \<lparr>va_ok = False, va_artifactId = i, va_expectedSha256 = Some (sa_sha256 a), va_actualSha256 = None,
           va_reason = Some (js ''artifact_payload_not_found'')\<rparr>
       | Some payload \<Rightarrow> Inr (createVerificationResult i (sa_sha256 a) (ah_sha256 H payload))))"

section \<open>Directories\<close>

lemma safe_id_plain: "safe_artifact_id i \<Longrightarrow> plain_seg i \<and> SLASH \<notin> set i"
  by (auto simp: safe_artifact_id_def plain_seg_def alnum_def is_lower_def is_upper_def is_digit_def js_dots
      list_all_iff split: list.splits)

lemma absolute_segs: "posix_isAbsolute p \<Longrightarrow> resolve_absolute p = SLASH # join_with [SLASH] (path_segs p)"
  by (simp add: resolve_absolute_def path_segs_def)

lemma segs_of_absolute:
  assumes "canon_segs False ws"
  shows "path_segs (SLASH # join_with [SLASH] ws) = ws"
proof (cases "ws = []")
  case True
  then show ?thesis by (simp add: path_segs_def posix_isAbsolute_def)
next
  case False
  have "split_on SLASH (SLASH # join_with [SLASH] ws) = [] # ws"
    using split_on_append_sep [of SLASH "[]"] canon_segs_join(1) [OF assms False] by simp
  then show ?thesis using norm_segs_fix [of False "[]" ws] assms by (simp add: path_segs_def posix_isAbsolute_def)
qed

text \<open>A base directory as \<open>resolve\<close> returns it, whatever it is given.\<close>

definition resolved_path :: "str \<Rightarrow> bool" where
  "resolved_path base \<longleftrightarrow> posix_isAbsolute base \<and> resolve_absolute base = base"

lemma resolve_resolved: "resolved_path (posix_resolve cwd p)"
proof -
  have "resolved_path (resolve_absolute q)" for q
  proof -
    let ?ws = "norm_segs False (split_on SLASH q) []"
    have c: "canon_segs False ?ws" by (rule norm_segs_canon) (auto dest: split_on_no_sep)
    have q: "resolve_absolute q = SLASH # join_with [SLASH] ?ws" by (simp add: resolve_absolute_def)
    then have "posix_isAbsolute (resolve_absolute q)" by (simp add: posix_isAbsolute_def)
    then show ?thesis using absolute_segs [of "resolve_absolute q"] segs_of_absolute [OF c] q by (simp add: resolved_path_def)
  qed
  then show ?thesis by (simp add: posix_resolve_def)
qed

lemma resolve_below:
  assumes "resolved_path base" and "safe_artifact_id i"
  shows "posix_resolve base i = with_sep base @ i"
proof -
  let ?ws = "path_segs base"
  note i = safe_id_plain [OF assms(2)]
  have base: "base = SLASH # join_with [SLASH] ?ws" using assms(1) absolute_segs [of base] by (simp add: resolved_path_def)
  have c: "canon_segs False ?ws" using path_segs_canon [of base] assms(1) by (simp add: resolved_path_def)
  have rel: "\<not> posix_isAbsolute i" using i by (cases i) (auto simp: posix_isAbsolute_def)
  have abs: "posix_isAbsolute (base @ SLASH # i)" using base by (metis append_Cons list.sel(1) list.distinct(1) posix_isAbsolute_def startsWith_slash)
  have segs: "path_segs (base @ SLASH # i) = ?ws @ [i]"
  proof (cases "?ws = []")
    case True
    then show ?thesis using base i split_on_append_sep [of SLASH "[]" "SLASH # i"] split_on_append_sep [of SLASH "[]" i]
      by (simp add: path_segs_def posix_isAbsolute_def split_on_plain plain_seg_def)
  next
    case False
    have "base @ SLASH # i = SLASH # join_with [SLASH] (?ws @ [i])"
      using base join_with_append [OF False, of "[i]" "[SLASH]"] by simp
    then show ?thesis using segs_of_absolute [OF canon_segs_plain_snoc [OF c, of i]] i by simp
  qed
  have "with_sep base @ i = SLASH # join_with [SLASH] (?ws @ [i])"
  proof (cases "?ws = []")
    case True
    then show ?thesis using base by (simp add: with_sep_def)
  next
    case False
    have "last base \<noteq> SLASH" using base canon_segs_join(2,4) [OF c False] by (metis last_ConsR)
    then show ?thesis using base join_with_append [OF False, of "[i]" "[SLASH]"] by (simp add: with_sep_def)
  qed
  then show ?thesis using rel absolute_segs [OF abs] segs by (simp add: posix_resolve_def)
qed

lemma dir_of_id:
  assumes "resolved_path base"
  shows "getArtifactDir base i = (if safe_artifact_id i then Inr (with_sep base @ i) else Inl (Err (js ''unsafe_artifact_id:'' @ i)))"
  using resolve_below [OF assms, of i]
  by (simp add: getArtifactDir_def assertSafeArtifactId_def assertInsideBaseDir_def startsWith_def)

section \<open>The abstract store\<close>

type_synonym shelf = "str \<Rightarrow> (stored_artifact \<times> byte list) option"

definition shelf_put :: "artifact_host \<Rightarrow> str \<Rightarrow> put_input \<Rightarrow> (shelf, err, stored_artifact) sx" where
  "shelf_put H now i m = (case normalizeArtifactInput H now i of
     Inl e \<Rightarrow> (Inl e, m)
   | Inr (a, payload) \<Rightarrow> (case put_outcome (map_option fst (m (pu_artifactId i))) a i of
       Inl e \<Rightarrow> (Inl e, m)
     | Inr (Some old) \<Rightarrow> (Inr old, m)
     | Inr None \<Rightarrow> (Inr a, m(pu_artifactId i \<mapsto> (a, payload)))))"

definition shelf_verify :: "artifact_host \<Rightarrow> str \<Rightarrow> shelf \<Rightarrow> artifact_verification" where
  "shelf_verify H i m = (case m i of None \<Rightarrow> not_found_result i
     | Some (a, payload) \<Rightarrow> createVerificationResult i (sa_sha256 a) (ah_sha256 H payload))"

definition shelf_ok :: "artifact_host \<Rightarrow> shelf \<Rightarrow> bool" where
  "shelf_ok H m \<longleftrightarrow> (\<forall>i a bs. m i = Some (a, bs) \<longrightarrow> safe_artifact_id i \<and> sa_artifactId a = i \<and>
     sa_sha256 a = ah_sha256 H bs \<and> sa_sizeBytes a = int (length bs))"

lemma normalize_Inr:
  "normalizeArtifactInput H now i = Inr (a, bs) \<Longrightarrow> safe_artifact_id (pu_artifactId i) \<and> sa_artifactId a = pu_artifactId i \<and>
     normalizePayload (pu_payload i) (pu_type i) = Inr bs \<and> sa_sha256 a = ah_sha256 H bs \<and> sa_sizeBytes a = int (length bs)"
  by (auto simp: normalizeArtifactInput_def assertSafeArtifactId_def bind_res_Inr split: if_splits)

lemma shelf_put_ok: "shelf_ok H m \<Longrightarrow> shelf_ok H (snd (shelf_put H now i m))"
  by (auto simp: shelf_put_def shelf_ok_def split: sum.splits option.splits prod.splits if_splits dest: normalize_Inr)

text \<open>A put that may not overwrite leaves what is there, whatever it answers.\<close>

lemma shelf_put_keeps:
  "m j = Some (a, bs) \<Longrightarrow> \<not> pu_allowOverwrite i \<or> pu_artifactId i \<noteq> j \<Longrightarrow> snd (shelf_put H now i m) j = Some (a, bs)"
  by (auto simp: shelf_put_def put_outcome_def split: sum.splits option.splits prod.splits if_splits)

locale artifact_store =
  fixes H :: artifact_host
    and put :: "str \<Rightarrow> put_input \<Rightarrow> ('s, err, stored_artifact) sx"
    and get :: "str \<Rightarrow> 's \<Rightarrow> err + stored_artifact option"
    and verify :: "str \<Rightarrow> 's \<Rightarrow> err + artifact_verification"
    and shelf_of :: "'s \<Rightarrow> shelf"
    and sound :: "'s \<Rightarrow> bool"
    and new :: 's
  assumes new_sound: "sound new" and new_shelf: "shelf_of new = Map.empty"
    and put_sound: "sound s \<Longrightarrow> sound (snd (put now i s))"
    and put_implements: "sound s \<Longrightarrow> fst (put now i s) = fst (shelf_put H now i (shelf_of s)) \<and>
      shelf_of (snd (put now i s)) = snd (shelf_put H now i (shelf_of s))"
    and get_implements: "sound s \<Longrightarrow> safe_artifact_id j \<Longrightarrow> get j s = Inr (map_option fst (shelf_of s j))"
    and verify_implements: "sound s \<Longrightarrow> safe_artifact_id j \<Longrightarrow> verify j s = Inr (shelf_verify H j (shelf_of s))"
begin

definition puts :: "(str \<times> put_input) list \<Rightarrow> 's" where
  "puts ns = foldl (\<lambda>s (now, i). snd (put now i s)) new ns"

lemma puts_snoc: "puts (ns @ [(now, i)]) = snd (put now i (puts ns))"
  by (simp add: puts_def)

lemma puts_shelf:
  "sound (puts ns) \<and> shelf_ok H (shelf_of (puts ns)) \<and>
   shelf_of (puts ns) = foldl (\<lambda>m (now, i). snd (shelf_put H now i m)) Map.empty ns"
proof (induction ns rule: rev_induct)
  case Nil
  then show ?case by (simp add: puts_def new_sound new_shelf shelf_ok_def)
next
  case (snoc ni ns)
  have ok: "shelf_ok H (snd (shelf_put H (fst ni) (snd ni) (shelf_of (puts ns))))"
    by (rule shelf_put_ok) (use snoc in blast)
  have "shelf_of (puts (ns @ [ni])) = snd (shelf_put H (fst ni) (snd ni) (shelf_of (puts ns)))" "sound (puts (ns @ [ni]))"
    using put_implements [of "puts ns" "fst ni" "snd ni"] put_sound [of "puts ns"] snoc puts_snoc [of ns "fst ni" "snd ni"] by simp_all
  then show ?case using ok snoc by (cases ni) simp
qed

text \<open>Everything found verifies.\<close>

lemma found_verifies:
  assumes "get j (puts ns) = Inr (Some a)" and "safe_artifact_id j"
  shows "sa_artifactId a = j \<and> (\<exists>r. verify j (puts ns) = Inr r \<and> va_ok r \<and> va_expectedSha256 r = Some (sa_sha256 a))"
proof -
  note p = puts_shelf [of ns]
  from assms get_implements [of "puts ns" j] p obtain bs where m: "shelf_of (puts ns) j = Some (a, bs)" by auto
  then have "sa_sha256 a = ah_sha256 H bs" "sa_artifactId a = j" using p by (auto simp: shelf_ok_def)
  then show ?thesis using verify_implements [of "puts ns" j] p m assms(2)
    by (simp add: shelf_verify_def createVerificationResult_def)
qed

text \<open>What is found stays as long as nothing may overwrite it.\<close>

lemma found_stays:
  assumes "get j (puts ns) = Inr (Some a)" and "safe_artifact_id j"
    and "\<forall>(now, i) \<in> set later. \<not> pu_allowOverwrite i \<or> pu_artifactId i \<noteq> j"
  shows "get j (puts (ns @ later)) = Inr (Some a)"
proof -
  from assms(1,2) get_implements [of "puts ns" j] puts_shelf [of ns] obtain bs where
    "shelf_of (puts ns) j = Some (a, bs)" by auto
  then have "shelf_of (puts (ns @ later)) j = Some (a, bs)"
    using assms(3)
  proof (induction later rule: rev_induct)
    case (snoc ni later)
    obtain now i where ni: "ni = (now, i)" by force
    have "shelf_of (puts (ns @ later)) j = Some (a, bs)" using snoc by simp
    then have "snd (shelf_put H now i (shelf_of (puts (ns @ later)))) j = Some (a, bs)"
      by (rule shelf_put_keeps) (use snoc.prems ni in simp)
    then show ?case using put_implements [of "puts (ns @ later)" now i] puts_shelf [of "ns @ later"] puts_snoc [of "ns @ later" now i]
      by (simp add: ni)
  qed simp
  then show ?thesis using get_implements [of "puts (ns @ later)" j] puts_shelf [of "ns @ later"] assms(2) by simp
qed

end

definition mem_shelf :: "art_mem \<Rightarrow> shelf" where
  "mem_shelf s j = (case (map_of (am_artifacts s) j, map_of (am_payloads s) j) of
     (Some a, Some bs) \<Rightarrow> Some (a, bs) | _ \<Rightarrow> None)"

definition mem_sound :: "art_mem \<Rightarrow> bool" where
  "mem_sound s \<longleftrightarrow> (\<forall>j. map_of (am_artifacts s) j = None \<longleftrightarrow> map_of (am_payloads s) j = None)"

lemma mem_shelf_found: "map_option fst (mem_shelf s j) = map_of (am_artifacts s) j" if "mem_sound s"
proof -
  have "map_of (am_artifacts s) j = None \<longleftrightarrow> map_of (am_payloads s) j = None" using that by (simp add: mem_sound_def)
  then show ?thesis by (cases "map_of (am_artifacts s) j"; cases "map_of (am_payloads s) j") (simp_all add: mem_shelf_def)
qed

lemma mem_put_run:
  assumes "mem_sound s"
  shows "mem_sound (snd (memory_putArtifact H now i s)) \<and>
    fst (memory_putArtifact H now i s) = fst (shelf_put H now i (mem_shelf s)) \<and>
    mem_shelf (snd (memory_putArtifact H now i s)) = snd (shelf_put H now i (mem_shelf s))"
proof (cases "normalizeArtifactInput H now i")
  case (Inl e)
  then show ?thesis using assms by (simp add: memory_putArtifact_def shelf_put_def sx_defs)
next
  case (Inr p)
  obtain a bs where p: "p = (a, bs)" by force
  note n = normalize_Inr [OF Inr [unfolded p]]
  note f = mem_shelf_found [OF assms, of "pu_artifactId i"]
  show ?thesis
  proof (cases "put_outcome (map_of (am_artifacts s) (pu_artifactId i)) a i")
    case (Inl e)
    then show ?thesis using assms Inr p n f by (simp add: memory_putArtifact_def shelf_put_def sx_defs)
  next
    case (Inr answer)
    then show ?thesis using assms \<open>normalizeArtifactInput H now i = Inr p\<close> p n f
      by (cases answer) (auto simp: memory_putArtifact_def shelf_put_def sx_defs mem_sound_def mem_shelf_def map_of_update fun_eq_iff)
  qed
qed

interpretation memory_artifacts: artifact_store H "memory_putArtifact H" "\<lambda>j s. Inr (memory_getArtifact j s)"
    "\<lambda>j s. Inr (memory_verifyArtifact H j s)" mem_shelf mem_sound empty_art_mem
  for H
proof unfold_locales
  show "mem_sound empty_art_mem" "mem_shelf empty_art_mem = Map.empty"
    by (simp_all add: mem_sound_def mem_shelf_def empty_art_mem_def fun_eq_iff)
qed (use mem_put_run mem_shelf_found in \<open>auto simp: memory_getArtifact_def memory_verifyArtifact_def shelf_verify_def mem_shelf_def
      mem_sound_def split: option.splits\<close>)

section \<open>The disk\<close>

definition disk_shelf :: "str \<Rightarrow> art_disk \<Rightarrow> shelf" where
  "disk_shelf base disk j = (if safe_artifact_id j
     then case (ad_metadata (dir_at (with_sep base @ j) disk), ad_payload (dir_at (with_sep base @ j) disk)) of
       (Some a, Some bs) \<Rightarrow> Some (a, bs) | _ \<Rightarrow> None
     else None)"

definition disk_sound :: "art_disk \<Rightarrow> bool" where
  "disk_sound disk \<longleftrightarrow> (\<forall>d. ad_metadata (dir_at d disk) = None \<longleftrightarrow> ad_payload (dir_at d disk) = None)"

lemma dir_written:
  "dir_at d (mkdir e disk) = dir_at d disk"
  "dir_at d (write_payload e bs disk) = (if d = e then (dir_at d disk)\<lparr>ad_payload := Some bs\<rparr> else dir_at d disk)"
  "dir_at d (write_metadata e a disk) = (if d = e then (dir_at d disk)\<lparr>ad_metadata := Some a\<rparr> else dir_at d disk)"
  by (auto simp: dir_at_def mkdir_def write_payload_def write_metadata_def map_of_update opt_or_def)

lemma disk_shelf_found:
  "map_option fst (disk_shelf base disk j) = ad_metadata (dir_at (with_sep base @ j) disk)"
  if "disk_sound disk" and "safe_artifact_id j"
proof -
  let ?d = "dir_at (with_sep base @ j) disk"
  have "ad_metadata ?d = None \<longleftrightarrow> ad_payload ?d = None" using that(1) by (simp add: disk_sound_def)
  then show ?thesis using that(2) by (cases "ad_metadata ?d"; cases "ad_payload ?d") (simp_all add: disk_shelf_def)
qed

lemma fs_put_run:
  assumes "resolved_path base" and "disk_sound s"
  shows "disk_sound (snd (disk_putArtifact H base now i s)) \<and>
    fst (disk_putArtifact H base now i s) = fst (shelf_put H now i (disk_shelf base s)) \<and>
    disk_shelf base (snd (disk_putArtifact H base now i s)) = snd (shelf_put H now i (disk_shelf base s))"
proof (cases "normalizeArtifactInput H now i")
  case (Inl e)
  then show ?thesis using assms by (simp add: disk_putArtifact_def shelf_put_def sx_defs)
next
  case (Inr p)
  obtain a bs where p: "p = (a, bs)" by force
  note n = normalize_Inr [OF Inr [unfolded p]]
  note f = disk_shelf_found [OF assms(2), of "pu_artifactId i" base]
  note d = dir_of_id [OF assms(1)]
  show ?thesis
  proof (cases "put_outcome (ad_metadata (dir_at (with_sep base @ pu_artifactId i) s)) a i")
    case (Inl e)
    then show ?thesis using assms Inr p n f by (simp add: disk_putArtifact_def shelf_put_def sx_defs d readArtifactMetadata_def)
  next
    case (Inr answer)
    then show ?thesis using assms \<open>normalizeArtifactInput H now i = Inr p\<close> p n f
      by (cases answer) (auto simp: disk_putArtifact_def shelf_put_def sx_defs d readArtifactMetadata_def disk_sound_def disk_shelf_def
          dir_written fun_eq_iff)
  qed
qed

interpretation disk_artifacts: artifact_store H "disk_putArtifact H (posix_resolve cwd dir)" "disk_getArtifact (posix_resolve cwd dir)"
    "disk_verifyArtifact H (posix_resolve cwd dir)" "disk_shelf (posix_resolve cwd dir)" disk_sound "[]"
  for H cwd dir
proof unfold_locales
  show "disk_sound []" "disk_shelf (posix_resolve cwd dir) [] = Map.empty"
    by (simp_all add: disk_sound_def disk_shelf_def dir_at_def empty_dir_def opt_or_def fun_eq_iff)
next
  fix s j
  assume s: "disk_sound s" and j: "safe_artifact_id j"
  let ?base = "posix_resolve cwd dir"
  note f = disk_shelf_found [OF s j, of ?base]
  show get: "disk_getArtifact ?base j s = Inr (map_option fst (disk_shelf ?base s j))"
    using j f by (simp add: disk_getArtifact_def dir_of_id [OF resolve_resolved] readArtifactMetadata_def)
  show "disk_verifyArtifact H ?base j s = Inr (shelf_verify H j (disk_shelf ?base s))"
    using j f unfolding disk_verifyArtifact_def get
    by (auto simp: shelf_verify_def dir_of_id [OF resolve_resolved] disk_shelf_def split: option.splits)
qed (use fs_put_run [OF resolve_resolved] in auto)

section \<open>Both stores\<close>

text \<open>
  The artifact stores are one store. After any puts from the empty stores, refused ones included,
  the store on disk answers every get, verification and further put for a safe id as the store in memory does.
\<close>

theorem artifact_stores_agree:
  assumes "safe_artifact_id j"
  shows "disk_getArtifact (posix_resolve cwd dir) j (disk_artifacts.puts H cwd dir ns) =
      Inr (memory_getArtifact j (memory_artifacts.puts H ns)) \<and>
    disk_verifyArtifact H (posix_resolve cwd dir) j (disk_artifacts.puts H cwd dir ns) =
      Inr (memory_verifyArtifact H j (memory_artifacts.puts H ns)) \<and>
    fst (disk_putArtifact H (posix_resolve cwd dir) now i (disk_artifacts.puts H cwd dir ns)) =
      fst (memory_putArtifact H now i (memory_artifacts.puts H ns))"
proof -
  let ?d = "disk_artifacts.puts H cwd dir ns" and ?m = "memory_artifacts.puts H ns"
  note d = disk_artifacts.puts_shelf [where H = H and cwd = cwd and dir = dir and ns = ns]
    and m = memory_artifacts.puts_shelf [where H = H and ns = ns]
  have "mem_shelf ?m = disk_shelf (posix_resolve cwd dir) ?d" using d m by simp
  then show ?thesis
    using disk_artifacts.get_implements [OF _ assms, of ?d cwd dir] disk_artifacts.verify_implements [OF _ assms, of ?d H cwd dir]
      disk_artifacts.put_implements [where s = ?d and H = H and now = now and i = i]
      memory_artifacts.get_implements [OF _ assms, of ?m] memory_artifacts.verify_implements [OF _ assms, of ?m H]
      memory_artifacts.put_implements [where s = ?m and H = H and now = now and i = i] d m by simp
qed

text \<open>
  What the store holds verifies and stays. After any puts, an artifact found for a safe id is
  the one of that id and its payload has the hash and length on record; it is found unchanged after
  any further puts that are for other ids or may not overwrite.
\<close>

theorem artifacts_verified_and_kept:
  assumes "safe_artifact_id j" and "disk_getArtifact (posix_resolve cwd dir) j (disk_artifacts.puts H cwd dir ns) = Inr (Some a)"
    and "\<forall>(now, i) \<in> set later. \<not> pu_allowOverwrite i \<or> pu_artifactId i \<noteq> j"
  shows "sa_artifactId a = j \<and>
    (\<exists>r. disk_verifyArtifact H (posix_resolve cwd dir) j (disk_artifacts.puts H cwd dir ns) = Inr r \<and> va_ok r) \<and>
    disk_getArtifact (posix_resolve cwd dir) j (disk_artifacts.puts H cwd dir (ns @ later)) = Inr (Some a)"
  using disk_artifacts.found_verifies [OF assms(2,1)] disk_artifacts.found_stays [OF assms(2,1,3)] by blast

section \<open>Limits\<close>

text \<open>
  Two puts of the same new id that overlap: both find nothing, then both write. With the writes
  interleaved like this the record is of one and the payload of the other.
\<close>

lemma artifact_race:
  assumes "readArtifactMetadata d disk = None" and "getArtifactDir base j = Inr d"
    and "normalizeArtifactInput H n1 i1 = Inr (a, p)" "normalizeArtifactInput H n2 i2 = Inr (b, q)"
    and "sa_sha256 a \<noteq> sa_sha256 b"
  shows "put_outcome (readArtifactMetadata d disk) a i1 = Inr None \<and> put_outcome (readArtifactMetadata d disk) b i2 = Inr None \<and>
    (\<exists>r. disk_verifyArtifact H base j
       (write_metadata d a (write_metadata d b (write_payload d q (write_payload d p (mkdir d (mkdir d disk)))))) = Inr r \<and> \<not> va_ok r)"
  using assms(1,2,5) normalize_Inr [OF assms(4)]
  by (auto simp: put_outcome_def disk_verifyArtifact_def disk_getArtifact_def readArtifactMetadata_def dir_written createVerificationResult_def)

text \<open>One directory with a name that is no artifact id makes every listing fail.\<close>

lemma unsafe_directory_blocks_listing:
  assumes "resolved_path base" and "d \<in> set (map fst disk)" and "entry_name base d = Some n" and "\<not> safe_artifact_id n"
  shows "\<exists>e. disk_listArtifacts localeCompare base f disk = Inl e"
proof (cases "map_res (\<lambda>name. disk_getArtifact base name disk) (List.map_filter (\<lambda>(d, _). entry_name base d) disk)")
  case (Inl e)
  then show ?thesis by (simp add: disk_listArtifacts_def)
next
  case (Inr ys)
  have "n \<in> set (List.map_filter (\<lambda>(d, _). entry_name base d) disk)"
    using assms(2,3) by (force simp: List.map_filter_def)
  from map_res_mem [OF Inr this] show ?thesis using assms(1,4) by (simp add: disk_getArtifact_def dir_of_id)
qed

text \<open>A put of known content for another task is answered with the artifact of the first task.\<close>

lemma put_answers_other_task:
  assumes "normalizeArtifactInput H now i = Inr (a, p)" and "memory_getArtifact (pu_artifactId i) s = Some old"
    and "sa_sha256 old = sa_sha256 a" and "\<not> pu_allowOverwrite i"
  shows "memory_putArtifact H now i s = (Inr old, s)"
  using assms normalize_Inr [OF assms(1)] by (simp add: memory_putArtifact_def memory_getArtifact_def put_outcome_def sx_defs)

section \<open>An example\<close>

definition demo_put :: "string \<Rightarrow> put_input" where
  "demo_put t = \<lparr>pu_artifactId = js ''a1'', pu_taskId = js ''t'', pu_runId = None, pu_type = js ''text'',
     pu_payload = TextPayload (js t), pu_contentType = None, pu_fileName = None, pu_metadata = None, pu_provenance = None,
     pu_createdAt = None, pu_alreadyRedacted = None, pu_allowOverwrite = False\<rparr>"

definition demo_art_host :: artifact_host where
  "demo_art_host = \<lparr>ah_lower = id, ah_redactText = \<lambda>_ s. s, ah_sha256 = \<lambda>bs. dec_nat (length bs)\<rparr>"

definition demo_base :: str where
  "demo_base = posix_resolve (js ''/w'') (js ''b'')"

lemma demo_puts:
  "disk_artifacts.puts demo_art_host (js ''/w'') (js ''b'') [(js ''n'', demo_put ''xy'')] =
   snd (disk_putArtifact demo_art_host demo_base (js ''n'') (demo_put ''xy'') [])"
  by (simp add: disk_artifacts.puts_def demo_base_def)

lemma demo_found:
  "disk_getArtifact demo_base (js ''a1'') (snd (disk_putArtifact demo_art_host demo_base (js ''n'') (demo_put ''xy'') [])) =
   Inr (Some \<lparr>sa_artifactId = js ''a1'', sa_taskId = js ''t'', sa_runId = None, sa_type = js ''text'',
     sa_uri = js ''artifact://a1/payload'', sa_sha256 = js ''2'', sa_sizeBytes = 2, sa_createdAt = js ''n'',
     sa_contentType = None, sa_fileName = None, sa_metadata = [], sa_provenance = [], sa_alreadyRedacted = False\<rparr>)"
  by code_simp

lemma demo_safe: "safe_artifact_id (js ''a1'')"
  by code_simp

theorem artifact_stores_agree_witness:
  "disk_getArtifact demo_base (js ''a1'') (disk_artifacts.puts demo_art_host (js ''/w'') (js ''b'') [(js ''n'', demo_put ''xy'')]) =
   Inr (memory_getArtifact (js ''a1'') (memory_artifacts.puts demo_art_host [(js ''n'', demo_put ''xy'')]))"
  using artifact_stores_agree [OF demo_safe] by (simp add: demo_base_def)

theorem artifacts_verified_and_kept_witness:
  "disk_getArtifact demo_base (js ''a1'') (disk_artifacts.puts demo_art_host (js ''/w'') (js ''b'')
     ([(js ''n'', demo_put ''xy'')] @ [(js ''m'', demo_put ''xyz'')])) =
   disk_getArtifact demo_base (js ''a1'') (disk_artifacts.puts demo_art_host (js ''/w'') (js ''b'') [(js ''n'', demo_put ''xy'')])"
proof -
  note found = demo_found [folded demo_puts]
  have "\<forall>(now, i) \<in> set [(js ''m'', demo_put ''xyz'')]. \<not> pu_allowOverwrite i \<or> pu_artifactId i \<noteq> js ''a1''"
    by (simp add: demo_put_def)
  from artifacts_verified_and_kept [OF demo_safe found [unfolded demo_base_def] this] found
  show ?thesis by (simp add: demo_base_def)
qed

end
