(* ===== verification/Spec2Isabelle.thy ===== *)
theory Spec2Isabelle
  imports AuthorizationProofs SchedulerRefine RunManagerSpec Eligibility FileLock TaskGraphProofs CapsuleDemo ToolPlanner Routing OperatorReceipt RuntimeControl TaskLogs ArtifactStore
begin

text \<open>
  Verification of the agent kernel of codex-router (\<open>src/packages\<close>).

  The program. A \<open>task\<close> is classified, routed and admitted, becomes a \<open>run\<close> of \<open>steps\<close>, is queued, leased to a
  worker, and may only touch what capabilities, policies and human approvals allow; anomalies
  escalate to a human; what an untrusted worker hands in is verified before it counts. The packages
  modelled here are the ones that take these decisions and keep the state behind them; the other
  packages are front ends, adapters of external programs, evidence records and reports. A path below is
  relative to \<open>src/packages\<close>, and \<open>x\<close> stands for \<open>x/src/index.ts\<close>.

  Vocabulary.
  \<^item> \<open>Prelude\<close>: JavaScript strings as lists of 16-bit code units (\<open>js ''abc''\<close> is a literal), JSON values,
    errors as values, state transformers with exceptions, insertion-ordered maps.
  \<^item> \<open>JsText\<close>: the string methods the code calls and \<open>path.posix.normalize\<close>; \<open>JsRegex\<close>: matching of the regular
    expressions of the sources; \<open>JsDate\<close>: \<open>toISOString\<close> and arithmetic on time values; \<open>JsNumber\<close>: doubles as the
    rationals they denote, every operation rounded to the nearest double; \<open>Utf8\<close>: encoding and decoding.
  \<^item> \<open>Canonical\<close>: the canonical text and hash of \<open>kernel-contracts/src/core.ts\<close> on JSON. \<open>JsonText\<close>: \<open>JSON.parse\<close>, the
    round trip with both printers, and the canonical text of all JavaScript values without fractions: it
    determines the JSON a value stands for up to the order of keys.
  \<^item> \<open>Contracts\<close>, \<open>Governance\<close>: the schemas of \<open>kernel-contracts/src/core.ts\<close> and \<open>codex-governance.ts\<close>, one
    record or datatype per schema and one bool-valued definition for what \<open>parse\<close> checks beyond the
    static type. \<open>RoutingContracts\<close>: those of \<open>contracts\<close>, \<open>policy-config\<close> and \<open>execution-profiles\<close>.

  Authority.
  \<^item> \<open>Capability\<close> (\<open>capability\<close>): scope strings, implication, grants. The decision is
    characterised completely; a recursive grant is confined to its directory for normalised paths, and three
    lemmas show where it is not; canonical strings denote their scopes.
  \<^item> \<open>Authorization\<close>, \<open>AuthorizationProofs\<close> (\<open>authorization-kernel\<close>): facts, risk, ceiling,
    decision. Automatic approval needs every hard boundary green, nothing exceeds the ceiling,
    an unsafe path blocks, risk is monotone, and it is proved on exactly which inputs a decision is returned.
  \<^item> \<open>AdmissionControl\<close>, \<open>ApprovalPermit\<close>, \<open>Eligibility\<close> (\<open>admission-control\<close>, \<open>governance-internal-approval-permit\<close>,
    \<open>execution-eligibility\<close>): the gate before a run. The last one composes the first two with
    \<open>Capability\<close>; what it calls eligible is granted, approved and not blocked, and the permits it accepts
    are unexpired, not revoked and bound to the run.
  \<^item> \<open>ToolRegistry\<close>, \<open>ToolPlanner\<close> (\<open>tool-registry\<close>, \<open>tool-invocation-planner\<close>): manifests, and the plan of one invocation:
    integrity of the records, sandbox, capabilities, permits.

  Routing.
  \<^item> \<open>IntentGate\<close> (\<open>intent-gate\<close>): the class of a task is never lower than its words ask for. \<open>Routing\<close> (\<open>routing-engine\<close>,
    \<open>governance-internal-approval-gate\<close>, \<open>recon-policy\<close>): a decision stays within its policy, and classification, routing
    and gate composed let nothing risky pass unseen.

  State.
  \<^item> \<open>Scheduler\<close>, \<open>SchedulerProofs\<close>, \<open>SchedulerSpec\<close> (class \<open>InMemoryScheduler\<close> of \<open>scheduler\<close>): a state
    machine \<open>sched_step\<close> of atomic transitions, the invariant \<open>sched_inv\<close>, and the methods as
    sequences of transitions. \<open>SchedulerFs\<close>, \<open>SchedulerRefine\<close> (class \<open>FileSystemScheduler\<close>): the document on disk
    describes the state the in-memory class reaches, over whole histories, with calls that throw and a clock
    that moves during a call; the in-memory class is shown readings of the same clock at other points.
  \<^item> \<open>KernelStore\<close> (\<open>kernel-store\<close>): both stores. \<open>KernelContract\<close> states the interface
    \<open>KernelStore\<close> as a locale over an abstract view and interprets it on both classes.
  \<^item> \<open>RunManager\<close>, \<open>RunManagerProofs\<close>, \<open>RunManagerSpec\<close> (\<open>governance-internal-run-manager\<close>): a client of
    that locale. For the sole manager of a directory calls are atomic, dependencies come first, terminal
    records are final; a second manager on the same store loses atomicity.
  \<^item> \<open>FileLock\<close> (the lock file of \<open>kernel-store\<close>, shared with the schedulers): processes, crashes and time as an
    inductive step relation; mutual exclusion while no owner of the lock crashes and every owner writes its
    file in time (others may crash), and a run without it after the crash of an owner.
  \<^item> \<open>TaskGraph\<close>, \<open>TaskGraphProofs\<close> (\<open>task-graph\<close>): traversal, checkpoints, rollback, merges and stores.
  \<^item> \<open>ArtifactStore\<close> (\<open>artifact-store\<close>): both stores implement one abstract shelf; what they hold verifies and stays.
  \<^item> \<open>TaskLogs\<close> (\<open>governance-internal-checkpoint-ledger-v2\<close>, \<open>governance-internal-checkpoint-index\<close>, the stores of
    \<open>governance-internal-execution-observation\<close>): logs per task, in memory and as files of lines.

  Untrusted work.
  \<^item> \<open>CapsuleContracts\<close>, \<open>CapsuleManifest\<close>, \<open>CapsuleDiff\<close>, \<open>ContentStore\<close>, \<open>CapsuleVerifier\<close>, \<open>CapsuleVerifierProofs\<close>,
    \<open>CapsuleReplay\<close>, \<open>CapsuleDemo\<close> (\<open>execution-capsule\<close>): the offline capsule. A loaded tree is authentic whatever the
    store answers; a verified change set is exactly the difference of two trees inside the allowed
    targets; its diffs apply; a receipt is bound to its manifest and verified once; the verification always returns.

  Governance.
  \<^item> \<open>GovState\<close> (\<open>governance-internal-state-manager\<close>, \<open>governance-internal-strategy-router\<close>, \<open>governance-internal-execution-observation\<close>),
    \<open>EntropyRisk\<close> (\<open>governance-internal-entropy-risk\<close>): state, strikes, strategy, risk scores in range.
  \<^item> \<open>Delegation\<close> (\<open>delegation-policy\<close>): what a history earns and what still needs an approval.
  \<^item> \<open>Recovery\<close> (\<open>governance-failure-reducer\<close> and the first part of \<open>governance-internal-recovery-control\<close>): one failure, the arbitration
    packet, the operator action; three strikes over all states the two operations that add anomalies reach.
  \<^item> \<open>OperatorReceipt\<close> (\<open>governance-internal-recovery-control\<close>): receipts of operator actions and their two stores; an action is
    consumed at most once.
  \<^item> \<open>RuntimeControl\<close> (\<open>governance-internal-runtime-control\<close>, \<open>governance-internal-validation-arbiter\<close>): escalation and arbitration.
  \<^item> \<open>Redaction\<close> (\<open>governance-internal-redaction\<close>): audit details hide secret members and are bounded in size.

  Interfaces as locales. \<open>KernelContract\<close> (laws of a kernel store), \<open>content_store\<close> and \<open>replay_store\<close> of the capsule,
  \<open>tool_registry\<close>, \<open>delegation_store\<close>, \<open>receipt_store\<close>, \<open>task_log\<close>, \<open>artifact_store\<close>, and the items owned by a branch in
  \<open>TaskGraphProofs\<close>; each is interpreted on the model's own classes, most on an in-memory and a file-system one.

  Bounds and termination. Loops over lists are structural; \<open>reach_loop\<close> of \<open>TaskGraph\<close> has a
  termination proof by the number of unvisited nodes. Fuel is used in one place, the recursion of
  \<open>JSON.parse\<close> in \<open>JsonText\<close>: \<open>json_fuel\<close> is twice the length of the text plus two, and by \<open>json_parse_fuel\<close> more fuel
  never changes the result, on any text. Counters behind
  generated ids are naturals; the attempts of a queue item and the sizes of lists are unbounded, as in the code.
  The numbers in JSON documents are integers (a document with a fraction is not read); ambiguity, trust
  and risk scores are doubles, the rationals of \<open>JsNumber\<close>. A maximal age of an operator action is an
  integer, so the checks for \<open>NaN\<close> and infinities there have no counterpart.

  What the environment provides is an argument: SHA-256, the ISO date pattern of the schemas and \<open>Date.parse\<close> (text to time
  value or none), Unicode normalisation, \<open>toLowerCase\<close>, \<open>localeCompare\<close>, \<open>path.isAbsolute\<close> of the host, the redaction
  of free text (regular expressions over prose), the hash of the command line manifest, clocks and random numbers. The
  theorems name what they assume of them.

  Not modelled. Reading and writing a JSON file is atomic between \<open>readFile\<close> and \<open>rename\<close> in the file-system
  stores, and the text of the document, or of a line of a log, is its value; timeouts of the lock and I/O
  errors end a call before it changes anything; a snapshot of the lock file is taken in one step. The static types of
  TypeScript are taken as given, so a schema parse checks only what goes beyond them, and the walk over
  accessors and proxies of the capsule is the distinction between plain JSON data and the rest. The
  test-only fake worker, the YAML policy loader, the executors, dispatch, sandbox and audit records of the
  recovery control, provider execution, workspace writes, the adapters of Codex, MCP and A2A, the front ends and
  the audit scripts are input and output around the kernel and are left out.
\<close>

end
